(* ===== verification/Prelude.thy ===== *)
theory Prelude
  imports Main "HOL-Library.Char_ord" "HOL-Library.List_Lexorder" "HOL-Library.Product_Lexorder"
begin

text \<open>
  Shared vocabulary of the development.  The exceptions the modelled code raises are the
  constructors of \<open>pyerr\<close>; an operation that may raise returns a \<open>result\<close>, with \<open>Inl\<close> for
  the exception.  SQLite tables are lists of row records in row-id order, and the four
  statement forms the repositories use (select, update, delete, fetchone) are the table
  operations below.  The collections \<open>table_simps\<close> and \<open>result_simps\<close> carry the component
  proofs.
\<close>

section \<open>Exceptions and results\<close>

datatype pyerr =
    ValueError string
  | TypeError
  | AttributeError
  | KeyError string
  | IndexError
  | RuntimeError string
  | IntegrityError string
  | ActiveTaskNotFoundError string
  | ActiveTaskConflictError string
  | ActiveTaskVersionConflictError string int
  | TaskContextDisabledError
  | UnknownToolCapabilitiesError string
  | PlanNotFoundError string
  | RunNotFoundError string
  | RunWriterConflictError string
  | RunManagerClosingError
  | RunIdempotencyConflictError string
  | RunReferenceNotFoundError string string
  | RunReferenceConversationMismatchError string string
  | TaskNotificationTransitionError string
  | MutationAdmissionClosed
  | ServerBusyError "string list" "string list"
  | SandboxViolation string
  | CorruptConversationError
  | RecursionError

type_synonym 'a result = "pyerr + 'a"

named_theorems result_simps \<open>equations of the result combinators\<close>
named_theorems table_simps \<open>equations of the table operations\<close>

definition bind_result :: "'a result \<Rightarrow> ('a \<Rightarrow> 'b result) \<Rightarrow> 'b result" where
  "bind_result m f = (case m of Inl e \<Rightarrow> Inl e | Inr x \<Rightarrow> f x)"

definition map_result :: "('a \<Rightarrow> 'b) \<Rightarrow> 'a result \<Rightarrow> 'b result" where
  "map_result f m = (case m of Inl e \<Rightarrow> Inl e | Inr x \<Rightarrow> Inr (f x))"

text \<open>An except clause that replaces the exception and never a value.\<close>

definition on_error :: "(pyerr \<Rightarrow> pyerr) \<Rightarrow> 'a result \<Rightarrow> 'a result" where
  "on_error h m = (case m of Inl e \<Rightarrow> Inl (h e) | Inr x \<Rightarrow> Inr x)"

lemma bind_result_simps [simp, result_simps]:
  "bind_result (Inl e) f = Inl e"
  "bind_result (Inr x) f = f x"
  by (simp_all add: bind_result_def)

lemma map_result_simps [simp, result_simps]:
  "map_result g (Inl e) = Inl e"
  "map_result g (Inr x) = Inr (g x)"
  by (simp_all add: map_result_def)

lemma on_error_simps [simp, result_simps]:
  "on_error h (Inl e) = Inl (h e)"
  "on_error h (Inr x) = Inr x"
  by (simp_all add: on_error_def)

lemma bind_result_eq_Inr: "bind_result m f = Inr y \<longleftrightarrow> (\<exists>x. m = Inr x \<and> f x = Inr y)"
  by (cases m) auto

lemma map_result_eq_Inr: "map_result f m = Inr y \<longleftrightarrow> (\<exists>x. m = Inr x \<and> f x = y)"
  by (cases m) auto

lemma on_error_eq_Inr [simp]: "on_error h m = Inr y \<longleftrightarrow> m = Inr y"
  by (cases m) auto

text \<open>Guards: a branch that raises is not the one that returned.\<close>

lemma guard_eq_Inr: "(if P then Inl e else m) = Inr y \<longleftrightarrow> \<not> P \<and> m = Inr y"
  by simp

lemma option_guard_eq_Inr:
  "(case x of None \<Rightarrow> Inl e | Some t \<Rightarrow> f t) = Inr y \<longleftrightarrow> (\<exists>t. x = Some t \<and> f t = Inr y)"
  by (cases x) auto

lemmas result_guards = guard_eq_Inr option_guard_eq_Inr bind_result_eq_Inr map_result_eq_Inr

text \<open>A for loop whose body may raise: the first exception ends it.\<close>

fun mapM_result :: "('a \<Rightarrow> 'b result) \<Rightarrow> 'a list \<Rightarrow> 'b list result" where
  "mapM_result f [] = Inr []"
| "mapM_result f (x # xs) =
     (case f x of Inl e \<Rightarrow> Inl e
      | Inr y \<Rightarrow> (case mapM_result f xs of Inl e \<Rightarrow> Inl e | Inr ys \<Rightarrow> Inr (y # ys)))"

lemma mapM_result_length: "mapM_result f xs = Inr ys \<Longrightarrow> length ys = length xs"
  by (induction xs arbitrary: ys) (auto split: sum.splits)

lemma mapM_result_Inr_map: "(\<And>x. x \<in> set xs \<Longrightarrow> f x = Inr (g x)) \<Longrightarrow> mapM_result f xs = Inr (map g xs)"
  by (induction xs) auto

lemma mapM_result_map: "mapM_result f (map g xs) = mapM_result (f \<circ> g) xs"
  by (induction xs) (auto split: sum.splits)

lemma mapM_result_cong: "(\<And>x. x \<in> set xs \<Longrightarrow> f x = g x) \<Longrightarrow> mapM_result f xs = mapM_result g xs"
  by (induction xs) (simp_all split: sum.split)

lemma mapM_result_all: "mapM_result f xs = Inr ys \<Longrightarrow> list_all2 (\<lambda>x y. f x = Inr y) xs ys"
  by (induction xs arbitrary: ys) (auto split: sum.splits)

section \<open>Truth values of optional strings\<close>

text \<open>
  Python tests an optional string by truth: both \<open>None\<close> and the empty string are false.
  \<open>or_empty\<close> is \<open>x or ''\<close>, \<open>or_none\<close> is \<open>x or None\<close>.
\<close>

definition truthy_opt :: "string option \<Rightarrow> bool" where
  "truthy_opt x = (case x of None \<Rightarrow> False | Some s \<Rightarrow> s \<noteq> [])"

definition or_empty :: "string option \<Rightarrow> string" where
  "or_empty x = (case x of None \<Rightarrow> [] | Some s \<Rightarrow> s)"

definition or_none :: "string option \<Rightarrow> string option" where
  "or_none x = (case x of None \<Rightarrow> None | Some s \<Rightarrow> if s = [] then None else Some s)"

lemma truthy_opt_simps [simp]:
  "truthy_opt None = False"
  "truthy_opt (Some s) = (s \<noteq> [])"
  by (simp_all add: truthy_opt_def)

lemma or_empty_simps [simp]:
  "or_empty None = []"
  "or_empty (Some s) = s"
  by (simp_all add: or_empty_def)

section \<open>Tables\<close>

definition select :: "('r \<Rightarrow> bool) \<Rightarrow> 'r list \<Rightarrow> 'r list" where
  "select P t = filter P t"

definition update_rows :: "('r \<Rightarrow> bool) \<Rightarrow> ('r \<Rightarrow> 'r) \<Rightarrow> 'r list \<Rightarrow> 'r list" where
  "update_rows P f t = map (\<lambda>r. if P r then f r else r) t"

definition delete_rows :: "('r \<Rightarrow> bool) \<Rightarrow> 'r list \<Rightarrow> 'r list" where
  "delete_rows P t = filter (\<lambda>r. \<not> P r) t"

definition fetchone :: "'r list \<Rightarrow> 'r option" where
  "fetchone t = (case t of [] \<Rightarrow> None | r # _ \<Rightarrow> Some r)"

definition rowcount :: "('r \<Rightarrow> bool) \<Rightarrow> 'r list \<Rightarrow> nat" where
  "rowcount P t = length (filter P t)"

lemma fetchone_simps [simp, table_simps]:
  "fetchone [] = None"
  "fetchone (r # t) = Some r"
  by (simp_all add: fetchone_def)

lemma select_simps [simp, table_simps]:
  "select P [] = []"
  "select P (r # t) = (if P r then r # select P t else select P t)"
  "select P (t @ u) = select P t @ select P u"
  by (simp_all add: select_def)

lemma set_select [simp, table_simps]: "set (select P t) = {r \<in> set t. P r}"
  by (simp add: select_def)

lemma set_delete_rows [simp, table_simps]: "set (delete_rows P t) = {r \<in> set t. \<not> P r}"
  by (simp add: delete_rows_def)

lemma set_update_rows [table_simps]:
  "set (update_rows P f t) = {r \<in> set t. \<not> P r} \<union> f ` {r \<in> set t. P r}"
  by (auto simp: update_rows_def)

lemma fetchone_eq_None [simp, table_simps]: "fetchone t = None \<longleftrightarrow> t = []"
  by (cases t) auto

lemma fetchone_in_set: "fetchone t = Some r \<Longrightarrow> r \<in> set t"
  by (cases t) auto

lemma fetchone_select_SomeD: "fetchone (select P t) = Some r \<Longrightarrow> r \<in> set t \<and> P r"
  by (metis (mono_tags, lifting) fetchone_in_set mem_Collect_eq set_select)

lemma fetchone_select_None: "fetchone (select P t) = None \<longleftrightarrow> (\<forall>r \<in> set t. \<not> P r)"
  by (auto simp: select_def filter_empty_conv)

lemma select_delete_rows: "select P (delete_rows Q t) = select (\<lambda>r. P r \<and> \<not> Q r) t"
  by (induction t) (auto simp: delete_rows_def select_def)

lemma select_update_rows:
  "(\<And>r. r \<in> set t \<Longrightarrow> Q r \<Longrightarrow> P (f r) = P r) \<Longrightarrow>
   select P (update_rows Q f t) = update_rows Q f (select P t)"
  by (induction t) (auto simp: select_def update_rows_def)

lemma update_rows_none: "(\<And>r. r \<in> set t \<Longrightarrow> \<not> P r) \<Longrightarrow> update_rows P f t = t"
  by (simp add: update_rows_def map_idI)

lemma delete_rows_none: "(\<And>r. r \<in> set t \<Longrightarrow> \<not> P r) \<Longrightarrow> delete_rows P t = t"
  by (simp add: delete_rows_def)

lemma fetchone_update_rows:
  "fetchone (update_rows P f t) = map_option (\<lambda>r. if P r then f r else r) (fetchone t)"
  by (cases t) (auto simp: update_rows_def)

lemma map_update_rows_key:
  "(\<And>r. r \<in> set t \<Longrightarrow> P r \<Longrightarrow> key (f r) = key r) \<Longrightarrow> map key (update_rows P f t) = map key t"
  by (auto simp: update_rows_def)

lemma distinct_map_delete_rows: "distinct (map key t) \<Longrightarrow> distinct (map key (delete_rows P t))"
  by (simp add: delete_rows_def distinct_map_filter)

lemma rowcount_0_iff: "rowcount P t = 0 \<longleftrightarrow> (\<forall>r \<in> set t. \<not> P r)"
  by (simp add: rowcount_def filter_empty_conv)

text \<open>A primary key makes the row with a given key unique.\<close>

lemma select_unique_key:
  assumes "distinct (map key t)" and "r \<in> set t"
  shows "select (\<lambda>x. key x = key r) t = [r]"
  using assms
proof (induction t)
  case Nil
  then show ?case by simp
next
  case (Cons x t)
  show ?case
  proof (cases "x = r")
    case True
    with Cons.prems have "key r \<notin> key ` set t" by simp
    then have "\<forall>y \<in> set t. key y \<noteq> key r" by (metis imageI)
    with True show ?thesis by (simp add: select_def filter_empty_conv)
  next
    case False
    with Cons.prems have "r \<in> set t" by auto
    moreover with Cons.prems have "key x \<noteq> key r" by force
    ultimately show ?thesis using Cons by simp
  qed
qed

lemma fetchone_unique_key:
  "distinct (map key t) \<Longrightarrow> r \<in> set t \<Longrightarrow> key r = k \<Longrightarrow> fetchone (select (\<lambda>x. key x = k) t) = Some r"
  using select_unique_key by fastforce

section \<open>Dictionaries in insertion order\<close>

text \<open>
  A Python dict keeps its insertion order: assigning a present key keeps its place,
  a new key goes last.
\<close>

fun dict_set :: "'k \<Rightarrow> 'v \<Rightarrow> ('k \<times> 'v) list \<Rightarrow> ('k \<times> 'v) list" where
  "dict_set k v [] = [(k, v)]"
| "dict_set k v ((k', v') # d) = (if k' = k then (k, v) # d else (k', v') # dict_set k v d)"

definition dict_pop :: "'k \<Rightarrow> ('k \<times> 'v) list \<Rightarrow> ('k \<times> 'v) list" where
  "dict_pop k d = filter (\<lambda>p. fst p \<noteq> k) d"

definition dict_setdefault :: "'k \<Rightarrow> 'v \<Rightarrow> ('k \<times> 'v) list \<Rightarrow> ('k \<times> 'v) list" where
  "dict_setdefault k v d = (case map_of d k of Some _ \<Rightarrow> d | None \<Rightarrow> d @ [(k, v)])"

definition dict_update :: "('k \<times> 'v) list \<Rightarrow> ('k \<times> 'v) list \<Rightarrow> ('k \<times> 'v) list" where
  "dict_update d u = fold (\<lambda>(k, v). dict_set k v) u d"

lemma map_of_dict_set [simp, table_simps]: "map_of (dict_set k v d) = (map_of d)(k \<mapsto> v)"
  by (induction d) (auto simp: fun_eq_iff)

lemma map_of_dict_pop [simp, table_simps]: "map_of (dict_pop k d) = (map_of d)(k := None)"
  by (induction d) (auto simp: dict_pop_def fun_eq_iff)

lemma map_of_dict_setdefault [simp, table_simps]:
  "map_of (dict_setdefault k v d) = (case map_of d k of None \<Rightarrow> (map_of d)(k \<mapsto> v) | Some _ \<Rightarrow> map_of d)"
  by (auto simp: dict_setdefault_def map_add_def fun_eq_iff split: option.split)

lemma dict_set_present: "map_of d k = Some v \<Longrightarrow> map fst (dict_set k v' d) = map fst d"
  by (induction d) (auto split: if_splits)

lemma fst_set_dict_set [simp]: "fst ` set (dict_set k v d) = insert k (fst ` set d)"
proof -
  have "dom (map_of (dict_set k v d)) = insert k (dom (map_of d))" by simp
  then show ?thesis by (simp only: dom_map_of_conv_image_fst)
qed

lemma distinct_dict_set: "distinct (map fst d) \<Longrightarrow> distinct (map fst (dict_set k v d))"
  by (induction d) auto

lemma distinct_dict_pop: "distinct (map fst d) \<Longrightarrow> distinct (map fst (dict_pop k d))"
  by (simp add: dict_pop_def distinct_map_filter)

end
