(* ===== verification/Db.thy ===== *)
theory Db
  imports PyVal
begin

text \<open>
  The SQLite database (\<open>persistence/schema.py\<close>, \<open>database.py\<close>) and the text content store
  over it (\<open>content.py\<close>, \<open>blob_store.py\<close>).  The database is a record of tables, a table a
  list of row records.  An insert checks the constraints of the schema and answers
  \<open>IntegrityError\<close>; a delete carries out the cascades.  A transaction is a function from the
  database to a result: on an exception the tables are those before it.  The files under
  \<open>blobs/\<close> are the map \<open>files\<close> from stored paths to contents; \<open>sha256\<close> and \<open>gzip\<close> are the
  parameter \<open>codec\<close>.
\<close>

section \<open>Tables\<close>

record blob_row =
  bl_id :: string
  bl_path :: string
  bl_compression :: string
  bl_byte_size :: nat
  bl_stored_size :: nat

record conversation_row =
  cv_id :: string
  cv_title :: string
  cv_root_node_id :: "string option"
  cv_current_node_id :: "string option"
  cv_provider_id :: "string option"
  cv_model_id :: "string option"
  cv_reasoning_effort :: "string option"
  cv_thinking_enabled :: "bool option"
  cv_multi_agent_mode :: string
  cv_workspace_json :: "string option"
  cv_created_at :: int
  cv_updated_at :: int

record node_row =
  nd_id :: string
  nd_conversation_id :: string
  nd_parent_id :: "string option"
  nd_child_order :: int
  nd_depth :: int
  nd_status :: string
  nd_model_id :: "string option"
  nd_provider_id :: "string option"
  nd_tool_permission_mode :: "string option"
  nd_task_context_mode :: string
  nd_turn_usage_json :: "string option"
  nd_branch_usage_json :: "string option"
  nd_active_context_usage_json :: "string option"
  nd_created_at :: int
  nd_updated_at :: int

record message_row =
  mg_id :: string
  mg_conversation_id :: string
  mg_node_id :: "string option"
  mg_role :: string
  mg_subtype :: "string option"
  mg_content_inline :: "string option"
  mg_content_blob_id :: "string option"
  mg_preview :: string
  mg_hidden :: bool
  mg_transcript_only :: bool
  mg_model_route_id :: "string option"
  mg_model_round_index :: "int option"
  mg_metadata_json :: "string option"
  mg_created_at :: int

record model_state_row =
  mi_conversation_id :: string
  mi_assistant_message_id :: string
  mi_item_index :: int
  mi_kind :: string
  mi_payload_inline :: "string option"
  mi_payload_blob_id :: "string option"

record tool_call_row =
  tl_id :: string
  tl_conversation_id :: string
  tl_node_id :: "string option"
  tl_run_id :: "string option"
  tl_assistant_message_id :: "string option"
  tl_call_index :: int
  tl_name :: string
  tl_args_inline :: "string option"
  tl_args_blob_id :: "string option"
  tl_args_preview :: string
  tl_status :: string
  tl_created_at :: int
  tl_updated_at :: int

record tool_result_row =
  tz_id :: string
  tz_conversation_id :: string
  tz_node_id :: "string option"
  tz_run_id :: "string option"
  tz_tool_call_id :: "string option"
  tz_status :: string
  tz_output_preview :: string
  tz_output_blob_id :: "string option"
  tz_output_size :: nat
  tz_truncated :: bool
  tz_metadata_json :: "string option"
  tz_created_at :: int

record usage_row =
  us_model_id :: string
  us_day :: string
  us_calls :: int
  us_input_tokens :: int
  us_output_tokens :: int
  us_total_tokens :: int
  us_cache_hit_tokens :: int
  us_cache_context_tokens :: int
  us_created_at :: int

record run_row =
  r_id :: string
  r_conversation_id :: string
  r_kind :: string
  r_status :: string
  r_created_by :: "string option"
  r_cancellation_parent :: "string option"
  r_anchor_node :: "string option"
  r_target_node :: "string option"
  r_summary :: string
  r_metadata_json :: "string option"
  r_event_count :: nat
  r_created_at :: int
  r_updated_at :: int
  r_finished_at :: "int option"
  r_idempotency_key :: "string option"
  r_request_fingerprint :: "string option"

record run_event_row =
  e_id :: nat
  e_run_id :: string
  e_conversation_id :: string
  e_event_index :: nat
  e_event_type :: string
  e_payload_inline :: "string option"
  e_payload_blob_id :: "string option"
  e_created_at :: int

record plan_row =
  p_id :: string
  p_conversation_id :: string
  p_status :: string
  p_entered_node_id :: "string option"
  p_entered_run_id :: "string option"
  p_approved_run_id :: "string option"
  p_question_tool_call_id :: "string option"
  p_exit_tool_call_id :: "string option"
  p_blocking_node_id :: "string option"
  p_blocking_run_id :: "string option"
  p_previous_permission_mode :: string
  p_created_at :: int
  p_updated_at :: int
  p_approved_at :: "int option"
  p_rejected_at :: "int option"

record active_task_row =
  at_conversation_id :: string
  at_generation_id :: string
  at_revision :: int
  at_title :: string
  at_detail_inline :: "string option"
  at_detail_blob_id :: "string option"
  at_created_by_run_id :: "string option"
  at_created_by_tool_call_id :: "string option"
  at_created_at :: int
  at_updated_at :: int

record active_task_step_row =
  st_conversation_id :: string
  st_position :: int
  st_title :: string
  st_detail_inline :: "string option"
  st_detail_blob_id :: "string option"
  st_status :: string
  st_evidence_run_id :: "string option"
  st_evidence_summary :: string
  st_updated_at :: int

record binding_row =
  b_run_id :: string
  b_conversation_id :: string
  b_task_generation_id :: string
  b_step_position :: int
  b_base_revision :: int
  b_created_at :: int

record notification_row =
  n_id :: string
  n_conversation_id :: string
  n_source_run_id :: string
  n_source_run_kind :: string
  n_status :: string
  n_summary :: string
  n_content :: string
  n_delivery_node_id :: "string option"
  n_delivery_run_id :: "string option"
  n_created_at :: int
  n_updated_at :: int

text \<open>
  \<open>run_event_seq\<close> is the counter of the automatic ids of \<open>run_events\<close>.  Columns no statement
  writes (\<open>settings_json\<close>, \<open>project_id\<close>, the name and usage of a message) are left out.
\<close>

record db =
  conversation_rows :: "conversation_row list"
  nodes :: "node_row list"
  message_rows :: "message_row list"
  model_state_rows :: "model_state_row list"
  tool_call_rows :: "tool_call_row list"
  tool_result_rows :: "tool_result_row list"
  usage_rows :: "usage_row list"
  runs :: "run_row list"
  run_events :: "run_event_row list"
  run_event_seq :: nat
  plans :: "plan_row list"
  active_tasks :: "active_task_row list"
  active_task_steps :: "active_task_step_row list"
  task_run_bindings :: "binding_row list"
  task_notifications :: "notification_row list"
  blobs :: "blob_row list"
  files :: "(string \<times> string) list"

definition db_empty :: db where
  "db_empty =
     \<lparr>conversation_rows = [], nodes = [], message_rows = [], model_state_rows = [], tool_call_rows = [],
      tool_result_rows = [], usage_rows = [], runs = [], run_events = [], run_event_seq = 0, plans = [],
      active_tasks = [], active_task_steps = [], task_run_bindings = [], task_notifications = [],
      blobs = [], files = []\<rparr>"

text \<open>The keys of the conversations, and a row with the defaults of the schema.\<close>

abbreviation conversations :: "db \<Rightarrow> string list" where
  "conversations d \<equiv> map cv_id (conversation_rows d)"

definition plain_conversation :: "string \<Rightarrow> int \<Rightarrow> conversation_row" where
  "plain_conversation c now =
     \<lparr>cv_id = c, cv_title = [], cv_root_node_id = None, cv_current_node_id = None, cv_provider_id = None,
      cv_model_id = None, cv_reasoning_effort = None, cv_thinking_enabled = None,
      cv_multi_agent_mode = ''explicit_request_only'', cv_workspace_json = None,
      cv_created_at = now, cv_updated_at = now\<rparr>"

section \<open>Transactions\<close>

text \<open>\<open>SQLitePersistence.connect\<close>: commit when the body returns, roll back when it raises.\<close>

definition transaction :: "(db \<Rightarrow> ('a \<times> db) result) \<Rightarrow> db \<Rightarrow> 'a result \<times> db" where
  "transaction body d = (case body d of Inl e \<Rightarrow> (Inl e, d) | Inr (x, d') \<Rightarrow> (Inr x, d'))"

lemma transaction_simps:
  "body d = Inl e \<Longrightarrow> transaction body d = (Inl e, d)"
  "body d = Inr (x, d') \<Longrightarrow> transaction body d = (Inr x, d')"
  by (simp_all add: transaction_def)

lemma transaction_error: "transaction body d = (Inl e, d') \<Longrightarrow> d' = d"
  by (auto simp: transaction_def split: sum.splits prod.splits)

lemma transaction_ok: "transaction body d = (Inr x, d') \<longleftrightarrow> body d = Inr (x, d')"
  by (auto simp: transaction_def split: sum.splits prod.splits)

section \<open>Foreign keys\<close>

definition has_node :: "db \<Rightarrow> string \<Rightarrow> string \<Rightarrow> bool" where
  "has_node d c n = (\<exists>r \<in> set (nodes d). nd_id r = n \<and> nd_conversation_id r = c)"

definition has_run :: "db \<Rightarrow> string \<Rightarrow> string \<Rightarrow> bool" where
  "has_run d c i = (\<exists>r \<in> set (runs d). r_id r = i \<and> r_conversation_id r = c)"

definition has_blob :: "db \<Rightarrow> string \<Rightarrow> bool" where
  "has_blob d i = (\<exists>r \<in> set (blobs d). bl_id r = i)"

definition opt_ok :: "('a \<Rightarrow> bool) \<Rightarrow> 'a option \<Rightarrow> bool" where
  "opt_ok P x = (case x of None \<Rightarrow> True | Some y \<Rightarrow> P y)"

lemma opt_ok_simps [simp]:
  "opt_ok P None"
  "opt_ok P (Some y) = P y"
  by (simp_all add: opt_ok_def)

text \<open>\<open>ON DELETE SET NULL\<close>.\<close>

definition forget :: "string set \<Rightarrow> string option \<Rightarrow> string option" where
  "forget gone x = (case x of None \<Rightarrow> None | Some i \<Rightarrow> if i \<in> gone then None else Some i)"

section \<open>Text content and blobs\<close>

record codec =
  sha256 :: "string \<Rightarrow> string"
  gzip_compress :: "string \<Rightarrow> string"
  gzip_decompress :: "string \<Rightarrow> string"

fun utf8_encode :: "string \<Rightarrow> string" where
  "utf8_encode [] = []"
| "utf8_encode (c # s) =
     (if code c < 128 then c # utf8_encode s
      else char_of (192 + code c div 64) # char_of (128 + code c mod 64) # utf8_encode s)"

fun utf8_decode :: "string \<Rightarrow> string option" where
  "utf8_decode [] = Some []"
| "utf8_decode [c] = (if code c < 128 then Some [c] else None)"
| "utf8_decode (c # c' # s) =
     (if code c < 128 then map_option (Cons c) (utf8_decode (c' # s))
      else if (code c = 194 \<or> code c = 195) \<and> 128 \<le> code c' \<and> code c' < 192
      then map_option (Cons (char_of ((code c - 192) * 64 + (code c' - 128)))) (utf8_decode s)
      else None)"

lemma code_less_256: "code c < (256 :: nat)"
  using nat_of_char_less_256 [of c] by simp

lemma utf8_decode_Cons_ascii:
  "code c < 128 \<Longrightarrow> utf8_decode (c # s) = map_option (Cons c) (utf8_decode s)"
  by (cases s) simp_all

lemma utf8_roundtrip [simp]: "utf8_decode (utf8_encode s) = Some s"
proof (induction s)
  case Nil
  then show ?case by simp
next
  case (Cons c s)
  show ?case
  proof (cases "code c < 128")
    case True
    with Cons show ?thesis by (simp add: utf8_decode_Cons_ascii)
  next
    case False
    have lt: "code c < (256 :: nat)" by (rule code_less_256)
    have q: "code c div 64 = (2 :: nat) \<or> code c div 64 = (3 :: nat)"
      using False lt by linarith
    have r: "code c mod 64 < (64 :: nat)" by simp
    have a: "code (char_of (192 + code c div 64 :: nat)) = 192 + code c div 64"
      using q by auto
    have b: "code (char_of (128 + code c mod 64 :: nat)) = 128 + code c mod 64"
      using r by (simp add: take_bit_eq_mod)
    have "code c div 64 * 64 + code c mod 64 = (code c :: nat)" by simp
    with False Cons q r a b show ?thesis by (auto simp add: mult.commute)
  qed
qed

record stored_text =
  s_inline :: "string option"
  s_blob_id :: "string option"
  s_preview :: string
  s_size :: nat

definition INLINE_TEXT_LIMIT :: nat where
  "INLINE_TEXT_LIMIT = 16 * 1024"

definition blob_path :: "string \<Rightarrow> string" where
  "blob_path i = ''blobs/'' @ take 2 i @ ''/'' @ i @ ''.gz''"

text \<open>
  \<open>BlobStore.put_text\<close>: a present row is kept; otherwise the compressed file replaces what
  is at its path and the row is inserted.
\<close>

definition put_text :: "codec \<Rightarrow> string \<Rightarrow> db \<Rightarrow> (string \<times> db) result" where
  "put_text E text d =
     (let data = utf8_encode text; i = sha256 E data; p = blob_path i; z = gzip_compress E data in
      if has_blob d i then Inr (i, d)
      else Inr (i, d\<lparr>files := dict_set p z (files d),
                     blobs := blobs d @ [\<lparr>bl_id = i, bl_path = p, bl_compression = ''gzip'',
                       bl_byte_size = length data, bl_stored_size = length z\<rparr>]\<rparr>))"

text \<open>\<open>BlobStore.get_text_in_connection\<close>.\<close>

definition get_text :: "codec \<Rightarrow> db \<Rightarrow> string \<Rightarrow> string result" where
  "get_text E d i =
     (case fetchone (select (\<lambda>r. bl_id r = i) (blobs d)) of
        None \<Rightarrow> Inl (KeyError (repr_str i))
      | Some r \<Rightarrow>
          (case map_of (files d) (bl_path r) of
             None \<Rightarrow> Inl (KeyError (repr_str i))
           | Some z \<Rightarrow>
               (case utf8_decode (if bl_compression r = ''gzip'' then gzip_decompress E z else z) of
                  None \<Rightarrow> Inl (ValueError ''utf-8'')
                | Some t \<Rightarrow> Inr t)))"

text \<open>
  \<open>store_text_content\<close>: text of at most 16 KiB is stored in the row itself, longer text in a
  blob of its own transaction.
\<close>

definition store_text_content :: "codec \<Rightarrow> string \<Rightarrow> db \<Rightarrow> (stored_text \<times> db) result" where
  "store_text_content E text d =
     (let size = length (utf8_encode text) in
      if size \<le> INLINE_TEXT_LIMIT
      then Inr (\<lparr>s_inline = Some text, s_blob_id = None, s_preview = take 4096 text, s_size = size\<rparr>, d)
      else map_result
        (\<lambda>(i, d'). (\<lparr>s_inline = None, s_blob_id = Some i, s_preview = take 4096 text, s_size = size\<rparr>, d'))
        (put_text E text d))"

text \<open>The repositories' \<open>_read_text\<close>.\<close>

definition read_text :: "codec \<Rightarrow> db \<Rightarrow> string option \<Rightarrow> string option \<Rightarrow> string result" where
  "read_text E d inline blob =
     (case inline of
        Some t \<Rightarrow> Inr t
      | None \<Rightarrow> (if truthy_opt blob then get_text E d (or_empty blob) else Inr []))"

text \<open>
  \<open>SQLitePersistence.reclaim_blobs\<close>: rows no column refers to are deleted, then the files
  no row names.  The foreign keys of the schema are the columns it looks at.
\<close>

definition is_referenced :: "db \<Rightarrow> string \<Rightarrow> bool" where
  "is_referenced d i =
     (Some i \<in> mg_content_blob_id ` set (message_rows d)
      \<or> Some i \<in> mi_payload_blob_id ` set (model_state_rows d)
      \<or> Some i \<in> tl_args_blob_id ` set (tool_call_rows d)
      \<or> Some i \<in> tz_output_blob_id ` set (tool_result_rows d)
      \<or> Some i \<in> e_payload_blob_id ` set (run_events d)
      \<or> Some i \<in> at_detail_blob_id ` set (active_tasks d)
      \<or> Some i \<in> st_detail_blob_id ` set (active_task_steps d))"

definition reclaim_blobs :: "db \<Rightarrow> nat \<times> db" where
  "reclaim_blobs d =
     (let stale = (\<lambda>r. \<not> is_referenced d (bl_id r));
          kept = delete_rows stale (blobs d);
          tracked = map bl_path kept in
      (length (select stale (blobs d)),
       d\<lparr>blobs := kept, files := filter (\<lambda>p. fst p \<in> set tracked) (files d)\<rparr>))"

section \<open>What the content store keeps\<close>

text \<open>
  Decompression inverts compression and no two texts share a digest.  Every blob row names
  the file of its digest, and that file holds the compressed text.
\<close>

definition codec_ok :: "codec \<Rightarrow> bool" where
  "codec_ok E =
     ((\<forall>x. gzip_decompress E (gzip_compress E x) = x) \<and> inj (sha256 E) \<and> (\<forall>x. sha256 E x \<noteq> []))"

definition blob_row_ok :: "codec \<Rightarrow> db \<Rightarrow> blob_row \<Rightarrow> bool" where
  "blob_row_ok E d r =
     (bl_path r = blob_path (bl_id r) \<and> bl_compression r = ''gzip'' \<and>
      (\<exists>t. bl_id r = sha256 E (utf8_encode t) \<and>
           map_of (files d) (bl_path r) = Some (gzip_compress E (utf8_encode t))))"

definition blobs_ok :: "codec \<Rightarrow> db \<Rightarrow> bool" where
  "blobs_ok E d = (distinct (map bl_id (blobs d)) \<and> (\<forall>r \<in> set (blobs d). blob_row_ok E d r))"

lemma blobs_okE:
  assumes "blobs_ok E d" and "r \<in> set (blobs d)"
  obtains t where "bl_path r = blob_path (bl_id r)" and "bl_compression r = ''gzip''"
    and "bl_id r = sha256 E (utf8_encode t)"
    and "map_of (files d) (bl_path r) = Some (gzip_compress E (utf8_encode t))"
proof -
  from assms have "blob_row_ok E d r" by (simp add: blobs_ok_def)
  with that show thesis unfolding blob_row_ok_def by blast
qed

lemma utf8_encode_inj: "utf8_encode s = utf8_encode t \<Longrightarrow> s = t"
  by (metis option.inject utf8_roundtrip)

lemma blob_path_inj: "blob_path i = blob_path j \<Longrightarrow> i = j"
proof -
  assume eq: "blob_path i = blob_path j"
  then have t: "take 2 i @ ''/'' @ i @ ''.gz'' = take 2 j @ ''/'' @ j @ ''.gz''"
    by (simp add: blob_path_def)
  then have "length (take 2 i @ ''/'' @ i @ ''.gz'') = length (take 2 j @ ''/'' @ j @ ''.gz'')"
    by (rule arg_cong)
  then have "length i = length j" by (simp add: min_def split: if_splits)
  with t show "i = j" by simp
qed

lemma get_text_ok:
  assumes "codec_ok E" and "blobs_ok E d" and "has_blob d (sha256 E (utf8_encode t))"
  shows "get_text E d (sha256 E (utf8_encode t)) = Inr t"
proof -
  let ?i = "sha256 E (utf8_encode t)"
  from assms(3) obtain r where r: "r \<in> set (blobs d)" "bl_id r = ?i" by (auto simp: has_blob_def)
  with assms(2) obtain u where u: "bl_compression r = ''gzip''" "?i = sha256 E (utf8_encode u)"
      "map_of (files d) (bl_path r) = Some (gzip_compress E (utf8_encode u))"
    by (metis blobs_okE)
  have "utf8_encode t = utf8_encode u" using u(2) assms(1) by (meson codec_ok_def injD)
  then have "u = t" using utf8_encode_inj by simp
  moreover have "fetchone (select (\<lambda>r. bl_id r = ?i) (blobs d)) = Some r"
    using assms(2) r by (auto simp: blobs_ok_def intro: fetchone_unique_key)
  ultimately show ?thesis using u(1,3) assms(1) by (simp add: get_text_def codec_ok_def)
qed

lemma has_blob_text:
  "blobs_ok E d \<Longrightarrow> has_blob d i \<Longrightarrow> \<exists>t. i = sha256 E (utf8_encode t)"
  by (auto simp: has_blob_def blobs_ok_def blob_row_ok_def)

lemma put_text_Inr:
  assumes "codec_ok E" and "blobs_ok E d"
  obtains d' where "put_text E t d = Inr (sha256 E (utf8_encode t), d')" and "blobs_ok E d'"
    and "d' = d\<lparr>files := files d', blobs := blobs d'\<rparr>"
    and "has_blob d' (sha256 E (utf8_encode t))"
    and "\<And>i. has_blob d i \<Longrightarrow> has_blob d' i"
proof -
  let ?i = "sha256 E (utf8_encode t)"
  show thesis
  proof (cases "has_blob d ?i")
    case True
    then have "put_text E t d = Inr (?i, d)" by (simp add: put_text_def Let_def)
    with True assms(2) that show ?thesis by simp
  next
    case False
    let ?z = "gzip_compress E (utf8_encode t)"
    let ?d = "d\<lparr>files := dict_set (blob_path ?i) ?z (files d),
                blobs := blobs d @ [\<lparr>bl_id = ?i, bl_path = blob_path ?i, bl_compression = ''gzip'',
                  bl_byte_size = length (utf8_encode t), bl_stored_size = length ?z\<rparr>]\<rparr>"
    have ne: "bl_id r \<noteq> ?i" if "r \<in> set (blobs d)" for r using False that by (auto simp: has_blob_def)
    have "blob_row_ok E ?d r" if rin: "r \<in> set (blobs d)" for r
    proof -
      obtain u where u: "bl_path r = blob_path (bl_id r)" "bl_compression r = ''gzip''"
          "bl_id r = sha256 E (utf8_encode u)"
          "map_of (files d) (bl_path r) = Some (gzip_compress E (utf8_encode u))"
        using blobs_okE [OF assms(2) rin] .
      have "blob_path (bl_id r) \<noteq> blob_path ?i" using blob_path_inj [of "bl_id r" ?i] ne [OF rin] by blast
      with u(1) have "map_of (files ?d) (bl_path r) = map_of (files d) (bl_path r)" by simp
      with u show ?thesis unfolding blob_row_ok_def by metis
    qed
    moreover have "distinct (map bl_id (blobs ?d))"
      using assms(2) False by (auto simp: blobs_ok_def has_blob_def)
    ultimately have "blobs_ok E ?d"
      by (auto simp: blobs_ok_def) (auto simp: blob_row_ok_def)
    moreover have "put_text E t d = Inr (?i, ?d)" using False by (simp add: put_text_def Let_def)
    ultimately show ?thesis using that [of ?d] by (auto simp: has_blob_def)
  qed
qed

text \<open>Storing a text keeps the store, and reading it back gives the text.\<close>

definition only_blobs :: "db \<Rightarrow> db \<Rightarrow> bool" where
  "only_blobs d d' =
     (d' = d\<lparr>files := files d', blobs := blobs d'\<rparr> \<and> (\<forall>i. has_blob d i \<longrightarrow> has_blob d' i))"

lemma only_blobs_refl [simp]: "only_blobs d d"
  by (simp add: only_blobs_def)

lemma only_blobs_trans: "only_blobs d d' \<Longrightarrow> only_blobs d' d'' \<Longrightarrow> only_blobs d d''"
  unfolding only_blobs_def by (cases d; cases d'; cases d'') auto

lemma store_text_Inr:
  assumes "codec_ok E" and "blobs_ok E d"
  obtains x d' where "store_text_content E t d = Inr (x, d')" and "blobs_ok E d'"
    and "only_blobs d d'" and "opt_ok (has_blob d') (s_blob_id x)"
    and "read_text E d' (s_inline x) (s_blob_id x) = Inr t"
proof (cases "length (utf8_encode t) \<le> INLINE_TEXT_LIMIT")
  case True
  then show thesis using assms(2) that by (simp add: store_text_content_def Let_def read_text_def)
next
  case False
  obtain d' where d': "put_text E t d = Inr (sha256 E (utf8_encode t), d')" "blobs_ok E d'"
      "d' = d\<lparr>files := files d', blobs := blobs d'\<rparr>" "has_blob d' (sha256 E (utf8_encode t))"
      "\<And>i. has_blob d i \<Longrightarrow> has_blob d' i"
    using put_text_Inr [OF assms] by blast
  have "only_blobs d d'" unfolding only_blobs_def using d'(3,5) by blast
  moreover have "read_text E d' None (Some (sha256 E (utf8_encode t))) = Inr t"
    using get_text_ok [OF assms(1) d'(2,4)] assms(1) by (simp add: read_text_def codec_ok_def)
  ultimately show thesis
    using False d' that by (simp add: store_text_content_def Let_def)
qed

lemma read_text_mono:
  assumes "codec_ok E" and "blobs_ok E d" and "blobs_ok E d'" and "only_blobs d d'"
    and "opt_ok (has_blob d) blob"
  shows "read_text E d' inl blob = read_text E d inl blob"
proof (cases blob)
  case None
  then show ?thesis by (simp add: read_text_def split: option.split)
next
  case (Some i)
  with assms(5) have b: "has_blob d i" by simp
  then obtain t where t: "i = sha256 E (utf8_encode t)" using has_blob_text assms(2) by blast
  have "has_blob d' i" using assms(4) b by (simp add: only_blobs_def)
  then have "get_text E d' i = get_text E d i"
    using get_text_ok [OF assms(1,2)] get_text_ok [OF assms(1,3)] b t by simp
  with Some show ?thesis by (simp add: read_text_def split: option.split)
qed

lemma read_text_ok:
  assumes "codec_ok E" and "blobs_ok E d" and "opt_ok (has_blob d) blob"
  shows "\<exists>t. read_text E d inl blob = Inr t"
proof (cases blob)
  case None
  then show ?thesis by (simp add: read_text_def split: option.split)
next
  case (Some i)
  with assms have b: "has_blob d i" by simp
  then obtain t where t: "i = sha256 E (utf8_encode t)" using has_blob_text assms(2) by blast
  have "get_text E d i = Inr t" using get_text_ok [OF assms(1,2)] b t by simp
  with Some show ?thesis by (simp add: read_text_def split: option.split)
qed

text \<open>Reclaiming keeps the store, and every text a column refers to.\<close>

lemma map_of_filter_fst: "map_of (filter (\<lambda>p. fst p \<in> S) xs) k = (if k \<in> S then map_of xs k else None)"
  by (induction xs) auto

lemma reclaim_blobs_ok: "blobs_ok E d \<Longrightarrow> blobs_ok E (snd (reclaim_blobs d))"
proof -
  assume ok: "blobs_ok E d"
  let ?d = "snd (reclaim_blobs d)"
  have "blob_row_ok E ?d r" if r: "r \<in> set (blobs ?d)" for r
  proof -
    have "r \<in> set (blobs d)" using r by (auto simp: reclaim_blobs_def Let_def)
    then obtain u where u: "bl_path r = blob_path (bl_id r)" "bl_compression r = ''gzip''"
        "bl_id r = sha256 E (utf8_encode u)"
        "map_of (files d) (bl_path r) = Some (gzip_compress E (utf8_encode u))"
      using blobs_okE [OF ok] by blast
    moreover have "map_of (files ?d) (bl_path r) = map_of (files d) (bl_path r)"
      using r by (auto simp: reclaim_blobs_def Let_def map_of_filter_fst)
    ultimately show ?thesis unfolding blob_row_ok_def by metis
  qed
  moreover have "distinct (map bl_id (blobs ?d))"
    using ok by (simp add: blobs_ok_def reclaim_blobs_def Let_def distinct_map_delete_rows)
  ultimately show ?thesis by (simp add: blobs_ok_def)
qed

lemma reclaim_blobs_keeps:
  "has_blob d i \<Longrightarrow> is_referenced d i \<Longrightarrow> has_blob (snd (reclaim_blobs d)) i"
  by (auto simp: has_blob_def reclaim_blobs_def Let_def)

lemma reclaim_blobs_tracked:
  "p \<in> fst ` set (files (snd (reclaim_blobs d))) \<Longrightarrow>
   \<exists>r \<in> set (blobs (snd (reclaim_blobs d))). bl_path r = p \<and> is_referenced d (bl_id r)"
  by (auto simp: reclaim_blobs_def Let_def)

end
