(* ===== verification/TaskTypes.thy ===== *)
theory TaskTypes
  imports PyVal
begin

text \<open>
  The data of the task subsystem (\<open>tasks/types.py\<close>): the active task of a conversation and
  its steps, the snapshots and outcomes that are stored with nodes and sent to clients, the
  task context of one turn, and the conversions to and from plain dictionaries.
\<close>

section \<open>Statuses\<close>

datatype step_status = PENDING | BLOCKED | COMPLETED

datatype context_mode = ATTACHED | DETACHED

datatype lifecycle_status = LS_ACTIVE | LS_COMPLETED | LS_CANCELLED

fun step_status_value :: "step_status \<Rightarrow> string" where
  "step_status_value PENDING = ''pending''"
| "step_status_value BLOCKED = ''blocked''"
| "step_status_value COMPLETED = ''completed''"

fun context_mode_value :: "context_mode \<Rightarrow> string" where
  "context_mode_value ATTACHED = ''attached''"
| "context_mode_value DETACHED = ''detached''"

fun lifecycle_value :: "lifecycle_status \<Rightarrow> string" where
  "lifecycle_value LS_ACTIVE = ''active''"
| "lifecycle_value LS_COMPLETED = ''completed''"
| "lifecycle_value LS_CANCELLED = ''cancelled''"

text \<open>Calling an enumeration on a value: the member with that value, or \<open>ValueError\<close>.\<close>

definition normalize_step_status :: "string \<Rightarrow> step_status result" where
  "normalize_step_status v =
     (if v = ''pending'' then Inr PENDING
      else if v = ''blocked'' then Inr BLOCKED
      else if v = ''completed'' then Inr COMPLETED
      else Inl (ValueError (repr_str v @ '' is not a valid TaskStepStatus'')))"

definition normalize_context_mode :: "string option \<Rightarrow> context_mode result" where
  "normalize_context_mode value =
     (let v = (if truthy_opt value then or_empty value else ''attached'') in
      if v = ''attached'' then Inr ATTACHED
      else if v = ''detached'' then Inr DETACHED
      else Inl (ValueError (repr_str v @ '' is not a valid TaskContextMode'')))"

definition lifecycle_of_str :: "string \<Rightarrow> lifecycle_status result" where
  "lifecycle_of_str v =
     (if v = ''active'' then Inr LS_ACTIVE
      else if v = ''completed'' then Inr LS_COMPLETED
      else if v = ''cancelled'' then Inr LS_CANCELLED
      else Inl (ValueError (repr_str v @ '' is not a valid TaskLifecycleStatus'')))"

lemma normalize_step_status_value [simp]: "normalize_step_status (step_status_value s) = Inr s"
  by (cases s) (simp_all add: normalize_step_status_def)

lemma normalize_step_status_Inr: "normalize_step_status v = Inr s \<longleftrightarrow> v = step_status_value s"
  by (cases s) (auto simp: normalize_step_status_def)

lemma lifecycle_of_str_value [simp]: "lifecycle_of_str (lifecycle_value s) = Inr s"
  by (cases s) (simp_all add: lifecycle_of_str_def)

lemma step_status_value_nonempty [simp]: "step_status_value s \<noteq> []"
  by (cases s) simp_all

lemma lifecycle_value_nonempty [simp]: "lifecycle_value s \<noteq> []"
  by (cases s) simp_all

lemma step_status_value_eq [simp]:
  "(step_status_value s = step_status_value s') = (s = s')"
  "(step_status_value s = ''completed'') = (s = COMPLETED)"
  by (cases s; cases s'; simp) (cases s; simp)

section \<open>Tasks and steps\<close>

record active_task_step =
  position :: int
  step_title :: string
  step_detail :: string
  status :: step_status
  evidence_run_id :: "string option"
  evidence_summary :: string

record active_task =
  conversation_id :: string
  generation_id :: string
  revision :: int
  title :: string
  detail :: string
  steps :: "active_task_step list"
  active_run_id :: "string option"
  active_step :: "int option"
  execution_state :: string
  created_by_run_id :: "string option"
  created_by_tool_call_id :: "string option"
  created_at :: int
  updated_at :: int

definition step_public_dict :: "active_task_step \<Rightarrow> pyval" where
  "step_public_dict s = PDict
     [(''position'', PInt (position s)), (''title'', PStr (step_title s)),
      (''detail'', PStr (step_detail s)), (''status'', PStr (step_status_value (status s))),
      (''evidence_summary'', PStr (evidence_summary s))]"

text \<open>The property \<open>ActiveTask.status\<close>.\<close>

definition task_status :: "active_task \<Rightarrow> string" where
  "task_status t = (if \<exists>s \<in> set (steps t). status s = BLOCKED then ''blocked'' else ''pending'')"

definition task_public_dict :: "active_task \<Rightarrow> pyval" where
  "task_public_dict t = PDict
     [(''title'', PStr (title t)), (''detail'', PStr (detail t)), (''status'', PStr (task_status t)),
      (''execution_state'', PStr (execution_state t)), (''active_run_id'', of_opt (active_run_id t)),
      (''active_step'', of_opt_int (active_step t)),
      (''steps'', PList (map step_public_dict (steps t)))]"

lemma of_opt_int_simps [simp]:
  "of_opt_int None = PNone"
  "of_opt_int (Some i) = PInt i"
  by (simp_all add: of_opt_int_def)

section \<open>Snapshots\<close>

record task_state_step =
  ss_position :: int
  ss_title :: string
  ss_status :: step_status

record task_state_snapshot =
  sn_title :: string
  sn_steps :: "task_state_step list"

definition snapshot_step :: "active_task_step \<Rightarrow> task_state_step" where
  "snapshot_step s = \<lparr>ss_position = position s, ss_title = step_title s, ss_status = status s\<rparr>"

text \<open>\<open>TaskStateSnapshot.from_task\<close>.\<close>

definition snapshot_from_task :: "active_task \<Rightarrow> task_state_snapshot" where
  "snapshot_from_task t = \<lparr>sn_title = title t, sn_steps = map snapshot_step (steps t)\<rparr>"

definition state_step_public_dict :: "task_state_step \<Rightarrow> pyval" where
  "state_step_public_dict s = PDict
     [(''position'', PInt (ss_position s)), (''title'', PStr (ss_title s)),
      (''status'', PStr (step_status_value (ss_status s)))]"

definition snapshot_public_dict :: "task_state_snapshot \<Rightarrow> pyval" where
  "snapshot_public_dict sn = PDict
     [(''title'', PStr (sn_title sn)), (''steps'', PList (map state_step_public_dict (sn_steps sn)))]"

text \<open>\<open>TaskStateStep.from_dict\<close>: \<open>None\<close> for anything that is not a step.\<close>

definition state_step_from_dict :: "pyval \<Rightarrow> task_state_step option" where
  "state_step_from_dict value =
     (case value of
        PDict d \<Rightarrow>
          (case py_int (dget d ''position'') of
             Inl _ \<Rightarrow> None
           | Inr p \<Rightarrow>
               (case normalize_step_status (str_or (dget d ''status'') []) of
                  Inl _ \<Rightarrow> None
                | Inr st \<Rightarrow>
                    Some \<lparr>ss_position = p, ss_title = str_or (dget d ''title'') [], ss_status = st\<rparr>))
      | _ \<Rightarrow> None)"

fun state_steps_from_list :: "pyval list \<Rightarrow> task_state_step list option" where
  "state_steps_from_list [] = Some []"
| "state_steps_from_list (raw # rest) =
     (case state_step_from_dict raw of
        None \<Rightarrow> None
      | Some s \<Rightarrow> map_option (Cons s) (state_steps_from_list rest))"

text \<open>
  \<open>TaskStateSnapshot.from_dict\<close>.  The loop over \<open>steps\<close> raises \<open>TypeError\<close> on a value that
  cannot be iterated.
\<close>

definition snapshot_from_dict :: "pyval \<Rightarrow> task_state_snapshot option result" where
  "snapshot_from_dict value =
     (case value of
        PDict d \<Rightarrow>
          bind_result
            (if py_true (dget d ''steps'') then py_iter (dget d ''steps'') else Inr [])
            (\<lambda>raws. Inr
               (case state_steps_from_list raws of
                  None \<Rightarrow> None
                | Some ss \<Rightarrow> Some \<lparr>sn_title = str_or (dget d ''title'') [], sn_steps = ss\<rparr>))
      | _ \<Rightarrow> Inr None)"

lemma state_step_roundtrip [simp]: "state_step_from_dict (state_step_public_dict s) = Some s"
  by (simp add: state_step_from_dict_def state_step_public_dict_def)

lemma state_steps_roundtrip [simp]:
  "state_steps_from_list (map state_step_public_dict ss) = Some ss"
  by (induction ss) simp_all

lemma snapshot_dict_inverse [simp]: "snapshot_from_dict (snapshot_public_dict sn) = Inr (Some sn)"
  by (cases "sn_steps sn") (simp_all add: snapshot_from_dict_def snapshot_public_dict_def
      flip: list.map(2))

section \<open>Outcomes\<close>

record task_outcome =
  kind :: string
  oc_task_status :: lifecycle_status
  oc_step :: "int option"
  oc_step_status :: "string option"
  oc_run_status :: "string option"
  oc_snapshot :: "task_state_snapshot option"

record task_mutation_result =
  mr_task :: "active_task option"
  mr_snapshot :: task_state_snapshot
  mr_outcome :: task_outcome
  mr_completed :: bool

definition outcome_public_dict :: "task_outcome \<Rightarrow> pyval" where
  "outcome_public_dict oc = PDict
     ([(''kind'', PStr (kind oc)), (''task_status'', PStr (lifecycle_value (oc_task_status oc)))]
      @ (case oc_step oc of None \<Rightarrow> [] | Some i \<Rightarrow> [(''step'', PInt i)])
      @ (if truthy_opt (oc_step_status oc) then [(''step_status'', of_opt (oc_step_status oc))] else [])
      @ (if truthy_opt (oc_run_status oc) then [(''run_status'', of_opt (oc_run_status oc))] else [])
      @ (case oc_snapshot oc of None \<Rightarrow> []
         | Some sn \<Rightarrow> [(''task_snapshot'', snapshot_public_dict sn)]))"

definition mutation_public_dict :: "task_mutation_result \<Rightarrow> pyval" where
  "mutation_public_dict r = PDict
     [(''completed'', PBool (mr_completed r)),
      (''task'', case mr_task r of None \<Rightarrow> PNone | Some t \<Rightarrow> task_public_dict t),
      (''task_snapshot'', snapshot_public_dict (mr_snapshot r)),
      (''task_outcome'', outcome_public_dict (mr_outcome r))]"

text \<open>\<open>str(x or '') or None\<close>.\<close>

definition str_or_none :: "pyval \<Rightarrow> string option" where
  "str_or_none v = (let s = str_or v [] in if s = [] then None else Some s)"

definition opt_step :: "pyval \<Rightarrow> int option result" where
  "opt_step v = (case v of PNone \<Rightarrow> Inr None | _ \<Rightarrow> map_result Some (py_int v))"

text \<open>\<open>TaskOutcome.from_dict\<close>.\<close>

definition outcome_from_dict :: "pyval \<Rightarrow> task_outcome option result" where
  "outcome_from_dict value =
     (case value of
        PDict d \<Rightarrow>
          (case lifecycle_of_str (str_or (dget d ''task_status'') []) of
             Inl _ \<Rightarrow> Inr None
           | Inr ls \<Rightarrow>
               (case opt_step (dget d ''step'') of
                  Inl _ \<Rightarrow> Inr None
                | Inr st \<Rightarrow>
                    map_result
                      (\<lambda>sn. Some \<lparr>kind = str_or (dget d ''kind'') ''task_updated'',
                         oc_task_status = ls, oc_step = st,
                         oc_step_status = str_or_none (dget d ''step_status''),
                         oc_run_status = str_or_none (dget d ''run_status''),
                         oc_snapshot = sn\<rparr>)
                      (snapshot_from_dict (dget d ''task_snapshot''))))
      | _ \<Rightarrow> Inr None)"

lemma str_or_none_simps [simp]:
  "str_or_none PNone = None"
  "str_or_none (PStr s) = (if s = [] then None else Some s)"
  by (simp_all add: str_or_none_def)

lemma opt_step_simps [simp]:
  "opt_step PNone = Inr None"
  "opt_step (PInt i) = Inr (Some i)"
  by (simp_all add: opt_step_def)

lemma snapshot_from_dict_None [simp]: "snapshot_from_dict PNone = Inr None"
  by (simp add: snapshot_from_dict_def)

lemma truthy_opt_SomeE: "truthy_opt x \<Longrightarrow> (\<And>s. x = Some s \<Longrightarrow> s \<noteq> [] \<Longrightarrow> P) \<Longrightarrow> P"
  by (cases x) auto

lemma or_none_iff: "or_none x = (if truthy_opt x then x else None)"
  by (cases x) (simp_all add: or_none_def)

text \<open>
  Reading back a public dictionary returns the outcome, with an empty kind replaced by
  the default and an empty status by \<open>None\<close>.
\<close>

lemma outcome_dict_inverse:
  "outcome_from_dict (outcome_public_dict oc) =
     Inr (Some (oc \<lparr>kind := (if kind oc = [] then ''task_updated'' else kind oc),
                    oc_step_status := or_none (oc_step_status oc),
                    oc_run_status := or_none (oc_run_status oc)\<rparr>))"
  by (cases "oc_step oc"; cases "oc_snapshot oc"; cases "truthy_opt (oc_step_status oc)";
      cases "truthy_opt (oc_run_status oc)")
    (simp_all add: outcome_from_dict_def outcome_public_dict_def or_none_iff
      split: option.split, (auto elim!: truthy_opt_SomeE)+)

section \<open>The task context of a turn\<close>

record task_turn_outcome =
  to_generation_id :: "string option"
  to_outcome :: task_outcome

record task_turn_context =
  tc_mode :: context_mode
  tc_baseline :: "active_task option"
  tc_current :: "active_task option"
  tc_outcomes :: "task_turn_outcome list"

text \<open>\<open>TaskTurnContext.start\<close>.\<close>

definition turn_start :: "string option \<Rightarrow> active_task option \<Rightarrow> task_turn_context result" where
  "turn_start mode t =
     map_result
       (\<lambda>m. let visible = (if m = ATTACHED then t else None) in
            \<lparr>tc_mode = m, tc_baseline = visible, tc_current = visible, tc_outcomes = []\<rparr>)
       (normalize_context_mode mode)"

definition or_task :: "active_task option \<Rightarrow> active_task option \<Rightarrow> active_task option" where
  "or_task a b = (case a of None \<Rightarrow> b | Some t \<Rightarrow> Some t)"

text \<open>\<open>TaskTurnContext.refresh\<close>: an outcome equal to the last recorded one is not repeated.\<close>

definition turn_refresh ::
  "task_turn_context \<Rightarrow> active_task option \<Rightarrow> task_outcome option \<Rightarrow> task_turn_context" where
  "turn_refresh c t outcome =
     (if tc_mode c = DETACHED then c
      else
        let previous = tc_current c; c' = c\<lparr>tc_current := t\<rparr> in
        (case outcome of
           None \<Rightarrow> c'
         | Some oc \<Rightarrow>
             let related = or_task previous (or_task t (tc_baseline c'));
                 observed = \<lparr>to_generation_id = map_option generation_id related, to_outcome = oc\<rparr>
             in if tc_outcomes c' = [] \<or> last (tc_outcomes c') \<noteq> observed
                then c'\<lparr>tc_outcomes := tc_outcomes c' @ [observed]\<rparr> else c'))"

definition turn_generation_id :: "task_turn_context \<Rightarrow> string option" where
  "turn_generation_id c = map_option generation_id (tc_current c)"

definition turn_revision :: "task_turn_context \<Rightarrow> int option" where
  "turn_revision c = map_option revision (tc_current c)"

text \<open>No two consecutive recorded outcomes of a turn are equal.\<close>

definition no_repeat :: "'a list \<Rightarrow> bool" where
  "no_repeat xs = (\<forall>i < length xs - 1. xs ! i \<noteq> xs ! Suc i)"

lemma no_repeat_Nil [simp]: "no_repeat []"
  by (simp add: no_repeat_def)

lemma no_repeat_single [simp]: "no_repeat [x]"
  by (simp add: no_repeat_def)

lemma no_repeat_snoc:
  assumes "no_repeat xs" and "xs = [] \<or> last xs \<noteq> x"
  shows "no_repeat (xs @ [x])"
  unfolding no_repeat_def
proof (intro allI impI)
  fix i assume i: "i < length (xs @ [x]) - 1"
  show "(xs @ [x]) ! i \<noteq> (xs @ [x]) ! Suc i"
  proof (cases "Suc i < length xs")
    case True
    then show ?thesis using assms(1) by (simp add: no_repeat_def nth_append)
  next
    case False
    with i have "Suc i = length xs" by simp
    then show ?thesis using assms(2)
      by (metis append.right_neutral i last_conv_nth length_append_singleton diff_Suc_1 diff_Suc_Suc
          diff_zero list.size(3) nat.distinct(1) nth_append nth_append_length)
  qed
qed

lemma turn_refresh_no_repeat:
  "no_repeat (tc_outcomes c) \<Longrightarrow> no_repeat (tc_outcomes (turn_refresh c t oc))"
  by (auto simp: turn_refresh_def Let_def intro!: no_repeat_snoc split: option.split)

lemma turn_refresh_mode [simp]: "tc_mode (turn_refresh c t oc) = tc_mode c"
  by (simp add: turn_refresh_def Let_def split: option.split)

lemma turn_refresh_detached: "tc_mode c = DETACHED \<Longrightarrow> turn_refresh c t oc = c"
  by (simp add: turn_refresh_def)

end
