(* ===== verification/TaskRepo.thy ===== *)
theory TaskRepo
  imports Db TaskTypes
begin

text \<open>
  \<open>SQLiteTaskRepository\<close> (\<open>persistence/task_repository.py\<close>): the active tasks of all
  conversations in the tables \<open>active_tasks\<close>, \<open>active_task_steps\<close> and \<open>task_run_bindings\<close>.
  The statements of the repository come first, then its operations in the order of the file.
\<close>

section \<open>Statements\<close>

definition insert_active_task :: "active_task_row \<Rightarrow> db \<Rightarrow> db result" where
  "insert_active_task row d =
     (if at_conversation_id row \<notin> set (conversations d)
         \<or> \<not> opt_ok (has_blob d) (at_detail_blob_id row)
         \<or> \<not> opt_ok (has_run d (at_conversation_id row)) (at_created_by_run_id row)
      then Inl (IntegrityError ''FOREIGN KEY constraint failed'')
      else if at_conversation_id row \<in> at_conversation_id ` set (active_tasks d)
         \<or> at_generation_id row \<in> at_generation_id ` set (active_tasks d)
      then Inl (IntegrityError ''UNIQUE constraint failed'')
      else Inr (d\<lparr>active_tasks := active_tasks d @ [row]\<rparr>))"

definition status_check :: "string \<Rightarrow> bool" where
  "status_check s = (s = ''pending'' \<or> s = ''blocked'' \<or> s = ''completed'')"

definition insert_step :: "active_task_step_row \<Rightarrow> db \<Rightarrow> db result" where
  "insert_step row d =
     (if st_position row \<le> 0 \<or> \<not> status_check (st_status row)
      then Inl (IntegrityError ''CHECK constraint failed'')
      else if st_conversation_id row \<notin> at_conversation_id ` set (active_tasks d)
         \<or> \<not> opt_ok (has_blob d) (st_detail_blob_id row)
         \<or> \<not> opt_ok (has_run d (st_conversation_id row)) (st_evidence_run_id row)
      then Inl (IntegrityError ''FOREIGN KEY constraint failed'')
      else if (st_conversation_id row, st_position row)
         \<in> (\<lambda>r. (st_conversation_id r, st_position r)) ` set (active_task_steps d)
      then Inl (IntegrityError ''UNIQUE constraint failed'')
      else Inr (d\<lparr>active_task_steps := active_task_steps d @ [row]\<rparr>))"

fun insert_steps :: "active_task_step_row list \<Rightarrow> db \<Rightarrow> db result" where
  "insert_steps [] d = Inr d"
| "insert_steps (row # rows) d = bind_result (insert_step row d) (insert_steps rows)"

text \<open>Deleting a task deletes its steps and the bindings to its generation.\<close>

definition delete_active_tasks :: "(active_task_row \<Rightarrow> bool) \<Rightarrow> db \<Rightarrow> db" where
  "delete_active_tasks P d =
     (let gone = select P (active_tasks d) in
      d\<lparr>active_tasks := delete_rows P (active_tasks d),
        active_task_steps := delete_rows (\<lambda>s. st_conversation_id s \<in> at_conversation_id ` set gone)
          (active_task_steps d),
        task_run_bindings := delete_rows
          (\<lambda>b. (b_conversation_id b, b_task_generation_id b)
             \<in> (\<lambda>r. (at_conversation_id r, at_generation_id r)) ` set gone)
          (task_run_bindings d)\<rparr>)"

definition insert_binding :: "binding_row \<Rightarrow> db \<Rightarrow> db result" where
  "insert_binding row d =
     (if b_step_position row \<le> 0 then Inl (IntegrityError ''CHECK constraint failed'')
      else if \<not> has_run d (b_conversation_id row) (b_run_id row)
         \<or> b_conversation_id row \<notin> set (conversations d)
         \<or> (b_conversation_id row, b_task_generation_id row)
              \<notin> (\<lambda>r. (at_conversation_id r, at_generation_id r)) ` set (active_tasks d)
      then Inl (IntegrityError ''FOREIGN KEY constraint failed'')
      else if b_run_id row \<in> b_run_id ` set (task_run_bindings d)
         \<or> b_conversation_id row \<in> b_conversation_id ` set (task_run_bindings d)
      then Inl (IntegrityError ''UNIQUE constraint failed'')
      else Inr (d\<lparr>task_run_bindings := task_run_bindings d @ [row]\<rparr>))"

text \<open>
  The update both \<open>set_step_result\<close> and \<open>finish_run_binding_in_connection\<close> send to the
  step at a position, with the checks of the schema.
\<close>

definition update_step ::
  "string \<Rightarrow> int \<Rightarrow> string \<Rightarrow> string option \<Rightarrow> string \<Rightarrow> int \<Rightarrow> db \<Rightarrow> db result" where
  "update_step c p st evidence_run evidence now d =
     (let P = (\<lambda>r. st_conversation_id r = c \<and> st_position r = p) in
      if select P (active_task_steps d) \<noteq> [] \<and> \<not> status_check st
      then Inl (IntegrityError ''CHECK constraint failed'')
      else if select P (active_task_steps d) \<noteq> [] \<and> \<not> opt_ok (has_run d c) evidence_run
      then Inl (IntegrityError ''FOREIGN KEY constraint failed'')
      else Inr (d\<lparr>active_task_steps := update_rows P
             (\<lambda>r. r\<lparr>st_status := st, st_evidence_run_id := evidence_run,
                    st_evidence_summary := evidence, st_updated_at := now\<rparr>)
             (active_task_steps d)\<rparr>))"

definition bump_revision :: "string \<Rightarrow> string \<Rightarrow> int \<Rightarrow> db \<Rightarrow> db" where
  "bump_revision c g now d =
     d\<lparr>active_tasks := update_rows
         (\<lambda>r. at_conversation_id r = c \<and> at_generation_id r = g)
         (\<lambda>r. r\<lparr>at_revision := at_revision r + 1, at_updated_at := now\<rparr>)
         (active_tasks d)\<rparr>"

section \<open>Reading\<close>

record task_data_step =
  sd_position :: int
  sd_title :: string
  sd_detail :: string
  sd_status :: string
  sd_evidence_run_id :: "string option"
  sd_evidence_summary :: string

record task_data =
  td_conversation_id :: string
  td_generation_id :: string
  td_revision :: int
  td_title :: string
  td_detail :: string
  td_created_by_run_id :: "string option"
  td_created_by_tool_call_id :: "string option"
  td_created_at :: int
  td_updated_at :: int
  td_steps :: "task_data_step list"
  td_active_run_id :: "string option"
  td_active_step :: "int option"
  td_execution_state :: string

definition TERMINAL_RUN_STATUSES :: "string list" where
  "TERMINAL_RUN_STATUSES = [''completed'', ''failed'', ''cancelled'', ''interrupted'', ''stopped'']"

definition step_from_row :: "codec \<Rightarrow> db \<Rightarrow> active_task_step_row \<Rightarrow> task_data_step result" where
  "step_from_row E d row =
     map_result
       (\<lambda>t. \<lparr>sd_position = st_position row, sd_title = st_title row, sd_detail = t,
             sd_status = st_status row, sd_evidence_run_id = st_evidence_run_id row,
             sd_evidence_summary = st_evidence_summary row\<rparr>)
       (read_text E d (st_detail_inline row) (st_detail_blob_id row))"

definition step_rows :: "db \<Rightarrow> string \<Rightarrow> active_task_step_row list" where
  "step_rows d c = select (\<lambda>r. st_conversation_id r = c) (active_task_steps d)"

text \<open>The join of the bindings of a conversation with their runs.\<close>

definition bound_runs :: "db \<Rightarrow> string \<Rightarrow> (binding_row \<times> run_row) list" where
  "bound_runs d c =
     concat (map (\<lambda>b. map (Pair b) (select (\<lambda>r. r_id r = b_run_id b) (runs d)))
       (select (\<lambda>b. b_conversation_id b = c) (task_run_bindings d)))"

definition execution_state_of :: "(binding_row \<times> run_row) option \<Rightarrow> string" where
  "execution_state_of binding =
     (let run_status = (case binding of None \<Rightarrow> [] | Some (b, r) \<Rightarrow> r_status r) in
      if run_status = ''stopping'' then ''stopping''
      else if binding \<noteq> None \<and> run_status \<notin> set TERMINAL_RUN_STATUSES then ''running''
      else ''idle'')"

definition get_active_task_in_connection :: "codec \<Rightarrow> db \<Rightarrow> string \<Rightarrow> task_data option result" where
  "get_active_task_in_connection E d c =
     (case fetchone (select (\<lambda>r. at_conversation_id r = c) (active_tasks d)) of
        None \<Rightarrow> Inr None
      | Some row \<Rightarrow>
          bind_result (read_text E d (at_detail_inline row) (at_detail_blob_id row)) (\<lambda>dt.
          bind_result (mapM_result (step_from_row E d) (sort_key st_position (step_rows d c))) (\<lambda>ss.
          let binding = fetchone (bound_runs d c) in
          Inr (Some
            \<lparr>td_conversation_id = at_conversation_id row, td_generation_id = at_generation_id row,
             td_revision = at_revision row, td_title = at_title row, td_detail = dt,
             td_created_by_run_id = at_created_by_run_id row,
             td_created_by_tool_call_id = at_created_by_tool_call_id row,
             td_created_at = at_created_at row, td_updated_at = at_updated_at row,
             td_steps = ss,
             td_active_run_id = map_option (b_run_id \<circ> fst) binding,
             td_active_step = map_option (b_step_position \<circ> fst) binding,
             td_execution_state = execution_state_of binding\<rparr>))))"

definition public_task_snapshot :: "task_data \<Rightarrow> pyval" where
  "public_task_snapshot t = PDict
     [(''title'', PStr (td_title t)),
      (''steps'', PList (map (\<lambda>s. PDict
         [(''position'', PInt (sd_position s)), (''title'', PStr (sd_title s)),
          (''status'', PStr (if sd_status s = [] then ''pending'' else sd_status s))]) (td_steps t)))]"

definition require_version ::
  "db \<Rightarrow> string \<Rightarrow> string option \<Rightarrow> int option \<Rightarrow> active_task_row result" where
  "require_version d c expected_generation expected_revision =
     (case fetchone (select (\<lambda>r. at_conversation_id r = c) (active_tasks d)) of
        None \<Rightarrow> Inl (KeyError (repr_str c))
      | Some row \<Rightarrow>
          if truthy_opt expected_generation \<and> at_generation_id row \<noteq> or_empty expected_generation
          then Inl (ActiveTaskVersionConflictError (at_generation_id row) (at_revision row))
          else if expected_revision \<noteq> None \<and> at_revision row \<noteq> the expected_revision
          then Inl (ActiveTaskVersionConflictError (at_generation_id row) (at_revision row))
          else Inr row)"

definition ensure_no_active_binding :: "db \<Rightarrow> string \<Rightarrow> unit result" where
  "ensure_no_active_binding d c =
     (case fetchone (select (\<lambda>b. b_conversation_id b = c) (task_run_bindings d)) of
        None \<Rightarrow> Inr ()
      | Some _ \<Rightarrow> Inl (RuntimeError ''active task already has a running step''))"

definition all_steps_completed :: "db \<Rightarrow> string \<Rightarrow> bool" where
  "all_steps_completed d c =
     (rowcount (\<lambda>r. st_conversation_id r = c \<and> st_status r \<noteq> ''completed'') (active_task_steps d) = 0)"

definition unfinished_previous :: "db \<Rightarrow> string \<Rightarrow> int \<Rightarrow> active_task_step_row option" where
  "unfinished_previous d c p =
     fetchone (select (\<lambda>r. st_conversation_id r = c \<and> st_position r < p \<and> st_status r \<noteq> ''completed'')
       (active_task_steps d))"

definition step_at :: "db \<Rightarrow> string \<Rightarrow> int \<Rightarrow> active_task_step_row option" where
  "step_at d c p =
     fetchone (select (\<lambda>r. st_conversation_id r = c \<and> st_position r = p) (active_task_steps d))"

section \<open>Operations\<close>

text \<open>The details of the steps are stored before the transaction of the insert.\<close>

fun store_steps :: "codec \<Rightarrow> (string \<times> string) list \<Rightarrow> db \<Rightarrow> ((string \<times> stored_text) list \<times> db) result" where
  "store_steps E [] d = Inr ([], d)"
| "store_steps E ((t, dt) # rest) d =
     (case store_text_content E dt d of
        Inl e \<Rightarrow> Inl e
      | Inr (x, d') \<Rightarrow>
          (case store_steps E rest d' of
             Inl e \<Rightarrow> Inl e
           | Inr (xs, d'') \<Rightarrow> Inr ((t, x) # xs, d'')))"

fun new_step_rows :: "string \<Rightarrow> int \<Rightarrow> int \<Rightarrow> (string \<times> stored_text) list \<Rightarrow> active_task_step_row list" where
  "new_step_rows c now p [] = []"
| "new_step_rows c now p ((t, x) # rest) =
     \<lparr>st_conversation_id = c, st_position = p, st_title = t, st_detail_inline = s_inline x,
      st_detail_blob_id = s_blob_id x, st_status = ''pending'', st_evidence_run_id = None,
      st_evidence_summary = [], st_updated_at = now\<rparr> # new_step_rows c now (p + 1) rest"

definition create_task_body ::
  "codec \<Rightarrow> string \<Rightarrow> int \<Rightarrow> string \<Rightarrow> string \<Rightarrow> stored_text \<Rightarrow> (string \<times> stored_text) list \<Rightarrow>
   string option \<Rightarrow> string option \<Rightarrow> db \<Rightarrow> (task_data \<times> db) result" where
  "create_task_body E gen now c ttl detail_text sts run tool d =
     bind_result (get_active_task_in_connection E d c) (\<lambda>existing.
       case existing of
         Some t \<Rightarrow>
           if truthy_opt tool \<and> td_created_by_tool_call_id t = tool then Inr (t, d)
           else Inl (RuntimeError ''conversation already has an active task'')
       | None \<Rightarrow>
           bind_result
             (insert_active_task
               \<lparr>at_conversation_id = c, at_generation_id = gen, at_revision = 0, at_title = ttl,
                at_detail_inline = s_inline detail_text, at_detail_blob_id = s_blob_id detail_text,
                at_created_by_run_id = run, at_created_by_tool_call_id = tool,
                at_created_at = now, at_updated_at = now\<rparr> d) (\<lambda>d1.
           bind_result (insert_steps (new_step_rows c now 1 sts) d1) (\<lambda>d2.
           bind_result (get_active_task_in_connection E d2 c) (\<lambda>created.
             case created of
               None \<Rightarrow> Inl (RuntimeError ''active task insert did not produce a row'')
             | Some t \<Rightarrow> Inr (t, d2)))))"

definition generation_of :: "string \<Rightarrow> string" where
  "generation_of uuid = ''taskgen_'' @ uuid"

definition repo_create_task ::
  "codec \<Rightarrow> string \<Rightarrow> int \<Rightarrow> string \<Rightarrow> string \<Rightarrow> string \<Rightarrow> (string \<times> string) list \<Rightarrow>
   string option \<Rightarrow> string option \<Rightarrow> db \<Rightarrow> task_data result \<times> db" where
  "repo_create_task E uuid now c ttl dt sts run tool d =
     (case store_text_content E dt d of
        Inl e \<Rightarrow> (Inl e, d)
      | Inr (detail_text, d1) \<Rightarrow>
          (case store_steps E sts d1 of
             Inl e \<Rightarrow> (Inl e, d1)
           | Inr (stored, d2) \<Rightarrow>
               transaction
                 (create_task_body E (generation_of uuid) now c ttl detail_text stored run tool) d2))"

definition repo_get_active_task :: "codec \<Rightarrow> db \<Rightarrow> string \<Rightarrow> task_data option result" where
  "repo_get_active_task E d c = get_active_task_in_connection E d c"

record step_result =
  sr_completed :: bool
  sr_task :: "task_data option"
  sr_snapshot :: pyval

definition set_step_result_body ::
  "codec \<Rightarrow> int \<Rightarrow> string \<Rightarrow> int \<Rightarrow> string \<Rightarrow> string \<Rightarrow> string option \<Rightarrow> string option \<Rightarrow> int option \<Rightarrow>
   db \<Rightarrow> (step_result \<times> db) result" where
  "set_step_result_body E now c p st evidence evidence_run egen erev d =
     bind_result (require_version d c egen erev) (\<lambda>task.
     bind_result (ensure_no_active_binding d c) (\<lambda>_.
       case step_at d c p of
         None \<Rightarrow> Inl (KeyError (int_str p))
       | Some current \<Rightarrow>
           if unfinished_previous d c p \<noteq> None
           then Inl (RuntimeError ''previous task steps must be completed first'')
           else if st_status current = ''completed'' \<and> st \<noteq> ''completed''
           then Inl (ValueError ''completed task steps are immutable'')
           else
             bind_result (update_step c p st evidence_run evidence now d) (\<lambda>d1.
             let d2 = bump_revision c (at_generation_id task) now d1 in
             bind_result (get_active_task_in_connection E d2 c) (\<lambda>updated.
               case updated of
                 None \<Rightarrow> Inl (RuntimeError ''task step update did not produce a task snapshot'')
               | Some t \<Rightarrow>
                   if all_steps_completed d2 c
                   then Inr (\<lparr>sr_completed = True, sr_task = None,
                              sr_snapshot = public_task_snapshot t\<rparr>,
                             delete_active_tasks (\<lambda>r. at_conversation_id r = c) d2)
                   else Inr (\<lparr>sr_completed = False, sr_task = Some t,
                              sr_snapshot = public_task_snapshot t\<rparr>, d2)))))"

definition repo_set_step_result ::
  "codec \<Rightarrow> int \<Rightarrow> string \<Rightarrow> int \<Rightarrow> string \<Rightarrow> string \<Rightarrow> string option \<Rightarrow> string option \<Rightarrow> int option \<Rightarrow>
   db \<Rightarrow> step_result result \<times> db" where
  "repo_set_step_result E now c p st evidence evidence_run egen erev =
     transaction (set_step_result_body E now c p st evidence evidence_run egen erev)"

definition cancel_task_body ::
  "string \<Rightarrow> string option \<Rightarrow> int option \<Rightarrow> db \<Rightarrow> (bool \<times> db) result" where
  "cancel_task_body c egen erev d =
     bind_result (require_version d c egen erev) (\<lambda>task.
       let P = (\<lambda>r. at_conversation_id r = c \<and> at_generation_id r = at_generation_id task) in
       Inr (rowcount P (active_tasks d) > 0, delete_active_tasks P d))"

definition repo_cancel_task ::
  "string \<Rightarrow> string option \<Rightarrow> int option \<Rightarrow> db \<Rightarrow> bool result \<times> db" where
  "repo_cancel_task c egen erev = transaction (cancel_task_body c egen erev)"

text \<open>The binding dictionary \<open>prepare_run_binding\<close> returns.\<close>

record task_binding =
  tb_conversation_id :: string
  tb_task_generation_id :: string
  tb_step_position :: int
  tb_base_revision :: int

definition bind_run_in_connection ::
  "int \<Rightarrow> string \<Rightarrow> task_binding \<Rightarrow> db \<Rightarrow> ((string \<times> int) \<times> db) result" where
  "bind_run_in_connection now run_id binding d =
     (let c = tb_conversation_id binding; p = tb_step_position binding in
      bind_result (require_version d c (Some (tb_task_generation_id binding))
          (Some (tb_base_revision binding))) (\<lambda>task.
        if tb_base_revision binding \<noteq> at_revision task
        then Inl (ActiveTaskVersionConflictError (at_generation_id task) (at_revision task))
        else
          (case step_at d c p of
             None \<Rightarrow> Inl (KeyError (int_str p))
           | Some row \<Rightarrow>
               if st_status row = ''completed''
               then Inl (RuntimeError ''task step is already completed'')
               else if unfinished_previous d c p \<noteq> None
               then Inl (RuntimeError ''previous task steps must be completed first'')
               else
                 bind_result (ensure_no_active_binding d c) (\<lambda>_.
                 map_result (\<lambda>d'. ((at_generation_id task, p), d'))
                   (insert_binding
                     \<lparr>b_run_id = run_id, b_conversation_id = c,
                      b_task_generation_id = at_generation_id task, b_step_position = p,
                      b_base_revision = tb_base_revision binding, b_created_at = now\<rparr> d)))))"

definition finished_step_status :: "string \<Rightarrow> string option" where
  "finished_step_status terminal_status =
     (if terminal_status = ''completed'' then Some ''completed''
      else if terminal_status = ''failed'' then Some ''blocked''
      else None)"

definition run_evidence :: "string option \<Rightarrow> string \<Rightarrow> string \<Rightarrow> string" where
  "run_evidence err summary terminal_status =
     (if truthy_opt err then or_empty err
      else if summary \<noteq> [] then ''Run completed: '' @ summary
      else ''Run '' @ terminal_status)"

definition delete_binding :: "string \<Rightarrow> db \<Rightarrow> db" where
  "delete_binding run_id d =
     d\<lparr>task_run_bindings := delete_rows (\<lambda>b. b_run_id b = run_id) (task_run_bindings d)\<rparr>"

definition run_outcome_dict :: "bool \<Rightarrow> int \<Rightarrow> string option \<Rightarrow> string \<Rightarrow> pyval \<Rightarrow> pyval" where
  "run_outcome_dict task_completed p next_status terminal_status snap = PDict
     [(''kind'', PStr ''run_finished''),
      (''task_status'', PStr (if task_completed then ''completed'' else ''active'')),
      (''step'', PInt p),
      (''step_status'', PStr (case next_status of None \<Rightarrow> ''released'' | Some s \<Rightarrow> s)),
      (''run_status'', PStr terminal_status),
      (''task_snapshot'', snap)]"

definition finish_run_binding_in_connection ::
  "codec \<Rightarrow> int \<Rightarrow> string \<Rightarrow> string \<Rightarrow> string option \<Rightarrow> string \<Rightarrow> db \<Rightarrow> (pyval option \<times> db) result" where
  "finish_run_binding_in_connection E now run_id terminal_status err summary d =
     (case fetchone (select (\<lambda>b. b_run_id b = run_id) (task_run_bindings d)) of
        None \<Rightarrow> Inr (None, d)
      | Some b \<Rightarrow>
          let c = b_conversation_id b; p = b_step_position b; g = b_task_generation_id b;
              task = fetchone (select (\<lambda>r. at_conversation_id r = c) (active_tasks d)) in
          if task = None \<or> at_generation_id (the task) \<noteq> g then Inr (None, delete_binding run_id d)
          else
            let next_status = finished_step_status terminal_status in
            bind_result
              (case next_status of
                 None \<Rightarrow> Inr d
               | Some st \<Rightarrow>
                   update_step c p st (Some run_id) (run_evidence err summary terminal_status) now d)
              (\<lambda>d1.
              let d2 = bump_revision c g now (delete_binding run_id d1);
                  task_completed = (next_status = Some ''completed'' \<and> all_steps_completed d2 c) in
              bind_result (get_active_task_in_connection E d2 c) (\<lambda>updated.
                case updated of
                  None \<Rightarrow> Inl (RuntimeError ''run completion did not produce a task snapshot'')
                | Some t \<Rightarrow>
                    Inr (Some (run_outcome_dict task_completed p next_status terminal_status
                               (public_task_snapshot t)),
                         if task_completed
                         then delete_active_tasks
                           (\<lambda>r. at_conversation_id r = c \<and> at_generation_id r = g) d2
                         else d2))))"

definition repo_finish_run_binding ::
  "codec \<Rightarrow> int \<Rightarrow> string \<Rightarrow> string \<Rightarrow> string option \<Rightarrow> string \<Rightarrow> db \<Rightarrow> pyval option result \<times> db" where
  "repo_finish_run_binding E now run_id terminal_status err summary =
     transaction (finish_run_binding_in_connection E now run_id terminal_status err summary)"

end
