(* ===== verification/TaskService.thy ===== *)
theory TaskService
  imports TaskRepo
begin

text \<open>
  \<open>ActiveTaskService\<close> (\<open>tasks/service.py\<close>): the conversation-scoped task, kept in memory or in
  the repository.  Operations on the in-memory state have the prefix \<open>mem\<close>; the service
  operations dispatch on the backend the way the code does.  An operation returns its result
  and the state after it, because one of them changes the state before it raises.
\<close>

section \<open>Arguments\<close>

definition step_number :: "pyval \<Rightarrow> int result" where
  "step_number value =
     (case py_int value of
        Inl _ \<Rightarrow> Inl (ValueError ''step must be a positive integer'')
      | Inr p \<Rightarrow> if p \<le> 0 then Inl (ValueError ''step must be a positive integer'') else Inr p)"

definition prepare_step :: "(string \<times> pyval) list \<Rightarrow> (string \<times> string) result" where
  "prepare_step item =
     (let t = strip (str_or (dget item ''title'') []) in
      if t = [] then Inl (ValueError ''step title is required'')
      else Inr (t, str_or (dget item ''detail'') []))"

definition prepare_steps :: "(string \<times> pyval) list list \<Rightarrow> (string \<times> string) list result" where
  "prepare_steps items =
     bind_result (mapM_result prepare_step items) (\<lambda>prepared.
       if prepared = [] then Inl (ValueError ''at least one task step is required'')
       else if length prepared > 64 then Inl (ValueError ''task supports at most 64 steps'')
       else Inr prepared)"

section \<open>The in-memory state\<close>

record mem_binding =
  mb_binding :: task_binding
  mb_run_id :: string

record mem_state =
  m_tasks :: "string \<Rightarrow> active_task option"
  m_bindings :: "string \<Rightarrow> mem_binding option"

definition mem_init :: mem_state where
  "mem_init = \<lparr>m_tasks = Map.empty, m_bindings = Map.empty\<rparr>"

text \<open>
  The statuses of runs, as the run manager reports them: \<open>None\<close> for no run manager, and
  for a run it does not know.
\<close>

type_synonym run_statuses = "(string \<Rightarrow> string option) option"

definition with_current_run_state :: "run_statuses \<Rightarrow> active_task option \<Rightarrow> active_task option" where
  "with_current_run_state rm task =
     (case task of
        None \<Rightarrow> None
      | Some t \<Rightarrow>
          if \<not> truthy_opt (active_run_id t) \<or> rm = None then Some t
          else
            let st = or_empty (the rm (or_empty (active_run_id t)));
                ex = (if st = ''stopping'' then ''stopping''
                      else if st \<in> {''completed'', ''failed'', ''cancelled'', ''interrupted'', ''stopped''}
                      then ''idle'' else ''running'')
            in if execution_state t = ex then Some t else Some (t\<lparr>execution_state := ex\<rparr>))"

definition require_in_memory ::
  "mem_state \<Rightarrow> string \<Rightarrow> string option \<Rightarrow> int option \<Rightarrow> active_task result" where
  "require_in_memory s c egen erev =
     (case m_tasks s c of
        None \<Rightarrow> Inl (ActiveTaskNotFoundError c)
      | Some t \<Rightarrow>
          if truthy_opt egen \<and> generation_id t \<noteq> or_empty egen
          then Inl (ActiveTaskVersionConflictError (generation_id t) (revision t))
          else if erev \<noteq> None \<and> revision t \<noteq> the erev
          then Inl (ActiveTaskVersionConflictError (generation_id t) (revision t))
          else Inr t)"

fun new_steps :: "int \<Rightarrow> (string \<times> string) list \<Rightarrow> active_task_step list" where
  "new_steps p [] = []"
| "new_steps p ((t, dt) # rest) =
     \<lparr>position = p, step_title = t, step_detail = dt, status = PENDING,
      evidence_run_id = None, evidence_summary = []\<rparr> # new_steps (p + 1) rest"

definition new_task ::
  "string \<Rightarrow> int \<Rightarrow> string \<Rightarrow> string \<Rightarrow> string \<Rightarrow> (string \<times> string) list \<Rightarrow>
   string option \<Rightarrow> string option \<Rightarrow> active_task" where
  "new_task gen now c ttl dt prepared run tool =
     \<lparr>conversation_id = c, generation_id = gen, revision = 0, title = ttl, detail = dt,
      steps = new_steps 1 prepared, active_run_id = None, active_step = None,
      execution_state = ''idle'', created_by_run_id = run, created_by_tool_call_id = tool,
      created_at = now, updated_at = now\<rparr>"

text \<open>The critical section of \<open>create_task\<close>.\<close>

definition mem_create_task ::
  "string \<Rightarrow> int \<Rightarrow> string \<Rightarrow> string \<Rightarrow> string \<Rightarrow> (string \<times> string) list \<Rightarrow>
   string option \<Rightarrow> string option \<Rightarrow> mem_state \<Rightarrow> active_task result \<times> mem_state" where
  "mem_create_task uuid now c ttl dt prepared run tool s =
     (case m_tasks s c of
        Some t \<Rightarrow>
          if truthy_opt tool \<and> created_by_tool_call_id t = tool then (Inr t, s)
          else (Inl (ActiveTaskConflictError ''conversation already has an active task''), s)
      | None \<Rightarrow>
          let t = new_task (generation_of uuid) now c ttl dt prepared run tool in
          (Inr t, s\<lparr>m_tasks := (m_tasks s)(c \<mapsto> t)\<rparr>))"

text \<open>The result both backends build from the task after an update.\<close>

definition step_updated_result ::
  "int \<Rightarrow> step_status \<Rightarrow> active_task option \<Rightarrow> task_state_snapshot \<Rightarrow> bool \<Rightarrow> task_mutation_result" where
  "step_updated_result p st task snap completed =
     \<lparr>mr_task = task, mr_snapshot = snap,
      mr_outcome = \<lparr>kind = ''step_updated'',
        oc_task_status = (if completed then LS_COMPLETED else LS_ACTIVE),
        oc_step = Some p, oc_step_status = Some (step_status_value st),
        oc_run_status = None, oc_snapshot = Some snap\<rparr>,
      mr_completed = completed\<rparr>"

text \<open>The critical section of \<open>set_step_result\<close>.\<close>

definition mem_set_step_result ::
  "int \<Rightarrow> string \<Rightarrow> int \<Rightarrow> step_status \<Rightarrow> string \<Rightarrow> string option \<Rightarrow> string option \<Rightarrow> int option \<Rightarrow>
   mem_state \<Rightarrow> task_mutation_result result \<times> mem_state" where
  "mem_set_step_result now c p st evidence evidence_run egen erev s =
     (case require_in_memory s c egen erev of
        Inl e \<Rightarrow> (Inl e, s)
      | Inr task \<Rightarrow>
          let index = nat (p - 1) in
          if m_bindings s c \<noteq> None
          then (Inl (ActiveTaskConflictError ''active task already has a running step''), s)
          else if length (steps task) \<le> index
          then (Inl (ActiveTaskNotFoundError (int_str p)), s)
          else if \<exists>x \<in> set (take index (steps task)). status x \<noteq> COMPLETED
          then (Inl (ActiveTaskConflictError ''previous task steps must be completed first''), s)
          else
            let current = steps task ! index in
            if status current = COMPLETED \<and> st \<noteq> COMPLETED
            then (Inl (ActiveTaskConflictError ''completed task steps are immutable''), s)
            else
              let ss = (steps task)[index := current\<lparr>status := st, evidence_run_id := evidence_run,
                          evidence_summary := evidence\<rparr>];
                  updated = task\<lparr>steps := ss, revision := revision task + 1, updated_at := now\<rparr>;
                  snap = snapshot_from_task updated in
              if \<forall>x \<in> set ss. status x = COMPLETED
              then (Inr (step_updated_result p st None snap True),
                    s\<lparr>m_tasks := (m_tasks s)(c := None)\<rparr>)
              else (Inr (step_updated_result p st (Some updated) snap False),
                    s\<lparr>m_tasks := (m_tasks s)(c \<mapsto> updated)\<rparr>))"

text \<open>The critical section of \<open>cancel_task\<close>.\<close>

definition mem_cancel_task ::
  "string \<Rightarrow> string option \<Rightarrow> int option \<Rightarrow> mem_state \<Rightarrow> bool result \<times> mem_state" where
  "mem_cancel_task c egen erev s =
     (case require_in_memory s c egen erev of
        Inl e \<Rightarrow> (Inl e, s)
      | Inr _ \<Rightarrow> (Inr True, s\<lparr>m_bindings := (m_bindings s)(c := None),
                              m_tasks := (m_tasks s)(c := None)\<rparr>))"

definition bind_in_memory_run ::
  "string \<Rightarrow> task_binding \<Rightarrow> mem_state \<Rightarrow> unit result \<times> mem_state" where
  "bind_in_memory_run run_id binding s =
     (let c = tb_conversation_id binding in
      case require_in_memory s c (Some (tb_task_generation_id binding))
             (Some (tb_base_revision binding)) of
        Inl e \<Rightarrow> (Inl e, s)
      | Inr task \<Rightarrow>
          if m_bindings s c \<noteq> None
          then (Inl (ActiveTaskConflictError ''active task already has a running step''), s)
          else
            (case step_number (PInt (tb_step_position binding)) of
               Inl e \<Rightarrow> (Inl e, s)
             | Inr p \<Rightarrow>
                 (Inr (), s\<lparr>
                    m_bindings := (m_bindings s)(c \<mapsto> \<lparr>mb_binding = binding, mb_run_id = run_id\<rparr>),
                    m_tasks := (m_tasks s)(c \<mapsto> task\<lparr>active_run_id := Some run_id,
                      active_step := Some p, execution_state := ''running''\<rparr>)\<rparr>)))"

text \<open>
  The critical section of \<open>handle_run_finished\<close>.  The binding is gone before the step is
  looked up, so an \<open>IndexError\<close> leaves it removed.
\<close>

definition finish_step ::
  "string \<Rightarrow> string \<Rightarrow> string \<Rightarrow> string \<Rightarrow> active_task_step \<Rightarrow> active_task_step" where
  "finish_step run_id st err summary x =
     (if st = ''completed''
      then x\<lparr>status := COMPLETED, evidence_run_id := Some run_id,
             evidence_summary := (if summary \<noteq> [] then ''Run completed: '' @ summary
                                  else ''Run completed'')\<rparr>
      else if st = ''failed''
      then x\<lparr>status := BLOCKED, evidence_run_id := Some run_id,
             evidence_summary := (if err \<noteq> [] then err else ''Run failed'')\<rparr>
      else x)"

definition released_status :: "string \<Rightarrow> string" where
  "released_status st =
     (if st = ''completed'' then ''completed'' else if st = ''failed'' then ''blocked''
      else ''released'')"

definition mem_handle_run_finished ::
  "int \<Rightarrow> string \<Rightarrow> string \<Rightarrow> string \<Rightarrow> string \<Rightarrow> string \<Rightarrow> mem_state \<Rightarrow>
   task_outcome option result \<times> mem_state" where
  "mem_handle_run_finished now c run_id st err summary s =
     (case m_bindings s c of
        None \<Rightarrow> (Inr None, s)
      | Some mb \<Rightarrow>
          if mb_run_id mb \<noteq> run_id then (Inr None, s)
          else
            let s1 = s\<lparr>m_bindings := (m_bindings s)(c := None)\<rparr> in
            (case m_tasks s c of
               None \<Rightarrow> (Inr None, s1)
             | Some task \<Rightarrow>
                 if generation_id task \<noteq> tb_task_generation_id (mb_binding mb) then (Inr None, s1)
                 else
                   let p = tb_step_position (mb_binding mb); index = nat (p - 1) in
                   if (st = ''completed'' \<or> st = ''failed'') \<and> length (steps task) \<le> index
                   then (Inl IndexError, s1)
                   else
                     let ss = (if st = ''completed'' \<or> st = ''failed''
                               then (steps task)[index := finish_step run_id st err summary
                                                    (steps task ! index)]
                               else steps task);
                         updated = task\<lparr>steps := ss, active_run_id := None, active_step := None,
                           execution_state := ''idle'', revision := revision task + 1,
                           updated_at := now\<rparr>;
                         all_done = (\<forall>x \<in> set ss. status x = COMPLETED);
                         outcome = \<lparr>kind = ''run_finished'',
                           oc_task_status = (if all_done then LS_COMPLETED else LS_ACTIVE),
                           oc_step = Some p, oc_step_status = Some (released_status st),
                           oc_run_status = Some st,
                           oc_snapshot = Some (snapshot_from_task updated)\<rparr> in
                     (Inr (Some outcome),
                      s1\<lparr>m_tasks := (if all_done then (m_tasks s)(c := None)
                                     else (m_tasks s)(c \<mapsto> updated))\<rparr>)))"

section \<open>The service\<close>

datatype task_backend = InMemory mem_state | Repository db

text \<open>\<open>_from_row\<close>.\<close>

definition step_of_data :: "task_data_step \<Rightarrow> active_task_step result" where
  "step_of_data x =
     map_result
       (\<lambda>st. \<lparr>position = sd_position x, step_title = sd_title x, step_detail = sd_detail x,
              status = st, evidence_run_id = sd_evidence_run_id x,
              evidence_summary = sd_evidence_summary x\<rparr>)
       (normalize_step_status (if sd_status x = [] then ''pending'' else sd_status x))"

definition from_row :: "int \<Rightarrow> task_data \<Rightarrow> active_task result" where
  "from_row now row =
     map_result
       (\<lambda>ss. \<lparr>conversation_id = td_conversation_id row, generation_id = td_generation_id row,
              revision = td_revision row, title = td_title row, detail = td_detail row,
              steps = ss, active_run_id = td_active_run_id row,
              active_step = td_active_step row,
              execution_state = (if td_execution_state row = [] then ''idle''
                                 else td_execution_state row),
              created_by_run_id = td_created_by_run_id row,
              created_by_tool_call_id = td_created_by_tool_call_id row,
              created_at = (if td_created_at row = 0 then now else td_created_at row),
              updated_at = (if td_updated_at row = 0 then now else td_updated_at row)\<rparr>)
       (mapM_result step_of_data (td_steps row))"

definition opt_from_row :: "int \<Rightarrow> task_data option \<Rightarrow> active_task option result" where
  "opt_from_row now row =
     (case row of None \<Rightarrow> Inr None | Some r \<Rightarrow> map_result Some (from_row now r))"

text \<open>The except clauses around the calls of the repository.\<close>

fun runtime_to_conflict :: "pyerr \<Rightarrow> pyerr" where
  "runtime_to_conflict (RuntimeError m) = ActiveTaskConflictError m"
| "runtime_to_conflict e = e"

fun repository_error :: "pyerr \<Rightarrow> pyerr" where
  "repository_error (KeyError m) = ActiveTaskNotFoundError m"
| "repository_error (RuntimeError m) = ActiveTaskConflictError m"
| "repository_error e = e"

text \<open>The calls of the repository with what the service makes of their answers.\<close>

definition sql_create_task ::
  "codec \<Rightarrow> string \<Rightarrow> int \<Rightarrow> string \<Rightarrow> string \<Rightarrow> string \<Rightarrow> (string \<times> string) list \<Rightarrow>
   string option \<Rightarrow> string option \<Rightarrow> db \<Rightarrow> active_task result \<times> db" where
  "sql_create_task E uuid now c t dt prepared run tool d =
     (case repo_create_task E uuid now c t dt prepared run tool d of
        (r, d') \<Rightarrow> (bind_result (on_error runtime_to_conflict r) (from_row now), d'))"

definition sql_set_step_result ::
  "codec \<Rightarrow> int \<Rightarrow> string \<Rightarrow> int \<Rightarrow> step_status \<Rightarrow> string \<Rightarrow> string option \<Rightarrow> string option \<Rightarrow>
   int option \<Rightarrow> db \<Rightarrow> task_mutation_result result \<times> db" where
  "sql_set_step_result E now c p next_status evidence evidence_run egen erev d =
     (case repo_set_step_result E now c p (step_status_value next_status) evidence evidence_run
             egen erev d of
        (r, d') \<Rightarrow>
          (bind_result (on_error repository_error r) (\<lambda>sr.
           bind_result (opt_from_row now (sr_task sr)) (\<lambda>task.
           bind_result (snapshot_from_dict (sr_snapshot sr)) (\<lambda>snap.
             case snap of
               None \<Rightarrow> Inl (RuntimeError ''task mutation did not return a task snapshot'')
             | Some sn \<Rightarrow> Inr (step_updated_result p next_status task sn (sr_completed sr))))),
           d'))"

definition sql_cancel_task ::
  "string \<Rightarrow> string option \<Rightarrow> int option \<Rightarrow> db \<Rightarrow> bool result \<times> db" where
  "sql_cancel_task c egen erev d =
     (case repo_cancel_task c egen erev d of (r, d') \<Rightarrow> (on_error repository_error r, d'))"

definition sql_handle_run_finished ::
  "codec \<Rightarrow> int \<Rightarrow> string \<Rightarrow> string \<Rightarrow> string \<Rightarrow> string \<Rightarrow> db \<Rightarrow> task_outcome option result \<times> db" where
  "sql_handle_run_finished E now run_id st err summary d =
     (case repo_finish_run_binding E now run_id st (if err = [] then None else Some err) summary d of
        (r, d') \<Rightarrow>
          (bind_result r (\<lambda>oc. outcome_from_dict (case oc of None \<Rightarrow> PNone | Some v \<Rightarrow> v)), d'))"

definition on_backend ::
  "(mem_state \<Rightarrow> 'a \<times> mem_state) \<Rightarrow> (db \<Rightarrow> 'a \<times> db) \<Rightarrow> task_backend \<Rightarrow> 'a \<times> task_backend" where
  "on_backend f g b =
     (case b of
        InMemory s \<Rightarrow> (case f s of (r, s') \<Rightarrow> (r, InMemory s'))
      | Repository d \<Rightarrow> (case g d of (r, d') \<Rightarrow> (r, Repository d')))"

definition create_task ::
  "codec \<Rightarrow> string \<Rightarrow> int \<Rightarrow> string \<Rightarrow> string \<Rightarrow> (string \<times> pyval) list list \<Rightarrow> string \<Rightarrow>
   string option \<Rightarrow> string option \<Rightarrow> task_backend \<Rightarrow> active_task result \<times> task_backend" where
  "create_task E uuid now c ttl items dt run tool b =
     (let t = strip ttl in
      if c = [] then (Inl (ValueError ''conversation_id is required''), b)
      else if t = [] then (Inl (ValueError ''title is required''), b)
      else
        (case prepare_steps items of
           Inl e \<Rightarrow> (Inl e, b)
         | Inr prepared \<Rightarrow>
             on_backend (mem_create_task uuid now c t dt prepared run tool)
               (sql_create_task E uuid now c t dt prepared run tool) b))"

definition get_active_task ::
  "codec \<Rightarrow> run_statuses \<Rightarrow> int \<Rightarrow> task_backend \<Rightarrow> string \<Rightarrow> active_task option result" where
  "get_active_task E rm now b c =
     (case b of
        Repository d \<Rightarrow> bind_result (repo_get_active_task E d c) (opt_from_row now)
      | InMemory s \<Rightarrow> Inr (with_current_run_state rm (m_tasks s c)))"

definition set_step_result ::
  "codec \<Rightarrow> int \<Rightarrow> string \<Rightarrow> pyval \<Rightarrow> string \<Rightarrow> string \<Rightarrow> string option \<Rightarrow> string option \<Rightarrow>
   int option \<Rightarrow> task_backend \<Rightarrow> task_mutation_result result \<times> task_backend" where
  "set_step_result E now c step st evidence_text evidence_run egen erev b =
     (case step_number step of
        Inl e \<Rightarrow> (Inl e, b)
      | Inr p \<Rightarrow>
        (case normalize_step_status st of
           Inl e \<Rightarrow> (Inl e, b)
         | Inr next_status \<Rightarrow>
             let evidence = strip evidence_text in
             if next_status \<in> {COMPLETED, BLOCKED} \<and> \<not> (evidence \<noteq> [] \<or> truthy_opt evidence_run)
             then (Inl (ValueError (step_status_value next_status @ '' task step requires evidence'')), b)
             else
               on_backend (mem_set_step_result now c p next_status evidence evidence_run egen erev)
                 (sql_set_step_result E now c p next_status evidence evidence_run egen erev) b))"

text \<open>
  \<open>cancel_task\<close> reads the task, then deletes it at the version it read (or the version the
  caller expects), then asks the run manager to stop the bound run.  The two steps are
  separate sections of the code, so they are separate definitions.
\<close>

definition cancel_check ::
  "codec \<Rightarrow> run_statuses \<Rightarrow> int \<Rightarrow> string \<Rightarrow> string \<Rightarrow> string option \<Rightarrow> int option \<Rightarrow> task_backend \<Rightarrow>
   (string \<times> int \<times> string option) result" where
  "cancel_check E rm now c reason egen erev b =
     (if strip reason = [] then Inl (ValueError ''reason is required'')
      else
        bind_result (get_active_task E rm now b c) (\<lambda>found.
          case found of
            None \<Rightarrow> Inl (ActiveTaskNotFoundError c)
          | Some t \<Rightarrow>
              if truthy_opt egen \<and> generation_id t \<noteq> or_empty egen
              then Inl (ActiveTaskVersionConflictError (generation_id t) (revision t))
              else if erev \<noteq> None \<and> revision t \<noteq> the erev
              then Inl (ActiveTaskVersionConflictError (generation_id t) (revision t))
              else Inr (if truthy_opt egen then or_empty egen else generation_id t,
                        case erev of None \<Rightarrow> revision t | Some r \<Rightarrow> r,
                        active_run_id t)))"

definition cancel_commit ::
  "string \<Rightarrow> string \<Rightarrow> int \<Rightarrow> task_backend \<Rightarrow> bool result \<times> task_backend" where
  "cancel_commit c g rv =
     on_backend (mem_cancel_task c (Some g) (Some rv)) (sql_cancel_task c (Some g) (Some rv))"

definition cancel_task ::
  "codec \<Rightarrow> run_statuses \<Rightarrow> int \<Rightarrow> string \<Rightarrow> string \<Rightarrow> string option \<Rightarrow> int option \<Rightarrow> task_backend \<Rightarrow>
   (bool \<times> string option) result \<times> task_backend" where
  "cancel_task E rm now c reason egen erev b =
     (case cancel_check E rm now c reason egen erev b of
        Inl e \<Rightarrow> (Inl e, b)
      | Inr (g, rv, run) \<Rightarrow>
          (case cancel_commit c g rv b of
             (Inl e, b') \<Rightarrow> (Inl e, b')
           | (Inr cancelled, b') \<Rightarrow>
               (Inr (cancelled, if cancelled \<and> truthy_opt run \<and> rm \<noteq> None then run else None), b')))"

definition prepare_run_binding ::
  "codec \<Rightarrow> run_statuses \<Rightarrow> int \<Rightarrow> string \<Rightarrow> pyval \<Rightarrow> string option \<Rightarrow> string option \<Rightarrow> int option \<Rightarrow>
   task_backend \<Rightarrow> task_binding result" where
  "prepare_run_binding E rm now c step mode egen erev b =
     bind_result (normalize_context_mode mode) (\<lambda>m.
       if m \<noteq> ATTACHED then Inl TaskContextDisabledError
       else if \<not> truthy_opt egen \<or> erev = None
       then Inl (ActiveTaskConflictError ''active task context is stale'')
       else
         bind_result (step_number step) (\<lambda>p.
         bind_result (get_active_task E rm now b c) (\<lambda>found.
           case found of
             None \<Rightarrow> Inl (ActiveTaskNotFoundError c)
           | Some t \<Rightarrow>
               if generation_id t \<noteq> or_empty egen
               then Inl (ActiveTaskVersionConflictError (generation_id t) (revision t))
               else if revision t \<noteq> the erev
               then Inl (ActiveTaskVersionConflictError (generation_id t) (revision t))
               else if truthy_opt (active_run_id t)
               then Inl (ActiveTaskConflictError ''active task already has a running step'')
               else if int (length (steps t)) < p then Inl (ActiveTaskNotFoundError (int_str p))
               else
                 let selected = steps t ! nat (p - 1) in
                 if status selected = COMPLETED
                 then Inl (ActiveTaskConflictError ''task step is already completed'')
                 else if \<exists>x \<in> set (take (nat (p - 1)) (steps t)). status x \<noteq> COMPLETED
                 then Inl (ActiveTaskConflictError ''previous task steps must be completed first'')
                 else Inr \<lparr>tb_conversation_id = c, tb_task_generation_id = generation_id t,
                           tb_step_position = p, tb_base_revision = the erev\<rparr>)))"

text \<open>The error text of a finished run: its own, or the one in its metadata.\<close>

definition run_error_text :: "(string \<times> pyval) list \<Rightarrow> string result" where
  "run_error_text run =
     (if py_true (dget run ''error'') then Inr (strip (py_str (dget run ''error'')))
      else if \<not> py_true (dget run ''metadata'') then Inr []
      else
        (case dget run ''metadata'' of
           PDict m \<Rightarrow> Inr (strip (str_or (dget m ''error'') []))
         | _ \<Rightarrow> Inl AttributeError))"

definition handle_run_finished ::
  "codec \<Rightarrow> int \<Rightarrow> (string \<times> pyval) list \<Rightarrow> task_backend \<Rightarrow> task_outcome option result \<times> task_backend" where
  "handle_run_finished E now run b =
     (let run_id = str_or (dget run ''run_id'') [];
          st = str_or (dget run ''status'') [];
          summary = strip (str_or (dget run ''summary'') []);
          c = str_or (dget run ''conversation_id'') [] in
      case run_error_text run of
        Inl e \<Rightarrow> (Inl e, b)
      | Inr err \<Rightarrow>
          if run_id = [] then (Inr None, b)
          else
            on_backend (mem_handle_run_finished now c run_id st err summary)
              (sql_handle_run_finished E now run_id st err summary) b)"

end
