(* ===== verification/TaskSpec.thy ===== *)
theory TaskSpec
  imports TaskService
begin

text \<open>
  What the task service promises, independently of where it keeps its state.  A conversation
  has at most one abstract task: its version, its steps and the run bound to one of them.
  The specification operations are total functions on such a task; \<open>task_ok\<close> is the
  invariant they keep.  The locale \<open>task_store\<close> states what a backend owes the service, and
  its lemmas are what a client may rely on.
\<close>

section \<open>Abstract tasks\<close>

record abs_task =
  a_generation :: string
  a_revision :: int
  a_title :: string
  a_detail :: string
  a_steps :: "active_task_step list"
  a_bound :: "(string \<times> int) option"
  a_created_by_run :: "string option"
  a_tool_call :: "string option"
  a_created_at :: int
  a_updated_at :: int

text \<open>The task as the service shows it, with an execution state.\<close>

definition task_of :: "string \<Rightarrow> string \<Rightarrow> abs_task \<Rightarrow> active_task" where
  "task_of c ex t =
     \<lparr>conversation_id = c, generation_id = a_generation t, revision = a_revision t,
      title = a_title t, detail = a_detail t, steps = a_steps t,
      active_run_id = map_option fst (a_bound t), active_step = map_option snd (a_bound t),
      execution_state = ex, created_by_run_id = a_created_by_run t,
      created_by_tool_call_id = a_tool_call t, created_at = a_created_at t,
      updated_at = a_updated_at t\<rparr>"

definition positions_ok :: "active_task_step list \<Rightarrow> bool" where
  "positions_ok ss = (map position ss = map int [1..<Suc (length ss)])"

text \<open>
  The frontier: some steps are completed, the next one is not, and all later ones are still
  pending.
\<close>

definition frontier_at :: "active_task_step list \<Rightarrow> nat \<Rightarrow> bool" where
  "frontier_at ss k =
     (k < length ss \<and> (\<forall>i < k. status (ss ! i) = COMPLETED) \<and> status (ss ! k) \<noteq> COMPLETED \<and>
      (\<forall>i < length ss. k < i \<longrightarrow> status (ss ! i) = PENDING))"

definition frontier_ok :: "active_task_step list \<Rightarrow> bool" where
  "frontier_ok ss = (\<exists>k < length ss. frontier_at ss k)"

definition all_completed :: "active_task_step list \<Rightarrow> bool" where
  "all_completed ss = (\<forall>x \<in> set ss. status x = COMPLETED)"

text \<open>A step that may be worked on: every earlier step is completed.\<close>

definition previous_completed :: "active_task_step list \<Rightarrow> int \<Rightarrow> bool" where
  "previous_completed ss p = (\<forall>x \<in> set (take (nat (p - 1)) ss). status x = COMPLETED)"

definition in_steps :: "active_task_step list \<Rightarrow> int \<Rightarrow> bool" where
  "in_steps ss p = (1 \<le> p \<and> p \<le> int (length ss))"

definition startable :: "active_task_step list \<Rightarrow> int \<Rightarrow> bool" where
  "startable ss p =
     (in_steps ss p \<and> previous_completed ss p \<and> status (ss ! nat (p - 1)) \<noteq> COMPLETED)"

definition task_ok :: "abs_task \<Rightarrow> bool" where
  "task_ok t =
     (positions_ok (a_steps t) \<and> length (a_steps t) \<le> 64 \<and> frontier_ok (a_steps t) \<and>
      0 \<le> a_revision t \<and> 0 < a_created_at t \<and> 0 < a_updated_at t \<and>
      (\<forall>r p. a_bound t = Some (r, p) \<longrightarrow> startable (a_steps t) p))"

section \<open>Specification operations\<close>

definition version_ok :: "abs_task \<Rightarrow> string option \<Rightarrow> int option \<Rightarrow> bool" where
  "version_ok t egen erev =
     ((truthy_opt egen \<longrightarrow> a_generation t = or_empty egen) \<and> (erev = None \<or> a_revision t = the erev))"

definition spec_new ::
  "string \<Rightarrow> int \<Rightarrow> string \<Rightarrow> string \<Rightarrow> (string \<times> string) list \<Rightarrow> string option \<Rightarrow> string option \<Rightarrow> abs_task" where
  "spec_new gen now ttl dt prepared run tool =
     \<lparr>a_generation = gen, a_revision = 0, a_title = ttl, a_detail = dt,
      a_steps = new_steps 1 prepared, a_bound = None, a_created_by_run = run,
      a_tool_call = tool, a_created_at = now, a_updated_at = now\<rparr>"

definition set_step_ok :: "abs_task \<Rightarrow> int \<Rightarrow> step_status \<Rightarrow> bool" where
  "set_step_ok t p st =
     (a_bound t = None \<and> in_steps (a_steps t) p \<and> previous_completed (a_steps t) p \<and>
      (status (a_steps t ! nat (p - 1)) = COMPLETED \<longrightarrow> st = COMPLETED))"

definition step_set ::
  "int \<Rightarrow> step_status \<Rightarrow> string option \<Rightarrow> string \<Rightarrow> active_task_step list \<Rightarrow> active_task_step list" where
  "step_set p st run ev ss =
     ss[nat (p - 1) := (ss ! nat (p - 1))\<lparr>status := st, evidence_run_id := run,
                                          evidence_summary := ev\<rparr>]"

definition spec_set_step ::
  "int \<Rightarrow> int \<Rightarrow> step_status \<Rightarrow> string \<Rightarrow> string option \<Rightarrow> abs_task \<Rightarrow> abs_task" where
  "spec_set_step now p st ev run t =
     t\<lparr>a_steps := step_set p st run ev (a_steps t), a_revision := a_revision t + 1,
       a_updated_at := now\<rparr>"

text \<open>A task whose steps are all completed is not active any more.\<close>

definition retire :: "abs_task \<Rightarrow> abs_task option" where
  "retire t = (if all_completed (a_steps t) then None else Some t)"

definition spec_bind :: "string \<Rightarrow> int \<Rightarrow> abs_task \<Rightarrow> abs_task" where
  "spec_bind run p t = t\<lparr>a_bound := Some (run, p)\<rparr>"

text \<open>
  The end of a bound run with the evidence it leaves: a completed run completes its step, a
  failed one blocks it, any other only releases it.
\<close>

definition spec_release :: "int \<Rightarrow> string \<Rightarrow> string \<Rightarrow> string \<Rightarrow> int \<Rightarrow> abs_task \<Rightarrow> abs_task" where
  "spec_release now run st ev p t =
     t\<lparr>a_steps := (if st = ''completed'' then step_set p COMPLETED (Some run) ev (a_steps t)
          else if st = ''failed'' then step_set p BLOCKED (Some run) ev (a_steps t)
          else a_steps t),
       a_bound := None, a_revision := a_revision t + 1, a_updated_at := now\<rparr>"

definition finish_evidence :: "string \<Rightarrow> string \<Rightarrow> string \<Rightarrow> string" where
  "finish_evidence st err summary =
     (if st = ''completed''
      then if summary \<noteq> [] then ''Run completed: '' @ summary else ''Run completed''
      else if err \<noteq> [] then err else ''Run failed'')"

definition spec_finish :: "int \<Rightarrow> string \<Rightarrow> string \<Rightarrow> string \<Rightarrow> string \<Rightarrow> int \<Rightarrow> abs_task \<Rightarrow> abs_task" where
  "spec_finish now run st err summary p t =
     spec_release now run st (finish_evidence st err summary) p t"

section \<open>The specification keeps the invariant\<close>

lemma positions_ok_Nil [simp]: "positions_ok []"
  by (simp add: positions_ok_def)

lemma positions_okD: "positions_ok ss \<Longrightarrow> i < length ss \<Longrightarrow> position (ss ! i) = int (Suc i)"
proof -
  assume "positions_ok ss" "i < length ss"
  then have "map position ss ! i = map int [1..<Suc (length ss)] ! i"
    by (simp add: positions_ok_def)
  with \<open>i < length ss\<close> show "position (ss ! i) = int (Suc i)"
    by (simp add: nth_map del: upt_Suc)
qed

lemma positions_okI: "(\<And>i. i < length ss \<Longrightarrow> position (ss ! i) = int (Suc i)) \<Longrightarrow> positions_ok ss"
  unfolding positions_ok_def by (rule nth_equalityI) (simp_all del: upt_Suc)

lemma length_step_set [simp]: "length (step_set p st run ev ss) = length ss"
  by (simp add: step_set_def)

lemma nth_step_set:
  "i < length ss \<Longrightarrow> step_set p st run ev ss ! i =
     (if i = nat (p - 1) then (ss ! i)\<lparr>status := st, evidence_run_id := run, evidence_summary := ev\<rparr>
      else ss ! i)"
  by (simp add: step_set_def nth_list_update)

lemma positions_ok_step_set: "positions_ok ss \<Longrightarrow> positions_ok (step_set p st run ev ss)"
  by (rule positions_okI) (simp add: nth_step_set positions_okD)

lemma previous_completed_nth:
  "in_steps ss p \<Longrightarrow> previous_completed ss p \<longleftrightarrow> (\<forall>i < nat (p - 1). status (ss ! i) = COMPLETED)"
  by (auto simp: previous_completed_def in_steps_def all_set_conv_all_nth)

lemma all_completed_nth: "all_completed ss \<longleftrightarrow> (\<forall>i < length ss. status (ss ! i) = COMPLETED)"
  by (simp add: all_completed_def all_set_conv_all_nth)

lemma frontier_not_all: "frontier_ok ss \<Longrightarrow> \<not> all_completed ss"
  by (auto simp: frontier_ok_def frontier_at_def all_completed_nth)

lemma frontier_unique: "frontier_at ss j \<Longrightarrow> frontier_at ss k \<Longrightarrow> j = k"
  unfolding frontier_at_def by (metis linorder_neqE_nat)

lemma frontier_nonempty: "frontier_ok ss \<Longrightarrow> ss \<noteq> []"
  by (auto simp: frontier_ok_def)

text \<open>The only step that can be started is the frontier.\<close>

lemma startable_iff_frontier:
  assumes "frontier_ok ss"
  shows "startable ss p \<longleftrightarrow> 1 \<le> p \<and> frontier_at ss (nat (p - 1))"
proof -
  from assms obtain k where k: "k < length ss" "frontier_at ss k" by (auto simp: frontier_ok_def)
  show ?thesis
  proof
    assume st: "startable ss p"
    then have p: "in_steps ss p" and prev: "\<forall>i < nat (p - 1). status (ss ! i) = COMPLETED"
      and cur: "status (ss ! nat (p - 1)) \<noteq> COMPLETED"
      by (auto simp: startable_def previous_completed_nth)
    have "nat (p - 1) = k"
      using prev cur k unfolding frontier_at_def by (metis linorder_neqE_nat)
    with p k show "1 \<le> p \<and> frontier_at ss (nat (p - 1))" by (simp add: in_steps_def)
  next
    assume "1 \<le> p \<and> frontier_at ss (nat (p - 1))"
    moreover from this have "in_steps ss p" by (auto simp: in_steps_def frontier_at_def)
    ultimately show "startable ss p"
      by (auto simp: startable_def previous_completed_nth frontier_at_def)
  qed
qed

text \<open>Setting an allowed step moves the frontier or completes the task.\<close>

lemma frontier_step_set:
  assumes fr: "frontier_ok ss" and p: "in_steps ss p" and prev: "previous_completed ss p"
    and imm: "status (ss ! nat (p - 1)) = COMPLETED \<longrightarrow> st = COMPLETED"
  shows "all_completed (step_set p st run ev ss) \<or> frontier_ok (step_set p st run ev ss)"
proof -
  let ?i = "nat (p - 1)" and ?ss = "step_set p st run ev ss"
  from fr obtain k where k: "frontier_at ss k" by (auto simp: frontier_ok_def)
  have i: "?i < length ss" using p by (auto simp: in_steps_def)
  have prev': "\<forall>j < ?i. status (ss ! j) = COMPLETED" using previous_completed_nth p prev by blast
  have ik: "?i \<le> k" using prev' k unfolding frontier_at_def by (meson not_less)
  show ?thesis
  proof (cases "?i = k")
    case False
    with ik have "?i < k" by simp
    with k imm have "st = COMPLETED" by (auto simp: frontier_at_def)
    with k i have "frontier_at ?ss k"
      using \<open>?i < k\<close> by (auto simp: frontier_at_def nth_step_set)
    then show ?thesis unfolding frontier_ok_def frontier_at_def by blast
  next
    case True
    show ?thesis
    proof (cases "st = COMPLETED")
      case False
      with True k i have "frontier_at ?ss k" by (auto simp: frontier_at_def nth_step_set)
      then show ?thesis unfolding frontier_ok_def frontier_at_def by blast
    next
      case cmpl: True
      show ?thesis
      proof (cases "Suc k = length ss")
        case last: True
        have "status (?ss ! j) = COMPLETED" if "j < length ss" for j
          using that True cmpl k last
          by (cases "j = k") (auto simp: nth_step_set frontier_at_def)
        then have "all_completed ?ss" by (simp add: all_completed_nth)
        then show ?thesis ..
      next
        case False
        with k have lt: "Suc k < length ss" by (simp add: frontier_at_def)
        with True cmpl k i have "frontier_at ?ss (Suc k)"
          by (auto simp: frontier_at_def nth_step_set less_Suc_eq)
        with lt show ?thesis unfolding frontier_ok_def by auto
      qed
    qed
  qed
qed

lemma length_new_steps [simp]: "length (new_steps p prepared) = length prepared"
  by (induction p prepared rule: new_steps.induct) auto

lemma new_steps_nth:
  "i < length prepared \<Longrightarrow>
   position (new_steps p prepared ! i) = p + int i \<and> status (new_steps p prepared ! i) = PENDING"
proof (induction p prepared arbitrary: i rule: new_steps.induct)
  case (1 p)
  then show ?case by simp
next
  case (2 p t dt rest)
  then show ?case by (cases i) auto
qed

lemma frontier_new_steps: "prepared \<noteq> [] \<Longrightarrow> frontier_ok (new_steps p prepared)"
  unfolding frontier_ok_def
  by (rule exI [of _ 0]) (auto simp: frontier_at_def new_steps_nth)

lemma positions_new_steps: "positions_ok (new_steps 1 prepared)"
  by (rule positions_okI) (simp add: new_steps_nth)

lemma task_ok_new:
  "prepared \<noteq> [] \<Longrightarrow> length prepared \<le> 64 \<Longrightarrow> 0 < now \<Longrightarrow>
   task_ok (spec_new gen now ttl dt prepared run tool)"
  by (simp add: task_ok_def spec_new_def positions_new_steps frontier_new_steps)

lemma frontier_after:
  "frontier_ok ss \<Longrightarrow> in_steps ss p \<Longrightarrow> previous_completed ss p \<Longrightarrow>
   (status (ss ! nat (p - 1)) = COMPLETED \<Longrightarrow> st = COMPLETED) \<Longrightarrow>
   \<not> all_completed (step_set p st run ev ss) \<Longrightarrow> frontier_ok (step_set p st run ev ss)"
  using frontier_step_set by blast

lemma task_ok_set_step:
  "task_ok t \<Longrightarrow> set_step_ok t p st \<Longrightarrow> 0 < now \<Longrightarrow>
   retire (spec_set_step now p st ev run t) = Some t' \<Longrightarrow> task_ok t'"
  by (auto simp: task_ok_def set_step_ok_def retire_def spec_set_step_def positions_ok_step_set
      split: if_splits intro: frontier_after)

lemma task_ok_bind: "task_ok t \<Longrightarrow> startable (a_steps t) p \<Longrightarrow> task_ok (spec_bind run p t)"
  by (auto simp: task_ok_def spec_bind_def)

lemma task_ok_release:
  assumes "task_ok t" and "a_bound t = Some (run, p)" and "0 < now"
    and "retire (spec_release now run st ev p t) = Some t'"
  shows "task_ok t'"
proof -
  have st: "startable (a_steps t) p" using assms by (auto simp: task_ok_def)
  have "frontier_ok (step_set p x (Some run) ev (a_steps t))"
    if "\<not> all_completed (step_set p x (Some run) ev (a_steps t))" for x
    using frontier_after [of "a_steps t" p x] st assms(1) that
    by (simp add: startable_def task_ok_def)
  then show ?thesis
    using assms by (auto simp: task_ok_def retire_def spec_release_def positions_ok_step_set
        split: if_splits)
qed

text \<open>A run that is released leaves the task active; a task is complete only through its last step.\<close>

lemma released_active:
  assumes "task_ok t" "st \<noteq> ''completed''" "a_bound t = Some (run, p)"
  shows "\<not> all_completed (a_steps (spec_release now run st ev p t))"
proof -
  have "startable (a_steps t) p" using assms by (auto simp: task_ok_def)
  then have i: "nat (p - 1) < length (a_steps t)" by (auto simp: startable_def in_steps_def)
  have "status (step_set p BLOCKED (Some run) ev (a_steps t) ! nat (p - 1)) = BLOCKED"
    using i by (simp add: nth_step_set)
  with i have "\<not> all_completed (step_set p BLOCKED (Some run) ev (a_steps t))"
    unfolding all_completed_nth length_step_set by (metis step_status.distinct(5))
  moreover have "\<not> all_completed (a_steps t)"
    using assms(1) frontier_not_all by (auto simp: task_ok_def)
  ultimately show ?thesis using assms(2) by (simp add: spec_release_def)
qed

lemma finish_released_active:
  "task_ok t \<Longrightarrow> st \<noteq> ''completed'' \<Longrightarrow> a_bound t = Some (run, p) \<Longrightarrow>
   \<not> all_completed (a_steps (spec_finish now run st err summary p t))"
  unfolding spec_finish_def by (rule released_active)

lemma task_ok_finish:
  "task_ok t \<Longrightarrow> a_bound t = Some (run, p) \<Longrightarrow> 0 < now \<Longrightarrow>
   retire (spec_finish now run st err summary p t) = Some t' \<Longrightarrow> task_ok t'"
  unfolding spec_finish_def by (rule task_ok_release)

section \<open>The contract of a backend\<close>

definition snapshot_of :: "abs_task \<Rightarrow> task_state_snapshot" where
  "snapshot_of t = \<lparr>sn_title = a_title t, sn_steps = map snapshot_step (a_steps t)\<rparr>"

definition step_result_of :: "string \<Rightarrow> int \<Rightarrow> step_status \<Rightarrow> abs_task \<Rightarrow> task_mutation_result" where
  "step_result_of c p st t =
     step_updated_result p st (map_option (task_of c ''idle'') (retire t)) (snapshot_of t)
       (all_completed (a_steps t))"

definition finish_outcome_of :: "int \<Rightarrow> string \<Rightarrow> abs_task \<Rightarrow> task_outcome" where
  "finish_outcome_of p st t =
     \<lparr>kind = ''run_finished'',
      oc_task_status = (if all_completed (a_steps t) then LS_COMPLETED else LS_ACTIVE),
      oc_step = Some p, oc_step_status = Some (released_status st), oc_run_status = Some st,
      oc_snapshot = Some (snapshot_of t)\<rparr>"

text \<open>
  The evidence the two backends record for a finished run is the same unless a completed run
  has an error text or a failed run has a summary and no error text.
\<close>

definition evidence_agrees :: "string \<Rightarrow> string \<Rightarrow> string \<Rightarrow> bool" where
  "evidence_agrees st err summary =
     ((st = ''completed'' \<longrightarrow> err = []) \<and> (st = ''failed'' \<longrightarrow> err \<noteq> [] \<or> summary = []))"

text \<open>
  Why a step update or a cancellation is refused, in the order in which both backends look.
\<close>

datatype refusal =
    No_task
  | Stale string int
  | Busy
  | No_step int
  | Out_of_order
  | Immutable

definition version_refusal :: "abs_task option \<Rightarrow> string option \<Rightarrow> int option \<Rightarrow> refusal option" where
  "version_refusal found egen erev =
     (case found of
        None \<Rightarrow> Some No_task
      | Some t \<Rightarrow> if version_ok t egen erev then None else Some (Stale (a_generation t) (a_revision t)))"

definition set_step_refusal ::
  "abs_task option \<Rightarrow> string option \<Rightarrow> int option \<Rightarrow> int \<Rightarrow> step_status \<Rightarrow> refusal option" where
  "set_step_refusal found egen erev p st =
     (case found of
        None \<Rightarrow> Some No_task
      | Some t \<Rightarrow>
          if \<not> version_ok t egen erev then Some (Stale (a_generation t) (a_revision t))
          else if a_bound t \<noteq> None then Some Busy
          else if \<not> in_steps (a_steps t) p then Some (No_step p)
          else if \<not> previous_completed (a_steps t) p then Some Out_of_order
          else if status (a_steps t ! nat (p - 1)) = COMPLETED \<and> st \<noteq> COMPLETED then Some Immutable
          else None)"

lemma version_refusal_None:
  "version_refusal found egen erev = None \<longleftrightarrow> (\<exists>t. found = Some t \<and> version_ok t egen erev)"
  by (simp add: version_refusal_def split: option.split)

lemma set_step_refusal_None:
  "set_step_refusal found egen erev p st = None \<longleftrightarrow>
   (\<exists>t. found = Some t \<and> version_ok t egen erev \<and> set_step_ok t p st)"
  by (cases found) (simp_all add: set_step_refusal_def set_step_ok_def del: not_None_eq)

text \<open>A refusal of a step update, by its version check or by the state of the steps.\<close>

lemma set_step_refusal_cases:
  assumes "set_step_refusal found egen erev p st = Some rf"
  obtains (version) "version_refusal found egen erev = Some rf"
  | (state) t where "found = Some t" and "version_ok t egen erev"
      and "set_step_refusal (Some t) None None p st = Some rf"
  using assms
  by (cases found) (auto simp: set_step_refusal_def version_refusal_def version_ok_def split: if_splits)

text \<open>
  The exceptions of the two backends.  The repository raises a \<open>KeyError\<close> for a missing task,
  whose \<open>str\<close> quotes the id, and a \<open>ValueError\<close> for a completed step, which the service does
  not translate.
\<close>

fun mem_refusal_error :: "string \<Rightarrow> refusal \<Rightarrow> pyerr" where
  "mem_refusal_error c No_task = ActiveTaskNotFoundError c"
| "mem_refusal_error c (Stale g r) = ActiveTaskVersionConflictError g r"
| "mem_refusal_error c Busy = ActiveTaskConflictError ''active task already has a running step''"
| "mem_refusal_error c (No_step p) = ActiveTaskNotFoundError (int_str p)"
| "mem_refusal_error c Out_of_order =
     ActiveTaskConflictError ''previous task steps must be completed first''"
| "mem_refusal_error c Immutable = ActiveTaskConflictError ''completed task steps are immutable''"

fun sql_refusal_error :: "string \<Rightarrow> refusal \<Rightarrow> pyerr" where
  "sql_refusal_error c No_task = ActiveTaskNotFoundError (repr_str c)"
| "sql_refusal_error c Immutable = ValueError ''completed task steps are immutable''"
| "sql_refusal_error c rf = mem_refusal_error c rf"

text \<open>
  \<open>conv_known\<close> and \<open>run_known\<close> are the foreign keys of a backend that has any, and
  \<open>refusal_error\<close> is the exception it answers a refusal with.
\<close>

locale task_store =
  fixes abs :: "'s \<Rightarrow> string \<Rightarrow> abs_task option"
    and inv :: "'s \<Rightarrow> bool"
    and conv_known :: "'s \<Rightarrow> string \<Rightarrow> bool"
    and run_known :: "'s \<Rightarrow> string \<Rightarrow> string \<Rightarrow> bool"
    and create :: "string \<Rightarrow> int \<Rightarrow> string \<Rightarrow> string \<Rightarrow> string \<Rightarrow> (string \<times> string) list \<Rightarrow>
      string option \<Rightarrow> string option \<Rightarrow> 's \<Rightarrow> active_task result \<times> 's"
    and set_step :: "int \<Rightarrow> string \<Rightarrow> int \<Rightarrow> step_status \<Rightarrow> string \<Rightarrow> string option \<Rightarrow>
      string option \<Rightarrow> int option \<Rightarrow> 's \<Rightarrow> task_mutation_result result \<times> 's"
    and cancel :: "string \<Rightarrow> string option \<Rightarrow> int option \<Rightarrow> 's \<Rightarrow> bool result \<times> 's"
    and bind_run :: "int \<Rightarrow> string \<Rightarrow> task_binding \<Rightarrow> 's \<Rightarrow> unit result \<times> 's"
    and finish :: "int \<Rightarrow> string \<Rightarrow> string \<Rightarrow> string \<Rightarrow> string \<Rightarrow> string \<Rightarrow> 's \<Rightarrow>
      task_outcome option result \<times> 's"
    and refusal_error :: "string \<Rightarrow> refusal \<Rightarrow> pyerr"
  assumes inv_task_ok: "inv s \<Longrightarrow> abs s c = Some t \<Longrightarrow> task_ok t"
    and create_new:
      "inv s \<Longrightarrow> abs s c = None \<Longrightarrow> conv_known s c \<Longrightarrow> opt_ok (run_known s c) run \<Longrightarrow>
       (\<And>c' t. abs s c' = Some t \<Longrightarrow> a_generation t \<noteq> generation_of uuid) \<Longrightarrow>
       0 < now \<Longrightarrow> prepared \<noteq> [] \<Longrightarrow> length prepared \<le> 64 \<Longrightarrow>
       nt = spec_new (generation_of uuid) now ttl dt prepared run tool \<Longrightarrow>
       \<exists>s'. create uuid now c ttl dt prepared run tool s = (Inr (task_of c ''idle'' nt), s') \<and>
            inv s' \<and> abs s' = (abs s)(c \<mapsto> nt)"
    and create_conflict:
      "inv s \<Longrightarrow> abs s c = Some t \<Longrightarrow> \<not> (truthy_opt tool \<and> a_tool_call t = tool) \<Longrightarrow>
       \<exists>s'. create uuid now c ttl dt prepared run tool s =
              (Inl (ActiveTaskConflictError ''conversation already has an active task''), s') \<and>
            inv s' \<and> abs s' = abs s"
    and create_again:
      "inv s \<Longrightarrow> abs s c = Some t \<Longrightarrow> truthy_opt tool \<Longrightarrow> a_tool_call t = tool \<Longrightarrow>
       \<exists>ex s'. create uuid now c ttl dt prepared run tool s = (Inr (task_of c ex t), s') \<and>
            inv s' \<and> abs s' = abs s"
    and set_step_success:
      "inv s \<Longrightarrow> abs s c = Some t \<Longrightarrow> version_ok t egen erev \<Longrightarrow> set_step_ok t p st \<Longrightarrow>
       opt_ok (run_known s c) run \<Longrightarrow> 0 < now \<Longrightarrow>
       \<exists>s'. set_step now c p st ev run egen erev s =
              (Inr (step_result_of c p st (spec_set_step now p st ev run t)), s') \<and>
            inv s' \<and> abs s' = (abs s)(c := retire (spec_set_step now p st ev run t))"
    and set_step_refused:
      "inv s \<Longrightarrow> 1 \<le> p \<Longrightarrow> set_step_refusal (abs s c) egen erev p st = Some rf \<Longrightarrow>
       set_step now c p st ev run egen erev s = (Inl (refusal_error c rf), s)"
    and set_step_unknown_run:
      "inv s \<Longrightarrow> abs s c = Some t \<Longrightarrow> version_ok t egen erev \<Longrightarrow> set_step_ok t p st \<Longrightarrow>
       \<not> opt_ok (run_known s c) run \<Longrightarrow>
       \<exists>e. set_step now c p st ev run egen erev s = (Inl e, s)"
    and cancel_success:
      "inv s \<Longrightarrow> abs s c = Some t \<Longrightarrow> version_ok t egen erev \<Longrightarrow>
       \<exists>s'. cancel c egen erev s = (Inr True, s') \<and> inv s' \<and> abs s' = (abs s)(c := None)"
    and cancel_refused:
      "inv s \<Longrightarrow> version_refusal (abs s c) egen erev = Some rf \<Longrightarrow>
       cancel c egen erev s = (Inl (refusal_error c rf), s)"
    and bind_success:
      "inv s \<Longrightarrow> abs s (tb_conversation_id b) = Some t \<Longrightarrow>
       a_generation t = tb_task_generation_id b \<Longrightarrow> a_revision t = tb_base_revision b \<Longrightarrow>
       a_bound t = None \<Longrightarrow> startable (a_steps t) (tb_step_position b) \<Longrightarrow>
       run_known s (tb_conversation_id b) rid \<Longrightarrow>
       (\<And>c' t' r p. abs s c' = Some t' \<Longrightarrow> a_bound t' = Some (r, p) \<Longrightarrow> r \<noteq> rid) \<Longrightarrow>
       \<exists>s'. bind_run now rid b s = (Inr (), s') \<and> inv s' \<and>
            abs s' = (abs s)(tb_conversation_id b \<mapsto> spec_bind rid (tb_step_position b) t)"
    and bind_failure:
      "inv s \<Longrightarrow>
       (\<And>t. abs s (tb_conversation_id b) = Some t \<Longrightarrow>
          \<not> (version_ok t (Some (tb_task_generation_id b)) (Some (tb_base_revision b)) \<and>
             a_bound t = None)) \<Longrightarrow>
       \<exists>e. bind_run now rid b s = (Inl e, s)"
    and finish_bound:
      "inv s \<Longrightarrow> abs s c = Some t \<Longrightarrow> a_bound t = Some (rid, p) \<Longrightarrow>
       evidence_agrees rst err summary \<Longrightarrow> rst \<noteq> [] \<Longrightarrow> 0 < now \<Longrightarrow>
       \<exists>s'. finish now c rid rst err summary s =
              (Inr (Some (finish_outcome_of p rst (spec_finish now rid rst err summary p t))), s') \<and>
            inv s' \<and> abs s' = (abs s)(c := retire (spec_finish now rid rst err summary p t))"
    and finish_unbound:
      "inv s \<Longrightarrow> (\<And>c' t r p. abs s c' = Some t \<Longrightarrow> a_bound t = Some (r, p) \<Longrightarrow> r \<noteq> rid) \<Longrightarrow>
       finish now c rid rst err summary s = (Inr None, s)"

section \<open>What a client may rely on\<close>

lemma a_revision_set_step [simp]: "a_revision (spec_set_step now p st ev run t) = a_revision t + 1"
  by (simp add: spec_set_step_def)

lemma retire_SomeD: "retire t = Some t' \<Longrightarrow> t' = t"
  by (simp add: retire_def split: if_splits)

lemma all_completed_step_set_last:
  assumes "frontier_at ss k" and "Suc k = length ss"
  shows "all_completed (step_set (int (Suc k)) COMPLETED run ev ss)"
proof -
  have "status (step_set (int (Suc k)) COMPLETED run ev ss ! i) = COMPLETED" if "i < length ss" for i
    using that assms by (cases "i = k") (auto simp: nth_step_set frontier_at_def)
  then show ?thesis by (simp add: all_completed_nth)
qed

lemma frontier_at_next:
  assumes "frontier_at ss k" and "Suc k < length ss"
  shows "frontier_at (step_set (int (Suc k)) COMPLETED run ev ss) (Suc k)"
  using assms by (auto simp: nth_step_set frontier_at_def less_Suc_eq)

lemma set_step_ok_frontier:
  assumes "frontier_at (a_steps t) k" and "a_bound t = None"
  shows "set_step_ok t (int (Suc k)) st"
  using assms
  by (auto simp: set_step_ok_def in_steps_def previous_completed_def frontier_at_def
      all_set_conv_all_nth)

text \<open>Running an operation for each position in turn; \<open>None\<close> when one of them raises.\<close>

fun run_positions :: "(int \<Rightarrow> 's \<Rightarrow> 'r result \<times> 's) \<Rightarrow> int list \<Rightarrow> 's \<Rightarrow> 's option" where
  "run_positions f [] s = Some s"
| "run_positions f (p # ps) s =
     (case f p s of (Inl _, _) \<Rightarrow> None | (Inr _, s') \<Rightarrow> run_positions f ps s')"

context task_store
begin

lemma set_step_failure:
  assumes "inv s" and "1 \<le> p"
    and "\<And>t. abs s c = Some t \<Longrightarrow> \<not> (version_ok t egen erev \<and> set_step_ok t p st)"
  shows "\<exists>e. set_step now c p st ev run egen erev s = (Inl e, s)"
proof -
  have "set_step_refusal (abs s c) egen erev p st \<noteq> None"
    using assms(3) unfolding set_step_refusal_None by blast
  then show ?thesis using set_step_refused [OF assms(1,2)] by blast
qed

lemma cancel_failure:
  assumes "inv s" and "\<And>t. abs s c = Some t \<Longrightarrow> \<not> version_ok t egen erev"
  shows "\<exists>e. cancel c egen erev s = (Inl e, s)"
proof -
  have "version_refusal (abs s c) egen erev \<noteq> None"
    using assms(2) unfolding version_refusal_None by blast
  then show ?thesis using cancel_refused [OF assms(1)] by blast
qed

lemma set_step_InrD:
  assumes "inv s" and "1 \<le> p" and "0 < now"
    and "set_step now c p st ev run egen erev s = (Inr mr, s')"
  obtains t where "abs s c = Some t" and "version_ok t egen erev" and "set_step_ok t p st"
    and "inv s'" and "abs s' = (abs s)(c := retire (spec_set_step now p st ev run t))"
    and "mr = step_result_of c p st (spec_set_step now p st ev run t)"
proof -
  obtain t where t: "abs s c = Some t" "version_ok t egen erev" "set_step_ok t p st"
    using set_step_failure [OF assms(1,2), of c egen erev st now ev run] assms(4)
    by (metis Inl_Inr_False prod.inject)
  moreover have "opt_ok (run_known s c) run"
    using set_step_unknown_run [OF assms(1) t, of run now ev] assms(4) by fastforce
  ultimately show thesis
    using set_step_success [OF assms(1) t, of run now ev] assms(3,4) that by fastforce
qed

text \<open>Of two updates that expect the same version, the second one is refused.\<close>

lemma no_lost_update:
  assumes "inv s" and "abs s c = Some t" and "1 \<le> p" and "1 \<le> p'" and "0 < now"
    and "set_step now c p st ev run egen erev s = (Inr mr, s')"
  shows "\<exists>e. set_step now' c p' st' ev' run' egen' (Some (a_revision t)) s' = (Inl e, s')"
proof -
  from assms(1,3,5,6) obtain t0 where t0: "abs s c = Some t0" "inv s'"
      "abs s' = (abs s)(c := retire (spec_set_step now p st ev run t0))"
    by (rule set_step_InrD)
  with assms(2) have [simp]: "t0 = t" by simp
  have "\<not> version_ok u egen' (Some (a_revision t))" if "abs s' c = Some u" for u
    using that t0(3) by (auto dest!: retire_SomeD simp: version_ok_def)
  then show ?thesis using set_step_failure [OF t0(2) assms(4)] by blast
qed

text \<open>While a run is bound, no step can be set and no second run can be bound.\<close>

lemma bound_excludes_set_step:
  "inv s \<Longrightarrow> abs s c = Some t \<Longrightarrow> a_bound t \<noteq> None \<Longrightarrow> 1 \<le> p \<Longrightarrow>
   \<exists>e. set_step now c p st ev run egen erev s = (Inl e, s)"
  by (rule set_step_failure) (auto simp: set_step_ok_def)

lemma bound_excludes_bind:
  "inv s \<Longrightarrow> abs s (tb_conversation_id b) = Some t \<Longrightarrow> a_bound t \<noteq> None \<Longrightarrow>
   \<exists>e. bind_run now rid b s = (Inl e, s)"
  by (rule bind_failure) auto

text \<open>Completing the open steps in order succeeds and ends the task.\<close>

lemma complete_in_order:
  assumes "inv s" and "abs s c = Some t" and "a_bound t = None" and "frontier_at (a_steps t) k"
    and "0 < now"
  shows "\<exists>s'. run_positions (\<lambda>p. set_step now c p COMPLETED ev None None None)
                 (map int [Suc k..<Suc (length (a_steps t))]) s = Some s' \<and>
              inv s' \<and> abs s' = (abs s)(c := None)"
  using assms(1-4)
proof (induction "length (a_steps t) - k" arbitrary: s t k)
  case 0
  then show ?case by (simp add: frontier_at_def)
next
  case (Suc n)
  let ?t = "spec_set_step now (int (Suc k)) COMPLETED ev None t"
  have k: "k < length (a_steps t)" using Suc.prems(4) by (simp add: frontier_at_def)
  obtain s1 where s1: "set_step now c (int (Suc k)) COMPLETED ev None None None s =
        (Inr (step_result_of c (int (Suc k)) COMPLETED ?t), s1)"
      "inv s1" "abs s1 = (abs s)(c := retire ?t)"
    using set_step_success [OF Suc.prems(1,2) _ set_step_ok_frontier [OF Suc.prems(4,3)],
        where egen = None and erev = None and run = None and now = now and ev = ev
          and st = COMPLETED] assms(5)
    by (auto simp: version_ok_def)
  have upt: "map int [Suc k..<Suc (length (a_steps t))] =
      int (Suc k) # map int [Suc (Suc k)..<Suc (length (a_steps t))]"
    using k by (simp add: upt_conv_Cons del: upt_Suc)
  show ?case
  proof (cases "Suc k = length (a_steps t)")
    case True
    then have "retire ?t = None"
      using all_completed_step_set_last [OF Suc.prems(4)]
      by (simp add: retire_def spec_set_step_def)
    with s1 True show ?thesis unfolding upt by simp
  next
    case False
    with k have lt: "Suc k < length (a_steps t)" by simp
    have fr: "frontier_at (a_steps ?t) (Suc k)"
      using frontier_at_next [OF Suc.prems(4) lt] by (simp add: spec_set_step_def)
    then have "\<not> all_completed (a_steps ?t)"
      using frontier_not_all unfolding frontier_ok_def frontier_at_def by blast
    then have s1c: "abs s1 c = Some ?t" using s1(3) by (simp add: retire_def)
    have len: "length (a_steps ?t) = length (a_steps t)" by (simp add: spec_set_step_def)
    have bnd: "a_bound ?t = None" using Suc.prems(3) by (simp add: spec_set_step_def)
    have n: "n = length (a_steps ?t) - Suc k" using Suc.hyps(2) len by simp
    from Suc.hyps(1) [OF n s1(2) s1c bnd fr] s1 len show ?thesis
      unfolding upt by auto
  qed
qed

text \<open>
  A run that ends neither completed nor failed releases its step: the steps are as before
  the run, at a later version, and the step can be started again.
\<close>

lemma released_run_can_restart:
  assumes "inv s" and "abs s c = Some t" and "a_bound t = Some (rid, p)"
    and "rst \<notin> {''completed'', ''failed'', []}" and "0 < now"
  shows "\<exists>oc s' t'. finish now c rid rst err summary s = (Inr (Some oc), s') \<and> inv s' \<and>
           abs s' c = Some t' \<and> a_steps t' = a_steps t \<and> a_bound t' = None \<and>
           a_revision t' = a_revision t + 1 \<and> startable (a_steps t') p \<and>
           oc_task_status oc = LS_ACTIVE"
proof -
  let ?t = "spec_finish now rid rst err summary p t"
  have ok: "task_ok t" using assms(1,2) by (rule inv_task_ok)
  have act: "\<not> all_completed (a_steps ?t)"
    using finish_released_active [OF ok] assms(3,4) by blast
  obtain s' where "finish now c rid rst err summary s = (Inr (Some (finish_outcome_of p rst ?t)), s')"
      "inv s'" "abs s' = (abs s)(c := retire ?t)"
    using finish_bound [OF assms(1,2,3), of rst err summary now] assms(4,5)
    by (auto simp: evidence_agrees_def)
  moreover have "startable (a_steps t) p" using ok assms(3) by (simp add: task_ok_def)
  ultimately show ?thesis using act assms(4)
    by (auto simp: retire_def finish_outcome_of_def) (simp_all add: spec_finish_def spec_release_def)
qed

end

end
