(* ===== verification/TaskMem.thy ===== *)
theory TaskMem
  imports TaskSpec
begin

text \<open>
  The in-memory backend of the task service keeps the contract \<open>task_store\<close>.  \<open>mem_abs\<close> reads
  the abstract task of a conversation out of the two dictionaries, \<open>mem_inv\<close> relates the
  stored task to it.
\<close>

definition abs_of :: "(string \<times> int) option \<Rightarrow> active_task \<Rightarrow> abs_task" where
  "abs_of bound t =
     \<lparr>a_generation = generation_id t, a_revision = revision t, a_title = title t,
      a_detail = detail t, a_steps = steps t, a_bound = bound,
      a_created_by_run = created_by_run_id t, a_tool_call = created_by_tool_call_id t,
      a_created_at = created_at t, a_updated_at = updated_at t\<rparr>"

definition bound_of :: "mem_binding option \<Rightarrow> (string \<times> int) option" where
  "bound_of b = map_option (\<lambda>mb. (mb_run_id mb, tb_step_position (mb_binding mb))) b"

definition mem_abs :: "mem_state \<Rightarrow> string \<Rightarrow> abs_task option" where
  "mem_abs s c = map_option (abs_of (bound_of (m_bindings s c))) (m_tasks s c)"

text \<open>The execution state the in-memory service stores.\<close>

definition stored_state :: "abs_task \<Rightarrow> string" where
  "stored_state t = (if a_bound t = None then ''idle'' else ''running'')"

definition binding_for :: "string \<Rightarrow> abs_task \<Rightarrow> mem_binding option \<Rightarrow> bool" where
  "binding_for c t b =
     (a_bound t = bound_of b \<and>
      opt_ok (\<lambda>mb. tb_conversation_id (mb_binding mb) = c \<and>
                   tb_task_generation_id (mb_binding mb) = a_generation t) b)"

definition conv_inv :: "string \<Rightarrow> active_task option \<Rightarrow> mem_binding option \<Rightarrow> bool" where
  "conv_inv c task b =
     (case task of
        None \<Rightarrow> b = None
      | Some u \<Rightarrow>
          let t = abs_of (bound_of b) u in
          task_ok t \<and> u = task_of c (stored_state t) t \<and> binding_for c t b)"

definition mem_inv :: "mem_state \<Rightarrow> bool" where
  "mem_inv s = (\<forall>c. conv_inv c (m_tasks s c) (m_bindings s c))"

lemma abs_of_task_of [simp]: "abs_of (a_bound t) (task_of c ex t) = t"
  by (simp add: abs_of_def task_of_def)

lemma task_of_simps [simp]:
  "conversation_id (task_of c ex t) = c"
  "generation_id (task_of c ex t) = a_generation t"
  "revision (task_of c ex t) = a_revision t"
  "title (task_of c ex t) = a_title t"
  "steps (task_of c ex t) = a_steps t"
  "created_by_tool_call_id (task_of c ex t) = a_tool_call t"
  "execution_state (task_of c ex t) = ex"
  by (simp_all add: task_of_def)

lemma conv_inv_simps [simp]:
  "conv_inv c None b = (b = None)"
  by (simp add: conv_inv_def)

lemma abs_of_bound: "binding_for c t b \<Longrightarrow> abs_of (bound_of b) (task_of c ex t) = t"
  by (metis abs_of_task_of binding_for_def)

lemma conv_inv_task_of:
  "binding_for c t b \<Longrightarrow> conv_inv c (Some (task_of c (stored_state t) t)) b = task_ok t"
  by (simp add: conv_inv_def Let_def abs_of_bound)

lemma mem_init_inv: "mem_inv mem_init"
  by (simp add: mem_inv_def mem_init_def)

lemma mem_invD: "mem_inv s \<Longrightarrow> conv_inv c (m_tasks s c) (m_bindings s c)"
  by (simp add: mem_inv_def)

lemma mem_abs_NoneD: "mem_inv s \<Longrightarrow> mem_abs s c = None \<Longrightarrow> m_tasks s c = None \<and> m_bindings s c = None"
  using mem_invD [of s c] by (simp add: mem_abs_def)

lemma mem_abs_SomeD:
  assumes "mem_inv s" and "mem_abs s c = Some t"
  shows "m_tasks s c = Some (task_of c (stored_state t) t) \<and> binding_for c t (m_bindings s c) \<and> task_ok t"
  using mem_invD [OF assms(1), of c] assms(2)
  by (auto simp: mem_abs_def conv_inv_def Let_def split: option.splits)

lemma mem_bindings_None: "mem_inv s \<Longrightarrow> mem_abs s c = Some t \<Longrightarrow> m_bindings s c = None \<longleftrightarrow> a_bound t = None"
  using mem_abs_SomeD [of s c t] by (auto simp: binding_for_def bound_of_def)

text \<open>Replacing or removing the task and the binding of one conversation.\<close>

lemma mem_update:
  assumes "mem_inv s" and "task_ok t" and "binding_for c t b"
    and "m_tasks s' = (m_tasks s)(c \<mapsto> task_of c (stored_state t) t)"
    and "m_bindings s' = (m_bindings s)(c := b)"
  shows "mem_inv s' \<and> mem_abs s' = (mem_abs s)(c \<mapsto> t)"
proof
  show "mem_inv s'"
    using assms by (simp add: mem_inv_def conv_inv_task_of)
  show "mem_abs s' = (mem_abs s)(c \<mapsto> t)"
    using assms(3-5) by (simp add: mem_abs_def fun_eq_iff abs_of_bound)
qed

lemma mem_remove:
  assumes "mem_inv s"
    and "m_tasks s' = (m_tasks s)(c := None)" and "m_bindings s' = (m_bindings s)(c := None)"
  shows "mem_inv s' \<and> mem_abs s' = (mem_abs s)(c := None)"
  using assms by (auto simp: mem_inv_def mem_abs_def fun_eq_iff)

section \<open>The operations against the specification\<close>

lemma require_in_memory_ok:
  "mem_inv s \<Longrightarrow> mem_abs s c = Some t \<Longrightarrow> version_ok t egen erev \<Longrightarrow>
   require_in_memory s c egen erev = Inr (task_of c (stored_state t) t)"
  by (auto simp: require_in_memory_def version_ok_def dest!: mem_abs_SomeD)

lemma require_in_memory_refused:
  assumes "mem_inv s" and "version_refusal (mem_abs s c) egen erev = Some rf"
  shows "require_in_memory s c egen erev = Inl (mem_refusal_error c rf)"
proof (cases "mem_abs s c")
  case None
  then show ?thesis using assms mem_abs_NoneD [of s c]
    by (auto simp: require_in_memory_def version_refusal_def)
next
  case (Some t)
  then show ?thesis using assms mem_abs_SomeD [of s c t]
    by (auto simp: require_in_memory_def version_refusal_def version_ok_def split: if_splits)
qed

lemma require_in_memory_fail:
  "mem_inv s \<Longrightarrow> (\<And>t. mem_abs s c = Some t \<Longrightarrow> \<not> version_ok t egen erev) \<Longrightarrow>
   \<exists>e. require_in_memory s c egen erev = Inl e"
  using require_in_memory_refused version_refusal_None [of "mem_abs s c" egen erev]
  by (cases "version_refusal (mem_abs s c) egen erev") blast+

lemma in_steps_nat: "1 \<le> p \<Longrightarrow> in_steps ss p \<longleftrightarrow> nat (p - 1) < length ss"
  by (auto simp: in_steps_def)

lemma mem_create_new:
  assumes "mem_inv s" and "mem_abs s c = None" and "0 < now" and "prepared \<noteq> []"
    and "length prepared \<le> 64" and nt: "nt = spec_new (generation_of uuid) now ttl dt prepared run tool"
  shows "\<exists>s'. mem_create_task uuid now c ttl dt prepared run tool s = (Inr (task_of c ''idle'' nt), s') \<and>
            mem_inv s' \<and> mem_abs s' = (mem_abs s)(c \<mapsto> nt)"
proof -
  have none: "m_tasks s c = None" "m_bindings s c = None" using mem_abs_NoneD assms(1,2) by auto
  have idle: "stored_state nt = ''idle''" by (simp add: nt stored_state_def spec_new_def)
  have eq: "new_task (generation_of uuid) now c ttl dt prepared run tool = task_of c (stored_state nt) nt"
    by (simp add: new_task_def task_of_def idle) (simp add: nt spec_new_def)
  let ?s = "s\<lparr>m_tasks := (m_tasks s)(c \<mapsto> task_of c (stored_state nt) nt)\<rparr>"
  have "task_ok nt" unfolding nt using assms(3-5) by (rule task_ok_new [rotated 2])
  then have "mem_inv ?s \<and> mem_abs ?s = (mem_abs s)(c \<mapsto> nt)"
    using none by (intro mem_update [OF assms(1), where b = None])
      (auto simp: binding_for_def bound_of_def nt spec_new_def fun_eq_iff)
  then show ?thesis using none idle by (simp add: mem_create_task_def eq Let_def)
qed

lemma task_of_update:
  "(task_of c ex t)\<lparr>steps := ss, revision := r, updated_at := n\<rparr> =
   task_of c ex (t\<lparr>a_steps := ss, a_revision := r, a_updated_at := n\<rparr>)"
  by (simp add: task_of_def)

lemma mem_set_step_ok:
  assumes "mem_inv s" and "mem_abs s c = Some t" and "version_ok t egen erev"
    and ok: "set_step_ok t p st" and "0 < now"
  shows "\<exists>s'. mem_set_step_result now c p st ev run egen erev s =
              (Inr (step_result_of c p st (spec_set_step now p st ev run t)), s') \<and>
            mem_inv s' \<and> mem_abs s' = (mem_abs s)(c := retire (spec_set_step now p st ev run t))"
proof -
  let ?t = "spec_set_step now p st ev run t"
  let ?u = "task_of c (stored_state t) t"
  have t: "m_tasks s c = Some ?u" "task_ok t" using mem_abs_SomeD assms(1,2) by blast+
  have bnd: "a_bound t = None" "m_bindings s c = None"
    using ok mem_bindings_None assms(1,2) by (auto simp: set_step_ok_def)
  have p: "1 \<le> p" "nat (p - 1) < length (a_steps t)" using ok by (auto simp: set_step_ok_def in_steps_def)
  have prev: "\<forall>x \<in> set (take (nat (p - 1)) (a_steps t)). status x = COMPLETED"
    using ok by (simp add: set_step_ok_def previous_completed_def)
  have imm: "status (a_steps t ! nat (p - 1)) = COMPLETED \<longrightarrow> st = COMPLETED"
    using ok by (simp add: set_step_ok_def)
  have idle: "stored_state t = ''idle''" "stored_state ?t = ''idle''"
    using bnd by (simp_all add: stored_state_def spec_set_step_def)
  have upd: "?u\<lparr>steps := step_set p st run ev (a_steps t), revision := revision ?u + 1,
      updated_at := now\<rparr> = task_of c (stored_state ?t) ?t"
    by (simp add: task_of_update idle) (simp add: spec_set_step_def)
  have snap: "snapshot_from_task (task_of c x ?t) = snapshot_of ?t" for x
    by (simp add: snapshot_from_task_def snapshot_of_def)
  have steps_upd: "(steps ?u)[nat (p - 1) := (steps ?u ! nat (p - 1))\<lparr>status := st,
      evidence_run_id := run, evidence_summary := ev\<rparr>] = step_set p st run ev (a_steps t)"
    by (simp add: step_set_def)
  have run_eq: "mem_set_step_result now c p st ev run egen erev s =
     (if all_completed (step_set p st run ev (a_steps t))
      then (Inr (step_updated_result p st None (snapshot_of ?t) True), s\<lparr>m_tasks := (m_tasks s)(c := None)\<rparr>)
      else (Inr (step_updated_result p st (Some (task_of c (stored_state ?t) ?t)) (snapshot_of ?t) False),
            s\<lparr>m_tasks := (m_tasks s)(c \<mapsto> task_of c (stored_state ?t) ?t)\<rparr>))"
    using bnd p prev imm
    unfolding mem_set_step_result_def require_in_memory_ok [OF assms(1-3)] Let_def sum.case steps_upd upd snap
    by (auto simp add: all_completed_def not_le)
  show ?thesis
  proof (cases "all_completed (a_steps ?t)")
    case True
    let ?s = "s\<lparr>m_tasks := (m_tasks s)(c := None)\<rparr>"
    have "mem_inv ?s \<and> mem_abs ?s = (mem_abs s)(c := None)"
      using bnd by (intro mem_remove [OF assms(1)]) (auto simp: fun_eq_iff)
    with True show ?thesis
      by (simp add: run_eq retire_def step_result_of_def) (simp add: spec_set_step_def)
  next
    case False
    let ?s = "s\<lparr>m_tasks := (m_tasks s)(c \<mapsto> task_of c (stored_state ?t) ?t)\<rparr>"
    have "task_ok ?t"
      by (rule task_ok_set_step [OF t(2) ok assms(5), where ev = ev and run = run]) (simp add: retire_def False)
    then have "mem_inv ?s \<and> mem_abs ?s = (mem_abs s)(c \<mapsto> ?t)"
      using bnd by (intro mem_update [OF assms(1), where b = None])
        (auto simp: binding_for_def bound_of_def spec_set_step_def fun_eq_iff)
    with False show ?thesis
      by (simp add: run_eq retire_def step_result_of_def idle) (simp add: spec_set_step_def)
  qed
qed

lemma mem_set_step_refused:
  assumes "mem_inv s" and "1 \<le> p" and rf: "set_step_refusal (mem_abs s c) egen erev p st = Some rf"
  shows "mem_set_step_result now c p st ev run egen erev s = (Inl (mem_refusal_error c rf), s)"
  using rf
proof (cases rule: set_step_refusal_cases)
  case version
  then show ?thesis
    by (simp add: mem_set_step_result_def require_in_memory_refused [OF assms(1)])
next
  case (state t)
  have "m_bindings s c = None \<longleftrightarrow> a_bound t = None" using mem_bindings_None assms(1) state(1) .
  with state(3) assms(2) show ?thesis
    unfolding mem_set_step_result_def require_in_memory_ok [OF assms(1) state(1,2)]
    by (auto simp: Let_def set_step_refusal_def version_ok_def previous_completed_def in_steps_nat
        split: if_splits)
qed

lemma mem_cancel_ok:
  "mem_inv s \<Longrightarrow> mem_abs s c = Some t \<Longrightarrow> version_ok t egen erev \<Longrightarrow>
   \<exists>s'. mem_cancel_task c egen erev s = (Inr True, s') \<and> mem_inv s' \<and> mem_abs s' = (mem_abs s)(c := None)"
  by (simp add: mem_cancel_task_def require_in_memory_ok mem_remove)

lemma mem_cancel_refused:
  "mem_inv s \<Longrightarrow> version_refusal (mem_abs s c) egen erev = Some rf \<Longrightarrow>
   mem_cancel_task c egen erev s = (Inl (mem_refusal_error c rf), s)"
  by (simp add: mem_cancel_task_def require_in_memory_refused)

lemma step_number_PInt: "1 \<le> p \<Longrightarrow> step_number (PInt p) = Inr p"
  by (simp add: step_number_def)

lemma task_of_bind:
  "(task_of c ex t)\<lparr>active_run_id := Some run, active_step := Some p, execution_state := ex'\<rparr> =
   task_of c ex' (spec_bind run p t)"
  by (simp add: task_of_def spec_bind_def)

lemma mem_bind_ok:
  assumes "mem_inv s" and t: "mem_abs s (tb_conversation_id b) = Some t"
    and gen: "a_generation t = tb_task_generation_id b" and rev: "a_revision t = tb_base_revision b"
    and "a_bound t = None" and st: "startable (a_steps t) (tb_step_position b)"
  shows "\<exists>s'. bind_in_memory_run run b s = (Inr (), s') \<and> mem_inv s' \<and>
           mem_abs s' = (mem_abs s)(tb_conversation_id b \<mapsto> spec_bind run (tb_step_position b) t)"
proof -
  let ?c = "tb_conversation_id b" and ?p = "tb_step_position b"
  let ?t = "spec_bind run ?p t"
  have v: "version_ok t (Some (tb_task_generation_id b)) (Some (tb_base_revision b))"
    using gen rev by (simp add: version_ok_def)
  have bnd: "m_bindings s ?c = None" using mem_bindings_None assms(1,2,5) by blast
  have p: "1 \<le> ?p" using st by (simp add: startable_def in_steps_def)
  have st': "stored_state ?t = ''running''" by (simp add: stored_state_def spec_bind_def)
  let ?s = "s\<lparr>m_bindings := (m_bindings s)(?c \<mapsto> \<lparr>mb_binding = b, mb_run_id = run\<rparr>),
              m_tasks := (m_tasks s)(?c \<mapsto> task_of ?c (stored_state ?t) ?t)\<rparr>"
  have "task_ok ?t" using task_ok_bind mem_abs_SomeD assms(1) t st by blast
  moreover have "binding_for ?c ?t (Some \<lparr>mb_binding = b, mb_run_id = run\<rparr>)"
    using gen by (simp add: binding_for_def bound_of_def spec_bind_def)
  ultimately have "mem_inv ?s \<and> mem_abs ?s = (mem_abs s)(?c \<mapsto> ?t)"
    by (intro mem_update [OF assms(1), where b = "Some \<lparr>mb_binding = b, mb_run_id = run\<rparr>"]) auto
  then show ?thesis
    using bnd p st' by (simp add: bind_in_memory_run_def require_in_memory_ok [OF assms(1) t v] Let_def
        step_number_PInt task_of_bind)
qed

lemma mem_bind_fail:
  assumes "mem_inv s"
    and no: "\<And>t. mem_abs s (tb_conversation_id b) = Some t \<Longrightarrow>
          \<not> (version_ok t (Some (tb_task_generation_id b)) (Some (tb_base_revision b)) \<and> a_bound t = None)"
  shows "\<exists>e. bind_in_memory_run run b s = (Inl e, s)"
proof (cases "\<exists>t. mem_abs s (tb_conversation_id b) = Some t \<and>
         version_ok t (Some (tb_task_generation_id b)) (Some (tb_base_revision b))")
  case False
  then show ?thesis
    using require_in_memory_fail [OF assms(1), of "tb_conversation_id b"]
    by (fastforce simp: bind_in_memory_run_def Let_def)
next
  case True
  then obtain t where t: "mem_abs s (tb_conversation_id b) = Some t"
    "version_ok t (Some (tb_task_generation_id b)) (Some (tb_base_revision b))" by blast
  with no mem_bindings_None [OF assms(1) t(1)] show ?thesis
    by (auto simp: bind_in_memory_run_def require_in_memory_ok [OF assms(1) t] Let_def)
qed

lemma task_of_finish:
  "(task_of c ex t)\<lparr>steps := ss, active_run_id := None, active_step := None, execution_state := ex',
      revision := r, updated_at := n\<rparr> =
   task_of c ex' (t\<lparr>a_steps := ss, a_bound := None, a_revision := r, a_updated_at := n\<rparr>)"
  by (simp add: task_of_def)

lemma mem_finish_ok:
  assumes "mem_inv s" and t: "mem_abs s c = Some t" and b: "a_bound t = Some (run, p)" and "0 < now"
  shows "\<exists>s'. mem_handle_run_finished now c run st err summary s =
              (Inr (Some (finish_outcome_of p st (spec_finish now run st err summary p t))), s') \<and>
            mem_inv s' \<and> mem_abs s' = (mem_abs s)(c := retire (spec_finish now run st err summary p t))"
proof -
  let ?t = "spec_finish now run st err summary p t" and ?u = "task_of c (stored_state t) t"
  have tt: "m_tasks s c = Some ?u" "binding_for c t (m_bindings s c)" "task_ok t"
    using mem_abs_SomeD assms(1) t by blast+
  then obtain mb where mb: "m_bindings s c = Some mb" "mb_run_id mb = run"
      "tb_step_position (mb_binding mb) = p" "tb_task_generation_id (mb_binding mb) = a_generation t"
    using b by (cases "m_bindings s c") (auto simp: binding_for_def bound_of_def)
  have p: "nat (p - 1) < length (a_steps t)"
    using tt(3) b by (auto simp: task_ok_def startable_def in_steps_def)
  have ss: "(if st = ''completed'' \<or> st = ''failed''
             then (steps ?u)[nat (p - 1) := finish_step run st err summary (steps ?u ! nat (p - 1))]
             else steps ?u) = a_steps ?t"
    by (simp add: finish_step_def spec_finish_def spec_release_def finish_evidence_def step_set_def)
  have idle: "stored_state ?t = ''idle''" by (simp add: stored_state_def spec_finish_def spec_release_def finish_evidence_def)
  have upd: "?u\<lparr>steps := a_steps ?t, active_run_id := None, active_step := None,
      execution_state := ''idle'', revision := revision ?u + 1, updated_at := now\<rparr> =
      task_of c (stored_state ?t) ?t"
    unfolding task_of_finish idle by (simp add: spec_finish_def spec_release_def finish_evidence_def)
  have snap: "snapshot_from_task (task_of c x ?t) = snapshot_of ?t" for x
    by (simp add: snapshot_from_task_def snapshot_of_def)
  let ?s = "s\<lparr>m_bindings := (m_bindings s)(c := None), m_tasks :=
     (if all_completed (a_steps ?t) then (m_tasks s)(c := None)
      else (m_tasks s)(c \<mapsto> task_of c (stored_state ?t) ?t))\<rparr>"
  have run_eq: "mem_handle_run_finished now c run st err summary s =
      (Inr (Some (finish_outcome_of p st ?t)), ?s)"
    using p mb(2,4) unfolding mem_handle_run_finished_def mb(1) tt(1) Let_def option.case mb(3) ss upd snap
    by (simp add: finish_outcome_of_def all_completed_def)
  have "mem_inv ?s \<and> mem_abs ?s = (mem_abs s)(c := retire ?t)"
  proof (cases "all_completed (a_steps ?t)")
    case True
    then show ?thesis using mem_remove [OF assms(1), of ?s c] by (simp add: retire_def)
  next
    case False
    then have "task_ok ?t"
      by (intro task_ok_finish [OF tt(3) b assms(4), where st = st and err = err and summary = summary])
        (simp add: retire_def)
    moreover have "binding_for c ?t None" by (simp add: binding_for_def bound_of_def spec_finish_def spec_release_def finish_evidence_def)
    ultimately show ?thesis using False mem_update [OF assms(1), of ?t c None ?s] by (simp add: retire_def)
  qed
  then show ?thesis using run_eq by blast
qed

text \<open>The in-memory operations meet the contract.\<close>

interpretation mem: task_store mem_abs mem_inv "\<lambda>s c. True" "\<lambda>s c r. True" mem_create_task
  mem_set_step_result mem_cancel_task "\<lambda>now. bind_in_memory_run" mem_handle_run_finished mem_refusal_error
proof (unfold_locales, goal_cases)
  case 1 then show ?case using mem_abs_SomeD by blast
next
  case 2 then show ?case using mem_create_new by blast
next
  case (3 s c t)
  then show ?case using mem_abs_SomeD [of s c t] by (simp add: mem_create_task_def)
next
  case (4 s c t)
  then show ?case using mem_abs_SomeD [of s c t] by (auto simp: mem_create_task_def)
next
  case 5 then show ?case using mem_set_step_ok by blast
next
  case 6 then show ?case by (rule mem_set_step_refused)
next
  case 7 then show ?case by (simp add: opt_ok_def split: option.splits)
next
  case 8 then show ?case by (rule mem_cancel_ok)
next
  case 9 then show ?case by (rule mem_cancel_refused)
next
  case 10 then show ?case using mem_bind_ok by blast
next
  case 11 then show ?case by (rule mem_bind_fail)
next
  case 12 then show ?case using mem_finish_ok by blast
next
  case (13 s run now c)
  show ?case
  proof (cases "m_bindings s c")
    case None
    then show ?thesis by (simp add: mem_handle_run_finished_def)
  next
    case (Some mb)
    with mem_invD [OF 13(1), of c] obtain t where t: "mem_abs s c = Some t"
      by (auto simp: mem_abs_def conv_inv_def split: option.splits)
    then have "a_bound t = Some (mb_run_id mb, tb_step_position (mb_binding mb))"
      using mem_abs_SomeD [OF 13(1) t] Some by (auto simp: binding_for_def bound_of_def)
    with 13(2) t Some show ?thesis by (auto simp: mem_handle_run_finished_def)
  qed
qed

end
