(* ===== verification/TaskDb.thy ===== *)
theory TaskDb
  imports TaskSpec
begin

text \<open>
  The SQLite backend of the task service keeps the contract \<open>task_store\<close>.  \<open>db_wf\<close> states the
  shape of the task tables, \<open>db_abs\<close> reads the abstract task of a conversation out of them.
\<close>

section \<open>Rows with positions\<close>

definition numbered :: "('r \<Rightarrow> int) \<Rightarrow> 'r list \<Rightarrow> bool" where
  "numbered key xs = (map key xs = map int [1..<Suc (length xs)])"

lemma numberedD: "numbered key xs \<Longrightarrow> i < length xs \<Longrightarrow> key (xs ! i) = int (Suc i)"
proof -
  assume "numbered key xs" "i < length xs"
  then have "map key xs ! i = map int [1..<Suc (length xs)] ! i" by (simp add: numbered_def)
  with \<open>i < length xs\<close> show ?thesis by (simp del: upt_Suc)
qed

lemma numberedI: "(\<And>i. i < length xs \<Longrightarrow> key (xs ! i) = int (Suc i)) \<Longrightarrow> numbered key xs"
  unfolding numbered_def by (rule nth_equalityI) (simp_all del: upt_Suc)

lemma numbered_distinct: "numbered key xs \<Longrightarrow> distinct (map key xs)"
  by (simp add: numbered_def distinct_map del: upt_Suc)

lemma numbered_sort: "numbered key xs \<Longrightarrow> sort_key key xs = xs"
  by (rule sort_key_id_if_sorted) (simp add: numbered_def sorted_map del: upt_Suc)

lemma numbered_select:
  "numbered key xs \<Longrightarrow> 1 \<le> p \<Longrightarrow> p \<le> int (length xs) \<Longrightarrow>
   select (\<lambda>r. key r = p) xs = [xs ! nat (p - 1)]"
proof -
  assume n: "numbered key xs" and p: "1 \<le> p" "p \<le> int (length xs)"
  then have i: "nat (p - 1) < length xs" by auto
  then have "key (xs ! nat (p - 1)) = p" using numberedD [OF n i] p by simp
  with select_unique_key [OF numbered_distinct [OF n] nth_mem [OF i]] show ?thesis by simp
qed

lemma numbered_select_none:
  assumes "numbered key xs" and "\<not> (1 \<le> p \<and> p \<le> int (length xs))"
  shows "select (\<lambda>r. key r = p) xs = []"
proof -
  have "key r \<noteq> p" if "r \<in> set xs" for r
    using that assms(2) numberedD [OF assms(1)] by (auto simp: in_set_conv_nth)
  then show ?thesis by (simp add: select_def filter_empty_conv)
qed

lemma numbered_update:
  assumes "numbered key xs" and "1 \<le> p" and "p \<le> int (length xs)"
  shows "update_rows (\<lambda>r. key r = p) f xs = xs[nat (p - 1) := f (xs ! nat (p - 1))]"
proof (rule nth_equalityI)
  fix i assume "i < length (update_rows (\<lambda>r. key r = p) f xs)"
  then have i: "i < length xs" by (simp add: update_rows_def)
  then show "update_rows (\<lambda>r. key r = p) f xs ! i = xs[nat (p - 1) := f (xs ! nat (p - 1))] ! i"
    using numberedD [OF assms(1) i] assms(2,3)
    by (auto simp: update_rows_def nth_list_update)
qed (simp add: update_rows_def)

lemma numbered_previous:
  assumes "numbered key xs" and "1 \<le> p" and "p \<le> int (length xs)"
  shows "select (\<lambda>r. key r < p) xs = take (nat (p - 1)) xs"
proof -
  let ?i = "nat (p - 1)"
  have "filter (\<lambda>r. key r < p) (take ?i xs) = take ?i xs"
    using numberedD [OF assms(1)] assms(2,3)
    by (intro filter_True) (auto simp: in_set_conv_nth)
  moreover have "filter (\<lambda>r. key r < p) (drop ?i xs) = []"
    using numberedD [OF assms(1)] assms(2,3)
    by (auto simp: filter_empty_conv in_set_conv_nth)
  moreover have "filter (\<lambda>r. key r < p) xs =
      filter (\<lambda>r. key r < p) (take ?i xs) @ filter (\<lambda>r. key r < p) (drop ?i xs)"
    by (metis append_take_drop_id filter_append)
  ultimately show ?thesis by (simp add: select_def)
qed

section \<open>Abstraction\<close>

definition status_of :: "string \<Rightarrow> step_status" where
  "status_of s = (case normalize_step_status s of Inl _ \<Rightarrow> PENDING | Inr x \<Rightarrow> x)"

definition text_of :: "codec \<Rightarrow> db \<Rightarrow> string option \<Rightarrow> string option \<Rightarrow> string" where
  "text_of E d inl blob = (case read_text E d inl blob of Inl _ \<Rightarrow> [] | Inr t \<Rightarrow> t)"

definition step_of_row :: "codec \<Rightarrow> db \<Rightarrow> active_task_step_row \<Rightarrow> active_task_step" where
  "step_of_row E d r =
     \<lparr>position = st_position r, step_title = st_title r,
      step_detail = text_of E d (st_detail_inline r) (st_detail_blob_id r),
      status = status_of (st_status r), evidence_run_id = st_evidence_run_id r,
      evidence_summary = st_evidence_summary r\<rparr>"

definition task_row :: "db \<Rightarrow> string \<Rightarrow> active_task_row option" where
  "task_row d c = fetchone (select (\<lambda>r. at_conversation_id r = c) (active_tasks d))"

definition binding_of :: "db \<Rightarrow> string \<Rightarrow> binding_row option" where
  "binding_of d c = fetchone (select (\<lambda>b. b_conversation_id b = c) (task_run_bindings d))"

definition abs_row ::
  "codec \<Rightarrow> db \<Rightarrow> active_task_row \<Rightarrow> active_task_step_row list \<Rightarrow> binding_row option \<Rightarrow> abs_task" where
  "abs_row E d r ss b =
     \<lparr>a_generation = at_generation_id r, a_revision = at_revision r, a_title = at_title r,
      a_detail = text_of E d (at_detail_inline r) (at_detail_blob_id r),
      a_steps = map (step_of_row E d) ss,
      a_bound = map_option (\<lambda>b. (b_run_id b, b_step_position b)) b,
      a_created_by_run = at_created_by_run_id r, a_tool_call = at_created_by_tool_call_id r,
      a_created_at = at_created_at r, a_updated_at = at_updated_at r\<rparr>"

definition db_abs :: "codec \<Rightarrow> db \<Rightarrow> string \<Rightarrow> abs_task option" where
  "db_abs E d c = map_option (\<lambda>r. abs_row E d r (step_rows d c) (binding_of d c)) (task_row d c)"

section \<open>Well-formed task tables\<close>

definition keys_ok :: "db \<Rightarrow> bool" where
  "keys_ok d =
     (distinct (map r_id (runs d)) \<and> distinct (map at_conversation_id (active_tasks d)) \<and>
      distinct (map at_generation_id (active_tasks d)) \<and>
      distinct (map b_conversation_id (task_run_bindings d)) \<and>
      distinct (map b_run_id (task_run_bindings d)))"

definition binding_ok :: "db \<Rightarrow> binding_row \<Rightarrow> bool" where
  "binding_ok d b =
     (has_run d (b_conversation_id b) (b_run_id b) \<and>
      (\<exists>r \<in> set (active_tasks d). at_conversation_id r = b_conversation_id b \<and>
         at_generation_id r = b_task_generation_id b))"

definition task_row_ok :: "db \<Rightarrow> active_task_row \<Rightarrow> bool" where
  "task_row_ok d r =
     (at_conversation_id r \<in> set (conversations d) \<and> opt_ok (has_blob d) (at_detail_blob_id r) \<and>
      0 < at_created_at r \<and> 0 < at_updated_at r \<and>
      numbered st_position (step_rows d (at_conversation_id r)))"

definition step_row_ok :: "db \<Rightarrow> active_task_step_row \<Rightarrow> bool" where
  "step_row_ok d s =
     (st_conversation_id s \<in> at_conversation_id ` set (active_tasks d) \<and>
      opt_ok (has_blob d) (st_detail_blob_id s) \<and> status_check (st_status s))"

definition db_wf :: "codec \<Rightarrow> db \<Rightarrow> bool" where
  "db_wf E d =
     (codec_ok E \<and> blobs_ok E d \<and> keys_ok d \<and> (\<forall>b \<in> set (task_run_bindings d). binding_ok d b) \<and>
      (\<forall>r \<in> set (active_tasks d). task_row_ok d r) \<and>
      (\<forall>s \<in> set (active_task_steps d). step_row_ok d s))"

definition db_inv :: "codec \<Rightarrow> db \<Rightarrow> bool" where
  "db_inv E d = (db_wf E d \<and> (\<forall>c t. db_abs E d c = Some t \<longrightarrow> task_ok t))"

lemma status_check_iff: "status_check s \<longleftrightarrow> (\<exists>x. s = step_status_value x)"
proof
  assume "status_check s"
  then have "s = step_status_value PENDING \<or> s = step_status_value BLOCKED \<or> s = step_status_value COMPLETED"
    by (auto simp: status_check_def)
  then show "\<exists>x. s = step_status_value x" by blast
next
  assume "\<exists>x. s = step_status_value x"
  then obtain x where "s = step_status_value x" ..
  then show "status_check s" by (cases x) (simp_all add: status_check_def)
qed

lemma status_of_value [simp]: "status_of (step_status_value x) = x"
  by (simp add: status_of_def)

lemma status_of_completed: "status_check s \<Longrightarrow> status_of s = COMPLETED \<longleftrightarrow> s = ''completed''"
  by (metis status_check_iff status_of_value step_status_value_eq(2))

lemma status_check_value:
  assumes "status_check s"
  shows "step_status_value (status_of s) = s" and "s \<noteq> []" and "normalize_step_status s = Inr (status_of s)"
proof -
  from assms obtain x where "s = step_status_value x" by (auto simp: status_check_iff)
  then show "step_status_value (status_of s) = s" "s \<noteq> []" "normalize_step_status s = Inr (status_of s)"
    by simp_all
qed

lemma task_row_SomeD: "task_row d c = Some r \<Longrightarrow> r \<in> set (active_tasks d) \<and> at_conversation_id r = c"
  using fetchone_select_SomeD unfolding task_row_def by fastforce

lemma binding_of_SomeD: "binding_of d c = Some b \<Longrightarrow> b \<in> set (task_run_bindings d) \<and> b_conversation_id b = c"
  using fetchone_select_SomeD unfolding binding_of_def by fastforce

lemma task_row_None: "task_row d c = None \<longleftrightarrow> c \<notin> at_conversation_id ` set (active_tasks d)"
  by (auto simp: task_row_def fetchone_select_None simp del: fetchone_eq_None)

lemma binding_of_None: "binding_of d c = None \<longleftrightarrow> c \<notin> b_conversation_id ` set (task_run_bindings d)"
  by (auto simp: binding_of_def fetchone_select_None simp del: fetchone_eq_None)

lemma set_step_rows: "set (step_rows d c) = {s \<in> set (active_task_steps d). st_conversation_id s = c}"
  by (simp add: step_rows_def)

lemma db_abs_SomeE:
  assumes "db_abs E d c = Some t"
  obtains r where "task_row d c = Some r" and "t = abs_row E d r (step_rows d c) (binding_of d c)"
    and "r \<in> set (active_tasks d)" and "at_conversation_id r = c"
  using assms task_row_SomeD unfolding db_abs_def by fastforce

lemma db_wf_numbered: "db_wf E d \<Longrightarrow> task_row d c = Some r \<Longrightarrow> numbered st_position (step_rows d c)"
  using task_row_SomeD by (fastforce simp: db_wf_def task_row_ok_def)

lemma abs_row_steps [simp]: "a_steps (abs_row E d r ss b) = map (step_of_row E d) ss"
  by (simp add: abs_row_def)

lemma text_of_ok: "db_wf E d \<Longrightarrow> opt_ok (has_blob d) blob \<Longrightarrow> read_text E d inl blob = Inr (text_of E d inl blob)"
  using read_text_ok [of E d blob inl] by (auto simp: db_wf_def text_of_def)

section \<open>Reading a task\<close>

lemma select_binding:
  assumes "keys_ok d" and "binding_of d c = Some b"
  shows "select (\<lambda>b. b_conversation_id b = c) (task_run_bindings d) = [b]"
  using select_unique_key [of b_conversation_id "task_run_bindings d" b]
    binding_of_SomeD [OF assms(2)] assms(1) by (simp add: keys_ok_def)

lemma fetchone_map: "fetchone (map f xs) = map_option f (fetchone xs)"
  by (cases xs) simp_all

lemma fetchone_bound_runs:
  assumes "keys_ok d"
  shows "fetchone (bound_runs d c) =
    (case binding_of d c of
       None \<Rightarrow> None
     | Some b \<Rightarrow> map_option (Pair b) (fetchone (select (\<lambda>r. r_id r = b_run_id b) (runs d))))"
proof (cases "binding_of d c")
  case None
  then show ?thesis by (simp add: binding_of_def bound_runs_def)
next
  case (Some b)
  then show ?thesis using select_binding [OF assms Some] by (simp add: bound_runs_def fetchone_map)
qed

lemma bound_run_exists:
  assumes "db_wf E d" and "binding_of d c = Some b"
  shows "\<exists>r. fetchone (bound_runs d c) = Some (b, r)"
proof -
  have "has_run d (b_conversation_id b) (b_run_id b)"
    using assms binding_of_SomeD by (auto simp: db_wf_def binding_ok_def)
  then have "\<not> (\<forall>r \<in> set (runs d). \<not> r_id r = b_run_id b)" by (auto simp: has_run_def)
  then obtain r where "fetchone (select (\<lambda>r. r_id r = b_run_id b) (runs d)) = Some r"
    unfolding fetchone_select_None [symmetric] by blast
  moreover have "keys_ok d" using assms(1) by (simp add: db_wf_def)
  ultimately show ?thesis using assms(2) by (auto simp: fetchone_bound_runs)
qed

definition data_step :: "codec \<Rightarrow> db \<Rightarrow> active_task_step_row \<Rightarrow> task_data_step" where
  "data_step E d r =
     \<lparr>sd_position = st_position r, sd_title = st_title r,
      sd_detail = text_of E d (st_detail_inline r) (st_detail_blob_id r),
      sd_status = st_status r, sd_evidence_run_id = st_evidence_run_id r,
      sd_evidence_summary = st_evidence_summary r\<rparr>"

lemma step_rows_ok: "db_wf E d \<Longrightarrow> s \<in> set (step_rows d c) \<Longrightarrow> step_row_ok d s"
  by (simp add: db_wf_def set_step_rows)

lemma step_of_data_step: "step_row_ok d s \<Longrightarrow> step_of_data (data_step E d s) = Inr (step_of_row E d s)"
  by (simp add: step_row_ok_def status_check_value step_of_data_def data_step_def step_of_row_def)

lemma read_task:
  assumes wf: "db_wf E d" and r: "task_row d c = Some r"
    and t: "t = abs_row E d r (step_rows d c) (binding_of d c)"
  obtains td where "get_active_task_in_connection E d c = Inr (Some td)"
    and "\<And>now. from_row now td = Inr (task_of c (execution_state_of (fetchone (bound_runs d c))) t)"
    and "snapshot_from_dict (public_task_snapshot td) = Inr (Some (snapshot_of t))"
    and "public_task_snapshot td = snapshot_public_dict (snapshot_of t)"
    and "td_created_by_tool_call_id td = a_tool_call t"
proof -
  let ?b = "fetchone (bound_runs d c)"
  let ?td = "\<lparr>td_conversation_id = c, td_generation_id = at_generation_id r,
     td_revision = at_revision r, td_title = at_title r,
     td_detail = text_of E d (at_detail_inline r) (at_detail_blob_id r),
     td_created_by_run_id = at_created_by_run_id r,
     td_created_by_tool_call_id = at_created_by_tool_call_id r,
     td_created_at = at_created_at r, td_updated_at = at_updated_at r,
     td_steps = map (data_step E d) (step_rows d c),
     td_active_run_id = map_option (b_run_id \<circ> fst) ?b,
     td_active_step = map_option (b_step_position \<circ> fst) ?b,
     td_execution_state = execution_state_of ?b\<rparr>"
  have row: "r \<in> set (active_tasks d)" "at_conversation_id r = c" "task_row_ok d r"
    using task_row_SomeD [OF r] wf by (auto simp: db_wf_def)
  have rows: "mapM_result (step_from_row E d) (sort_key st_position (step_rows d c)) =
      Inr (map (data_step E d) (step_rows d c))"
    unfolding numbered_sort [OF db_wf_numbered [OF wf r]]
    by (rule mapM_result_Inr_map)
      (use step_rows_ok [OF wf] in \<open>auto simp: step_from_row_def data_step_def step_row_ok_def
         text_of_ok [OF wf]\<close>)
  have "get_active_task_in_connection E d c = Inr (Some ?td)"
    using r row rows text_of_ok [OF wf]
    by (simp add: get_active_task_in_connection_def task_row_def [symmetric] task_row_ok_def Let_def)
  moreover have "from_row now ?td = Inr (task_of c (execution_state_of ?b) t)" for now
  proof -
    have "mapM_result step_of_data (map (data_step E d) (step_rows d c)) = Inr (a_steps t)"
      unfolding mapM_result_map t abs_row_steps
      by (rule mapM_result_Inr_map) (use step_rows_ok [OF wf] step_of_data_step in auto)
    moreover have "a_bound t = map_option (\<lambda>x. (b_run_id (fst x), b_step_position (fst x))) ?b"
      using bound_run_exists [OF wf, of c] wf
      by (cases "binding_of d c") (auto simp: t abs_row_def fetchone_bound_runs db_wf_def)
    moreover have "execution_state_of ?b \<noteq> []" by (simp add: execution_state_of_def Let_def)
    ultimately show ?thesis using row
      by (simp add: from_row_def task_of_def option.map_comp comp_def task_row_ok_def)
        (simp add: t abs_row_def)
  qed
  moreover have "public_task_snapshot ?td = snapshot_public_dict (snapshot_of t)"
    using step_rows_ok [OF wf]
    by (auto simp: public_task_snapshot_def snapshot_public_dict_def snapshot_of_def t abs_row_def
        data_step_def step_of_row_def snapshot_step_def state_step_public_dict_def step_row_ok_def
        status_check_value)
  moreover have "td_created_by_tool_call_id ?td = a_tool_call t" by (simp add: t abs_row_def)
  ultimately show thesis using that [of ?td] by simp
qed

lemma read_task_None: "task_row d c = None \<Longrightarrow> get_active_task_in_connection E d c = Inr None"
  by (simp add: get_active_task_in_connection_def task_row_def)

text \<open>The service sees exactly the abstract task.\<close>

definition shown_state :: "db \<Rightarrow> string \<Rightarrow> string" where
  "shown_state d c = execution_state_of (fetchone (bound_runs d c))"

lemma sql_get_active_task:
  assumes "db_wf E d"
  shows "bind_result (repo_get_active_task E d c) (opt_from_row now) =
           Inr (map_option (task_of c (shown_state d c)) (db_abs E d c))"
proof (cases "task_row d c")
  case None
  then show ?thesis by (simp add: repo_get_active_task_def read_task_None opt_from_row_def db_abs_def)
next
  case (Some r)
  obtain td where "get_active_task_in_connection E d c = Inr (Some td)"
    "from_row now td = Inr (task_of c (shown_state d c) (abs_row E d r (step_rows d c) (binding_of d c)))"
    using read_task [OF assms Some refl] unfolding shown_state_def by metis
  with Some show ?thesis by (simp add: repo_get_active_task_def opt_from_row_def db_abs_def)
qed

lemma shown_state_unbound:
  assumes "db_wf E d" and "binding_of d c = None"
  shows "shown_state d c = ''idle''"
  using assms by (simp add: shown_state_def execution_state_of_def fetchone_bound_runs db_wf_def)

end
