(* ===== verification/TaskSql.thy ===== *)
theory TaskSql
  imports TaskDb
begin

text \<open>
  The statements of the task repository keep the tables well formed, and the operations
  refine the specification; the interpretation at the end discharges the contract.
\<close>

section \<open>Statements\<close>

lemma db_abs_cong:
  "task_row d' c = task_row d c \<Longrightarrow> step_rows d' c = step_rows d c \<Longrightarrow> binding_of d' c = binding_of d c \<Longrightarrow>
   blobs d' = blobs d \<Longrightarrow> files d' = files d \<Longrightarrow> db_abs E d' c = db_abs E d c"
proof -
  assume eqs: "task_row d' c = task_row d c" "step_rows d' c = step_rows d c" "binding_of d' c = binding_of d c"
    and b: "blobs d' = blobs d" "files d' = files d"
  have "get_text E d' = get_text E d" by (intro ext) (simp only: get_text_def b)
  then have "text_of E d' = text_of E d" by (intro ext) (simp only: text_of_def read_text_def)
  then show ?thesis by (simp add: db_abs_def eqs abs_row_def step_of_row_def [abs_def])
qed

lemma blobs_ok_cong: "blobs d' = blobs d \<Longrightarrow> files d' = files d \<Longrightarrow> blobs_ok E d' = blobs_ok E d"
  by (simp add: blobs_ok_def blob_row_ok_def)

lemma numbered_update_rows:
  assumes "numbered key xs" and "\<And>r. key (f r) = key r"
  shows "numbered key (update_rows P f xs)"
proof -
  have "map key (update_rows P f xs) = map key xs" by (rule map_update_rows_key) (simp add: assms(2))
  moreover have "length (update_rows P f xs) = length xs" by (simp add: update_rows_def)
  ultimately show ?thesis using assms(1) by (simp add: numbered_def del: upt_Suc)
qed

definition with_step :: "string \<Rightarrow> string option \<Rightarrow> string \<Rightarrow> int \<Rightarrow> active_task_step_row \<Rightarrow> active_task_step_row" where
  "with_step st run ev now r =
     r\<lparr>st_status := st, st_evidence_run_id := run, st_evidence_summary := ev, st_updated_at := now\<rparr>"

definition set_step_rows :: "string \<Rightarrow> int \<Rightarrow> string \<Rightarrow> string option \<Rightarrow> string \<Rightarrow> int \<Rightarrow> db \<Rightarrow> db" where
  "set_step_rows c p st run ev now d =
     d\<lparr>active_task_steps := update_rows (\<lambda>r. st_conversation_id r = c \<and> st_position r = p)
        (with_step st run ev now) (active_task_steps d)\<rparr>"

lemma with_step_simps [simp]:
  "st_conversation_id (with_step st run ev now r) = st_conversation_id r"
  "st_position (with_step st run ev now r) = st_position r"
  "st_detail_blob_id (with_step st run ev now r) = st_detail_blob_id r"
  "st_status (with_step st run ev now r) = st"
  by (simp_all add: with_step_def)

lemma update_step_Inr:
  "status_check st \<Longrightarrow> opt_ok (has_run d c) run \<Longrightarrow>
   update_step c p st run ev now d = Inr (set_step_rows c p st run ev now d)"
  by (simp add: update_step_def set_step_rows_def with_step_def [abs_def] Let_def)

lemma set_step_rows_frame [simp]:
  "task_row (set_step_rows c p st run ev now d) c' = task_row d c'"
  "binding_of (set_step_rows c p st run ev now d) c' = binding_of d c'"
  "blobs (set_step_rows c p st run ev now d) = blobs d"
  "files (set_step_rows c p st run ev now d) = files d"
  "runs (set_step_rows c p st run ev now d) = runs d"
  "active_tasks (set_step_rows c p st run ev now d) = active_tasks d"
  "conversations (set_step_rows c p st run ev now d) = conversations d"
  "task_run_bindings (set_step_rows c p st run ev now d) = task_run_bindings d"
  by (simp_all add: set_step_rows_def task_row_def binding_of_def)

lemma step_rows_set_step_rows:
  "step_rows (set_step_rows c p st run ev now d) c' =
     (if c' = c then update_rows (\<lambda>r. st_position r = p) (with_step st run ev now) (step_rows d c)
      else step_rows d c')"
proof -
  let ?P = "\<lambda>r. st_conversation_id r = c \<and> st_position r = p" and ?f = "with_step st run ev now"
  have "step_rows (set_step_rows c p st run ev now d) c' = update_rows ?P ?f (step_rows d c')"
    unfolding step_rows_def set_step_rows_def by (simp add: select_update_rows)
  moreover have "update_rows ?P ?f (step_rows d c') = step_rows d c'" if "c' \<noteq> c"
    using that by (intro update_rows_none) (auto simp: set_step_rows)
  moreover have "update_rows ?P ?f (step_rows d c) = update_rows (\<lambda>r. st_position r = p) ?f (step_rows d c)"
    by (simp add: update_rows_def set_step_rows)
  ultimately show ?thesis by simp
qed

lemma has_blob_cong: "blobs d' = blobs d \<Longrightarrow> has_blob d' = has_blob d"
  by (simp add: has_blob_def fun_eq_iff)

lemma has_run_cong: "runs d' = runs d \<Longrightarrow> has_run d' = has_run d"
  by (simp add: has_run_def fun_eq_iff)

lemma db_wf_set_step_rows:
  assumes wf: "db_wf E d" and st: "status_check st"
  shows "db_wf E (set_step_rows c p st run ev now d)"
proof -
  let ?d = "set_step_rows c p st run ev now d"
  have hb: "has_blob ?d = has_blob d" by (rule has_blob_cong) simp
  have hr: "has_run ?d = has_run d" by (rule has_run_cong) simp
  have bo: "blobs_ok E ?d = blobs_ok E d" by (rule blobs_ok_cong) simp_all
  have "numbered st_position (step_rows ?d c')" if "numbered st_position (step_rows d c')" for c'
    using that by (auto simp: step_rows_set_step_rows intro!: numbered_update_rows)
  then have "task_row_ok ?d r" if "task_row_ok d r" for r
    using that by (simp add: task_row_ok_def hb)
  moreover have "step_row_ok ?d s" if "s \<in> set (active_task_steps ?d)" for s
  proof -
    from that obtain s' where s': "s' \<in> set (active_task_steps d)" "s = s' \<or> s = with_step st run ev now s'"
      by (auto simp: set_step_rows_def set_update_rows)
    then have "step_row_ok d s'" using wf by (simp add: db_wf_def)
    with s'(2) st show ?thesis by (auto simp: step_row_ok_def hb)
  qed
  moreover have "binding_ok ?d b" if "binding_ok d b" for b
    using that by (simp add: binding_ok_def hr)
  ultimately show ?thesis using wf by (simp add: db_wf_def keys_ok_def bo)
qed

lemma bump_revision_frame [simp]:
  "step_rows (bump_revision c g now d) c' = step_rows d c'"
  "binding_of (bump_revision c g now d) c' = binding_of d c'"
  "blobs (bump_revision c g now d) = blobs d"
  "files (bump_revision c g now d) = files d"
  "runs (bump_revision c g now d) = runs d"
  "active_task_steps (bump_revision c g now d) = active_task_steps d"
  "conversations (bump_revision c g now d) = conversations d"
  "task_run_bindings (bump_revision c g now d) = task_run_bindings d"
  by (simp_all add: bump_revision_def step_rows_def binding_of_def)

definition bumped :: "int \<Rightarrow> active_task_row \<Rightarrow> active_task_row" where
  "bumped now r = r\<lparr>at_revision := at_revision r + 1, at_updated_at := now\<rparr>"

lemma task_row_bump:
  assumes "task_row d c = Some r" and "at_generation_id r = g"
  shows "task_row (bump_revision c g now d) c' =
     (if c' = c then Some (bumped now r) else task_row d c')"
proof -
  let ?P = "\<lambda>r. at_conversation_id r = c \<and> at_generation_id r = g"
  have *: "task_row (bump_revision c g now d) c' =
      fetchone (update_rows ?P (bumped now) (select (\<lambda>r. at_conversation_id r = c') (active_tasks d)))"
    unfolding task_row_def bump_revision_def
    by (simp add: select_update_rows bumped_def [abs_def])
  then show ?thesis
    using assms task_row_SomeD [OF assms(1)]
    by (auto simp: fetchone_update_rows task_row_def [symmetric] dest: task_row_SomeD
        split: option.splits intro!: option.map_ident_strong)
qed

lemma active_tasks_bump:
  "map at_conversation_id (active_tasks (bump_revision c g now d)) = map at_conversation_id (active_tasks d)"
  "map at_generation_id (active_tasks (bump_revision c g now d)) = map at_generation_id (active_tasks d)"
  by (simp_all add: bump_revision_def map_update_rows_key)

lemma db_wf_bump:
  assumes wf: "db_wf E d" and now: "0 < now"
  shows "db_wf E (bump_revision c g now d)"
proof -
  let ?d = "bump_revision c g now d"
  have hb: "has_blob ?d = has_blob d" by (rule has_blob_cong) simp
  have hr: "has_run ?d = has_run d" by (rule has_run_cong) simp
  have bo: "blobs_ok E ?d = blobs_ok E d" by (rule blobs_ok_cong) simp_all
  have rows: "\<exists>r' \<in> set (active_tasks d). r = r' \<or> r = bumped now r'" if "r \<in> set (active_tasks ?d)" for r
    using that by (auto simp: bump_revision_def set_update_rows bumped_def)
  have "task_row_ok ?d r" if "r \<in> set (active_tasks ?d)" for r
    using rows [OF that] wf now by (auto simp: task_row_ok_def hb bumped_def db_wf_def)
  moreover have "binding_ok ?d b" if "binding_ok d b" for b
  proof -
    have "map (\<lambda>r. (at_conversation_id r, at_generation_id r)) (active_tasks ?d) =
        map (\<lambda>r. (at_conversation_id r, at_generation_id r)) (active_tasks d)"
      by (simp add: bump_revision_def map_update_rows_key)
    then have "(\<lambda>r. (at_conversation_id r, at_generation_id r)) ` set (active_tasks ?d) =
        (\<lambda>r. (at_conversation_id r, at_generation_id r)) ` set (active_tasks d)"
      by (metis list.set_map)
    then have "(b_conversation_id b, b_task_generation_id b)
        \<in> (\<lambda>r. (at_conversation_id r, at_generation_id r)) ` set (active_tasks ?d)"
      using that by (force simp: binding_ok_def)
    then show ?thesis using that by (auto simp: binding_ok_def hr)
  qed
  moreover have "step_row_ok ?d s" if "step_row_ok d s" for s
    using that active_tasks_bump(1) [of c g now d] by (metis (mono_tags) hb list.set_map step_row_ok_def)
  ultimately show ?thesis
    using wf active_tasks_bump [of c g now d] by (simp add: db_wf_def keys_ok_def bo)
qed

text \<open>Deleting the task of a conversation.\<close>

definition without_task :: "string \<Rightarrow> db \<Rightarrow> db" where
  "without_task c d =
     d\<lparr>active_tasks := delete_rows (\<lambda>r. at_conversation_id r = c) (active_tasks d),
       active_task_steps := delete_rows (\<lambda>r. st_conversation_id r = c) (active_task_steps d),
       task_run_bindings := delete_rows (\<lambda>r. b_conversation_id r = c) (task_run_bindings d)\<rparr>"

lemma delete_rows_cong:
  "(\<And>r. r \<in> set t \<Longrightarrow> P r = Q r) \<Longrightarrow> delete_rows P t = delete_rows Q t"
  by (simp add: delete_rows_def cong: filter_cong)

lemma select_delete_key:
  "select (\<lambda>r. key r = k') (delete_rows (\<lambda>r. key r = k) t) =
     (if k' = k then [] else select (\<lambda>r. key r = k') t)"
  by (induction t) (auto simp: delete_rows_def)

lemma select_cong: "(\<And>r. r \<in> set t \<Longrightarrow> P r = Q r) \<Longrightarrow> select P t = select Q t"
  by (simp add: select_def cong: filter_cong)

lemma binding_generation:
  assumes "db_wf E d" and "task_row d c = Some r" and "b \<in> set (task_run_bindings d)"
    and "b_conversation_id b = c"
  shows "b_task_generation_id b = at_generation_id r"
proof -
  from assms(1,3) obtain r' where r': "r' \<in> set (active_tasks d)" "at_conversation_id r' = c"
      "at_generation_id r' = b_task_generation_id b"
    using assms(4) by (auto simp: db_wf_def binding_ok_def)
  have "distinct (map at_conversation_id (active_tasks d))" using assms(1) by (simp add: db_wf_def keys_ok_def)
  from fetchone_unique_key [OF this r'(1,2)] have "r' = r" using assms(2) by (simp add: task_row_def)
  with r' show ?thesis by simp
qed

lemma delete_active_tasks_eq:
  assumes wf: "db_wf E d" and r: "task_row d c = Some r"
    and P: "\<And>x. x \<in> set (active_tasks d) \<Longrightarrow> P x \<longleftrightarrow> at_conversation_id x = c"
  shows "delete_active_tasks P d = without_task c d"
proof -
  have "distinct (map at_conversation_id (active_tasks d))" using wf by (simp add: db_wf_def keys_ok_def)
  then have "select (\<lambda>x. at_conversation_id x = c) (active_tasks d) = [r]"
    using select_unique_key [of at_conversation_id] task_row_SomeD [OF r] by blast
  then have "select P (active_tasks d) = [r]" using select_cong [of _ P, OF P] by simp
  moreover have "delete_rows P (active_tasks d) = delete_rows (\<lambda>x. at_conversation_id x = c) (active_tasks d)"
    by (rule delete_rows_cong) (rule P)
  moreover have "at_conversation_id r = c" using task_row_SomeD [OF r] by simp
  moreover have "delete_rows (\<lambda>b. b_conversation_id b = c \<and> b_task_generation_id b = at_generation_id r)
      (task_run_bindings d) = delete_rows (\<lambda>b. b_conversation_id b = c) (task_run_bindings d)"
    by (rule delete_rows_cong) (use binding_generation [OF wf r] in blast)
  ultimately show ?thesis by (simp add: delete_active_tasks_def without_task_def Let_def)
qed

lemma without_task_frame [simp]:
  "task_row (without_task c d) c' = (if c' = c then None else task_row d c')"
  "step_rows (without_task c d) c' = (if c' = c then [] else step_rows d c')"
  "binding_of (without_task c d) c' = (if c' = c then None else binding_of d c')"
  "blobs (without_task c d) = blobs d"
  "files (without_task c d) = files d"
  "runs (without_task c d) = runs d"
  "conversations (without_task c d) = conversations d"
  by (simp_all add: without_task_def task_row_def step_rows_def binding_of_def select_delete_key)

lemma db_wf_without_task:
  assumes wf: "db_wf E d"
  shows "db_wf E (without_task c d)"
proof -
  let ?d = "without_task c d"
  have hb: "has_blob ?d = has_blob d" by (rule has_blob_cong) simp
  have hr: "has_run ?d = has_run d" by (rule has_run_cong) simp
  have bo: "blobs_ok E ?d = blobs_ok E d" by (rule blobs_ok_cong) simp_all
  have "keys_ok ?d"
    using wf by (simp add: keys_ok_def db_wf_def without_task_def distinct_map_delete_rows)
  moreover have "task_row_ok ?d r" if "r \<in> set (active_tasks ?d)" for r
  proof -
    from that have "r \<in> set (active_tasks d)" "at_conversation_id r \<noteq> c" by (auto simp: without_task_def)
    with wf show ?thesis by (auto simp: task_row_ok_def hb db_wf_def)
  qed
  moreover have "step_row_ok ?d s" if "s \<in> set (active_task_steps ?d)" for s
  proof -
    from that have s: "s \<in> set (active_task_steps d)" "st_conversation_id s \<noteq> c" by (auto simp: without_task_def)
    with wf have "step_row_ok d s" by (simp add: db_wf_def)
    with s(2) show ?thesis unfolding step_row_ok_def hb by (auto simp: without_task_def)
  qed
  moreover have "binding_ok ?d b" if "b \<in> set (task_run_bindings ?d)" for b
  proof -
    from that have b: "b \<in> set (task_run_bindings d)" "b_conversation_id b \<noteq> c" by (auto simp: without_task_def)
    with wf have "binding_ok d b" by (simp add: db_wf_def)
    with b(2) show ?thesis unfolding binding_ok_def hr by (auto simp: without_task_def)
  qed
  ultimately show ?thesis using wf bo by (simp add: db_wf_def)
qed

lemma db_abs_without_task: "db_abs E (without_task c d) = (db_abs E d)(c := None)"
proof
  fix c'
  show "db_abs E (without_task c d) c' = ((db_abs E d)(c := None)) c'"
  proof (cases "c' = c")
    case True
    then show ?thesis by (simp add: db_abs_def)
  next
    case False
    then have "db_abs E (without_task c d) c' = db_abs E d c'" by (intro db_abs_cong) simp_all
    with False show ?thesis by simp
  qed
qed

text \<open>Deleting the binding of a run.\<close>

lemma delete_binding_frame [simp]:
  "task_row (delete_binding i d) c = task_row d c"
  "step_rows (delete_binding i d) c = step_rows d c"
  "blobs (delete_binding i d) = blobs d"
  "files (delete_binding i d) = files d"
  "runs (delete_binding i d) = runs d"
  "active_tasks (delete_binding i d) = active_tasks d"
  "active_task_steps (delete_binding i d) = active_task_steps d"
  "conversations (delete_binding i d) = conversations d"
  by (simp_all add: delete_binding_def task_row_def step_rows_def)

lemma binding_of_delete_binding:
  assumes "keys_ok d" and "binding_of d c = Some b"
  shows "binding_of (delete_binding (b_run_id b) d) c' = (if c' = c then None else binding_of d c')"
proof -
  have b: "b \<in> set (task_run_bindings d)" "b_conversation_id b = c" using binding_of_SomeD [OF assms(2)] by auto
  have "b_run_id x = b_run_id b \<longleftrightarrow> b_conversation_id x = c" if "x \<in> set (task_run_bindings d)" for x
  proof -
    have d: "distinct (map b_run_id (task_run_bindings d))" "distinct (map b_conversation_id (task_run_bindings d))"
      using assms(1) by (simp_all add: keys_ok_def)
    have "b_run_id x = b_run_id b \<Longrightarrow> x = b" "b_conversation_id x = b_conversation_id b \<Longrightarrow> x = b"
      using d that b(1) by (auto simp: distinct_map inj_on_def)
    then show ?thesis using b(2) by auto
  qed
  then have "binding_of (delete_binding (b_run_id b) d) c' =
      fetchone (select (\<lambda>x. b_conversation_id x = c') (delete_rows (\<lambda>x. b_conversation_id x = c) (task_run_bindings d)))"
    by (simp add: binding_of_def delete_binding_def cong: delete_rows_cong)
  then show ?thesis by (simp add: binding_of_def select_delete_key)
qed

lemma db_wf_delete_binding:
  assumes wf: "db_wf E d"
  shows "db_wf E (delete_binding i d)"
proof -
  let ?d = "delete_binding i d"
  have hb: "has_blob ?d = has_blob d" by (rule has_blob_cong) simp
  have hr: "has_run ?d = has_run d" by (rule has_run_cong) simp
  have bo: "blobs_ok E ?d = blobs_ok E d" by (rule blobs_ok_cong) simp_all
  have "keys_ok ?d"
    using wf by (simp add: keys_ok_def db_wf_def) (simp add: delete_binding_def distinct_map_delete_rows)
  moreover have "task_row_ok ?d r" if "task_row_ok d r" for r
    using that by (simp add: task_row_ok_def hb)
  moreover have "step_row_ok ?d s" if "step_row_ok d s" for s
    using that by (simp add: step_row_ok_def hb)
  moreover have "binding_ok ?d b" if "b \<in> set (task_run_bindings ?d)" for b
  proof -
    from that have "b \<in> set (task_run_bindings d)" by (auto simp: delete_binding_def)
    with wf show ?thesis by (simp add: binding_ok_def hr db_wf_def)
  qed
  ultimately show ?thesis using wf bo by (simp add: db_wf_def)
qed

section \<open>The abstract effect of the statements\<close>

lemma text_of_cong:
  assumes "blobs d' = blobs d" and "files d' = files d"
  shows "text_of E d' = text_of E d"
proof -
  have "get_text E d' = get_text E d" by (intro ext) (simp only: get_text_def assms)
  then show ?thesis by (intro ext) (simp only: text_of_def read_text_def)
qed

lemma abs_row_cong:
  assumes "blobs d' = blobs d" and "files d' = files d"
  shows "abs_row E d' = abs_row E d"
proof -
  have "text_of E d' = text_of E d" using assms by (rule text_of_cong)
  then show ?thesis by (intro ext) (simp add: abs_row_def step_of_row_def [abs_def])
qed

text \<open>An update that changes one conversation only.\<close>

lemma db_abs_upd:
  assumes "\<And>c'. c' \<noteq> c \<Longrightarrow> task_row d' c' = task_row d c' \<and> step_rows d' c' = step_rows d c' \<and>
                          binding_of d' c' = binding_of d c'"
    and "blobs d' = blobs d" and "files d' = files d"
    and "task_row d' c = Some r"
    and "abs_row E d r (step_rows d' c) (binding_of d' c) = t"
  shows "db_abs E d' = (db_abs E d)(c \<mapsto> t)"
proof
  fix c'
  show "db_abs E d' c' = ((db_abs E d)(c \<mapsto> t)) c'"
    using assms abs_row_cong [OF assms(2,3), of E] by (cases "c' = c") (simp_all add: db_abs_def)
qed

lemma step_of_row_with_step:
  "step_of_row E d (with_step (step_status_value st) run ev now r) =
     (step_of_row E d r)\<lparr>status := st, evidence_run_id := run, evidence_summary := ev\<rparr>"
  by (simp add: step_of_row_def with_step_def)

lemma map_step_of_row_update:
  assumes "numbered st_position rows" and "1 \<le> p" "p \<le> int (length rows)"
  shows "map (step_of_row E d) (update_rows (\<lambda>r. st_position r = p)
           (with_step (step_status_value st) run ev now) rows) =
         step_set p st run ev (map (step_of_row E d) rows)"
proof -
  have "nat (p - 1) < length rows" using assms(2,3) by auto
  then show ?thesis
    using numbered_update [OF assms] by (simp add: step_set_def map_update step_of_row_with_step)
qed

lemma db_abs_set_step_rows:
  assumes wf: "db_wf E d" and t: "db_abs E d c = Some t" and p: "in_steps (a_steps t) p"
  shows "db_abs E (set_step_rows c p (step_status_value st) run ev now d) =
     (db_abs E d)(c \<mapsto> t\<lparr>a_steps := step_set p st run ev (a_steps t)\<rparr>)"
proof -
  obtain r where r: "task_row d c = Some r" "t = abs_row E d r (step_rows d c) (binding_of d c)"
    using t by (rule db_abs_SomeE)
  have p': "1 \<le> p" "p \<le> int (length (step_rows d c))" using p r(2) by (auto simp: in_steps_def)
  show ?thesis
    by (rule db_abs_upd [where r = r])
      (simp_all add: r step_rows_set_step_rows abs_row_def
        map_step_of_row_update [OF db_wf_numbered [OF wf r(1)] p'])
qed

lemma db_abs_bump:
  assumes t: "db_abs E d c = Some t" and g: "g = a_generation t"
  shows "db_abs E (bump_revision c g now d) =
     (db_abs E d)(c \<mapsto> t\<lparr>a_revision := a_revision t + 1, a_updated_at := now\<rparr>)"
proof -
  obtain r where r: "task_row d c = Some r" "t = abs_row E d r (step_rows d c) (binding_of d c)"
    using t by (rule db_abs_SomeE)
  have g': "at_generation_id r = g" using g r(2) by (simp add: abs_row_def)
  show ?thesis
    by (rule db_abs_upd [where r = "bumped now r"])
      (simp_all add: task_row_bump [OF r(1) g'], simp add: r(2) abs_row_def bumped_def)
qed

lemma db_abs_delete_binding:
  assumes wf: "db_wf E d" and t: "db_abs E d c = Some t" and b: "binding_of d c = Some b"
  shows "db_abs E (delete_binding (b_run_id b) d) = (db_abs E d)(c \<mapsto> t\<lparr>a_bound := None\<rparr>)"
proof -
  obtain r where r: "task_row d c = Some r" "t = abs_row E d r (step_rows d c) (binding_of d c)"
    using t by (rule db_abs_SomeE)
  have k: "keys_ok d" using wf by (simp add: db_wf_def)
  show ?thesis
    by (rule db_abs_upd [where r = r])
      (simp_all add: r binding_of_delete_binding [OF k b], simp add: abs_row_def)
qed

section \<open>Guards\<close>

lemma require_version_ok:
  assumes "db_abs E d c = Some t" and "version_ok t egen erev"
  obtains r where "require_version d c egen erev = Inr r" and "task_row d c = Some r"
    and "at_generation_id r = a_generation t" and "at_revision r = a_revision t"
proof -
  obtain r where r: "task_row d c = Some r" "t = abs_row E d r (step_rows d c) (binding_of d c)"
    using assms(1) by (rule db_abs_SomeE)
  have eqs: "at_generation_id r = a_generation t" "at_revision r = a_revision t"
    by (simp_all add: r(2) abs_row_def)
  have "require_version d c egen erev = Inr r"
    using r(1) assms(2) unfolding require_version_def task_row_def [symmetric] version_ok_def
    by (simp add: eqs)
  with r(1) eqs show thesis by (intro that)
qed

lemma require_version_refused:
  assumes "version_refusal (db_abs E d c) egen erev = Some rf"
  shows "on_error repository_error (require_version d c egen erev) = Inl (sql_refusal_error c rf)"
proof (cases "task_row d c")
  case None
  then show ?thesis using assms
    by (auto simp: require_version_def task_row_def [symmetric] version_refusal_def db_abs_def on_error_def)
next
  case (Some r)
  have "db_abs E d c = Some (abs_row E d r (step_rows d c) (binding_of d c))"
    using Some by (simp add: db_abs_def)
  with Some assms show ?thesis
    by (auto simp: require_version_def task_row_def [symmetric] version_refusal_def version_ok_def
        abs_row_def on_error_def split: if_splits)
qed

lemma require_version_fail:
  assumes "\<And>t. db_abs E d c = Some t \<Longrightarrow> \<not> version_ok t egen erev"
  shows "\<exists>e. require_version d c egen erev = Inl e"
proof (cases "version_refusal (db_abs E d c) egen erev")
  case None
  with assms show ?thesis unfolding version_refusal_None by blast
next
  case (Some rf)
  from require_version_refused [OF this] show ?thesis
    by (cases "require_version d c egen erev") (auto simp: on_error_def)
qed

lemma bound_iff_binding:
  "db_abs E d c = Some t \<Longrightarrow> a_bound t = None \<longleftrightarrow> binding_of d c = None"
  by (erule db_abs_SomeE) (simp add: abs_row_def)

lemma ensure_no_binding:
  "ensure_no_active_binding d c =
     (if binding_of d c = None then Inr ()
      else Inl (RuntimeError ''active task already has a running step''))"
  by (auto simp: ensure_no_active_binding_def binding_of_def split: option.split)

lemma select_conj: "select (\<lambda>r. P r \<and> Q r) t = select Q (select P t)"
  by (induction t) simp_all

lemma step_at_eq:
  assumes "db_wf E d" and t: "db_abs E d c = Some t"
  shows "step_at d c p = (if in_steps (a_steps t) p then Some (step_rows d c ! nat (p - 1)) else None)"
proof -
  obtain r where r: "task_row d c = Some r" "t = abs_row E d r (step_rows d c) (binding_of d c)"
    using t by (rule db_abs_SomeE)
  have n: "numbered st_position (step_rows d c)" using db_wf_numbered assms(1) r(1) .
  have "step_at d c p = fetchone (select (\<lambda>r. st_position r = p) (step_rows d c))"
    by (simp add: step_at_def step_rows_def select_conj)
  then show ?thesis
    using numbered_select [OF n] numbered_select_none [OF n] r(2) by (auto simp: in_steps_def)
qed

lemma unfinished_previous_iff:
  assumes "db_wf E d" and t: "db_abs E d c = Some t" and p: "in_steps (a_steps t) p"
  shows "unfinished_previous d c p = None \<longleftrightarrow> previous_completed (a_steps t) p"
proof -
  obtain r where r: "task_row d c = Some r" "t = abs_row E d r (step_rows d c) (binding_of d c)"
    using t by (rule db_abs_SomeE)
  have n: "numbered st_position (step_rows d c)" using db_wf_numbered assms(1) r(1) .
  have "unfinished_previous d c p =
      fetchone (select (\<lambda>r. st_status r \<noteq> ''completed'') (select (\<lambda>r. st_position r < p) (step_rows d c)))"
    by (simp add: unfinished_previous_def step_rows_def select_conj)
  also have "select (\<lambda>r. st_position r < p) (step_rows d c) = take (nat (p - 1)) (step_rows d c)"
    using p r(2) by (intro numbered_previous [OF n]) (auto simp: in_steps_def)
  finally have "unfinished_previous d c p = None \<longleftrightarrow>
      (\<forall>x \<in> set (take (nat (p - 1)) (step_rows d c)). st_status x = ''completed'')"
    by (simp add: fetchone_select_None del: fetchone_eq_None)
  moreover have "st_status x = ''completed'' \<longleftrightarrow> status (step_of_row E d x) = COMPLETED"
    if "x \<in> set (take (nat (p - 1)) (step_rows d c))" for x
    using step_rows_ok [OF assms(1) in_set_takeD [OF that]]
    by (simp add: step_of_row_def step_row_ok_def status_of_completed)
  ultimately show ?thesis by (auto simp: previous_completed_def r(2) take_map)
qed

lemma all_steps_completed_iff:
  assumes "db_wf E d" and t: "db_abs E d c = Some t"
  shows "all_steps_completed d c = all_completed (a_steps t)"
proof -
  obtain r where r: "task_row d c = Some r" "t = abs_row E d r (step_rows d c) (binding_of d c)"
    using t by (rule db_abs_SomeE)
  have "all_steps_completed d c \<longleftrightarrow> (\<forall>x \<in> set (step_rows d c). st_status x = ''completed'')"
    by (auto simp: all_steps_completed_def rowcount_0_iff set_step_rows)
  then show ?thesis
    using step_rows_ok [OF assms(1)]
    by (auto simp: all_completed_def r(2) step_of_row_def step_row_ok_def status_of_completed)
qed

lemma step_status_eq:
  assumes "db_wf E d" and t: "db_abs E d c = Some t" and p: "in_steps (a_steps t) p"
  shows "st_status (step_rows d c ! nat (p - 1)) = step_status_value (status (a_steps t ! nat (p - 1)))"
proof -
  obtain r where r: "task_row d c = Some r" "t = abs_row E d r (step_rows d c) (binding_of d c)"
    using t by (rule db_abs_SomeE)
  have i: "nat (p - 1) < length (step_rows d c)" using p r(2) by (auto simp: in_steps_def)
  then have "step_row_ok d (step_rows d c ! nat (p - 1))" by (intro step_rows_ok [OF assms(1) nth_mem])
  with i r(2) show ?thesis by (simp add: step_of_row_def step_row_ok_def status_check_value)
qed

end
