(* ===== verification/TaskSqlOps.thy ===== *)
theory TaskSqlOps
  imports TaskSql
begin

text \<open>
  The operations of the SQLite backend against the specification, and the interpretation of
  the contract \<open>task_store\<close> on them.
\<close>

lemma db_inv_wf: "db_inv E d \<Longrightarrow> db_wf E d"
  by (simp add: db_inv_def)

lemma db_inv_task_ok: "db_inv E d \<Longrightarrow> db_abs E d c = Some t \<Longrightarrow> task_ok t"
  by (simp add: db_inv_def)

lemma db_inv_upd:
  "db_inv E d \<Longrightarrow> db_wf E d' \<Longrightarrow> db_abs E d' = (db_abs E d)(c := x) \<Longrightarrow>
   (\<And>t. x = Some t \<Longrightarrow> task_ok t) \<Longrightarrow> db_inv E d'"
  by (simp add: db_inv_def)

lemma read_abs_task:
  assumes wf: "db_wf E d" and t: "db_abs E d c = Some t"
  obtains td where "get_active_task_in_connection E d c = Inr (Some td)"
    and "\<forall>now. from_row now td = Inr (task_of c (shown_state d c) t)"
    and "snapshot_from_dict (public_task_snapshot td) = Inr (Some (snapshot_of t))"
    and "public_task_snapshot td = snapshot_public_dict (snapshot_of t)"
    and "td_created_by_tool_call_id td = a_tool_call t"
proof -
  obtain r where r: "task_row d c = Some r" "t = abs_row E d r (step_rows d c) (binding_of d c)"
    using t by (rule db_abs_SomeE)
  show thesis by (rule read_task [OF wf r]) (use that in \<open>simp add: shown_state_def\<close>)
qed

text \<open>The result of a step update, from the task after it.\<close>

lemma sql_set_step_result_eq:
  assumes "set_step_result_body E now c p (step_status_value st) ev run egen erev d =
             Inr (\<lparr>sr_completed = cmpl, sr_task = td, sr_snapshot = public_task_snapshot td'\<rparr>, d')"
    and "opt_from_row now td = Inr task"
    and "snapshot_from_dict (public_task_snapshot td') = Inr (Some sn)"
  shows "sql_set_step_result E now c p st ev run egen erev d =
           (Inr (step_updated_result p st task sn cmpl), d')"
  using assms
  by (simp add: sql_set_step_result_def repo_set_step_result_def transaction_def)

lemma sql_set_step_ok:
  assumes inv: "db_inv E d" and t: "db_abs E d c = Some t" and v: "version_ok t egen erev"
    and ok: "set_step_ok t p st" and run: "opt_ok (has_run d c) run" and now: "0 < now"
  shows "\<exists>d'. sql_set_step_result E now c p st ev run egen erev d =
              (Inr (step_result_of c p st (spec_set_step now p st ev run t)), d') \<and>
            db_inv E d' \<and> db_abs E d' = (db_abs E d)(c := retire (spec_set_step now p st ev run t))"
proof -
  let ?t = "spec_set_step now p st ev run t" and ?v = "step_status_value st"
  have wf: "db_wf E d" and tok: "task_ok t" using inv t by (auto intro: db_inv_wf db_inv_task_ok)
  obtain r where r: "require_version d c egen erev = Inr r" "task_row d c = Some r"
      "at_generation_id r = a_generation t"
    using t v by (rule require_version_ok)
  have p: "in_steps (a_steps t) p" and prev: "previous_completed (a_steps t) p"
    and unb: "binding_of d c = None"
    and imm: "status (a_steps t ! nat (p - 1)) = COMPLETED \<longrightarrow> st = COMPLETED"
    using ok bound_iff_binding [OF t] by (auto simp: set_step_ok_def)
  let ?d1 = "set_step_rows c p ?v run ev now d"
  let ?d2 = "bump_revision c (at_generation_id r) now ?d1"
  have sc: "status_check ?v" by (auto simp: status_check_iff)
  have wf2: "db_wf E ?d2" by (intro db_wf_bump db_wf_set_step_rows wf sc now)
  have abs1: "db_abs E ?d1 = (db_abs E d)(c \<mapsto> t\<lparr>a_steps := step_set p st run ev (a_steps t)\<rparr>)"
    using wf t p by (rule db_abs_set_step_rows)
  have abs2: "db_abs E ?d2 = (db_abs E d)(c \<mapsto> ?t)"
    using db_abs_bump [of E ?d1 c "t\<lparr>a_steps := step_set p st run ev (a_steps t)\<rparr>" "at_generation_id r" now]
    by (simp add: abs1 r(3) spec_set_step_def)
  then have t2: "db_abs E ?d2 c = Some ?t" by simp
  obtain td where td: "get_active_task_in_connection E ?d2 c = Inr (Some td)"
      "\<forall>now. from_row now td = Inr (task_of c (shown_state ?d2 c) ?t)"
      "snapshot_from_dict (public_task_snapshot td) = Inr (Some (snapshot_of ?t))"
      "public_task_snapshot td = snapshot_public_dict (snapshot_of ?t)"
      "td_created_by_tool_call_id td = a_tool_call ?t"
    using wf2 t2 by (rule read_abs_task)
  have idle: "shown_state ?d2 c = ''idle''" using unb by (intro shown_state_unbound [OF wf2]) simp
  have guards: "st_status (step_rows d c ! nat (p - 1)) = ''completed'' \<longrightarrow> ?v = ''completed''"
    using imm step_status_eq [OF wf t p] by simp
  have body: "set_step_result_body E now c p ?v ev run egen erev d =
      (if all_completed (a_steps ?t)
       then Inr (\<lparr>sr_completed = True, sr_task = None, sr_snapshot = public_task_snapshot td\<rparr>,
                 delete_active_tasks (\<lambda>r. at_conversation_id r = c) ?d2)
       else Inr (\<lparr>sr_completed = False, sr_task = Some td, sr_snapshot = public_task_snapshot td\<rparr>, ?d2))"
    using p prev guards unb unfinished_previous_iff [OF wf t p] all_steps_completed_iff [OF wf2 t2]
    unfolding set_step_result_body_def r(1) bind_result_simps ensure_no_binding
      step_at_eq [OF wf t] update_step_Inr [OF sc run] Let_def td(1)
    by auto
  show ?thesis
  proof (cases "all_completed (a_steps ?t)")
    case True
    have row2: "task_row ?d2 c = Some (bumped now r)"
      by (subst task_row_bump [where r = r]) (simp_all add: r(2))
    have del: "delete_active_tasks (\<lambda>r. at_conversation_id r = c) ?d2 = without_task c ?d2"
      by (rule delete_active_tasks_eq [OF wf2 row2]) simp
    have abs3: "db_abs E (without_task c ?d2) = (db_abs E d)(c := None)"
      by (simp add: db_abs_without_task abs2)
    have "db_inv E (without_task c ?d2)"
      by (rule db_inv_upd [OF inv db_wf_without_task [OF wf2] abs3]) simp
    moreover have "sql_set_step_result E now c p st ev run egen erev d =
        (Inr (step_updated_result p st None (snapshot_of ?t) True), without_task c ?d2)"
      by (rule sql_set_step_result_eq [where td = None])
        (use True body td(3) del in \<open>simp_all add: opt_from_row_def\<close>)
    ultimately show ?thesis using True abs3 by (simp add: step_result_of_def retire_def)
  next
    case False
    then have re: "retire ?t = Some ?t" by (simp add: retire_def)
    have "db_inv E ?d2"
      by (rule db_inv_upd [OF inv wf2 abs2]) (use task_ok_set_step [OF tok ok now re] in simp)
    moreover have "sql_set_step_result E now c p st ev run egen erev d =
        (Inr (step_updated_result p st (Some (task_of c ''idle'' ?t)) (snapshot_of ?t) False), ?d2)"
      by (rule sql_set_step_result_eq [where td = "Some td"])
        (use False body td(1-3) idle in \<open>simp_all add: opt_from_row_def\<close>)
    ultimately show ?thesis using False abs2 re by (simp add: step_result_of_def)
  qed
qed

lemma transaction_Inl: "body d = Inl e \<Longrightarrow> transaction body d = (Inl e, d)"
  by (simp add: transaction_def)

lemma sql_set_step_Inl:
  "set_step_result_body E now c p (step_status_value st) ev run egen erev d = Inl e \<Longrightarrow>
   \<exists>e. sql_set_step_result E now c p st ev run egen erev d = (Inl e, d)"
  by (simp add: sql_set_step_result_def repo_set_step_result_def transaction_def)

lemma sql_set_step_refused:
  assumes inv: "db_inv E d" and rf: "set_step_refusal (db_abs E d c) egen erev p st = Some rf"
  shows "sql_set_step_result E now c p st ev run egen erev d = (Inl (sql_refusal_error c rf), d)"
proof -
  have "on_error repository_error
      (set_step_result_body E now c p (step_status_value st) ev run egen erev d) = Inl (sql_refusal_error c rf)"
    using rf
  proof (cases rule: set_step_refusal_cases)
    case version
    from require_version_refused [OF this] show ?thesis
      by (cases "require_version d c egen erev") (simp_all add: set_step_result_body_def on_error_def)
  next
    case (state t)
    have wf: "db_wf E d" using inv by (rule db_inv_wf)
    obtain r where r: "require_version d c egen erev = Inr r" using state(1,2) by (rule require_version_ok)
    have b: "binding_of d c = None \<longleftrightarrow> a_bound t = None" using bound_iff_binding [OF state(1)] by auto
    show ?thesis
    proof (cases "a_bound t = None \<and> in_steps (a_steps t) p")
      case False
      then show ?thesis
        using state(3) b
        unfolding set_step_result_body_def r bind_result_simps ensure_no_binding step_at_eq [OF wf state(1)]
        by (auto simp: set_step_refusal_def version_ok_def on_error_def split: if_splits)
    next
      case True
      then have p: "in_steps (a_steps t) p" by simp
      show ?thesis
        using state(3) True b unfinished_previous_iff [OF wf state(1) p] step_status_eq [OF wf state(1) p]
        unfolding set_step_result_body_def r bind_result_simps ensure_no_binding step_at_eq [OF wf state(1)]
        by (auto simp: set_step_refusal_def version_ok_def on_error_def split: if_splits)
    qed
  qed
  then show ?thesis
    by (cases "set_step_result_body E now c p (step_status_value st) ev run egen erev d")
      (simp_all add: sql_set_step_result_def repo_set_step_result_def transaction_def on_error_def)
qed

lemma sql_set_step_unknown_run:
  assumes inv: "db_inv E d" and t: "db_abs E d c = Some t" and v: "version_ok t egen erev"
    and ok: "set_step_ok t p st" and run: "\<not> opt_ok (has_run d c) run"
  shows "\<exists>e. sql_set_step_result E now c p st ev run egen erev d = (Inl e, d)"
proof -
  have wf: "db_wf E d" using inv by (rule db_inv_wf)
  obtain r where r: "require_version d c egen erev = Inr r" using t v by (rule require_version_ok)
  have p: "in_steps (a_steps t) p" and prev: "previous_completed (a_steps t) p"
    and unb: "binding_of d c = None"
    and imm: "status (a_steps t ! nat (p - 1)) = COMPLETED \<longrightarrow> st = COMPLETED"
    using ok bound_iff_binding [OF t] by (auto simp: set_step_ok_def)
  have "step_at d c p \<noteq> None" using p by (simp add: step_at_eq [OF wf t])
  then have ne: "select (\<lambda>r. st_conversation_id r = c \<and> st_position r = p) (active_task_steps d) \<noteq> []"
    by (simp add: step_at_def)
  have sc: "status_check (step_status_value st)" by (auto simp: status_check_iff)
  have "update_step c p (step_status_value st) run ev now d =
      Inl (IntegrityError ''FOREIGN KEY constraint failed'')"
    using ne sc run by (simp add: update_step_def Let_def)
  then have "\<exists>e. set_step_result_body E now c p (step_status_value st) ev run egen erev d = Inl e"
    using p prev unb imm unfinished_previous_iff [OF wf t p] step_status_eq [OF wf t p]
    unfolding set_step_result_body_def r bind_result_simps ensure_no_binding step_at_eq [OF wf t]
    by auto
  then show ?thesis using sql_set_step_Inl by blast
qed

section \<open>Cancel, bind and finish\<close>

lemma sql_cancel_ok:
  assumes inv: "db_inv E d" and t: "db_abs E d c = Some t" and v: "version_ok t egen erev"
  shows "\<exists>d'. sql_cancel_task c egen erev d = (Inr True, d') \<and> db_inv E d' \<and>
            db_abs E d' = (db_abs E d)(c := None)"
proof -
  have wf: "db_wf E d" using inv by (rule db_inv_wf)
  obtain r where r: "require_version d c egen erev = Inr r" "task_row d c = Some r"
    using t v by (rule require_version_ok)
  let ?P = "\<lambda>x. at_conversation_id x = c \<and> at_generation_id x = at_generation_id r"
  have rin: "r \<in> set (active_tasks d)" "at_conversation_id r = c" using task_row_SomeD [OF r(2)] by auto
  have dist: "distinct (map at_conversation_id (active_tasks d))" using wf by (simp add: db_wf_def keys_ok_def)
  have "?P x \<longleftrightarrow> at_conversation_id x = c" if "x \<in> set (active_tasks d)" for x
    using fetchone_unique_key [OF dist that refl] r(2) by (auto simp: task_row_def)
  then have del: "delete_active_tasks ?P d = without_task c d"
    by (rule delete_active_tasks_eq [OF wf r(2)])
  have "rowcount ?P (active_tasks d) \<noteq> 0" using rin by (auto simp: rowcount_0_iff)
  then have "sql_cancel_task c egen erev d = (Inr True, without_task c d)"
    using r(1) del by (simp add: sql_cancel_task_def repo_cancel_task_def transaction_def
        cancel_task_body_def Let_def)
  moreover have "db_inv E (without_task c d)"
    by (rule db_inv_upd [OF inv db_wf_without_task [OF wf] db_abs_without_task]) simp
  ultimately show ?thesis by (simp add: db_abs_without_task)
qed

lemma sql_cancel_refused:
  assumes "version_refusal (db_abs E d c) egen erev = Some rf"
  shows "sql_cancel_task c egen erev d = (Inl (sql_refusal_error c rf), d)"
  using require_version_refused [OF assms]
  by (cases "require_version d c egen erev")
    (simp_all add: sql_cancel_task_def repo_cancel_task_def transaction_def cancel_task_body_def on_error_def)

text \<open>The binding insert as a transaction of its own.\<close>

definition sql_bind_run :: "int \<Rightarrow> string \<Rightarrow> task_binding \<Rightarrow> db \<Rightarrow> unit result \<times> db" where
  "sql_bind_run now run b =
     transaction (\<lambda>d. map_result (\<lambda>(x, d'). ((), d')) (bind_run_in_connection now run b d))"

definition with_binding :: "binding_row \<Rightarrow> db \<Rightarrow> db" where
  "with_binding b d = d\<lparr>task_run_bindings := task_run_bindings d @ [b]\<rparr>"

lemma with_binding_frame [simp]:
  "task_row (with_binding b d) c = task_row d c"
  "step_rows (with_binding b d) c = step_rows d c"
  "blobs (with_binding b d) = blobs d"
  "files (with_binding b d) = files d"
  "runs (with_binding b d) = runs d"
  "active_tasks (with_binding b d) = active_tasks d"
  "active_task_steps (with_binding b d) = active_task_steps d"
  "conversations (with_binding b d) = conversations d"
  by (simp_all add: with_binding_def task_row_def step_rows_def)

lemma binding_of_with_binding:
  "binding_of d (b_conversation_id b) = None \<Longrightarrow>
   binding_of (with_binding b d) c = (if c = b_conversation_id b then Some b else binding_of d c)"
  by (auto simp: binding_of_def with_binding_def)

lemma db_wf_with_binding:
  assumes wf: "db_wf E d" and b: "binding_ok d b" and "binding_of d (b_conversation_id b) = None"
    and "b_run_id b \<notin> b_run_id ` set (task_run_bindings d)"
  shows "db_wf E (with_binding b d)"
proof -
  let ?d = "with_binding b d"
  have hb: "has_blob ?d = has_blob d" by (rule has_blob_cong) simp
  have hr: "has_run ?d = has_run d" by (rule has_run_cong) simp
  have bo: "blobs_ok E ?d = blobs_ok E d" by (rule blobs_ok_cong) simp_all
  have "keys_ok ?d"
    using wf assms(3,4) by (simp add: keys_ok_def db_wf_def binding_of_None) (simp add: with_binding_def)
  moreover have "task_row_ok ?d r" if "task_row_ok d r" for r
    using that by (simp add: task_row_ok_def hb)
  moreover have "step_row_ok ?d s" if "step_row_ok d s" for s
    using that by (simp add: step_row_ok_def hb)
  moreover have "binding_ok ?d x" if "x \<in> set (task_run_bindings ?d)" for x
  proof -
    have "x = b \<or> x \<in> set (task_run_bindings d)" using that by (auto simp: with_binding_def)
    then have "binding_ok d x" using b wf by (auto simp: db_wf_def)
    then show ?thesis by (simp add: binding_ok_def hr)
  qed
  ultimately show ?thesis using wf bo by (simp add: db_wf_def)
qed

lemma db_abs_with_binding:
  assumes t: "db_abs E d (b_conversation_id b) = Some t" and "binding_of d (b_conversation_id b) = None"
  shows "db_abs E (with_binding b d) =
    (db_abs E d)(b_conversation_id b \<mapsto> spec_bind (b_run_id b) (b_step_position b) t)"
proof -
  let ?c = "b_conversation_id b"
  obtain r where r: "task_row d ?c = Some r" "t = abs_row E d r (step_rows d ?c) (binding_of d ?c)"
    using t by (rule db_abs_SomeE)
  show ?thesis
    by (rule db_abs_upd [where r = r])
      (simp_all add: r binding_of_with_binding [OF assms(2)], simp add: abs_row_def spec_bind_def)
qed

lemma bound_run_in_abs:
  assumes wf: "db_wf E d" and b: "b \<in> set (task_run_bindings d)"
  shows "\<exists>t. db_abs E d (b_conversation_id b) = Some t \<and> a_bound t = Some (b_run_id b, b_step_position b)"
proof -
  let ?c = "b_conversation_id b"
  have "binding_ok d b" using wf b by (simp add: db_wf_def)
  then have "?c \<in> at_conversation_id ` set (active_tasks d)" by (force simp: binding_ok_def)
  then obtain r where r: "task_row d ?c = Some r" using task_row_None [of d ?c] by auto
  have "distinct (map b_conversation_id (task_run_bindings d))" using wf by (simp add: db_wf_def keys_ok_def)
  then have "binding_of d ?c = Some b" using b by (simp add: binding_of_def fetchone_unique_key)
  with r show ?thesis by (simp add: db_abs_def abs_row_def)
qed

lemma sql_bind_ok:
  assumes inv: "db_inv E d" and t: "db_abs E d (tb_conversation_id b) = Some t"
    and gen: "a_generation t = tb_task_generation_id b" and rev: "a_revision t = tb_base_revision b"
    and unb: "a_bound t = None" and st: "startable (a_steps t) (tb_step_position b)"
    and run: "has_run d (tb_conversation_id b) rid"
    and new: "\<And>c' t' r p. db_abs E d c' = Some t' \<Longrightarrow> a_bound t' = Some (r, p) \<Longrightarrow> r \<noteq> rid"
  shows "\<exists>d'. sql_bind_run now rid b d = (Inr (), d') \<and> db_inv E d' \<and>
    db_abs E d' = (db_abs E d)(tb_conversation_id b \<mapsto> spec_bind rid (tb_step_position b) t)"
proof -
  let ?c = "tb_conversation_id b" and ?p = "tb_step_position b"
  have wf: "db_wf E d" and tok: "task_ok t" using inv t by (auto intro: db_inv_wf db_inv_task_ok)
  have v: "version_ok t (Some (tb_task_generation_id b)) (Some (tb_base_revision b))"
    using gen rev by (simp add: version_ok_def)
  obtain r where r: "require_version d ?c (Some (tb_task_generation_id b)) (Some (tb_base_revision b)) = Inr r"
      "task_row d ?c = Some r" "at_generation_id r = a_generation t" "at_revision r = a_revision t"
    using t v by (rule require_version_ok)
  have p: "in_steps (a_steps t) ?p" "previous_completed (a_steps t) ?p"
      "status (a_steps t ! nat (?p - 1)) \<noteq> COMPLETED"
    using st by (simp_all add: startable_def)
  have unb': "binding_of d ?c = None" using unb bound_iff_binding [OF t] by simp
  let ?b = "\<lparr>b_run_id = rid, b_conversation_id = ?c, b_task_generation_id = at_generation_id r,
             b_step_position = ?p, b_base_revision = tb_base_revision b, b_created_at = now\<rparr>"
  have rin: "r \<in> set (active_tasks d)" "at_conversation_id r = ?c" using task_row_SomeD [OF r(2)] by auto
  have conv: "?c \<in> set (conversations d)" using wf rin by (auto simp: db_wf_def task_row_ok_def simp del: set_map list.set_map)
  have norun: "rid \<notin> b_run_id ` set (task_run_bindings d)" using bound_run_in_abs [OF wf] new by fastforce
  have bok: "binding_ok d ?b" using run rin by (auto simp: binding_ok_def)
  have "insert_binding ?b d = Inr (with_binding ?b d)"
  proof -
    have "(?c, at_generation_id r) \<in> (\<lambda>r. (at_conversation_id r, at_generation_id r)) ` set (active_tasks d)"
      using rin by force
    moreover have "?c \<notin> b_conversation_id ` set (task_run_bindings d)" using unb' by (simp add: binding_of_None)
    ultimately show ?thesis
      using norun p(1) conv run by (simp add: insert_binding_def with_binding_def in_steps_def)
  qed
  then have "bind_run_in_connection now rid b d = Inr ((at_generation_id r, ?p), with_binding ?b d)"
    using p unb' rev r(4) unfinished_previous_iff [OF wf t p(1)] step_status_eq [OF wf t p(1)]
    unfolding bind_run_in_connection_def Let_def r(1) bind_result_simps ensure_no_binding
      step_at_eq [OF wf t]
    by simp
  then have op: "sql_bind_run now rid b d = (Inr (), with_binding ?b d)"
    by (simp add: sql_bind_run_def transaction_def)
  have abs: "db_abs E (with_binding ?b d) = (db_abs E d)(?c \<mapsto> spec_bind rid ?p t)"
    using db_abs_with_binding [of E d ?b t] t unb' by simp
  have "db_wf E (with_binding ?b d)"
    using wf bok unb' norun by (intro db_wf_with_binding) simp_all
  then have "db_inv E (with_binding ?b d)"
    by (rule db_inv_upd [OF inv _ abs]) (use task_ok_bind [OF tok st] in simp)
  with op abs show ?thesis by blast
qed

lemma sql_bind_fail:
  assumes inv: "db_inv E d"
    and no: "\<And>t. db_abs E d (tb_conversation_id b) = Some t \<Longrightarrow>
          \<not> (version_ok t (Some (tb_task_generation_id b)) (Some (tb_base_revision b)) \<and> a_bound t = None)"
  shows "\<exists>e. sql_bind_run now rid b d = (Inl e, d)"
proof (cases "\<exists>t. db_abs E d (tb_conversation_id b) = Some t \<and>
         version_ok t (Some (tb_task_generation_id b)) (Some (tb_base_revision b))")
  case False
  then show ?thesis
    using require_version_fail [of E d "tb_conversation_id b"]
    by (fastforce simp: sql_bind_run_def transaction_def bind_run_in_connection_def Let_def)
next
  case True
  then obtain t where t: "db_abs E d (tb_conversation_id b) = Some t"
    and v: "version_ok t (Some (tb_task_generation_id b)) (Some (tb_base_revision b))" by blast
  with no have "binding_of d (tb_conversation_id b) \<noteq> None" using bound_iff_binding [OF t] by blast
  moreover obtain r where "require_version d (tb_conversation_id b) (Some (tb_task_generation_id b))
      (Some (tb_base_revision b)) = Inr r"
    using t v by (rule require_version_ok)
  ultimately have "\<exists>e. bind_run_in_connection now rid b d = Inl e"
    by (auto simp: bind_run_in_connection_def Let_def ensure_no_binding split: option.splits)
  then show ?thesis by (auto simp: sql_bind_run_def transaction_def)
qed

lemma bound_binding:
  assumes wf: "db_wf E d" and t: "db_abs E d c = Some t" and b: "a_bound t = Some (run, p)"
  obtains x r where "binding_of d c = Some x" and "b_run_id x = run" and "b_step_position x = p"
    and "fetchone (select (\<lambda>y. b_run_id y = run) (task_run_bindings d)) = Some x"
    and "b_conversation_id x = c" and "task_row d c = Some r"
    and "b_task_generation_id x = at_generation_id r" and "at_generation_id r = a_generation t"
    and "has_run d c run"
proof -
  obtain r where r: "task_row d c = Some r" "t = abs_row E d r (step_rows d c) (binding_of d c)"
    using t by (rule db_abs_SomeE)
  then obtain x where x: "binding_of d c = Some x" "b_run_id x = run" "b_step_position x = p"
    using b by (auto simp: abs_row_def)
  have xin: "x \<in> set (task_run_bindings d)" "b_conversation_id x = c" using binding_of_SomeD [OF x(1)] by auto
  have dist: "distinct (map b_run_id (task_run_bindings d))" using wf by (simp add: db_wf_def keys_ok_def)
  have f: "fetchone (select (\<lambda>y. b_run_id y = run) (task_run_bindings d)) = Some x"
    by (rule fetchone_unique_key [OF dist xin(1) x(2)])
  have g: "b_task_generation_id x = at_generation_id r" using binding_generation [OF wf r(1) xin] .
  have g': "at_generation_id r = a_generation t" by (simp add: r(2) abs_row_def)
  have h: "has_run d c run" using wf xin x(2) by (auto simp: db_wf_def binding_ok_def)
  show thesis by (rule that [OF x f xin(2) r(1) g g' h])
qed

text \<open>The step update of a finished run.\<close>

lemma finish_update:
  assumes wf: "db_wf E d" and t: "db_abs E d c = Some t" and p: "in_steps (a_steps t) p"
    and run: "has_run d c run"
  shows "\<exists>d1. (case finished_step_status st of
                 None \<Rightarrow> Inr d
               | Some s \<Rightarrow> update_step c p s (Some run) ev now d) = Inr d1 \<and>
    db_wf E d1 \<and> (\<forall>c'. task_row d1 c' = task_row d c' \<and> binding_of d1 c' = binding_of d c') \<and>
    db_abs E d1 = (db_abs E d)(c \<mapsto> t\<lparr>a_steps := a_steps (spec_release now run st ev p t)\<rparr>)"
proof -
  have eq: "step_status_value COMPLETED = ''completed''" "step_status_value BLOCKED = ''blocked''" by simp_all
  have sc: "status_check (step_status_value x)" for x by (auto simp: status_check_iff)
  have fr: "opt_ok (has_run d c) (Some run)" using run by simp
  have upd: "\<exists>d1. update_step c p (step_status_value x) (Some run) e now d = Inr d1 \<and> db_wf E d1 \<and>
      (\<forall>c'. task_row d1 c' = task_row d c' \<and> binding_of d1 c' = binding_of d c') \<and>
      db_abs E d1 = (db_abs E d)(c \<mapsto> t\<lparr>a_steps := step_set p x (Some run) e (a_steps t)\<rparr>)" for x e
    using update_step_Inr [OF sc fr] db_wf_set_step_rows [OF wf sc] db_abs_set_step_rows [OF wf t p]
    by (intro exI [of _ "set_step_rows c p (step_status_value x) (Some run) e now d"]) simp
  consider "st = ''completed''" | "st = ''failed''" | "st \<noteq> ''completed''" "st \<noteq> ''failed''" by blast
  then show ?thesis
  proof cases
    case 1
    then show ?thesis using upd [of COMPLETED] by (simp add: finished_step_status_def spec_release_def)
  next
    case 2
    then show ?thesis using upd [of BLOCKED] by (simp add: finished_step_status_def spec_release_def)
  next
    case 3
    have "t\<lparr>a_steps := a_steps (spec_release now run st ev p t)\<rparr> = t"
      using 3 by (simp add: spec_release_def)
    then show ?thesis using 3 wf t by (simp add: finished_step_status_def fun_upd_idem)
  qed
qed

lemma run_outcome_dict_eq:
  assumes "st \<noteq> []" and "snap = snapshot_public_dict (snapshot_of t)" and "cmpl = all_completed (a_steps t)"
  shows "outcome_from_dict (run_outcome_dict cmpl p (finished_step_status st) st snap) =
           Inr (Some (finish_outcome_of p st t))"
proof -
  have "run_outcome_dict cmpl p (finished_step_status st) st snap =
      outcome_public_dict (finish_outcome_of p st t)"
    using assms by (simp add: run_outcome_dict_def finish_outcome_of_def outcome_public_dict_def
        finished_step_status_def released_status_def)
  then show ?thesis
    using assms(1) by (simp add: outcome_dict_inverse)
      (simp add: finish_outcome_of_def released_status_def or_none_def)
qed

lemma finish_body_ok:
  assumes inv: "db_inv E d" and t: "db_abs E d c = Some t" and b: "a_bound t = Some (run, p)"
    and now: "0 < now" and ut: "t' = spec_release now run st (run_evidence err summary st) p t"
  shows "\<exists>d'. finish_run_binding_in_connection E now run st err summary d =
              Inr (Some (run_outcome_dict (all_completed (a_steps t')) p (finished_step_status st) st
                     (snapshot_public_dict (snapshot_of t'))), d') \<and>
            db_inv E d' \<and> db_abs E d' = (db_abs E d)(c := retire t')"
proof -
  let ?t = "spec_release now run st (run_evidence err summary st) p t"
  have wf: "db_wf E d" and tok: "task_ok t" using inv t by (auto intro: db_inv_wf db_inv_task_ok)
  have p: "in_steps (a_steps t) p" using tok b by (auto simp: task_ok_def startable_def)
  obtain x r where x: "binding_of d c = Some x" "b_run_id x = run" "b_step_position x = p"
      "fetchone (select (\<lambda>y. b_run_id y = run) (task_run_bindings d)) = Some x"
      "b_conversation_id x = c" and r: "task_row d c = Some r"
      "b_task_generation_id x = at_generation_id r" "at_generation_id r = a_generation t"
      and run: "has_run d c run"
    using wf t b by (rule bound_binding)
  obtain d1 where d1: "(case finished_step_status st of
                 None \<Rightarrow> Inr d
               | Some s \<Rightarrow> update_step c p s (Some run)
                   (run_evidence err summary st) now d) = Inr d1"
      "db_wf E d1" "\<And>c'. task_row d1 c' = task_row d c' \<and> binding_of d1 c' = binding_of d c'"
      "db_abs E d1 = (db_abs E d)(c \<mapsto> t\<lparr>a_steps := a_steps ?t\<rparr>)"
    using finish_update [OF wf t p run] by blast
  let ?d1 = "delete_binding run d1"
  let ?d2 = "bump_revision c (at_generation_id r) now ?d1"
  have wf2: "db_wf E ?d2" by (intro db_wf_bump db_wf_delete_binding d1(2) now)
  have abs1: "db_abs E ?d1 = (db_abs E d)(c \<mapsto> t\<lparr>a_steps := a_steps ?t, a_bound := None\<rparr>)"
    using db_abs_delete_binding [OF d1(2), of c _ x] d1(3) x(1,2) by (simp add: d1(4))
  have t2_eq: "t\<lparr>a_steps := a_steps ?t, a_bound := None, a_revision := a_revision t + 1,
      a_updated_at := now\<rparr> = ?t" by (simp add: spec_release_def)
  have abs2: "db_abs E ?d2 = (db_abs E d)(c \<mapsto> ?t)"
    using db_abs_bump [of E ?d1 c _ "at_generation_id r" now] r(3) t2_eq by (simp add: abs1)
  then have t2: "db_abs E ?d2 c = Some ?t" by simp
  obtain td where td: "get_active_task_in_connection E ?d2 c = Inr (Some td)"
      "\<forall>now. from_row now td = Inr (task_of c (shown_state ?d2 c) ?t)"
      "snapshot_from_dict (public_task_snapshot td) = Inr (Some (snapshot_of ?t))"
      "public_task_snapshot td = snapshot_public_dict (snapshot_of ?t)"
      "td_created_by_tool_call_id td = a_tool_call ?t"
    using wf2 t2 by (rule read_abs_task)
  let ?cmpl = "finished_step_status st = Some ''completed'' \<and> all_steps_completed ?d2 c"
  have cmpl: "?cmpl = all_completed (a_steps ?t)"
    using all_steps_completed_iff [OF wf2 t2] released_active [OF tok _ b]
    by (auto simp: finished_step_status_def)
  have task: "fetchone (select (\<lambda>r. at_conversation_id r = c) (active_tasks d)) = Some r"
    using r(1) by (simp add: task_row_def)
  let ?d3 = "if all_completed (a_steps ?t)
             then delete_active_tasks (\<lambda>y. at_conversation_id y = c \<and> at_generation_id y = at_generation_id r) ?d2
             else ?d2"
  have op: "finish_run_binding_in_connection E now run st err summary d =
      Inr (Some (run_outcome_dict (all_completed (a_steps ?t)) p (finished_step_status st) st
             (snapshot_public_dict (snapshot_of ?t))), ?d3)"
    using cmpl unfolding finish_run_binding_in_connection_def x(4) option.case Let_def x(5) task x(3) r(2)
      d1(1) bind_result_simps td(1) option.sel td(4)
    by auto
  show ?thesis
  proof (cases "all_completed (a_steps ?t)")
    case True
    have row2: "task_row ?d2 c = Some (bumped now r)"
      by (subst task_row_bump [where r = r]) (simp_all add: d1(3) r(1))
    have dist: "distinct (map at_conversation_id (active_tasks ?d2))"
      using wf2 by (simp add: db_wf_def keys_ok_def)
    have "at_conversation_id y = c \<and> at_generation_id y = at_generation_id r \<longleftrightarrow> at_conversation_id y = c"
      if "y \<in> set (active_tasks ?d2)" for y
      using fetchone_unique_key [OF dist that refl] row2 by (auto simp: task_row_def bumped_def)
    then have del: "?d3 = without_task c ?d2"
      using True by (simp add: delete_active_tasks_eq [OF wf2 row2])
    have abs3: "db_abs E (without_task c ?d2) = (db_abs E d)(c := None)"
      by (simp add: db_abs_without_task abs2)
    have "db_inv E (without_task c ?d2)"
      by (rule db_inv_upd [OF inv db_wf_without_task [OF wf2] abs3]) simp
    with op del abs3 True show ?thesis by (simp add: retire_def ut)
  next
    case False
    then have re: "retire ?t = Some ?t" by (simp add: retire_def)
    have "db_inv E ?d2"
      by (rule db_inv_upd [OF inv wf2 abs2]) (use task_ok_release [OF tok b now re] in simp)
    with op False re abs2 show ?thesis by (simp add: ut)
  qed
qed

lemma finish_evidence_agrees:
  "evidence_agrees st err summary \<Longrightarrow>
   spec_release now run st (run_evidence (if err = [] then None else Some err) summary st) p t =
     spec_finish now run st err summary p t"
  by (auto simp: spec_finish_def spec_release_def finish_evidence_def run_evidence_def evidence_agrees_def)

lemma sql_finish_ok:
  assumes inv: "db_inv E d" and t: "db_abs E d c = Some t" and b: "a_bound t = Some (run, p)"
    and ev: "evidence_agrees st err summary" and st: "st \<noteq> []" and now: "0 < now"
  shows "\<exists>d'. sql_handle_run_finished E now run st err summary d =
              (Inr (Some (finish_outcome_of p st (spec_finish now run st err summary p t))), d') \<and>
            db_inv E d' \<and> db_abs E d' = (db_abs E d)(c := retire (spec_finish now run st err summary p t))"
  using finish_body_ok [OF inv t b now refl, of st "if err = [] then None else Some err" summary]
    run_outcome_dict_eq [OF st refl refl, of "spec_finish now run st err summary p t" p]
  unfolding finish_evidence_agrees [OF ev]
  by (auto simp: sql_handle_run_finished_def repo_finish_run_binding_def transaction_def)

lemma sql_finish_unbound:
  assumes inv: "db_inv E d"
    and no: "\<And>c' t r p. db_abs E d c' = Some t \<Longrightarrow> a_bound t = Some (r, p) \<Longrightarrow> r \<noteq> run"
  shows "sql_handle_run_finished E now run st err summary d = (Inr None, d)"
proof -
  have "b_run_id b \<noteq> run" if "b \<in> set (task_run_bindings d)" for b
    using bound_run_in_abs [OF db_inv_wf [OF inv] that] no by blast
  then have "select (\<lambda>b. b_run_id b = run) (task_run_bindings d) = []"
    by (simp add: select_def filter_empty_conv)
  then show ?thesis
    by (simp add: sql_handle_run_finished_def repo_finish_run_binding_def transaction_def
        finish_run_binding_in_connection_def outcome_from_dict_def)
qed

section \<open>Create\<close>

lemma only_blobs_frame:
  assumes "only_blobs d d'"
  shows "conversations d' = conversations d" and "runs d' = runs d"
    and "active_tasks d' = active_tasks d" and "active_task_steps d' = active_task_steps d"
    and "task_run_bindings d' = task_run_bindings d"
proof -
  have eq: "d' = d\<lparr>files := files d', blobs := blobs d'\<rparr>" using assms by (simp add: only_blobs_def)
  show "conversations d' = conversations d" "runs d' = runs d" "active_tasks d' = active_tasks d"
    "active_task_steps d' = active_task_steps d" "task_run_bindings d' = task_run_bindings d"
    by (subst eq, simp)+
qed

lemma only_blobs_rows:
  assumes "only_blobs d d'"
  shows "task_row d' c = task_row d c" and "step_rows d' c = step_rows d c" and "binding_of d' c = binding_of d c"
  by (simp_all add: task_row_def step_rows_def binding_of_def only_blobs_frame [OF assms])

lemma opt_ok_mono: "opt_ok P x \<Longrightarrow> (\<And>y. P y \<Longrightarrow> Q y) \<Longrightarrow> opt_ok Q x"
  by (cases x) simp_all

lemma only_blobs_wf:
  assumes wf: "db_wf E d" and ob: "only_blobs d d'" and bo: "blobs_ok E d'"
  shows "db_wf E d'" and "db_abs E d' c = db_abs E d c"
proof -
  note fr = only_blobs_frame [OF ob]
  have hr: "has_run d' = has_run d" by (rule has_run_cong) (rule fr)
  have mono: "opt_ok (has_blob d) x \<Longrightarrow> opt_ok (has_blob d') x" for x
    using ob by (auto simp: only_blobs_def elim: opt_ok_mono)
  have "task_row_ok d' r" if "task_row_ok d r" for r
    using that mono by (simp add: task_row_ok_def fr only_blobs_rows [OF ob])
  moreover have "step_row_ok d' s" if "step_row_ok d s" for s
    using that mono by (simp add: step_row_ok_def fr)
  moreover have "binding_ok d' b" if "binding_ok d b" for b
    using that by (simp add: binding_ok_def hr fr)
  ultimately show "db_wf E d'" using wf bo by (simp add: db_wf_def keys_ok_def fr)
  have co: "codec_ok E" "blobs_ok E d" using wf by (simp_all add: db_wf_def)
  have tx: "text_of E d' inl x = text_of E d inl x" if "opt_ok (has_blob d) x" for inl x
    using read_text_mono [OF co bo ob that] by (simp add: text_of_def)
  show "db_abs E d' c = db_abs E d c"
  proof (cases "task_row d c")
    case None
    then show ?thesis by (simp add: db_abs_def only_blobs_rows [OF ob])
  next
    case (Some r)
    have "task_row_ok d r" using task_row_SomeD [OF Some] wf by (simp add: db_wf_def)
    then have "text_of E d' (at_detail_inline r) (at_detail_blob_id r) =
        text_of E d (at_detail_inline r) (at_detail_blob_id r)" by (simp add: tx task_row_ok_def)
    moreover have "step_of_row E d' s = step_of_row E d s" if "s \<in> set (step_rows d c)" for s
      using step_rows_ok [OF wf that] by (simp add: step_of_row_def tx step_row_ok_def)
    ultimately show ?thesis using Some by (simp add: db_abs_def only_blobs_rows [OF ob] abs_row_def)
  qed
qed

lemma only_blobs_inv: "db_inv E d \<Longrightarrow> only_blobs d d' \<Longrightarrow> blobs_ok E d' \<Longrightarrow> db_inv E d' \<and> db_abs E d' = db_abs E d"
  using only_blobs_wf unfolding db_inv_def by (metis (no_types) ext)

definition stored_as :: "codec \<Rightarrow> db \<Rightarrow> string \<times> string \<Rightarrow> string \<times> stored_text \<Rightarrow> bool" where
  "stored_as E d s x =
     (fst x = fst s \<and> opt_ok (has_blob d) (s_blob_id (snd x)) \<and>
      read_text E d (s_inline (snd x)) (s_blob_id (snd x)) = Inr (snd s))"

lemma stored_as_mono:
  "codec_ok E \<Longrightarrow> blobs_ok E d \<Longrightarrow> blobs_ok E d' \<Longrightarrow> only_blobs d d' \<Longrightarrow> stored_as E d s x \<Longrightarrow> stored_as E d' s x"
  unfolding stored_as_def using read_text_mono opt_ok_mono by (metis only_blobs_def)

lemma store_steps_Inr:
  assumes co: "codec_ok E" and "blobs_ok E d"
  shows "\<exists>xs d'. store_steps E sts d = Inr (xs, d') \<and> blobs_ok E d' \<and> only_blobs d d' \<and>
           list_all2 (stored_as E d') sts xs"
  using assms(2)
proof (induction sts arbitrary: d)
  case Nil
  then show ?case by simp
next
  case (Cons s rest)
  obtain t dt where s: "s = (t, dt)" by (cases s)
  obtain x d1 where d1: "store_text_content E dt d = Inr (x, d1)" "blobs_ok E d1" "only_blobs d d1"
      "opt_ok (has_blob d1) (s_blob_id x)" "read_text E d1 (s_inline x) (s_blob_id x) = Inr dt"
    using store_text_Inr [OF co Cons.prems] .
  obtain xs d2 where d2: "store_steps E rest d1 = Inr (xs, d2)" "blobs_ok E d2" "only_blobs d1 d2"
      "list_all2 (stored_as E d2) rest xs"
    using Cons.IH [OF d1(2)] by blast
  have "stored_as E d2 s (t, x)"
    by (rule stored_as_mono [OF co d1(2) d2(2,3)]) (simp add: stored_as_def s d1)
  then show ?case using d1 d2 only_blobs_trans [OF d1(3) d2(3)] by (auto simp: s)
qed

lemma new_step_rows_props:
  "r \<in> set (new_step_rows c now p xs) \<Longrightarrow>
   st_conversation_id r = c \<and> p \<le> st_position r \<and> st_status r = ''pending'' \<and>
   st_evidence_run_id r = None \<and> (\<exists>x \<in> set xs. st_detail_blob_id r = s_blob_id (snd x))"
  by (induction c now p xs rule: new_step_rows.induct) fastforce+

lemma insert_steps_Inr:
  assumes "c \<in> at_conversation_id ` set (active_tasks d)"
    and "\<forall>s \<in> set (active_task_steps d). st_conversation_id s = c \<longrightarrow> st_position s < p"
    and "\<forall>x \<in> set xs. opt_ok (has_blob d) (s_blob_id (snd x))" and "1 \<le> p"
  shows "insert_steps (new_step_rows c now p xs) d =
           Inr (d\<lparr>active_task_steps := active_task_steps d @ new_step_rows c now p xs\<rparr>)"
  using assms
proof (induction xs arbitrary: p d)
  case Nil
  then show ?case by simp
next
  case (Cons x xs)
  obtain t y where x: "x = (t, y)" by (cases x)
  let ?r = "\<lparr>st_conversation_id = c, st_position = p, st_title = t, st_detail_inline = s_inline y,
      st_detail_blob_id = s_blob_id y, st_status = ''pending'', st_evidence_run_id = None,
      st_evidence_summary = [], st_updated_at = now\<rparr>"
  let ?d = "d\<lparr>active_task_steps := active_task_steps d @ [?r]\<rparr>"
  have new: "(c, p) \<notin> (\<lambda>r. (st_conversation_id r, st_position r)) ` set (active_task_steps d)"
    using Cons.prems(2) by auto
  have ins: "insert_step ?r d = Inr ?d"
    using Cons.prems(1,3,4) new by (simp add: insert_step_def status_check_def x)
  have "insert_steps (new_step_rows c now (p + 1) xs) ?d =
      Inr (?d\<lparr>active_task_steps := active_task_steps ?d @ new_step_rows c now (p + 1) xs\<rparr>)"
  proof (rule Cons.IH)
    show "\<forall>s \<in> set (active_task_steps ?d). st_conversation_id s = c \<longrightarrow> st_position s < p + 1"
      using Cons.prems(2) by auto
    have "has_blob ?d = has_blob d" by (rule has_blob_cong) simp
    then show "\<forall>x \<in> set xs. opt_ok (has_blob ?d) (s_blob_id (snd x))" using Cons.prems(3) by simp
  qed (use Cons.prems in simp_all)
  then show ?case using ins by (simp add: x)
qed

lemma new_step_rows_steps:
  "list_all2 (stored_as E d) sts xs \<Longrightarrow> map (step_of_row E d) (new_step_rows c now p xs) = new_steps p sts"
proof (induction sts xs arbitrary: p rule: list_all2_induct)
  case Nil
  then show ?case by simp
next
  case (Cons s sts x xs)
  have "status_of ''pending'' = PENDING" using status_of_value [of PENDING] by simp
  with Cons show ?case
    by (cases s; cases x) (simp add: step_of_row_def stored_as_def text_of_def)
qed

lemma new_step_rows_numbered: "numbered st_position (new_step_rows c now 1 xs)"
proof -
  have len: "length (new_step_rows c now p xs) = length xs" for p
    by (induction xs arbitrary: p) auto
  have "i < length xs \<Longrightarrow> st_position (new_step_rows c now p xs ! i) = p + int i" for i p
  proof (induction xs arbitrary: i p)
    case (Cons x xs)
    then show ?case by (cases x; cases i) auto
  qed simp
  then show ?thesis by (intro numberedI) (simp add: len)
qed

definition with_task :: "active_task_row \<Rightarrow> active_task_step_row list \<Rightarrow> db \<Rightarrow> db" where
  "with_task r ss d =
     d\<lparr>active_tasks := active_tasks d @ [r], active_task_steps := active_task_steps d @ ss\<rparr>"

lemma with_task_frame [simp]:
  "binding_of (with_task r ss d) c = binding_of d c"
  "blobs (with_task r ss d) = blobs d"
  "files (with_task r ss d) = files d"
  "runs (with_task r ss d) = runs d"
  "conversations (with_task r ss d) = conversations d"
  "task_run_bindings (with_task r ss d) = task_run_bindings d"
  by (simp_all add: with_task_def binding_of_def)

lemma with_task_rows:
  assumes "task_row d (at_conversation_id r) = None"
  shows "task_row (with_task r ss d) c = (if c = at_conversation_id r then Some r else task_row d c)"
  using assms by (auto simp: task_row_def with_task_def)

lemma select_none: "(\<And>x. x \<in> set t \<Longrightarrow> \<not> P x) \<Longrightarrow> select P t = []"
  by (simp add: select_def filter_empty_conv)

lemma select_all: "(\<And>x. x \<in> set t \<Longrightarrow> P x) \<Longrightarrow> select P t = t"
  by (simp add: select_def)

lemma with_task_steps:
  assumes wf: "db_wf E d" and none: "task_row d (at_conversation_id r) = None"
    and ss: "\<And>s. s \<in> set ss \<Longrightarrow> st_conversation_id s = at_conversation_id r"
  shows "step_rows (with_task r ss d) c = (if c = at_conversation_id r then ss else step_rows d c)"
proof -
  have "st_conversation_id s \<noteq> at_conversation_id r" if "s \<in> set (active_task_steps d)" for s
  proof -
    have "step_row_ok d s" using wf that by (simp add: db_wf_def)
    then show ?thesis using none unfolding step_row_ok_def task_row_None by metis
  qed
  then have "select (\<lambda>s. st_conversation_id s = at_conversation_id r) (active_task_steps d) = []"
    by (rule select_none)
  moreover have "select (\<lambda>s. st_conversation_id s = c) ss = (if c = at_conversation_id r then ss else [])"
    using ss by (auto intro: select_all select_none)
  ultimately show ?thesis by (auto simp: step_rows_def with_task_def)
qed

lemma db_wf_with_task:
  assumes wf: "db_wf E d" and none: "task_row d (at_conversation_id r) = None"
    and gen: "at_generation_id r \<notin> at_generation_id ` set (active_tasks d)"
    and conv: "at_conversation_id r \<in> set (conversations d)"
    and bl: "opt_ok (has_blob d) (at_detail_blob_id r)" and tm: "0 < at_created_at r" "0 < at_updated_at r"
    and num: "numbered st_position ss"
    and ss: "\<And>s. s \<in> set ss \<Longrightarrow> st_conversation_id s = at_conversation_id r \<and>
               opt_ok (has_blob d) (st_detail_blob_id s) \<and> status_check (st_status s)"
  shows "db_wf E (with_task r ss d)"
proof -
  let ?d = "with_task r ss d"
  have hb: "has_blob ?d = has_blob d" by (rule has_blob_cong) simp
  have hr: "has_run ?d = has_run d" by (rule has_run_cong) simp
  have bo: "blobs_ok E ?d = blobs_ok E d" by (rule blobs_ok_cong) simp_all
  have st: "step_rows ?d c = (if c = at_conversation_id r then ss else step_rows d c)" for c
    using with_task_steps [OF wf none] ss by blast
  have "keys_ok ?d"
    using wf none gen by (simp add: keys_ok_def db_wf_def task_row_None) (simp add: with_task_def)
  moreover have "task_row_ok ?d x" if "x \<in> set (active_tasks ?d)" for x
  proof -
    have "x = r \<or> x \<in> set (active_tasks d)" using that by (auto simp: with_task_def)
    moreover have "x \<in> set (active_tasks d) \<Longrightarrow> at_conversation_id x \<noteq> at_conversation_id r"
      using none unfolding task_row_None by (metis imageI)
    ultimately show ?thesis
      using wf conv bl tm num by (auto simp: task_row_ok_def hb st db_wf_def)
  qed
  moreover have "step_row_ok ?d s" if "s \<in> set (active_task_steps ?d)" for s
  proof -
    have "s \<in> set ss \<or> s \<in> set (active_task_steps d)" using that by (auto simp: with_task_def)
    then have "opt_ok (has_blob d) (st_detail_blob_id s) \<and> status_check (st_status s) \<and>
        (st_conversation_id s = at_conversation_id r \<or>
         st_conversation_id s \<in> at_conversation_id ` set (active_tasks d))"
      using ss [of s] wf by (auto simp: step_row_ok_def db_wf_def)
    then show ?thesis unfolding step_row_ok_def hb by (auto simp: with_task_def)
  qed
  moreover have "binding_ok ?d b" if "b \<in> set (task_run_bindings ?d)" for b
  proof -
    have "binding_ok d b" using that wf by (simp add: db_wf_def)
    then show ?thesis unfolding binding_ok_def hr by (auto simp: with_task_def)
  qed
  ultimately show ?thesis using wf bo by (simp add: db_wf_def)
qed

lemma generation_in_abs:
  assumes wf: "db_wf E d" and "r \<in> set (active_tasks d)"
  shows "\<exists>t. db_abs E d (at_conversation_id r) = Some t \<and> a_generation t = at_generation_id r"
proof -
  have dist: "distinct (map at_conversation_id (active_tasks d))" using wf by (simp add: db_wf_def keys_ok_def)
  have "task_row d (at_conversation_id r) = Some r"
    using fetchone_unique_key [OF dist assms(2) refl] by (simp add: task_row_def)
  then show ?thesis by (simp add: db_abs_def abs_row_def)
qed

lemma sql_create_new:
  assumes inv: "db_inv E d" and none: "db_abs E d c = None" and conv: "c \<in> set (conversations d)"
    and run: "opt_ok (has_run d c) run"
    and fresh: "\<And>c' t. db_abs E d c' = Some t \<Longrightarrow> a_generation t \<noteq> generation_of uuid"
    and now: "0 < now" and ne: "prepared \<noteq> []" and le: "length prepared \<le> 64"
    and nt: "nt = spec_new (generation_of uuid) now ttl dt prepared run tool"
  shows "\<exists>d'. sql_create_task E uuid now c ttl dt prepared run tool d = (Inr (task_of c ''idle'' nt), d') \<and>
            db_inv E d' \<and> db_abs E d' = (db_abs E d)(c \<mapsto> nt)"
proof -
  let ?g = "generation_of uuid"
  have wf: "db_wf E d" using inv by (rule db_inv_wf)
  have co: "codec_ok E" "blobs_ok E d" using wf by (simp_all add: db_wf_def)
  obtain x d1 where d1: "store_text_content E dt d = Inr (x, d1)" "blobs_ok E d1" "only_blobs d d1"
      "opt_ok (has_blob d1) (s_blob_id x)" "read_text E d1 (s_inline x) (s_blob_id x) = Inr dt"
    using store_text_Inr [OF co] .
  obtain xs d2 where d2: "store_steps E prepared d1 = Inr (xs, d2)" "blobs_ok E d2" "only_blobs d1 d2"
      "list_all2 (stored_as E d2) prepared xs"
    using store_steps_Inr [OF co(1) d1(2)] by blast
  have ob: "only_blobs d d2" using only_blobs_trans d1(3) d2(3) .
  have inv2: "db_inv E d2" "db_abs E d2 = db_abs E d" using only_blobs_inv [OF inv ob d2(2)] by auto
  have wf2: "db_wf E d2" using inv2(1) by (rule db_inv_wf)
  have sx: "stored_as E d2 ([], dt) ([], x)"
    by (rule stored_as_mono [OF co(1) d1(2) d2(2,3)]) (simp add: stored_as_def d1)
  have row2: "task_row d2 c = None" using none inv2(2) by (simp add: db_abs_def fun_eq_iff) (metis option.map_disc_iff)
  let ?r = "\<lparr>at_conversation_id = c, at_generation_id = ?g, at_revision = 0, at_title = ttl,
     at_detail_inline = s_inline x, at_detail_blob_id = s_blob_id x, at_created_by_run_id = run,
     at_created_by_tool_call_id = tool, at_created_at = now, at_updated_at = now\<rparr>"
  let ?ss = "new_step_rows c now 1 xs"
  let ?d = "with_task ?r ?ss d2"
  have gen: "?g \<notin> at_generation_id ` set (active_tasks d2)"
    using generation_in_abs [OF wf2] fresh inv2(2) by fastforce
  have run2: "opt_ok (has_run d2 c) run" using run has_run_cong [OF only_blobs_frame(2) [OF ob]] by simp
  have conv2: "c \<in> set (conversations d2)" using conv only_blobs_frame(1) [OF ob] by simp
  have bx: "opt_ok (has_blob d2) (s_blob_id x)" using sx by (simp add: stored_as_def)
  have bxs: "\<forall>y \<in> set xs. opt_ok (has_blob d2) (s_blob_id (snd y))"
  proof
    fix y assume "y \<in> set xs"
    then obtain i where "i < length xs" "y = xs ! i" by (metis in_set_conv_nth)
    then show "opt_ok (has_blob d2) (s_blob_id (snd y))"
      using list_all2_nthD2 [OF d2(4)] by (simp add: stored_as_def)
  qed
  let ?d3 = "d2\<lparr>active_tasks := active_tasks d2 @ [?r]\<rparr>"
  have ins: "insert_active_task ?r d2 = Inr ?d3"
    using conv2 bx run2 gen row2 by (simp add: insert_active_task_def task_row_None)
  have "insert_steps ?ss ?d3 = Inr (?d3\<lparr>active_task_steps := active_task_steps ?d3 @ ?ss\<rparr>)"
  proof (rule insert_steps_Inr)
    show "\<forall>s \<in> set (active_task_steps ?d3). st_conversation_id s = c \<longrightarrow> st_position s < 1"
      using wf2 row2 by (auto simp: db_wf_def step_row_ok_def task_row_None)
    have "has_blob ?d3 = has_blob d2" by (rule has_blob_cong) simp
    then show "\<forall>x \<in> set xs. opt_ok (has_blob ?d3) (s_blob_id (snd x))" using bxs by simp
  qed simp_all
  then have steps: "insert_steps ?ss ?d3 = Inr ?d" by (simp add: with_task_def)
  have ss: "st_conversation_id s = c \<and> opt_ok (has_blob d2) (st_detail_blob_id s) \<and> status_check (st_status s)"
    if "s \<in> set ?ss" for s
    using new_step_rows_props [OF that] bxs by (auto simp: status_check_def)
  have wf3: "db_wf E ?d"
    by (rule db_wf_with_task [OF wf2]) (use row2 gen conv2 bx now ss new_step_rows_numbered in simp_all)
  have rows3: "step_rows ?d c' = (if c' = c then ?ss else step_rows d2 c')" for c'
    using with_task_steps [OF wf2, of ?r ?ss c'] row2 ss by simp
  have unb: "binding_of d2 c = None"
  proof (rule ccontr)
    assume "binding_of d2 c \<noteq> None"
    then obtain b where "b \<in> set (task_run_bindings d2)" "b_conversation_id b = c"
      by (auto simp: binding_of_None)
    then show False using bound_run_in_abs [OF wf2] row2 by (fastforce simp: db_abs_def)
  qed
  have "abs_row E d2 ?r ?ss None = nt"
    using new_step_rows_steps [OF d2(4), of c now 1] sx
    by (simp add: abs_row_def nt spec_new_def text_of_def stored_as_def)
  then have abs3: "db_abs E ?d = (db_abs E d)(c \<mapsto> nt)"
    unfolding inv2(2) [symmetric]
    by (intro db_abs_upd [where r = ?r]) (simp_all add: with_task_rows row2 rows3 unb)
  then have t3: "db_abs E ?d c = Some nt" by simp
  have inv3: "db_inv E ?d"
    by (rule db_inv_upd [OF inv wf3 abs3]) (use task_ok_new [OF ne le now] nt in simp)
  obtain td where td: "get_active_task_in_connection E ?d c = Inr (Some td)"
      "\<forall>now. from_row now td = Inr (task_of c (shown_state ?d c) nt)"
      "snapshot_from_dict (public_task_snapshot td) = Inr (Some (snapshot_of nt))"
      "public_task_snapshot td = snapshot_public_dict (snapshot_of nt)"
      "td_created_by_tool_call_id td = a_tool_call nt"
    using wf3 t3 by (rule read_abs_task)
  have idle: "shown_state ?d c = ''idle''" using unb by (intro shown_state_unbound [OF wf3]) simp
  have "create_task_body E ?g now c ttl x xs run tool d2 = Inr (td, ?d)"
    using ins steps td(1) by (simp add: create_task_body_def read_task_None [OF row2])
  then have "sql_create_task E uuid now c ttl dt prepared run tool d = (Inr (task_of c ''idle'' nt), ?d)"
    using td(2) idle by (simp add: sql_create_task_def repo_create_task_def d1(1) d2(1) transaction_def)
  with inv3 abs3 show ?thesis by blast
qed

lemma sql_create_existing:
  assumes inv: "db_inv E d" and t: "db_abs E d c = Some t"
  shows "\<exists>ex d'. sql_create_task E uuid now c ttl dt prepared run tool d =
     (if truthy_opt tool \<and> a_tool_call t = tool then Inr (task_of c ex t)
      else Inl (ActiveTaskConflictError ''conversation already has an active task''), d') \<and>
     db_inv E d' \<and> db_abs E d' = db_abs E d"
proof -
  have wf: "db_wf E d" using inv by (rule db_inv_wf)
  have co: "codec_ok E" "blobs_ok E d" using wf by (simp_all add: db_wf_def)
  obtain x d1 where d1: "store_text_content E dt d = Inr (x, d1)" "blobs_ok E d1" "only_blobs d d1"
    using store_text_Inr [OF co] by metis
  obtain xs d2 where d2: "store_steps E prepared d1 = Inr (xs, d2)" "blobs_ok E d2" "only_blobs d1 d2"
    using store_steps_Inr [OF co(1) d1(2)] by blast
  have ob: "only_blobs d d2" using only_blobs_trans d1(3) d2(3) .
  have inv2: "db_inv E d2" "db_abs E d2 = db_abs E d" using only_blobs_inv [OF inv ob d2(2)] by auto
  have t2: "db_abs E d2 c = Some t" using t inv2(2) by simp
  obtain td where td: "get_active_task_in_connection E d2 c = Inr (Some td)"
      "\<forall>now. from_row now td = Inr (task_of c (shown_state d2 c) t)"
      "snapshot_from_dict (public_task_snapshot td) = Inr (Some (snapshot_of t))"
      "public_task_snapshot td = snapshot_public_dict (snapshot_of t)"
      "td_created_by_tool_call_id td = a_tool_call t"
    using db_inv_wf [OF inv2(1)] t2 by (rule read_abs_task)
  have "sql_create_task E uuid now c ttl dt prepared run tool d =
     (if truthy_opt tool \<and> a_tool_call t = tool then Inr (task_of c (shown_state d2 c) t)
      else Inl (ActiveTaskConflictError ''conversation already has an active task''), d2)"
    using td(2) by (simp add: sql_create_task_def repo_create_task_def d1(1) d2(1) transaction_def
        create_task_body_def td(1,5))
  with inv2 show ?thesis by blast
qed

text \<open>The SQLite operations meet the contract.\<close>

interpretation sql: task_store "db_abs E" "db_inv E" "\<lambda>d c. c \<in> set (conversations d)" has_run
  "sql_create_task E" "sql_set_step_result E" sql_cancel_task sql_bind_run
  "\<lambda>now c. sql_handle_run_finished E now" sql_refusal_error for E
proof (unfold_locales, goal_cases)
  case 1 then show ?case by (rule db_inv_task_ok)
next
  case 2 then show ?case by (rule sql_create_new)
next
  case (3 d c t tool)
  then show ?case using sql_create_existing [OF 3(1,2), of _ _ _ _ _ _ tool] by force
next
  case (4 d c t tool)
  then show ?case using sql_create_existing [OF 4(1,2), of _ _ _ _ _ _ tool] by force
next
  case 5 then show ?case by (rule sql_set_step_ok)
next
  case 6 then show ?case by (intro sql_set_step_refused)
next
  case 7 then show ?case by (rule sql_set_step_unknown_run)
next
  case 8 then show ?case by (rule sql_cancel_ok)
next
  case 9 then show ?case by (intro sql_cancel_refused)
next
  case 10 then show ?case by (rule sql_bind_ok)
next
  case 11 then show ?case by (rule sql_bind_fail)
next
  case 12 then show ?case by (rule sql_finish_ok)
next
  case 13 then show ?case by (rule sql_finish_unbound)
qed

end
