(* ===== verification/TaskAgree.thy ===== *)
theory TaskAgree
  imports TaskMem TaskSqlOps
begin

text \<open>
  \<open>agree\<close> relates an in-memory backend and a repository that hold the same abstract tasks;
  the operations of the two keep it and answer the same, because both meet the contract
  \<open>task_store\<close>.  A concrete pair of backends serves the witnesses.
\<close>

section \<open>Both backends\<close>

definition backend_inv :: "codec \<Rightarrow> task_backend \<Rightarrow> bool" where
  "backend_inv E b = (case b of InMemory s \<Rightarrow> mem_inv s | Repository d \<Rightarrow> db_inv E d)"

definition backend_abs :: "codec \<Rightarrow> task_backend \<Rightarrow> string \<Rightarrow> abs_task option" where
  "backend_abs E b = (case b of InMemory s \<Rightarrow> mem_abs s | Repository d \<Rightarrow> db_abs E d)"

definition agree :: "codec \<Rightarrow> mem_state \<Rightarrow> db \<Rightarrow> bool" where
  "agree E s d = (mem_inv s \<and> db_inv E d \<and> mem_abs s = db_abs E d)"

text \<open>
  The same value, or the same exception.  The backends differ in two exceptions: the id in the
  message of a missing task is quoted by the repository, and the repository lets the
  \<open>ValueError\<close> for a completed step through where the in-memory service raises a conflict.
\<close>

definition same_error :: "pyerr \<Rightarrow> pyerr \<Rightarrow> bool" where
  "same_error e e' =
     (e' = e \<or>
      (case e of
         ActiveTaskNotFoundError m \<Rightarrow> e' = ActiveTaskNotFoundError (repr_str m)
       | ActiveTaskConflictError m \<Rightarrow>
           m = ''completed task steps are immutable'' \<and> e' = ValueError m
       | _ \<Rightarrow> False))"

definition same_answer :: "'a result \<Rightarrow> 'a result \<Rightarrow> bool" where
  "same_answer x y =
     (case x of
        Inr v \<Rightarrow> y = Inr v
      | Inl e \<Rightarrow> (case y of Inr _ \<Rightarrow> False | Inl e' \<Rightarrow> same_error e e'))"

definition agree_after :: "codec \<Rightarrow> 'a result \<times> task_backend \<Rightarrow> 'a result \<times> task_backend \<Rightarrow> bool" where
  "agree_after E x y =
     (same_answer (fst x) (fst y) \<and>
      (case (snd x, snd y) of (InMemory s, Repository d) \<Rightarrow> agree E s d | _ \<Rightarrow> False))"

lemma same_answer_simps [simp]:
  "same_answer (Inr v) y = (y = Inr v)"
  "same_answer (Inl e) (Inl e') = same_error e e'"
  "same_answer (Inl e) (Inr w) = False"
  by (simp_all add: same_answer_def)

lemma same_error_refl [simp]: "same_error e e"
  by (simp add: same_error_def)

lemma same_refusal [simp]: "same_error (mem_refusal_error c rf) (sql_refusal_error c rf)"
  by (cases rf) (simp_all add: same_error_def)

lemma on_backend_simps [simp]:
  "on_backend f g (InMemory s) = (fst (f s), InMemory (snd (f s)))"
  "on_backend f g (Repository d) = (fst (g d), Repository (snd (g d)))"
  by (simp_all add: on_backend_def split: prod.split)

lemma agree_after_same: "agree E s d \<Longrightarrow> agree_after E (Inl e, InMemory s) (Inl e, Repository d)"
  by (simp add: agree_after_def)

lemma agree_after_if:
  "(P \<Longrightarrow> agree_after E x y) \<Longrightarrow> (\<not> P \<Longrightarrow> agree_after E x' y') \<Longrightarrow>
   agree_after E (if P then x else x') (if P then y else y')"
  by simp

lemma step_number_pos: "step_number v = Inr p \<Longrightarrow> 1 \<le> p"
  by (auto simp: step_number_def split: sum.splits if_splits)

lemma prepare_steps_bounds:
  "prepare_steps items = Inr prepared \<Longrightarrow> prepared \<noteq> [] \<and> length prepared \<le> 64 \<and> length prepared = length items"
  by (auto simp: prepare_steps_def bind_result_eq_Inr dest: mapM_result_length split: if_splits)

lemma opt_ok_True [simp]: "opt_ok (\<lambda>r. True) x"
  by (cases x) simp_all

lemma agree_set_step_core:
  assumes ag: "agree E s d" and p: "1 \<le> p" and now: "0 < now" and run: "opt_ok (has_run d c) run"
  shows "agree_after E
     (on_backend (mem_set_step_result now c p st ev run egen erev)
        (sql_set_step_result E now c p st ev run egen erev) (InMemory s))
     (on_backend (mem_set_step_result now c p st ev run egen erev)
        (sql_set_step_result E now c p st ev run egen erev) (Repository d))"
proof (cases "\<exists>t. mem_abs s c = Some t \<and> version_ok t egen erev \<and> set_step_ok t p st")
  case True
  then obtain t where t: "mem_abs s c = Some t" "version_ok t egen erev" "set_step_ok t p st" by blast
  have inv: "mem_inv s" "db_inv E d" "mem_abs s = db_abs E d" using ag by (simp_all add: agree_def)
  from t inv have t': "db_abs E d c = Some t" by simp
  obtain s' where s': "mem_set_step_result now c p st ev run egen erev s =
      (Inr (step_result_of c p st (spec_set_step now p st ev run t)), s')" "mem_inv s'"
      "mem_abs s' = (mem_abs s)(c := retire (spec_set_step now p st ev run t))"
    using mem.set_step_success [OF inv(1) t, of run now ev] now by auto
  obtain d' where d': "sql_set_step_result E now c p st ev run egen erev d =
      (Inr (step_result_of c p st (spec_set_step now p st ev run t)), d')" "db_inv E d'"
      "db_abs E d' = (db_abs E d)(c := retire (spec_set_step now p st ev run t))"
    using sql.set_step_success [OF inv(2) t' t(2,3) run now, of ev] by blast
  show ?thesis by (simp add: agree_after_def agree_def s' d' inv)
next
  case False
  have inv: "mem_inv s" "db_inv E d" "mem_abs s = db_abs E d" using ag by (simp_all add: agree_def)
  then obtain rf where rf: "set_step_refusal (db_abs E d c) egen erev p st = Some rf"
    using set_step_refusal_None [of "db_abs E d c" egen erev p st] False [unfolded inv(3)]
    by (cases "set_step_refusal (db_abs E d c) egen erev p st") simp_all
  then have e: "mem_set_step_result now c p st ev run egen erev s = (Inl (mem_refusal_error c rf), s)"
    using mem.set_step_refused [OF inv(1) p] by (simp add: inv(3))
  have e': "sql_set_step_result E now c p st ev run egen erev d = (Inl (sql_refusal_error c rf), d)"
    using inv(2) p rf by (rule sql.set_step_refused)
  show ?thesis by (simp add: agree_after_def e e' ag)
qed

lemma agree_create_core:
  assumes ag: "agree E s d" and conv: "c \<in> set (conversations d)" and run: "opt_ok (has_run d c) run"
    and fresh: "\<And>c' t. db_abs E d c' = Some t \<Longrightarrow> a_generation t \<noteq> generation_of uuid"
    and norep: "\<And>t. db_abs E d c = Some t \<Longrightarrow> \<not> (truthy_opt tool \<and> a_tool_call t = tool)"
    and now: "0 < now" and pre: "prepared \<noteq> []" "length prepared \<le> 64"
  shows "agree_after E
     (on_backend (mem_create_task uuid now c ttl dt prepared run tool)
        (sql_create_task E uuid now c ttl dt prepared run tool) (InMemory s))
     (on_backend (mem_create_task uuid now c ttl dt prepared run tool)
        (sql_create_task E uuid now c ttl dt prepared run tool) (Repository d))"
proof -
  have inv: "mem_inv s" "db_inv E d" "mem_abs s = db_abs E d" using ag by (simp_all add: agree_def)
  show ?thesis
  proof (cases "db_abs E d c")
    case None
    let ?t = "spec_new (generation_of uuid) now ttl dt prepared run tool"
    obtain s' where s': "mem_create_task uuid now c ttl dt prepared run tool s = (Inr (task_of c ''idle'' ?t), s')"
        "mem_inv s'" "mem_abs s' = (mem_abs s)(c \<mapsto> ?t)"
      using mem.create_new [OF inv(1) _ _ _ _ now pre refl, where c = c and run = run and uuid = uuid
          and ttl = ttl and dt = dt and tool = tool] None fresh
      by (auto simp: inv(3))
    obtain d' where d': "sql_create_task E uuid now c ttl dt prepared run tool d = (Inr (task_of c ''idle'' ?t), d')"
        "db_inv E d'" "db_abs E d' = (db_abs E d)(c \<mapsto> ?t)"
      using sql.create_new [OF inv(2) None conv run _ now pre refl, where uuid = uuid and ttl = ttl
          and dt = dt and tool = tool] fresh by metis
    show ?thesis by (simp add: agree_after_def agree_def s' d' inv)
  next
    case (Some t)
    obtain s' where s': "mem_create_task uuid now c ttl dt prepared run tool s =
        (Inl (ActiveTaskConflictError ''conversation already has an active task''), s')"
        "mem_inv s'" "mem_abs s' = mem_abs s"
      using mem.create_conflict [OF inv(1), of c t tool] norep [OF Some] Some by (metis inv(3))
    obtain d' where d': "sql_create_task E uuid now c ttl dt prepared run tool d =
        (Inl (ActiveTaskConflictError ''conversation already has an active task''), d')"
        "db_inv E d'" "db_abs E d' = db_abs E d"
      using sql.create_conflict [OF inv(2) Some norep [OF Some]] by blast
    show ?thesis by (simp add: agree_after_def agree_def s' d' inv)
  qed
qed

lemma agree_finish_core:
  assumes ag: "agree E s d" and now: "0 < now" and ev: "evidence_agrees st err summary" and st: "st \<noteq> []"
    and conv: "\<And>c' t p. db_abs E d c' = Some t \<Longrightarrow> a_bound t = Some (run, p) \<Longrightarrow> c' = c"
  shows "agree_after E
     (on_backend (mem_handle_run_finished now c run st err summary)
        (sql_handle_run_finished E now run st err summary) (InMemory s))
     (on_backend (mem_handle_run_finished now c run st err summary)
        (sql_handle_run_finished E now run st err summary) (Repository d))"
proof -
  have inv: "mem_inv s" "db_inv E d" "mem_abs s = db_abs E d" using ag by (simp_all add: agree_def)
  show ?thesis
  proof (cases "\<exists>t p. db_abs E d c = Some t \<and> a_bound t = Some (run, p)")
    case True
    then obtain t p where t: "db_abs E d c = Some t" "a_bound t = Some (run, p)" by blast
    let ?t = "spec_finish now run st err summary p t"
    obtain s' where s': "mem_handle_run_finished now c run st err summary s =
        (Inr (Some (finish_outcome_of p st ?t)), s')" "mem_inv s'" "mem_abs s' = (mem_abs s)(c := retire ?t)"
      using mem.finish_bound [OF inv(1) _ t(2) ev st now, of c] t(1) by (auto simp: inv(3))
    obtain d' where d': "sql_handle_run_finished E now run st err summary d =
        (Inr (Some (finish_outcome_of p st ?t)), d')" "db_inv E d'" "db_abs E d' = (db_abs E d)(c := retire ?t)"
      using sql.finish_bound [OF inv(2) t ev st now] by blast
    show ?thesis by (simp add: agree_after_def agree_def s' d' inv)
  next
    case False
    then have no: "\<And>c' t r p. db_abs E d c' = Some t \<Longrightarrow> a_bound t = Some (r, p) \<Longrightarrow> r \<noteq> run"
      using conv by blast
    have "mem_handle_run_finished now c run st err summary s = (Inr None, s)"
      using mem.finish_unbound [OF inv(1)] no by (simp add: inv(3))
    moreover have "sql_handle_run_finished E now run st err summary d = (Inr None, d)"
      by (rule sql.finish_unbound [OF inv(2)]) (rule no)
    ultimately show ?thesis by (simp add: agree_after_def ag)
  qed
qed

lemma agree_cancel_core:
  assumes ag: "agree E s d"
  shows "agree_after E (cancel_commit c g rv (InMemory s)) (cancel_commit c g rv (Repository d))"
proof -
  have inv: "mem_inv s" "db_inv E d" "mem_abs s = db_abs E d" using ag by (simp_all add: agree_def)
  show ?thesis
  proof (cases "\<exists>t. db_abs E d c = Some t \<and> version_ok t (Some g) (Some rv)")
    case True
    then obtain t where t: "db_abs E d c = Some t" "version_ok t (Some g) (Some rv)" by blast
    obtain s' where s': "mem_cancel_task c (Some g) (Some rv) s = (Inr True, s')"
        "mem_inv s'" "mem_abs s' = (mem_abs s)(c := None)"
      using mem.cancel_success [OF inv(1) _ t(2)] t(1) by (auto simp: inv(3))
    obtain d' where d': "sql_cancel_task c (Some g) (Some rv) d = (Inr True, d')"
        "db_inv E d'" "db_abs E d' = (db_abs E d)(c := None)"
      using sql.cancel_success [OF inv(2) t] by blast
    show ?thesis by (simp add: agree_after_def agree_def cancel_commit_def s' d' inv)
  next
    case False
    then obtain rf where rf: "version_refusal (db_abs E d c) (Some g) (Some rv) = Some rf"
      using version_refusal_None [of "db_abs E d c" "Some g" "Some rv"]
      by (cases "version_refusal (db_abs E d c) (Some g) (Some rv)") auto
    then have e: "mem_cancel_task c (Some g) (Some rv) s = (Inl (mem_refusal_error c rf), s)"
      using mem.cancel_refused [OF inv(1)] by (simp add: inv(3))
    have e': "sql_cancel_task c (Some g) (Some rv) d = (Inl (sql_refusal_error c rf), d)"
      using inv(2) rf by (rule sql.cancel_refused)
    show ?thesis by (simp add: agree_after_def cancel_commit_def e e' ag)
  qed
qed

lemma task_of_run [simp]:
  "active_run_id (task_of c ex t) = map_option fst (a_bound t)"
  "active_step (task_of c ex t) = map_option snd (a_bound t)"
  by (simp_all add: task_of_def)

lemma with_run_state_task_of:
  "\<exists>ex'. with_current_run_state rm (Some (task_of c ex t)) = Some (task_of c ex' t)"
proof -
  have "(task_of c ex t)\<lparr>execution_state := x\<rparr> = task_of c x t" for x by (simp add: task_of_def)
  then show ?thesis by (simp add: with_current_run_state_def Let_def) blast
qed

lemma shown_tasks:
  assumes "agree E s d"
  shows "get_active_task E rm now (Repository d) c = Inr (map_option (task_of c (shown_state d c)) (db_abs E d c))"
    and "\<exists>ex. get_active_task E rm now (InMemory s) c = Inr (map_option (task_of c ex) (db_abs E d c))"
proof -
  have inv: "mem_inv s" "db_inv E d" "mem_abs s = db_abs E d" using assms by (simp_all add: agree_def)
  show "get_active_task E rm now (Repository d) c = Inr (map_option (task_of c (shown_state d c)) (db_abs E d c))"
    using sql_get_active_task [OF db_inv_wf [OF inv(2)]] by (simp add: get_active_task_def)
  show "\<exists>ex. get_active_task E rm now (InMemory s) c = Inr (map_option (task_of c ex) (db_abs E d c))"
  proof (cases "mem_abs s c")
    case None
    then show ?thesis using mem_abs_NoneD [OF inv(1) None]
      by (simp add: get_active_task_def with_current_run_state_def flip: inv(3))
  next
    case (Some t)
    then show ?thesis using mem_abs_SomeD [OF inv(1) Some] with_run_state_task_of [of rm c "stored_state t" t]
      by (simp add: get_active_task_def flip: inv(3))
  qed
qed

lemma cancel_check_agree:
  assumes "agree E s d"
  shows "cancel_check E rm now c reason egen erev (InMemory s) = cancel_check E rm now c reason egen erev (Repository d)"
proof (cases "db_abs E d c")
  case None
  then show ?thesis using shown_tasks [OF assms, of rm now c] by (auto simp: cancel_check_def)
next
  case (Some t)
  then show ?thesis using shown_tasks [OF assms, of rm now c]
    by (auto simp: cancel_check_def split: option.split)
qed

section \<open>A concrete pair of backends\<close>

text \<open>
  One conversation with one run, and the task with two steps that both backends create from
  the same call.
\<close>

definition demo_codec :: codec where
  "demo_codec = \<lparr>sha256 = (\<lambda>x. CHR ''h'' # x), gzip_compress = (\<lambda>x. x), gzip_decompress = (\<lambda>x. x)\<rparr>"

definition demo_run :: run_row where
  "demo_run = \<lparr>r_id = ''r1'', r_conversation_id = ''c1'', r_kind = ''chat'', r_status = ''running'',
     r_created_by = None, r_cancellation_parent = None, r_anchor_node = None, r_target_node = None,
     r_summary = [], r_metadata_json = None, r_event_count = 0, r_created_at = 1, r_updated_at = 1,
     r_finished_at = None, r_idempotency_key = None, r_request_fingerprint = None\<rparr>"

definition demo_db :: db where
  "demo_db = db_empty\<lparr>conversation_rows := [plain_conversation ''c1'' 1], runs := [demo_run]\<rparr>"

definition demo_steps :: "(string \<times> string) list" where
  "demo_steps = [(''plan'', []), (''build'', [])]"

definition demo_mem1 :: mem_state where
  "demo_mem1 = snd (mem_create_task ''u1'' 5 ''c1'' ''Ship'' [] demo_steps None None mem_init)"

definition demo_db1 :: db where
  "demo_db1 = snd (sql_create_task demo_codec ''u1'' 5 ''c1'' ''Ship'' [] demo_steps None None demo_db)"

definition demo_task :: abs_task where
  "demo_task = spec_new (generation_of ''u1'') 5 ''Ship'' [] demo_steps None None"

lemma demo_codec_ok: "codec_ok demo_codec"
  by (simp add: codec_ok_def demo_codec_def inj_def)

lemma demo_db_abs: "db_abs demo_codec demo_db = Map.empty"
  by (simp add: fun_eq_iff db_abs_def task_row_def demo_db_def db_empty_def plain_conversation_def)

lemma demo_db_inv: "db_inv demo_codec demo_db"
  by (simp add: db_inv_def db_wf_def demo_db_abs demo_codec_ok)
    (simp add: blobs_ok_def keys_ok_def demo_db_def db_empty_def plain_conversation_def)

lemma demo_agree0: "agree demo_codec mem_init demo_db"
  by (simp add: agree_def mem_init_inv demo_db_inv demo_db_abs)
    (simp add: mem_abs_def mem_init_def fun_eq_iff)

lemma demo_agree: "agree demo_codec demo_mem1 demo_db1"
proof -
  have "agree_after demo_codec
     (on_backend (mem_create_task ''u1'' 5 ''c1'' ''Ship'' [] demo_steps None None)
        (sql_create_task demo_codec ''u1'' 5 ''c1'' ''Ship'' [] demo_steps None None) (InMemory mem_init))
     (on_backend (mem_create_task ''u1'' 5 ''c1'' ''Ship'' [] demo_steps None None)
        (sql_create_task demo_codec ''u1'' 5 ''c1'' ''Ship'' [] demo_steps None None) (Repository demo_db))"
    by (rule agree_create_core [OF demo_agree0]) (simp_all add: demo_db_abs, simp_all add: demo_db_def db_empty_def plain_conversation_def demo_steps_def)
  then show ?thesis by (simp add: agree_after_def demo_mem1_def demo_db1_def)
qed

lemma demo_mem1_abs: "mem_abs demo_mem1 = [''c1'' \<mapsto> demo_task]"
proof -
  have none: "mem_abs mem_init = Map.empty" by (simp add: mem_abs_def mem_init_def fun_eq_iff)
  obtain s' where "mem_create_task ''u1'' 5 ''c1'' ''Ship'' [] demo_steps None None mem_init =
      (Inr (task_of ''c1'' ''idle'' demo_task), s')" "mem_abs s' = (mem_abs mem_init)(''c1'' \<mapsto> demo_task)"
    using mem_create_new [OF mem_init_inv _ _ _ _ demo_task_def, of "''c1''"]
    by (auto simp: none demo_steps_def)
  then show ?thesis by (simp add: demo_mem1_def none)
qed

lemma demo_db1_abs: "db_abs demo_codec demo_db1 = [''c1'' \<mapsto> demo_task]"
  using demo_agree demo_mem1_abs by (simp add: agree_def)

text \<open>Creating a task leaves the runs and the conversations alone.\<close>

lemma insert_steps_frame:
  "insert_steps rows d = Inr d' \<Longrightarrow> runs d' = runs d \<and> conversations d' = conversations d"
proof (induction rows d rule: insert_steps.induct)
  case (1 d)
  then show ?case by simp
next
  case (2 row rows d)
  then obtain d1 where d1: "insert_step row d = Inr d1" "insert_steps rows d1 = Inr d'"
    by (auto simp: bind_result_eq_Inr)
  then have "runs d1 = runs d \<and> conversations d1 = conversations d"
    by (auto simp: insert_step_def split: if_splits)
  with 2(1) [OF d1(2)] show ?case by simp
qed

lemma store_text_frame:
  "store_text_content E t d = Inr (x, d') \<Longrightarrow> runs d' = runs d \<and> conversations d' = conversations d"
  by (auto simp: store_text_content_def put_text_def Let_def split: if_splits)

lemma store_steps_frame:
  "store_steps E sts d = Inr (xs, d') \<Longrightarrow> runs d' = runs d \<and> conversations d' = conversations d"
proof (induction sts arbitrary: d xs d')
  case Nil
  then show ?case by simp
next
  case (Cons s rest)
  obtain t dt where s: "s = (t, dt)" by (cases s)
  from Cons.prems obtain x d1 ys where d1: "store_text_content E dt d = Inr (x, d1)"
      "store_steps E rest d1 = Inr (ys, d')"
    by (auto simp: s split: sum.splits)
  show ?case using store_text_frame [OF d1(1)] Cons.IH [OF d1(2)] by simp
qed

lemma create_body_frame:
  "create_task_body E g now c ttl x xs run tool d = Inr (td, d') \<Longrightarrow>
   runs d' = runs d \<and> conversations d' = conversations d"
proof -
  assume body: "create_task_body E g now c ttl x xs run tool d = Inr (td, d')"
  have "d' = d \<or> (\<exists>row rows d1. insert_active_task row d = Inr d1 \<and> insert_steps rows d1 = Inr d')"
    using body by (auto simp: create_task_body_def bind_result_eq_Inr split: option.splits if_splits)
  then show ?thesis
    by (auto simp: insert_active_task_def split: if_splits dest: insert_steps_frame)
qed

lemma sql_create_frame:
  assumes "sql_create_task E uuid now c ttl dt prepared run tool d = (r, d')"
  shows "runs d' = runs d \<and> conversations d' = conversations d"
proof -
  let ?body = "\<lambda>x xs. create_task_body E (generation_of uuid) now c ttl x xs run tool"
  have "d' = snd (repo_create_task E uuid now c ttl dt prepared run tool d)"
    using assms by (simp add: sql_create_task_def split: prod.splits)
  then consider "d' = d" | x d1 where "store_text_content E dt d = Inr (x, d1)" "d' = d1"
    | x d1 xs d2 where "store_text_content E dt d = Inr (x, d1)" "store_steps E prepared d1 = Inr (xs, d2)"
        "d' = d2 \<or> (\<exists>td. ?body x xs d2 = Inr (td, d'))"
    by (auto simp: repo_create_task_def transaction_def split: sum.splits prod.splits)
  then show ?thesis
  proof cases
    case 3
    then show ?thesis
      using store_text_frame [OF 3(1)] store_steps_frame [OF 3(2)] create_body_frame by fastforce
  qed (simp_all add: store_text_frame)
qed

lemma demo_db1_runs: "runs demo_db1 = [demo_run]" "conversations demo_db1 = [''c1'']"
  using sql_create_frame [of demo_codec "''u1''" 5 "''c1''" "''Ship''" "[]" demo_steps None None demo_db]
  by (cases "sql_create_task demo_codec ''u1'' 5 ''c1'' ''Ship'' [] demo_steps None None demo_db";
      simp add: demo_db1_def demo_db_def db_empty_def plain_conversation_def)+

text \<open>The task with run \<open>r1\<close> bound to its first step.\<close>

definition demo_binding :: task_binding where
  "demo_binding = \<lparr>tb_conversation_id = ''c1'', tb_task_generation_id = generation_of ''u1'',
     tb_step_position = 1, tb_base_revision = 0\<rparr>"

definition demo_mem2 :: mem_state where
  "demo_mem2 = snd (bind_in_memory_run ''r1'' demo_binding demo_mem1)"

definition demo_db2 :: db where
  "demo_db2 = snd (sql_bind_run 6 ''r1'' demo_binding demo_db1)"

lemma demo_task_facts:
  "a_bound demo_task = None" "a_generation demo_task = generation_of ''u1''" "a_revision demo_task = 0"
  "startable (a_steps demo_task) 1"
  by (simp_all add: demo_task_def spec_new_def demo_steps_def startable_def in_steps_def
      previous_completed_def)

lemma demo_agree2:
  "agree demo_codec demo_mem2 demo_db2 \<and>
   db_abs demo_codec demo_db2 = [''c1'' \<mapsto> spec_bind ''r1'' 1 demo_task]"
proof -
  have inv: "mem_inv demo_mem1" "db_inv demo_codec demo_db1" using demo_agree by (simp_all add: agree_def)
  have "\<exists>s'. bind_in_memory_run ''r1'' demo_binding demo_mem1 = (Inr (), s') \<and> mem_inv s' \<and>
      mem_abs s' = (mem_abs demo_mem1)(tb_conversation_id demo_binding \<mapsto>
        spec_bind ''r1'' (tb_step_position demo_binding) demo_task)"
    by (rule mem_bind_ok [OF inv(1)])
      (simp_all add: demo_mem1_abs demo_task_facts demo_binding_def)
  moreover have "\<exists>d'. sql_bind_run 6 ''r1'' demo_binding demo_db1 = (Inr (), d') \<and> db_inv demo_codec d' \<and>
      db_abs demo_codec d' = (db_abs demo_codec demo_db1)(tb_conversation_id demo_binding \<mapsto>
        spec_bind ''r1'' (tb_step_position demo_binding) demo_task)"
    by (rule sql_bind_ok [OF inv(2)])
      (simp_all add: demo_db1_abs demo_task_facts demo_binding_def has_run_def demo_db1_runs demo_run_def
        split: if_splits)
  ultimately show ?thesis
    by (auto simp: agree_def demo_mem2_def demo_db2_def demo_mem1_abs demo_db1_abs demo_binding_def)
qed

end
