(* ===== verification/TaskProps.thy ===== *)
theory TaskProps
  imports TaskAgree
begin

text \<open>
  The properties of the task service, over both backends.
\<close>



text \<open>
  Creating a task through the service does the same in memory and in SQLite, for a
  conversation and a creating run the database knows, a fresh generation id, and a tool call
  that has not already created the active task.
\<close>

theorem create_task_backends_agree:
  assumes "agree E s d" and "c \<in> set (conversations d)" and "opt_ok (has_run d c) run"
    and "\<forall>c' t. db_abs E d c' = Some t \<longrightarrow> a_generation t \<noteq> generation_of uuid"
    and "\<forall>t. db_abs E d c = Some t \<longrightarrow> \<not> (truthy_opt tool \<and> a_tool_call t = tool)"
    and "0 < now"
  shows "agree_after E (create_task E uuid now c ttl items dt run tool (InMemory s))
                       (create_task E uuid now c ttl items dt run tool (Repository d))"
proof -
  have same: "agree_after E (Inl e, InMemory s) (Inl e, Repository d)" for e
    using assms(1) by (rule agree_after_same)
  show ?thesis
  proof (cases "prepare_steps items")
    case (Inl e)
    show ?thesis unfolding create_task_def Let_def Inl sum.case
      by (intro agree_after_if) (rule same)+
  next
    case (Inr prepared)
    have pre: "prepared \<noteq> []" "length prepared \<le> 64" using prepare_steps_bounds [OF Inr] by auto
    have fresh: "\<And>c' t. db_abs E d c' = Some t \<Longrightarrow> a_generation t \<noteq> generation_of uuid"
      and norep: "\<And>t. db_abs E d c = Some t \<Longrightarrow> \<not> (truthy_opt tool \<and> a_tool_call t = tool)"
      using assms(4,5) by blast+
    show ?thesis unfolding create_task_def Let_def Inr sum.case
      by (intro agree_after_if same agree_create_core [OF assms(1,2,3) fresh norep assms(6) pre])
  qed
qed

theorem create_task_backends_agree_witness:
  "agree_after demo_codec
     (create_task demo_codec ''u2'' 5 ''c1'' ''Ship'' [[(''title'', PStr ''plan'')]] [] (Some ''r1'') None
        (InMemory mem_init))
     (create_task demo_codec ''u2'' 5 ''c1'' ''Ship'' [[(''title'', PStr ''plan'')]] [] (Some ''r1'') None
        (Repository demo_db))"
  by (rule create_task_backends_agree [OF demo_agree0])
    (simp_all add: demo_db_abs, simp_all add: demo_db_def db_empty_def plain_conversation_def demo_run_def has_run_def)




text \<open>
  Cancelling a task does the same in memory and in SQLite, including the run it asks the
  run manager to stop; and the delete names the version the check has read, so a task that
  changed between the check and the delete is not deleted.
\<close>

theorem cancel_task_backends_agree:
  assumes "agree E s d"
  shows "agree_after E (cancel_task E rm now c reason egen erev (InMemory s))
                       (cancel_task E rm now c reason egen erev (Repository d))"
proof (cases "cancel_check E rm now c reason egen erev (Repository d)")
  case (Inl e)
  then show ?thesis using cancel_check_agree [OF assms] agree_after_same [OF assms]
    by (simp add: cancel_task_def)
next
  case (Inr x)
  obtain g rv run where x: "x = (g, rv, run)" by (cases x)
  have "agree_after E (cancel_commit c g rv (InMemory s)) (cancel_commit c g rv (Repository d))"
    using assms by (rule agree_cancel_core)
  then show ?thesis
    using Inr cancel_check_agree [OF assms]
    by (cases "cancel_commit c g rv (InMemory s)"; cases "cancel_commit c g rv (Repository d)")
      (auto simp: cancel_task_def x agree_after_def same_answer_def split: sum.splits task_backend.splits)
qed

theorem cancel_task_backends_agree_witness:
  "agree_after demo_codec (cancel_task demo_codec None 7 ''c1'' ''not needed'' None (Some 0) (InMemory demo_mem2))
     (cancel_task demo_codec None 7 ''c1'' ''not needed'' None (Some 0) (Repository demo_db2))"
  by (rule cancel_task_backends_agree) (use demo_agree2 in simp)

lemma set_step_result_InrE:
  assumes "set_step_result E now c step st ev run egen erev b = (Inr mr, b')"
  obtains p nst where "step_number step = Inr p" and "1 \<le> p"
    and "on_backend (mem_set_step_result now c p nst (strip ev) run egen erev)
           (sql_set_step_result E now c p nst (strip ev) run egen erev) b = (Inr mr, b')"
  using assms step_number_pos
  by (auto simp: set_step_result_def Let_def split: sum.splits if_splits)

lemma set_step_result_core_fails:
  assumes "\<And>p nst. 1 \<le> p \<Longrightarrow> \<exists>e. on_backend (mem_set_step_result now c p nst (strip ev) run egen erev)
      (sql_set_step_result E now c p nst (strip ev) run egen erev) b = (Inl e, b)"
  shows "\<exists>e. set_step_result E now c step st ev run egen erev b = (Inl e, b)"
proof (cases "step_number step")
  case (Inl e)
  then show ?thesis by (simp add: set_step_result_def)
next
  case (Inr p)
  from assms [OF step_number_pos [OF Inr]] show ?thesis
    by (cases "normalize_step_status st") (auto simp: set_step_result_def Inr Let_def)
qed

text \<open>
  C3: Optimistic concurrency.  Of two step updates that name the same revision of a task, in
  either backend, the second is refused and changes nothing: no update is lost.
\<close>

theorem no_lost_step_update:
  assumes "backend_inv E b" and "backend_abs E b c = Some t" and "0 < now"
    and "set_step_result E now c step st ev run egen erev b = (Inr mr, b')"
  shows "\<exists>e. set_step_result E now' c step' st' ev' run' egen' (Some (a_revision t)) b' = (Inl e, b')"
proof -
  obtain p nst where p: "1 \<le> p" and
    op: "on_backend (mem_set_step_result now c p nst (strip ev) run egen erev)
           (sql_set_step_result E now c p nst (strip ev) run egen erev) b = (Inr mr, b')"
    using assms(4) by (rule set_step_result_InrE)
  show ?thesis
  proof (rule set_step_result_core_fails)
    fix p' :: int and nst' assume p': "1 \<le> p'"
    show "\<exists>e. on_backend (mem_set_step_result now' c p' nst' (strip ev') run' egen' (Some (a_revision t)))
       (sql_set_step_result E now' c p' nst' (strip ev') run' egen' (Some (a_revision t))) b' = (Inl e, b')"
    proof (cases b)
      case (InMemory s)
      then obtain s' where s': "mem_set_step_result now c p nst (strip ev) run egen erev s = (Inr mr, s')"
          "b' = InMemory s'" using op by (auto simp: prod_eq_iff)
      have inv: "mem_inv s" "mem_abs s c = Some t"
        using assms(1,2) InMemory by (simp_all add: backend_inv_def backend_abs_def)
      obtain e where "mem_set_step_result now' c p' nst' (strip ev') run' egen' (Some (a_revision t)) s' =
          (Inl e, s')"
        using mem.no_lost_update [OF inv p p' assms(3) s'(1)] by blast
      then show ?thesis using s'(2) by simp
    next
      case (Repository d)
      then obtain d' where d': "sql_set_step_result E now c p nst (strip ev) run egen erev d = (Inr mr, d')"
          "b' = Repository d'" using op by (auto simp: prod_eq_iff)
      have inv: "db_inv E d" "db_abs E d c = Some t"
        using assms(1,2) Repository by (simp_all add: backend_inv_def backend_abs_def)
      obtain e where "sql_set_step_result E now' c p' nst' (strip ev') run' egen' (Some (a_revision t)) d' =
          (Inl e, d')"
        using sql.no_lost_update [OF inv p p' assms(3) d'(1)] by blast
      then show ?thesis using d'(2) by simp
    qed
  qed
qed

lemma demo_backends:
  "backend_inv demo_codec (InMemory demo_mem1)" "backend_abs demo_codec (InMemory demo_mem1) ''c1'' = Some demo_task"
  "backend_inv demo_codec (Repository demo_db1)" "backend_abs demo_codec (Repository demo_db1) ''c1'' = Some demo_task"
  using demo_agree unfolding agree_def backend_inv_def backend_abs_def
  by (simp_all add: demo_mem1_abs demo_db1_abs)

theorem no_lost_step_update_witness:
  "\<exists>mr b'. set_step_result demo_codec 6 ''c1'' (PInt 1) ''blocked'' ''no access'' None None None
       (InMemory demo_mem1) = (Inr mr, b') \<and>
     (\<exists>e. set_step_result demo_codec 7 ''c1'' (PInt 1) ''completed'' ''done'' None None
       (Some (a_revision demo_task)) b' = (Inl e, b'))"
proof -
  have inv: "backend_inv demo_codec (InMemory demo_mem1)"
    "backend_abs demo_codec (InMemory demo_mem1) ''c1'' = Some demo_task"
    by (rule demo_backends)+
  have "set_step_ok demo_task 1 BLOCKED"
    using demo_task_facts by (simp add: set_step_ok_def startable_def)
  then obtain mr s' where "mem_set_step_result 6 ''c1'' 1 BLOCKED ''no access'' None None None demo_mem1 = (Inr mr, s')"
    using mem.set_step_success [of demo_mem1 "''c1''" demo_task None None 1 BLOCKED None 6 "''no access''"]
      demo_agree by (auto simp: demo_mem1_abs agree_def version_ok_def)
  moreover have "strip ''no access'' = ''no access''" by code_simp
  moreover have "step_number (PInt 1) = Inr 1" "normalize_step_status ''blocked'' = Inr BLOCKED" by code_simp+
  ultimately have "set_step_result demo_codec 6 ''c1'' (PInt 1) ''blocked'' ''no access'' None None None
       (InMemory demo_mem1) = (Inr mr, InMemory s')"
    by (simp add: set_step_result_def)
  then show ?thesis using no_lost_step_update [OF inv, of 6] by (metis zero_less_numeral)
qed






definition run_statuses_of :: "db \<Rightarrow> run_statuses" where
  "run_statuses_of d = Some (\<lambda>i. map_option r_status (fetchone (select (\<lambda>r. r_id r = i) (runs d))))"

text \<open>
  What clients see is the same for both backends: with the statuses of the runs table,
  the in-memory service computes the execution state that the join of the repository yields.
\<close>

theorem shown_task_agrees:
  assumes "agree E s d" and "\<forall>t p. db_abs E d c = Some t \<longrightarrow> a_bound t \<noteq> Some ([], p)"
  shows "get_active_task E (run_statuses_of d) now (InMemory s) c =
         get_active_task E (run_statuses_of d) now (Repository d) c"
proof (cases "db_abs E d c")
  case None
  then show ?thesis using shown_tasks [OF assms(1), of "run_statuses_of d" now c] by auto
next
  case (Some t)
  have inv: "mem_inv s" "db_inv E d" "mem_abs s = db_abs E d" using assms(1) by (simp_all add: agree_def)
  have wf: "db_wf E d" using inv(2) by (rule db_inv_wf)
  have upd: "(task_of c x t)\<lparr>execution_state := y\<rparr> = task_of c y t" for x y by (simp add: task_of_def)
  have m: "m_tasks s c = Some (task_of c (stored_state t) t)"
    using mem_abs_SomeD [OF inv(1)] Some by (simp add: inv(3))
  have "with_current_run_state (run_statuses_of d) (m_tasks s c) = Some (task_of c (shown_state d c) t)"
  proof (cases "a_bound t")
    case None
    then have "shown_state d c = ''idle''"
      using bound_iff_binding [OF Some] shown_state_unbound [OF wf] by simp
    with None show ?thesis by (simp add: m with_current_run_state_def stored_state_def)
  next
    case (Some rp)
    obtain rid p where rp: "rp = (rid, p)" by (cases rp)
    have ne: "rid \<noteq> []" using assms(2) \<open>db_abs E d c = Some t\<close> Some rp by auto
    obtain x where x: "binding_of d c = Some x" "b_run_id x = rid"
      using bound_binding [OF wf \<open>db_abs E d c = Some t\<close> Some [unfolded rp]] by metis
    obtain r where r: "fetchone (bound_runs d c) = Some (x, r)" using bound_run_exists [OF wf x(1)] by blast
    then have f: "fetchone (select (\<lambda>r. r_id r = rid) (runs d)) = Some r"
      using x wf by (auto simp: fetchone_bound_runs db_wf_def split: option.splits)
    show ?thesis
      using Some rp ne r f
      by (simp add: m with_current_run_state_def run_statuses_of_def shown_state_def execution_state_of_def
          Let_def upd TERMINAL_RUN_STATUSES_def stored_state_def)
  qed
  then show ?thesis using shown_tasks(1) [OF assms(1), of "run_statuses_of d" now c] Some
    by (simp add: get_active_task_def)
qed

theorem shown_task_agrees_witness:
  "get_active_task demo_codec (run_statuses_of demo_db2) 8 (InMemory demo_mem2) ''c1'' =
   get_active_task demo_codec (run_statuses_of demo_db2) 8 (Repository demo_db2) ''c1''"
  by (rule shown_task_agrees) (use demo_agree2 in \<open>auto simp: spec_bind_def\<close>)

end
