(* ===== verification/TaskReach.thy ===== *)
theory TaskReach
  imports TaskAgree
begin

text \<open>
  The in-memory task service and its callers as a state machine.  \<open>bind_in_memory_run\<close> does
  not look at the steps of the task, it trusts the binding it is given; callers obtain it
  from \<open>prepare_run_binding\<close>.  The world keeps the bindings handed out so far, and the
  generation ids used so far, because \<open>uuid4\<close> never repeats one.
\<close>

record world =
  w_mem :: mem_state
  w_tokens :: "task_binding list"
  w_used :: "string list"

inductive task_step :: "world \<Rightarrow> world \<Rightarrow> bool" where
  create: "0 < now \<Longrightarrow> generation_of uuid \<notin> set (w_used w) \<Longrightarrow>
     create_task E uuid now c ttl items dt run tool (InMemory (w_mem w)) = (r, InMemory s') \<Longrightarrow>
     task_step w (w\<lparr>w_mem := s', w_used := generation_of uuid # w_used w\<rparr>)"
| set_result: "0 < now \<Longrightarrow>
     set_step_result E now c stp st ev run egen erev (InMemory (w_mem w)) = (r, InMemory s') \<Longrightarrow>
     task_step w (w\<lparr>w_mem := s'\<rparr>)"
| cancel: "cancel_task E rm now c reason egen erev (InMemory (w_mem w)) = (r, InMemory s') \<Longrightarrow>
     task_step w (w\<lparr>w_mem := s'\<rparr>)"
| prepare: "prepare_run_binding E rm now c stp mode egen erev (InMemory (w_mem w)) = Inr b \<Longrightarrow>
     task_step w (w\<lparr>w_tokens := b # w_tokens w\<rparr>)"
| bind: "b \<in> set (w_tokens w) \<Longrightarrow> bind_in_memory_run run b (w_mem w) = (r, s') \<Longrightarrow>
     task_step w (w\<lparr>w_mem := s'\<rparr>)"
| finish: "0 < now \<Longrightarrow>
     handle_run_finished E now run_dict (InMemory (w_mem w)) = (r, InMemory s') \<Longrightarrow>
     task_step w (w\<lparr>w_mem := s'\<rparr>)"


inductive_cases task_stepE: "task_step w w'"

























end
