(* ===== verification/Capabilities.thy ===== *)
theory Capabilities
  imports PyVal
begin

text \<open>
  What a tool may do (\<open>tools/security/capabilities.py\<close>), which tools the model is offered by
  configuration (\<open>tools/tool_filter.py\<close>), and the grouping of the tool calls of one model
  answer into waves that run in parallel (\<open>tools/tool_call_scheduler.py\<close>).
\<close>

section \<open>Capabilities\<close>

datatype tool_capability =
    READ_ONLY | PARALLEL_SAFE | NETWORK_READ | FILESYSTEM_READ | FILESYSTEM_WRITE | COMMAND_EXEC
  | CONFIG_WRITE | MUTATES_WORKSPACE | MUTATES_RUNTIME_STATE | REQUIRES_APPROVAL | MCP_DYNAMIC

fun to_capability :: "string \<Rightarrow> tool_capability result" where
  "to_capability v =
     (if v = ''READ_ONLY'' then Inr READ_ONLY
      else if v = ''PARALLEL_SAFE'' then Inr PARALLEL_SAFE
      else if v = ''NETWORK_READ'' then Inr NETWORK_READ
      else if v = ''FILESYSTEM_READ'' then Inr FILESYSTEM_READ
      else if v = ''FILESYSTEM_WRITE'' then Inr FILESYSTEM_WRITE
      else if v = ''COMMAND_EXEC'' then Inr COMMAND_EXEC
      else if v = ''CONFIG_WRITE'' then Inr CONFIG_WRITE
      else if v = ''MUTATES_WORKSPACE'' then Inr MUTATES_WORKSPACE
      else if v = ''MUTATES_RUNTIME_STATE'' then Inr MUTATES_RUNTIME_STATE
      else if v = ''REQUIRES_APPROVAL'' then Inr REQUIRES_APPROVAL
      else if v = ''MCP_DYNAMIC'' then Inr MCP_DYNAMIC
      else Inl (ValueError (repr_str v @ '' is not a valid ToolCapability'')))"

declare to_capability.simps [simp del]

definition DEFAULT_TOOL_CAPABILITIES :: "(string \<times> tool_capability list) list" where
  "DEFAULT_TOOL_CAPABILITIES =
     [(''web'', [NETWORK_READ, READ_ONLY, PARALLEL_SAFE]),
      (''tools'', [READ_ONLY, PARALLEL_SAFE]),
      (''memory'', [CONFIG_WRITE, MUTATES_RUNTIME_STATE]),
      (''enter_plan_mode'', [MUTATES_RUNTIME_STATE]),
      (''ask_user_question'', [MUTATES_RUNTIME_STATE]),
      (''exit_plan_mode'', [MUTATES_RUNTIME_STATE]),
      (''glob'', [FILESYSTEM_READ, READ_ONLY, PARALLEL_SAFE]),
      (''read'', [FILESYSTEM_READ, READ_ONLY, PARALLEL_SAFE]),
      (''grep'', [FILESYSTEM_READ, READ_ONLY, PARALLEL_SAFE]),
      (''edit'', [FILESYSTEM_WRITE, MUTATES_WORKSPACE, REQUIRES_APPROVAL]),
      (''shell'', [COMMAND_EXEC, MUTATES_RUNTIME_STATE, REQUIRES_APPROVAL]),
      (''wait_command'', [MUTATES_RUNTIME_STATE]),
      (''agent'', [MUTATES_RUNTIME_STATE]),
      (''create_task'', [MUTATES_RUNTIME_STATE]),
      (''set_task_step'', [MUTATES_RUNTIME_STATE]),
      (''cancel_task'', [MUTATES_RUNTIME_STATE])]"

text \<open>The overrides name the capabilities by their values.\<close>

definition capabilities_for_tool ::
  "string \<Rightarrow> (string \<times> string list) list \<Rightarrow> tool_capability set result" where
  "capabilities_for_tool tool_name overrides =
     (case map_of overrides tool_name of
        Some caps \<Rightarrow> map_result set (mapM_result to_capability caps)
      | None \<Rightarrow>
          (case map_of DEFAULT_TOOL_CAPABILITIES tool_name of
             Some caps \<Rightarrow> Inr (set caps)
           | None \<Rightarrow> Inl (UnknownToolCapabilitiesError tool_name)))"

record registered_tool =
  rt_name :: string
  rt_capabilities :: "string list option"

definition capabilities_for_registered_tool :: "registered_tool \<Rightarrow> tool_capability set result" where
  "capabilities_for_registered_tool tool =
     (case rt_capabilities tool of
        Some caps \<Rightarrow> map_result set (mapM_result to_capability caps)
      | None \<Rightarrow> capabilities_for_tool (rt_name tool) [])"

definition capabilities_for_mcp_tool :: "(string \<times> pyval) list \<Rightarrow> tool_capability set" where
  "capabilities_for_mcp_tool tool_schema =
     (case dget tool_schema ''annotations'' of
        PDict annotations \<Rightarrow>
          if dget annotations ''readOnlyHint'' = PBool True
          then {MCP_DYNAMIC, READ_ONLY, PARALLEL_SAFE} else {MCP_DYNAMIC}
      | _ \<Rightarrow> {MCP_DYNAMIC})"

definition is_parallel_safe :: "tool_capability set \<Rightarrow> bool" where
  "is_parallel_safe caps = (PARALLEL_SAFE \<in> caps)"

section \<open>The tool filter\<close>

record tool_filter =
  tf_enabled :: "string list option"
  tf_disabled :: "string list"

text \<open>The constructor: an empty list of enabled tools enables all.\<close>

definition make_filter :: "string list option \<Rightarrow> string list option \<Rightarrow> tool_filter" where
  "make_filter enabled disabled =
     \<lparr>tf_enabled = (case enabled of None \<Rightarrow> None | Some [] \<Rightarrow> None | Some xs \<Rightarrow> Some xs),
      tf_disabled = (case disabled of None \<Rightarrow> [] | Some xs \<Rightarrow> xs)\<rparr>"

definition is_allowed :: "tool_filter \<Rightarrow> string \<Rightarrow> string list \<Rightarrow> bool" where
  "is_allowed f tool_name aliases =
     (let names = {tool_name} \<union> set aliases in
      (case tf_enabled f of None \<Rightarrow> True | Some en \<Rightarrow> names \<inter> set en \<noteq> {}) \<and>
      names \<inter> set (tf_disabled f) = {})"

section \<open>Waves of tool calls\<close>

type_synonym tool_call = "(string \<times> pyval) list"

record indexed_call =
  ic_index :: nat
  ic_call :: tool_call
  ic_tool_name :: string
  ic_capabilities :: "tool_capability set"

record call_wave =
  cw_parallel :: bool
  cw_calls :: "indexed_call list"

definition tool_call_function_name :: "tool_call \<Rightarrow> string result" where
  "tool_call_function_name call =
     (let fn = dget call ''function'' in
      if \<not> py_true fn then Inr []
      else (case fn of
              PDict d \<Rightarrow> Inr (str_or (dget d ''name'') [])
            | _ \<Rightarrow> Inl AttributeError))"

definition index_call ::
  "(string \<Rightarrow> tool_capability set result) \<Rightarrow> nat \<Rightarrow> tool_call \<Rightarrow> indexed_call result" where
  "index_call caps_for i call =
     bind_result (tool_call_function_name call) (\<lambda>name.
     map_result (\<lambda>caps. \<lparr>ic_index = i, ic_call = call, ic_tool_name = name, ic_capabilities = caps\<rparr>)
       (caps_for name))"

definition flush_parallel :: "indexed_call list \<Rightarrow> call_wave list" where
  "flush_parallel pending = (if pending = [] then [] else [\<lparr>cw_parallel = True, cw_calls = pending\<rparr>])"

fun plan_waves_from ::
  "(string \<Rightarrow> tool_capability set result) \<Rightarrow> nat \<Rightarrow> indexed_call list \<Rightarrow> tool_call list \<Rightarrow>
   call_wave list result" where
  "plan_waves_from caps_for i pending [] = Inr (flush_parallel pending)"
| "plan_waves_from caps_for i pending (call # calls) =
     (case index_call caps_for i call of
        Inl e \<Rightarrow> Inl e
      | Inr ic \<Rightarrow>
          if is_parallel_safe (ic_capabilities ic)
          then plan_waves_from caps_for (Suc i) (pending @ [ic]) calls
          else map_result
            (\<lambda>waves. flush_parallel pending @ \<lparr>cw_parallel = False, cw_calls = [ic]\<rparr> # waves)
            (plan_waves_from caps_for (Suc i) [] calls))"

definition plan_tool_call_waves ::
  "tool_call list \<Rightarrow> (string \<Rightarrow> tool_capability set result) \<Rightarrow> call_wave list result" where
  "plan_tool_call_waves calls caps_for = plan_waves_from caps_for 0 [] calls"

section \<open>What the waves hold\<close>

definition wave_ok :: "call_wave \<Rightarrow> bool" where
  "wave_ok w =
     (if cw_parallel w
      then cw_calls w \<noteq> [] \<and> (\<forall>ic \<in> set (cw_calls w). is_parallel_safe (ic_capabilities ic))
      else \<exists>ic. cw_calls w = [ic] \<and> \<not> is_parallel_safe (ic_capabilities ic))"

text \<open>No two parallel waves stand next to each other: each is as long as it can be.\<close>

fun alternating :: "call_wave list \<Rightarrow> bool" where
  "alternating (v # w # ws) = (\<not> (cw_parallel v \<and> cw_parallel w) \<and> alternating (w # ws))"
| "alternating _ = True"

lemma index_call_Inr:
  "index_call caps_for i call = Inr ic \<Longrightarrow>
   ic_index ic = i \<and> ic_call ic = call \<and> tool_call_function_name call = Inr (ic_tool_name ic) \<and>
   caps_for (ic_tool_name ic) = Inr (ic_capabilities ic)"
  by (auto simp: index_call_def bind_result_eq_Inr map_result_eq_Inr)

lemma concat_flush [simp]: "concat (map cw_calls (flush_parallel p)) = p"
  by (simp add: flush_parallel_def)

lemma flush_ok: "\<forall>ic \<in> set p. is_parallel_safe (ic_capabilities ic) \<Longrightarrow> w \<in> set (flush_parallel p) \<Longrightarrow> wave_ok w"
  by (auto simp: flush_parallel_def wave_ok_def split: if_splits)

lemma alternating_flush:
  "alternating ws \<Longrightarrow> alternating (flush_parallel p @ \<lparr>cw_parallel = False, cw_calls = cs\<rparr> # ws)"
  by (cases ws) (auto simp: flush_parallel_def)

lemma upt_first: "[i..<Suc (i + n)] = i # [Suc i..<Suc (i + n)]"
  by (rule upt_conv_Cons) simp

lemma plan_waves_calls:
  assumes "plan_waves_from caps_for i pending calls = Inr ws"
  shows "\<exists>ics. concat (map cw_calls ws) = pending @ ics \<and> map ic_call ics = calls \<and>
           map ic_index ics = [i..<i + length calls] \<and>
           (\<forall>ic \<in> set ics. tool_call_function_name (ic_call ic) = Inr (ic_tool_name ic) \<and>
              caps_for (ic_tool_name ic) = Inr (ic_capabilities ic))"
  using assms
proof (induction calls arbitrary: i pending ws)
  case Nil
  then show ?case by auto
next
  case (Cons call calls)
  then obtain ic where ic: "index_call caps_for i call = Inr ic" by (auto split: sum.splits)
  note icd = index_call_Inr [OF ic]
  show ?case
  proof (cases "is_parallel_safe (ic_capabilities ic)")
    case True
    then have "plan_waves_from caps_for (Suc i) (pending @ [ic]) calls = Inr ws"
      using Cons.prems ic by simp
    from Cons.IH [OF this] obtain ics where "concat (map cw_calls ws) = (pending @ [ic]) @ ics"
      "map ic_call ics = calls" "map ic_index ics = [Suc i..<Suc i + length calls]"
      "\<forall>ic \<in> set ics. tool_call_function_name (ic_call ic) = Inr (ic_tool_name ic) \<and>
              caps_for (ic_tool_name ic) = Inr (ic_capabilities ic)" by blast
    with icd show ?thesis by (intro exI [of _ "ic # ics"]) (auto simp: upt_first simp del: upt_Suc)
  next
    case False
    then obtain ws' where ws': "plan_waves_from caps_for (Suc i) [] calls = Inr ws'"
      "ws = flush_parallel pending @ \<lparr>cw_parallel = False, cw_calls = [ic]\<rparr> # ws'"
      using Cons.prems ic by (auto simp: map_result_eq_Inr)
    from Cons.IH [OF ws'(1)] obtain ics where "concat (map cw_calls ws') = [] @ ics"
      "map ic_call ics = calls" "map ic_index ics = [Suc i..<Suc i + length calls]"
      "\<forall>ic \<in> set ics. tool_call_function_name (ic_call ic) = Inr (ic_tool_name ic) \<and>
              caps_for (ic_tool_name ic) = Inr (ic_capabilities ic)" by blast
    with icd ws'(2) show ?thesis by (intro exI [of _ "ic # ics"]) (auto simp: upt_first simp del: upt_Suc)
  qed
qed

lemma plan_waves_shape:
  assumes "plan_waves_from caps_for i pending calls = Inr ws"
    and "\<forall>ic \<in> set pending. is_parallel_safe (ic_capabilities ic)"
  shows "(\<forall>w \<in> set ws. wave_ok w) \<and> alternating ws"
  using assms
proof (induction calls arbitrary: i pending ws)
  case Nil
  then show ?case using flush_ok by (auto simp: flush_parallel_def)
next
  case (Cons call calls)
  then obtain ic where ic: "index_call caps_for i call = Inr ic" by (auto split: sum.splits)
  show ?case
  proof (cases "is_parallel_safe (ic_capabilities ic)")
    case True
    then show ?thesis using Cons.prems ic Cons.IH [of "Suc i" "pending @ [ic]" ws] by simp
  next
    case False
    then obtain ws' where ws': "plan_waves_from caps_for (Suc i) [] calls = Inr ws'"
      "ws = flush_parallel pending @ \<lparr>cw_parallel = False, cw_calls = [ic]\<rparr> # ws'"
      using Cons.prems ic by (auto simp: map_result_eq_Inr)
    have "(\<forall>w \<in> set ws'. wave_ok w) \<and> alternating ws'" using Cons.IH [OF ws'(1)] by simp
    then show ?thesis
      using ws'(2) False flush_ok [OF Cons.prems(2)] alternating_flush
      by (auto simp: wave_ok_def)
  qed
qed

text \<open>
  C6: The scheduler neither drops, repeats nor reorders a tool call: read in order, the waves
  hold the calls of the answer with the indexes 0, 1, 2 and so on.  A parallel wave holds
  only calls of tools declared safe to run in parallel, every other call has a wave of its
  own, and no two parallel waves follow each other, so parallel calls are grouped as far as
  the order allows.
\<close>

theorem waves_keep_order:
  assumes "plan_tool_call_waves calls caps_for = Inr ws"
  shows "map ic_call (concat (map cw_calls ws)) = calls \<and>
         map ic_index (concat (map cw_calls ws)) = [0..<length calls] \<and>
         (\<forall>w \<in> set ws. wave_ok w) \<and> alternating ws \<and>
         (\<forall>ic \<in> set (concat (map cw_calls ws)). caps_for (ic_tool_name ic) = Inr (ic_capabilities ic))"
  using plan_waves_calls [OF assms [unfolded plan_tool_call_waves_def]]
    plan_waves_shape [OF assms [unfolded plan_tool_call_waves_def]]
  by auto

definition demo_call :: "string \<Rightarrow> tool_call" where
  "demo_call name = [(''function'', PDict [(''name'', PStr name)])]"

theorem waves_keep_order_witness:
  "\<exists>ws. plan_tool_call_waves (map demo_call [''read'', ''grep'', ''edit'', ''read''])
          (\<lambda>n. capabilities_for_tool n []) = Inr ws \<and>
        map (map ic_index \<circ> cw_calls) ws = [[0, 1], [2], [3]] \<and> alternating ws"
proof -
  let ?cs = "map demo_call [''read'', ''grep'', ''edit'', ''read'']"
  obtain ws where ws: "plan_tool_call_waves ?cs (\<lambda>n. capabilities_for_tool n []) = Inr ws"
    and ix: "map (map ic_index \<circ> cw_calls) ws = [[0, 1], [2], [3]]"
    by (simp add: plan_tool_call_waves_def index_call_def tool_call_function_name_def demo_call_def
        capabilities_for_tool_def DEFAULT_TOOL_CAPABILITIES_def is_parallel_safe_def flush_parallel_def)
  have "alternating ws" using waves_keep_order [OF ws] by (elim conjE)
  then show ?thesis by (intro exI [of _ ws] conjI ws ix)
qed

end
