(* ===== verification/Glob.thy ===== *)
theory Glob
  imports PyStr
begin

text \<open>
  Pattern matching of the Python standard library as the tools use it: \<open>fnmatch.fnmatch\<close>
  on a POSIX system, and the three shapes of regular expression the permission code uses
  (splitting at separators, a word after a separator, the parts of a name).  A pattern is
  read into items once, as \<open>fnmatch.translate\<close> does, and the items are matched against the
  whole text.
\<close>

section \<open>fnmatch\<close>

datatype class_item = Single char | Range char char

datatype glob_item = Star | AnyChar | CharClass bool "class_item list" | Literal char

text \<open>The text of a bracket expression: a hyphen between two characters makes a range.\<close>

fun class_items :: "string \<Rightarrow> class_item list" where
  "class_items [] = []"
| "class_items [c] = [Single c]"
| "class_items [c, d] = [Single c, Single d]"
| "class_items (c # d # e # s) =
     (if d = CHR ''-'' then Range c e # class_items s else Single c # class_items (d # e # s))"

definition nonempty_item :: "class_item \<Rightarrow> bool" where
  "nonempty_item i = (case i of Single c \<Rightarrow> True | Range a b \<Rightarrow> code a \<le> (code b :: nat))"

text \<open>
  An exclamation mark in front negates; empty ranges are dropped, and one that comes to the
  front by that negates too.
\<close>

definition class_of :: "string \<Rightarrow> glob_item" where
  "class_of stuff =
     (case stuff of
        c # s \<Rightarrow>
          if c = CHR ''!'' then CharClass True (filter nonempty_item (class_items s))
          else
            (case filter nonempty_item (class_items stuff) of
               Single d # items \<Rightarrow>
                 if d = CHR ''!'' then CharClass True items else CharClass False (Single d # items)
             | Range a b # items \<Rightarrow>
                 if a = CHR ''!'' then CharClass True (Single (CHR ''-'') # Single b # items)
                 else CharClass False (Range a b # items)
             | [] \<Rightarrow> CharClass False [])
      | [] \<Rightarrow> CharClass False [])"

text \<open>
  The bracket expression at the start of a text after its opening bracket: what it holds and
  the text behind it.  A closing bracket in first place stands for itself.
\<close>

definition bracket_split :: "string \<Rightarrow> (string \<times> string) option" where
  "bracket_split s =
     (let j0 = (if s \<noteq> [] \<and> hd s = CHR ''!'' then 1 else 0);
          j1 = (if j0 < length s \<and> s ! j0 = CHR '']'' then j0 + 1 else j0);
          inner = takeWhile (\<lambda>c. c \<noteq> CHR '']'') (drop j1 s);
          j = j1 + length inner in
      if j < length s then Some (take j s, drop (Suc j) s) else None)"

lemma bracket_split_length: "bracket_split s = Some (a, b) \<Longrightarrow> length b < length s"
  by (auto simp: bracket_split_def Let_def split: if_splits)

function glob_parse :: "string \<Rightarrow> glob_item list" where
  "glob_parse [] = []"
| "glob_parse (c # s) =
     (if c = CHR ''*'' then Star # glob_parse s
      else if c = CHR ''?'' then AnyChar # glob_parse s
      else if c = CHR ''['' then
        (case bracket_split s of
           None \<Rightarrow> Literal c # glob_parse s
         | Some (stuff, rest) \<Rightarrow> class_of stuff # glob_parse rest)
      else Literal c # glob_parse s)"
  by pat_completeness auto
termination
  by (relation "measure length") (auto dest: bracket_split_length)

definition in_class :: "char \<Rightarrow> class_item list \<Rightarrow> bool" where
  "in_class c items =
     (\<exists>i \<in> set items. case i of Single d \<Rightarrow> c = d | Range a b \<Rightarrow> code a \<le> (code c :: nat) \<and> code c \<le> (code b :: nat))"

fun item_matches :: "glob_item \<Rightarrow> char \<Rightarrow> bool" where
  "item_matches Star c = True"
| "item_matches AnyChar c = True"
| "item_matches (CharClass neg items) c = (in_class c items \<noteq> neg)"
| "item_matches (Literal d) c = (c = d)"

fun glob_match :: "glob_item list \<Rightarrow> string \<Rightarrow> bool" where
  "glob_match [] s = (s = [])"
| "glob_match (Star # p) [] = glob_match p []"
| "glob_match (Star # p) (c # s) = (glob_match p (c # s) \<or> glob_match (Star # p) s)"
| "glob_match (i # p) [] = False"
| "glob_match (i # p) (c # s) = (item_matches i c \<and> glob_match p s)"

definition fnmatch :: "string \<Rightarrow> string \<Rightarrow> bool" where
  "fnmatch name pat = glob_match (glob_parse pat) name"

lemma glob_match_Star: "glob_match (Star # p) s \<longleftrightarrow> (\<exists>a b. s = a @ b \<and> glob_match p b)"
proof (induction s)
  case Nil
  then show ?case by simp
next
  case (Cons c s)
  have "(\<exists>a b. c # s = a @ b \<and> glob_match p b) \<longleftrightarrow>
      glob_match p (c # s) \<or> (\<exists>a b. s = a @ b \<and> glob_match p b)"
    by (metis append_Cons append_Nil append_eq_Cons_conv)
  with Cons show ?case by simp
qed

lemma glob_match_all: "glob_match [Star] s"
  by (simp add: glob_match_Star)

lemma fnmatch_star [simp]: "fnmatch s ''*''"
  by (simp add: fnmatch_def glob_match_all)

definition plain :: "string \<Rightarrow> bool" where
  "plain p = list_all (\<lambda>c. c \<noteq> CHR ''*'' \<and> c \<noteq> CHR ''?'' \<and> c \<noteq> CHR ''['') p"

lemma glob_parse_plain_append: "plain p \<Longrightarrow> glob_parse (p @ q) = map Literal p @ glob_parse q"
  by (induction p) (auto simp: plain_def)

lemma glob_match_literals:
  "glob_match (map Literal p @ q) s \<longleftrightarrow> (\<exists>r. s = p @ r \<and> glob_match q r)"
proof (induction p arbitrary: s)
  case Nil
  then show ?case by simp
next
  case (Cons c p)
  then show ?case by (cases s) auto
qed

text \<open>A pattern without special characters matches itself only, with a final star its prefix.\<close>

lemma fnmatch_plain: "plain p \<Longrightarrow> fnmatch s p \<longleftrightarrow> s = p"
  using glob_parse_plain_append [of p "[]"] glob_match_literals [of p "[]" s]
  by (auto simp: fnmatch_def)

lemma fnmatch_prefix: "plain p \<Longrightarrow> fnmatch s (p @ ''*'') \<longleftrightarrow> startswith s p"
  by (simp add: fnmatch_def glob_parse_plain_append glob_match_literals glob_match_all startswith_iff)

section \<open>Regular expressions\<close>

text \<open>
  \<open>re.split\<close> and \<open>re.search\<close> for an alternation of literal separators tried in order: the
  length of the separator at the start of a text, if there is one.
\<close>

fun sep_length :: "string list \<Rightarrow> string \<Rightarrow> nat option" where
  "sep_length [] s = None"
| "sep_length (p # ps) s = (if startswith s p then Some (length p) else sep_length ps s)"

lemma sep_length_Some: "sep_length ps s = Some n \<Longrightarrow> \<exists>p \<in> set ps. n = length p \<and> startswith s p"
  by (induction ps) (auto split: if_splits)

lemma sep_length_None: "sep_length ps s = None \<longleftrightarrow> (\<forall>p \<in> set ps. \<not> startswith s p)"
  by (induction ps) auto

function re_split :: "string list \<Rightarrow> string \<Rightarrow> string \<Rightarrow> string list" where
  "re_split ps acc [] = [rev acc]"
| "re_split ps acc (c # s) =
     (case sep_length ps (c # s) of
        None \<Rightarrow> re_split ps (c # acc) s
      | Some n \<Rightarrow> rev acc # re_split ps [] (drop (max n 1) (c # s)))"
  by pat_completeness auto
termination
  by (relation "measure (\<lambda>(ps, acc, s). length s)") auto

fun re_search :: "string list \<Rightarrow> string \<Rightarrow> bool" where
  "re_search ps [] = ([] \<in> set ps)"
| "re_search ps (c # s) = (sep_length ps (c # s) \<noteq> None \<or> re_search ps s)"

lemma re_search_iff: "re_search ps s \<longleftrightarrow> (\<exists>p \<in> set ps. contains s p)"
proof (induction s)
  case Nil
  then show ?case by auto
next
  case (Cons c s)
  have "sep_length ps (c # s) \<noteq> None \<longleftrightarrow> (\<exists>p \<in> set ps. startswith (c # s) p)"
    by (simp only: sep_length_None) blast
  with Cons show ?case by auto
qed

lemma re_split_none: "\<not> re_search ps s \<Longrightarrow> re_split ps acc s = [rev acc @ s]"
  by (induction s arbitrary: acc) (auto split: option.splits)

text \<open>\<open>re.split\<close> at runs of characters outside a class, without the empty parts.\<close>

fun word_parts :: "(char \<Rightarrow> bool) \<Rightarrow> string \<Rightarrow> string \<Rightarrow> string list" where
  "word_parts P acc [] = (if acc = [] then [] else [rev acc])"
| "word_parts P acc (c # s) =
     (if P c then word_parts P (c # acc) s
      else (if acc = [] then [] else [rev acc]) @ word_parts P [] s)"

text \<open>A word of a list, in any case, at the start of a text and ending at a word boundary.\<close>

definition word_ahead :: "string list \<Rightarrow> string \<Rightarrow> bool" where
  "word_ahead ws s =
     (\<exists>w \<in> set ws. startswith (lower s) w \<and>
        (length s = length w \<or> \<not> is_word_char (s ! length w)))"

text \<open>Such a word at the start, or after one of the given separators and white space.\<close>

fun word_after :: "char list \<Rightarrow> string list \<Rightarrow> string \<Rightarrow> bool" where
  "word_after seps ws [] = False"
| "word_after seps ws (c # s) =
     ((c \<in> set seps \<and> word_ahead ws (dropWhile is_space s)) \<or> word_after seps ws s)"

definition word_at_command :: "char list \<Rightarrow> string list \<Rightarrow> string \<Rightarrow> bool" where
  "word_at_command seps ws s = (word_ahead ws s \<or> word_after seps ws s)"

end
