(* ===== verification/Exposure.thy ===== *)
theory Exposure
  imports Glob PyVal
begin

text \<open>
  Which tools the model is shown (\<open>tools/exposure.py\<close>): tool specifications such as
  \<open>allow shell(git *)\<close>, the registry of local tools with its check of the parameter schemas,
  and the resolver that computes the visible names for a profile, a permission mode and the
  lists of allowed and disallowed tools.
\<close>

section \<open>Tool specifications\<close>

record tool_spec =
  ts_raw :: string
  ts_tool_pattern :: string
  ts_argument_pattern :: "string option"

definition is_paren :: "char \<Rightarrow> bool" where
  "is_paren c = (c = CHR ''('' \<or> c = CHR '')'')"

text \<open>
  \<open>re.match(r"^([^()]+)\((.*)\)$", s)\<close> for a text without trailing line break: a nonempty
  part before the first parenthesis, which opens, and one line up to a final closing one.
\<close>

definition match_call :: "string \<Rightarrow> (string \<times> string) option" where
  "match_call s =
     (let name = takeWhile (\<lambda>c. \<not> is_paren c) s; rest = drop (length name) s in
      if name \<noteq> [] \<and> 2 \<le> length rest \<and> hd rest = CHR ''('' \<and> last rest = CHR '')''
         \<and> CHR 0x0A \<notin> set (butlast (tl rest))
      then Some (name, butlast (tl rest)) else None)"

definition parse_tool_spec :: "string \<Rightarrow> tool_spec" where
  "parse_tool_spec value =
     (let raw = strip value;
          stripped = (case split_once raw '' '' of
             Some (prefix, rest) \<Rightarrow>
               if prefix \<in> {''allow'', ''deny'', ''disallow''} then strip rest else raw
           | None \<Rightarrow> raw) in
      (case match_call stripped of
         Some (name, arg) \<Rightarrow>
           \<lparr>ts_raw = raw, ts_tool_pattern = strip name, ts_argument_pattern = Some (strip arg)\<rparr>
       | None \<Rightarrow>
           \<lparr>ts_raw = raw, ts_tool_pattern = (if stripped = [] then ''*'' else stripped),
            ts_argument_pattern = None\<rparr>))"

definition parse_tool_specs :: "string list \<Rightarrow> tool_spec list" where
  "parse_tool_specs patterns = map parse_tool_spec patterns"

definition names_matching :: "string set \<Rightarrow> string list \<Rightarrow> string set" where
  "names_matching names patterns =
     {name \<in> names. \<exists>spec \<in> set (parse_tool_specs patterns).
        ts_tool_pattern spec = ''*'' \<or> fnmatch name (ts_tool_pattern spec)}"

definition patterns_include :: "string list option \<Rightarrow> string \<Rightarrow> bool" where
  "patterns_include patterns name =
     (case patterns of None \<Rightarrow> False | Some ps \<Rightarrow> name \<in> names_matching {name} ps)"

definition tool_spec_matches :: "string \<Rightarrow> string list \<Rightarrow> bool" where
  "tool_spec_matches tool_name specs = (tool_name \<in> names_matching {tool_name} specs)"

definition command_spec_matches :: "string \<Rightarrow> string \<Rightarrow> string \<Rightarrow> bool" where
  "command_spec_matches tool_name command spec_value =
     (let spec = parse_tool_spec spec_value in
      (ts_tool_pattern spec = ''*'' \<or> fnmatch tool_name (ts_tool_pattern spec)) \<and>
      (case ts_argument_pattern spec of None \<Rightarrow> True | Some a \<Rightarrow> fnmatch command a))"

definition spec_may_match_mcp :: "tool_spec \<Rightarrow> bool" where
  "spec_may_match_mcp spec =
     (startswith (ts_tool_pattern spec) ''mcp'' \<or> contains (ts_tool_pattern spec) ''__''
      \<or> contains (ts_tool_pattern spec) ''.'')"

definition mcp_spec_matches_variant :: "tool_spec \<Rightarrow> string list \<Rightarrow> bool" where
  "mcp_spec_matches_variant spec variants =
     (ts_argument_pattern spec = None \<and>
      (ts_tool_pattern spec = ''*'' \<or>
       (\<exists>v \<in> set variants. v \<noteq> [] \<and> fnmatch v (ts_tool_pattern spec))))"

section \<open>Descriptors\<close>

record tool_descriptor =
  ds_name :: string
  ds_kind :: string
  ds_category :: string
  ds_capabilities :: "string list"
  ds_exposure_tags :: "string list"
  ds_model_visible :: bool
  ds_internal :: bool

definition CANONICAL_CODING_TOOLS :: "string list" where
  "CANONICAL_CODING_TOOLS =
     [''glob'', ''grep'', ''read'', ''edit'', ''shell'', ''wait_command'', ''agent'', ''web'', ''memory'',
      ''enter_plan_mode'', ''ask_user_question'', ''exit_plan_mode'']"

definition PLAN_MUTATING_TOOLS :: "string list" where
  "PLAN_MUTATING_TOOLS = [''agent'', ''edit'', ''memory'', ''shell'']"

definition INTERNAL_MODEL_TOOL_NAMES :: "string list" where
  "INTERNAL_MODEL_TOOL_NAMES = [''create_task'', ''set_task_step'', ''cancel_task'']"

definition plain_descriptor :: "string \<Rightarrow> tool_descriptor" where
  "plain_descriptor name =
     \<lparr>ds_name = name, ds_kind = ''builtin'', ds_category = ''utility'', ds_capabilities = [],
      ds_exposure_tags = [], ds_model_visible = True, ds_internal = False\<rparr>"

definition descriptor_for_tool_name :: "string \<Rightarrow> tool_descriptor" where
  "descriptor_for_tool_name name =
     (let d = plain_descriptor name in
      if name \<in> {''glob'', ''grep'', ''read''}
      then d\<lparr>ds_category := ''code'', ds_capabilities := [''read''], ds_exposure_tags := [''coding'', ''plan_safe'']\<rparr>
      else if name = ''edit''
      then d\<lparr>ds_category := ''code'', ds_capabilities := [''write''], ds_exposure_tags := [''coding'']\<rparr>
      else if name \<in> {''shell'', ''wait_command''}
      then d\<lparr>ds_category := ''code'', ds_capabilities := [''command''], ds_exposure_tags := [''coding'']\<rparr>
      else if name = ''agent''
      then d\<lparr>ds_category := ''agent'', ds_capabilities := [''agent''], ds_exposure_tags := [''coding'']\<rparr>
      else if name = ''web''
      then d\<lparr>ds_category := ''web'', ds_capabilities := [''network_read''], ds_exposure_tags := [''coding'', ''plan_safe'']\<rparr>
      else if name = ''tools''
      then d\<lparr>ds_category := ''utility'', ds_capabilities := [''read''], ds_exposure_tags := [''discovery'']\<rparr>
      else if name = ''memory''
      then d\<lparr>ds_category := ''housekeeping'', ds_capabilities := [''write''], ds_exposure_tags := [''housekeeping'']\<rparr>
      else if name \<in> set INTERNAL_MODEL_TOOL_NAMES
      then d\<lparr>ds_internal := True, ds_model_visible := False\<rparr>
      else d)"

definition is_housekeeping_tool :: "string \<Rightarrow> bool" where
  "is_housekeeping_tool name = (ds_category (descriptor_for_tool_name name) = ''housekeeping'')"

section \<open>The resolver\<close>

record exposure_resolver =
  er_default_profile :: string
  er_explicit_visible :: "string list option"
  er_hidden :: "string list"

record exposure_context =
  ec_profile :: "string option"
  ec_run_kind :: string
  ec_permission_mode :: string
  ec_allowed_tools :: "string list option"
  ec_disallowed_tools :: "string list"
  ec_include_mcp :: bool

definition optional_tuple :: "pyval \<Rightarrow> string list option" where
  "optional_tuple v =
     (case v of
        PStr s \<Rightarrow> Some [s]
      | PList xs \<Rightarrow> Some (map py_str xs)
      | PDict d \<Rightarrow> Some (map fst d)
      | _ \<Rightarrow> None)"

definition make_resolver :: "(string \<times> pyval) list \<Rightarrow> exposure_resolver" where
  "make_resolver config =
     (let builtin = (case dget config ''builtin'' of PDict d \<Rightarrow> d | _ \<Rightarrow> []) in
      \<lparr>er_default_profile = lower
         (str_or (dget builtin ''exposure'')
           (str_or (dget config ''builtin_exposure'')
             (str_or (dget config ''exposure'') ''coding''))),
       er_explicit_visible = optional_tuple
         (dget_or builtin ''model_visible_tools'' (dget config ''model_visible_tools'')),
       er_hidden =
         (case optional_tuple (dget_or builtin ''hidden_tools'' (dget_or config ''hidden_tools'' (PList []))) of
            None \<Rightarrow> [] | Some xs \<Rightarrow> xs)\<rparr>)"

definition or_coding :: "string \<Rightarrow> string" where
  "or_coding s = (if s = [] then ''coding'' else s)"

definition exposure_context_of ::
  "exposure_resolver \<Rightarrow> (string \<times> pyval) list \<Rightarrow> exposure_context result" where
  "exposure_context_of r overrides =
     map_result
       (\<lambda>items. \<lparr>ec_profile = Some (lower (str_or (dget overrides ''profile'') (or_coding (er_default_profile r)))),
          ec_run_kind = str_or (dget overrides ''run_kind'') ''chat'',
          ec_permission_mode = str_or (dget overrides ''permission_mode'') ''default'',
          ec_allowed_tools = optional_tuple (dget overrides ''allowed_tools''),
          ec_disallowed_tools = map py_str items,
          ec_include_mcp = py_true (dget_or overrides ''include_mcp'' (PBool False))\<rparr>)
       (if py_true (dget overrides ''disallowed_tools'') then py_iter (dget overrides ''disallowed_tools'')
        else Inr [])"

definition default_context :: "exposure_resolver \<Rightarrow> exposure_context" where
  "default_context r =
     \<lparr>ec_profile = Some (lower (or_coding (er_default_profile r))), ec_run_kind = ''chat'',
      ec_permission_mode = ''default'', ec_allowed_tools = None, ec_disallowed_tools = [],
      ec_include_mcp = False\<rparr>"

text \<open>The context with a profile in lower case, \<open>_context\<close>.\<close>

definition context_or_default :: "exposure_resolver \<Rightarrow> exposure_context option \<Rightarrow> exposure_context" where
  "context_or_default r c =
     (case c of
        None \<Rightarrow> default_context r
      | Some x \<Rightarrow>
          if truthy_opt (ec_profile x) then x\<lparr>ec_profile := Some (lower (or_empty (ec_profile x)))\<rparr>
          else x\<lparr>ec_profile := Some (or_coding (er_default_profile r))\<rparr>)"

definition profile_allows :: "tool_descriptor \<Rightarrow> string \<Rightarrow> bool" where
  "profile_allows d profile =
     (if ds_internal d \<or> \<not> ds_model_visible d then profile = ''internal''
      else if profile = ''internal'' then True
      else if profile = ''full'' then ds_name d \<notin> set INTERNAL_MODEL_TOOL_NAMES
      else if profile = ''minimal'' then ds_name d \<in> {''glob'', ''grep'', ''read'', ''web''}
      else ds_name d \<in> set CANONICAL_CODING_TOOLS)"

definition explicit_allows :: "tool_descriptor \<Rightarrow> bool" where
  "explicit_allows d = (ds_model_visible d \<and> \<not> ds_internal d)"

definition is_plan_mode :: "string \<Rightarrow> bool" where
  "is_plan_mode m = (m = ''plan'' \<or> m = ''plan_mode'')"

text \<open>
  \<open>visible_local_names\<close>, step by step.  \<open>by_name\<close> is the dictionary of the descriptors, in
  which a later descriptor replaces an earlier one of the same name.
\<close>

definition by_name :: "tool_descriptor list \<Rightarrow> string \<Rightarrow> tool_descriptor option" where
  "by_name ds = map_of (rev (map (\<lambda>d. (ds_name d, d)) ds))"

definition profile_visible ::
  "exposure_resolver \<Rightarrow> tool_descriptor list \<Rightarrow> exposure_context \<Rightarrow> string set" where
  "profile_visible r ds c =
     (case er_explicit_visible r of
        Some xs \<Rightarrow> {n \<in> set xs. by_name ds n \<noteq> None}
      | None \<Rightarrow> {n \<in> ds_name ` set ds.
          case by_name ds n of None \<Rightarrow> False | Some d \<Rightarrow> profile_allows d (or_empty (ec_profile c))})"

definition requested_names :: "tool_descriptor list \<Rightarrow> string list \<Rightarrow> string set" where
  "requested_names ds allowed =
     (let requested = names_matching (ds_name ` set ds) allowed in
      if patterns_include (Some allowed) ''*'' then requested
      else {n \<in> requested. case by_name ds n of None \<Rightarrow> False | Some d \<Rightarrow> explicit_allows d})"

definition allow_listed :: "tool_descriptor list \<Rightarrow> exposure_context \<Rightarrow> string set \<Rightarrow> string set" where
  "allow_listed ds c visible =
     (case ec_allowed_tools c of
        None \<Rightarrow> visible
      | Some allowed \<Rightarrow>
          let requested = requested_names ds allowed in
          (if patterns_include (Some allowed) ''*'' then visible else visible \<union> requested) \<inter> requested)"

text \<open>The names before the lists of the context: by profile, permission mode and kind of run.\<close>

definition base_visible ::
  "exposure_resolver \<Rightarrow> tool_descriptor list \<Rightarrow> exposure_context \<Rightarrow> string set" where
  "base_visible r ds c =
     (let v0 = profile_visible r ds c;
          v1 = (if is_plan_mode (ec_permission_mode c) then v0 - set PLAN_MUTATING_TOOLS else v0) in
      if ec_run_kind c \<in> {''agent'', ''workflow'', ''workflow_step''}
         \<and> \<not> patterns_include (ec_allowed_tools c) ''agent'' then v1 - {''agent''} else v1)"

definition visible_local_names ::
  "exposure_resolver \<Rightarrow> tool_descriptor list \<Rightarrow> exposure_context option \<Rightarrow> string set" where
  "visible_local_names r ds ctx =
     (let c = context_or_default r ctx;
          v3 = allow_listed ds c (base_visible r ds c);
          v4 = (if ec_disallowed_tools c = [] then v3 else v3 - names_matching v3 (ec_disallowed_tools c));
          v5 = v4 - set (er_hidden r) in
      if ec_run_kind c \<noteq> ''chat'' \<or> is_plan_mode (ec_permission_mode c) then v5 - {''memory''} else v5)"

definition is_local_visible ::
  "exposure_resolver \<Rightarrow> tool_descriptor \<Rightarrow> exposure_context option \<Rightarrow> bool" where
  "is_local_visible r d ctx =
     (ds_name d \<in> visible_local_names r [d] (Some (context_or_default r ctx)))"

definition mcp_visible :: "exposure_resolver \<Rightarrow> exposure_context option \<Rightarrow> bool" where
  "mcp_visible r ctx =
     (let c = context_or_default r ctx in
      if ec_include_mcp c \<or> ec_profile c = Some ''internal'' then True
      else (case ec_allowed_tools c of
              None \<Rightarrow> False
            | Some allowed \<Rightarrow> \<exists>spec \<in> set (parse_tool_specs allowed). spec_may_match_mcp spec))"

definition mcp_tool_visible ::
  "exposure_resolver \<Rightarrow> string \<Rightarrow> string \<Rightarrow> string \<Rightarrow> exposure_context option \<Rightarrow> bool" where
  "mcp_tool_visible r callable original server ctx =
     (let c = context_or_default r ctx;
          variants = [callable, original,
            if server \<noteq> [] \<and> original \<noteq> [] then server @ ''.'' @ original else []] in
      mcp_visible r (Some c) \<and>
      (case ec_allowed_tools c of
         None \<Rightarrow> True
       | Some allowed \<Rightarrow> \<exists>spec \<in> set (parse_tool_specs allowed). mcp_spec_matches_variant spec variants) \<and>
      (ec_disallowed_tools c = [] \<or>
       \<not> (\<exists>spec \<in> set (parse_tool_specs (ec_disallowed_tools c)). mcp_spec_matches_variant spec variants)))"

section \<open>Lemmas\<close>

lemma names_matching_subset: "names_matching N ps \<subseteq> N"
  by (auto simp: names_matching_def)

lemma names_matching_mono: "M \<subseteq> N \<Longrightarrow> names_matching M ps = M \<inter> names_matching N ps"
  by (auto simp: names_matching_def)

lemma names_matching_Int: "n \<in> names_matching N ps \<longleftrightarrow> n \<in> N \<and> tool_spec_matches n ps"
  by (auto simp: names_matching_def tool_spec_matches_def)

lemma by_name_SomeD: "by_name ds n = Some d \<Longrightarrow> d \<in> set ds \<and> ds_name d = n"
  by (auto simp: by_name_def dest!: map_of_SomeD)

lemma by_name_dom: "by_name ds n \<noteq> None \<longleftrightarrow> n \<in> ds_name ` set ds"
  by (auto simp: by_name_def map_of_eq_None_iff image_image)

lemma profile_visible_subset: "profile_visible r ds c \<subseteq> ds_name ` set ds"
proof
  fix n assume "n \<in> profile_visible r ds c"
  then have "by_name ds n \<noteq> None \<or> n \<in> ds_name ` set ds"
    by (auto simp: profile_visible_def split: option.splits)
  then show "n \<in> ds_name ` set ds" using by_name_dom [of ds n] by blast
qed

lemma requested_subset: "requested_names ds allowed \<subseteq> names_matching (ds_name ` set ds) allowed"
  by (auto simp: requested_names_def Let_def)

lemma allow_listed_Some:
  "ec_allowed_tools c = Some allowed \<Longrightarrow> allow_listed ds c v \<subseteq> requested_names ds allowed"
  by (simp add: allow_listed_def Let_def)

lemma allow_listed_matches:
  assumes "ec_allowed_tools c = Some allowed" and "n \<in> allow_listed ds c v"
  shows "n \<in> ds_name ` set ds \<and> tool_spec_matches n allowed"
proof -
  have "n \<in> names_matching (ds_name ` set ds) allowed"
    using assms allow_listed_Some requested_subset by blast
  then show ?thesis by (simp add: names_matching_Int)
qed

lemma allow_listed_subset: "v \<subseteq> ds_name ` set ds \<Longrightarrow> allow_listed ds c v \<subseteq> ds_name ` set ds"
  using allow_listed_matches by (cases "ec_allowed_tools c") (auto simp: allow_listed_def)

lemma base_visible_subset: "base_visible r ds c \<subseteq> ds_name ` set ds"
  using profile_visible_subset [of r ds c] by (auto simp: base_visible_def Let_def)

lemma not_disallowed:
  "n \<in> v - names_matching v ps \<Longrightarrow> \<not> tool_spec_matches n ps"
  by (simp add: names_matching_Int)

lemma tool_spec_matches_Nil [simp]: "\<not> tool_spec_matches n []"
  by (simp add: tool_spec_matches_def names_matching_def parse_tool_specs_def)

text \<open>
  The visible tools are known ones, none is hidden by configuration or matches a
  disallowed pattern, with an allow list each matches one of its patterns, and the memory
  tool is visible only in the main conversation outside plan mode.
\<close>

theorem exposure_limits:
  fixes r ds ctx
  defines "c \<equiv> context_or_default r ctx"
  assumes "n \<in> visible_local_names r ds ctx"
  shows "n \<in> ds_name ` set ds \<and> n \<notin> set (er_hidden r) \<and>
         \<not> tool_spec_matches n (ec_disallowed_tools c) \<and>
         (\<forall>allowed. ec_allowed_tools c = Some allowed \<longrightarrow> tool_spec_matches n allowed) \<and>
         (n = ''memory'' \<longrightarrow> ec_run_kind c = ''chat'' \<and> \<not> is_plan_mode (ec_permission_mode c))"
proof -
  let ?v = "allow_listed ds c (base_visible r ds c)"
  have vis: "visible_local_names r ds ctx =
      (let v4 = (if ec_disallowed_tools c = [] then ?v else ?v - names_matching ?v (ec_disallowed_tools c));
           v5 = v4 - set (er_hidden r) in
       if ec_run_kind c \<noteq> ''chat'' \<or> is_plan_mode (ec_permission_mode c) then v5 - {''memory''} else v5)"
    unfolding visible_local_names_def c_def Let_def ..
  have n: "n \<in> ?v" using assms(2) unfolding vis Let_def by (simp split: if_splits)
  moreover have "n \<notin> set (er_hidden r)" using assms(2) unfolding vis Let_def by (simp split: if_splits)
  moreover have "\<not> tool_spec_matches n (ec_disallowed_tools c)"
    using assms(2) unfolding vis Let_def by (simp add: names_matching_Int split: if_splits)
  moreover have "n = ''memory'' \<longrightarrow> ec_run_kind c = ''chat'' \<and> \<not> is_plan_mode (ec_permission_mode c)"
    using assms(2) unfolding vis Let_def by (simp split: if_splits)
  moreover have "n \<in> ds_name ` set ds" using n allow_listed_subset [OF base_visible_subset] by blast
  moreover have "\<forall>allowed. ec_allowed_tools c = Some allowed \<longrightarrow> tool_spec_matches n allowed"
    using allow_listed_matches [OF _ n] by blast
  ultimately show ?thesis by (intro conjI)
qed

definition demo_resolver :: exposure_resolver where
  "demo_resolver = make_resolver [(''builtin'', PDict [(''hidden_tools'', PList [PStr ''web''])])]"

definition demo_descriptors :: "tool_descriptor list" where
  "demo_descriptors = map descriptor_for_tool_name [''read'', ''edit'', ''web'', ''memory'', ''create_task'']"

definition demo_plan_context :: exposure_context where
  "demo_plan_context = \<lparr>ec_profile = None, ec_run_kind = ''chat'', ec_permission_mode = ''plan'',
     ec_allowed_tools = None, ec_disallowed_tools = [''grep''], ec_include_mcp = False\<rparr>"

theorem exposure_limits_witness:
  "''read'' \<in> visible_local_names demo_resolver demo_descriptors (Some demo_plan_context) \<and>
   ''read'' \<notin> set (er_hidden demo_resolver)"
proof -
  have "''read'' \<in> visible_local_names demo_resolver demo_descriptors (Some demo_plan_context)" by code_simp
  with exposure_limits [OF this] show ?thesis by blast
qed

text \<open>
  C8: In plan mode a tool that changes something is visible exactly if an allow list, without
  naming all tools, matches its name and its descriptor may be shown, and it is not the memory
  tool, not hidden by the configuration and not matched by the list of disallowed tools.  So such
  tools are hidden in plan mode, except that an allow list shows them again: the names it adds
  are added after the removal.
\<close>

theorem plan_mode_hides_mutating_tools:
  fixes r ds ctx
  defines "c \<equiv> context_or_default r ctx"
  assumes "is_plan_mode (ec_permission_mode c)" and "n \<in> set PLAN_MUTATING_TOOLS"
  shows "n \<in> visible_local_names r ds ctx \<longleftrightarrow>
         n \<noteq> ''memory'' \<and> n \<notin> set (er_hidden r) \<and>
         (ec_disallowed_tools c = [] \<or> \<not> tool_spec_matches n (ec_disallowed_tools c)) \<and>
         (\<exists>allowed. ec_allowed_tools c = Some allowed \<and> \<not> patterns_include (Some allowed) ''*'' \<and>
            tool_spec_matches n allowed \<and> (\<exists>d. by_name ds n = Some d \<and> explicit_allows d))"
proof -
  have base: "n \<notin> base_visible r ds c" using assms(2,3) by (simp add: base_visible_def Let_def)
  have "n \<in> allow_listed ds c (base_visible r ds c) \<longleftrightarrow>
      (\<exists>allowed. ec_allowed_tools c = Some allowed \<and> \<not> patterns_include (Some allowed) ''*'' \<and>
         n \<in> requested_names ds allowed)"
    using base by (auto simp: allow_listed_def Let_def split: option.splits)
  moreover have "n \<in> requested_names ds allowed \<longleftrightarrow>
      tool_spec_matches n allowed \<and> (\<exists>d. by_name ds n = Some d \<and> explicit_allows d)"
    if "\<not> patterns_include (Some allowed) ''*''" for allowed
  proof -
    have "n \<in> requested_names ds allowed \<longleftrightarrow> n \<in> names_matching (ds_name ` set ds) allowed \<and>
        (case by_name ds n of None \<Rightarrow> False | Some d \<Rightarrow> explicit_allows d)"
      using that by (simp add: requested_names_def Let_def)
    then show ?thesis using by_name_dom [of ds n]
      by (cases "by_name ds n") (simp_all add: names_matching_Int)
  qed
  ultimately have "n \<in> allow_listed ds c (base_visible r ds c) \<longleftrightarrow>
      (\<exists>allowed. ec_allowed_tools c = Some allowed \<and> \<not> patterns_include (Some allowed) ''*'' \<and>
         tool_spec_matches n allowed \<and> (\<exists>d. by_name ds n = Some d \<and> explicit_allows d))"
    by auto
  moreover have "n \<in> visible_local_names r ds ctx \<longleftrightarrow> n \<in> allow_listed ds c (base_visible r ds c) \<and>
      (ec_disallowed_tools c = [] \<or> \<not> tool_spec_matches n (ec_disallowed_tools c)) \<and> n \<notin> set (er_hidden r) \<and>
      n \<noteq> ''memory''"
    using assms(2) by (auto simp: visible_local_names_def Let_def c_def [symmetric] names_matching_Int)
  ultimately show ?thesis by blast
qed

text \<open>Without an allow list the edit tool is hidden; a list that names it shows it.\<close>

theorem plan_mode_hides_mutating_tools_witness:
  "''edit'' \<notin> visible_local_names demo_resolver demo_descriptors (Some (demo_plan_context\<lparr>ec_allowed_tools := None\<rparr>)) \<and>
   ''edit'' \<in> visible_local_names demo_resolver demo_descriptors
     (Some (demo_plan_context\<lparr>ec_allowed_tools := Some [''edit''], ec_disallowed_tools := [''read'']\<rparr>))"
proof
  let ?c = "context_or_default demo_resolver (Some (demo_plan_context\<lparr>ec_allowed_tools := None\<rparr>))"
  have a: "is_plan_mode (ec_permission_mode ?c)" "''edit'' \<in> set PLAN_MUTATING_TOOLS" by code_simp+
  have "ec_allowed_tools ?c = None" by code_simp
  then show "''edit'' \<notin> visible_local_names demo_resolver demo_descriptors (Some (demo_plan_context\<lparr>ec_allowed_tools := None\<rparr>))"
    using plan_mode_hides_mutating_tools [OF a] by simp
next
  let ?c = "context_or_default demo_resolver
      (Some (demo_plan_context\<lparr>ec_allowed_tools := Some [''edit''], ec_disallowed_tools := [''read'']\<rparr>))"
  have b: "is_plan_mode (ec_permission_mode ?c)" "''edit'' \<in> set PLAN_MUTATING_TOOLS" by code_simp+
  have "ec_allowed_tools ?c = Some [''edit'']" "ec_disallowed_tools ?c = [''read'']"
    "\<not> patterns_include (Some [''edit'']) ''*''" "tool_spec_matches ''edit'' [''edit'']"
    "\<not> tool_spec_matches ''edit'' [''read'']" "''edit'' \<notin> set (er_hidden demo_resolver)"
    "by_name demo_descriptors ''edit'' = Some (descriptor_for_tool_name ''edit'')"
    "explicit_allows (descriptor_for_tool_name ''edit'')"
    by code_simp+
  then show "''edit'' \<in> visible_local_names demo_resolver demo_descriptors
      (Some (demo_plan_context\<lparr>ec_allowed_tools := Some [''edit''], ec_disallowed_tools := [''read'']\<rparr>))"
    using plan_mode_hides_mutating_tools [OF b] by simp
qed

end
