(* ===== verification/ToolRegistry.thy ===== *)
theory ToolRegistry
  imports Exposure
begin

text \<open>
  The registry of local tools (\<open>ToolRegistry\<close> of \<open>tools/exposure.py\<close>).  Registering a tool
  checks its parameter schema with an explicit stack of the schemas still to visit; the lemmas
  relate that walk to a recursive description of the schemas it accepts.
\<close>

record base_tool =
  bt_name :: string
  bt_schema :: "(string \<times> pyval) list"

record tool_registry =
  tr_tools :: "(string \<times> base_tool) list"
  tr_descriptors :: "(string \<times> tool_descriptor) list"

definition has_key :: "(string \<times> pyval) list \<Rightarrow> string \<Rightarrow> bool" where
  "has_key d k = (k \<in> fst ` set d)"

definition is_dict :: "pyval \<Rightarrow> bool" where
  "is_dict v = (case v of PDict _ \<Rightarrow> True | _ \<Rightarrow> False)"

text \<open>The test of an object schema: of type object, with no other properties allowed.\<close>

definition closed_object :: "(string \<times> pyval) list \<Rightarrow> bool" where
  "closed_object d =
     (dget d ''type'' = PStr ''object'' \<and> dget d ''additionalProperties'' = PBool False \<and>
      is_dict (dget d ''properties''))"

definition typed_schema :: "pyval \<Rightarrow> bool" where
  "typed_schema v =
     (case v of
        PDict d \<Rightarrow> \<exists>k \<in> {''type'', ''oneOf'', ''anyOf'', ''allOf'', ''$ref''}. has_key d k
      | _ \<Rightarrow> False)"

definition schema_error :: "string \<Rightarrow> string \<Rightarrow> string \<Rightarrow> pyerr" where
  "schema_error name place what = ValueError (''tool '' @ repr_str name @ '' '' @ place @ '' '' @ what)"

text \<open>The properties of an object schema, each with its path, or the error of the first bad one.\<close>

fun property_schemas ::
  "string \<Rightarrow> string \<Rightarrow> (string \<times> pyval) list \<Rightarrow> (string \<times> pyval) list result" where
  "property_schemas name path [] = Inr []"
| "property_schemas name path ((k, v) # ps) =
     (if typed_schema v
      then map_result (Cons (path @ ''.'' @ k, v)) (property_schemas name path ps)
      else Inl (schema_error name (path @ ''.'' @ k) ''has no schema type''))"

text \<open>What one visited dictionary pushes on the stack, or the error it raises.\<close>

definition visit_dict ::
  "string \<Rightarrow> string \<Rightarrow> (string \<times> pyval) list \<Rightarrow> (string \<times> pyval) list result" where
  "visit_dict name path d =
     (if has_key d ''default'' then Inl (schema_error name path ''must not declare default'')
      else
        bind_result
          (case dget d ''properties'' of
             PNone \<Rightarrow> Inr []
           | p \<Rightarrow>
               if \<not> closed_object d then Inl (schema_error name path ''must be a closed object'')
               else (case p of PDict ps \<Rightarrow> property_schemas name path ps | _ \<Rightarrow> Inr []))
          (\<lambda>props.
             if dget d ''type'' = PStr ''array'' \<and> \<not> has_key d ''items''
             then Inl (schema_error name path ''has no items schema'')
             else Inr (props @ map (\<lambda>(k, v). (path, v)) (filter (\<lambda>p. fst p \<noteq> ''properties'') d))))"

fun psize :: "pyval \<Rightarrow> nat" where
  "psize (PList xs) = Suc (sum_list (map psize xs))"
| "psize (PDict d) = Suc (sum_list (map (\<lambda>p. psize (snd p)) d))"
| "psize _ = 1"

definition stack_size :: "(string \<times> pyval) list \<Rightarrow> nat" where
  "stack_size st = sum_list (map (\<lambda>p. psize (snd p)) st)"

lemma stack_size_simps [simp]:
  "stack_size [] = 0"
  "stack_size ((p, v) # st) = psize v + stack_size st"
  "stack_size (st @ st') = stack_size st + stack_size st'"
  "stack_size (rev st) = stack_size st"
  by (simp_all add: stack_size_def sum_list_rev flip: rev_map)

lemma stack_size_map [simp]: "stack_size (map (\<lambda>v. (p, v)) xs) = sum_list (map psize xs)"
  by (simp add: stack_size_def comp_def)

lemma property_schemas_Inr:
  "property_schemas name path ps = Inr st \<Longrightarrow> map snd st = map snd ps"
  by (induction ps arbitrary: st) (auto simp: map_result_eq_Inr split: if_splits)

lemma stack_size_snd: "map snd st = map snd st' \<Longrightarrow> stack_size st = stack_size st'"
  unfolding stack_size_def by (metis (no_types, lifting) comp_apply map_cong map_map)

lemma dget_psize:
  assumes "dget d k = PDict ps"
  shows "stack_size ps + sum_list (map (\<lambda>p. psize (snd p)) (filter (\<lambda>p. fst p \<noteq> k) d))
         < Suc (sum_list (map (\<lambda>p. psize (snd p)) d))"
  using assms
proof (induction d)
  case Nil
  then show ?case by simp
next
  case (Cons x d)
  obtain k' v where x: "x = (k', v)" by (cases x)
  show ?case
  proof (cases "k' = k")
    case True
    have "sum_list (map (\<lambda>p. psize (snd p)) (filter (\<lambda>p. fst p \<noteq> k) d)) \<le> sum_list (map (\<lambda>p. psize (snd p)) d)"
      by (rule sum_list_filter_le_nat)
    with True Cons.prems x show ?thesis by (simp add: stack_size_def)
  next
    case False
    with Cons x show ?thesis by simp
  qed
qed

lemma visit_dict_size:
  assumes "visit_dict name path d = Inr st"
  shows "stack_size st < psize (PDict d)"
proof -
  have rest: "stack_size (map (\<lambda>(k, v). (path, v)) (filter (\<lambda>p. fst p \<noteq> ''properties'') d)) =
      sum_list (map (\<lambda>p. psize (snd p)) (filter (\<lambda>p. fst p \<noteq> ''properties'') d))"
    by (simp add: stack_size_def comp_def case_prod_unfold)
  have le: "sum_list (map (\<lambda>p. psize (snd p)) (filter (\<lambda>p. fst p \<noteq> ''properties'') d))
      \<le> sum_list (map (\<lambda>p. psize (snd p)) d)"
    by (rule sum_list_filter_le_nat)
  show ?thesis
  proof (cases "dget d ''properties''")
    case (PDict ps)
    then obtain props where p: "property_schemas name path ps = Inr props"
      "st = props @ map (\<lambda>(k, v). (path, v)) (filter (\<lambda>p. fst p \<noteq> ''properties'') d)"
      using assms by (auto simp: visit_dict_def bind_result_eq_Inr split: if_splits)
    have "stack_size props = stack_size ps"
      using property_schemas_Inr [OF p(1)] by (rule stack_size_snd)
    then show ?thesis using dget_psize [OF PDict] rest p(2) by simp
  qed (use assms rest le in \<open>auto simp: visit_dict_def closed_object_def is_dict_def split: if_splits\<close>)
qed

text \<open>The loop over the stack: the last schema pushed is visited first.\<close>

function schema_walk :: "string \<Rightarrow> (string \<times> pyval) list \<Rightarrow> unit result" where
  "schema_walk name [] = Inr ()"
| "schema_walk name ((path, v) # st) =
     (case v of
        PList xs \<Rightarrow> schema_walk name (rev (map (\<lambda>x. (path, x)) xs) @ st)
      | PDict d \<Rightarrow>
          (case visit_dict name path d of
             Inl e \<Rightarrow> Inl e
           | Inr pushed \<Rightarrow> schema_walk name (rev pushed @ st))
      | _ \<Rightarrow> schema_walk name st)"
  by pat_completeness auto
termination
  by (relation "measure (stack_size \<circ> snd)") (auto dest: visit_dict_size)

definition register ::
  "base_tool \<Rightarrow> tool_descriptor option \<Rightarrow> tool_registry \<Rightarrow> tool_registry result" where
  "register tool descriptor reg =
     (let name = bt_name tool; schema = bt_schema tool in
      if name \<in> fst ` set (tr_tools reg)
      then Inl (ValueError (''tool '' @ repr_str name @ '' is already registered''))
      else if \<not> closed_object schema
      then Inl (schema_error name ''parameters'' ''must be an object schema with properties and additionalProperties=false'')
      else
        map_result
          (\<lambda>_. \<lparr>tr_tools = dict_set name tool (tr_tools reg),
                tr_descriptors = dict_set name
                  (case descriptor of None \<Rightarrow> descriptor_for_tool_name name | Some d \<Rightarrow> d)
                  (tr_descriptors reg)\<rparr>)
          (schema_walk name [(''parameters'', PDict schema)]))"

definition registry_get :: "tool_registry \<Rightarrow> string \<Rightarrow> base_tool option" where
  "registry_get reg name = map_of (tr_tools reg) name"

definition registry_names :: "tool_registry \<Rightarrow> string list" where
  "registry_names reg = map fst (tr_tools reg)"

definition registry_descriptor :: "tool_registry \<Rightarrow> string \<Rightarrow> tool_descriptor option" where
  "registry_descriptor reg name = map_of (tr_descriptors reg) name"

section \<open>The schemas the walk accepts\<close>

definition dict_ok :: "(string \<times> pyval) list \<Rightarrow> bool" where
  "dict_ok d =
     (\<not> has_key d ''default'' \<and>
      (dget d ''properties'' = PNone \<or>
       closed_object d \<and> (\<forall>ps. dget d ''properties'' = PDict ps \<longrightarrow> (\<forall>p \<in> set ps. typed_schema (snd p)))) \<and>
      (dget d ''type'' = PStr ''array'' \<longrightarrow> has_key d ''items''))"

text \<open>A schema at any depth: list items, the properties of objects, and all other entries.\<close>

inductive subschema :: "pyval \<Rightarrow> pyval \<Rightarrow> bool" where
  self: "subschema v v"
| list_item: "x \<in> set xs \<Longrightarrow> subschema x v \<Longrightarrow> subschema (PList xs) v"
| in_properties: "dget d ''properties'' = PDict ps \<Longrightarrow> p \<in> set ps \<Longrightarrow> subschema (snd p) v \<Longrightarrow> subschema (PDict d) v"
| in_entry: "p \<in> set d \<Longrightarrow> fst p \<noteq> ''properties'' \<Longrightarrow> subschema (snd p) v \<Longrightarrow> subschema (PDict d) v"

inductive_cases subschema_listE: "subschema (PList xs) v"
inductive_cases subschema_dictE: "subschema (PDict d) v"

definition schema_ok :: "pyval \<Rightarrow> bool" where
  "schema_ok v = (\<forall>d. subschema v (PDict d) \<longrightarrow> dict_ok d)"

lemma schema_ok_list: "schema_ok (PList xs) \<longleftrightarrow> (\<forall>x \<in> set xs. schema_ok x)"
  by (auto simp: schema_ok_def elim: subschema_listE intro: subschema.list_item)

lemma schema_ok_atom:
  "\<not> is_dict v \<Longrightarrow> (\<And>xs. v \<noteq> PList xs) \<Longrightarrow> schema_ok v"
  by (cases v) (auto simp: schema_ok_def is_dict_def elim: subschema.cases)

lemma schema_ok_dict:
  "schema_ok (PDict d) \<longleftrightarrow>
   dict_ok d \<and>
   (\<forall>ps. dget d ''properties'' = PDict ps \<longrightarrow> (\<forall>p \<in> set ps. schema_ok (snd p))) \<and>
   (\<forall>p \<in> set d. fst p \<noteq> ''properties'' \<longrightarrow> schema_ok (snd p))"
proof
  assume "schema_ok (PDict d)"
  then show "dict_ok d \<and>
   (\<forall>ps. dget d ''properties'' = PDict ps \<longrightarrow> (\<forall>p \<in> set ps. schema_ok (snd p))) \<and>
   (\<forall>p \<in> set d. fst p \<noteq> ''properties'' \<longrightarrow> schema_ok (snd p))"
    unfolding schema_ok_def by (meson subschema.self subschema.in_properties subschema.in_entry)
next
  assume r: "dict_ok d \<and>
   (\<forall>ps. dget d ''properties'' = PDict ps \<longrightarrow> (\<forall>p \<in> set ps. schema_ok (snd p))) \<and>
   (\<forall>p \<in> set d. fst p \<noteq> ''properties'' \<longrightarrow> schema_ok (snd p))"
  show "schema_ok (PDict d)"
    unfolding schema_ok_def
  proof (intro allI impI)
    fix e assume "subschema (PDict d) (PDict e)"
    then show "dict_ok e"
      by (rule subschema_dictE) (use r in \<open>auto simp: schema_ok_def\<close>)
  qed
qed

lemma property_schemas_iff:
  "(\<exists>st. property_schemas name path ps = Inr st) \<longleftrightarrow> (\<forall>p \<in> set ps. typed_schema (snd p))"
  by (induction ps) (auto simp: map_result_eq_Inr split: if_splits)

lemma pathed_values:
  "(\<forall>p \<in> set (map (\<lambda>(k, v). (path, v)) d). Q (snd p)) = (\<forall>p \<in> set d. Q (snd p))"
  by (induction d) auto

lemma visit_dict_iff: "(\<exists>st. visit_dict name path d = Inr st) \<longleftrightarrow> dict_ok d"
proof (cases "dget d ''properties''")
  case (PDict ps)
  then show ?thesis using property_schemas_iff [of name path ps]
    by (auto simp: visit_dict_def dict_ok_def bind_result_eq_Inr)
qed (auto simp: visit_dict_def dict_ok_def closed_object_def is_dict_def)

lemma visit_dict_values:
  assumes "visit_dict name path d = Inr st"
  shows "(\<forall>p \<in> set st. schema_ok (snd p)) \<longleftrightarrow>
     (\<forall>ps. dget d ''properties'' = PDict ps \<longrightarrow> (\<forall>p \<in> set ps. schema_ok (snd p))) \<and>
     (\<forall>p \<in> set d. fst p \<noteq> ''properties'' \<longrightarrow> schema_ok (snd p))"
proof (cases "dget d ''properties''")
  case (PDict ps)
  then obtain props where p: "property_schemas name path ps = Inr props"
    "st = props @ map (\<lambda>(k, v). (path, v)) (filter (\<lambda>p. fst p \<noteq> ''properties'') d)"
    using assms by (auto simp: visit_dict_def bind_result_eq_Inr split: if_splits)
  have "snd ` set props = snd ` set ps"
    using property_schemas_Inr [OF p(1)] by (metis list.set_map)
  then have "(\<forall>p \<in> set props. schema_ok (snd p)) = (\<forall>p \<in> set ps. schema_ok (snd p))"
    by (metis (no_types, lifting) image_iff)
  then show ?thesis using PDict p(2) pathed_values [of path "filter (\<lambda>p. fst p \<noteq> ''properties'') d" schema_ok]
    by (auto simp: ball_Un simp del: set_map)
qed (use assms in \<open>fastforce simp: visit_dict_def closed_object_def is_dict_def split: if_splits\<close>)+

lemma schema_walk_iff:
  "schema_walk name st = Inr () \<longleftrightarrow> (\<forall>p \<in> set st. schema_ok (snd p))"
proof (induction name st rule: schema_walk.induct)
  case (1 name)
  then show ?case by simp
next
  case (2 name path v st)
  show ?case
  proof (cases v)
    case (PList xs)
    then show ?thesis using 2(5) [OF PList] by (simp add: schema_ok_list ball_Un)
  next
    case (PDict d)
    show ?thesis
    proof (cases "visit_dict name path d")
      case (Inl e)
      then have "\<not> dict_ok d" using visit_dict_iff [of name path d] by auto
      with Inl PDict show ?thesis by (simp add: schema_ok_dict)
    next
      case (Inr pushed)
      then have "dict_ok d" using visit_dict_iff [of name path d] by blast
      then show ?thesis using 2(6) [OF PDict Inr] visit_dict_values [OF Inr] PDict Inr
        by (simp add: schema_ok_dict ball_Un)
    qed
  qed (use 2 in \<open>simp_all add: schema_ok_atom is_dict_def\<close>)
qed

text \<open>
  C9: A tool is registered exactly if its name is new, its parameters are a closed object
  schema, and at every depth no schema has a default, every object with properties is closed
  and gives each property a type, and every array has an items schema.
\<close>

theorem register_checks_all_depths:
  "(\<exists>reg'. register tool descriptor reg = Inr reg') \<longleftrightarrow>
     registry_get reg (bt_name tool) = None \<and> closed_object (bt_schema tool) \<and>
     schema_ok (PDict (bt_schema tool))"
proof -
  have "registry_get reg (bt_name tool) = None \<longleftrightarrow> bt_name tool \<notin> fst ` set (tr_tools reg)"
    by (simp add: registry_get_def map_of_eq_None_iff)
  moreover have "schema_walk (bt_name tool) [(''parameters'', PDict (bt_schema tool))] = Inr () \<longleftrightarrow>
      schema_ok (PDict (bt_schema tool))"
    using schema_walk_iff [of "bt_name tool" "[(''parameters'', PDict (bt_schema tool))]"] by simp
  ultimately show ?thesis by (auto simp: register_def Let_def map_result_eq_Inr)
qed

lemma register_get:
  "register tool descriptor reg = Inr reg' \<Longrightarrow>
   registry_get reg' n = (if n = bt_name tool then Some tool else registry_get reg n)"
  by (auto simp: register_def Let_def map_result_eq_Inr registry_get_def split: if_splits)

end
