(* ===== verification/CommandPolicy.thy ===== *)
theory CommandPolicy
  imports Glob
begin

text \<open>
  The classification of shell commands (\<open>tools/security/command_policy.py\<close>): deny rules are
  tried on the whole command and on each part between operators; a command with an operator
  or a substitution is asked for; a simple command follows the first rule that matches it.
\<close>

datatype behavior = Allow | Ask | Deny

record command_rule =
  cr_id :: string
  cr_behavior :: behavior
  cr_pattern :: string
  cr_reason :: string

record command_decision =
  cd_behavior :: behavior
  cd_reason :: string
  cd_rule :: "command_rule option"

definition OPERATORS :: "string list" where
  "OPERATORS = [''&&'', ''||'', '';'', ''|'', ''<'', ''>'']"

definition SUBSTITUTIONS :: "string list" where
  "SUBSTITUTIONS = [''$('', [CHR 0x60]]"

definition default_rules :: "command_rule list" where
  "default_rules =
     [\<lparr>cr_id = ''deny-rm-rf'', cr_behavior = Deny, cr_pattern = ''rm -rf *'',
       cr_reason = ''destructive recursive deletion''\<rparr>,
      \<lparr>cr_id = ''deny-remove-item-recursive'', cr_behavior = Deny,
       cr_pattern = ''Remove-Item * -Recurse*'', cr_reason = ''destructive recursive deletion''\<rparr>,
      \<lparr>cr_id = ''deny-remove-item-force-recursive'', cr_behavior = Deny,
       cr_pattern = ''Remove-Item * -Force* -Recurse*'', cr_reason = ''destructive recursive deletion''\<rparr>,
      \<lparr>cr_id = ''allow-git-status'', cr_behavior = Allow, cr_pattern = ''git status*'',
       cr_reason = ''read-only git status''\<rparr>,
      \<lparr>cr_id = ''allow-git-diff'', cr_behavior = Allow, cr_pattern = ''git diff*'',
       cr_reason = ''read-only git diff''\<rparr>,
      \<lparr>cr_id = ''allow-rg'', cr_behavior = Allow, cr_pattern = ''rg*'',
       cr_reason = ''read-only ripgrep search''\<rparr>,
      \<lparr>cr_id = ''allow-pytest'', cr_behavior = Allow, cr_pattern = ''pytest*'',
       cr_reason = ''test command''\<rparr>,
      \<lparr>cr_id = ''ask-git-commit'', cr_behavior = Ask, cr_pattern = ''git commit*'',
       cr_reason = ''git commit mutates repository history''\<rparr>,
      \<lparr>cr_id = ''ask-npm-install'', cr_behavior = Ask, cr_pattern = ''npm install*'',
       cr_reason = ''dependency installation mutates project state''\<rparr>,
      \<lparr>cr_id = ''ask-pip-install'', cr_behavior = Ask, cr_pattern = ''pip install*'',
       cr_reason = ''dependency installation mutates environment''\<rparr>]"

definition command_candidates :: "string \<Rightarrow> bool \<Rightarrow> string list" where
  "command_candidates command include_segments =
     command # (if include_segments
                then filter (\<lambda>s. s \<noteq> []) (map strip (re_split OPERATORS [] command)) else [])"

definition first_matching_rule ::
  "command_rule list \<Rightarrow> string \<Rightarrow> behavior option \<Rightarrow> bool \<Rightarrow> command_rule option" where
  "first_matching_rule rules command wanted include_segments =
     find (\<lambda>r. (wanted = None \<or> wanted = Some (cr_behavior r)) \<and>
               (\<exists>c \<in> set (command_candidates command include_segments). fnmatch c (cr_pattern r)))
       rules"

text \<open>The name of the shell in a reason, after \<open>in\<close> or \<open>for\<close>.\<close>

definition shell_note :: "string \<Rightarrow> string \<Rightarrow> string" where
  "shell_note word shell_id = (if shell_id = [] then [] else '' '' @ word @ '' '' @ shell_id)"

definition classify :: "command_rule list \<Rightarrow> string \<Rightarrow> string \<Rightarrow> command_decision" where
  "classify rules command shell_id =
     (let normalized = strip command in
      if normalized = []
      then \<lparr>cd_behavior = Deny, cd_reason = ''empty command'', cd_rule = None\<rparr>
      else
        (case first_matching_rule rules normalized (Some Deny) True of
           Some deny \<Rightarrow> \<lparr>cd_behavior = Deny, cd_reason = cr_reason deny, cd_rule = Some deny\<rparr>
         | None \<Rightarrow>
             if re_search SUBSTITUTIONS normalized
             then \<lparr>cd_behavior = Ask,
                   cd_reason = ''shell command substitution'' @ shell_note ''in'' shell_id @ '' requires approval'',
                   cd_rule = None\<rparr>
             else if re_search OPERATORS normalized
             then \<lparr>cd_behavior = Ask,
                   cd_reason = ''compound, piped, or redirected command'' @ shell_note ''in'' shell_id
                     @ '' requires approval'',
                   cd_rule = None\<rparr>
             else
               (case first_matching_rule rules normalized None False of
                  Some rule \<Rightarrow> \<lparr>cd_behavior = cr_behavior rule, cd_reason = cr_reason rule, cd_rule = Some rule\<rparr>
                | None \<Rightarrow> \<lparr>cd_behavior = Ask,
                    cd_reason = ''unclassified command'' @ shell_note ''for'' shell_id @ '' requires approval'',
                    cd_rule = None\<rparr>)))"

section \<open>Lemmas\<close>

lemma first_matching_SomeD:
  assumes "first_matching_rule rules c wanted seg = Some r"
  shows "r \<in> set rules" "wanted = None \<or> wanted = Some (cr_behavior r)"
    "\<exists>x \<in> set (command_candidates c seg). fnmatch x (cr_pattern r)"
  using assms by (auto simp: first_matching_rule_def find_Some_iff)

lemma first_matching_None:
  "first_matching_rule rules c wanted seg = None \<longleftrightarrow>
   (\<forall>r \<in> set rules. (wanted = None \<or> wanted = Some (cr_behavior r)) \<longrightarrow>
      (\<forall>x \<in> set (command_candidates c seg). \<not> fnmatch x (cr_pattern r)))"
  by (auto simp: first_matching_rule_def find_None_iff)

lemma candidates_simple [simp]: "command_candidates c False = [c]"
  by (simp add: command_candidates_def)

lemma candidates_whole [simp]: "c \<in> set (command_candidates c seg)"
  by (simp add: command_candidates_def)

lemma candidates_no_operator:
  "\<not> re_search OPERATORS c \<Longrightarrow> set (command_candidates c True) \<subseteq> {c, strip c}"
  by (auto simp: command_candidates_def re_split_none)

lemmas policy_simps = classify_def Let_def

text \<open>A deny rule that matches the command or one of its parts decides.\<close>

lemma classify_deny:
  assumes "strip c \<noteq> []" and "r \<in> set rules" and "cr_behavior r = Deny"
    and "x \<in> set (command_candidates (strip c) True)" and "fnmatch x (cr_pattern r)"
  shows "cd_behavior (classify rules c shell_id) = Deny"
proof -
  have "first_matching_rule rules (strip c) (Some Deny) True \<noteq> None"
    using assms by (auto simp: first_matching_None intro!: bexI [of _ r] bexI [of _ x])
  with assms(1) show ?thesis by (auto simp: policy_simps)
qed

text \<open>
  C7: A command is allowed only if it is simple: it holds none of the operators and no
  substitution, no deny rule matches it, and the first rule that matches it, with no earlier
  rule matching, is an allow rule.
\<close>

theorem allowed_commands_are_simple:
  assumes "cd_behavior (classify rules command shell_id) = Allow"
  shows "(\<forall>p \<in> set (OPERATORS @ SUBSTITUTIONS). \<not> contains (strip command) p) \<and>
         (\<forall>r \<in> set rules. cr_behavior r = Deny \<longrightarrow> \<not> fnmatch (strip command) (cr_pattern r)) \<and>
         (\<exists>r. find (\<lambda>r. fnmatch (strip command) (cr_pattern r)) rules = Some r \<and> cr_behavior r = Allow)"
proof -
  let ?c = "strip command"
  from assms have ne: "?c \<noteq> []" by (auto simp: policy_simps)
  have deny: "first_matching_rule rules ?c (Some Deny) True = None"
    and ops: "\<not> re_search SUBSTITUTIONS ?c" "\<not> re_search OPERATORS ?c"
    using assms ne by (auto simp: policy_simps split: option.splits if_splits)
  then obtain r where r: "first_matching_rule rules ?c None False = Some r" "cr_behavior r = Allow"
    using assms ne by (auto simp: policy_simps split: option.splits)
  have "find (\<lambda>r. fnmatch ?c (cr_pattern r)) rules = Some r"
    using r(1) by (simp add: first_matching_rule_def)
  moreover have "\<forall>r \<in> set rules. cr_behavior r = Deny \<longrightarrow> \<not> fnmatch ?c (cr_pattern r)"
    using deny candidates_whole by (auto simp: first_matching_None)
  moreover have "\<forall>p \<in> set (OPERATORS @ SUBSTITUTIONS). \<not> contains ?c p"
    using ops by (auto simp: re_search_iff)
  ultimately show ?thesis using r(2) by blast
qed

theorem allowed_commands_are_simple_witness:
  "cd_behavior (classify default_rules ''git diff HEAD'' ''bash'') = Allow \<and>
   \<not> contains (strip ''git diff HEAD'') '';''"
proof -
  have a: "cd_behavior (classify default_rules ''git diff HEAD'' ''bash'') = Allow" by code_simp
  have "'';'' \<in> set (OPERATORS @ SUBSTITUTIONS)" by (simp add: OPERATORS_def)
  with allowed_commands_are_simple [OF a] a show ?thesis by blast
qed

lemma rstrip_append: "s \<noteq> [] \<Longrightarrow> \<not> is_space (last s) \<Longrightarrow> rstrip (p @ s) = p @ s"
  by (cases s rule: rev_cases) (auto simp: rstrip_def)

lemma strip_prefixed:
  "p \<noteq> [] \<Longrightarrow> \<not> is_space (hd p) \<Longrightarrow> s \<noteq> [] \<Longrightarrow> \<not> is_space (last s) \<Longrightarrow> strip (p @ s) = p @ s"
  using lstrip_id [of "p @ s"] by (simp add: strip_def rstrip_append)

lemma default_rules_git_status:
  assumes "startswith c ''git status''" and "\<not> re_search OPERATORS c" and "strip c = c"
  shows "first_matching_rule default_rules c (Some Deny) True = None"
    and "\<exists>r. first_matching_rule default_rules c None False = Some r \<and> cr_behavior r = Allow"
proof -
  obtain t where t: "c = ''git status'' @ t" using assms(1) by (auto simp: startswith_iff)
  have cand: "set (command_candidates c True) \<subseteq> {c}" using candidates_no_operator [OF assms(2)] assms(3) by simp
  have head: "\<not> fnmatch c ''rm -rf *''" "\<not> fnmatch c ''Remove-Item * -Recurse*''"
    "\<not> fnmatch c ''Remove-Item * -Force* -Recurse*''"
    unfolding t fnmatch_def by simp_all
  have yes: "fnmatch c ''git status*''" using fnmatch_prefix [of "''git status''" c] assms(1)
    by (simp add: plain_def)
  show "first_matching_rule default_rules c (Some Deny) True = None"
    using cand head by (auto simp: first_matching_None default_rules_def)
  show "\<exists>r. first_matching_rule default_rules c None False = Some r \<and> cr_behavior r = Allow"
    using head yes by (simp add: first_matching_rule_def default_rules_def)
qed

text \<open>
  The operators leave out the single ampersand and the line break, which also separate
  commands.  So the default rules allow \<open>git status\<close> followed by an ampersand or a line
  break and any text without another operator, the recursive deletion they deny included.
\<close>

theorem background_and_newline_pass:
  assumes "sep = '' & '' \<or> sep = [CHR 0x0A]"
    and "\<not> re_search OPERATORS (''git status'' @ sep @ tail)"
    and "\<not> re_search SUBSTITUTIONS (''git status'' @ sep @ tail)"
    and "tail \<noteq> []" and "\<not> is_space (last tail)"
  shows "cd_behavior (classify default_rules (''git status'' @ sep @ tail) shell_id) = Allow"
proof -
  let ?c = "''git status'' @ sep @ tail"
  have st: "strip ?c = ?c"
    using strip_prefixed [of "''git status'' @ sep" tail] assms(4,5) by (simp add: is_space_def Let_def)
  have sw: "startswith ?c ''git status''" by (rule startswith_append)
  obtain r where "first_matching_rule default_rules ?c None False = Some r" "cr_behavior r = Allow"
    using default_rules_git_status(2) [OF sw assms(2) st] by blast
  moreover have "?c \<noteq> []" by simp
  ultimately show ?thesis
    unfolding classify_def Let_def st
    using default_rules_git_status(1) [OF sw assms(2) st] assms(2,3)
    by (simp del: append.simps)
qed

theorem background_and_newline_pass_witness:
  "cd_behavior (classify default_rules (''git status'' @ '' & '' @ ''rm -rf src'') ''bash'') = Allow \<and>
   cd_behavior (classify default_rules ''rm -rf src'' ''bash'') = Deny"
proof
  show "cd_behavior (classify default_rules (''git status'' @ '' & '' @ ''rm -rf src'') ''bash'') = Allow"
    by (rule background_and_newline_pass) code_simp+
  show "cd_behavior (classify default_rules ''rm -rf src'' ''bash'') = Deny" by code_simp
qed

end
