(* ===== verification/Permissions.thy ===== *)
theory Permissions
  imports CommandPolicy Exposure
begin

text \<open>
  The permission engine (\<open>tools/security/permissions.py\<close>): rules match a tool call, deny
  rules come first, then the permission mode of the turn decides which calls are allowed,
  asked for or denied.
\<close>

section \<open>Rules, contexts and decisions\<close>

record permission_rule =
  pr_id :: string
  pr_behavior :: behavior
  pr_target_type :: string
  pr_pattern :: string
  pr_conditions :: "(string \<times> pyval) list"
  pr_source :: string
  pr_enabled :: bool

record permission_context =
  pc_conversation_id :: string
  pc_node_id :: string
  pc_tool_call_id :: string
  pc_tool_name :: string
  pc_arguments :: "(string \<times> pyval) list"
  pc_source :: string
  pc_mode :: pyval
  pc_turn_grants :: "permission_rule list"
  pc_session_grants :: "permission_rule list"
  pc_run_id :: "string option"
  pc_run_kind :: "string option"
  pc_created_by_run_id :: "string option"
  pc_cancellation_parent_run_id :: "string option"
  pc_root_run_id :: "string option"
  pc_agent_name :: "string option"
  pc_task_summary :: "string option"

record permission_decision =
  pd_behavior :: behavior
  pd_reason :: string
  pd_matched_rules :: "permission_rule list"

datatype permission_mode =
  DefaultMode | DontAsk | BypassPermissions | AutoApprove | ModifyOnly | AskAlways | PlanMode

definition normalize_permission_mode :: "pyval \<Rightarrow> permission_mode" where
  "normalize_permission_mode value =
     (if value \<in> {PStr ''auto_approve'', PStr ''auto'', PStr ''bypass_permissions''} then AutoApprove
      else if value \<in> {PStr ''modify_only'', PStr ''ask_on_modify'', PStr ''ask_modify'', PStr ''modify'', PNone, PStr []}
      then ModifyOnly
      else if value = PStr ''default'' then DefaultMode
      else if value \<in> {PStr ''ask_always'', PStr ''ask_all'', PStr ''all''} then AskAlways
      else if value \<in> {PStr ''plan'', PStr ''plan_mode''} then PlanMode
      else if value = PStr ''dont_ask'' then DontAsk
      else ModifyOnly)"

definition MUTATING_NAME_TOKENS :: "string list" where
  "MUTATING_NAME_TOKENS =
     [''write'', ''delete'', ''remove'', ''move'', ''edit'', ''create'', ''mkdir'', ''append'', ''patch'',
      ''rename'', ''copy'', ''run'', ''command'', ''shell'', ''exec'']"

definition DELETE_NAME_TOKENS :: "string list" where
  "DELETE_NAME_TOKENS = [''delete'', ''remove'', ''rm'', ''unlink'', ''rmdir'']"

definition COMMAND_KEYS :: "string list" where
  "COMMAND_KEYS = [''command'', ''cmd'', ''script'']"

definition BUILTIN_READ_TOOLS :: "string list" where
  "BUILTIN_READ_TOOLS = [''web'', ''tools'', ''glob'', ''read'', ''grep'']"

definition PLAN_ALLOWED_TOOLS :: "string list" where
  "PLAN_ALLOWED_TOOLS =
     [''glob'', ''read'', ''grep'', ''web'', ''tools'', ''enter_plan_mode'', ''ask_user_question'', ''exit_plan_mode'']"

definition is_agent_management_tool :: "string \<Rightarrow> bool" where
  "is_agent_management_tool tool_name = (tool_name = ''agent'')"

definition is_plan_allowed_tool :: "string \<Rightarrow> bool" where
  "is_plan_allowed_tool tool_name = (tool_name \<in> set PLAN_ALLOWED_TOOLS)"

definition is_plan_control_tool :: "string \<Rightarrow> bool" where
  "is_plan_control_tool tool_name =
     (tool_name \<in> {''enter_plan_mode'', ''ask_user_question'', ''exit_plan_mode''})"

definition drop_mcp :: "string \<Rightarrow> string" where
  "drop_mcp tool_name = (if startswith tool_name ''mcp__'' then drop 5 tool_name else tool_name)"

definition tool_name_parts :: "string \<Rightarrow> string list" where
  "tool_name_parts tool_name = word_parts is_ascii_alnum [] (lower (drop_mcp tool_name))"

text \<open>The first argument with a command key and a string value.\<close>

fun command_text :: "(string \<times> pyval) list \<Rightarrow> string option" where
  "command_text [] = None"
| "command_text ((key, value) # rest) =
     (case value of
        PStr s \<Rightarrow> if lower key \<in> set COMMAND_KEYS then Some s else command_text rest
      | _ \<Rightarrow> command_text rest)"

definition is_mutating_tool_call :: "string \<Rightarrow> (string \<times> pyval) list \<Rightarrow> bool" where
  "is_mutating_tool_call tool_name arguments =
     ((\<exists>part \<in> set (tool_name_parts tool_name). part \<in> set MUTATING_NAME_TOKENS)
      \<or> command_text arguments \<noteq> None)"

definition DELETE_COMMANDS :: "string list" where
  "DELETE_COMMANDS = [''rm'', ''del'', ''erase'', ''rmdir'', ''remove-item'']"

definition is_explicit_delete :: "string \<Rightarrow> (string \<times> pyval) list \<Rightarrow> bool" where
  "is_explicit_delete tool_name arguments =
     ((\<exists>part \<in> set (tool_name_parts tool_name). part \<in> set DELETE_NAME_TOKENS)
      \<or> truthy_opt (command_text arguments)
         \<and> word_at_command [CHR '';'', CHR ''&'', CHR ''|''] DELETE_COMMANDS (or_empty (command_text arguments)))"

section \<open>Matching\<close>

definition mcp_parts :: "string \<Rightarrow> (string \<times> string \<times> string) option" where
  "mcp_parts tool_name =
     (let route_name = drop_mcp tool_name in
      (case split_once route_name ''__'' of
         None \<Rightarrow> None
       | Some (server_name, tool_part) \<Rightarrow>
           if server_name = [] \<or> tool_part = [] then None
           else Some (server_name, tool_part, route_name)))"

definition mcp_tool_name_variants :: "string \<Rightarrow> string list" where
  "mcp_tool_name_variants tool_name =
     (case mcp_parts tool_name of
        None \<Rightarrow> []
      | Some (_, _, route_name) \<Rightarrow>
          if startswith tool_name ''mcp__'' then [tool_name, route_name]
          else [tool_name, ''mcp__'' @ route_name])"

definition is_call_pattern :: "string \<Rightarrow> bool" where
  "is_call_pattern p = (contains p ''('' \<and> contains p '')'')"

definition rule_matches :: "permission_rule \<Rightarrow> permission_context \<Rightarrow> bool" where
  "rule_matches rule context =
     (let tool = pc_tool_name context; pat = pr_pattern rule; target = pr_target_type rule in
      if target = ''tool'' then
        if is_call_pattern pat
        then truthy_opt (command_text (pc_arguments context))
             \<and> command_spec_matches tool (or_empty (command_text (pc_arguments context))) pat
        else fnmatch tool pat
      else if target = ''mcp_tool'' then
        (\<exists>variant \<in> set (mcp_tool_name_variants tool). fnmatch variant pat)
      else if target = ''mcp_server'' then
        (case mcp_parts tool of None \<Rightarrow> False | Some (server, _, _) \<Rightarrow> fnmatch server pat)
      else if target = ''filesystem'' \<or> target = ''network'' then False
      else if target = ''command'' then
        (let command = str_or (dget (pc_arguments context) ''command'') [] in
         if is_call_pattern pat then command \<noteq> [] \<and> command_spec_matches tool command pat
         else fnmatch command pat)
      else fnmatch tool pat)"

definition first_behavior :: "permission_rule list \<Rightarrow> behavior \<Rightarrow> permission_rule option" where
  "first_behavior rules b = find (\<lambda>r. pr_behavior r = b) rules"

definition is_default_ask :: "permission_rule \<Rightarrow> bool" where
  "is_default_ask rule = (pr_behavior rule = Ask \<and> pr_source rule = ''default'')"

definition ask_reason :: "permission_rule \<Rightarrow> string" where
  "ask_reason rule =
     (if pr_target_type rule = ''mcp_tool'' then ''MCP approval required by rule '' @ pr_id rule
      else ''Approval required by rule '' @ pr_id rule)"

definition allow_reason :: "permission_rule \<Rightarrow> string" where
  "allow_reason rule =
     (if pr_source rule = ''default'' \<and> pr_target_type rule = ''tool'' \<and> pr_pattern rule \<in> set BUILTIN_READ_TOOLS
      then ''Allowed built-in read tool by default rule '' @ pr_id rule
      else if pr_source rule = ''default'' \<and> pr_target_type rule = ''tool''
      then ''Allowed by default tool rule '' @ pr_id rule
      else ''Allowed by rule '' @ pr_id rule)"

section \<open>Evaluation\<close>

definition decision :: "behavior \<Rightarrow> string \<Rightarrow> permission_rule list \<Rightarrow> permission_decision" where
  "decision b reason rules = \<lparr>pd_behavior = b, pd_reason = reason, pd_matched_rules = rules\<rparr>"

definition matched_rules :: "permission_rule list \<Rightarrow> permission_context \<Rightarrow> permission_rule list" where
  "matched_rules own context =
     filter (\<lambda>r. pr_enabled r \<and> rule_matches r context)
       (pc_turn_grants context @ pc_session_grants context @ own)"

text \<open>A tool that is always allowed, by the first allow rule if there is one.\<close>

definition control_decision :: "permission_rule list \<Rightarrow> string \<Rightarrow> permission_decision" where
  "control_decision matched reason =
     (case first_behavior matched Allow of
        Some allow \<Rightarrow> decision Allow (allow_reason allow) [allow]
      | None \<Rightarrow> decision Allow reason matched)"

text \<open>An ask rule: in the mode that never asks it denies.\<close>

definition ask_decision :: "permission_mode \<Rightarrow> permission_rule \<Rightarrow> permission_decision" where
  "ask_decision mode rule =
     (if mode = DontAsk
      then decision Deny (''dont_ask mode converted ask rule '' @ pr_id rule @ '' to deny'') [rule]
      else decision Ask (ask_reason rule) [rule])"

text \<open>The end of \<open>evaluate\<close>, where the rules decide.\<close>

definition evaluate_rules :: "permission_mode \<Rightarrow> permission_rule list \<Rightarrow> permission_decision" where
  "evaluate_rules mode matched =
     (case first_behavior (filter (\<lambda>r. \<not> is_default_ask r) matched) Ask of
        Some explicit_ask \<Rightarrow> ask_decision mode explicit_ask
      | None \<Rightarrow>
          if mode = BypassPermissions
          then decision Allow ''bypass_permissions mode allows non-denied tool calls'' matched
          else
            (case first_behavior matched Allow of
               Some allow \<Rightarrow> decision Allow (allow_reason allow) [allow]
             | None \<Rightarrow>
                 (case first_behavior (filter is_default_ask matched) Ask of
                    Some default_ask \<Rightarrow> ask_decision mode default_ask
                  | None \<Rightarrow>
                      if mode = DontAsk
                      then decision Deny ''dont_ask mode denied unclassified tool call'' matched
                      else if mode = BypassPermissions
                      then decision Allow ''bypass_permissions mode allows unclassified tool call'' matched
                      else decision Ask ''No matching allow rule; approval required'' matched)))"

text \<open>What the mode decides for a tool that is not always allowed.\<close>

definition evaluate_mode ::
  "permission_mode \<Rightarrow> string \<Rightarrow> (string \<times> pyval) list \<Rightarrow> permission_rule list \<Rightarrow> permission_decision" where
  "evaluate_mode mode tool arguments matched =
     (if mode = AskAlways
      then decision Ask ''ask_always mode requires approval for every tool call'' matched
      else if mode = AutoApprove then
        if is_explicit_delete tool arguments
        then decision Ask ''auto_approve mode requires approval for explicit delete/remove operations'' matched
        else decision Allow ''auto_approve mode allows non-delete tool calls'' matched
      else if mode = ModifyOnly then
        if is_explicit_delete tool arguments
        then decision Ask ''modify_only mode requires approval for explicit delete/remove operations'' matched
        else if is_mutating_tool_call tool arguments
        then decision Allow ''modify_only mode allows modifying tool calls'' matched
        else decision Ask ''modify_only mode requires approval for non-modifying tool calls'' matched
      else evaluate_rules mode matched)"

text \<open>The memory tool of the main conversation.\<close>

definition is_chat_memory :: "permission_context \<Rightarrow> bool" where
  "is_chat_memory context =
     (pc_tool_name context = ''memory'' \<and>
      (if truthy_opt (pc_run_kind context) then or_empty (pc_run_kind context) else ''chat'') = ''chat'')"

definition evaluate :: "permission_rule list \<Rightarrow> permission_context \<Rightarrow> permission_decision" where
  "evaluate own context =
     (let mode = normalize_permission_mode (pc_mode context);
          matched = matched_rules own context;
          tool = pc_tool_name context in
      case first_behavior matched Deny of
        Some deny \<Rightarrow> decision Deny (''Denied by rule '' @ pr_id deny) [deny]
      | None \<Rightarrow>
          if mode = PlanMode then
            if is_plan_allowed_tool tool
            then decision Allow ''plan mode allows read-only planning tools'' matched
            else decision Deny ''plan mode blocks implementation tools until the plan is approved'' matched
          else if is_chat_memory context then decision Allow ''Memory housekeeping tool allowed'' matched
          else if is_plan_control_tool tool
          then control_decision matched ''Plan mode control tool allowed''
          else if is_agent_management_tool tool
          then control_decision matched ''Agent management tool allowed''
          else evaluate_mode mode tool (pc_arguments context) matched)"

definition default_rule :: "string \<Rightarrow> behavior \<Rightarrow> string \<Rightarrow> string \<Rightarrow> permission_rule" where
  "default_rule i b target pat =
     \<lparr>pr_id = i, pr_behavior = b, pr_target_type = target, pr_pattern = pat, pr_conditions = [],
      pr_source = ''default'', pr_enabled = True\<rparr>"

definition default_permission_rules :: "permission_rule list" where
  "default_permission_rules =
     [default_rule ''default-allow-web'' Allow ''tool'' ''web'',
      default_rule ''default-allow-tools'' Allow ''tool'' ''tools'',
      default_rule ''default-allow-agent'' Allow ''tool'' ''agent'',
      default_rule ''default-allow-create-task'' Allow ''tool'' ''create_task'',
      default_rule ''default-allow-set-task-step'' Allow ''tool'' ''set_task_step'',
      default_rule ''default-allow-cancel-task'' Allow ''tool'' ''cancel_task'',
      default_rule ''default-allow-enter-plan-mode'' Allow ''tool'' ''enter_plan_mode'',
      default_rule ''default-allow-ask-user-question'' Allow ''tool'' ''ask_user_question'',
      default_rule ''default-allow-exit-plan-mode'' Allow ''tool'' ''exit_plan_mode'',
      default_rule ''default-allow-glob'' Allow ''tool'' ''glob'',
      default_rule ''default-allow-read'' Allow ''tool'' ''read'',
      default_rule ''default-allow-grep'' Allow ''tool'' ''grep'',
      default_rule ''default-ask-shell'' Ask ''tool'' ''shell'',
      default_rule ''default-ask-edit'' Ask ''tool'' ''edit'',
      default_rule ''default-ask-mcp'' Ask ''mcp_tool'' ''*'']"

section \<open>Lemmas\<close>

lemma decision_simps [simp]:
  "pd_behavior (decision b reason rules) = b"
  "pd_matched_rules (decision b reason rules) = rules"
  by (simp_all add: decision_def)

lemma control_decision_allow [simp]: "pd_behavior (control_decision m reason) = Allow"
  by (simp add: control_decision_def split: option.split)

lemma ask_decision_behavior [simp]:
  "pd_behavior (ask_decision mode r) = (if mode = DontAsk then Deny else Ask)"
  by (simp add: ask_decision_def)

lemma first_behavior_None: "first_behavior rules b = None \<longleftrightarrow> (\<forall>r \<in> set rules. pr_behavior r \<noteq> b)"
  by (auto simp: first_behavior_def find_None_iff)

lemma first_behavior_Some: "first_behavior rules b = Some r \<Longrightarrow> r \<in> set rules \<and> pr_behavior r = b"
  by (auto simp: first_behavior_def find_Some_iff)

lemma evaluate_denied_by:
  "first_behavior (matched_rules own context) Deny = Some r \<Longrightarrow>
   evaluate own context = decision Deny (''Denied by rule '' @ pr_id r) [r]"
  by (simp add: evaluate_def)

lemma evaluate_denied:
  assumes "r \<in> set (matched_rules own context)" and "pr_behavior r = Deny"
  shows "pd_behavior (evaluate own context) = Deny"
proof -
  obtain r' where "first_behavior (matched_rules own context) Deny = Some r'"
    using assms first_behavior_None [of "matched_rules own context" Deny] by fastforce
  then show ?thesis by (simp add: evaluate_denied_by)
qed

lemma evaluate_not_denied:
  assumes "pd_behavior (evaluate own context) \<noteq> Deny"
  shows "first_behavior (matched_rules own context) Deny = None"
  using assms by (cases "first_behavior (matched_rules own context) Deny") (simp_all add: evaluate_denied_by)

lemma normalize_not_bypass: "normalize_permission_mode v \<noteq> BypassPermissions"
  by (simp add: normalize_permission_mode_def)

text \<open>The calls every mode but the planning one allows.\<close>

definition always_allowed :: "permission_context \<Rightarrow> bool" where
  "always_allowed context =
     (is_chat_memory context \<or> is_plan_control_tool (pc_tool_name context)
      \<or> is_agent_management_tool (pc_tool_name context))"

lemma evaluate_plan:
  assumes "normalize_permission_mode (pc_mode context) = PlanMode"
    and "first_behavior (matched_rules own context) Deny = None"
  shows "pd_behavior (evaluate own context) = (if is_plan_allowed_tool (pc_tool_name context) then Allow else Deny)"
  using assms by (simp add: evaluate_def Let_def)

lemma evaluate_always_allowed:
  assumes "normalize_permission_mode (pc_mode context) \<noteq> PlanMode" and "always_allowed context"
    and "first_behavior (matched_rules own context) Deny = None"
  shows "pd_behavior (evaluate own context) = Allow"
  using assms(2) unfolding always_allowed_def
  by (elim disjE) (simp_all add: evaluate_def Let_def assms(1,3))

lemma evaluate_ordinary:
  assumes "normalize_permission_mode (pc_mode context) \<noteq> PlanMode" and "\<not> always_allowed context"
    and "first_behavior (matched_rules own context) Deny = None"
  shows "evaluate own context =
     evaluate_mode (normalize_permission_mode (pc_mode context)) (pc_tool_name context)
       (pc_arguments context) (matched_rules own context)"
  using assms by (simp add: evaluate_def Let_def always_allowed_def)

lemma evaluate_mode_simps:
  "evaluate_mode DontAsk tool args m = evaluate_rules DontAsk m"
  "evaluate_mode DefaultMode tool args m = evaluate_rules DefaultMode m"
  "pd_behavior (evaluate_mode AutoApprove tool args m) = (if is_explicit_delete tool args then Ask else Allow)"
  "pd_behavior (evaluate_mode ModifyOnly tool args m) =
     (if is_explicit_delete tool args \<or> \<not> is_mutating_tool_call tool args then Ask else Allow)"
  "pd_behavior (evaluate_mode AskAlways tool args m) = Ask"
  by (simp_all add: evaluate_mode_def)

lemma evaluate_rules_dont_ask: "pd_behavior (evaluate_rules DontAsk matched) \<noteq> Ask"
  by (simp add: evaluate_rules_def split: option.split)

lemma evaluate_rules_allow:
  assumes "pd_behavior (evaluate_rules mode matched) = Allow" and "mode \<noteq> BypassPermissions"
  shows "(\<exists>r \<in> set matched. pr_behavior r = Allow) \<and> (\<forall>r \<in> set matched. pr_behavior r = Ask \<longrightarrow> is_default_ask r)"
proof -
  have ask: "first_behavior (filter (\<lambda>r. \<not> is_default_ask r) matched) Ask = None"
    using assms(1) by (cases "first_behavior (filter (\<lambda>r. \<not> is_default_ask r) matched) Ask")
      (auto simp: evaluate_rules_def split: if_splits)
  then have "first_behavior matched Allow \<noteq> None"
    using assms by (auto simp: evaluate_rules_def split: option.splits if_splits)
  then have "\<exists>r \<in> set matched. pr_behavior r = Allow" by (simp add: first_behavior_None)
  moreover have "\<forall>r \<in> set matched. pr_behavior r = Ask \<longrightarrow> is_default_ask r"
    using ask by (auto simp: first_behavior_None)
  ultimately show ?thesis by blast
qed

text \<open>
  C10: A deny rule decides: if an enabled rule that denies matches the call, whether granted
  for the turn, for the session or configured, the call is denied in every permission mode.
\<close>

theorem deny_rule_decides:
  assumes "r \<in> set (pc_turn_grants context @ pc_session_grants context @ own)"
    and "pr_enabled r" and "pr_behavior r = Deny" and "rule_matches r context"
  shows "pd_behavior (evaluate own context) = Deny"
  by (rule evaluate_denied [of r]) (use assms in \<open>simp_all add: matched_rules_def\<close>)

definition demo_context :: "string \<Rightarrow> (string \<times> pyval) list \<Rightarrow> string \<Rightarrow> permission_context" where
  "demo_context tool arguments mode =
     \<lparr>pc_conversation_id = ''c1'', pc_node_id = ''n1'', pc_tool_call_id = ''t1'', pc_tool_name = tool,
      pc_arguments = arguments, pc_source = ''model'', pc_mode = PStr mode, pc_turn_grants = [],
      pc_session_grants = [], pc_run_id = None, pc_run_kind = None, pc_created_by_run_id = None,
      pc_cancellation_parent_run_id = None, pc_root_run_id = None, pc_agent_name = None,
      pc_task_summary = None\<rparr>"

definition demo_deny :: permission_rule where
  "demo_deny = (default_rule ''no-secrets'' Deny ''tool'' ''shell(*secret*)'')\<lparr>pr_source := ''user''\<rparr>"

theorem deny_rule_decides_witness:
  "pd_behavior (evaluate (default_permission_rules @ [demo_deny])
     (demo_context ''shell'' [(''command'', PStr ''cat secret'')] ''auto_approve'')) = Deny"
proof (rule deny_rule_decides [where r = demo_deny])
  show "rule_matches demo_deny (demo_context ''shell'' [(''command'', PStr ''cat secret'')] ''auto_approve'')"
    by code_simp
qed (simp_all add: demo_deny_def default_rule_def)

text \<open>
  In plan mode the engine never asks, and it allows a call only of one of the reading
  and planning tools; so no rule or grant opens another tool before the plan is approved.
\<close>

theorem plan_mode_is_read_only:
  assumes "normalize_permission_mode (pc_mode context) = PlanMode"
  shows "pd_behavior (evaluate own context) \<noteq> Ask \<and>
         (pd_behavior (evaluate own context) = Allow \<longrightarrow> pc_tool_name context \<in> set PLAN_ALLOWED_TOOLS)"
proof (cases "first_behavior (matched_rules own context) Deny")
  case None
  then show ?thesis using evaluate_plan [OF assms None] by (simp add: is_plan_allowed_tool_def)
next
  case (Some r)
  then show ?thesis by (simp add: evaluate_denied_by)
qed

theorem plan_mode_is_read_only_witness:
  "normalize_permission_mode (pc_mode (demo_context ''shell'' [] ''plan'')) = PlanMode \<and>
   pd_behavior (evaluate default_permission_rules (demo_context ''shell'' [] ''plan'')) = Deny"
proof -
  have m: "normalize_permission_mode (pc_mode (demo_context ''shell'' [] ''plan'')) = PlanMode" by code_simp
  have "pc_tool_name (demo_context ''shell'' [] ''plan'') \<notin> set PLAN_ALLOWED_TOOLS"
    by (simp add: PLAN_ALLOWED_TOOLS_def demo_context_def)
  then have "pd_behavior (evaluate default_permission_rules (demo_context ''shell'' [] ''plan'')) \<notin> {Ask, Allow}"
    using plan_mode_is_read_only [OF m, of default_permission_rules] by simp
  then have "pd_behavior (evaluate default_permission_rules (demo_context ''shell'' [] ''plan'')) = Deny"
    by (cases "pd_behavior (evaluate default_permission_rules (demo_context ''shell'' [] ''plan''))") simp_all
  with m show ?thesis ..
qed

text \<open>
  C11: The mode for unattended runs never asks: each call is allowed or denied, and apart from
  the planning, agent and memory tools it is allowed only when an allow rule matches it and
  every ask rule that matches it is a default one.
\<close>

theorem dont_ask_never_asks:
  assumes "normalize_permission_mode (pc_mode context) = DontAsk"
  shows "pd_behavior (evaluate own context) \<noteq> Ask \<and>
         (pd_behavior (evaluate own context) = Allow \<and> \<not> always_allowed context \<longrightarrow>
            (\<exists>r \<in> set (matched_rules own context). pr_behavior r = Allow) \<and>
            (\<forall>r \<in> set (matched_rules own context). pr_behavior r = Ask \<longrightarrow> is_default_ask r))"
proof (cases "first_behavior (matched_rules own context) Deny")
  case None
  show ?thesis
  proof (cases "always_allowed context")
    case True
    then show ?thesis using evaluate_always_allowed [OF _ True None] assms by simp
  next
    case False
    then have "pd_behavior (evaluate own context) = pd_behavior (evaluate_rules DontAsk (matched_rules own context))"
      using evaluate_ordinary [OF _ False None] assms by (simp add: evaluate_mode_simps)
    then show ?thesis
      using evaluate_rules_dont_ask [of "matched_rules own context"]
        evaluate_rules_allow [of DontAsk "matched_rules own context"] by auto
  qed
next
  case (Some r)
  then show ?thesis by (simp add: evaluate_denied_by)
qed

theorem dont_ask_never_asks_witness:
  "normalize_permission_mode (pc_mode (demo_context ''shell'' [] ''dont_ask'')) = DontAsk \<and>
   pd_behavior (evaluate default_permission_rules (demo_context ''shell'' [] ''dont_ask'')) \<noteq> Ask"
proof -
  have m: "normalize_permission_mode (pc_mode (demo_context ''shell'' [] ''dont_ask'')) = DontAsk" by code_simp
  from dont_ask_never_asks [OF m] m show ?thesis by blast
qed

lemma word_after_none: "\<not> (\<exists>c \<in> set seps. c \<in> set s) \<Longrightarrow> \<not> word_after seps ws s"
  by (induction s) auto

lemma delete_words_ahead:
  "is_space c \<Longrightarrow> \<not> word_ahead DELETE_COMMANDS (c # s)"
  by (auto simp: word_ahead_def DELETE_COMMANDS_def lower_def is_space_def lower_char_def Let_def split: if_splits)

text \<open>
  The test for deletion looks at the first character of the command and behind the
  separators, not behind leading white space.  So with one space in front, a shell command
  without separators is never taken for a deletion, and the mode that approves everything
  but deletions allows it without asking.
\<close>

theorem leading_space_evades_delete_check:
  assumes "is_space c" and "\<forall>x \<in> {CHR '';'', CHR ''&'', CHR ''|''}. x \<notin> set command"
    and "normalize_permission_mode (pc_mode context) = AutoApprove"
    and "pc_tool_name context = ''shell''" and "pc_arguments context = [(''command'', PStr (c # command))]"
    and "\<forall>r \<in> set (pc_turn_grants context @ pc_session_grants context @ own). pr_behavior r \<noteq> Deny"
  shows "\<not> is_explicit_delete ''shell'' (pc_arguments context) \<and> pd_behavior (evaluate own context) = Allow"
proof -
  have parts: "tool_name_parts ''shell'' = [''shell'']" by code_simp
  have key: "lower ''command'' \<in> set COMMAND_KEYS" by code_simp
  have "\<not> word_after [CHR '';'', CHR ''&'', CHR ''|''] DELETE_COMMANDS (c # command)"
    using assms(1,2) by (intro word_after_none) (auto simp: is_space_def)
  then have nd: "\<not> is_explicit_delete ''shell'' (pc_arguments context)"
    using delete_words_ahead [OF assms(1)] key
    by (simp add: is_explicit_delete_def parts assms(5) word_at_command_def DELETE_NAME_TOKENS_def)
  have "first_behavior (matched_rules own context) Deny = None"
    using assms(6) by (auto simp: first_behavior_None matched_rules_def)
  moreover have "\<not> always_allowed context"
    by (simp add: always_allowed_def is_chat_memory_def assms(4) is_plan_control_tool_def is_agent_management_tool_def)
  ultimately show ?thesis
    using evaluate_ordinary [of "context" own] nd assms(3,4) by (simp add: evaluate_mode_simps)
qed

theorem leading_space_evades_delete_check_witness:
  "pd_behavior (evaluate default_permission_rules
     (demo_context ''shell'' [(''command'', PStr '' rm notes.txt'')] ''auto_approve'')) = Allow \<and>
   pd_behavior (evaluate default_permission_rules
     (demo_context ''shell'' [(''command'', PStr ''rm notes.txt'')] ''auto_approve'')) = Ask"
proof
  show "pd_behavior (evaluate default_permission_rules
     (demo_context ''shell'' [(''command'', PStr '' rm notes.txt'')] ''auto_approve'')) = Allow"
    by (rule conjunct2 [OF leading_space_evades_delete_check [where c = "CHR '' ''" and command = "''rm notes.txt''"]])
      (simp_all add: demo_context_def is_space_def normalize_permission_mode_def default_permission_rules_def default_rule_def)
  show "pd_behavior (evaluate default_permission_rules
     (demo_context ''shell'' [(''command'', PStr ''rm notes.txt'')] ''auto_approve'')) = Ask"
    by code_simp
qed

end
