(* ===== verification/Approval.thy ===== *)
theory Approval
  imports PyVal
begin

text \<open>
  Approval of tool calls by the user (\<open>tools/security/approval.py\<close>).  The manager keeps the
  pending requests, a future per request and the tools allowed for the rest of a session.
  Each request has a waiting task, which ends when the future is done, when the time is over
  or when it is cancelled; the task is part of the state, so that an interleaving is a list
  of events.  A section of code without an await is one event.
\<close>

section \<open>State\<close>

record approval_request =
  ar_id :: string
  ar_conversation_id :: string
  ar_node_id :: string
  ar_tool_call_id :: string
  ar_tool_name :: string
  ar_arguments_preview :: string
  ar_risk_level :: string
  ar_reason :: string
  ar_suggested_actions :: "string list"
  ar_run_id :: "string option"
  ar_run_kind :: "string option"
  ar_created_by_run_id :: "string option"
  ar_cancellation_parent_run_id :: "string option"
  ar_root_run_id :: "string option"
  ar_agent_name :: "string option"
  ar_task_summary :: "string option"
  ar_source_label :: "string option"
  ar_created_at :: int
  ar_expires_at :: "int option"
  ar_status :: string

record approval_decision =
  ad_status :: string
  ad_scope :: "string option"

datatype wait_task = Waiting | Returned approval_decision | TaskCancelled

record approval_state =
  am_timeout_seconds :: "int option"
  am_pending :: "(string \<times> approval_request) list"
  am_futures :: "(string \<times> approval_decision option) list"
  am_session_allowed :: "(string \<times> string list) list"
  am_tasks :: "(string \<times> wait_task) list"

definition approval_init :: "int option \<Rightarrow> approval_state" where
  "approval_init timeout =
     \<lparr>am_timeout_seconds = timeout, am_pending = [], am_futures = [], am_session_allowed = [], am_tasks = []\<rparr>"

definition plain_decision :: "string \<Rightarrow> approval_decision" where
  "plain_decision st = \<lparr>ad_status = st, ad_scope = None\<rparr>"

definition request_payload :: "approval_request \<Rightarrow> pyval" where
  "request_payload r = PDict
     [(''id'', PStr (ar_id r)), (''conversation_id'', PStr (ar_conversation_id r)),
      (''node_id'', PStr (ar_node_id r)), (''tool_call_id'', PStr (ar_tool_call_id r)),
      (''tool_name'', PStr (ar_tool_name r)), (''arguments_preview'', PStr (ar_arguments_preview r)),
      (''risk_level'', PStr (ar_risk_level r)), (''reason'', PStr (ar_reason r)),
      (''suggested_actions'', PList (map PStr (ar_suggested_actions r))),
      (''created_at'', PInt (ar_created_at r)),
      (''expires_at'', case ar_expires_at r of None \<Rightarrow> PNone | Some t \<Rightarrow> PInt t),
      (''status'', PStr (ar_status r)), (''run_id'', of_opt (ar_run_id r)),
      (''run_kind'', of_opt (ar_run_kind r)), (''created_by_run_id'', of_opt (ar_created_by_run_id r)),
      (''cancellation_parent_run_id'', of_opt (ar_cancellation_parent_run_id r)),
      (''root_run_id'', of_opt (ar_root_run_id r)), (''agent_name'', of_opt (ar_agent_name r)),
      (''task_summary'', of_opt (ar_task_summary r)), (''source_label'', of_opt (ar_source_label r))]"

section \<open>Operations\<close>

definition is_session_allowed :: "approval_state \<Rightarrow> string \<Rightarrow> string \<Rightarrow> bool" where
  "is_session_allowed s conversation_id tool_name =
     (case map_of (am_session_allowed s) conversation_id of
        None \<Rightarrow> False | Some tools \<Rightarrow> tool_name \<in> set tools)"

definition list_pending :: "approval_state \<Rightarrow> string option \<Rightarrow> pyval list" where
  "list_pending s conversation_id =
     map request_payload
       (filter (\<lambda>r. ar_status r = ''pending'' \<and>
                    (conversation_id = None \<or> conversation_id = Some (ar_conversation_id r)))
         (map snd (am_pending s)))"

definition get_request :: "approval_state \<Rightarrow> string \<Rightarrow> approval_request option" where
  "get_request s i = map_of (am_pending s) i"

text \<open>\<open>_try_resolve\<close>: only a pending request whose future is not done can be resolved.\<close>

definition try_resolve :: "string \<Rightarrow> approval_decision \<Rightarrow> approval_state \<Rightarrow> bool \<times> approval_state" where
  "try_resolve i d s =
     (case (map_of (am_pending s) i, map_of (am_futures s) i) of
        (Some r, Some None) \<Rightarrow>
          if ar_status r \<noteq> ''pending'' then (False, s)
          else (True, s\<lparr>am_pending := dict_set i (r\<lparr>ar_status := ad_status d\<rparr>) (am_pending s),
                        am_futures := dict_set i (Some d) (am_futures s)\<rparr>)
      | _ \<Rightarrow> (False, s))"

definition cleanup :: "string \<Rightarrow> approval_state \<Rightarrow> approval_state" where
  "cleanup i s = s\<lparr>am_pending := dict_pop i (am_pending s), am_futures := dict_pop i (am_futures s)\<rparr>"

definition begin_request :: "int \<Rightarrow> approval_request \<Rightarrow> approval_state \<Rightarrow> unit result \<times> approval_state" where
  "begin_request now request s =
     (if ar_id request \<in> fst ` set (am_pending s)
      then (Inl (ValueError (''Approval request already pending: '' @ ar_id request)), s)
      else
        let request' = request\<lparr>ar_expires_at := map_option (\<lambda>t. now + t) (am_timeout_seconds s)\<rparr>
        in (Inr (), s\<lparr>am_pending := dict_set (ar_id request) request' (am_pending s),
                      am_futures := dict_set (ar_id request) None (am_futures s),
                      am_tasks := dict_set (ar_id request) Waiting (am_tasks s)\<rparr>))"

text \<open>\<open>setdefault(conversation, set()).add(tool)\<close>.\<close>

definition grant_session :: "approval_request \<Rightarrow> approval_state \<Rightarrow> approval_state" where
  "grant_session request s =
     (let c = ar_conversation_id request;
          tools = (case map_of (am_session_allowed s) c of None \<Rightarrow> [] | Some ts \<Rightarrow> ts) in
      s\<lparr>am_session_allowed := dict_set c (ar_tool_name request # tools) (am_session_allowed s)\<rparr>)"

definition decide ::
  "string \<Rightarrow> string \<Rightarrow> string \<Rightarrow> approval_state \<Rightarrow> approval_decision result \<times> approval_state" where
  "decide i action scope s =
     (case map_of (am_pending s) i of
        None \<Rightarrow> (Inl (KeyError i), s)
      | Some request \<Rightarrow>
          if action \<noteq> ''approve'' \<and> action \<noteq> ''deny''
          then (Inl (ValueError (''Unknown approval decision: '' @ action)), s)
          else
            let outcome = \<lparr>ad_status = (if action = ''approve'' then ''approved'' else ''denied''),
                           ad_scope = Some scope\<rparr> in
            (case try_resolve i outcome s of
               (False, s') \<Rightarrow> (Inl (KeyError i), s')
             | (True, s') \<Rightarrow>
                 (Inr outcome,
                  if action = ''approve'' \<and> scope = ''session'' then grant_session request s' else s')))"

fun resolve_all :: "string list \<Rightarrow> approval_decision \<Rightarrow> approval_state \<Rightarrow> approval_state" where
  "resolve_all [] d s = s"
| "resolve_all (i # is) d s = resolve_all is d (snd (try_resolve i d s))"

definition cancel_for_node :: "string \<Rightarrow> approval_state \<Rightarrow> approval_state" where
  "cancel_for_node node_id s =
     resolve_all (map fst (filter (\<lambda>p. ar_node_id (snd p) = node_id) (am_pending s)))
       (plain_decision ''cancelled'') s"

text \<open>The ends of \<open>_wait_for_decision\<close>: the future is done, the time is over, the task is cancelled.\<close>

definition finish_wait :: "string \<Rightarrow> wait_task \<Rightarrow> approval_state \<Rightarrow> approval_state" where
  "finish_wait i t s = (cleanup i s)\<lparr>am_tasks := dict_set i t (am_tasks s)\<rparr>"

definition wake :: "string \<Rightarrow> approval_state \<Rightarrow> approval_state" where
  "wake i s =
     (case (map_of (am_tasks s) i, map_of (am_futures s) i) of
        (Some Waiting, Some (Some d)) \<Rightarrow> finish_wait i (Returned d) s
      | _ \<Rightarrow> s)"

definition wait_timeout :: "string \<Rightarrow> approval_state \<Rightarrow> approval_state" where
  "wait_timeout i s =
     (if map_of (am_tasks s) i \<noteq> Some Waiting \<or> am_timeout_seconds s = None then s
      else
        let expired = plain_decision ''expired'' in
        (case try_resolve i expired s of
           (True, s') \<Rightarrow> finish_wait i (Returned expired) s'
         | (False, s') \<Rightarrow>
             finish_wait i
               (Returned (case map_of (am_futures s') i of Some (Some d) \<Rightarrow> d | _ \<Rightarrow> expired)) s'))"

text \<open>
  \<open>_ApprovalWaitTask.cancel\<close> resolves at once; the cancellation reaches the task later, also
  when it has not started.
\<close>

definition cancel_task_request :: "string \<Rightarrow> approval_state \<Rightarrow> approval_state" where
  "cancel_task_request i s =
     (if map_of (am_tasks s) i = Some Waiting
      then snd (try_resolve i (plain_decision ''cancelled'') s) else s)"

definition deliver_cancel :: "string \<Rightarrow> approval_state \<Rightarrow> approval_state" where
  "deliver_cancel i s =
     (if map_of (am_tasks s) i = Some Waiting
      then finish_wait i TaskCancelled (snd (try_resolve i (plain_decision ''cancelled'') s)) else s)"

datatype approval_event =
    Begin int approval_request
  | Decide string string string
  | CancelNode string
  | Wake string
  | Timeout string
  | CancelTask string
  | DeliverCancel string

fun approval_step :: "approval_event \<Rightarrow> approval_state \<Rightarrow> approval_state" where
  "approval_step (Begin now r) s = snd (begin_request now r s)"
| "approval_step (Decide i action scope) s = snd (decide i action scope s)"
| "approval_step (CancelNode n) s = cancel_for_node n s"
| "approval_step (Wake i) s = wake i s"
| "approval_step (Timeout i) s = wait_timeout i s"
| "approval_step (CancelTask i) s = cancel_task_request i s"
| "approval_step (DeliverCancel i) s = deliver_cancel i s"

fun approval_run :: "approval_event list \<Rightarrow> approval_state \<Rightarrow> approval_state" where
  "approval_run [] s = s"
| "approval_run (e # es) s = approval_run es (approval_step e s)"

section \<open>What happens to one request\<close>

text \<open>
  The life of a request seen from outside: absent, open with its request, or resolved with a
  decision that its task has not fetched yet.
\<close>

definition open_request :: "approval_state \<Rightarrow> string \<Rightarrow> bool" where
  "open_request s i =
     (\<exists>r. map_of (am_pending s) i = Some r \<and> ar_status r = ''pending'' \<and> map_of (am_futures s) i = Some None)"

definition holds_decision :: "approval_state \<Rightarrow> string \<Rightarrow> approval_decision \<Rightarrow> bool" where
  "holds_decision s i d =
     (map_of (am_futures s) i = Some (Some d) \<and> map_of (am_tasks s) i = Some Waiting
      \<or> map_of (am_futures s) i = None \<and> map_of (am_tasks s) i \<in> {Some (Returned d), Some TaskCancelled})"

text \<open>
  Futures and pending requests go together, with a waiting task, and a resolved request shows
  the status of its decision.
\<close>

definition request_ok ::
  "approval_request option \<Rightarrow> approval_decision option option \<Rightarrow> wait_task option \<Rightarrow> bool" where
  "request_ok p f t =
     (case p of
        None \<Rightarrow> f = None
      | Some r \<Rightarrow> t = Some Waiting \<and>
          (case f of None \<Rightarrow> False | Some None \<Rightarrow> True | Some (Some d) \<Rightarrow> ar_status r = ad_status d))"

definition approval_inv :: "approval_state \<Rightarrow> bool" where
  "approval_inv s =
     (\<forall>i. request_ok (map_of (am_pending s) i) (map_of (am_futures s) i) (map_of (am_tasks s) i))"

lemma request_ok_simps [simp]:
  "request_ok None f t = (f = None)"
  "request_ok (Some r) None t = False"
  "request_ok (Some r) (Some None) t = (t = Some Waiting)"
  "request_ok (Some r) (Some (Some d)) t = (t = Some Waiting \<and> ar_status r = ad_status d)"
  by (simp_all add: request_ok_def)

lemma approval_inv_init: "approval_inv (approval_init timeout)"
  by (simp add: approval_inv_def approval_init_def)

lemma approval_invD:
  "approval_inv s \<Longrightarrow> request_ok (map_of (am_pending s) i) (map_of (am_futures s) i) (map_of (am_tasks s) i)"
  by (simp add: approval_inv_def)

lemma try_resolve_refused: "\<not> open_request s i \<Longrightarrow> try_resolve i d s = (False, s)"
  by (auto simp: try_resolve_def open_request_def split: option.split)

lemma try_resolve_open:
  assumes "open_request s i"
  obtains r where "map_of (am_pending s) i = Some r" "ar_status r = ''pending''"
    "try_resolve i d s = (True, s\<lparr>am_pending := dict_set i (r\<lparr>ar_status := ad_status d\<rparr>) (am_pending s),
                        am_futures := dict_set i (Some d) (am_futures s)\<rparr>)"
  using assms by (auto simp: try_resolve_def open_request_def)

lemma try_resolve_cases:
  obtains (refused) "try_resolve i d s = (False, s)" "\<not> open_request s i"
  | (resolved) r where "open_request s i" "map_of (am_pending s) i = Some r" "ar_status r = ''pending''"
      "try_resolve i d s = (True, s\<lparr>am_pending := dict_set i (r\<lparr>ar_status := ad_status d\<rparr>) (am_pending s),
                        am_futures := dict_set i (Some d) (am_futures s)\<rparr>)"
  using try_resolve_refused try_resolve_open by (cases "open_request s i") metis+

lemma try_resolve_frame [simp]:
  "am_tasks (snd (try_resolve i d s)) = am_tasks s"
  "am_session_allowed (snd (try_resolve i d s)) = am_session_allowed s"
  "am_timeout_seconds (snd (try_resolve i d s)) = am_timeout_seconds s"
  by (cases rule: try_resolve_cases [of i d s]; simp)+

lemma try_resolve_futures:
  "map_of (am_futures (snd (try_resolve i d s))) j =
     (if j = i \<and> open_request s i then Some (Some d) else map_of (am_futures s) j)"
  by (cases rule: try_resolve_cases [of i d s]) auto

lemma try_resolve_inv: "approval_inv s \<Longrightarrow> approval_inv (snd (try_resolve i d s))"
proof (cases rule: try_resolve_cases [of i d s])
  case (resolved r)
  assume "approval_inv s"
  then have "map_of (am_tasks s) i = Some Waiting"
    using approval_invD [of s i] resolved(2) by (auto simp: request_ok_def split: option.splits)
  with resolved \<open>approval_inv s\<close> show ?thesis by (simp add: approval_inv_def)
qed simp

lemma resolve_all_inv: "approval_inv s \<Longrightarrow> approval_inv (resolve_all is d s)"
  by (induction "is" arbitrary: s) (auto intro: try_resolve_inv)

lemma resolve_all_frame [simp]:
  "am_tasks (resolve_all is d s) = am_tasks s"
  "am_session_allowed (resolve_all is d s) = am_session_allowed s"
  by (induction "is" arbitrary: s) auto

lemma finish_wait_simps [simp]:
  "am_futures (finish_wait i t s) = dict_pop i (am_futures s)"
  "am_pending (finish_wait i t s) = dict_pop i (am_pending s)"
  "am_tasks (finish_wait i t s) = dict_set i t (am_tasks s)"
  "am_session_allowed (finish_wait i t s) = am_session_allowed s"
  by (simp_all add: finish_wait_def cleanup_def)

lemma finish_wait_inv: "approval_inv s \<Longrightarrow> approval_inv (finish_wait i t s)"
  by (simp add: approval_inv_def)

lemma grant_session_frame [simp]:
  "am_futures (grant_session r s) = am_futures s"
  "am_pending (grant_session r s) = am_pending s"
  "am_tasks (grant_session r s) = am_tasks s"
  by (simp_all add: grant_session_def Let_def)

lemma is_session_allowed_grant:
  "is_session_allowed (grant_session r s) c t =
     (c = ar_conversation_id r \<and> t = ar_tool_name r \<or> is_session_allowed s c t)"
  by (auto simp: is_session_allowed_def grant_session_def Let_def split: option.split)

lemma is_session_allowed_cong:
  "am_session_allowed s' = am_session_allowed s \<Longrightarrow> is_session_allowed s' = is_session_allowed s"
  by (simp add: is_session_allowed_def fun_eq_iff)

lemma decide_cases:
  obtains (failed) e where "decide i action scope s = (Inl e, s)"
  | (decided) d r where "map_of (am_pending s) i = Some r" "open_request s i"
      "ad_status d \<in> {''approved'', ''denied''}"
      "decide i action scope s =
         (Inr d, if action = ''approve'' \<and> scope = ''session''
                 then grant_session r (snd (try_resolve i d s)) else snd (try_resolve i d s))"
proof (cases "map_of (am_pending s) i")
  case None
  then show ?thesis using failed by (simp add: decide_def)
next
  case (Some r)
  let ?d = "\<lparr>ad_status = (if action = ''approve'' then ''approved'' else ''denied''), ad_scope = Some scope\<rparr>"
  show ?thesis
  proof (cases "action = ''approve'' \<or> action = ''deny''")
    case False
    then show ?thesis using failed Some by (simp add: decide_def)
  next
    case True
    then have dec: "decide i action scope s = (case try_resolve i ?d s of
          (False, s') \<Rightarrow> (Inl (KeyError i), s')
        | (True, s') \<Rightarrow> (Inr ?d, if action = ''approve'' \<and> scope = ''session'' then grant_session r s' else s'))"
      using Some by (auto simp: decide_def Let_def)
    show ?thesis
      by (cases rule: try_resolve_cases [of i ?d s])
        (use dec failed decided [OF Some, of ?d] in \<open>auto split: if_splits\<close>)
  qed
qed

lemma grant_session_inv [simp]: "approval_inv (grant_session r s) = approval_inv s"
  by (simp add: approval_inv_def)

lemma begin_request_inv: "approval_inv s \<Longrightarrow> approval_inv (snd (begin_request now r s))"
  by (simp add: begin_request_def Let_def approval_inv_def)

lemma decide_inv: "approval_inv s \<Longrightarrow> approval_inv (snd (decide i action scope s))"
  by (cases rule: decide_cases [of i action scope s]) (auto intro: try_resolve_inv)

lemma wait_timeout_inv: "approval_inv s \<Longrightarrow> approval_inv (wait_timeout i s)"
  using try_resolve_inv [of s i "plain_decision ''expired''"]
  by (cases "try_resolve i (plain_decision ''expired'') s")
    (auto simp: wait_timeout_def Let_def intro!: finish_wait_inv split: bool.split)

lemma approval_step_inv: "approval_inv s \<Longrightarrow> approval_inv (approval_step e s)"
  by (cases e)
    (auto simp: cancel_for_node_def wake_def cancel_task_request_def deliver_cancel_def
      intro!: begin_request_inv decide_inv wait_timeout_inv resolve_all_inv finish_wait_inv try_resolve_inv
      split: option.split wait_task.split)

text \<open>A decision, once made, stays: no event but a new request of the same id changes it.\<close>

definition begins :: "approval_event \<Rightarrow> string \<Rightarrow> bool" where
  "begins e i = (case e of Begin _ r \<Rightarrow> ar_id r = i | _ \<Rightarrow> False)"

lemma holds_not_open: "holds_decision s i d \<Longrightarrow> \<not> open_request s i"
  by (auto simp: holds_decision_def open_request_def)

lemma holds_try_resolve:
  "holds_decision s i d \<Longrightarrow> holds_decision (snd (try_resolve j d' s)) i d"
  using holds_not_open [of s i d] by (auto simp: holds_decision_def try_resolve_futures)

lemma holds_resolve_all: "holds_decision s i d \<Longrightarrow> holds_decision (resolve_all is d' s) i d"
  by (induction "is" arbitrary: s) (auto intro: holds_try_resolve)

lemma holds_finish_other:
  "holds_decision s i d \<Longrightarrow> j \<noteq> i \<Longrightarrow> holds_decision (finish_wait j t s) i d"
  by (simp add: holds_decision_def)

lemma holds_finish_self: "t \<in> {Returned d, TaskCancelled} \<Longrightarrow> holds_decision (finish_wait i t s) i d"
  by (simp add: holds_decision_def)

lemma holds_grant [simp]: "holds_decision (grant_session r s) i d = holds_decision s i d"
  by (simp add: holds_decision_def)

lemma holds_wait_timeout:
  assumes "holds_decision s i d"
  shows "holds_decision (wait_timeout j s) i d"
proof (cases "map_of (am_tasks s) j \<noteq> Some Waiting \<or> am_timeout_seconds s = None")
  case True
  then show ?thesis using assms by (simp add: wait_timeout_def)
next
  case False
  obtain b s' where t: "try_resolve j (plain_decision ''expired'') s = (b, s')"
    by (cases "try_resolve j (plain_decision ''expired'') s")
  have h: "holds_decision s' i d" using holds_try_resolve [OF assms, of j] t by (metis snd_conv)
  show ?thesis
  proof (cases "j = i")
    case True
    then have "\<not> b" "s' = s" using t holds_not_open [OF assms]
      by (cases rule: try_resolve_cases [of j "plain_decision ''expired''" s]; simp)+
    moreover have "map_of (am_futures s) i = Some (Some d)"
      using assms False True by (auto simp: holds_decision_def)
    ultimately show ?thesis using False True t
      by (auto simp: wait_timeout_def Let_def holds_finish_self)
  next
    case ne: False
    have "\<exists>x. wait_timeout j s = finish_wait j x s'"
      using False t by (cases b) (auto simp: wait_timeout_def Let_def)
    then show ?thesis using holds_finish_other [OF h ne] by auto
  qed
qed

lemma holds_wake: "holds_decision s i d \<Longrightarrow> holds_decision (wake j s) i d"
  by (cases "j = i")
    (auto simp: wake_def holds_decision_def split: option.split wait_task.split)

lemma holds_deliver_cancel: "holds_decision s i d \<Longrightarrow> holds_decision (deliver_cancel j s) i d"
  using holds_try_resolve [of s i d j "plain_decision ''cancelled''"]
  by (cases "j = i") (auto simp: deliver_cancel_def holds_finish_self holds_finish_other)

lemma holds_begin:
  assumes "holds_decision s i d" and "ar_id r \<noteq> i"
  shows "holds_decision (snd (begin_request now r s)) i d"
  using assms by (simp add: begin_request_def Let_def holds_decision_def)

lemma holds_decide: "holds_decision s i d \<Longrightarrow> holds_decision (snd (decide j action scope s)) i d"
  by (cases rule: decide_cases [of j action scope s]) (auto intro: holds_try_resolve)

lemma holds_step:
  assumes "holds_decision s i d" and "\<not> begins e i"
  shows "holds_decision (approval_step e s) i d"
  using assms
  by (cases e)
    (auto simp: begins_def cancel_for_node_def cancel_task_request_def
      intro: holds_begin holds_decide holds_resolve_all holds_wake holds_wait_timeout holds_try_resolve
        holds_deliver_cancel)

lemma holds_run:
  "holds_decision s i d \<Longrightarrow> \<forall>e \<in> set es. \<not> begins e i \<Longrightarrow> holds_decision (approval_run es s) i d"
  by (induction es arbitrary: s) (auto intro: holds_step)

lemma run_inv: "approval_inv s \<Longrightarrow> approval_inv (approval_run es s)"
  by (induction es arbitrary: s) (auto intro: approval_step_inv)

lemma decide_holds:
  assumes "approval_inv s" and "decide i action scope s = (Inr d, s')"
  shows "holds_decision s' i d"
proof -
  obtain r where r: "map_of (am_pending s) i = Some r" "open_request s i"
    "s' = (if action = ''approve'' \<and> scope = ''session''
           then grant_session r (snd (try_resolve i d s)) else snd (try_resolve i d s))"
    using assms(2) by (cases rule: decide_cases [of i action scope s]) auto
  have "map_of (am_tasks s) i = Some Waiting"
    using approval_invD [OF assms(1), of i] r(1) by (auto simp: request_ok_def split: option.splits)
  with r show ?thesis by (simp add: holds_decision_def try_resolve_futures)
qed

text \<open>
  C12: A request is decided once.  After a decision of the user, whatever happens next to
  this or other requests (more decisions, cancelled nodes, time-outs, cancelled tasks), a
  second decision on the id is refused and changes nothing, and the task that waits for the
  request returns that decision and no other, unless it is itself cancelled.
\<close>

theorem decision_is_final:
  assumes "approval_run es (approval_init timeout) = s" and "decide i action scope s = (Inr d, s')"
    and "\<forall>e \<in> set es'. \<not> begins e i" and "t = approval_run es' s'"
  shows "(\<exists>e. decide i action' scope' t = (Inl e, t)) \<and>
         (\<forall>d'. map_of (am_tasks t) i = Some (Returned d') \<longrightarrow> d' = d) \<and>
         (map_of (am_tasks t) i = Some Waiting \<longrightarrow> map_of (am_tasks (wake i t)) i = Some (Returned d))"
proof -
  have inv: "approval_inv s" using run_inv [OF approval_inv_init] assms(1) by blast
  have h: "holds_decision t i d" using holds_run [OF decide_holds [OF inv assms(2)] assms(3)] assms(4) by simp
  have "\<exists>e. decide i action' scope' t = (Inl e, t)"
    using holds_not_open [OF h] by (cases rule: decide_cases [of i action' scope' t]) auto
  then show ?thesis using h by (auto simp: holds_decision_def wake_def)
qed

definition demo_request :: "string \<Rightarrow> approval_request" where
  "demo_request i =
     \<lparr>ar_id = i, ar_conversation_id = ''c1'', ar_node_id = ''n1'', ar_tool_call_id = ''t1'',
      ar_tool_name = ''shell'', ar_arguments_preview = [], ar_risk_level = ''medium'', ar_reason = [],
      ar_suggested_actions = [], ar_run_id = None, ar_run_kind = None, ar_created_by_run_id = None,
      ar_cancellation_parent_run_id = None, ar_root_run_id = None, ar_agent_name = None,
      ar_task_summary = None, ar_source_label = None, ar_created_at = 5, ar_expires_at = None,
      ar_status = ''pending''\<rparr>"

definition demo_approval :: approval_state where
  "demo_approval = approval_run [Begin 5 (demo_request ''a1''), Begin 6 (demo_request ''a2'')] (approval_init (Some 60))"

theorem decision_is_final_witness:
  "\<exists>d s'. decide ''a1'' ''approve'' ''session'' demo_approval = (Inr d, s') \<and>
     (\<exists>e. decide ''a1'' ''deny'' ''once'' (approval_run [CancelNode ''n1'', Timeout ''a1''] s') =
        (Inl e, approval_run [CancelNode ''n1'', Timeout ''a1''] s'))"
proof -
  let ?d = "\<lparr>ad_status = ''approved'', ad_scope = Some ''session''\<rparr>"
  have "fst (decide ''a1'' ''approve'' ''session'' demo_approval) = Inr ?d" by code_simp
  then obtain s' where d: "decide ''a1'' ''approve'' ''session'' demo_approval = (Inr ?d, s')"
    by (metis prod.collapse)
  have "\<forall>e \<in> set [CancelNode ''n1'', Timeout ''a1'']. \<not> begins e ''a1''" by (simp add: begins_def)
  from decision_is_final [OF demo_approval_def [symmetric] d this refl, of "''deny''" "''once''"] d
  show ?thesis by blast
qed

text \<open>
  C13: A tool becomes allowed for a session only through a decision of the user to approve,
  with the scope of the session, an open request of that conversation for that tool.
\<close>

theorem session_grant_needs_approval:
  assumes "is_session_allowed (approval_step e s) c tool" and "\<not> is_session_allowed s c tool"
  shows "\<exists>i r. e = Decide i ''approve'' ''session'' \<and> open_request s i \<and>
           get_request s i = Some r \<and> ar_conversation_id r = c \<and> ar_tool_name r = tool"
proof (cases e)
  case (Decide i action scope)
  show ?thesis
  proof (cases rule: decide_cases [of i action scope s])
    case (failed x)
    then show ?thesis using assms Decide by simp
  next
    case (decided d r)
    have same: "is_session_allowed (snd (try_resolve i d s)) = is_session_allowed s"
      by (rule is_session_allowed_cong) simp
    then show ?thesis
      using assms Decide decided by (auto simp: is_session_allowed_grant get_request_def split: if_splits)
  qed
next
  case (Timeout i)
  have "am_session_allowed (wait_timeout i s) = am_session_allowed s"
    using try_resolve_frame(2) [of i "plain_decision ''expired''" s]
    by (cases "try_resolve i (plain_decision ''expired'') s")
      (auto simp: wait_timeout_def Let_def split: bool.split)
  then show ?thesis using assms Timeout is_session_allowed_cong [of "wait_timeout i s" s] by simp
qed (use assms in \<open>auto simp: is_session_allowed_def begin_request_def cancel_for_node_def wake_def
    cancel_task_request_def deliver_cancel_def Let_def split: if_splits option.splits wait_task.splits\<close>)

theorem session_grant_needs_approval_witness:
  "is_session_allowed (approval_step (Decide ''a1'' ''approve'' ''session'') demo_approval) ''c1'' ''shell'' \<and>
   open_request demo_approval ''a1''"
proof -
  have a: "is_session_allowed (approval_step (Decide ''a1'' ''approve'' ''session'') demo_approval) ''c1'' ''shell''"
    "\<not> is_session_allowed demo_approval ''c1'' ''shell''"
    by code_simp+
  from session_grant_needs_approval [OF a] a(1) show ?thesis by auto
qed

end
