(* ===== verification/Sandbox.thy ===== *)
theory Sandbox
  imports PyVal
begin

text \<open>
  The check of write targets (\<open>tools/security/logical_sandbox.py\<close>) over a model of
  \<open>pathlib\<close> on a POSIX system.  The file system is a parameter: the working directory, the
  home directories and the symbolic links.  Resolving a path follows at most \<open>fs_max_links\<close>
  links and raises after that, as a loop of links does.
\<close>

section \<open>Paths\<close>

record py_path =
  pp_absolute :: bool
  pp_parts :: "string list"

fun split_char :: "char \<Rightarrow> string \<Rightarrow> string \<Rightarrow> string list" where
  "split_char sep acc [] = [rev acc]"
| "split_char sep acc (c # s) =
     (if c = sep then rev acc # split_char sep [] s else split_char sep (c # acc) s)"

definition path_parts :: "string \<Rightarrow> string list" where
  "path_parts s = filter (\<lambda>p. p \<noteq> [] \<and> p \<noteq> ''.'') (split_char (CHR ''/'') [] s)"

text \<open>\<open>Path(s)\<close>: empty and single-dot components go, double dots stay.\<close>

definition make_path :: "string \<Rightarrow> py_path" where
  "make_path s = \<lparr>pp_absolute = startswith s ''/'', pp_parts = path_parts s\<rparr>"

definition path_str :: "string list \<Rightarrow> string" where
  "path_str parts = CHR ''/'' # join ''/'' parts"

text \<open>\<open>a / b\<close>.\<close>

definition join_path :: "py_path \<Rightarrow> py_path \<Rightarrow> py_path" where
  "join_path a b = (if pp_absolute b then b else a\<lparr>pp_parts := pp_parts a @ pp_parts b\<rparr>)"

record file_system =
  fs_cwd :: "string list"
  fs_home_of :: "string \<Rightarrow> string list option"
  fs_links :: "string list \<Rightarrow> py_path option"
  fs_max_links :: nat

definition expanduser :: "file_system \<Rightarrow> py_path \<Rightarrow> py_path result" where
  "expanduser fs p =
     (case pp_parts p of
        (c # user) # rest \<Rightarrow>
          if \<not> pp_absolute p \<and> c = CHR ''~'' then
            (case fs_home_of fs user of
               None \<Rightarrow> Inl (RuntimeError ''Could not determine home directory.'')
             | Some home \<Rightarrow> Inr \<lparr>pp_absolute = True, pp_parts = home @ rest\<rparr>)
          else Inr p
      | _ \<Rightarrow> Inr p)"

text \<open>\<open>os.path.realpath\<close>: component by component, with the links left to follow.\<close>

function realpath :: "file_system \<Rightarrow> nat \<Rightarrow> string list \<Rightarrow> string list \<Rightarrow> string list option" where
  "realpath fs n acc [] = Some acc"
| "realpath fs n acc (c # cs) =
     (if c = ''..'' then realpath fs n (butlast acc) cs
      else
        (case fs_links fs (acc @ [c]) of
           None \<Rightarrow> realpath fs n (acc @ [c]) cs
         | Some target \<Rightarrow>
             (if n = 0 then None
              else realpath fs (n - 1) (if pp_absolute target then [] else acc) (pp_parts target @ cs))))"
  by pat_completeness auto
termination
  by (relation "measures [\<lambda>(fs, n, acc, cs). n, \<lambda>(fs, n, acc, cs). length cs]") auto

definition resolve_in :: "file_system \<Rightarrow> py_path \<Rightarrow> string list result" where
  "resolve_in fs p =
     (case realpath fs (fs_max_links fs) []
             ((if pp_absolute p then [] else fs_cwd fs) @ pp_parts p) of
        None \<Rightarrow> Inl (RuntimeError ''Symlink loop'')
      | Some r \<Rightarrow> Inr r)"

text \<open>\<open>_resolve_path\<close>, of a path and of a string.\<close>

definition resolve_path :: "file_system \<Rightarrow> py_path \<Rightarrow> string list result" where
  "resolve_path fs p = bind_result (expanduser fs p) (resolve_in fs)"

definition is_relative_to :: "string list \<Rightarrow> string list \<Rightarrow> bool" where
  "is_relative_to p root = (take (length root) p = root)"

lemma is_relative_to_iff: "is_relative_to p root \<longleftrightarrow> (\<exists>q. p = root @ q)"
  by (auto simp: is_relative_to_def) (metis append_take_drop_id)

section \<open>The sandbox\<close>

definition DEFAULT_PROTECTED_PATHS :: "string list" where
  "DEFAULT_PROTECTED_PATHS =
     [''.git'', ''.agents'', ''.claude'', ''.codex'', ''data/config.json'', ''data/conversations'']"

record logical_sandbox =
  sb_workspace_roots :: "string list list"
  sb_protected_paths :: "py_path list"

definition make_sandbox ::
  "file_system \<Rightarrow> string list \<Rightarrow> string list \<Rightarrow> logical_sandbox result" where
  "make_sandbox fs roots protected =
     map_result
       (\<lambda>rs. \<lparr>sb_workspace_roots = rs, sb_protected_paths = map make_path protected\<rparr>)
       (mapM_result (resolve_path fs \<circ> make_path) roots)"

text \<open>A configured list of paths: strings, anything else is a \<open>TypeError\<close> of \<open>Path\<close>.\<close>

fun path_list :: "pyval list \<Rightarrow> string list result" where
  "path_list [] = Inr []"
| "path_list (PStr s # vs) = map_result (Cons s) (path_list vs)"
| "path_list (_ # vs) = Inl TypeError"

definition subdict :: "pyval \<Rightarrow> string \<Rightarrow> pyval result" where
  "subdict v k =
     (case v of
        PDict d \<Rightarrow> Inr (case map_of d k of None \<Rightarrow> PDict [] | Some w \<Rightarrow> w)
      | _ \<Rightarrow> Inl AttributeError)"

definition sandbox_for_config ::
  "file_system \<Rightarrow> (string \<times> pyval) list \<Rightarrow> string \<Rightarrow> logical_sandbox result" where
  "sandbox_for_config fs config default_workspace =
     bind_result (subdict (PDict config) ''tools'') (\<lambda>tools.
     bind_result (subdict tools ''permissions'') (\<lambda>permissions.
     bind_result (subdict permissions ''sandbox'') (\<lambda>sandbox.
       case sandbox of
         PDict d \<Rightarrow>
           bind_result
             (if py_true (dget d ''workspace_roots'')
              then bind_result (py_iter (dget d ''workspace_roots'')) path_list else Inr [default_workspace]) (\<lambda>roots.
           bind_result
             (if py_true (dget d ''protected_paths'')
              then bind_result (py_iter (dget d ''protected_paths'')) path_list else Inr DEFAULT_PROTECTED_PATHS)
             (make_sandbox fs roots))
       | _ \<Rightarrow> Inl AttributeError)))"

definition resolve_protected_path :: "file_system \<Rightarrow> string list \<Rightarrow> py_path \<Rightarrow> string list result" where
  "resolve_protected_path fs root protected =
     (if pp_absolute protected then resolve_path fs protected
      else resolve_path fs (join_path \<lparr>pp_absolute = True, pp_parts = root\<rparr> protected))"

text \<open>The inner loop over the protected paths and the outer one over the roots.\<close>

fun check_protected :: "file_system \<Rightarrow> string list \<Rightarrow> string list \<Rightarrow> py_path list \<Rightarrow> unit result" where
  "check_protected fs target root [] = Inr ()"
| "check_protected fs target root (p # ps) =
     (case resolve_protected_path fs root p of
        Inl e \<Rightarrow> Inl e
      | Inr r \<Rightarrow>
          if is_relative_to target r
          then Inl (SandboxViolation (''write target is within protected path: '' @ join ''/'' (pp_parts p)))
          else check_protected fs target root ps)"

fun check_roots :: "file_system \<Rightarrow> string list \<Rightarrow> py_path list \<Rightarrow> string list list \<Rightarrow> unit result" where
  "check_roots fs target ps [] = Inr ()"
| "check_roots fs target ps (root # roots) =
     (case check_protected fs target root ps of
        Inl e \<Rightarrow> Inl e | Inr _ \<Rightarrow> check_roots fs target ps roots)"

definition workspace_roots_for :: "logical_sandbox \<Rightarrow> string list \<Rightarrow> string list list" where
  "workspace_roots_for sb target = filter (is_relative_to target) (sb_workspace_roots sb)"

definition check_filesystem_write :: "file_system \<Rightarrow> logical_sandbox \<Rightarrow> py_path \<Rightarrow> unit result" where
  "check_filesystem_write fs sb target =
     bind_result (resolve_path fs target) (\<lambda>resolved.
       let roots = workspace_roots_for sb resolved in
       if roots = []
       then Inl (SandboxViolation (''write target is outside workspace roots: '' @ path_str resolved))
       else check_roots fs resolved (sb_protected_paths sb) roots)"

section \<open>Lemmas\<close>

text \<open>More links allowed never change a resolved path, and without links none are needed.\<close>

lemma realpath_mono: "realpath fs n acc cs = Some r \<Longrightarrow> n \<le> m \<Longrightarrow> realpath fs m acc cs = Some r"
proof (induction fs n acc cs arbitrary: m rule: realpath.induct)
  case (1 fs n acc)
  then show ?case by simp
next
  case (2 fs n acc c cs)
  show ?case
  proof (cases "c = ''..''")
    case True
    then show ?thesis using 2 by simp
  next
    case False
    show ?thesis
    proof (cases "fs_links fs (acc @ [c])")
      case None
      then show ?thesis using False 2 by simp
    next
      case (Some t)
      then have n: "n \<noteq> 0" and r: "realpath fs (n - 1) (if pp_absolute t then [] else acc) (pp_parts t @ cs) = Some r"
        using False 2(4) by (auto split: if_splits)
      have "realpath fs (m - 1) (if pp_absolute t then [] else acc) (pp_parts t @ cs) = Some r"
        by (rule 2(3) [OF False Some n r]) (use 2(5) in simp)
      then show ?thesis using False Some n 2(5) by simp
    qed
  qed
qed

lemma realpath_no_links: "(\<And>p. fs_links fs p = None) \<Longrightarrow> \<exists>r. realpath fs n acc cs = Some r"
  by (induction cs arbitrary: acc) auto

definition normal :: "string list \<Rightarrow> bool" where
  "normal p = list_all (\<lambda>c. c \<noteq> ''..'' \<and> c \<noteq> ''.'' \<and> c \<noteq> []) p"

lemma normal_append [simp]: "normal (p @ q) = (normal p \<and> normal q)"
  by (auto simp: normal_def)

lemma normal_simps [simp]:
  "normal []"
  "normal (c # p) = (c \<noteq> ''..'' \<and> c \<noteq> ''.'' \<and> c \<noteq> [] \<and> normal p)"
  by (simp_all add: normal_def)

lemma normal_butlast: "normal p \<Longrightarrow> normal (butlast p)"
  by (auto simp: normal_def list_all_iff dest: in_set_butlastD)

definition dotless :: "string list \<Rightarrow> bool" where
  "dotless p = list_all (\<lambda>c. c \<noteq> ''.'' \<and> c \<noteq> []) p"

lemma dotless_simps [simp]:
  "dotless []"
  "dotless (c # p) = (c \<noteq> ''.'' \<and> c \<noteq> [] \<and> dotless p)"
  "dotless (p @ q) = (dotless p \<and> dotless q)"
  by (auto simp: dotless_def)

lemma dotless_path_parts: "dotless (path_parts s)"
  by (auto simp: dotless_def path_parts_def list_all_iff)

definition links_ok :: "file_system \<Rightarrow> bool" where
  "links_ok fs = (dotless (fs_cwd fs) \<and> (\<forall>p t. fs_links fs p = Some t \<longrightarrow> dotless (pp_parts t))
     \<and> (\<forall>u h. fs_home_of fs u = Some h \<longrightarrow> dotless h))"

text \<open>A resolved path has no dots, so its components name the file itself.\<close>

lemma realpath_normal:
  "realpath fs n acc cs = Some r \<Longrightarrow> links_ok fs \<Longrightarrow> normal acc \<Longrightarrow> dotless cs \<Longrightarrow> normal r"
proof (induction fs n acc cs rule: realpath.induct)
  case (1 fs n acc)
  then show ?case by simp
next
  case (2 fs n acc c cs)
  show ?case
  proof (cases "c = ''..''")
    case True
    then show ?thesis using 2 by (simp add: normal_butlast)
  next
    case False
    show ?thesis
    proof (cases "fs_links fs (acc @ [c])")
      case None
      then show ?thesis using False 2 by simp
    next
      case (Some t)
      then have r: "n \<noteq> 0" "realpath fs (n - 1) (if pp_absolute t then [] else acc) (pp_parts t @ cs) = Some r"
        using False 2(4) by (auto split: if_splits)
      have "dotless (pp_parts t)" using 2(5) Some by (auto simp: links_ok_def)
      then show ?thesis by (intro 2(3) [OF False Some r]) (use 2(5,6,7) in auto)
    qed
  qed
qed

lemma resolve_path_normal:
  assumes "links_ok fs" and "resolve_path fs p = Inr r" and "dotless (pp_parts p)"
  shows "normal r"
proof -
  obtain q where q: "expanduser fs p = Inr q" "resolve_in fs q = Inr r"
    using assms(2) by (auto simp: resolve_path_def bind_result_eq_Inr)
  have "dotless (pp_parts q)"
    using q(1) assms(1,3) by (auto simp: expanduser_def links_ok_def split: list.splits if_splits option.splits)
  then have "dotless ((if pp_absolute q then [] else fs_cwd fs) @ pp_parts q)"
    using assms(1) by (auto simp: links_ok_def)
  then show ?thesis using q(2) realpath_normal [OF _ assms(1)]
    by (auto simp: resolve_in_def split: option.splits)
qed

lemma check_protected_ok:
  "check_protected fs target root ps = Inr () \<longleftrightarrow>
   (\<forall>p \<in> set ps. \<exists>r. resolve_protected_path fs root p = Inr r \<and> \<not> is_relative_to target r)"
  by (induction ps) (auto split: sum.split)

lemma check_roots_ok:
  "check_roots fs target ps roots = Inr () \<longleftrightarrow> (\<forall>root \<in> set roots. check_protected fs target root ps = Inr ())"
  by (induction roots) (auto split: sum.split)

text \<open>
  C14: A write is let through exactly if its target, with the home directory, double dots and
  symbolic links resolved, lies in a workspace root and, for every root it lies in, in none
  of the resolved protected paths; and the resolved target has no dots left, so the target
  that is compared is the file that will be written.
\<close>

theorem sandbox_confines_writes:
  assumes "links_ok fs" and "dotless (pp_parts target)"
  shows "check_filesystem_write fs sb target = Inr () \<longleftrightarrow>
         (\<exists>path. resolve_path fs target = Inr path \<and> normal path \<and>
            (\<exists>root \<in> set (sb_workspace_roots sb). is_relative_to path root) \<and>
            (\<forall>root \<in> set (sb_workspace_roots sb). is_relative_to path root \<longrightarrow>
               (\<forall>p \<in> set (sb_protected_paths sb).
                  \<exists>r. resolve_protected_path fs root p = Inr r \<and> \<not> is_relative_to path r)))"
proof (cases "resolve_path fs target")
  case (Inl e)
  then show ?thesis by (simp add: check_filesystem_write_def)
next
  case (Inr path)
  have "normal path" using resolve_path_normal [OF assms(1) Inr assms(2)] .
  moreover have "workspace_roots_for sb path = [] \<longleftrightarrow> (\<forall>root \<in> set (sb_workspace_roots sb). \<not> is_relative_to path root)"
    by (simp add: workspace_roots_for_def filter_empty_conv)
  ultimately show ?thesis
    using Inr by (auto simp: check_filesystem_write_def Let_def check_roots_ok check_protected_ok workspace_roots_for_def)
qed

definition demo_fs :: file_system where
  "demo_fs = \<lparr>fs_cwd = [''ws''], fs_home_of = (\<lambda>u. if u = [] then Some [''home''] else None),
     fs_links = (\<lambda>p. if p = [''ws'', ''out''] then Some (make_path ''../etc'') else None), fs_max_links = 40\<rparr>"

definition demo_sandbox :: logical_sandbox where
  "demo_sandbox = \<lparr>sb_workspace_roots = [[''ws'']], sb_protected_paths = map make_path DEFAULT_PROTECTED_PATHS\<rparr>"

lemma demo_links_ok: "links_ok demo_fs"
  by (simp add: links_ok_def demo_fs_def dotless_path_parts make_path_def)

theorem sandbox_confines_writes_witness:
  "check_filesystem_write demo_fs demo_sandbox (make_path ''src/../notes.txt'') = Inr () \<and>
   check_filesystem_write demo_fs demo_sandbox (make_path ''out/passwd'') \<noteq> Inr ()"
proof
  note iff = sandbox_confines_writes [OF demo_links_ok, of _ demo_sandbox]
  show "check_filesystem_write demo_fs demo_sandbox (make_path ''src/../notes.txt'') = Inr ()" by code_simp
  have r: "resolve_path demo_fs (make_path ''out/passwd'') = Inr [''etc'', ''passwd'']" by code_simp
  have "\<not> is_relative_to [''etc'', ''passwd''] [''ws'']" by (simp add: is_relative_to_def)
  then show "check_filesystem_write demo_fs demo_sandbox (make_path ''out/passwd'') \<noteq> Inr ()"
    using iff [of "make_path ''out/passwd''"] r
    by (simp add: make_path_def dotless_path_parts demo_sandbox_def)
qed

lemma realpath_id:
  assumes "\<And>p. fs_links fs p = None"
  shows "normal cs \<Longrightarrow> realpath fs n acc cs = Some (acc @ cs)"
  by (induction cs arbitrary: acc) (simp_all add: assms)

lemma normal_iff: "normal p \<longleftrightarrow> dotless p \<and> ''..'' \<notin> set p"
  by (auto simp: normal_def dotless_def list_all_iff)

text \<open>
  In a file system without links, a write below a protected path of a workspace root is
  refused, however the target is spelled: with redundant dots, through the parent directory,
  relative to the working directory or to the home directory.
\<close>

theorem protected_paths_are_refused:
  assumes "\<forall>p. fs_links fs p = None" and "links_ok fs" and "make_sandbox fs roots protected = Inr sb"
    and "root \<in> set (sb_workspace_roots sb)" and "p \<in> set protected"
    and "\<not> startswith p ''/''" and "''..'' \<notin> set (path_parts p)"
    and "resolve_path fs target = Inr (root @ path_parts p @ rest)"
  shows "\<exists>e. check_filesystem_write fs sb target = Inl e"
proof -
  let ?path = "root @ path_parts p @ rest"
  obtain rs where sb: "mapM_result (resolve_path fs \<circ> make_path) roots = Inr rs"
    "sb = \<lparr>sb_workspace_roots = rs, sb_protected_paths = map make_path protected\<rparr>"
    using assms(3) by (auto simp: make_sandbox_def map_result_eq_Inr)
  obtain r where "resolve_path fs (make_path r) = Inr root"
    using mapM_result_all [OF sb(1)] assms(4) sb(2) by (auto simp: in_set_conv_nth list_all2_conv_all_nth)
  then have root: "normal root"
    using resolve_path_normal [OF assms(2)] by (simp add: make_path_def dotless_path_parts)
  have parts: "normal (path_parts p)" using assms(7) by (simp add: normal_iff dotless_path_parts)
  have "join_path \<lparr>pp_absolute = True, pp_parts = root\<rparr> (make_path p) =
      \<lparr>pp_absolute = True, pp_parts = root @ path_parts p\<rparr>"
    using assms(6) by (simp add: join_path_def make_path_def)
  moreover have "expanduser fs \<lparr>pp_absolute = True, pp_parts = root @ path_parts p\<rparr> =
      Inr \<lparr>pp_absolute = True, pp_parts = root @ path_parts p\<rparr>"
    by (simp add: expanduser_def split: list.split)
  ultimately have "resolve_protected_path fs root (make_path p) = Inr (root @ path_parts p)"
    using root parts assms(1,6) realpath_id [of fs "root @ path_parts p"]
    by (simp add: resolve_protected_path_def resolve_path_def resolve_in_def make_path_def)
  moreover have "is_relative_to ?path (root @ path_parts p)" by (simp add: is_relative_to_def)
  moreover have "make_path p \<in> set (sb_protected_paths sb)" using assms(5) sb(2) by simp
  ultimately have "check_protected fs ?path root (sb_protected_paths sb) \<noteq> Inr ()"
    by (auto simp: check_protected_ok intro!: bexI [of _ "make_path p"])
  moreover have "root \<in> set (workspace_roots_for sb ?path)"
    using assms(4) by (simp add: workspace_roots_for_def is_relative_to_def)
  ultimately have "check_filesystem_write fs sb target \<noteq> Inr ()"
    using assms(8) by (auto simp: check_filesystem_write_def Let_def check_roots_ok)
  then show ?thesis by (cases "check_filesystem_write fs sb target") auto
qed

definition demo_plain_fs :: file_system where
  "demo_plain_fs = \<lparr>fs_cwd = [''ws''], fs_home_of = (\<lambda>u. Some [''home'']), fs_links = (\<lambda>p. None), fs_max_links = 40\<rparr>"

theorem protected_paths_are_refused_witness:
  "\<exists>e. check_filesystem_write demo_plain_fs demo_sandbox (make_path ''./src/../.git//config'') = Inl e"
proof (rule protected_paths_are_refused [where roots = "[''/ws'']" and protected = DEFAULT_PROTECTED_PATHS
        and root = "[''ws'']" and p = "''.git''" and rest = "[''config'']"])
  show "make_sandbox demo_plain_fs [''/ws''] DEFAULT_PROTECTED_PATHS = Inr demo_sandbox" by code_simp
  show "resolve_path demo_plain_fs (make_path ''./src/../.git//config'') =
      Inr ([''ws''] @ path_parts ''.git'' @ [''config''])" by code_simp
  show "''..'' \<notin> set (path_parts ''.git'')" by code_simp
qed (simp_all add: demo_plain_fs_def links_ok_def demo_sandbox_def DEFAULT_PROTECTED_PATHS_def)

end
