(* ===== verification/Orchestrator.thy ===== *)
theory Orchestrator
  imports Permissions Approval Sandbox
begin

text \<open>
  The execution of one tool call (\<open>tools/orchestrator.py\<close>): command policy, permission
  engine, session grants, approval by the user and sandbox, in that order, before the tool
  manager runs the tool.  The answer to an approval request is an argument, the one the
  approval manager returns; the tool manager is the argument \<open>run_tool\<close>.
\<close>

section \<open>What a call writes and which command it holds\<close>

definition MUTATING_TOOL_NAME_TOKENS :: "string list" where
  "MUTATING_TOOL_NAME_TOKENS =
     [''write'', ''delete'', ''move'', ''remove'', ''edit'', ''create'', ''mkdir'', ''append'', ''patch'',
      ''rename'', ''copy'']"

definition PATH_ARGUMENT_KEYS :: "string list" where
  "PATH_ARGUMENT_KEYS =
     [''path'', ''file'', ''filepath'', ''file_path'', ''target'', ''destination'', ''dest'', ''output'',
      ''source'', ''paths'', ''files'', ''cwd'']"

definition BUILTIN_CODE_WRITE_TOOLS :: "string list" where
  "BUILTIN_CODE_WRITE_TOOLS = [''edit'', ''write'', ''patch'']"

definition COMMAND_TOOL_NAME_TOKENS :: "string list" where
  "COMMAND_TOOL_NAME_TOKENS = [''command'', ''shell'', ''bash'', ''powershell'', ''exec'', ''run'']"

definition is_write_like_tool :: "string \<Rightarrow> bool" where
  "is_write_like_tool tool_name =
     (\<exists>token \<in> set MUTATING_TOOL_NAME_TOKENS. contains (lower tool_name) token)"

definition is_command_like_tool :: "string \<Rightarrow> bool" where
  "is_command_like_tool tool_name =
     (\<exists>part \<in> set (word_parts is_ascii_alnum [] (lower tool_name)). part \<in> set COMMAND_TOOL_NAME_TOKENS)"

text \<open>\<open>_command_from_arguments\<close> looks for the same keys as the permission engine.\<close>

definition command_from_arguments :: "(string \<times> pyval) list \<Rightarrow> string option" where
  "command_from_arguments arguments = command_text arguments"

definition path_values :: "pyval \<Rightarrow> pyval list" where
  "path_values v =
     (case v of
        PNone \<Rightarrow> []
      | PList xs \<Rightarrow> filter (\<lambda>x. x \<noteq> PNone) xs
      | _ \<Rightarrow> [v])"

text \<open>A Windows drive or share counts as absolute.\<close>

definition is_drive_path :: "string \<Rightarrow> bool" where
  "is_drive_path s =
     (3 \<le> length s \<and> is_ascii_alnum (s ! 0) \<and> \<not> is_digit (s ! 0) \<and> s ! 1 = CHR '':'' \<and>
      (s ! 2 = CHR 0x5C \<or> s ! 2 = CHR ''/''))"

definition is_absolute_path_value :: "file_system \<Rightarrow> string \<Rightarrow> bool result" where
  "is_absolute_path_value fs s =
     (if is_drive_path s \<or> startswith s [CHR 0x5C, CHR 0x5C] then Inr True
      else map_result pp_absolute (expanduser fs (make_path s)))"

definition is_relative_path_value :: "file_system \<Rightarrow> pyval \<Rightarrow> bool result" where
  "is_relative_path_value fs v =
     (case v of PStr s \<Rightarrow> map_result Not (is_absolute_path_value fs s) | _ \<Rightarrow> Inr False)"

text \<open>The path values of the arguments, without the relative ones where they are skipped.\<close>

fun keep_targets :: "file_system \<Rightarrow> bool \<Rightarrow> pyval list \<Rightarrow> pyval list result" where
  "keep_targets fs skip_relative [] = Inr []"
| "keep_targets fs skip_relative (v # vs) =
     (if \<not> skip_relative then map_result (Cons v) (keep_targets fs skip_relative vs)
      else
        bind_result (is_relative_path_value fs v) (\<lambda>rel.
          if rel then keep_targets fs skip_relative vs
          else map_result (Cons v) (keep_targets fs skip_relative vs)))"

definition filesystem_write_targets ::
  "file_system \<Rightarrow> string \<Rightarrow> (string \<times> pyval) list \<Rightarrow> bool \<Rightarrow> pyval list result" where
  "filesystem_write_targets fs tool_name arguments include_builtin_relative =
     (if \<not> is_write_like_tool tool_name then Inr []
      else
        keep_targets fs (tool_name \<in> set BUILTIN_CODE_WRITE_TOOLS \<and> \<not> include_builtin_relative)
          (concat (map (path_values \<circ> snd)
            (filter (\<lambda>p. lower (fst p) \<in> set PATH_ARGUMENT_KEYS) arguments))))"

record workspace =
  ws_cwd :: "string option"
  ws_roots :: "string list"
  ws_protected :: "string list"

definition resolve_workspace_target :: "file_system \<Rightarrow> pyval \<Rightarrow> workspace option \<Rightarrow> py_path result" where
  "resolve_workspace_target fs target workspace =
     bind_result (expanduser fs (make_path (py_str target))) (\<lambda>p.
       case workspace of
         None \<Rightarrow> Inr p
       | Some w \<Rightarrow>
           if pp_absolute p then Inr p
           else map_result (\<lambda>cwd. join_path cwd p)
             (expanduser fs (make_path (if truthy_opt (ws_cwd w) then or_empty (ws_cwd w) else ''.''))))"

definition sandbox_for_workspace ::
  "file_system \<Rightarrow> logical_sandbox \<Rightarrow> workspace option \<Rightarrow> logical_sandbox result" where
  "sandbox_for_workspace fs own workspace =
     (case workspace of
        None \<Rightarrow> Inr own
      | Some w \<Rightarrow>
          if ws_roots w \<noteq> [] then make_sandbox fs (ws_roots w) (ws_protected w)
          else (case ws_cwd w of
                  None \<Rightarrow> Inl TypeError
                | Some cwd \<Rightarrow> make_sandbox fs [cwd] (ws_protected w)))"

fun check_targets ::
  "file_system \<Rightarrow> logical_sandbox \<Rightarrow> workspace option \<Rightarrow> pyval list \<Rightarrow> unit result" where
  "check_targets fs sb workspace [] = Inr ()"
| "check_targets fs sb workspace (v # vs) =
     bind_result (resolve_workspace_target fs v workspace) (\<lambda>p.
     bind_result (check_filesystem_write fs sb p) (\<lambda>_. check_targets fs sb workspace vs))"

section \<open>The decision\<close>

definition command_policy_decision ::
  "string \<Rightarrow> string \<Rightarrow> (string \<times> pyval) list \<Rightarrow> command_decision option" where
  "command_policy_decision shell_id tool_name arguments =
     (if \<not> is_command_like_tool tool_name then None
      else map_option (\<lambda>c. classify default_rules c shell_id) (command_from_arguments arguments))"

definition command_policy_ask_applies :: "command_decision option \<Rightarrow> pyval \<Rightarrow> bool" where
  "command_policy_ask_applies d mode =
     (case d of
        None \<Rightarrow> False
      | Some cd \<Rightarrow> cd_behavior cd = Ask \<and> normalize_permission_mode mode \<noteq> AutoApprove)"

definition session_allow_applies ::
  "permission_decision \<Rightarrow> approval_state \<Rightarrow> string \<Rightarrow> string \<Rightarrow> bool \<Rightarrow> bool" where
  "session_allow_applies pd am conversation_id tool_name command_policy_ask =
     (is_session_allowed am conversation_id tool_name \<and>
      \<not> (\<exists>r \<in> set (pd_matched_rules pd). pr_behavior r = Ask \<and> pr_source r \<in> {''user'', ''project''}) \<and>
      (command_policy_ask \<or>
       (\<exists>r \<in> set (pd_matched_rules pd). pr_behavior r = Ask \<and> pr_source r = ''default'')))"

record orchestrator =
  oc_rules :: "permission_rule list"
  oc_sandbox :: logical_sandbox
  oc_fs :: file_system
  oc_shell_id :: string

datatype gate =
    Refuse string string
  | NeedApproval permission_decision
  | Proceed bool

definition permission_message :: string where
  "permission_message = ''Tool execution requires permission.''"

text \<open>
  The part of \<open>execute_tool_call\<close> before an approval: refused with reason and message, to be
  approved, or allowed, with the information whether a session grant was used.
\<close>

definition decide_call :: "orchestrator \<Rightarrow> approval_state \<Rightarrow> permission_context \<Rightarrow> gate" where
  "decide_call oc am context =
     (let name = pc_tool_name context;
          policy = command_policy_decision (oc_shell_id oc) name (pc_arguments context) in
      if (case policy of None \<Rightarrow> False | Some cd \<Rightarrow> cd_behavior cd = Deny)
      then Refuse (cd_reason (the policy)) permission_message
      else
        let pd0 = evaluate (oc_rules oc) context in
        if pd_behavior pd0 = Deny then Refuse (pd_reason pd0) permission_message
        else
          let policy_ask = command_policy_ask_applies policy (pc_mode context);
              pd = (if policy_ask
                    then decision Ask (''Command approval required: '' @ cd_reason (the policy)) (pd_matched_rules pd0)
                    else pd0);
              reuse = (pd_behavior pd = Ask \<and>
                       session_allow_applies pd am (pc_conversation_id context) name policy_ask) in
          if pd_behavior pd = Ask \<and> \<not> reuse then NeedApproval pd else Proceed reuse)"

datatype tool_outcome = Executed string | Denied string string

text \<open>
  The answer to the approval request is \<open>None\<close> where there is nobody to ask (no event
  receiver), else the decision the approval manager returns.
\<close>

definition approve_call :: "gate \<Rightarrow> approval_decision option \<Rightarrow> (string \<times> string) option" where
  "approve_call g answer =
     (case g of
        Refuse reason message \<Rightarrow> Some (reason, message)
      | Proceed _ \<Rightarrow> None
      | NeedApproval pd \<Rightarrow>
          (case answer of
             None \<Rightarrow> Some (pd_reason pd @ ''; approval UI unavailable'', permission_message)
           | Some ad \<Rightarrow>
               if ad_status ad \<noteq> ''approved''
               then Some (''Tool approval status: '' @ ad_status ad, ''Tool approval was not granted.'')
               else None))"

text \<open>The sandbox check: only a violation refuses the call, other exceptions leave it.\<close>

definition sandbox_check ::
  "orchestrator \<Rightarrow> workspace option \<Rightarrow> permission_context \<Rightarrow> unit result" where
  "sandbox_check oc workspace context =
     bind_result (sandbox_for_workspace (oc_fs oc) (oc_sandbox oc) workspace) (\<lambda>sb.
     bind_result (filesystem_write_targets (oc_fs oc) (pc_tool_name context) (pc_arguments context) (workspace \<noteq> None))
       (check_targets (oc_fs oc) sb workspace))"

definition execute_tool_call ::
  "orchestrator \<Rightarrow> (string \<Rightarrow> (string \<times> pyval) list \<Rightarrow> string result) \<Rightarrow> approval_state \<Rightarrow>
   approval_decision option \<Rightarrow> workspace option \<Rightarrow> permission_context \<Rightarrow> tool_outcome result" where
  "execute_tool_call oc run_tool am answer workspace context =
     (case approve_call (decide_call oc am context) answer of
        Some (reason, message) \<Rightarrow> Inr (Denied reason message)
      | None \<Rightarrow>
          (case sandbox_check oc workspace context of
             Inl (SandboxViolation why) \<Rightarrow> Inr (Denied why ''Tool execution violates logical sandbox.'')
           | Inl e \<Rightarrow> Inl e
           | Inr _ \<Rightarrow> map_result Executed (run_tool (pc_tool_name context) (pc_arguments context))))"

section \<open>Lemmas\<close>

text \<open>A call that runs has passed every check.\<close>

lemma executed_passed:
  assumes "execute_tool_call oc run_tool am answer w context = Inr (Executed out)"
  shows "approve_call (decide_call oc am context) answer = None \<and> sandbox_check oc w context = Inr () \<and>
         run_tool (pc_tool_name context) (pc_arguments context) = Inr out"
  using assms
  by (auto simp: execute_tool_call_def map_result_eq_Inr split: option.splits sum.splits pyerr.splits)

lemma decide_call_Proceed:
  assumes "decide_call oc am context = Proceed reuse"
  shows "(\<forall>cd. command_policy_decision (oc_shell_id oc) (pc_tool_name context) (pc_arguments context) = Some cd \<longrightarrow>
            cd_behavior cd \<noteq> Deny \<and>
            (reuse \<or> cd_behavior cd = Allow \<or> normalize_permission_mode (pc_mode context) = AutoApprove)) \<and>
         pd_behavior (evaluate (oc_rules oc) context) \<noteq> Deny \<and>
         (reuse \<or> pd_behavior (evaluate (oc_rules oc) context) = Allow) \<and>
         (reuse \<longrightarrow> is_session_allowed am (pc_conversation_id context) (pc_tool_name context) \<and>
            \<not> (\<exists>r \<in> set (pd_matched_rules (evaluate (oc_rules oc) context)).
                  pr_behavior r = Ask \<and> pr_source r \<in> {''user'', ''project''}))"
proof -
  let ?policy = "command_policy_decision (oc_shell_id oc) (pc_tool_name context) (pc_arguments context)"
  let ?pd = "evaluate (oc_rules oc) context"
  have nd: "\<forall>cd. ?policy = Some cd \<longrightarrow> cd_behavior cd \<noteq> Deny" "pd_behavior ?pd \<noteq> Deny"
    using assms by (auto simp: decide_call_def Let_def split: if_splits option.splits)
  have ask: "cd_behavior cd = Ask \<or> cd_behavior cd = Allow" if "?policy = Some cd" for cd
    using nd(1) that by (cases "cd_behavior cd") auto
  have pd: "pd_behavior ?pd = Ask \<or> pd_behavior ?pd = Allow" using nd(2) by (cases "pd_behavior ?pd") auto
  show ?thesis
  proof (cases "command_policy_ask_applies ?policy (pc_mode context)")
    case True
    then have "reuse \<and> session_allow_applies (decision Ask (''Command approval required: '' @ cd_reason (the ?policy))
        (pd_matched_rules ?pd)) am (pc_conversation_id context) (pc_tool_name context) True"
      using assms nd by (auto simp: decide_call_def Let_def split: if_splits option.splits)
    then show ?thesis using nd by (auto simp: session_allow_applies_def)
  next
    case False
    then have r: "reuse = (pd_behavior ?pd = Ask)" and
      s: "reuse \<longrightarrow> session_allow_applies ?pd am (pc_conversation_id context) (pc_tool_name context) False"
      using assms nd by (auto simp: decide_call_def Let_def split: if_splits option.splits)
    have "normalize_permission_mode (pc_mode context) = AutoApprove \<or> cd_behavior cd = Allow" if "?policy = Some cd" for cd
      using False ask [OF that] that by (auto simp: command_policy_ask_applies_def)
    then show ?thesis using r s nd pd by (auto simp: session_allow_applies_def)
  qed
qed

lemma decide_call_NeedApproval:
  assumes "decide_call oc am context = NeedApproval pd"
  shows "(\<forall>cd. command_policy_decision (oc_shell_id oc) (pc_tool_name context) (pc_arguments context) = Some cd \<longrightarrow>
            cd_behavior cd \<noteq> Deny) \<and>
         pd_behavior (evaluate (oc_rules oc) context) \<noteq> Deny"
  using assms by (auto simp: decide_call_def Let_def split: if_splits option.splits)

text \<open>
  C15: A tool runs only when every check has passed: the command policy does not deny its
  command and no deny rule matches it; the rules and the policy allow it, or the user has
  approved this call, or has approved the tool for the session and no rule of the user or
  the project asks for it; and all of its write targets have passed the sandbox.
\<close>

theorem executed_calls_are_authorised:
  assumes "execute_tool_call oc run_tool am answer w context = Inr (Executed out)"
  shows "(\<forall>cd. command_policy_decision (oc_shell_id oc) (pc_tool_name context) (pc_arguments context) = Some cd \<longrightarrow>
            cd_behavior cd \<noteq> Deny) \<and>
         (\<forall>r \<in> set (matched_rules (oc_rules oc) context). pr_behavior r \<noteq> Deny) \<and>
         (pd_behavior (evaluate (oc_rules oc) context) = Allow \<and>
            (\<forall>cd. command_policy_decision (oc_shell_id oc) (pc_tool_name context) (pc_arguments context) = Some cd \<longrightarrow>
               cd_behavior cd = Allow \<or> normalize_permission_mode (pc_mode context) = AutoApprove)
          \<or> (\<exists>ad. answer = Some ad \<and> ad_status ad = ''approved'')
          \<or> is_session_allowed am (pc_conversation_id context) (pc_tool_name context) \<and>
            \<not> (\<exists>r \<in> set (pd_matched_rules (evaluate (oc_rules oc) context)).
                  pr_behavior r = Ask \<and> pr_source r \<in> {''user'', ''project''})) \<and>
         sandbox_check oc w context = Inr ()"
proof -
  have ap: "approve_call (decide_call oc am context) answer = None" and sb: "sandbox_check oc w context = Inr ()"
    using executed_passed [OF assms] by auto
  have nd: "(\<forall>r \<in> set (matched_rules (oc_rules oc) context). pr_behavior r \<noteq> Deny)"
    if "pd_behavior (evaluate (oc_rules oc) context) \<noteq> Deny"
    using evaluate_denied that by blast
  show ?thesis
  proof (cases "decide_call oc am context")
    case (Refuse r m)
    then show ?thesis using ap by (simp add: approve_call_def)
  next
    case (NeedApproval pd)
    then have "\<exists>ad. answer = Some ad \<and> ad_status ad = ''approved''"
      using ap by (auto simp: approve_call_def split: option.splits if_splits)
    then show ?thesis using decide_call_NeedApproval [OF NeedApproval] nd sb by blast
  next
    case (Proceed reuse)
    show ?thesis using decide_call_Proceed [OF Proceed] nd sb by (cases reuse) blast+
  qed
qed

definition demo_orchestrator :: orchestrator where
  "demo_orchestrator = \<lparr>oc_rules = default_permission_rules, oc_sandbox = demo_sandbox,
     oc_fs = demo_plain_fs, oc_shell_id = ''bash''\<rparr>"

definition demo_tool :: "string \<Rightarrow> (string \<times> pyval) list \<Rightarrow> string result" where
  "demo_tool name arguments = Inr ''ok''"

definition demo_edit :: permission_context where
  "demo_edit = demo_context ''edit'' [(''path'', PStr ''notes.txt'')] ''default''"

theorem executed_calls_are_authorised_witness:
  "execute_tool_call demo_orchestrator demo_tool (approval_init None)
     (Some \<lparr>ad_status = ''approved'', ad_scope = Some ''once''\<rparr>) None demo_edit = Inr (Executed ''ok'') \<and>
   sandbox_check demo_orchestrator None demo_edit = Inr ()"
proof -
  have run: "execute_tool_call demo_orchestrator demo_tool (approval_init None)
     (Some \<lparr>ad_status = ''approved'', ad_scope = Some ''once''\<rparr>) None demo_edit = Inr (Executed ''ok'')"
    by code_simp
  from executed_calls_are_authorised [OF run] run show ?thesis by blast
qed

text \<open>
  In plan mode nothing but the reading and planning tools runs, whatever rules, session
  grants or answers to approval requests there are; and the user is never asked.
\<close>

theorem plan_mode_runs_no_other_tool:
  assumes "normalize_permission_mode (pc_mode context) = PlanMode"
    and "pc_tool_name context \<notin> set PLAN_ALLOWED_TOOLS"
  shows "\<exists>reason message. execute_tool_call oc run_tool am answer w context = Inr (Denied reason message) \<and>
           (\<forall>pd. decide_call oc am context \<noteq> NeedApproval pd)"
proof -
  have deny: "pd_behavior (evaluate (oc_rules oc) context) = Deny"
  proof (cases "first_behavior (matched_rules (oc_rules oc) context) Deny")
    case None
    then show ?thesis using evaluate_plan [OF assms(1) None] assms(2) by (simp add: is_plan_allowed_tool_def)
  next
    case (Some r)
    then show ?thesis by (simp add: evaluate_denied_by)
  qed
  have "\<exists>reason. decide_call oc am context = Refuse reason permission_message"
    by (cases "case command_policy_decision (oc_shell_id oc) (pc_tool_name context) (pc_arguments context)
          of None \<Rightarrow> False | Some cd \<Rightarrow> cd_behavior cd = Deny")
      (simp_all add: decide_call_def Let_def deny)
  then obtain reason where "decide_call oc am context = Refuse reason permission_message" ..
  then show ?thesis by (simp add: execute_tool_call_def approve_call_def)
qed

theorem plan_mode_runs_no_other_tool_witness:
  "\<exists>reason message. execute_tool_call demo_orchestrator demo_tool (approval_init None)
     (Some \<lparr>ad_status = ''approved'', ad_scope = Some ''session''\<rparr>) None
     (demo_context ''edit'' [] ''plan'') = Inr (Denied reason message)"
proof -
  have "normalize_permission_mode (pc_mode (demo_context ''edit'' [] ''plan'')) = PlanMode" by code_simp
  moreover have "pc_tool_name (demo_context ''edit'' [] ''plan'') \<notin> set PLAN_ALLOWED_TOOLS" by code_simp
  ultimately show ?thesis using plan_mode_runs_no_other_tool by blast
qed

lemma word_ahead_hd: "word_ahead ws (c # s) \<Longrightarrow> [] \<notin> set ws \<Longrightarrow> lower_char c \<in> hd ` set ws"
proof -
  assume "word_ahead ws (c # s)" and ne: "[] \<notin> set ws"
  then obtain w r where w: "w \<in> set ws" "lower_char c # map lower_char s = w @ r"
    by (auto simp: word_ahead_def lower_def startswith_iff)
  then have "w \<noteq> []" using ne by blast
  then have "hd w = lower_char c" using w(2) by (cases w) auto
  then show ?thesis using w(1) by force
qed

lemma contains_char: "contains s [c] \<longleftrightarrow> c \<in> set s"
  by (auto simp: contains_iff in_set_conv_decomp)

text \<open>
  C16: The gap of the command policy reaches execution: in the default permission mode a
  shell command that starts with \<open>git status\<close>, goes on after a line break with any text
  free of separators, and matches no deny rule, runs without any approval.
\<close>

theorem second_line_runs_unapproved:
  assumes "pc_tool_name context = ''shell''"
    and "pc_arguments context = [(''command'', PStr (''git status'' @ [CHR 0x0A] @ tail))]"
    and "pc_mode context = PStr ''modify_only''"
    and "\<forall>r \<in> set (matched_rules (oc_rules oc) context). pr_behavior r \<noteq> Deny"
    and "\<not> re_search OPERATORS (''git status'' @ [CHR 0x0A] @ tail)"
    and "\<not> re_search SUBSTITUTIONS (''git status'' @ [CHR 0x0A] @ tail)"
    and "CHR ''&'' \<notin> set tail" and "tail \<noteq> []" and "\<not> is_space (last tail)"
  shows "decide_call oc am context = Proceed False"
proof -
  let ?c = "''git status'' @ [CHR 0x0A] @ tail"
  have cmd: "command_text (pc_arguments context) = Some ?c"
  proof -
    have "lower ''command'' \<in> set COMMAND_KEYS" by code_simp
    then show ?thesis by (simp add: assms(2))
  qed
  have like: "is_command_like_tool ''shell''" and parts: "tool_name_parts ''shell'' = [''shell'']"
    by code_simp+
  have allow: "cd_behavior (classify default_rules ?c (oc_shell_id oc)) = Allow"
    by (rule background_and_newline_pass) (use assms(5-9) in auto)
  then have pol: "command_policy_decision (oc_shell_id oc) ''shell'' (pc_arguments context) =
      Some (classify default_rules ?c (oc_shell_id oc))"
    using like cmd by (simp add: command_policy_decision_def command_from_arguments_def)
  have nosep: "CHR '';'' \<notin> set ?c" "CHR ''|'' \<notin> set ?c"
    using assms(5) unfolding re_search_iff OPERATORS_def by (simp_all add: contains_char)
  have "\<not> word_after [CHR '';'', CHR ''&'', CHR ''|''] DELETE_COMMANDS ?c"
    using nosep assms(7) by (intro word_after_none) auto
  moreover have "\<not> word_ahead DELETE_COMMANDS ?c"
    using word_ahead_hd [of DELETE_COMMANDS "CHR ''g''" "tl ?c"]
    by (auto simp: DELETE_COMMANDS_def lower_char_def Let_def)
  ultimately have nd: "\<not> is_explicit_delete ''shell'' (pc_arguments context)"
    using cmd by (simp add: is_explicit_delete_def parts word_at_command_def DELETE_NAME_TOKENS_def)
  have mode: "normalize_permission_mode (pc_mode context) = ModifyOnly"
    by (simp add: assms(3) normalize_permission_mode_def)
  have "is_mutating_tool_call ''shell'' (pc_arguments context)" using cmd by (simp add: is_mutating_tool_call_def)
  moreover have "\<not> always_allowed context"
    by (simp add: always_allowed_def is_chat_memory_def assms(1) is_plan_control_tool_def is_agent_management_tool_def)
  moreover have "first_behavior (matched_rules (oc_rules oc) context) Deny = None"
    using assms(4) by (simp add: first_behavior_None)
  ultimately have "pd_behavior (evaluate (oc_rules oc) context) = Allow"
    using evaluate_ordinary [of "context" "oc_rules oc"] mode nd assms(1) by (simp add: evaluate_mode_simps)
  then show ?thesis
    using pol allow assms(1) by (simp add: decide_call_def Let_def command_policy_ask_applies_def)
qed

theorem second_line_runs_unapproved_witness:
  "decide_call demo_orchestrator (approval_init None)
     (demo_context ''shell'' [(''command'', PStr (''git status'' @ [CHR 0x0A] @ ''rm -rf src''))] ''modify_only'')
   = Proceed False"
proof (rule second_line_runs_unapproved)
  show "\<forall>r \<in> set (matched_rules (oc_rules demo_orchestrator)
      (demo_context ''shell'' [(''command'', PStr (''git status'' @ [CHR 0x0A] @ ''rm -rf src''))] ''modify_only'')).
      pr_behavior r \<noteq> Deny"
    by code_simp
  show "\<not> re_search OPERATORS (''git status'' @ [CHR 0x0A] @ ''rm -rf src'')" by code_simp
  show "\<not> re_search SUBSTITUTIONS (''git status'' @ [CHR 0x0A] @ ''rm -rf src'')" by code_simp
  show "\<not> is_space (last ''rm -rf src'')" by code_simp
qed (simp_all add: demo_context_def)

end
