(* ===== verification/RunTypes.thy ===== *)
theory RunTypes
  imports TaskRepo
begin

text \<open>
  Runs as the rest of the program sees them (\<open>runs/types.py\<close>, \<open>runs/public.py\<close>): kinds and
  statuses, the dictionaries both run repositories return, and what of them a client may see.
\<close>

section \<open>Kinds and statuses\<close>

datatype run_kind = Chat | SideQuestion | Subagent | Command | Workflow | WorkflowStep | DirectResponse

datatype run_status =
    Queued | Running | WaitingApproval | Stopping | Completed | Failed | Cancelled | Interrupted | Stopped

definition run_kind_value :: "run_kind \<Rightarrow> string" where
  "run_kind_value k =
     (case k of
        Chat \<Rightarrow> ''chat'' | SideQuestion \<Rightarrow> ''side_question'' | Subagent \<Rightarrow> ''subagent'' | Command \<Rightarrow> ''command''
      | Workflow \<Rightarrow> ''workflow'' | WorkflowStep \<Rightarrow> ''workflow_step'' | DirectResponse \<Rightarrow> ''direct_response'')"

definition run_status_value :: "run_status \<Rightarrow> string" where
  "run_status_value s =
     (case s of
        Queued \<Rightarrow> ''queued'' | Running \<Rightarrow> ''running'' | WaitingApproval \<Rightarrow> ''waiting_approval''
      | Stopping \<Rightarrow> ''stopping'' | Completed \<Rightarrow> ''completed'' | Failed \<Rightarrow> ''failed'' | Cancelled \<Rightarrow> ''cancelled''
      | Interrupted \<Rightarrow> ''interrupted'' | Stopped \<Rightarrow> ''stopped'')"

definition FINISHED_RUN_STATUSES :: "run_status list" where
  "FINISHED_RUN_STATUSES = [Completed, Failed, Cancelled, Interrupted, Stopped]"

text \<open>Both repositories have the same set as strings.\<close>

definition FINISHED_STATUSES :: "string list" where
  "FINISHED_STATUSES = [''completed'', ''failed'', ''cancelled'', ''interrupted'', ''stopped'']"

definition is_finished :: "string \<Rightarrow> bool" where
  "is_finished s = (s \<in> set FINISHED_STATUSES)"

lemma finished_values: "is_finished (run_status_value s) \<longleftrightarrow> s \<in> set FINISHED_RUN_STATUSES"
  by (cases s) (simp_all add: is_finished_def FINISHED_STATUSES_def FINISHED_RUN_STATUSES_def run_status_value_def)

record run_record =
  rr_run_id :: string
  rr_conversation_id :: string
  rr_kind :: run_kind
  rr_status :: run_status
  rr_anchor_node_id :: "string option"
  rr_target_node_id :: "string option"
  rr_created_by_run_id :: "string option"
  rr_cancellation_parent_run_id :: "string option"
  rr_summary :: string
  rr_event_count :: nat
  rr_metadata :: "(string \<times> pyval) list"
  rr_created_at :: int
  rr_updated_at :: int
  rr_finished_at :: "int option"

definition run_record_to_dict :: "run_record \<Rightarrow> (string \<times> pyval) list" where
  "run_record_to_dict r =
     [(''run_id'', PStr (rr_run_id r)), (''conversation_id'', PStr (rr_conversation_id r)),
      (''kind'', PStr (run_kind_value (rr_kind r))), (''status'', PStr (run_status_value (rr_status r))),
      (''anchor_node_id'', of_opt (rr_anchor_node_id r)), (''target_node_id'', of_opt (rr_target_node_id r)),
      (''created_by_run_id'', of_opt (rr_created_by_run_id r)),
      (''cancellation_parent_run_id'', of_opt (rr_cancellation_parent_run_id r)),
      (''summary'', PStr (rr_summary r)), (''event_count'', PInt (int (rr_event_count r))),
      (''metadata'', PDict (rr_metadata r)), (''created_at'', PInt (rr_created_at r)),
      (''updated_at'', PInt (rr_updated_at r)), (''finished_at'', of_opt_int (rr_finished_at r))]"

section \<open>What the repositories return\<close>

record run_info =
  ri_id :: string
  ri_conversation_id :: string
  ri_kind :: string
  ri_status :: string
  ri_created_by :: "string option"
  ri_cancellation_parent :: "string option"
  ri_anchor_node :: "string option"
  ri_target_node :: "string option"
  ri_summary :: string
  ri_metadata :: "(string \<times> pyval) list"
  ri_idempotency_key :: "string option"
  ri_request_fingerprint :: "string option"
  ri_event_count :: nat
  ri_created_at :: int
  ri_updated_at :: int
  ri_finished_at :: "int option"

record run_event =
  ev_id :: nat
  ev_run_id :: string
  ev_conversation_id :: string
  ev_event_index :: nat
  ev_event_type :: string
  ev_payload :: "(string \<times> pyval) list"
  ev_payload_inline :: "string option"
  ev_payload_blob_id :: "string option"
  ev_created_at :: int

definition run_event_to_dict :: "string \<Rightarrow> int \<Rightarrow> (string \<times> pyval) list \<Rightarrow> int \<Rightarrow> (string \<times> pyval) list" where
  "run_event_to_dict run_id event_index payload at =
     [(''run_id'', PStr run_id), (''event_index'', PInt event_index), (''payload'', PDict payload),
      (''created_at'', PInt at)]"

text \<open>The arguments of a run creation.\<close>

record run_request =
  rq_conversation_id :: string
  rq_kind :: string
  rq_idempotency_key :: "string option"
  rq_fingerprint :: "string option"
  rq_anchor_node :: "string option"
  rq_target_node :: "string option"
  rq_created_by :: "string option"
  rq_cancellation_parent :: "string option"
  rq_summary :: string
  rq_metadata :: "(string \<times> pyval) list"
  rq_binding :: "task_binding option"

text \<open>
  What both repositories add to the payload of an event, and the type they record: the first
  of three entries that is not empty.
\<close>

definition event_payload ::
  "string \<Rightarrow> string \<Rightarrow> string \<Rightarrow> string option \<Rightarrow> nat \<Rightarrow> (string \<times> pyval) list \<Rightarrow> (string \<times> pyval) list" where
  "event_payload run_id c k target i source =
     dict_set ''event_index'' (PInt (int i))
       (dict_setdefault ''target_node_id'' (of_opt target)
         (dict_setdefault ''kind'' (PStr k)
           (dict_setdefault ''conversation_id'' (PStr c)
             (dict_setdefault ''run_id'' (PStr run_id) source))))"

definition event_type_of :: "(string \<times> pyval) list \<Rightarrow> string" where
  "event_type_of payload =
     str_or (dget payload ''type'')
       (str_or (dget payload ''event_type'') (str_or (dget payload ''status'') ''event''))"

section \<open>Public views\<close>

definition PRIVATE_TASK_METADATA_KEYS :: "string list" where
  "PRIVATE_TASK_METADATA_KEYS = [''task_generation_id'', ''task_revision'', ''task_step_position'']"

text \<open>\<open>dict(data.get("metadata") or {})\<close>, for a metadata entry that is a dictionary or empty.\<close>

definition metadata_of :: "(string \<times> pyval) list \<Rightarrow> (string \<times> pyval) list result" where
  "metadata_of d =
     (case dget d ''metadata'' of
        PDict m \<Rightarrow> Inr m
      | v \<Rightarrow> if py_true v then Inl TypeError else Inr [])"

definition public_run_dict :: "(string \<times> pyval) list \<Rightarrow> (string \<times> pyval) list result" where
  "public_run_dict run =
     (let d1 = fold dict_pop [''id'', ''idempotency_key'', ''request_fingerprint''] run in
      map_result (\<lambda>m.
        let step = dget m ''task_step_position'';
            d2 = dict_set ''metadata'' (PDict (fold dict_pop PRIVATE_TASK_METADATA_KEYS m)) d1
        in if step \<noteq> PNone then dict_set ''step'' step d2 else d2)
        (metadata_of d1))"

text \<open>
  Events are cleaned at every depth: in dictionaries and in the dictionaries that are items
  of a list, but not in lists of lists.  The entries are replaced in place, so the order stays.
\<close>

fun public_run_event :: "(string \<times> pyval) list \<Rightarrow> (string \<times> pyval) list"
  and public_value :: "pyval \<Rightarrow> pyval"
  and public_item :: "pyval \<Rightarrow> pyval"
where
  "public_run_event d =
     (let data = map (\<lambda>p. (fst p, public_value (snd p))) d in
      case dget data ''metadata'' of
        PDict m \<Rightarrow> (case public_run_dict data of Inr r \<Rightarrow> r | Inl _ \<Rightarrow> data)
      | _ \<Rightarrow> data)"
| "public_value (PDict d) = PDict (public_run_event d)"
| "public_value (PList xs) = PList (map public_item xs)"
| "public_value v = v"
| "public_item (PDict d) = PDict (public_run_event d)"
| "public_item v = v"

end
