(* ===== verification/Plans.thy ===== *)
theory Plans
  imports RunTypes Permissions
begin

text \<open>
  Plan mode: the plan sessions of a conversation (\<open>plans/types.py\<close>), the statements of
  \<open>SQLitePlanRepository\<close> (\<open>persistence/plan_repository.py\<close>) over the table \<open>plans\<close>, and the
  operations of \<open>PlanLedger\<close> (\<open>plans/ledger.py\<close>).  Each ledger operation holds a lock, so
  it is one function of the clock and the database.
\<close>

section \<open>Plan sessions\<close>

datatype plan_status =
    PlanActive | PlanAwaitingQuestion | PlanAwaitingApproval | PlanApproved | PlanRejected | PlanCancelled

definition plan_status_value :: "plan_status \<Rightarrow> string" where
  "plan_status_value s =
     (case s of
        PlanActive \<Rightarrow> ''active''
      | PlanAwaitingQuestion \<Rightarrow> ''awaiting_question''
      | PlanAwaitingApproval \<Rightarrow> ''awaiting_approval''
      | PlanApproved \<Rightarrow> ''approved''
      | PlanRejected \<Rightarrow> ''rejected''
      | PlanCancelled \<Rightarrow> ''cancelled'')"

text \<open>\<open>PlanStatus(str(value))\<close>.\<close>

definition coerce_plan_status :: "pyval \<Rightarrow> plan_status result" where
  "coerce_plan_status v =
     (case find (\<lambda>s. plan_status_value s = py_str v)
         [PlanActive, PlanAwaitingQuestion, PlanAwaitingApproval, PlanApproved, PlanRejected, PlanCancelled] of
        Some s \<Rightarrow> Inr s
      | None \<Rightarrow> Inl (ValueError (repr_str (py_str v) @ '' is not a valid PlanStatus'')))"

text \<open>The data class does not check the values of its fields.\<close>

record plan_session =
  ps_plan_id :: pyval
  ps_conversation_id :: pyval
  ps_status :: plan_status
  ps_previous_permission_mode :: pyval
  ps_entered_node_id :: pyval
  ps_entered_run_id :: pyval
  ps_approved_run_id :: pyval
  ps_question_tool_call_id :: pyval
  ps_exit_tool_call_id :: pyval
  ps_blocking_node_id :: pyval
  ps_blocking_run_id :: pyval
  ps_approved_at :: pyval
  ps_rejected_at :: pyval
  ps_created_at :: pyval
  ps_updated_at :: pyval

definition plan_to_dict :: "plan_session \<Rightarrow> (string \<times> pyval) list" where
  "plan_to_dict s =
     [(''plan_id'', ps_plan_id s), (''conversation_id'', ps_conversation_id s),
      (''status'', PStr (plan_status_value (ps_status s))),
      (''previous_permission_mode'', ps_previous_permission_mode s),
      (''entered_node_id'', ps_entered_node_id s), (''entered_run_id'', ps_entered_run_id s),
      (''approved_run_id'', ps_approved_run_id s),
      (''question_tool_call_id'', ps_question_tool_call_id s),
      (''exit_tool_call_id'', ps_exit_tool_call_id s),
      (''blocking_node_id'', ps_blocking_node_id s), (''blocking_run_id'', ps_blocking_run_id s),
      (''approved_at'', ps_approved_at s), (''rejected_at'', ps_rejected_at s),
      (''created_at'', ps_created_at s), (''updated_at'', ps_updated_at s)]"

definition plan_fields :: "string list" where
  "plan_fields =
     [''plan_id'', ''conversation_id'', ''status'', ''previous_permission_mode'', ''entered_node_id'',
      ''entered_run_id'', ''approved_run_id'', ''question_tool_call_id'', ''exit_tool_call_id'',
      ''blocking_node_id'', ''blocking_run_id'', ''approved_at'', ''rejected_at'', ''created_at'', ''updated_at'']"

text \<open>\<open>cls(**payload)\<close> raises for an unknown and for a missing argument.\<close>

definition plan_from_dict :: "int \<Rightarrow> (string \<times> pyval) list \<Rightarrow> plan_session result" where
  "plan_from_dict now d =
     bind_result (coerce_plan_status (dget_or d ''status'' (PStr ''active''))) (\<lambda>st.
       if \<not> fst ` set d \<subseteq> set plan_fields \<or> map_of d ''plan_id'' = None \<or> map_of d ''conversation_id'' = None
       then Inl TypeError
       else Inr \<lparr>ps_plan_id = dget d ''plan_id'', ps_conversation_id = dget d ''conversation_id'',
          ps_status = st,
          ps_previous_permission_mode = dget_or d ''previous_permission_mode'' (PStr ''modify_only''),
          ps_entered_node_id = dget d ''entered_node_id'', ps_entered_run_id = dget d ''entered_run_id'',
          ps_approved_run_id = dget d ''approved_run_id'',
          ps_question_tool_call_id = dget d ''question_tool_call_id'',
          ps_exit_tool_call_id = dget d ''exit_tool_call_id'',
          ps_blocking_node_id = dget d ''blocking_node_id'', ps_blocking_run_id = dget d ''blocking_run_id'',
          ps_approved_at = dget d ''approved_at'', ps_rejected_at = dget d ''rejected_at'',
          ps_created_at = dget_or d ''created_at'' (PInt now), ps_updated_at = dget_or d ''updated_at'' (PInt now)\<rparr>)"

section \<open>The repository\<close>

definition ACTIVE_PLAN_STATUS_VALUES :: "string list" where
  "ACTIVE_PLAN_STATUS_VALUES = [''active'', ''awaiting_question'', ''awaiting_approval'']"

definition plan_from_row :: "plan_row \<Rightarrow> (string \<times> pyval) list" where
  "plan_from_row r =
     [(''id'', PStr (p_id r)), (''conversation_id'', PStr (p_conversation_id r)),
      (''status'', PStr (p_status r)), (''entered_node_id'', of_opt (p_entered_node_id r)),
      (''entered_run_id'', of_opt (p_entered_run_id r)), (''approved_run_id'', of_opt (p_approved_run_id r)),
      (''question_tool_call_id'', of_opt (p_question_tool_call_id r)),
      (''exit_tool_call_id'', of_opt (p_exit_tool_call_id r)),
      (''blocking_node_id'', of_opt (p_blocking_node_id r)),
      (''blocking_run_id'', of_opt (p_blocking_run_id r)),
      (''previous_permission_mode'', PStr (p_previous_permission_mode r)),
      (''created_at'', PInt (p_created_at r)), (''updated_at'', PInt (p_updated_at r)),
      (''approved_at'', of_opt_int (p_approved_at r)), (''rejected_at'', of_opt_int (p_rejected_at r)),
      (''plan_id'', PStr (p_id r))]"

definition is_plan :: "string \<Rightarrow> string \<Rightarrow> plan_row \<Rightarrow> bool" where
  "is_plan c i r = (p_conversation_id r = c \<and> p_id r = i)"

definition is_open :: "plan_row \<Rightarrow> bool" where
  "is_open r = (p_status r \<in> set ACTIVE_PLAN_STATUS_VALUES)"

definition insert_plan :: "plan_row \<Rightarrow> db \<Rightarrow> db result" where
  "insert_plan r d =
     (if p_conversation_id r \<notin> set (conversations d)
         \<or> \<not> opt_ok (has_node d (p_conversation_id r)) (p_entered_node_id r)
         \<or> \<not> opt_ok (has_run d (p_conversation_id r)) (p_entered_run_id r)
      then Inl (IntegrityError ''FOREIGN KEY constraint failed'')
      else if p_id r \<in> p_id ` set (plans d)
      then Inl (IntegrityError ''UNIQUE constraint failed'')
      else Inr (d\<lparr>plans := plans d @ [r]\<rparr>))"

text \<open>
  The updates of the repository: the row of the conversation and id that satisfies \<open>P\<close>, with
  the references to a node and a run that the statement sets, which the schema checks.
\<close>

definition update_plan ::
  "string \<Rightarrow> string \<Rightarrow> (plan_row \<Rightarrow> bool) \<Rightarrow> string option \<Rightarrow> string option \<Rightarrow> (plan_row \<Rightarrow> plan_row) \<Rightarrow>
   db \<Rightarrow> db result" where
  "update_plan c i P nd rn f d =
     (let hit = (\<lambda>r. is_plan c i r \<and> P r) in
      if rowcount hit (plans d) = 0 then Inl (KeyError i)
      else if \<not> opt_ok (has_node d c) nd \<or> \<not> opt_ok (has_run d c) rn
      then Inl (IntegrityError ''FOREIGN KEY constraint failed'')
      else Inr (d\<lparr>plans := update_rows hit f (plans d)\<rparr>))"

definition repo_get_plan :: "db \<Rightarrow> string \<Rightarrow> string \<Rightarrow> plan_row option" where
  "repo_get_plan d c i = fetchone (select (is_plan c i) (plans d))"

definition require_plan :: "db \<Rightarrow> string \<Rightarrow> string \<Rightarrow> plan_row result" where
  "require_plan d c i = (case repo_get_plan d c i of None \<Rightarrow> Inl (KeyError i) | Some r \<Rightarrow> Inr r)"

text \<open>The newest row by update time, creation time and id.\<close>

definition newest :: "plan_row list \<Rightarrow> plan_row option" where
  "newest rows = fetchone (rev (sort_key (\<lambda>r. (p_updated_at r, p_created_at r, p_id r)) rows))"

definition repo_get_active_or_awaiting :: "db \<Rightarrow> string \<Rightarrow> plan_row option" where
  "repo_get_active_or_awaiting d c =
     newest (select (\<lambda>r. p_conversation_id r = c \<and> is_open r) (plans d))"

definition repo_get_latest :: "db \<Rightarrow> string \<Rightarrow> plan_row option" where
  "repo_get_latest d c = newest (select (\<lambda>r. p_conversation_id r = c) (plans d))"

definition list_plans :: "db \<Rightarrow> string \<Rightarrow> (string \<times> pyval) list list" where
  "list_plans d c = map plan_from_row (sort_key p_created_at (select (\<lambda>r. p_conversation_id r = c) (plans d)))"

text \<open>An update in a transaction of its own, and the row read back afterwards.\<close>

definition update_and_read ::
  "string \<Rightarrow> string \<Rightarrow> (db \<Rightarrow> db result) \<Rightarrow> db \<Rightarrow> plan_row result \<times> db" where
  "update_and_read c i body d =
     (case transaction (\<lambda>d. map_result (Pair ()) (body d)) d of
        (Inl e, d') \<Rightarrow> (Inl e, d')
      | (Inr _, d') \<Rightarrow> (require_plan d' c i, d'))"

definition repo_create_plan ::
  "string \<Rightarrow> int \<Rightarrow> string \<Rightarrow> string option \<Rightarrow> string \<Rightarrow> string option \<Rightarrow> db \<Rightarrow> string result \<times> db" where
  "repo_create_plan uuid now c entered_node previous_mode entered_run d =
     (let i = ''plan_'' @ uuid in
      transaction (\<lambda>d. map_result (Pair i) (insert_plan
        \<lparr>p_id = i, p_conversation_id = c, p_status = ''active'', p_entered_node_id = entered_node,
         p_entered_run_id = entered_run, p_approved_run_id = None, p_question_tool_call_id = None,
         p_exit_tool_call_id = None, p_blocking_node_id = None, p_blocking_run_id = None,
         p_previous_permission_mode = previous_mode, p_created_at = now, p_updated_at = now,
         p_approved_at = None, p_rejected_at = None\<rparr> d)) d)"

definition repo_ask_question ::
  "int \<Rightarrow> string \<Rightarrow> string \<Rightarrow> string option \<Rightarrow> string option \<Rightarrow> string option \<Rightarrow> db \<Rightarrow> plan_row result \<times> db" where
  "repo_ask_question now c i asked_node tool_call run d =
     update_and_read c i (update_plan c i (\<lambda>_. True) asked_node run
       (\<lambda>r. r\<lparr>p_status := ''awaiting_question'', p_question_tool_call_id := tool_call,
              p_blocking_node_id := asked_node, p_blocking_run_id := run, p_updated_at := now\<rparr>)) d"

definition repo_await_approval ::
  "int \<Rightarrow> string \<Rightarrow> string \<Rightarrow> string \<Rightarrow> string option \<Rightarrow> string option \<Rightarrow> db \<Rightarrow> plan_row result \<times> db" where
  "repo_await_approval now c i tool_call nd run d =
     update_and_read c i (update_plan c i (\<lambda>_. True) nd run
       (\<lambda>r. r\<lparr>p_status := ''awaiting_approval'', p_exit_tool_call_id := Some tool_call,
              p_blocking_node_id := nd, p_blocking_run_id := run, p_updated_at := now\<rparr>)) d"

definition repo_answer_question :: "int \<Rightarrow> string \<Rightarrow> string \<Rightarrow> db \<Rightarrow> plan_row result \<times> db" where
  "repo_answer_question now c i d =
     (case require_plan d c i of
        Inl e \<Rightarrow> (Inl e, d)
      | Inr _ \<Rightarrow> update_and_read c i (update_plan c i (\<lambda>_. True) None None
          (\<lambda>r. r\<lparr>p_status := ''active'', p_question_tool_call_id := None, p_updated_at := now\<rparr>)) d)"

definition repo_approve_plan ::
  "int \<Rightarrow> string \<Rightarrow> string \<Rightarrow> string option \<Rightarrow> db \<Rightarrow> plan_row result \<times> db" where
  "repo_approve_plan now c i run d =
     update_and_read c i (update_plan c i (\<lambda>_. True) None run
       (\<lambda>r. r\<lparr>p_status := ''approved'', p_approved_run_id := run, p_approved_at := Some now,
              p_updated_at := now\<rparr>)) d"

definition repo_update_approved_run_id ::
  "int \<Rightarrow> string \<Rightarrow> string \<Rightarrow> string option \<Rightarrow> db \<Rightarrow> plan_row result \<times> db" where
  "repo_update_approved_run_id now c i run d =
     update_and_read c i (update_plan c i (\<lambda>r. p_status r = ''approved'') None run
       (\<lambda>r. r\<lparr>p_approved_run_id := run, p_updated_at := now\<rparr>)) d"

definition repo_reject_plan :: "int \<Rightarrow> string \<Rightarrow> string \<Rightarrow> db \<Rightarrow> plan_row result \<times> db" where
  "repo_reject_plan now c i d =
     update_and_read c i (update_plan c i (\<lambda>_. True) None None
       (\<lambda>r. r\<lparr>p_status := ''active'', p_exit_tool_call_id := None, p_rejected_at := Some now,
              p_updated_at := now\<rparr>)) d"

section \<open>The ledger\<close>

definition session_from_record :: "int \<Rightarrow> (string \<times> pyval) list \<Rightarrow> plan_session result" where
  "session_from_record now d =
     plan_from_dict now
       [(''plan_id'', if py_true (dget d ''plan_id'') then dget d ''plan_id'' else dget d ''id''),
        (''conversation_id'', dget d ''conversation_id''),
        (''status'', dget_or d ''status'' (PStr ''active'')),
        (''previous_permission_mode'', dget_or d ''previous_permission_mode'' (PStr ''modify_only'')),
        (''entered_node_id'', dget d ''entered_node_id''),
        (''entered_run_id'', dget d ''entered_run_id''),
        (''approved_run_id'', dget d ''approved_run_id''),
        (''question_tool_call_id'', dget d ''question_tool_call_id''),
        (''exit_tool_call_id'', dget d ''exit_tool_call_id''),
        (''blocking_node_id'', dget d ''blocking_node_id''),
        (''blocking_run_id'', dget d ''blocking_run_id''),
        (''approved_at'', dget d ''approved_at''),
        (''rejected_at'', dget d ''rejected_at''),
        (''created_at'', dget_or d ''created_at'' (PInt now)),
        (''updated_at'', dget_or d ''updated_at'' (PInt now))]"

definition session_of :: "int \<Rightarrow> plan_row \<Rightarrow> plan_session result" where
  "session_of now r = session_from_record now (plan_from_row r)"

definition with_session :: "int \<Rightarrow> plan_row result \<times> db \<Rightarrow> plan_session result \<times> db" where
  "with_session now p = (bind_result (fst p) (session_of now), snd p)"

definition permission_mode_value :: "permission_mode \<Rightarrow> string" where
  "permission_mode_value m =
     (case m of
        AutoApprove \<Rightarrow> ''auto_approve''
      | ModifyOnly \<Rightarrow> ''modify_only''
      | DefaultMode \<Rightarrow> ''default''
      | AskAlways \<Rightarrow> ''ask_always''
      | PlanMode \<Rightarrow> ''plan''
      | DontAsk \<Rightarrow> ''dont_ask''
      | BypassPermissions \<Rightarrow> ''bypass_permissions'')"

definition enter_plan_mode ::
  "string \<Rightarrow> int \<Rightarrow> string \<Rightarrow> string option \<Rightarrow> pyval \<Rightarrow> string option \<Rightarrow> db \<Rightarrow> plan_session result \<times> db" where
  "enter_plan_mode uuid now c nd previous run d =
     (if c = [] then (Inl (ValueError ''conversation_id is required''), d)
      else
        let mode = normalize_permission_mode previous;
            previous_mode = (if mode = PlanMode then ModifyOnly else mode) in
        case repo_get_active_or_awaiting d c of
          Some r \<Rightarrow> (session_of now r, d)
        | None \<Rightarrow>
            (case repo_create_plan uuid now c nd (permission_mode_value previous_mode) run d of
               (Inl e, d') \<Rightarrow> (Inl e, d')
             | (Inr i, d') \<Rightarrow>
                 (case repo_get_plan d' c i of
                    None \<Rightarrow> (Inl (PlanNotFoundError i), d')
                  | Some r \<Rightarrow> (session_of now r, d'))))"

definition ask_user_question ::
  "int \<Rightarrow> string \<Rightarrow> pyval list \<Rightarrow> string option \<Rightarrow> string option \<Rightarrow> string option \<Rightarrow> db \<Rightarrow>
   plan_session result \<times> db" where
  "ask_user_question now c questions nd run tool_call d =
     (if c = [] then (Inl (ValueError ''conversation_id is required''), d)
      else if questions = [] then (Inl (ValueError ''questions is required''), d)
      else
        case repo_get_active_or_awaiting d c of
          None \<Rightarrow> (Inl (ValueError ''active plan session is required''), d)
        | Some r \<Rightarrow>
            if p_status r \<notin> {''active'', ''awaiting_question''}
            then (Inl (ValueError ''active plan session is required''), d)
            else with_session now (repo_ask_question now c (p_id r) nd tool_call run d))"

definition exit_plan_mode ::
  "int \<Rightarrow> string \<Rightarrow> string option \<Rightarrow> string option \<Rightarrow> string option \<Rightarrow> db \<Rightarrow> plan_session result \<times> db" where
  "exit_plan_mode now c nd run tool_call d =
     (if c = [] then (Inl (ValueError ''conversation_id is required''), d)
      else if \<not> truthy_opt tool_call then (Inl (ValueError ''tool_call_id is required''), d)
      else
        case repo_get_active_or_awaiting d c of
          None \<Rightarrow> (Inl (ValueError ''active plan session is required''), d)
        | Some r \<Rightarrow>
            if p_status r \<notin> {''active'', ''awaiting_approval''}
            then (Inl (ValueError ''active plan session is required''), d)
            else with_session now (repo_await_approval now c (p_id r) (or_empty tool_call) nd run d))"

text \<open>Answers, approvals and rejections name the plan and need it in the status they answer.\<close>

definition require_status ::
  "string \<Rightarrow> string \<Rightarrow> string \<Rightarrow> string \<Rightarrow> (db \<Rightarrow> plan_session result \<times> db) \<Rightarrow> db \<Rightarrow> plan_session result \<times> db" where
  "require_status c i st message body d =
     (case repo_get_plan d c i of
        None \<Rightarrow> (Inl (PlanNotFoundError i), d)
      | Some r \<Rightarrow> if p_status r \<noteq> st then (Inl (ValueError message), d) else body d)"

definition answer_question :: "int \<Rightarrow> string \<Rightarrow> string \<Rightarrow> string list \<Rightarrow> db \<Rightarrow> plan_session result \<times> db" where
  "answer_question now c i answers d =
     (if answers = [] then (Inl (ValueError ''answers is required''), d)
      else require_status c i ''awaiting_question'' ''plan must be awaiting question''
        (\<lambda>d. with_session now (repo_answer_question now c i d)) d)"

definition approve_plan :: "int \<Rightarrow> string \<Rightarrow> string \<Rightarrow> string option \<Rightarrow> db \<Rightarrow> plan_session result \<times> db" where
  "approve_plan now c i run d =
     require_status c i ''awaiting_approval'' ''plan must be awaiting approval''
       (\<lambda>d. with_session now (repo_approve_plan now c i run d)) d"

definition update_approved_run_id ::
  "int \<Rightarrow> string \<Rightarrow> string \<Rightarrow> string option \<Rightarrow> db \<Rightarrow> plan_session result \<times> db" where
  "update_approved_run_id now c i run d = with_session now (repo_update_approved_run_id now c i run d)"

definition reject_plan :: "int \<Rightarrow> string \<Rightarrow> string \<Rightarrow> db \<Rightarrow> plan_session result \<times> db" where
  "reject_plan now c i d =
     require_status c i ''awaiting_approval'' ''plan must be awaiting approval''
       (\<lambda>d. with_session now (repo_reject_plan now c i d)) d"

definition opt_session :: "int \<Rightarrow> plan_row option \<Rightarrow> plan_session option result" where
  "opt_session now r =
     (case r of None \<Rightarrow> Inr None | Some r \<Rightarrow> map_result Some (session_of now r))"

definition get_plan :: "int \<Rightarrow> db \<Rightarrow> string \<Rightarrow> string \<Rightarrow> plan_session option result" where
  "get_plan now d c i = opt_session now (repo_get_plan d c i)"

definition get_active_or_awaiting :: "int \<Rightarrow> db \<Rightarrow> string \<Rightarrow> plan_session option result" where
  "get_active_or_awaiting now d c = opt_session now (repo_get_active_or_awaiting d c)"

definition get_latest :: "int \<Rightarrow> db \<Rightarrow> string \<Rightarrow> plan_session option result" where
  "get_latest now d c = opt_session now (repo_get_latest d c)"

end
