(* ===== verification/PlanProps.thy ===== *)
theory PlanProps
  imports Plans
begin

text \<open>
  What the plan ledger promises: per conversation a plan is absent, active, waiting for an
  answer or waiting for approval, and the approved plans keep the run that carries them out.
  The theory gives that machine, the abstraction from the table, and shows that every ledger
  operation succeeds exactly where the machine allows it and then does the machine's step, in
  all reachable states.
\<close>

section \<open>The specification\<close>

text \<open>
  The open plan of a conversation with its status, \<open>None\<close> where there is none; and the approved
  plans of the conversation with the run each is carried out by, if that is known.
\<close>

type_synonym open_plan = "(string \<times> plan_status) option"

type_synonym plan_state = "open_plan \<times> (string \<Rightarrow> string option option)"

datatype plan_command =
    EnterPlan string
  | AskQuestion
  | ExitPlan
  | AnswerQuestion string
  | ApprovePlan string "string option"
  | SetPlanRun string "string option"
  | RejectPlan string

text \<open>The plan and status a step answers with, and the next state; \<open>None\<close> for a step that is not
  allowed.\<close>

definition spec_step :: "plan_command \<Rightarrow> plan_state \<Rightarrow> ((string \<times> plan_status) \<times> plan_state) option" where
  "spec_step cmd s =
     (let moves = (\<lambda>i from to. if fst s \<in> (\<lambda>st. Some (i, st)) ` from then Some ((i, to), Some (i, to), snd s) else None) in
      case cmd of
        EnterPlan i \<Rightarrow> (let p = (case fst s of None \<Rightarrow> (i, PlanActive) | Some p \<Rightarrow> p) in Some (p, Some p, snd s))
      | AskQuestion \<Rightarrow>
          (case fst s of
             Some (i, _) \<Rightarrow> moves i {PlanActive, PlanAwaitingQuestion} PlanAwaitingQuestion
           | None \<Rightarrow> None)
      | ExitPlan \<Rightarrow>
          (case fst s of
             Some (i, _) \<Rightarrow> moves i {PlanActive, PlanAwaitingApproval} PlanAwaitingApproval
           | None \<Rightarrow> None)
      | AnswerQuestion i \<Rightarrow> moves i {PlanAwaitingQuestion} PlanActive
      | ApprovePlan i run \<Rightarrow>
          (if fst s = Some (i, PlanAwaitingApproval)
           then Some ((i, PlanApproved), None, (snd s)(i \<mapsto> run)) else None)
      | SetPlanRun i run \<Rightarrow>
          (if snd s i \<noteq> None then Some ((i, PlanApproved), fst s, (snd s)(i \<mapsto> run)) else None)
      | RejectPlan i \<Rightarrow> moves i {PlanAwaitingApproval} PlanActive)"

section \<open>Runs of the ledger\<close>

text \<open>The operations with their arguments; every event carries the time at which it happens.\<close>

datatype plan_event =
    Enter string string "string option" pyval "string option"
  | Ask string "pyval list" "string option" "string option" "string option"
  | Exit string "string option" "string option" "string option"
  | Answer string string "string list"
  | Approve string string "string option"
  | SetApprovedRun string string "string option"
  | Reject string string

fun plan_step :: "int \<times> plan_event \<Rightarrow> db \<Rightarrow> plan_session result \<times> db" where
  "plan_step (now, Enter uuid c nd previous run) d = enter_plan_mode uuid now c nd previous run d"
| "plan_step (now, Ask c questions nd run tool_call) d = ask_user_question now c questions nd run tool_call d"
| "plan_step (now, Exit c nd run tool_call) d = exit_plan_mode now c nd run tool_call d"
| "plan_step (now, Answer c i answers) d = answer_question now c i answers d"
| "plan_step (now, Approve c i run) d = approve_plan now c i run d"
| "plan_step (now, SetApprovedRun c i run) d = update_approved_run_id now c i run d"
| "plan_step (now, Reject c i) d = reject_plan now c i d"

fun plan_run :: "(int \<times> plan_event) list \<Rightarrow> db \<Rightarrow> db" where
  "plan_run [] d = d"
| "plan_run (e # es) d = plan_run es (snd (plan_step e d))"

text \<open>The conversation of an event, the command of the specification it stands for, and the
  checks of its arguments that do not depend on the plan.\<close>

fun event_conversation :: "plan_event \<Rightarrow> string" where
  "event_conversation (Enter uuid c nd previous run) = c"
| "event_conversation (Ask c questions nd run tool_call) = c"
| "event_conversation (Exit c nd run tool_call) = c"
| "event_conversation (Answer c i answers) = c"
| "event_conversation (Approve c i run) = c"
| "event_conversation (SetApprovedRun c i run) = c"
| "event_conversation (Reject c i) = c"

fun command_of :: "plan_event \<Rightarrow> plan_command" where
  "command_of (Enter uuid c nd previous run) = EnterPlan (''plan_'' @ uuid)"
| "command_of (Ask c questions nd run tool_call) = AskQuestion"
| "command_of (Exit c nd run tool_call) = ExitPlan"
| "command_of (Answer c i answers) = AnswerQuestion i"
| "command_of (Approve c i run) = ApprovePlan i run"
| "command_of (SetApprovedRun c i run) = SetPlanRun i run"
| "command_of (Reject c i) = RejectPlan i"

fun event_ok :: "db \<Rightarrow> plan_event \<Rightarrow> bool" where
  "event_ok d (Enter uuid c nd previous run) =
     (c \<noteq> [] \<and> c \<in> set (conversations d) \<and> opt_ok (has_node d c) nd \<and> opt_ok (has_run d c) run \<and>
      ''plan_'' @ uuid \<notin> p_id ` set (plans d))"
| "event_ok d (Ask c questions nd run tool_call) =
     (c \<noteq> [] \<and> questions \<noteq> [] \<and> opt_ok (has_node d c) nd \<and> opt_ok (has_run d c) run)"
| "event_ok d (Exit c nd run tool_call) =
     (c \<noteq> [] \<and> truthy_opt tool_call \<and> opt_ok (has_node d c) nd \<and> opt_ok (has_run d c) run)"
| "event_ok d (Answer c i answers) = (answers \<noteq> [])"
| "event_ok d (Approve c i run) = opt_ok (has_run d c) run"
| "event_ok d (SetApprovedRun c i run) = opt_ok (has_run d c) run"
| "event_ok d (Reject c i) = True"

section \<open>Abstraction and invariant\<close>

definition status_of_row :: "plan_row \<Rightarrow> plan_status option" where
  "status_of_row r =
     find (\<lambda>s. plan_status_value s = p_status r) [PlanActive, PlanAwaitingQuestion, PlanAwaitingApproval, PlanApproved]"

definition opens :: "db \<Rightarrow> string \<Rightarrow> plan_row list" where
  "opens d c = select (\<lambda>r. p_conversation_id r = c \<and> is_open r) (plans d)"

definition abs_plan :: "db \<Rightarrow> string \<Rightarrow> open_plan" where
  "abs_plan d c =
     (case opens d c of
        [] \<Rightarrow> None
      | r # _ \<Rightarrow> map_option (Pair (p_id r)) (status_of_row r))"

definition approved_runs :: "db \<Rightarrow> string \<Rightarrow> string \<Rightarrow> string option option" where
  "approved_runs d c i =
     (case repo_get_plan d c i of
        None \<Rightarrow> None
      | Some r \<Rightarrow> if p_status r = ''approved'' then Some (p_approved_run_id r) else None)"

definition abs_state :: "db \<Rightarrow> string \<Rightarrow> plan_state" where
  "abs_state d c = (abs_plan d c, approved_runs d c)"

definition plan_row_ok :: "plan_row \<Rightarrow> bool" where
  "plan_row_ok r =
     (status_of_row r \<noteq> None \<and> p_id r \<noteq> [] \<and>
      (p_status r = ''awaiting_approval'' \<longrightarrow> p_exit_tool_call_id r \<noteq> None) \<and>
      (p_status r = ''approved'' \<longleftrightarrow> p_approved_at r \<noteq> None))"

definition plan_inv :: "db \<Rightarrow> bool" where
  "plan_inv d =
     (distinct (map p_id (plans d)) \<and> (\<forall>r \<in> set (plans d). plan_row_ok r) \<and>
      (\<forall>c. length (opens d c) \<le> 1))"

section \<open>Rows and sessions\<close>

lemma status_of_row_iff:
  "status_of_row r = Some st \<longleftrightarrow>
     p_status r = plan_status_value st \<and> st \<in> {PlanActive, PlanAwaitingQuestion, PlanAwaitingApproval, PlanApproved}"
  by (cases st) (auto simp: status_of_row_def plan_status_value_def eq_commute [of _ "p_status r"])

lemma is_open_iff: "status_of_row r = Some st \<Longrightarrow> is_open r \<longleftrightarrow> st \<noteq> PlanApproved"
  by (cases st) (simp_all add: status_of_row_iff is_open_def ACTIVE_PLAN_STATUS_VALUES_def plan_status_value_def)

lemma py_true_simp [simp]: "py_true (PStr s) = (s \<noteq> [])" by simp

lemma coerce_value: "coerce_plan_status (PStr (plan_status_value st)) = Inr st"
  by (cases st) (simp_all add: coerce_plan_status_def plan_status_value_def)

lemma session_of_row:
  assumes "status_of_row r = Some st" and "p_id r \<noteq> []"
  obtains s where "session_of now r = Inr s" and "ps_status s = st" and "ps_plan_id s = PStr (p_id r)"
    and "ps_conversation_id s = PStr (p_conversation_id r)"
proof -
  have "p_status r = plan_status_value st" using assms(1) by (simp add: status_of_row_iff)
  then show thesis
    using that assms(2)
    by (simp add: session_of_def session_from_record_def plan_from_dict_def plan_from_row_def coerce_value
        plan_fields_def dget_or_def)
qed

section \<open>Updates\<close>

lemma plan_invD:
  assumes "plan_inv d"
  shows "distinct (map p_id (plans d))" and "r \<in> set (plans d) \<Longrightarrow> plan_row_ok r"
    and "length (opens d c) \<le> 1"
  using assms by (simp_all add: plan_inv_def)

lemma set_opens: "set (opens d c) = {r \<in> set (plans d). p_conversation_id r = c \<and> is_open r}"
  by (simp add: opens_def)

lemma opens_single:
  assumes "plan_inv d" and "r \<in> set (plans d)" and "is_open r"
  shows "opens d (p_conversation_id r) = [r]"
proof -
  have "r \<in> set (opens d (p_conversation_id r))" using assms(2,3) by (simp add: set_opens)
  moreover have "length (opens d (p_conversation_id r)) \<le> 1" by (rule plan_invD [OF assms(1)])
  ultimately show ?thesis by (cases "opens d (p_conversation_id r)") auto
qed

lemma active_is_open:
  "plan_inv d \<Longrightarrow> repo_get_active_or_awaiting d c = (case opens d c of [] \<Rightarrow> None | r # _ \<Rightarrow> Some r)"
  using plan_invD(3) [of d c]
  by (cases "opens d c") (simp_all add: repo_get_active_or_awaiting_def newest_def opens_def)

lemma get_plan_iff:
  assumes "plan_inv d"
  shows "repo_get_plan d c i = Some r \<longleftrightarrow> r \<in> set (plans d) \<and> is_plan c i r"
proof
  assume "repo_get_plan d c i = Some r"
  then show "r \<in> set (plans d) \<and> is_plan c i r"
    unfolding repo_get_plan_def by (rule fetchone_select_SomeD)
next
  assume r: "r \<in> set (plans d) \<and> is_plan c i r"
  have "select (is_plan c i) (plans d) = select (\<lambda>x. p_id x = p_id r) (plans d)"
    unfolding select_def
  proof (rule filter_cong [OF refl])
    fix x assume "x \<in> set (plans d)"
    then show "is_plan c i x \<longleftrightarrow> p_id x = p_id r"
      using r plan_invD(1) [OF assms] by (auto simp: is_plan_def distinct_map dest: inj_onD)
  qed
  then show "repo_get_plan d c i = Some r"
    using select_unique_key [OF plan_invD(1) [OF assms]] r by (simp add: repo_get_plan_def)
qed

text \<open>Replacing a row.\<close>

definition keeps_key :: "(plan_row \<Rightarrow> plan_row) \<Rightarrow> bool" where
  "keeps_key f = (\<forall>r. p_id (f r) = p_id r \<and> p_conversation_id (f r) = p_conversation_id r)"

lemma update_is_replace:
  assumes "plan_inv d" and "r \<in> set (plans d)" and "is_plan c i r" and "P r"
  shows "update_rows (\<lambda>x. is_plan c i x \<and> P x) f (plans d) = map (\<lambda>x. if x = r then f r else x) (plans d)"
  unfolding update_rows_def
proof (rule map_cong [OF refl])
  fix x assume "x \<in> set (plans d)"
  then have "is_plan c i x \<longleftrightarrow> x = r"
    using assms plan_invD(1) [OF assms(1)] by (auto simp: is_plan_def distinct_map dest: inj_onD)
  then show "(if is_plan c i x \<and> P x then f x else x) = (if x = r then f r else x)"
    using assms(4) by auto
qed

definition replace_plan :: "plan_row \<Rightarrow> plan_row \<Rightarrow> db \<Rightarrow> db" where
  "replace_plan r r' d = d\<lparr>plans := map (\<lambda>x. if x = r then r' else x) (plans d)\<rparr>"

lemma opens_replace:
  assumes "plan_inv d" and "r \<in> set (plans d)" and "p_conversation_id r' = p_conversation_id r"
    and "is_open r' \<longrightarrow> is_open r"
  shows "opens (replace_plan r r' d) c =
    (if c = p_conversation_id r \<and> is_open r then (if is_open r' then [r'] else []) else opens d c)"
proof -
  let ?P = "\<lambda>x. p_conversation_id x = c \<and> is_open x" and ?g = "\<lambda>x. if x = r then r' else x"
  have o: "opens (replace_plan r r' d) c = map ?g (filter (?P \<circ> ?g) (plans d))"
    by (simp add: opens_def replace_plan_def select_def filter_map)
  show ?thesis
  proof (cases "c = p_conversation_id r \<and> is_open r")
    case True
    then have single: "filter ?P (plans d) = [r]"
      using opens_single [OF assms(1,2)] by (simp add: opens_def select_def)
    have only: "?P x \<longleftrightarrow> x = r" if "x \<in> set (plans d)" for x
    proof
      assume "?P x"
      then have "x \<in> set (filter ?P (plans d))" using that by simp
      then show "x = r" by (simp add: single)
    qed (use True in simp)
    have "filter (?P \<circ> ?g) (plans d) = (if is_open r' then filter ?P (plans d) else [])"
    proof (cases "is_open r'")
      case open': True
      have "filter (?P \<circ> ?g) (plans d) = filter ?P (plans d)"
        by (rule filter_cong [OF refl]) (use only True assms(3) open' in auto)
      then show ?thesis using open' by simp
    next
      case False
      have "\<not> (?P \<circ> ?g) x" if "x \<in> set (plans d)" for x
        using only [OF that] False by auto
      then show ?thesis using False by (simp add: filter_empty_conv)
    qed
    then show ?thesis using o True single by simp
  next
    case False
    have "filter (?P \<circ> ?g) (plans d) = filter ?P (plans d)"
      by (rule filter_cong [OF refl]) (use False assms(3,4) in auto)
    moreover have "map ?g (filter ?P (plans d)) = filter ?P (plans d)"
      by (rule map_idI) (use False in auto)
    ultimately have "opens (replace_plan r r' d) c = opens d c" using o by (simp add: opens_def select_def)
    then show ?thesis by (simp only: False if_False)
  qed
qed

lemma replace_inv:
  assumes "plan_inv d" and "r \<in> set (plans d)" and "p_conversation_id r' = p_conversation_id r"
    and "p_id r' = p_id r" and "is_open r' \<longrightarrow> is_open r" and "plan_row_ok r'"
  shows "plan_inv (replace_plan r r' d)"
proof -
  have "map p_id (plans (replace_plan r r' d)) = map p_id (plans d)"
    using assms(4) by (simp add: replace_plan_def)
  moreover have "\<forall>x \<in> set (plans (replace_plan r r' d)). plan_row_ok x"
    using plan_invD(2) [OF assms(1)] assms(6) by (auto simp: replace_plan_def)
  moreover have "length (opens (replace_plan r r' d) c) \<le> 1" for c
    using opens_replace [OF assms(1,2,3,5)] plan_invD(3) [OF assms(1), of c] by simp
  ultimately show ?thesis using plan_invD(1) [OF assms(1)] by (simp add: plan_inv_def)
qed

text \<open>What an update of the repository does to the row it finds.\<close>

lemma update_and_read_found:
  assumes "plan_inv d" and "r \<in> set (plans d)" and "is_plan c i r" and "P r" and "keeps_key f"
    and "is_open (f r) \<longrightarrow> is_open r" and "plan_row_ok (f r)"
  shows "update_and_read c i (update_plan c i P nd rn f) d =
    (if opt_ok (has_node d c) nd \<and> opt_ok (has_run d c) rn then (Inr (f r), replace_plan r (f r) d)
     else (Inl (IntegrityError ''FOREIGN KEY constraint failed''), d))"
proof -
  have some: "rowcount (\<lambda>x. is_plan c i x \<and> P x) (plans d) \<noteq> 0"
    using assms(2-4) by (auto simp: rowcount_0_iff)
  have up: "update_plan c i P nd rn f d =
    (if opt_ok (has_node d c) nd \<and> opt_ok (has_run d c) rn then Inr (replace_plan r (f r) d)
     else Inl (IntegrityError ''FOREIGN KEY constraint failed''))"
    using some update_is_replace [of d r c i P f, OF assms(1-4)]
    by (auto simp: update_plan_def Let_def replace_plan_def)
  have keys: "p_conversation_id (f r) = p_conversation_id r" "p_id (f r) = p_id r"
    using assms(5) by (simp_all add: keeps_key_def)
  have inv: "plan_inv (replace_plan r (f r) d)"
    by (rule replace_inv [OF assms(1,2) keys assms(6,7)])
  have "f r \<in> set (plans (replace_plan r (f r) d))" using assms(2) by (auto simp: replace_plan_def)
  moreover have "is_plan c i (f r)" using assms(3) keys by (simp add: is_plan_def)
  ultimately have "repo_get_plan (replace_plan r (f r) d) c i = Some (f r)"
    using get_plan_iff [OF inv] by blast
  then show ?thesis
    using up by (simp add: update_and_read_def transaction_def require_plan_def)
qed

section \<open>Steps\<close>

text \<open>An operation that fails leaves the database; one that succeeds does a step of the machine
  and answers with the session of its result.\<close>

definition session_shows :: "plan_session \<Rightarrow> string \<times> plan_status \<Rightarrow> bool" where
  "session_shows s p = (ps_plan_id s = PStr (fst p) \<and> ps_status s = snd p)"

definition steps_to ::
  "plan_session result \<times> db \<Rightarrow> db \<Rightarrow> string \<Rightarrow> (string \<times> plan_status) \<times> plan_state \<Rightarrow> bool" where
  "steps_to p d c next =
     (\<exists>s. fst p = Inr s \<and> session_shows s (fst next) \<and> abs_state (snd p) = (abs_state d)(c := snd next))"

definition refused :: "plan_session result \<times> db \<Rightarrow> db \<Rightarrow> bool" where
  "refused p d = (\<exists>x. p = (Inl x, d))"

lemma refused_Inl [simp]: "refused (Inl x, d) d"
  by (simp add: refused_def)

lemma plan_row_status: "plan_row_ok r \<Longrightarrow> \<exists>st. status_of_row r = Some st"
  by (auto simp: plan_row_ok_def)

lemma abs_plan_single:
  "plan_inv d \<Longrightarrow> r \<in> set (plans d) \<Longrightarrow> status_of_row r = Some st \<Longrightarrow> st \<noteq> PlanApproved \<Longrightarrow>
   abs_plan d (p_conversation_id r) = Some (p_id r, st)"
  using opens_single [of d r] is_open_iff [of r st] by (simp add: abs_plan_def)

lemma abs_plan_SomeD:
  assumes "plan_inv d" and "abs_plan d c = Some (i, st)"
  obtains r where "r \<in> set (plans d)" and "is_plan c i r" and "status_of_row r = Some st"
    and "st \<noteq> PlanApproved" and "repo_get_active_or_awaiting d c = Some r"
    and "repo_get_plan d c i = Some r"
proof -
  obtain r rs where o: "opens d c = r # rs" and st: "status_of_row r = Some st" "p_id r = i"
    using assms(2) by (auto simp: abs_plan_def split: list.splits)
  have r: "r \<in> set (plans d)" "p_conversation_id r = c" "is_open r"
    using set_opens [of d c] o by auto
  have "is_plan c i r" using r(2) st(2) by (simp add: is_plan_def)
  moreover have "repo_get_active_or_awaiting d c = Some r" using active_is_open [OF assms(1)] o by simp
  moreover have "repo_get_plan d c i = Some r" using get_plan_iff [OF assms(1)] r(1) calculation(1) by simp
  ultimately show thesis using that r is_open_iff [OF st(1)] st(1) by blast
qed

lemma abs_plan_NoneD:
  assumes "plan_inv d" and "abs_plan d c = None"
  shows "opens d c = []" and "repo_get_active_or_awaiting d c = None"
proof -
  show o: "opens d c = []"
  proof (cases "opens d c")
    case (Cons r rs)
    then have "r \<in> set (plans d)" using set_opens [of d c] by auto
    then obtain st where "status_of_row r = Some st" using plan_invD(2) [OF assms(1)] plan_row_status by blast
    then show ?thesis using assms(2) Cons by (simp add: abs_plan_def)
  qed simp
  show "repo_get_active_or_awaiting d c = None" using active_is_open [OF assms(1)] o by simp
qed

lemma abs_plan_replace:
  assumes "plan_inv d" and "r \<in> set (plans d)" and "is_plan c i r" and "is_open r"
    and "keeps_key f" and "status_of_row (f r) = Some st"
  shows "abs_plan (replace_plan r (f r) d) = (abs_plan d)(c := if st = PlanApproved then None else Some (i, st))"
proof
  fix c'
  have "p_conversation_id (f r) = c" "p_id (f r) = i" "p_conversation_id r = c"
    using assms(3,5) by (simp_all add: is_plan_def keeps_key_def)
  then show "abs_plan (replace_plan r (f r) d) c' =
      ((abs_plan d)(c := if st = PlanApproved then None else Some (i, st))) c'"
    using opens_replace [of d r "f r" c', OF assms(1,2)] assms(4,6) is_open_iff [OF assms(6)]
    by (simp add: abs_plan_def)
qed

lemma get_plan_replace:
  assumes "plan_inv d" and "r \<in> set (plans d)" and "is_plan c i r" and "keeps_key f"
  shows "repo_get_plan (replace_plan r (f r) d) c' i' =
    (if c' = c \<and> i' = i then Some (f r) else repo_get_plan d c' i')"
proof -
  let ?g = "\<lambda>x. if x = r then f r else x"
  have keys: "p_conversation_id (f r) = c" "p_id (f r) = i" "p_conversation_id r = c" "p_id r = i"
    using assms(3,4) by (simp_all add: is_plan_def keeps_key_def)
  have "filter (is_plan c' i') (map ?g (plans d)) = map ?g (filter (is_plan c' i') (plans d))"
    unfolding filter_map by (rule arg_cong [where f = "map ?g"], rule filter_cong [OF refl])
      (use keys in \<open>auto simp: is_plan_def\<close>)
  then have "repo_get_plan (replace_plan r (f r) d) c' i' = map_option ?g (repo_get_plan d c' i')"
    by (simp add: repo_get_plan_def replace_plan_def select_def fetchone_def split: list.split)
  moreover have "repo_get_plan d c i = Some r" using get_plan_iff [OF assms(1)] assms(2,3) by blast
  moreover have "x \<noteq> r" if "repo_get_plan d c' i' = Some x" "\<not> (c' = c \<and> i' = i)" for x
    using that get_plan_iff [OF assms(1), of c' i' x] keys by (auto simp: is_plan_def)
  ultimately show ?thesis by (cases "repo_get_plan d c' i'") auto
qed

lemma open_not_approved: "is_open r \<Longrightarrow> p_status r \<noteq> ''approved''"
  by (auto simp: is_open_def ACTIVE_PLAN_STATUS_VALUES_def)

lemma approved_replace:
  assumes "plan_inv d" and "r \<in> set (plans d)" and "is_plan c i r" and "is_open r" and "keeps_key f"
    and "status_of_row (f r) = Some st"
  shows "approved_runs (replace_plan r (f r) d) =
    (approved_runs d)(c := (if st = PlanApproved then (approved_runs d c)(i \<mapsto> p_approved_run_id (f r))
                            else approved_runs d c))"
proof -
  have "repo_get_plan d c i = Some r" using get_plan_iff [OF assms(1)] assms(2,3) by blast
  then have old: "approved_runs d c i = None" using open_not_approved [OF assms(4)] by (simp add: approved_runs_def)
  have st: "p_status (f r) = ''approved'' \<longleftrightarrow> st = PlanApproved"
    using assms(6) by (cases st) (simp_all add: status_of_row_iff plan_status_value_def)
  show ?thesis
    using old st by (auto simp: fun_eq_iff approved_runs_def get_plan_replace [OF assms(1-3,5)])
qed

lemma update_steps_to:
  assumes "plan_inv d" and "r \<in> set (plans d)" and "is_plan c i r" and "is_open r"
    and "keeps_key f" and "plan_row_ok (f r)" and "status_of_row (f r) = Some st"
    and "opt_ok (has_node d c) nd" and "opt_ok (has_run d c) rn"
  shows "steps_to (with_session now (update_and_read c i (update_plan c i (\<lambda>_. True) nd rn f) d)) d c
    ((i, st), if st = PlanApproved then None else Some (i, st),
     if st = PlanApproved then (approved_runs d c)(i \<mapsto> p_approved_run_id (f r)) else approved_runs d c)"
proof -
  have "update_and_read c i (update_plan c i (\<lambda>_. True) nd rn f) d = (Inr (f r), replace_plan r (f r) d)"
    using update_and_read_found [of d r c i "\<lambda>_. True" f nd rn] assms by simp
  moreover obtain s where "session_of now (f r) = Inr s" "ps_status s = st" "ps_plan_id s = PStr (p_id (f r))"
    using session_of_row [OF assms(7)] assms(6) by (auto simp: plan_row_ok_def)
  moreover have "p_id (f r) = i" using assms(3,5) by (simp add: is_plan_def keeps_key_def)
  ultimately show ?thesis
    using abs_plan_replace [OF assms(1-5,7)] approved_replace [OF assms(1-5,7)]
    by (simp add: steps_to_def with_session_def session_shows_def abs_state_def fun_eq_iff)
qed

lemma update_open_inv:
  assumes "plan_inv d" and "r \<in> set (plans d)" and "is_plan c i r" and "P r" and "keeps_key f"
    and "is_open (f r) \<longrightarrow> is_open r" and "plan_row_ok (f r)"
  shows "plan_inv (snd (update_and_read c i (update_plan c i P nd rn f) d))"
proof -
  have "p_conversation_id (f r) = p_conversation_id r" "p_id (f r) = p_id r"
    using assms(5) by (simp_all add: keeps_key_def)
  then have "plan_inv (replace_plan r (f r) d)" using replace_inv [OF assms(1,2)] assms(6,7) by simp
  then show ?thesis
    using update_and_read_found [of d r c i P f nd rn, OF assms] assms(1) by simp
qed

lemma update_missing:
  "\<not> (\<exists>r \<in> set (plans d). is_plan c i r \<and> P r) \<Longrightarrow>
   update_and_read c i (update_plan c i P nd rn f) d = (Inl (KeyError i), d)"
  by (auto simp: update_and_read_def update_plan_def Let_def transaction_def rowcount_0_iff)

text \<open>The rows the five updates write.\<close>

lemma open_row: "plan_row_ok r \<Longrightarrow> is_open r \<Longrightarrow> p_approved_at r = None \<and> p_id r \<noteq> []"
  by (auto simp: plan_row_ok_def is_open_def ACTIVE_PLAN_STATUS_VALUES_def)

lemma status_of_row_updates [simp]:
  "status_of_row (r\<lparr>p_status := ''active''\<rparr>) = Some PlanActive"
  "status_of_row (r\<lparr>p_status := ''awaiting_question''\<rparr>) = Some PlanAwaitingQuestion"
  "status_of_row (r\<lparr>p_status := ''awaiting_approval''\<rparr>) = Some PlanAwaitingApproval"
  "status_of_row (r\<lparr>p_status := ''approved''\<rparr>) = Some PlanApproved"
  by (simp_all add: status_of_row_iff plan_status_value_def)

lemma status_of_row_cong: "p_status r = p_status r' \<Longrightarrow> status_of_row r = status_of_row r'"
  by (simp add: status_of_row_def)

definition ask_row :: "int \<Rightarrow> string option \<Rightarrow> string option \<Rightarrow> string option \<Rightarrow> plan_row \<Rightarrow> plan_row" where
  "ask_row now nd tc rn r = r\<lparr>p_status := ''awaiting_question'', p_question_tool_call_id := tc,
     p_blocking_node_id := nd, p_blocking_run_id := rn, p_updated_at := now\<rparr>"

definition exit_row :: "int \<Rightarrow> string option \<Rightarrow> string \<Rightarrow> string option \<Rightarrow> plan_row \<Rightarrow> plan_row" where
  "exit_row now nd tc rn r = r\<lparr>p_status := ''awaiting_approval'', p_exit_tool_call_id := Some tc,
     p_blocking_node_id := nd, p_blocking_run_id := rn, p_updated_at := now\<rparr>"

definition answer_row :: "int \<Rightarrow> plan_row \<Rightarrow> plan_row" where
  "answer_row now r = r\<lparr>p_status := ''active'', p_question_tool_call_id := None, p_updated_at := now\<rparr>"

definition approve_row :: "int \<Rightarrow> string option \<Rightarrow> plan_row \<Rightarrow> plan_row" where
  "approve_row now rn r = r\<lparr>p_status := ''approved'', p_approved_run_id := rn, p_approved_at := Some now,
     p_updated_at := now\<rparr>"

definition reject_row :: "int \<Rightarrow> plan_row \<Rightarrow> plan_row" where
  "reject_row now r = r\<lparr>p_status := ''active'', p_exit_tool_call_id := None, p_rejected_at := Some now,
     p_updated_at := now\<rparr>"

lemmas row_defs = ask_row_def exit_row_def answer_row_def approve_row_def reject_row_def

lemma row_status:
  "status_of_row (ask_row now nd tc rn r) = Some PlanAwaitingQuestion"
  "status_of_row (exit_row now nd tc' rn r) = Some PlanAwaitingApproval"
  "status_of_row (answer_row now r) = Some PlanActive"
  "status_of_row (approve_row now rn r) = Some PlanApproved"
  "status_of_row (reject_row now r) = Some PlanActive"
  by (simp_all add: row_defs status_of_row_iff plan_status_value_def)

lemma row_keeps_key:
  "keeps_key (ask_row now nd tc rn)" "keeps_key (exit_row now nd tc' rn)" "keeps_key (answer_row now)"
  "keeps_key (approve_row now rn)" "keeps_key (reject_row now)"
  by (simp_all add: keeps_key_def row_defs)

lemma row_ok:
  assumes "plan_row_ok r" and "is_open r"
  shows "plan_row_ok (ask_row now nd tc rn r)" "plan_row_ok (exit_row now nd tc' rn r)"
    "plan_row_ok (answer_row now r)" "plan_row_ok (approve_row now rn r)" "plan_row_ok (reject_row now r)"
  using open_row [OF assms] row_status
  by (auto simp: plan_row_ok_def) (simp_all add: row_defs)

lemma repo_updates:
  "repo_ask_question now c i nd tc rn = update_and_read c i (update_plan c i (\<lambda>_. True) nd rn (ask_row now nd tc rn))"
  "repo_await_approval now c i tc' nd rn =
     update_and_read c i (update_plan c i (\<lambda>_. True) nd rn (exit_row now nd tc' rn))"
  "repo_approve_plan now c i rn = update_and_read c i (update_plan c i (\<lambda>_. True) None rn (approve_row now rn))"
  "repo_reject_plan now c i = update_and_read c i (update_plan c i (\<lambda>_. True) None None (reject_row now))"
  by (simp_all add: fun_eq_iff repo_ask_question_def repo_await_approval_def repo_approve_plan_def
      repo_reject_plan_def ask_row_def [abs_def] exit_row_def [abs_def] approve_row_def [abs_def]
      reject_row_def [abs_def])

lemma repo_answer:
  "repo_get_plan d c i = Some r \<Longrightarrow>
   repo_answer_question now c i d = update_and_read c i (update_plan c i (\<lambda>_. True) None None (answer_row now)) d"
  by (simp add: repo_answer_question_def require_plan_def answer_row_def [abs_def])

section \<open>The ledger obeys the machine\<close>

definition obeys ::
  "plan_session result \<times> db \<Rightarrow> db \<Rightarrow> string \<Rightarrow> ((string \<times> plan_status) \<times> plan_state) option \<Rightarrow> bool" where
  "obeys p d c next = (case next of None \<Rightarrow> refused p d | Some n \<Rightarrow> steps_to p d c n)"

lemma obeys_simps [simp]:
  "obeys p d c None = refused p d"
  "obeys p d c (Some n) = steps_to p d c n"
  by (simp_all add: obeys_def)

lemma abs_state_simps [simp]:
  "fst (abs_state d c) = abs_plan d c"
  "snd (abs_state d c) = approved_runs d c"
  by (simp_all add: abs_state_def)

text \<open>The row behind an abstract plan, with all that the steps need.\<close>

lemma open_plan_cases [consumes 1, case_names absent present]:
  assumes "plan_inv d"
    and "abs_plan d c = None \<Longrightarrow> repo_get_active_or_awaiting d c = None \<Longrightarrow> thesis"
    and "\<And>r st. abs_plan d c = Some (p_id r, st) \<Longrightarrow> r \<in> set (plans d) \<Longrightarrow> is_plan c (p_id r) r \<Longrightarrow> is_open r \<Longrightarrow>
      plan_row_ok r \<Longrightarrow> p_status r = plan_status_value st \<Longrightarrow> st \<noteq> PlanApproved \<Longrightarrow>
      st \<in> {PlanActive, PlanAwaitingQuestion, PlanAwaitingApproval} \<Longrightarrow>
      status_of_row r = Some st \<Longrightarrow>
      repo_get_active_or_awaiting d c = Some r \<Longrightarrow> repo_get_plan d c (p_id r) = Some r \<Longrightarrow> thesis"
  shows thesis
proof (cases "abs_plan d c")
  case None
  show ?thesis by (rule assms(2) [OF None abs_plan_NoneD(2) [OF assms(1) None]])
next
  case (Some q)
  obtain i st where q: "q = (i, st)" by (cases q)
  obtain r where r: "r \<in> set (plans d)" "is_plan c i r" "status_of_row r = Some st" "st \<noteq> PlanApproved"
      "repo_get_active_or_awaiting d c = Some r" "repo_get_plan d c i = Some r"
    using abs_plan_SomeD [OF assms(1)] Some q by blast
  have i: "i = p_id r" using r(2) by (simp add: is_plan_def)
  have "is_open r" using is_open_iff [OF r(3)] r(4) by simp
  moreover have "plan_row_ok r" using plan_invD(2) [OF assms(1) r(1)] .
  moreover have "p_status r = plan_status_value st"
    "st \<in> {PlanActive, PlanAwaitingQuestion, PlanAwaitingApproval}"
    using r(3,4) by (auto simp: status_of_row_iff)
  moreover have "abs_plan d c = Some (p_id r, st)" "is_plan c (p_id r) r" "repo_get_plan d c (p_id r) = Some r"
    using Some r(2,6) unfolding q i by simp_all
  ultimately show ?thesis by (intro assms(3) [of r st] r(1,3-5))
qed

lemma ask_obeys:
  assumes "plan_inv d" and "event_ok d (Ask c questions nd rn tc)"
  shows "obeys (ask_user_question now c questions nd rn tc d) d c (spec_step AskQuestion (abs_state d c))"
  using assms(1)
proof (cases rule: open_plan_cases [where c = c])
  case absent
  then show ?thesis using assms(2) by (simp add: ask_user_question_def spec_step_def)
next
  case (present r st)
  show ?thesis
  proof (cases "st = PlanAwaitingApproval")
    case True
    then show ?thesis using present assms(2)
      by (simp add: ask_user_question_def spec_step_def plan_status_value_def)
  next
    case False
    then have "ask_user_question now c questions nd rn tc d =
        with_session now (repo_ask_question now c (p_id r) nd tc rn d)"
      using present(6,8,10) assms(2) by (auto simp: ask_user_question_def plan_status_value_def)
    moreover have "steps_to \<dots> d c ((p_id r, PlanAwaitingQuestion), Some (p_id r, PlanAwaitingQuestion), approved_runs d c)"
      using update_steps_to [OF assms(1) present(2-4) row_keeps_key(1) row_ok(1) [OF present(5,4)] row_status(1)]
        assms(2) by (simp add: repo_updates)
    ultimately show ?thesis using present(1,8) False by (auto simp: spec_step_def)
  qed
qed

lemma exit_obeys:
  assumes "plan_inv d" and "event_ok d (Exit c nd rn tc)"
  shows "obeys (exit_plan_mode now c nd rn tc d) d c (spec_step ExitPlan (abs_state d c))"
  using assms(1)
proof (cases rule: open_plan_cases [where c = c])
  case absent
  then show ?thesis using assms(2) by (simp add: exit_plan_mode_def spec_step_def)
next
  case (present r st)
  show ?thesis
  proof (cases "st = PlanAwaitingQuestion")
    case True
    then show ?thesis using present assms(2)
      by (simp add: exit_plan_mode_def spec_step_def plan_status_value_def)
  next
    case False
    then have "exit_plan_mode now c nd rn tc d =
        with_session now (repo_await_approval now c (p_id r) (or_empty tc) nd rn d)"
      using present(6,8,10) assms(2) by (auto simp: exit_plan_mode_def plan_status_value_def)
    moreover have "steps_to \<dots> d c ((p_id r, PlanAwaitingApproval), Some (p_id r, PlanAwaitingApproval), approved_runs d c)"
      using update_steps_to [OF assms(1) present(2-4) row_keeps_key(2) row_ok(2) [OF present(5,4)] row_status(2)]
        assms(2) by (simp add: repo_updates)
    ultimately show ?thesis using present(1,8) False by (auto simp: spec_step_def)
  qed
qed

text \<open>The operations that name a plan and its status.\<close>

lemma named_obeys:
  assumes inv: "plan_inv d" and st: "st \<in> {PlanAwaitingQuestion, PlanAwaitingApproval}"
    and step: "\<And>r. r \<in> set (plans d) \<Longrightarrow> is_plan c i r \<Longrightarrow> is_open r \<Longrightarrow> plan_row_ok r \<Longrightarrow>
      repo_get_plan d c i = Some r \<Longrightarrow> steps_to (body d) d c s'"
  shows "obeys (require_status c i (plan_status_value st) message body d) d c
    (if abs_plan d c = Some (i, st) then Some s' else None)"
proof (cases "repo_get_plan d c i")
  case None
  moreover have "abs_plan d c \<noteq> Some (i, st)"
  proof
    assume "abs_plan d c = Some (i, st)"
    then show False by (rule abs_plan_SomeD [OF inv]) (use None in simp)
  qed
  ultimately show ?thesis by (simp add: require_status_def)
next
  case (Some r)
  then have r: "r \<in> set (plans d)" "is_plan c i r" using get_plan_iff [OF inv] by blast+
  then have ok: "plan_row_ok r" using plan_invD(2) [OF inv] by blast
  then obtain st' where st': "status_of_row r = Some st'" using plan_row_status by blast
  have eq: "p_status r = plan_status_value st \<longleftrightarrow> st' = st"
    using st st' by (cases st'; cases st) (auto simp: status_of_row_iff plan_status_value_def)
  show ?thesis
  proof (cases "st' = st")
    case True
    then have "st' \<noteq> PlanApproved" using st by auto
    then have "is_open r" using is_open_iff [OF st'] by simp
    moreover have "abs_plan d c = Some (i, st)"
      using abs_plan_single [OF inv r(1) st' \<open>st' \<noteq> PlanApproved\<close>] r(2) True by (simp add: is_plan_def)
    ultimately show ?thesis using step r ok Some True eq by (simp add: require_status_def)
  next
    case False
    have "abs_plan d c \<noteq> Some (i, st)"
    proof
      assume "abs_plan d c = Some (i, st)"
      then show False by (rule abs_plan_SomeD [OF inv]) (use Some st' False in simp)
    qed
    then show ?thesis using False eq Some by (simp add: require_status_def)
  qed
qed

lemma answer_obeys:
  assumes "plan_inv d" and "answers \<noteq> []"
  shows "obeys (answer_question now c i answers d) d c (spec_step (AnswerQuestion i) (abs_state d c))"
proof -
  have "steps_to (with_session now (repo_answer_question now c i d)) d c
      ((i, PlanActive), Some (i, PlanActive), approved_runs d c)"
    if r: "r \<in> set (plans d)" "is_plan c i r" "is_open r" "plan_row_ok r" "repo_get_plan d c i = Some r" for r
    using update_steps_to [OF assms(1) r(1-3) row_keeps_key(3) row_ok(3) [OF r(4,3)] row_status(3),
        where nd = None and rn = None]
    by (simp add: repo_answer [OF r(5)])
  then have "obeys (require_status c i (plan_status_value PlanAwaitingQuestion) ''plan must be awaiting question''
      (\<lambda>d. with_session now (repo_answer_question now c i d)) d) d c
    (if abs_plan d c = Some (i, PlanAwaitingQuestion)
     then Some ((i, PlanActive), Some (i, PlanActive), approved_runs d c) else None)"
    by (intro named_obeys [OF assms(1)]) simp_all
  then show ?thesis using assms(2)
    by (simp add: answer_question_def spec_step_def plan_status_value_def cong: if_cong split del: if_split)
qed

lemma approve_row_run [simp]: "p_approved_run_id (approve_row now rn r) = rn"
  by (simp add: approve_row_def)

lemma approve_obeys:
  assumes "plan_inv d" and "opt_ok (has_run d c) rn"
  shows "obeys (approve_plan now c i rn d) d c (spec_step (ApprovePlan i rn) (abs_state d c))"
proof -
  have "steps_to (with_session now (repo_approve_plan now c i rn d)) d c
      ((i, PlanApproved), None, (approved_runs d c)(i \<mapsto> rn))"
    if r: "r \<in> set (plans d)" "is_plan c i r" "is_open r" "plan_row_ok r" "repo_get_plan d c i = Some r" for r
    using update_steps_to [OF assms(1) r(1-3) row_keeps_key(4) row_ok(4) [OF r(4,3)] row_status(4),
        where nd = None and rn = rn] assms(2)
    by (simp add: repo_updates)
  then have "obeys (require_status c i (plan_status_value PlanAwaitingApproval) ''plan must be awaiting approval''
      (\<lambda>d. with_session now (repo_approve_plan now c i rn d)) d) d c
    (if abs_plan d c = Some (i, PlanAwaitingApproval)
     then Some ((i, PlanApproved), None, (approved_runs d c)(i \<mapsto> rn)) else None)"
    by (intro named_obeys [OF assms(1)]) simp_all
  then show ?thesis
    by (simp add: approve_plan_def spec_step_def plan_status_value_def cong: if_cong split del: if_split)
qed

lemma reject_obeys:
  assumes "plan_inv d"
  shows "obeys (reject_plan now c i d) d c (spec_step (RejectPlan i) (abs_state d c))"
proof -
  have "steps_to (with_session now (repo_reject_plan now c i d)) d c
      ((i, PlanActive), Some (i, PlanActive), approved_runs d c)"
    if r: "r \<in> set (plans d)" "is_plan c i r" "is_open r" "plan_row_ok r" "repo_get_plan d c i = Some r" for r
    using update_steps_to [OF assms(1) r(1-3) row_keeps_key(5) row_ok(5) [OF r(4,3)] row_status(5),
        where nd = None and rn = None]
    by (simp add: repo_updates)
  then have "obeys (require_status c i (plan_status_value PlanAwaitingApproval) ''plan must be awaiting approval''
      (\<lambda>d. with_session now (repo_reject_plan now c i d)) d) d c
    (if abs_plan d c = Some (i, PlanAwaitingApproval)
     then Some ((i, PlanActive), Some (i, PlanActive), approved_runs d c) else None)"
    by (intro named_obeys [OF assms(1)]) simp_all
  then show ?thesis
    by (simp add: reject_plan_def spec_step_def plan_status_value_def cong: if_cong split del: if_split)
qed

text \<open>A new plan.\<close>

definition new_plan :: "string \<Rightarrow> int \<Rightarrow> string \<Rightarrow> string option \<Rightarrow> string \<Rightarrow> string option \<Rightarrow> plan_row" where
  "new_plan uuid now c nd mode rn =
     \<lparr>p_id = ''plan_'' @ uuid, p_conversation_id = c, p_status = ''active'', p_entered_node_id = nd,
      p_entered_run_id = rn, p_approved_run_id = None, p_question_tool_call_id = None,
      p_exit_tool_call_id = None, p_blocking_node_id = None, p_blocking_run_id = None,
      p_previous_permission_mode = mode, p_created_at = now, p_updated_at = now,
      p_approved_at = None, p_rejected_at = None\<rparr>"

lemma new_plan_facts:
  "p_id (new_plan uuid now c nd mode rn) = ''plan_'' @ uuid"
  "p_conversation_id (new_plan uuid now c nd mode rn) = c"
  "status_of_row (new_plan uuid now c nd mode rn) = Some PlanActive"
  "is_open (new_plan uuid now c nd mode rn)"
  "plan_row_ok (new_plan uuid now c nd mode rn)"
proof -
  show st: "status_of_row (new_plan uuid now c nd mode rn) = Some PlanActive"
    by (simp add: new_plan_def status_of_row_iff plan_status_value_def)
  show "is_open (new_plan uuid now c nd mode rn)" using is_open_iff [OF st] by simp
  show "plan_row_ok (new_plan uuid now c nd mode rn)" unfolding plan_row_ok_def st by (simp add: new_plan_def)
qed (simp_all add: new_plan_def)

definition add_plan :: "plan_row \<Rightarrow> db \<Rightarrow> db" where
  "add_plan r d = d\<lparr>plans := plans d @ [r]\<rparr>"

lemma opens_add:
  "opens (add_plan r d) c = opens d c @ (if p_conversation_id r = c \<and> is_open r then [r] else [])"
  by (simp add: opens_def add_plan_def)

lemma add_plan_inv:
  assumes "plan_inv d" and "p_id r \<notin> p_id ` set (plans d)" and "plan_row_ok r"
    and "opens d (p_conversation_id r) = []"
  shows "plan_inv (add_plan r d)"
proof -
  have "length (opens (add_plan r d) c) \<le> 1" for c
    using plan_invD(3) [OF assms(1), of c] assms(4) by (auto simp: opens_add)
  moreover have "distinct (map p_id (plans (add_plan r d)))"
    using plan_invD(1) [OF assms(1)] assms(2) by (simp add: add_plan_def)
  moreover have "\<forall>x \<in> set (plans (add_plan r d)). plan_row_ok x"
    using plan_invD(2) [OF assms(1)] assms(3) by (auto simp: add_plan_def)
  ultimately show ?thesis unfolding plan_inv_def by blast
qed

lemma create_plan_cases:
  obtains (failed) x where "repo_create_plan uuid now c nd mode rn d = (Inl x, d)"
      and "\<not> (c \<in> set (conversations d) \<and> opt_ok (has_node d c) nd \<and> opt_ok (has_run d c) rn \<and>
         ''plan_'' @ uuid \<notin> p_id ` set (plans d))"
    | (created) "repo_create_plan uuid now c nd mode rn d =
          (Inr (''plan_'' @ uuid), add_plan (new_plan uuid now c nd mode rn) d)"
        and "''plan_'' @ uuid \<notin> p_id ` set (plans d)"
proof (cases "insert_plan (new_plan uuid now c nd mode rn) d")
  case (Inl x)
  then show ?thesis using failed [of x]
    by (auto simp: repo_create_plan_def Let_def transaction_def insert_plan_def new_plan_def split: if_splits)
next
  case (Inr d')
  then show ?thesis using created
    by (auto simp: repo_create_plan_def Let_def transaction_def insert_plan_def new_plan_def add_plan_def
        split: if_splits)
qed

lemma enter_absent [consumes 3, case_names failed entered]:
  assumes "plan_inv d" and "abs_plan d c = None" and "c \<noteq> []"
  obtains (failed) x where "enter_plan_mode uuid now c nd previous rn d = (Inl x, d)"
      and "\<not> event_ok d (Enter uuid c nd previous rn)"
    | (entered) r s where "enter_plan_mode uuid now c nd previous rn d = (Inr s, add_plan r d)"
        and "session_of now r = Inr s" and "status_of_row r = Some PlanActive" and "p_id r = ''plan_'' @ uuid"
        and "p_conversation_id r = c" and "is_open r" and "plan_inv (add_plan r d)" and "ps_status s = PlanActive"
        and "ps_plan_id s = PStr (''plan_'' @ uuid)"
proof -
  define mode where "mode = permission_mode_value
    (if normalize_permission_mode previous = PlanMode then ModifyOnly else normalize_permission_mode previous)"
  have enter: "enter_plan_mode uuid now c nd previous rn d =
     (case repo_create_plan uuid now c nd mode rn d of
        (Inl e, d') \<Rightarrow> (Inl e, d')
      | (Inr i, d') \<Rightarrow> (case repo_get_plan d' c i of None \<Rightarrow> (Inl (PlanNotFoundError i), d')
                        | Some r \<Rightarrow> (session_of now r, d')))"
    using assms(2,3) abs_plan_NoneD(2) [OF assms(1,2)] by (simp add: enter_plan_mode_def Let_def mode_def)
  let ?r = "new_plan uuid now c nd mode rn"
  show thesis
  proof (cases rule: create_plan_cases [of uuid now c nd mode rn d])
    case (failed x)
    then show ?thesis using that(1) [of x] enter assms(3) by auto
  next
    case created
    have inv: "plan_inv (add_plan ?r d)"
      using add_plan_inv [OF assms(1), of ?r] created(2) abs_plan_NoneD(1) [OF assms(1,2)]
      by (simp add: new_plan_facts)
    have "repo_get_plan (add_plan ?r d) c (''plan_'' @ uuid) = Some ?r"
      using get_plan_iff [OF inv] by (simp add: add_plan_def is_plan_def new_plan_facts)
    moreover have "p_id ?r \<noteq> []" by (simp add: new_plan_facts(1))
    then obtain s where s: "session_of now ?r = Inr s" "ps_status s = PlanActive"
        "ps_plan_id s = PStr (''plan_'' @ uuid)"
      using session_of_row [OF new_plan_facts(3)] unfolding new_plan_facts(1) by metis
    ultimately show ?thesis
      using that(2) [OF _ s(1) new_plan_facts(3) new_plan_facts(1,2) new_plan_facts(4) inv s(2,3)] enter created(1)
      by simp
  qed
qed

lemma approved_add:
  assumes "p_status r = ''active''"
  shows "approved_runs (add_plan r d) = approved_runs d"
proof -
  have "repo_get_plan (add_plan r d) c i =
      (case repo_get_plan d c i of Some x \<Rightarrow> Some x | None \<Rightarrow> if is_plan c i r then Some r else None)" for c i
    by (simp add: repo_get_plan_def add_plan_def select_def fetchone_def split: list.split)
  then show ?thesis using assms by (simp add: fun_eq_iff approved_runs_def split: option.split)
qed

lemma enter_obeys:
  assumes "plan_inv d" and "event_ok d (Enter uuid c nd previous rn)"
  shows "obeys (enter_plan_mode uuid now c nd previous rn d) d c
    (spec_step (EnterPlan (''plan_'' @ uuid)) (abs_state d c))"
  using assms(1)
proof (cases rule: open_plan_cases [where c = c])
  case absent
  have c: "c \<noteq> []" using assms(2) by simp
  from assms(1) absent(1) c show ?thesis
  proof (cases rule: enter_absent [where uuid = uuid and now = now and nd = nd and previous = previous and rn = rn])
    case (failed x)
    then show ?thesis using assms(2) by simp
  next
    case (entered r s)
    have "abs_plan (add_plan r d) = (abs_plan d)(c := Some (p_id r, PlanActive))"
      using entered(3,5,6) abs_plan_NoneD(1) [OF assms(1) absent(1)]
      by (auto simp: fun_eq_iff abs_plan_def opens_add)
    moreover have "approved_runs (add_plan r d) = approved_runs d"
      using entered(3) by (intro approved_add) (simp add: status_of_row_iff plan_status_value_def)
    ultimately show ?thesis using absent entered
      by (simp add: spec_step_def Let_def steps_to_def session_shows_def abs_state_def fun_eq_iff)
  qed
next
  case (present r st)
  obtain s where "session_of now r = Inr s" "ps_status s = st" "ps_plan_id s = PStr (p_id r)"
    using session_of_row [OF present(9)] present(5) by (auto simp: plan_row_ok_def)
  then show ?thesis using present assms(2)
    by (simp add: enter_plan_mode_def spec_step_def Let_def steps_to_def session_shows_def abs_state_def fun_eq_iff)
qed

text \<open>Setting the run of an approved plan.\<close>

definition run_row_set :: "int \<Rightarrow> string option \<Rightarrow> plan_row \<Rightarrow> plan_row" where
  "run_row_set now rn r = r\<lparr>p_approved_run_id := rn, p_updated_at := now\<rparr>"

lemma run_row_set_facts:
  "p_status (run_row_set now rn r) = p_status r" "p_approved_run_id (run_row_set now rn r) = rn"
  "p_id (run_row_set now rn r) = p_id r" "p_conversation_id (run_row_set now rn r) = p_conversation_id r"
  "keeps_key (run_row_set now rn)" "is_open (run_row_set now rn r) = is_open r"
  "plan_row_ok (run_row_set now rn r) = plan_row_ok r" "status_of_row (run_row_set now rn r) = status_of_row r"
  by (simp_all add: run_row_set_def keeps_key_def is_open_def plan_row_ok_def status_of_row_def)

lemma repo_set_run:
  "repo_update_approved_run_id now c i rn d =
     update_and_read c i (update_plan c i (\<lambda>r. p_status r = ''approved'') None rn (run_row_set now rn)) d"
  by (simp add: repo_update_approved_run_id_def run_row_set_def [abs_def])

lemma set_run_obeys:
  assumes "plan_inv d" and "opt_ok (has_run d c) rn"
  shows "obeys (update_approved_run_id now c i rn d) d c (spec_step (SetPlanRun i rn) (abs_state d c))"
proof (cases "\<exists>r \<in> set (plans d). is_plan c i r \<and> p_status r = ''approved''")
  case False
  have "approved_runs d c i = None"
    using False get_plan_iff [OF assms(1), of c i] by (auto simp: approved_runs_def split: option.split)
  moreover have "repo_update_approved_run_id now c i rn d = (Inl (KeyError i), d)"
    unfolding repo_set_run by (rule update_missing [OF False])
  ultimately show ?thesis
    by (simp add: update_approved_run_id_def with_session_def spec_step_def Let_def)
next
  case True
  then obtain r where r: "r \<in> set (plans d)" "is_plan c i r" "p_status r = ''approved''" by blast
  let ?r = "run_row_set now rn r"
  have ok: "plan_row_ok r" by (rule plan_invD(2) [OF assms(1) r(1)])
  have found: "repo_get_plan d c i = Some r" using get_plan_iff [OF assms(1)] r(1,2) by blast
  have keys: "p_conversation_id r = c" "p_id r = i" using r(2) by (simp_all add: is_plan_def)
  have st: "status_of_row r = Some PlanApproved" using r(3) by (simp add: status_of_row_iff plan_status_value_def)
  have closed: "\<not> is_open r" using is_open_iff [OF st] by simp
  have op: "repo_update_approved_run_id now c i rn d = (Inr ?r, replace_plan r ?r d)"
    unfolding repo_set_run
    using update_and_read_found [of d r c i "\<lambda>r. p_status r = ''approved''" "run_row_set now rn" None rn,
        OF assms(1) r(1,2) _ run_row_set_facts(5)] r(3) ok assms(2)
    by (simp add: run_row_set_facts)
  have row: "status_of_row ?r = Some PlanApproved" "p_id ?r \<noteq> []"
    using st ok by (simp_all add: run_row_set_facts plan_row_ok_def)
  obtain s where s: "session_of now ?r = Inr s" "ps_status s = PlanApproved" "ps_plan_id s = PStr (p_id ?r)"
    by (rule session_of_row [OF row])
  then have s: "session_of now ?r = Inr s" "ps_status s = PlanApproved" "ps_plan_id s = PStr i"
    using keys by (simp_all add: run_row_set_facts)
  have "abs_plan (replace_plan r ?r d) = abs_plan d"
    using opens_replace [of d r ?r, OF assms(1) r(1)] closed by (auto simp: fun_eq_iff abs_plan_def run_row_set_facts)
  moreover have "approved_runs (replace_plan r ?r d) = (approved_runs d)(c := (approved_runs d c)(i \<mapsto> rn))"
    using r(3) by (auto simp: fun_eq_iff approved_runs_def run_row_set_facts
        get_plan_replace [OF assms(1) r(1,2) run_row_set_facts(5)])
  moreover have "approved_runs d c i = Some (p_approved_run_id r)" using found r(3) by (simp add: approved_runs_def)
  ultimately show ?thesis using op s
    by (simp add: update_approved_run_id_def with_session_def spec_step_def Let_def steps_to_def session_shows_def
        abs_state_def fun_eq_iff)
qed

section \<open>The invariant\<close>

lemma snd_with_session [simp]: "snd (with_session now p) = snd p"
  by (simp add: with_session_def)

lemma require_status_inv:
  assumes "plan_inv d" and "\<And>r. repo_get_plan d c i = Some r \<Longrightarrow> p_status r = st \<Longrightarrow> plan_inv (snd (body d))"
  shows "plan_inv (snd (require_status c i st message body d))"
  using assms by (auto simp: require_status_def split: option.split)

lemma named_open:
  assumes "plan_inv d" and "repo_get_plan d c i = Some r" and "p_status r \<in> set ACTIVE_PLAN_STATUS_VALUES"
  shows "r \<in> set (plans d)" "is_plan c i r" "is_open r" "plan_row_ok r"
  using assms get_plan_iff [OF assms(1)] plan_invD(2) [OF assms(1)] by (auto simp: is_open_def)

lemma active_open:
  assumes "plan_inv d" and "repo_get_active_or_awaiting d c = Some r"
  shows "r \<in> set (plans d)" "is_plan c (p_id r) r" "is_open r" "plan_row_ok r"
proof -
  have "r \<in> set (opens d c)" using assms active_is_open [OF assms(1), of c] by (cases "opens d c") auto
  then show "r \<in> set (plans d)" "is_plan c (p_id r) r" "is_open r" "plan_row_ok r"
    using plan_invD(2) [OF assms(1)] by (simp_all add: set_opens is_plan_def)
qed

lemma update_row_inv:
  assumes "plan_inv d" and "r \<in> set (plans d)" "is_plan c i r" "is_open r" "keeps_key f" "plan_row_ok (f r)"
  shows "plan_inv (snd (update_and_read c i (update_plan c i (\<lambda>_. True) nd rn f) d))"
  by (rule update_open_inv [where P = "\<lambda>_. True", OF assms(1-3) _ assms(5)]) (use assms(4,6) in auto)

lemma approved_run_inv:
  assumes "plan_inv d"
  shows "plan_inv (snd (repo_update_approved_run_id now c i rn d))"
proof (cases "\<exists>r \<in> set (plans d). is_plan c i r \<and> p_status r = ''approved''")
  case False
  then show ?thesis using update_missing [OF False] assms by (simp add: repo_set_run)
next
  case True
  then obtain r where r: "r \<in> set (plans d)" "is_plan c i r" "p_status r = ''approved''" by blast
  show ?thesis unfolding repo_set_run
    by (rule update_open_inv [OF assms r(1,2) _ run_row_set_facts(5)])
      (use r(3) plan_invD(2) [OF assms r(1)] in \<open>simp_all add: run_row_set_facts\<close>)
qed

lemma plan_step_inv: "plan_inv d \<Longrightarrow> plan_inv (snd (plan_step (now, e) d))"
proof (induction e)
  case (Enter uuid c nd previous rn)
  show ?case
  proof (cases "c = []")
    case False
    from Enter show ?thesis
    proof (cases rule: open_plan_cases [where c = c])
      case absent
      from Enter absent(1) False show ?thesis
        by (cases rule: enter_absent [where uuid = uuid and now = now and nd = nd and previous = previous and rn = rn])
          (use Enter in simp_all)
    next
      case (present r st)
      then show ?thesis using Enter False by (simp add: enter_plan_mode_def Let_def)
    qed
  qed (use Enter in \<open>simp add: enter_plan_mode_def\<close>)
next
  case (Ask c questions nd rn tc)
  have "plan_inv (snd (repo_ask_question now c (p_id r) nd tc rn d))"
    if "repo_get_active_or_awaiting d c = Some r" for r
    using active_open [OF Ask that] update_row_inv [OF Ask] row_keeps_key(1) row_ok(1) by (simp add: repo_updates)
  then show ?case using Ask by (auto simp: ask_user_question_def split: option.split)
next
  case (Exit c nd rn tc)
  have "plan_inv (snd (repo_await_approval now c (p_id r) tc' nd rn d))"
    if "repo_get_active_or_awaiting d c = Some r" for r tc'
    using active_open [OF Exit that] update_row_inv [OF Exit] row_keeps_key(2) row_ok(2) by (simp add: repo_updates)
  then show ?case using Exit by (auto simp: exit_plan_mode_def split: option.split)
next
  case (Answer c i answers)
  have "plan_inv (snd (repo_answer_question now c i d))"
    if "repo_get_plan d c i = Some r" "p_status r = ''awaiting_question''" for r
    using named_open [OF Answer that(1)] that update_row_inv [OF Answer] row_keeps_key(3) row_ok(3)
    by (simp add: repo_answer ACTIVE_PLAN_STATUS_VALUES_def)
  then show ?case using Answer require_status_inv by (simp add: answer_question_def)
next
  case (Approve c i rn)
  have "plan_inv (snd (repo_approve_plan now c i rn d))"
    if "repo_get_plan d c i = Some r" "p_status r = ''awaiting_approval''" for r
    using named_open [OF Approve that(1)] that update_row_inv [OF Approve] row_keeps_key(4) row_ok(4)
    by (simp add: repo_updates ACTIVE_PLAN_STATUS_VALUES_def)
  then show ?case using Approve require_status_inv by (simp add: approve_plan_def)
next
  case (SetApprovedRun c i rn)
  then show ?case using approved_run_inv by (simp add: update_approved_run_id_def)
next
  case (Reject c i)
  have "plan_inv (snd (repo_reject_plan now c i d))"
    if "repo_get_plan d c i = Some r" "p_status r = ''awaiting_approval''" for r
    using named_open [OF Reject that(1)] that update_row_inv [OF Reject] row_keeps_key(5) row_ok(5)
    by (simp add: repo_updates ACTIVE_PLAN_STATUS_VALUES_def)
  then show ?case using Reject require_status_inv by (simp add: reject_plan_def)
qed

lemma plan_run_inv: "plan_inv d \<Longrightarrow> plan_inv (plan_run es d)"
proof (induction es arbitrary: d)
  case (Cons e es)
  then show ?case using plan_step_inv [of d "fst e" "snd e"] by simp
qed simp

lemma plan_inv_empty: "plans d = [] \<Longrightarrow> plan_inv d"
  by (simp add: plan_inv_def opens_def)

section \<open>Properties\<close>

text \<open>
  C17: In every state that ledger operations reach from a database without plans, an
  operation of the ledger succeeds exactly if the plan machine of its conversation allows the
  step, provided its arguments are valid: a conversation is named, questions, answers and the
  tool call are given where they are needed, the named conversation, node and run exist, and a
  new plan has a fresh id.  Then the machine's step is what happens to the open plan and to the
  approved plans of that conversation with their runs, the answer is the session of the plan in
  its new status, and the plans of all other conversations stay as they are.  A refused
  operation changes nothing.
\<close>

theorem ledger_obeys_plan_machine:
  assumes "plans d0 = []" and "d = plan_run es d0" and "event_ok d e"
  shows "obeys (plan_step (now, e) d) d (event_conversation e)
    (spec_step (command_of e) (abs_state d (event_conversation e)))"
proof -
  have inv: "plan_inv d" using plan_run_inv [OF plan_inv_empty [OF assms(1)]] assms(2) by simp
  show ?thesis
    using assms(3) enter_obeys [OF inv] ask_obeys [OF inv] exit_obeys [OF inv] answer_obeys [OF inv]
      approve_obeys [OF inv] reject_obeys [OF inv] set_run_obeys [OF inv]
    by (cases e) (simp_all only: plan_step.simps event_conversation.simps command_of.simps event_ok.simps)
qed

definition demo_plan_db :: db where
  "demo_plan_db = db_empty\<lparr>conversation_rows := [plain_conversation ''c1'' 1, plain_conversation ''c2'' 1]\<rparr>"

definition demo_plan_events :: "(int \<times> plan_event) list" where
  "demo_plan_events =
     [(1, Enter ''a'' ''c1'' None (PStr ''default'') None), (2, Ask ''c1'' [PStr ''which?''] None None (Some ''t1'')),
      (3, Answer ''c1'' ''plan_a'' [''this'']), (4, Exit ''c1'' None None (Some ''t2''))]"

definition demo_approved :: db where
  "demo_approved = plan_run (demo_plan_events @ [(5, Approve ''c1'' ''plan_a'' None)]) demo_plan_db"

theorem ledger_obeys_plan_machine_witness:
  "steps_to (plan_step (5, Approve ''c1'' ''plan_a'' None) (plan_run demo_plan_events demo_plan_db))
     (plan_run demo_plan_events demo_plan_db) ''c1'' ((''plan_a'', PlanApproved), None, [''plan_a'' \<mapsto> None]) \<and>
   refused (plan_step (6, SetApprovedRun ''c1'' ''plan_b'' None) demo_approved) demo_approved"
proof
  have a: "plans demo_plan_db = []" by (simp add: demo_plan_db_def db_empty_def)
  have s: "abs_plan (plan_run demo_plan_events demo_plan_db) ''c1'' = Some (''plan_a'', PlanAwaitingApproval)"
    by code_simp
  have p: "map (\<lambda>r. (p_id r, p_status r)) (plans (plan_run demo_plan_events demo_plan_db)) =
      [(''plan_a'', ''awaiting_approval'')]"
    by code_simp
  have n: "approved_runs (plan_run demo_plan_events demo_plan_db) ''c1'' = Map.empty"
    using p by (auto simp: fun_eq_iff approved_runs_def repo_get_plan_def select_def fetchone_def map_eq_Cons_conv)
  show "steps_to (plan_step (5, Approve ''c1'' ''plan_a'' None) (plan_run demo_plan_events demo_plan_db))
     (plan_run demo_plan_events demo_plan_db) ''c1'' ((''plan_a'', PlanApproved), None, [''plan_a'' \<mapsto> None])"
    using ledger_obeys_plan_machine [OF a refl, where es = demo_plan_events and e = "Approve ''c1'' ''plan_a'' None"
        and now = 5] s n
    by (simp add: spec_step_def)
  have "approved_runs demo_approved ''c1'' ''plan_b'' = None" by code_simp
  then show "refused (plan_step (6, SetApprovedRun ''c1'' ''plan_b'' None) demo_approved) demo_approved"
    using ledger_obeys_plan_machine [OF a demo_approved_def, where e = "SetApprovedRun ''c1'' ''plan_b'' None" and now = 6]
    by (simp add: spec_step_def)
qed

text \<open>
  C18: In all these states a conversation has at most one plan that is active or waiting, every
  plan has one of the four statuses active, waiting for an answer, waiting for approval and
  approved (none is ever rejected or cancelled), a plan that waits for approval names the tool
  call that left plan mode, and exactly the approved plans have a time of approval.
\<close>

theorem one_open_plan_per_conversation:
  assumes "plans d0 = []" and "d = plan_run es d0"
  shows "length (filter (\<lambda>r. p_conversation_id r = c \<and> p_status r \<in> set ACTIVE_PLAN_STATUS_VALUES) (plans d)) \<le> 1 \<and>
    (\<forall>r \<in> set (plans d).
       p_status r \<in> {''active'', ''awaiting_question'', ''awaiting_approval'', ''approved''} \<and>
       (p_status r = ''awaiting_approval'' \<longrightarrow> p_exit_tool_call_id r \<noteq> None) \<and>
       (p_status r = ''approved'' \<longleftrightarrow> p_approved_at r \<noteq> None))"
proof -
  have inv: "plan_inv d" using plan_run_inv [OF plan_inv_empty [OF assms(1)]] assms(2) by simp
  have "p_status r \<in> {''active'', ''awaiting_question'', ''awaiting_approval'', ''approved''}"
    if "r \<in> set (plans d)" for r
    using plan_row_status [OF plan_invD(2) [OF inv that]] by (auto simp: status_of_row_iff plan_status_value_def)
  moreover have "(p_status r = ''awaiting_approval'' \<longrightarrow> p_exit_tool_call_id r \<noteq> None) \<and>
      (p_status r = ''approved'' \<longleftrightarrow> p_approved_at r \<noteq> None)" if "r \<in> set (plans d)" for r
    using plan_invD(2) [OF inv that] unfolding plan_row_ok_def by blast
  moreover have "length (filter (\<lambda>r. p_conversation_id r = c \<and> p_status r \<in> set ACTIVE_PLAN_STATUS_VALUES) (plans d)) \<le> 1"
    using plan_invD(3) [OF inv, of c] by (simp add: opens_def select_def is_open_def)
  ultimately show ?thesis by blast
qed

theorem one_open_plan_per_conversation_witness:
  "length (filter (\<lambda>r. p_conversation_id r = ''c1'' \<and> p_status r \<in> set ACTIVE_PLAN_STATUS_VALUES)
     (plans (plan_run demo_plan_events demo_plan_db))) \<le> 1 \<and>
   plans (plan_run demo_plan_events demo_plan_db) \<noteq> []"
proof
  have a: "plans demo_plan_db = []" by (simp add: demo_plan_db_def db_empty_def)
  show "length (filter (\<lambda>r. p_conversation_id r = ''c1'' \<and> p_status r \<in> set ACTIVE_PLAN_STATUS_VALUES)
     (plans (plan_run demo_plan_events demo_plan_db))) \<le> 1"
    using one_open_plan_per_conversation [OF a refl, where es = demo_plan_events and c = "''c1''"]
    by (rule conjunct1)
  show "plans (plan_run demo_plan_events demo_plan_db) \<noteq> []" by code_simp
qed

text \<open>A plan session is read back from its dictionary unchanged.\<close>

theorem plan_dict_roundtrip: "plan_from_dict now (plan_to_dict s) = Inr s"
  by (simp add: plan_from_dict_def plan_to_dict_def dget_or_def plan_fields_def coerce_value)

end
