(* ===== verification/MemRuns.thy ===== *)
theory MemRuns
  imports RunTypes
begin

text \<open>
  \<open>MemoryRunRepository\<close> (\<open>runs/repository.py\<close>): runs, their events and the idempotency keys in
  three dictionaries.  Every operation is a section under the lock, or two of them one after
  the other; the copies it returns are the values themselves.  Identifiers and the clock are
  arguments.
\<close>

record mem_runs =
  m_runs :: "(string \<times> run_info) list"
  m_events :: "(string \<times> run_event list) list"
  m_idempotency :: "(string \<times> string) list"

definition mem_runs_init :: mem_runs where
  "mem_runs_init = \<lparr>m_runs = [], m_events = [], m_idempotency = []\<rparr>"

section \<open>Creation\<close>

definition bound_metadata :: "(string \<times> pyval) list \<Rightarrow> task_binding option \<Rightarrow> (string \<times> pyval) list" where
  "bound_metadata md binding =
     (case binding of
        None \<Rightarrow> md
      | Some b \<Rightarrow> dict_set ''task_step_position'' (PInt (tb_step_position b))
          (dict_set ''task_generation_id'' (PStr (tb_task_generation_id b)) md))"

definition mem_new_run :: "string \<Rightarrow> int \<Rightarrow> run_request \<Rightarrow> run_info" where
  "mem_new_run i now q =
     \<lparr>ri_id = i, ri_conversation_id = rq_conversation_id q, ri_kind = rq_kind q, ri_status = ''running'',
      ri_created_by = rq_created_by q, ri_cancellation_parent = rq_cancellation_parent q,
      ri_anchor_node = rq_anchor_node q, ri_target_node = rq_target_node q, ri_summary = rq_summary q,
      ri_metadata = bound_metadata (rq_metadata q) (rq_binding q),
      ri_idempotency_key = rq_idempotency_key q, ri_request_fingerprint = rq_fingerprint q,
      ri_event_count = 0, ri_created_at = now, ri_updated_at = now, ri_finished_at = None\<rparr>"

definition mem_insert_run :: "run_info \<Rightarrow> mem_runs \<Rightarrow> mem_runs" where
  "mem_insert_run r s =
     s\<lparr>m_runs := dict_set (ri_id r) r (m_runs s), m_events := dict_set (ri_id r) [] (m_events s),
       m_idempotency := (case ri_idempotency_key r of
          None \<Rightarrow> m_idempotency s | Some k \<Rightarrow> dict_set k (ri_id r) (m_idempotency s))\<rparr>"

definition mem_create_or_get_run ::
  "string \<Rightarrow> int \<Rightarrow> run_request \<Rightarrow> mem_runs \<Rightarrow> (run_info \<times> bool) result \<times> mem_runs" where
  "mem_create_or_get_run uuid now q s =
     (if (rq_idempotency_key q = None) \<noteq> (rq_fingerprint q = None)
      then (Inl (ValueError ''idempotency key and request fingerprint must be provided together''), s)
      else
        let i = ''run_'' @ uuid; r = mem_new_run i now q; created = (Inr (r, True), mem_insert_run r s) in
        case rq_idempotency_key q of
          None \<Rightarrow> created
        | Some k \<Rightarrow>
            (case map_of (m_idempotency s) k of
               None \<Rightarrow> created
             | Some j \<Rightarrow>
                 (case map_of (m_runs s) j of
                    None \<Rightarrow> (Inl (KeyError j), s)
                  | Some existing \<Rightarrow>
                      if ri_request_fingerprint existing \<noteq> rq_fingerprint q
                      then (Inl (RunIdempotencyConflictError j), s)
                      else (Inr (existing, False), s))))"

definition mem_create_run :: "string \<Rightarrow> int \<Rightarrow> run_request \<Rightarrow> mem_runs \<Rightarrow> string result \<times> mem_runs" where
  "mem_create_run uuid now q s =
     (case mem_create_or_get_run uuid now (q\<lparr>rq_idempotency_key := None, rq_fingerprint := None\<rparr>) s of
        (Inl e, s') \<Rightarrow> (Inl e, s')
      | (Inr (r, created), s') \<Rightarrow>
          if created then (Inr (ri_id r), s')
          else (Inl (RuntimeError ''non-idempotent run creation returned an existing run''), s'))"

section \<open>Reading\<close>

definition mem_get_run :: "mem_runs \<Rightarrow> string \<Rightarrow> run_info option" where
  "mem_get_run s i = map_of (m_runs s) i"

definition mem_get_run_by_idempotency_key :: "mem_runs \<Rightarrow> string \<Rightarrow> run_info option" where
  "mem_get_run_by_idempotency_key s k =
     (case map_of (m_idempotency s) k of None \<Rightarrow> None | Some i \<Rightarrow> map_of (m_runs s) i)"

definition mem_list_runs :: "mem_runs \<Rightarrow> string option \<Rightarrow> run_info list" where
  "mem_list_runs s c =
     sort_key (\<lambda>r. (ri_created_at r, ri_id r))
       (filter (\<lambda>r. c = None \<or> Some (ri_conversation_id r) = c) (map snd (m_runs s)))"

definition mem_list_active :: "mem_runs \<Rightarrow> string option \<Rightarrow> run_info list" where
  "mem_list_active s c = filter (\<lambda>r. \<not> is_finished (ri_status r)) (mem_list_runs s c)"

definition mem_require_run :: "mem_runs \<Rightarrow> string \<Rightarrow> run_info result" where
  "mem_require_run s i = (case map_of (m_runs s) i of None \<Rightarrow> Inl (KeyError i) | Some r \<Rightarrow> Inr r)"

definition mem_run_events :: "mem_runs \<Rightarrow> string \<Rightarrow> run_event list" where
  "mem_run_events s i = (case map_of (m_events s) i of None \<Rightarrow> [] | Some es \<Rightarrow> es)"

definition mem_read_events :: "mem_runs \<Rightarrow> string \<Rightarrow> int \<Rightarrow> run_event list result" where
  "mem_read_events s i from_event =
     map_result (\<lambda>_. drop (nat (max 0 from_event)) (mem_run_events s i)) (mem_require_run s i)"

section \<open>Events\<close>

definition mem_event :: "run_info \<Rightarrow> int \<Rightarrow> nat \<Rightarrow> (string \<times> pyval) list \<Rightarrow> run_event" where
  "mem_event r now n source =
     (let payload = event_payload (ri_id r) (ri_conversation_id r) (ri_kind r) (ri_target_node r) n source in
      \<lparr>ev_id = n + 1, ev_run_id = ri_id r, ev_conversation_id = ri_conversation_id r, ev_event_index = n,
       ev_event_type = event_type_of payload, ev_payload = payload, ev_payload_inline = None,
       ev_payload_blob_id = None, ev_created_at = now\<rparr>)"

fun mem_add_events :: "run_info \<Rightarrow> int \<Rightarrow> (string \<times> pyval) list list \<Rightarrow> run_event list \<Rightarrow> run_event list" where
  "mem_add_events r now [] es = es"
| "mem_add_events r now (p # ps) es = mem_add_events r now ps (es @ [mem_event r now (length es) p])"

definition mem_append_events ::
  "int \<Rightarrow> string \<Rightarrow> (string \<times> pyval) list list \<Rightarrow> mem_runs \<Rightarrow> run_event list result \<times> mem_runs" where
  "mem_append_events now i payloads s =
     (case mem_require_run s i of
        Inl e \<Rightarrow> (Inl e, s)
      | Inr r \<Rightarrow>
          let old = mem_run_events s i; es = mem_add_events r now payloads old in
          (Inr (drop (length old) es),
           if payloads = [] then s
           else s\<lparr>m_events := dict_set i es (m_events s),
                  m_runs := dict_set i (r\<lparr>ri_event_count := length es, ri_updated_at := now\<rparr>) (m_runs s)\<rparr>))"

definition mem_append_event ::
  "int \<Rightarrow> string \<Rightarrow> (string \<times> pyval) list \<Rightarrow> mem_runs \<Rightarrow> run_event result \<times> mem_runs" where
  "mem_append_event now i payload s =
     (case mem_append_events now i [payload] s of
        (Inl e, s') \<Rightarrow> (Inl e, s')
      | (Inr [], s') \<Rightarrow> (Inl IndexError, s')
      | (Inr (e # _), s') \<Rightarrow> (Inr e, s'))"

section \<open>Changes\<close>

definition mem_update_run ::
  "string \<Rightarrow> (run_info \<Rightarrow> run_info) \<Rightarrow> mem_runs \<Rightarrow> run_info result \<times> mem_runs" where
  "mem_update_run i f s =
     (case mem_require_run s i of
        Inl e \<Rightarrow> (Inl e, s)
      | Inr r \<Rightarrow> (Inr (f r), s\<lparr>m_runs := dict_set i (f r) (m_runs s)\<rparr>))"

definition mem_update_target_node :: "int \<Rightarrow> string \<Rightarrow> string \<Rightarrow> mem_runs \<Rightarrow> run_info result \<times> mem_runs" where
  "mem_update_target_node now i nd = mem_update_run i (\<lambda>r. r\<lparr>ri_target_node := Some nd, ri_updated_at := now\<rparr>)"

definition mem_update_anchor_node :: "int \<Rightarrow> string \<Rightarrow> string \<Rightarrow> mem_runs \<Rightarrow> run_info result \<times> mem_runs" where
  "mem_update_anchor_node now i nd = mem_update_run i (\<lambda>r. r\<lparr>ri_anchor_node := Some nd, ri_updated_at := now\<rparr>)"

definition mem_update_cancellation_parent ::
  "int \<Rightarrow> string \<Rightarrow> string option \<Rightarrow> mem_runs \<Rightarrow> run_info result \<times> mem_runs" where
  "mem_update_cancellation_parent now i parent =
     mem_update_run i (\<lambda>r. r\<lparr>ri_cancellation_parent := parent, ri_updated_at := now\<rparr>)"

definition mem_merge_metadata ::
  "int \<Rightarrow> string \<Rightarrow> (string \<times> pyval) list \<Rightarrow> mem_runs \<Rightarrow> run_info result \<times> mem_runs" where
  "mem_merge_metadata now i md =
     mem_update_run i (\<lambda>r. r\<lparr>ri_metadata := dict_update (ri_metadata r) md, ri_updated_at := now\<rparr>)"

definition mem_update_status :: "int \<Rightarrow> string \<Rightarrow> string \<Rightarrow> mem_runs \<Rightarrow> run_info result \<times> mem_runs" where
  "mem_update_status now i st s =
     (case mem_require_run s i of
        Inl e \<Rightarrow> (Inl e, s)
      | Inr r \<Rightarrow>
          if is_finished (ri_status r) then (Inr r, s)
          else mem_update_run i (\<lambda>r. r\<lparr>ri_status := st, ri_updated_at := now\<rparr>) s)"

definition finished_event :: "string \<Rightarrow> string option \<Rightarrow> int \<Rightarrow> (string \<times> pyval) list" where
  "finished_event st err now =
     [(''type'', PStr ''run_finished''), (''status'', PStr st), (''error'', of_opt err), (''finished_at'', PInt now)]"

definition mem_finish_run ::
  "int \<Rightarrow> string \<Rightarrow> string \<Rightarrow> string option \<Rightarrow> mem_runs \<Rightarrow> run_info result \<times> mem_runs" where
  "mem_finish_run now i st err s =
     (case mem_require_run s i of
        Inl e \<Rightarrow> (Inl e, s)
      | Inr r \<Rightarrow>
          if is_finished (ri_status r) then (Inr r, s)
          else
            let s1 = snd (mem_update_run i (\<lambda>r. r\<lparr>ri_status := st, ri_finished_at := Some now, ri_updated_at := now,
                       ri_metadata := (if truthy_opt err then dict_set ''error'' (PStr (or_empty err)) (ri_metadata r)
                                       else ri_metadata r)\<rparr>) s);
                s2 = snd (mem_append_event now i (finished_event st err now) s1) in
            (mem_require_run s2 i, s2))"

definition mem_request_stop :: "int \<Rightarrow> string \<Rightarrow> mem_runs \<Rightarrow> bool \<times> mem_runs" where
  "mem_request_stop now i s =
     (case map_of (m_runs s) i of
        None \<Rightarrow> (False, s)
      | Some r \<Rightarrow>
          if is_finished (ri_status r) then (False, s)
          else
            let s1 = snd (mem_update_run i (\<lambda>r. r\<lparr>ri_status := ''stopping'', ri_updated_at := now\<rparr>) s) in
            (True, snd (mem_append_event now i
               [(''type'', PStr ''run_stop_requested''), (''status'', PStr ''stopping'')] s1)))"

fun mem_finish_all :: "int \<Rightarrow> string list \<Rightarrow> mem_runs \<Rightarrow> mem_runs" where
  "mem_finish_all now [] s = s"
| "mem_finish_all now (i # is) s =
     mem_finish_all now is (snd (mem_finish_run now i ''interrupted'' (Some ''interrupted on startup'') s))"

definition mem_mark_unfinished_as_interrupted :: "int \<Rightarrow> mem_runs \<Rightarrow> string list \<times> mem_runs" where
  "mem_mark_unfinished_as_interrupted now s =
     (let is = map ri_id (mem_list_active s None) in (is, mem_finish_all now is s))"

definition mem_delete_run :: "string \<Rightarrow> mem_runs \<Rightarrow> mem_runs" where
  "mem_delete_run i s =
     s\<lparr>m_runs := dict_pop i (m_runs s), m_events := dict_pop i (m_events s),
       m_idempotency := (case map_of (m_runs s) i of
          None \<Rightarrow> m_idempotency s
        | Some r \<Rightarrow> (case ri_idempotency_key r of
            None \<Rightarrow> m_idempotency s | Some k \<Rightarrow> dict_pop k (m_idempotency s)))\<rparr>"

end
