(* ===== verification/Json.thy ===== *)
theory Json
  imports PyVal
begin

text \<open>
  The standard library's \<open>json\<close> on values without floating point numbers: \<open>json.dumps\<close> with
  \<open>ensure_ascii=False\<close>, with and without sorted keys, for any separators, and \<open>json.loads\<close>.
  A document the model of strings and numbers does not reach (floats, escapes above Latin-1)
  parses as \<open>JOut\<close>, so that no theorem speaks of it.
\<close>

section \<open>dumps\<close>

definition json_escape :: "char \<Rightarrow> string" where
  "json_escape c =
     (let n = code c in
      if n = 34 \<or> n = 92 then [CHR 0x5C, c]
      else if n = 8 then [CHR 0x5C, CHR ''b'']
      else if n = 12 then [CHR 0x5C, CHR ''f'']
      else if n = 10 then [CHR 0x5C, CHR ''n'']
      else if n = 13 then [CHR 0x5C, CHR ''r'']
      else if n = 9 then [CHR 0x5C, CHR ''t'']
      else if n < 32 then [CHR 0x5C, CHR ''u'', CHR ''0'', CHR ''0'', hex_digit (n div 16), hex_digit (n mod 16)]
      else [c])"

definition json_str :: "string \<Rightarrow> string" where
  "json_str s = CHR 0x22 # concat (map json_escape s) @ [CHR 0x22]"

fun json_dumps :: "bool \<Rightarrow> string \<Rightarrow> string \<Rightarrow> pyval \<Rightarrow> string" where
  "json_dumps sk isep ksep PNone = ''null''"
| "json_dumps sk isep ksep (PBool b) = (if b then ''true'' else ''false'')"
| "json_dumps sk isep ksep (PInt i) = int_str i"
| "json_dumps sk isep ksep (PStr s) = json_str s"
| "json_dumps sk isep ksep (PList xs) = ''['' @ join isep (map (json_dumps sk isep ksep) xs) @ '']''"
| "json_dumps sk isep ksep (PDict d) =
     (let items = map (\<lambda>p. (fst p, json_dumps sk isep ksep (snd p))) d in
      ''{'' @ join isep (map (\<lambda>p. json_str (fst p) @ ksep @ snd p) (if sk then sort_key fst items else items)) @ ''}'')"

section \<open>loads\<close>

datatype 'a parsed = JOk 'a string | JBad | JOut

definition map_parsed :: "('a \<Rightarrow> 'b) \<Rightarrow> 'a parsed \<Rightarrow> 'b parsed" where
  "map_parsed f p = (case p of JOk x r \<Rightarrow> JOk (f x) r | JBad \<Rightarrow> JBad | JOut \<Rightarrow> JOut)"

definition then_parse :: "'a parsed \<Rightarrow> ('a \<Rightarrow> string \<Rightarrow> 'b parsed) \<Rightarrow> 'b parsed" where
  "then_parse p f = (case p of JOk x r \<Rightarrow> f x r | JBad \<Rightarrow> JBad | JOut \<Rightarrow> JOut)"

lemma parsed_simps [simp]:
  "map_parsed f (JOk x r) = JOk (f x) r" "map_parsed f JBad = JBad" "map_parsed f JOut = JOut"
  "then_parse (JOk x r) g = g x r" "then_parse JBad g = JBad" "then_parse JOut g = JOut"
  by (simp_all add: map_parsed_def then_parse_def)

definition is_json_space :: "char \<Rightarrow> bool" where
  "is_json_space c = (code c = 32 \<or> code c = 9 \<or> code c = 10 \<or> code c = 13)"

definition skip_ws :: "string \<Rightarrow> string" where
  "skip_ws s = dropWhile is_json_space s"

definition hex_value :: "char \<Rightarrow> nat option" where
  "hex_value c =
     (let n = code c in
      if 48 \<le> n \<and> n \<le> 57 then Some (n - 48)
      else if 97 \<le> n \<and> n \<le> 102 then Some (n - 87)
      else if 65 \<le> n \<and> n \<le> 70 then Some (n - 55)
      else None)"

definition unescape :: "char \<Rightarrow> char option" where
  "unescape c =
     map_of [(CHR 0x22, CHR 0x22), (CHR 0x5C, CHR 0x5C), (CHR ''/'', CHR ''/''), (CHR ''b'', CHR 0x08),
       (CHR ''f'', CHR 0x0C), (CHR ''n'', CHR 0x0A), (CHR ''r'', CHR 0x0D), (CHR ''t'', CHR 0x09)] c"

definition unicode_escape :: "char \<Rightarrow> char \<Rightarrow> char \<Rightarrow> char \<Rightarrow> char parsed" where
  "unicode_escape a b c d =
     (case (hex_value a, hex_value b, hex_value c, hex_value d) of
        (Some w, Some x, Some y, Some z) \<Rightarrow>
          (let n = 4096 * w + 256 * x + 16 * y + z in if n < 256 then JOk (char_of n) [] else JOut)
      | _ \<Rightarrow> JBad)"

text \<open>The text after an opening quote.\<close>

fun scan_string :: "string \<Rightarrow> string parsed" where
  "scan_string [] = JBad"
| "scan_string (c # s) =
     (if c = CHR 0x22 then JOk [] s
      else if code c < (32 :: nat) then JBad
      else if c = CHR 0x5C then
        (case s of
           [] \<Rightarrow> JBad
         | e # t \<Rightarrow>
             if e = CHR ''u'' then
               (case t of
                  h1 # h2 # h3 # h4 # t' \<Rightarrow>
                    (case unicode_escape h1 h2 h3 h4 of
                       JOk x _ \<Rightarrow> map_parsed (Cons x) (scan_string t')
                     | JBad \<Rightarrow> JBad
                     | JOut \<Rightarrow> JOut)
                | _ \<Rightarrow> JBad)
             else
               (case unescape e of
                  None \<Rightarrow> JBad
                | Some x \<Rightarrow> map_parsed (Cons x) (scan_string t)))
      else map_parsed (Cons c) (scan_string s))"

text \<open>A number; a fraction or an exponent makes it a float.\<close>

definition starts_fraction :: "string \<Rightarrow> bool" where
  "starts_fraction r =
     (case r of
        c # d # t \<Rightarrow>
          (c = CHR ''.'' \<and> is_digit d) \<or>
          ((c = CHR ''e'' \<or> c = CHR ''E'') \<and>
           (is_digit d \<or> ((d = CHR ''+'' \<or> d = CHR ''-'') \<and> (case t of x # _ \<Rightarrow> is_digit x | [] \<Rightarrow> False))))
      | _ \<Rightarrow> False)"

definition scan_nat :: "string \<Rightarrow> nat parsed" where
  "scan_nat s =
     (case s of
        [] \<Rightarrow> JBad
      | c # t \<Rightarrow>
          if c = CHR ''0'' then (if starts_fraction t then JOut else JOk 0 t)
          else
            let ds = takeWhile is_digit s; r = dropWhile is_digit s in
            if ds = [] then JBad
            else if starts_fraction r \<or> length ds > 4300 then JOut
            else JOk (digits_value 0 ds) r)"

definition scan_number :: "string \<Rightarrow> pyval parsed" where
  "scan_number s =
     (case s of
        [] \<Rightarrow> JBad
      | c # t \<Rightarrow>
          if c = CHR ''-''
          then (if startswith t ''Infinity'' then JOut else map_parsed (\<lambda>n. PInt (- int n)) (scan_nat t))
          else if startswith s ''NaN'' \<or> startswith s ''Infinity'' then JOut
          else map_parsed (\<lambda>n. PInt (int n)) (scan_nat s))"

text \<open>
  Values, the items of an array after its first bracket or comma, and the members of an
  object.  The first argument bounds the number of nested calls; the length of the document
  is enough.
\<close>

fun json_value :: "nat \<Rightarrow> string \<Rightarrow> pyval parsed"
  and json_items :: "nat \<Rightarrow> string \<Rightarrow> pyval list parsed"
  and json_members :: "nat \<Rightarrow> string \<Rightarrow> (string \<times> pyval) list parsed"
where
  "json_value 0 s = JOut"
| "json_value (Suc n) s =
     (case s of
        [] \<Rightarrow> JBad
      | c # t \<Rightarrow>
          if c = CHR 0x22 then map_parsed PStr (scan_string t)
          else if c = CHR ''{'' then
            (let u = skip_ws t in
             if startswith u ''}'' then JOk (PDict []) (tl u)
             else map_parsed (\<lambda>ps. PDict (dict_update [] ps)) (json_members n u))
          else if c = CHR ''['' then
            (let u = skip_ws t in
             if startswith u '']'' then JOk (PList []) (tl u)
             else map_parsed PList (json_items n u))
          else if startswith s ''null'' then JOk PNone (drop 4 s)
          else if startswith s ''true'' then JOk (PBool True) (drop 4 s)
          else if startswith s ''false'' then JOk (PBool False) (drop 5 s)
          else scan_number s)"
| "json_items 0 s = JOut"
| "json_items (Suc n) s =
     then_parse (json_value n s) (\<lambda>v r.
       case skip_ws r of
         [] \<Rightarrow> JBad
       | c # t \<Rightarrow>
           if c = CHR '']'' then JOk [v] t
           else if c = CHR '','' then map_parsed (Cons v) (json_items n (skip_ws t))
           else JBad)"
| "json_members 0 s = JOut"
| "json_members (Suc n) s =
     (case s of
        [] \<Rightarrow> JBad
      | q # s' \<Rightarrow>
          if q \<noteq> CHR 0x22 then JBad
          else then_parse (scan_string s') (\<lambda>k r.
            case skip_ws r of
              [] \<Rightarrow> JBad
            | c # t \<Rightarrow>
                if c \<noteq> CHR '':'' then JBad
                else then_parse (json_value n (skip_ws t)) (\<lambda>v r'.
                  case skip_ws r' of
                    [] \<Rightarrow> JBad
                  | c' # t' \<Rightarrow>
                      if c' = CHR ''}'' then JOk [(k, v)] t'
                      else if c' = CHR '','' then map_parsed (Cons (k, v)) (json_members n (skip_ws t'))
                      else JBad)))"

definition json_loads :: "string \<Rightarrow> pyval parsed" where
  "json_loads s =
     (case json_value (Suc (length s)) (skip_ws s) of
        JOk v r \<Rightarrow> if skip_ws r = [] then JOk v [] else JBad
      | x \<Rightarrow> x)"

section \<open>Strings and numbers\<close>

text \<open>What may follow a value: not a character that would continue a number.\<close>

definition ends_value :: "string \<Rightarrow> bool" where
  "ends_value r = (case r of [] \<Rightarrow> True | c # _ \<Rightarrow> \<not> is_digit c \<and> c \<notin> {CHR ''.'', CHR ''e'', CHR ''E''})"

lemma hex_value_digit: "d < 16 \<Longrightarrow> hex_value (hex_digit d) = Some d"
  by (auto simp: hex_value_def hex_digit_def Let_def)

lemma char_of_codes:
  "char_of (34 :: nat) = CHR 0x22" "char_of (92 :: nat) = CHR 0x5C" "char_of (8 :: nat) = CHR 0x08"
  "char_of (12 :: nat) = CHR 0x0C" "char_of (10 :: nat) = CHR 0x0A" "char_of (13 :: nat) = CHR 0x0D"
  "char_of (9 :: nat) = CHR 0x09"
  by code_simp+

lemma scan_string_escape: "scan_string (json_escape c @ s) = map_parsed (Cons c) (scan_string s)"
proof -
  have c: "char_of (code c) = c" by simp
  have e: "c = char_of n" if "code c = n" for n :: nat using c that by simp
  consider "code c = (34 :: nat)" | "code c = (92 :: nat)" | "code c = (8 :: nat)" | "code c = (12 :: nat)"
    | "code c = (10 :: nat)" | "code c = (13 :: nat)" | "code c = (9 :: nat)"
    | "code c < (32 :: nat)" "code c \<notin> {8, 12, 10, 13, 9 :: nat}"
    | "\<not> code c < (32 :: nat)" "code c \<noteq> (34 :: nat)" "code c \<noteq> (92 :: nat)"
    by blast
  then show ?thesis
  proof cases
    case 8
    let ?n = "code c :: nat"
    have "unicode_escape (CHR ''0'') (CHR ''0'') (hex_digit (?n div 16)) (hex_digit (?n mod 16)) = JOk c []"
      using 8 hex_value_digit [of "?n div 16"] hex_value_digit [of "?n mod 16"] c
      by (simp add: unicode_escape_def hex_value_def [of "CHR ''0''"])
    then show ?thesis using 8 by (simp add: json_escape_def Let_def)
  next
    case 9
    then have "c \<noteq> CHR 0x22" "c \<noteq> CHR 0x5C" by auto
    then show ?thesis using 9 by (simp add: json_escape_def Let_def)
  qed (use e in \<open>simp_all add: json_escape_def Let_def unescape_def char_of_codes\<close>)
qed

lemma scan_json_str: "scan_string (concat (map json_escape s) @ CHR 0x22 # r) = JOk s r"
proof (induction s)
  case (Cons c s)
  then show ?case using scan_string_escape [of c] by simp
qed simp

lemma ends_value_fraction: "ends_value r \<Longrightarrow> \<not> starts_fraction r"
  by (auto simp: ends_value_def starts_fraction_def split: list.splits)

lemma nat_str_hd: "0 < n \<Longrightarrow> hd (nat_str n) \<noteq> CHR ''0''"
proof (induction n rule: nat_str.induct)
  case (1 n)
  show ?case
  proof (cases "n < 10")
    case True
    then have "code (digit_char n) \<noteq> (48 :: nat)" using 1 by simp
    then have "digit_char n \<noteq> CHR ''0''" by auto
    then show ?thesis using True by (simp add: nat_str.simps [of n])
  next
    case False
    then show ?thesis using 1 by (simp add: nat_str.simps [of n])
  qed
qed

lemma nat_str_0: "nat_str 0 = ''0''"
  by code_simp

lemma nat_str_Cons: "\<exists>c t. nat_str n = c # t \<and> is_digit c"
  using nat_str_digits [of n] by (cases "nat_str n") auto

lemma scan_nat_str:
  assumes "ends_value r" and "length (nat_str n) \<le> 4300"
  shows "scan_nat (nat_str n @ r) = JOk n r"
proof (cases "n = 0")
  case True
  then show ?thesis using ends_value_fraction [OF assms(1)] by (simp add: nat_str_0 scan_nat_def)
next
  case False
  obtain c t where c: "nat_str n = c # t" "is_digit c" using nat_str_Cons by blast
  have hd: "\<forall>x \<in> set (nat_str n). is_digit x" using nat_str_digits [of n] by (simp add: list_all_iff)
  have "c \<noteq> CHR ''0''" using nat_str_hd [of n] False c(1) by simp
  have tk: "takeWhile is_digit (nat_str n @ r) = nat_str n"
    using hd assms(1) by (subst takeWhile_append2) (auto simp: ends_value_def split: list.splits)
  have dp: "dropWhile is_digit (nat_str n @ r) = r"
    using hd assms(1) by (subst dropWhile_append2) (auto simp: ends_value_def split: list.splits)
  have "scan_nat (nat_str n @ r) =
      (if starts_fraction r \<or> length (nat_str n) > 4300 then JOut else JOk (digits_value 0 (nat_str n)) r)"
    unfolding scan_nat_def tk dp using c \<open>c \<noteq> CHR ''0''\<close> by (simp add: Let_def)
  then show ?thesis using ends_value_fraction [OF assms(1)] assms(2) by simp
qed

definition json_int_ok :: "int \<Rightarrow> bool" where
  "json_int_ok i = (length (nat_str (nat \<bar>i\<bar>)) \<le> 4300)"

lemma digit_neq:
  "is_digit c \<Longrightarrow> c \<noteq> CHR ''-'' \<and> c \<noteq> CHR ''N'' \<and> c \<noteq> CHR ''I'' \<and> c \<noteq> CHR 0x22 \<and> c \<noteq> CHR ''{'' \<and> c \<noteq> CHR ''['' \<and>
     c \<noteq> CHR ''n'' \<and> c \<noteq> CHR ''t'' \<and> c \<noteq> CHR ''f'' \<and> c \<noteq> CHR '']''"
  by (auto simp: is_digit_def)

lemma scan_int_str:
  assumes "ends_value r" and "json_int_ok i"
  shows "scan_number (int_str i @ r) = JOk (PInt i) r"
proof (cases "i < 0")
  case True
  obtain c t where c: "nat_str (nat (- i)) = c # t" "is_digit c" using nat_str_Cons by blast
  have "length (nat_str (nat (- i))) \<le> 4300" using assms(2) True by (simp add: json_int_ok_def)
  from scan_nat_str [OF assms(1) this] show ?thesis
    using True c digit_neq [OF c(2)] by (simp add: scan_number_def int_str_def)
next
  case False
  obtain c t where c: "nat_str (nat i) = c # t" "is_digit c" using nat_str_Cons by blast
  have "length (nat_str (nat i)) \<le> 4300" using assms(2) False by (simp add: json_int_ok_def)
  from scan_nat_str [OF assms(1) this] show ?thesis
    using False c digit_neq [OF c(2)] by (simp add: scan_number_def int_str_def)
qed

section \<open>Reading back what was written\<close>

text \<open>The value with its dictionaries sorted, if they are written sorted.\<close>

fun json_norm :: "bool \<Rightarrow> pyval \<Rightarrow> pyval" where
  "json_norm sk (PList xs) = PList (map (json_norm sk) xs)"
| "json_norm sk (PDict d) =
     (let items = map (\<lambda>p. (fst p, json_norm sk (snd p))) d in PDict (if sk then sort_key fst items else items))"
| "json_norm sk v = v"

text \<open>Dictionaries have no key twice, and integers no more digits than \<open>int\<close> reads.\<close>

fun json_ok :: "pyval \<Rightarrow> bool" where
  "json_ok (PInt i) = json_int_ok i"
| "json_ok (PList xs) = (\<forall>x \<in> set xs. json_ok x)"
| "json_ok (PDict d) = (distinct (map fst d) \<and> (\<forall>p \<in> set d. json_ok (snd p)))"
| "json_ok v = True"

lemma join_simps [simp]:
  "join sep [] = []"
  "join sep [x] = x"
  "join sep (x # y # ys) = x @ sep @ join sep (y # ys)"
  by (simp_all add: join_def)

lemma insort_key_map:
  "(\<And>x. key (f x) = key' x) \<Longrightarrow> insort_key key (f x) (map f xs) = map f (insort_key key' x xs)"
  by (induction xs) auto

lemma sort_key_map: "(\<And>x. key (f x) = key' x) \<Longrightarrow> sort_key key (map f xs) = map f (sort_key key' xs)"
  by (induction xs) (simp_all add: insort_key_map)

lemma dict_set_new: "k \<notin> fst ` set d \<Longrightarrow> dict_set k v d = d @ [(k, v)]"
  by (induction d) auto

lemma dict_update_distinct:
  "distinct (map fst (d @ u)) \<Longrightarrow> dict_update d u = d @ u"
proof (induction u arbitrary: d)
  case Nil
  then show ?case by (simp add: dict_update_def)
next
  case (Cons p u)
  have "dict_update d (p # u) = dict_update (dict_set (fst p) (snd p) d) u"
    by (simp add: dict_update_def split: prod.split)
  also have "\<dots> = dict_update (d @ [p]) u" using Cons.prems dict_set_new [of "fst p" d "snd p"] by simp
  also have "\<dots> = d @ p # u" using Cons.IH [of "d @ [p]"] Cons.prems by simp
  finally show ?case .
qed

lemma skip_ws_id: "s = [] \<or> \<not> is_json_space (hd s) \<Longrightarrow> skip_ws s = s"
  by (cases s) (auto simp: skip_ws_def)

lemma skip_ws_append: "\<forall>c \<in> set w. is_json_space c \<Longrightarrow> skip_ws (w @ s) = skip_ws s"
  by (simp add: skip_ws_def dropWhile_append2)

lemma json_str_Cons: "json_str s @ r = CHR 0x22 # concat (map json_escape s) @ CHR 0x22 # r"
  by (simp add: json_str_def)

lemma dumps_head: "\<exists>c t. json_dumps sk isep ksep v = c # t \<and> \<not> is_json_space c \<and> c \<noteq> CHR '']''"
proof (cases v)
  case (PInt i)
  show ?thesis
  proof (cases "i < 0")
    case True
    then show ?thesis using PInt by (simp add: int_str_def is_json_space_def)
  next
    case False
    obtain c t where "nat_str (nat i) = c # t" "is_digit c" using nat_str_Cons by blast
    then show ?thesis
      using PInt False digit_neq [of c] by (simp add: int_str_def is_json_space_def) (auto simp: is_digit_def)
  qed
qed (auto simp: is_json_space_def json_str_def Let_def)

lemma dumps_skip_ws [simp]: "skip_ws (json_dumps sk isep ksep v @ r) = json_dumps sk isep ksep v @ r"
proof -
  obtain c t where "json_dumps sk isep ksep v = c # t" "\<not> is_json_space c" using dumps_head by blast
  then show ?thesis by (simp add: skip_ws_def)
qed

text \<open>The value \<open>v\<close> is read back in front of any rest.\<close>

definition reads_back :: "bool \<Rightarrow> string \<Rightarrow> string \<Rightarrow> pyval \<Rightarrow> bool" where
  "reads_back sk isep ksep v =
     (\<forall>n r. ends_value r \<longrightarrow> length (json_dumps sk isep ksep v) \<le> n \<longrightarrow>
        json_value n (json_dumps sk isep ksep v @ r) = JOk (json_norm sk v) r)"

lemma reads_backD:
  "reads_back sk isep ksep v \<Longrightarrow> ends_value r \<Longrightarrow> length (json_dumps sk isep ksep v) \<le> n \<Longrightarrow>
   json_value n (json_dumps sk isep ksep v @ r) = JOk (json_norm sk v) r"
  by (simp add: reads_back_def)

text \<open>Separators: a comma and a colon, each with white space after it.\<close>

definition seps_ok :: "string \<Rightarrow> string \<Rightarrow> bool" where
  "seps_ok isep ksep =
     (\<exists>v w. isep = CHR '','' # v \<and> ksep = CHR '':'' # w \<and> (\<forall>c \<in> set v \<union> set w. is_json_space c))"

lemma skip_ws_mark [simp]:
  "c \<in> {CHR '']'', CHR '','', CHR ''}'', CHR '':'', CHR 0x22} \<Longrightarrow> skip_ws (c # r) = c # r"
  by (auto simp: skip_ws_def is_json_space_def)

lemma ends_value_mark [simp]:
  "c \<in> {CHR '']'', CHR '','', CHR ''}''} \<Longrightarrow> ends_value (c # r)"
  by (auto simp: ends_value_def is_digit_def)

lemma items_read_back:
  assumes "seps_ok isep ksep" and "xs \<noteq> []" and "\<forall>x \<in> set xs. reads_back sk isep ksep x"
    and "length (join isep (map (json_dumps sk isep ksep) xs)) < n"
  shows "json_items n (join isep (map (json_dumps sk isep ksep) xs) @ CHR '']'' # r) =
    JOk (map (json_norm sk) xs) r"
  using assms(2-4)
proof (induction xs arbitrary: n rule: list_nonempty_induct)
  case (single x)
  then obtain m where m: "n = Suc m" "length (json_dumps sk isep ksep x) \<le> m" by (cases n) auto
  then show ?case using reads_backD [of sk isep ksep x "CHR '']'' # r" m] single by simp
next
  case (cons x xs)
  obtain y ys where xs: "xs = y # ys" using cons.hyps by (cases xs) auto
  obtain v where isep: "isep = CHR '','' # v" "\<forall>c \<in> set v. is_json_space c"
    using assms(1) by (auto simp: seps_ok_def)
  let ?rest = "join isep (map (json_dumps sk isep ksep) xs)"
  obtain m where m: "n = Suc m" "length (json_dumps sk isep ksep x) \<le> m" "length ?rest < m"
    using cons.prems(2) xs isep(1) by (cases n) auto
  have "json_value m (json_dumps sk isep ksep x @ CHR '','' # v @ ?rest @ CHR '']'' # r) =
      JOk (json_norm sk x) (CHR '','' # v @ ?rest @ CHR '']'' # r)"
    by (rule reads_backD) (use cons.prems m in auto)
  moreover have "skip_ws (v @ ?rest @ CHR '']'' # r) = ?rest @ CHR '']'' # r"
    using skip_ws_append [OF isep(2)] xs by (cases ys) simp_all
  moreover have "json_items m (?rest @ CHR '']'' # r) = JOk (map (json_norm sk) xs) r"
    using cons.IH [of m] cons.prems m by simp
  ultimately show ?case using xs m isep(1) by simp
qed

lemma members_read_back:
  assumes "seps_ok isep ksep" and "ps \<noteq> []" and "\<forall>p \<in> set ps. reads_back sk isep ksep (snd p)"
    and "length (join isep (map (\<lambda>p. json_str (fst p) @ ksep @ json_dumps sk isep ksep (snd p)) ps)) < n"
  shows "json_members n
      (join isep (map (\<lambda>p. json_str (fst p) @ ksep @ json_dumps sk isep ksep (snd p)) ps) @ CHR ''}'' # r) =
    JOk (map (\<lambda>p. (fst p, json_norm sk (snd p))) ps) r"
  using assms(2-4)
proof (induction ps arbitrary: n rule: list_nonempty_induct)
  case (single p)
  obtain w where ksep: "ksep = CHR '':'' # w" "\<forall>c \<in> set w. is_json_space c"
    using assms(1) by (auto simp: seps_ok_def)
  obtain m where m: "n = Suc m" "length (json_dumps sk isep ksep (snd p)) \<le> m"
    using single by (cases n) auto
  have "json_value m (json_dumps sk isep ksep (snd p) @ CHR ''}'' # r) = JOk (json_norm sk (snd p)) (CHR ''}'' # r)"
    by (rule reads_backD) (use single m in auto)
  moreover have "skip_ws (w @ json_dumps sk isep ksep (snd p) @ CHR ''}'' # r) =
      json_dumps sk isep ksep (snd p) @ CHR ''}'' # r"
    by (simp add: skip_ws_append [OF ksep(2)])
  ultimately show ?case using m ksep(1) by (simp add: json_str_Cons scan_json_str)
next
  case (cons p ps)
  obtain q qs where ps: "ps = q # qs" using cons.hyps by (cases ps) auto
  obtain v w where isep: "isep = CHR '','' # v" "\<forall>c \<in> set v. is_json_space c"
    and ksep: "ksep = CHR '':'' # w" "\<forall>c \<in> set w. is_json_space c"
    using assms(1) by (auto simp: seps_ok_def)
  let ?rest = "join isep (map (\<lambda>p. json_str (fst p) @ ksep @ json_dumps sk isep ksep (snd p)) ps)"
  let ?tail = "CHR '','' # v @ ?rest @ CHR ''}'' # r"
  obtain m where m: "n = Suc m" "length (json_dumps sk isep ksep (snd p)) \<le> m" "length ?rest < m"
    using cons.prems(2) ps isep(1) by (cases n) auto
  have "json_value m (json_dumps sk isep ksep (snd p) @ ?tail) = JOk (json_norm sk (snd p)) ?tail"
    by (rule reads_backD) (use cons.prems m in auto)
  moreover have "skip_ws (w @ json_dumps sk isep ksep (snd p) @ ?tail) = json_dumps sk isep ksep (snd p) @ ?tail"
    by (simp add: skip_ws_append [OF ksep(2)])
  moreover have "skip_ws (v @ ?rest @ CHR ''}'' # r) = ?rest @ CHR ''}'' # r"
    using skip_ws_append [OF isep(2)] ps by (cases qs) (simp_all add: json_str_Cons)
  moreover have "json_members m (?rest @ CHR ''}'' # r) = JOk (map (\<lambda>p. (fst p, json_norm sk (snd p))) ps) r"
    using cons.IH [of m] cons.prems m by simp
  ultimately show ?case using ps m isep(1) ksep(1) by (simp add: json_str_Cons scan_json_str)
qed

lemma reads_backI:
  assumes "\<And>m r. ends_value r \<Longrightarrow> length (json_dumps sk isep ksep v) \<le> Suc m \<Longrightarrow>
    json_value (Suc m) (json_dumps sk isep ksep v @ r) = JOk (json_norm sk v) r"
  shows "reads_back sk isep ksep v"
  unfolding reads_back_def
proof (intro allI impI)
  fix n r assume r: "ends_value r" and n: "length (json_dumps sk isep ksep v) \<le> n"
  have "json_dumps sk isep ksep v \<noteq> []" using dumps_head [of sk isep ksep v] by auto
  then obtain m where "n = Suc m" using n by (cases n) auto
  then show "json_value n (json_dumps sk isep ksep v @ r) = JOk (json_norm sk v) r" using assms r n by simp
qed

lemma int_str_Cons: "\<exists>c t. int_str i = c # t \<and> (is_digit c \<or> c = CHR ''-'')"
  using nat_str_Cons [of "nat i"] by (cases "i < 0") (auto simp: int_str_def)

lemma reads_back_int: "json_int_ok i \<Longrightarrow> reads_back sk isep ksep (PInt i)"
proof (rule reads_backI)
  fix m r assume ok: "json_int_ok i" and r: "ends_value r"
  obtain c t where c: "int_str i = c # t" "is_digit c \<or> c = CHR ''-''" using int_str_Cons by blast
  have "\<not> startswith (c # t @ r) ''null''" "\<not> startswith (c # t @ r) ''true''" "\<not> startswith (c # t @ r) ''false''"
    "c \<noteq> CHR 0x22" "c \<noteq> CHR ''{''" "c \<noteq> CHR ''[''"
    using c(2) digit_neq [of c] by auto
  then show "json_value (Suc m) (json_dumps sk isep ksep (PInt i) @ r) = JOk (json_norm sk (PInt i)) r"
    using scan_int_str [OF r ok] c(1) by simp
qed

lemma dumps_members:
  "json_dumps sk isep ksep (PDict d) =
     ''{'' @ join isep (map (\<lambda>p. json_str (fst p) @ ksep @ json_dumps sk isep ksep (snd p))
       (if sk then sort_key fst d else d)) @ ''}''"
  by (simp add: Let_def sort_key_map [where key = fst and key' = fst] comp_def)

lemma norm_members:
  "json_norm sk (PDict d) = PDict (map (\<lambda>p. (fst p, json_norm sk (snd p))) (if sk then sort_key fst d else d))"
  by (simp add: Let_def sort_key_map [where key = fst and key' = fst])

lemma json_ok_reads_back: "seps_ok isep ksep \<Longrightarrow> json_ok v \<Longrightarrow> reads_back sk isep ksep v"
proof (induction v)
  case PNone
  show ?case by (rule reads_backI) simp
next
  case (PBool b)
  show ?case by (rule reads_backI) simp
next
  case (PInt i)
  then show ?case by (simp add: reads_back_int)
next
  case (PStr s)
  show ?case by (rule reads_backI) (simp add: json_str_Cons scan_json_str)
next
  case (PList xs)
  have rb: "\<forall>x \<in> set xs. reads_back sk isep ksep x" using PList by simp
  show ?case unfolding reads_back_def
  proof (intro allI impI)
    fix n r assume n: "length (json_dumps sk isep ksep (PList xs)) \<le> n"
    then obtain m where m: "n = Suc m" "length (join isep (map (json_dumps sk isep ksep) xs)) < m"
      by (cases n) auto
    show "json_value n (json_dumps sk isep ksep (PList xs) @ r) = JOk (json_norm sk (PList xs)) r"
    proof (cases xs)
      case (Cons y ys)
      obtain c t where c: "json_dumps sk isep ksep y = c # t" "\<not> is_json_space c" "c \<noteq> CHR '']''"
        using dumps_head by blast
      let ?items = "join isep (map (json_dumps sk isep ksep) xs) @ CHR '']'' # r"
      have "skip_ws ?items = ?items" "\<not> startswith ?items '']''"
        using c Cons by (cases ys; simp add: skip_ws_id)+
      moreover have "json_items m ?items = JOk (map (json_norm sk) xs) r"
        by (rule items_read_back [OF PList.prems(1) _ rb m(2)]) (simp add: Cons)
      ultimately show ?thesis using m(1) by simp
    qed (use m in simp)
  qed
next
  case (PDict d)
  let ?ps = "if sk then sort_key fst d else d"
  have same: "set ?ps = set d" by simp
  have rb: "\<forall>p \<in> set ?ps. reads_back sk isep ksep (snd p)"
    using PDict by (auto simp: same)
  have dist: "distinct (map fst ?ps)" using PDict.prems(2) by (simp add: distinct_map)
  show ?case unfolding reads_back_def
  proof (intro allI impI)
    fix n r assume n: "length (json_dumps sk isep ksep (PDict d)) \<le> n"
    let ?items = "join isep (map (\<lambda>p. json_str (fst p) @ ksep @ json_dumps sk isep ksep (snd p)) ?ps)"
    obtain m where m: "n = Suc m" "length ?items < m" using n unfolding dumps_members by (cases n) auto
    have "json_value n (''{'' @ ?items @ ''}'' @ r) =
        JOk (PDict (map (\<lambda>p. (fst p, json_norm sk (snd p))) ?ps)) r"
    proof (cases ?ps)
      case Nil
      then show ?thesis using m(1) by simp
    next
      case (Cons q qs)
      have "skip_ws (?items @ ''}'' @ r) = ?items @ ''}'' @ r" "\<not> startswith (?items @ ''}'' @ r) ''}''"
        unfolding Cons by (cases qs; simp add: json_str_Cons)+
      moreover have "json_members m (?items @ CHR ''}'' # r) = JOk (map (\<lambda>p. (fst p, json_norm sk (snd p))) ?ps) r"
        by (rule members_read_back [OF PDict.prems(1) _ rb m(2)]) (simp add: Cons)
      moreover have "dict_update [] (map (\<lambda>p. (fst p, json_norm sk (snd p))) ?ps) =
          map (\<lambda>p. (fst p, json_norm sk (snd p))) ?ps"
        using dict_update_distinct [of "[]" "map (\<lambda>p. (fst p, json_norm sk (snd p))) ?ps"] dist
        by (simp add: comp_def)
      ultimately show ?thesis using m(1) by simp
    qed
    then show "json_value n (json_dumps sk isep ksep (PDict d) @ r) = JOk (json_norm sk (PDict d)) r"
      unfolding dumps_members norm_members by simp
  qed
qed

lemma json_loads_dumps:
  assumes "seps_ok isep ksep" and "json_ok v"
  shows "json_loads (json_dumps sk isep ksep v) = JOk (json_norm sk v) []"
proof -
  have "json_value (Suc (length (json_dumps sk isep ksep v))) (json_dumps sk isep ksep v @ []) = JOk (json_norm sk v) []"
    by (rule reads_backD [OF json_ok_reads_back [OF assms]]) (simp_all add: ends_value_def)
  moreover have "skip_ws (json_dumps sk isep ksep v) = json_dumps sk isep ksep v"
    using dumps_skip_ws [of sk isep ksep v "[]"] by simp
  ultimately show ?thesis by (simp add: json_loads_def skip_ws_def)
qed

text \<open>A document that is written has neither a line break nor another control character.\<close>

lemma escape_printable: "c \<in> set (json_escape d) \<Longrightarrow> \<not> code c < (32 :: nat)"
proof -
  have "\<not> code (hex_digit n) < (32 :: nat)" if "n < 16" for n
    using that by (auto simp: hex_digit_def)
  moreover have "code d < (256 :: nat)" using nat_of_char_less_256 [of d] by simp
  ultimately show "c \<in> set (json_escape d) \<Longrightarrow> \<not> code c < (32 :: nat)"
    by (auto simp: json_escape_def Let_def split: if_splits)
qed

end
