(* ===== verification/SqlRuns.thy ===== *)
theory SqlRuns
  imports RunTypes Json
begin

text \<open>
  \<open>SQLiteRunRepository\<close> (\<open>persistence/run_repository.py\<close>): the tables \<open>runs\<close> and \<open>run_events\<close>,
  with metadata and payloads as JSON text, long payloads as blobs, and the bindings of tasks
  created and finished in the same transaction as the run.  The clock and fresh identifiers
  are arguments.  A blob file that a transaction writes before it fails is not kept; no row
  refers to such a file.
\<close>

section \<open>JSON columns\<close>

definition json_field :: "(string \<times> pyval) list \<Rightarrow> string" where
  "json_field d = json_dumps True '', '' '': '' (PDict d)"

text \<open>
  \<open>_load_json\<close>; documents with floats are outside the model and fail here as the malformed
  ones do.
\<close>

definition load_json :: "string option \<Rightarrow> pyval result" where
  "load_json t =
     (if \<not> truthy_opt t then Inr PNone
      else (case json_loads (or_empty t) of
              JOk v _ \<Rightarrow> Inr v
            | _ \<Rightarrow> Inl (ValueError ''JSON'')))"

text \<open>\<open>_load_json(t) or {}\<close> where the code goes on with a dictionary.\<close>

definition load_dict :: "string option \<Rightarrow> (string \<times> pyval) list result" where
  "load_dict t =
     bind_result (load_json t) (\<lambda>v.
       case v of PDict d \<Rightarrow> Inr d | _ \<Rightarrow> if py_true v then Inl TypeError else Inr [])"

definition run_from_row :: "run_row \<Rightarrow> run_info result" where
  "run_from_row r =
     map_result
       (\<lambda>md. \<lparr>ri_id = r_id r, ri_conversation_id = r_conversation_id r, ri_kind = r_kind r,
              ri_status = r_status r, ri_created_by = r_created_by r,
              ri_cancellation_parent = r_cancellation_parent r, ri_anchor_node = r_anchor_node r,
              ri_target_node = r_target_node r, ri_summary = r_summary r, ri_metadata = md,
              ri_idempotency_key = r_idempotency_key r, ri_request_fingerprint = r_request_fingerprint r,
              ri_event_count = r_event_count r, ri_created_at = r_created_at r,
              ri_updated_at = r_updated_at r, ri_finished_at = r_finished_at r\<rparr>)
       (load_dict (r_metadata_json r))"

definition run_row_of :: "db \<Rightarrow> string \<Rightarrow> run_row option" where
  "run_row_of d i = fetchone (select (\<lambda>r. r_id r = i) (runs d))"

definition require_run_row :: "db \<Rightarrow> string \<Rightarrow> run_row result" where
  "require_run_row d i = (case run_row_of d i of None \<Rightarrow> Inl (KeyError i) | Some r \<Rightarrow> Inr r)"

section \<open>Statements\<close>

definition has_conversation :: "db \<Rightarrow> string \<Rightarrow> bool" where
  "has_conversation d c = (c \<in> set (conversations d))"

definition insert_run_row :: "run_row \<Rightarrow> db \<Rightarrow> db result" where
  "insert_run_row r d =
     (let c = r_conversation_id r in
      if (r_idempotency_key r = None) \<noteq> (r_request_fingerprint r = None)
      then Inl (IntegrityError ''CHECK constraint failed'')
      else if \<not> has_conversation d c \<or> \<not> opt_ok (has_run d c) (r_created_by r)
         \<or> \<not> opt_ok (has_run d c) (r_cancellation_parent r)
         \<or> \<not> opt_ok (has_node d c) (r_anchor_node r) \<or> \<not> opt_ok (has_node d c) (r_target_node r)
      then Inl (IntegrityError ''FOREIGN KEY constraint failed'')
      else if r_id r \<in> r_id ` set (runs d)
         \<or> (r_idempotency_key r \<noteq> None \<and> r_idempotency_key r \<in> r_idempotency_key ` set (runs d))
      then Inl (IntegrityError ''UNIQUE constraint failed'')
      else Inr (d\<lparr>runs := runs d @ [r]\<rparr>))"

definition update_run_rows :: "string \<Rightarrow> (run_row \<Rightarrow> run_row) \<Rightarrow> db \<Rightarrow> db" where
  "update_run_rows i f d = d\<lparr>runs := update_rows (\<lambda>r. r_id r = i) f (runs d)\<rparr>"

definition insert_event_row :: "run_event_row \<Rightarrow> db \<Rightarrow> db result" where
  "insert_event_row e d =
     (if \<not> has_run d (e_conversation_id e) (e_run_id e) \<or> \<not> has_conversation d (e_conversation_id e)
         \<or> \<not> opt_ok (has_blob d) (e_payload_blob_id e)
      then Inl (IntegrityError ''FOREIGN KEY constraint failed'')
      else if (e_run_id e, e_event_index e) \<in> (\<lambda>x. (e_run_id x, e_event_index x)) ` set (run_events d)
      then Inl (IntegrityError ''UNIQUE constraint failed'')
      else Inr (d\<lparr>run_events := run_events d @ [e\<lparr>e_id := Suc (run_event_seq d)\<rparr>],
                  run_event_seq := Suc (run_event_seq d)\<rparr>))"

text \<open>Deleting runs: what refers to them goes with them or forgets them, as the schema says.\<close>

definition delete_run_rows :: "(run_row \<Rightarrow> bool) \<Rightarrow> db \<Rightarrow> db" where
  "delete_run_rows P d =
     (let gone = r_id ` set (select P (runs d)) in
      d\<lparr>runs := map (\<lambda>r. r\<lparr>r_created_by := forget gone (r_created_by r),
                            r_cancellation_parent := forget gone (r_cancellation_parent r)\<rparr>)
                 (delete_rows P (runs d)),
        run_events := delete_rows (\<lambda>e. e_run_id e \<in> gone) (run_events d),
        tool_call_rows := map (\<lambda>t. t\<lparr>tl_run_id := forget gone (tl_run_id t)\<rparr>) (tool_call_rows d),
        tool_result_rows := map (\<lambda>t. t\<lparr>tz_run_id := forget gone (tz_run_id t)\<rparr>) (tool_result_rows d),
        plans := map (\<lambda>p. p\<lparr>p_entered_run_id := forget gone (p_entered_run_id p),
                             p_approved_run_id := forget gone (p_approved_run_id p),
                             p_blocking_run_id := forget gone (p_blocking_run_id p)\<rparr>) (plans d),
        active_tasks := map (\<lambda>t. t\<lparr>at_created_by_run_id := forget gone (at_created_by_run_id t)\<rparr>) (active_tasks d),
        active_task_steps := map (\<lambda>t. t\<lparr>st_evidence_run_id := forget gone (st_evidence_run_id t)\<rparr>)
                               (active_task_steps d),
        task_run_bindings := delete_rows (\<lambda>b. b_run_id b \<in> gone) (task_run_bindings d),
        task_notifications := map (\<lambda>n. n\<lparr>n_delivery_run_id := forget gone (n_delivery_run_id n)\<rparr>)
                                (delete_rows (\<lambda>n. n_source_run_id n \<in> gone) (task_notifications d))\<rparr>)"

section \<open>Creation\<close>

text \<open>\<open>_insert_run_in_connection\<close>.\<close>

definition insert_run_in_connection :: "string \<Rightarrow> int \<Rightarrow> run_request \<Rightarrow> db \<Rightarrow> db result" where
  "insert_run_in_connection i now q d =
     bind_result (insert_run_row
       \<lparr>r_id = i, r_conversation_id = rq_conversation_id q, r_kind = rq_kind q, r_status = ''running'',
        r_created_by = rq_created_by q, r_cancellation_parent = rq_cancellation_parent q,
        r_anchor_node = rq_anchor_node q, r_target_node = rq_target_node q, r_summary = rq_summary q,
        r_metadata_json = Some (json_field (rq_metadata q)), r_event_count = 0, r_created_at = now,
        r_updated_at = now, r_finished_at = None, r_idempotency_key = rq_idempotency_key q,
        r_request_fingerprint = rq_fingerprint q\<rparr> d) (\<lambda>d1.
     case rq_binding q of
       None \<Rightarrow> Inr d1
     | Some b \<Rightarrow>
         bind_result (bind_run_in_connection now i b d1) (\<lambda>((g, p), d2).
           Inr (update_run_rows i (\<lambda>r. r\<lparr>r_metadata_json := Some (json_field
             (dict_update (rq_metadata q)
               [(''task_generation_id'', PStr g), (''task_step_position'', PInt p)]))\<rparr>) d2)))"

definition is_integrity_error :: "pyerr \<Rightarrow> bool" where
  "is_integrity_error e = (case e of IntegrityError _ \<Rightarrow> True | _ \<Rightarrow> False)"

definition sql_get_run_by_idempotency_key :: "db \<Rightarrow> string \<Rightarrow> run_info option result" where
  "sql_get_run_by_idempotency_key d k =
     (case fetchone (select (\<lambda>r. r_idempotency_key r = Some k) (runs d)) of
        None \<Rightarrow> Inr None
      | Some r \<Rightarrow> map_result Some (run_from_row r))"

definition create_run_body :: "string \<Rightarrow> int \<Rightarrow> run_request \<Rightarrow> db \<Rightarrow> (run_info \<times> db) result" where
  "create_run_body i now q d =
     bind_result (insert_run_in_connection i now q d) (\<lambda>d'.
       case run_row_of d' i of
         None \<Rightarrow> Inl (RuntimeError (''created run '' @ i @ '' is missing''))
       | Some r \<Rightarrow> map_result (\<lambda>x. (x, d')) (run_from_row r))"

definition sql_create_or_get_run ::
  "string \<Rightarrow> int \<Rightarrow> run_request \<Rightarrow> db \<Rightarrow> (run_info \<times> bool) result \<times> db" where
  "sql_create_or_get_run uuid now q d =
     (if (rq_idempotency_key q = None) \<noteq> (rq_fingerprint q = None)
      then (Inl (ValueError ''idempotency key and request fingerprint must be provided together''), d)
      else
        case transaction (create_run_body uuid now q) d of
          (Inr r, d') \<Rightarrow> (Inr (r, True), d')
        | (Inl e, d') \<Rightarrow>
            if \<not> is_integrity_error e then (Inl e, d')
            else
              (case rq_idempotency_key q of
                 None \<Rightarrow> (Inl e, d')
               | Some k \<Rightarrow>
                   (case sql_get_run_by_idempotency_key d' k of
                      Inl e' \<Rightarrow> (Inl e', d')
                    | Inr None \<Rightarrow> (Inl e, d')
                    | Inr (Some existing) \<Rightarrow>
                        if ri_request_fingerprint existing \<noteq> rq_fingerprint q
                        then (Inl (RunIdempotencyConflictError (ri_id existing)), d')
                        else (Inr (existing, False), d'))))"

definition sql_create_run :: "string \<Rightarrow> int \<Rightarrow> run_request \<Rightarrow> db \<Rightarrow> string result \<times> db" where
  "sql_create_run uuid now q d =
     (case sql_create_or_get_run uuid now (q\<lparr>rq_idempotency_key := None, rq_fingerprint := None\<rparr>) d of
        (Inl e, d') \<Rightarrow> (Inl e, d')
      | (Inr (r, created), d') \<Rightarrow>
          if created then (Inr (ri_id r), d')
          else (Inl (RuntimeError ''non-idempotent run creation returned an existing run''), d'))"

text \<open>\<open>validate_run_references\<close>.\<close>

definition reference_error :: "db \<Rightarrow> string \<Rightarrow> string \<Rightarrow> pyerr" where
  "reference_error d k i =
     (if has_conversation d i \<or> i \<in> nd_id ` set (nodes d) \<or> i \<in> r_id ` set (runs d)
      then RunReferenceConversationMismatchError k i
      else RunReferenceNotFoundError k i)"

definition validate_reference :: "db \<Rightarrow> string option \<Rightarrow> string \<Rightarrow> string \<Rightarrow> string \<Rightarrow> unit result" where
  "validate_reference d owner c k i =
     (case owner of
        None \<Rightarrow> Inl (reference_error d k i)
      | Some c' \<Rightarrow> if c' \<noteq> c then Inl (RunReferenceConversationMismatchError k i) else Inr ())"

definition validate_run_reference :: "db \<Rightarrow> string \<Rightarrow> string \<Rightarrow> string option \<Rightarrow> unit result" where
  "validate_run_reference d c k i =
     (case i of
        None \<Rightarrow> Inr ()
      | Some j \<Rightarrow> validate_reference d (map_option r_conversation_id (run_row_of d j)) c k j)"

definition validate_run_references ::
  "db \<Rightarrow> string \<Rightarrow> string option \<Rightarrow> string option \<Rightarrow> string option \<Rightarrow> unit result" where
  "validate_run_references d c anchor created_by parent =
     bind_result
       (if has_conversation d c then Inr () else Inl (reference_error d ''conversation_id'' c)) (\<lambda>_.
     bind_result
       (case anchor of
          None \<Rightarrow> Inr ()
        | Some n \<Rightarrow> validate_reference d
            (map_option nd_conversation_id (fetchone (select (\<lambda>r. nd_id r = n) (nodes d)))) c ''anchor_node_id'' n) (\<lambda>_.
     bind_result (validate_run_reference d c ''created_by_run_id'' created_by) (\<lambda>_.
       validate_run_reference d c ''cancellation_parent_run_id'' parent)))"

section \<open>Reading\<close>

definition sql_get_run :: "db \<Rightarrow> string \<Rightarrow> run_info option result" where
  "sql_get_run d i =
     (case run_row_of d i of None \<Rightarrow> Inr None | Some r \<Rightarrow> map_result Some (run_from_row r))"

definition runs_in_order :: "(run_row \<Rightarrow> bool) \<Rightarrow> db \<Rightarrow> run_row list" where
  "runs_in_order P d = sort_key (\<lambda>r. (r_created_at r, r_id r)) (select P (runs d))"

definition sql_list_runs :: "db \<Rightarrow> string option \<Rightarrow> run_info list result" where
  "sql_list_runs d c =
     mapM_result run_from_row (runs_in_order (\<lambda>r. c = None \<or> Some (r_conversation_id r) = c) d)"

definition sql_list_active :: "db \<Rightarrow> string option \<Rightarrow> run_info list result" where
  "sql_list_active d c =
     mapM_result run_from_row
       (runs_in_order (\<lambda>r. \<not> is_finished (r_status r) \<and> (c = None \<or> Some (r_conversation_id r) = c)) d)"

definition event_from_row :: "codec \<Rightarrow> db \<Rightarrow> run_event_row \<Rightarrow> run_event result" where
  "event_from_row E d e =
     bind_result
       (case e_payload_inline e of
          Some t \<Rightarrow> Inr (Some t)
        | None \<Rightarrow>
            if truthy_opt (e_payload_blob_id e)
            then map_result Some (get_text E d (or_empty (e_payload_blob_id e)))
            else Inr None) (\<lambda>text.
     map_result
       (\<lambda>p. \<lparr>ev_id = e_id e, ev_run_id = e_run_id e, ev_conversation_id = e_conversation_id e,
             ev_event_index = e_event_index e, ev_event_type = e_event_type e, ev_payload = p,
             ev_payload_inline = e_payload_inline e, ev_payload_blob_id = e_payload_blob_id e,
             ev_created_at = e_created_at e\<rparr>)
       (load_dict text))"

definition events_of_run :: "db \<Rightarrow> string \<Rightarrow> run_event_row list" where
  "events_of_run d i = sort_key e_event_index (select (\<lambda>e. e_run_id e = i) (run_events d))"

definition sql_read_events :: "codec \<Rightarrow> db \<Rightarrow> string \<Rightarrow> int \<Rightarrow> run_event list result" where
  "sql_read_events E d i from_event =
     mapM_result (event_from_row E d)
       (filter (\<lambda>e. max 0 from_event \<le> int (e_event_index e)) (events_of_run d i))"

section \<open>Events\<close>

definition insert_indexed_event ::
  "codec \<Rightarrow> run_row \<Rightarrow> nat \<Rightarrow> (string \<times> pyval) list \<Rightarrow> int \<Rightarrow> db \<Rightarrow> (run_event_row \<times> db) result" where
  "insert_indexed_event E r n source at d =
     (let payload = event_payload (r_id r) (r_conversation_id r) (r_kind r) (r_target_node r) n source in
      bind_result (store_text_content E (json_field payload) d) (\<lambda>(stored, d1).
      let e = \<lparr>e_id = Suc (run_event_seq d1), e_run_id = r_id r, e_conversation_id = r_conversation_id r,
               e_event_index = n, e_event_type = event_type_of payload, e_payload_inline = s_inline stored,
               e_payload_blob_id = s_blob_id stored, e_created_at = at\<rparr> in
      map_result (Pair e) (insert_event_row e d1)))"

definition append_event_in_connection ::
  "codec \<Rightarrow> int \<Rightarrow> string \<Rightarrow> (string \<times> pyval) list \<Rightarrow> db \<Rightarrow> (run_event_row \<times> db) result" where
  "append_event_in_connection E now i payload d =
     bind_result (require_run_row d i) (\<lambda>r.
     bind_result (insert_indexed_event E r (r_event_count r) payload now d) (\<lambda>(e, d1).
       Inr (e, update_run_rows i (\<lambda>r. r\<lparr>r_event_count := Suc (r_event_count r), r_updated_at := now\<rparr>) d1)))"

fun append_all_in_connection ::
  "codec \<Rightarrow> int \<Rightarrow> string \<Rightarrow> (string \<times> pyval) list list \<Rightarrow> db \<Rightarrow> (run_event_row list \<times> db) result" where
  "append_all_in_connection E now i [] d = Inr ([], d)"
| "append_all_in_connection E now i (p # ps) d =
     bind_result (append_event_in_connection E now i p d) (\<lambda>(e, d1).
     bind_result (append_all_in_connection E now i ps d1) (\<lambda>(es, d2). Inr (e # es, d2)))"

definition sql_append_event ::
  "codec \<Rightarrow> int \<Rightarrow> string \<Rightarrow> (string \<times> pyval) list \<Rightarrow> db \<Rightarrow> run_event result \<times> db" where
  "sql_append_event E now i payload d =
     (case transaction (append_event_in_connection E now i payload) d of
        (Inl e, d') \<Rightarrow> (Inl e, d')
      | (Inr row, d') \<Rightarrow> (event_from_row E d' row, d'))"

definition sql_append_events ::
  "codec \<Rightarrow> int \<Rightarrow> string \<Rightarrow> (string \<times> pyval) list list \<Rightarrow> db \<Rightarrow> run_event list result \<times> db" where
  "sql_append_events E now i payloads d =
     (if payloads = [] then (Inr [], d)
      else
        case transaction (append_all_in_connection E now i payloads) d of
          (Inl e, d') \<Rightarrow> (Inl e, d')
        | (Inr rows, d') \<Rightarrow> (mapM_result (event_from_row E d') rows, d'))"

text \<open>\<open>append_indexed_events\<close>: the events must continue the count without a gap.\<close>

record indexed_event =
  ie_index :: int
  ie_payload :: "(string \<times> pyval) list"
  ie_created_at :: "int option"

definition or_now :: "int \<Rightarrow> int option \<Rightarrow> int" where
  "or_now now x = (case x of None \<Rightarrow> now | Some t \<Rightarrow> if t = 0 then now else t)"

fun insert_in_sequence ::
  "codec \<Rightarrow> int \<Rightarrow> run_row \<Rightarrow> nat \<Rightarrow> indexed_event list \<Rightarrow> db \<Rightarrow> (run_event_row list \<times> db) result" where
  "insert_in_sequence E now r n [] d = Inr ([], d)"
| "insert_in_sequence E now r n (x # xs) d =
     (if ie_index x \<noteq> int n
      then Inl (ValueError (''run '' @ r_id r @ '' expected event_index '' @ int_str (int n) @ '', got '' @ int_str (ie_index x)))
      else
        bind_result (insert_indexed_event E r n (ie_payload x) (or_now now (ie_created_at x)) d) (\<lambda>(e, d1).
        bind_result (insert_in_sequence E now r (Suc n) xs d1) (\<lambda>(es, d2). Inr (e # es, d2))))"

definition append_indexed_body ::
  "codec \<Rightarrow> int \<Rightarrow> string \<Rightarrow> indexed_event list \<Rightarrow> db \<Rightarrow> (run_event_row list \<times> db) result" where
  "append_indexed_body E now i xs d =
     (let ordered = sort_key ie_index xs in
      bind_result (require_run_row d i) (\<lambda>r.
      bind_result (insert_in_sequence E now r (r_event_count r) ordered d) (\<lambda>(es, d1).
        Inr (es, update_run_rows i
          (\<lambda>r. r\<lparr>r_event_count := r_event_count r + length ordered,
                 r_updated_at := or_now now (ie_created_at (last ordered))\<rparr>) d1))))"

definition sql_append_indexed_events ::
  "codec \<Rightarrow> int \<Rightarrow> string \<Rightarrow> indexed_event list \<Rightarrow> db \<Rightarrow> run_event list result \<times> db" where
  "sql_append_indexed_events E now i xs d =
     (if xs = [] then (Inr [], d)
      else
        case transaction (append_indexed_body E now i xs) d of
          (Inl e, d') \<Rightarrow> (Inl e, d')
        | (Inr rows, d') \<Rightarrow> (mapM_result (event_from_row E d') rows, d'))"

section \<open>Changes\<close>

definition update_run_and_read ::
  "string \<Rightarrow> (run_row \<Rightarrow> run_row) \<Rightarrow> (run_row \<Rightarrow> bool) \<Rightarrow> db \<Rightarrow> run_info result \<times> db" where
  "update_run_and_read i f refs_ok d =
     (case transaction (\<lambda>d.
        case run_row_of d i of
          None \<Rightarrow> Inl (KeyError i)
        | Some r \<Rightarrow>
            if \<not> refs_ok r then Inl (IntegrityError ''FOREIGN KEY constraint failed'')
            else Inr (f r, update_run_rows i f d)) d of
        (Inl e, d') \<Rightarrow> (Inl e, d')
      | (Inr r, d') \<Rightarrow> (run_from_row r, d'))"

definition sql_update_target_node :: "int \<Rightarrow> string \<Rightarrow> string \<Rightarrow> db \<Rightarrow> run_info result \<times> db" where
  "sql_update_target_node now i nd d =
     update_run_and_read i (\<lambda>r. r\<lparr>r_target_node := Some nd, r_updated_at := now\<rparr>)
       (\<lambda>r. has_node d (r_conversation_id r) nd) d"

definition sql_update_anchor_node :: "int \<Rightarrow> string \<Rightarrow> string \<Rightarrow> db \<Rightarrow> run_info result \<times> db" where
  "sql_update_anchor_node now i nd d =
     update_run_and_read i (\<lambda>r. r\<lparr>r_anchor_node := Some nd, r_updated_at := now\<rparr>)
       (\<lambda>r. has_node d (r_conversation_id r) nd) d"

definition sql_update_cancellation_parent :: "int \<Rightarrow> string \<Rightarrow> string option \<Rightarrow> db \<Rightarrow> run_info result \<times> db" where
  "sql_update_cancellation_parent now i parent d =
     update_run_and_read i (\<lambda>r. r\<lparr>r_cancellation_parent := parent, r_updated_at := now\<rparr>)
       (\<lambda>r. opt_ok (has_run d (r_conversation_id r)) parent) d"

definition sql_update_status :: "int \<Rightarrow> string \<Rightarrow> string \<Rightarrow> db \<Rightarrow> run_info result \<times> db" where
  "sql_update_status now i st d =
     (let d' = d\<lparr>runs := update_rows (\<lambda>r. r_id r = i \<and> \<not> is_finished (r_status r))
                 (\<lambda>r. r\<lparr>r_status := st, r_updated_at := now\<rparr>) (runs d)\<rparr> in
      (bind_result (require_run_row d' i) run_from_row, d'))"

definition merge_metadata_body ::
  "int \<Rightarrow> string \<Rightarrow> (string \<times> pyval) list \<Rightarrow> db \<Rightarrow> (run_row \<times> db) result" where
  "merge_metadata_body now i md d =
     bind_result (require_run_row d i) (\<lambda>r.
     map_result (\<lambda>old.
       let f = (\<lambda>r. r\<lparr>r_metadata_json := Some (json_field (dict_update old md)), r_updated_at := now\<rparr>)
       in (f r, update_run_rows i f d))
       (load_dict (r_metadata_json r)))"

definition sql_merge_metadata ::
  "int \<Rightarrow> string \<Rightarrow> (string \<times> pyval) list \<Rightarrow> db \<Rightarrow> run_info result \<times> db" where
  "sql_merge_metadata now i md d =
     (case transaction (merge_metadata_body now i md) d of
        (Inl e, d') \<Rightarrow> (Inl e, d')
      | (Inr r, d') \<Rightarrow> (run_from_row r, d'))"

definition sql_request_stop :: "codec \<Rightarrow> int \<Rightarrow> string \<Rightarrow> db \<Rightarrow> bool result \<times> db" where
  "sql_request_stop E now i d =
     (case run_row_of d i of
        None \<Rightarrow> (Inr False, d)
      | Some r \<Rightarrow>
          if is_finished (r_status r) then (Inr False, d)
          else
            let d1 = update_run_rows i (\<lambda>r. r\<lparr>r_status := ''stopping'', r_updated_at := now\<rparr>) d in
            case sql_append_event E now i
                [(''type'', PStr ''run_stop_requested''), (''run_id'', PStr i), (''status'', PStr ''stopping'')] d1 of
              (Inl e, d2) \<Rightarrow> (Inl e, d2)
            | (Inr _, d2) \<Rightarrow> (Inr True, d2))"

definition sql_delete_run :: "string \<Rightarrow> db \<Rightarrow> db" where
  "sql_delete_run i d = snd (reclaim_blobs (delete_run_rows (\<lambda>r. r_id r = i) d))"

definition delete_runs_for_deleted_nodes :: "string \<Rightarrow> string list \<Rightarrow> db \<Rightarrow> nat \<times> db" where
  "delete_runs_for_deleted_nodes c node_ids d =
     (let over = (\<lambda>r. r_conversation_id r = c \<and> is_finished (r_status r));
          P = (\<lambda>r. over r \<and> (r_target_node r \<in> Some ` set node_ids \<or> r_anchor_node r \<in> Some ` set node_ids));
          Q = (\<lambda>r. over r \<and> r_target_node r = None);
          d1 = (if node_ids = [] then d else delete_run_rows P d);
          n1 = (if node_ids = [] then 0 else rowcount P (runs d));
          d2 = delete_run_rows Q d1;
          n = n1 + rowcount Q (runs d1) in
      (n, if n = 0 then d2 else snd (reclaim_blobs d2)))"

section \<open>Finishing a run\<close>

definition TERMINAL_RESULT_EVENT_TYPES :: "(string \<times> string list) list" where
  "TERMINAL_RESULT_EVENT_TYPES =
     [(''command'', [''command_exited'', ''command_stopped'', ''command_error'']),
      (''subagent'', [''subagent_result'', ''subagent_error'']),
      (''workflow_step'', [''subagent_result'', ''subagent_error'']),
      (''workflow'', [''workflow_result'', ''workflow_error'', ''workflow_cancelled''])]"

text \<open>The payload of the newest event of the kind's result types, or the empty dictionary.\<close>

definition terminal_result :: "codec \<Rightarrow> db \<Rightarrow> run_row \<Rightarrow> (string \<times> pyval) list result" where
  "terminal_result E d r =
     (let types = (case map_of TERMINAL_RESULT_EVENT_TYPES (r_kind r) of None \<Rightarrow> [] | Some ts \<Rightarrow> ts) in
      case fetchone (rev (filter (\<lambda>e. e_event_type e \<in> set types) (events_of_run d (r_id r)))) of
        None \<Rightarrow> Inr []
      | Some e \<Rightarrow>
          bind_result
            (case e_payload_inline e of
               Some t \<Rightarrow> Inr (Some t)
             | None \<Rightarrow>
                 if truthy_opt (e_payload_blob_id e)
                 then map_result Some (get_text E d (or_empty (e_payload_blob_id e)))
                 else Inr None)
            load_dict)"

definition terminal_event ::
  "run_row \<Rightarrow> string \<Rightarrow> string option \<Rightarrow> int \<Rightarrow> (string \<times> pyval) list \<Rightarrow> (string \<times> pyval) list" where
  "terminal_event r st err now result =
     [(''type'', PStr ''run_finished''), (''run_id'', PStr (r_id r)),
      (''conversation_id'', PStr (r_conversation_id r)), (''kind'', PStr (r_kind r)),
      (''target_node_id'', of_opt (r_target_node r)), (''status'', PStr st), (''error'', of_opt err),
      (''finished_at'', PInt now)]
     @ (if result = [] then [] else [(''terminal_result'', PDict result)])"

text \<open>
  The transaction of \<open>finish_run\<close> for a run that is not finished: the binding of its task is
  finished, the row gets its final status, and the events are replaced by one that says how
  the run ended.  The task repository is there exactly if \<open>with_tasks\<close>.
\<close>

definition finish_run_body ::
  "codec \<Rightarrow> bool \<Rightarrow> int \<Rightarrow> string \<Rightarrow> string option \<Rightarrow> run_row \<Rightarrow> db \<Rightarrow> (run_row \<times> db) result" where
  "finish_run_body E with_tasks now st err r d =
     (let i = r_id r in
      bind_result (terminal_result E d r) (\<lambda>result.
      bind_result (load_dict (r_metadata_json r)) (\<lambda>md0.
      let md = (if truthy_opt err then dict_set ''error'' (PStr (or_empty err)) md0 else md0) in
      bind_result
        (if with_tasks then finish_run_binding_in_connection E now i st err (r_summary r) d else Inr (None, d))
        (\<lambda>(outcome, d1).
      let md' = (case outcome of None \<Rightarrow> md | Some v \<Rightarrow> dict_set ''task_outcome'' v md);
          d2 = update_run_rows i (\<lambda>r. r\<lparr>r_status := st, r_metadata_json := Some (json_field md'),
                 r_finished_at := Some now, r_updated_at := now\<rparr>) d1;
          d3 = d2\<lparr>run_events := delete_rows (\<lambda>e. e_run_id e = i) (run_events d2)\<rparr> in
      bind_result (append_event_in_connection E now i (terminal_event r st err now result) d3) (\<lambda>(_, d4).
        map_result (\<lambda>r'. (r', d4)) (require_run_row d4 i))))))"

definition sql_finish_run ::
  "codec \<Rightarrow> bool \<Rightarrow> int \<Rightarrow> string \<Rightarrow> string \<Rightarrow> string option \<Rightarrow> db \<Rightarrow> run_info result \<times> db" where
  "sql_finish_run E with_tasks now i st err d =
     (case require_run_row d i of
        Inl e \<Rightarrow> (Inl e, d)
      | Inr r \<Rightarrow>
          if is_finished (r_status r) then (run_from_row r, d)
          else
            case transaction (finish_run_body E with_tasks now st err r) d of
              (Inl e, d') \<Rightarrow> (Inl e, d')
            | (Inr r', d') \<Rightarrow>
                (case run_from_row r' of
                   Inl e \<Rightarrow> (Inl e, d)
                 | Inr x \<Rightarrow> (Inr x, snd (reclaim_blobs d'))))"

fun sql_finish_all :: "codec \<Rightarrow> bool \<Rightarrow> int \<Rightarrow> string list \<Rightarrow> db \<Rightarrow> unit result \<times> db" where
  "sql_finish_all E with_tasks now [] d = (Inr (), d)"
| "sql_finish_all E with_tasks now (i # is) d =
     (case sql_finish_run E with_tasks now i ''interrupted'' (Some ''interrupted on startup'') d of
        (Inl e, d') \<Rightarrow> (Inl e, d')
      | (Inr _, d') \<Rightarrow> sql_finish_all E with_tasks now is d')"

definition sql_mark_unfinished_as_interrupted ::
  "codec \<Rightarrow> bool \<Rightarrow> int \<Rightarrow> db \<Rightarrow> string list result \<times> db" where
  "sql_mark_unfinished_as_interrupted E with_tasks now d =
     (let is = map r_id (runs_in_order (\<lambda>r. \<not> is_finished (r_status r)) d) in
      case sql_finish_all E with_tasks now is d of
        (Inl e, d') \<Rightarrow> (Inl e, d')
      | (Inr _, d') \<Rightarrow> (Inr is, d'))"

end
