(* ===== verification/RunStore.thy ===== *)
theory RunStore
  imports MemRuns SqlRuns
begin

text \<open>
  The contract of a run repository (the protocol \<open>RunRepository\<close> in \<open>runs/repository.py\<close>) as a
  locale, and what its clients may rely on after any sequence of operations.  Both
  repositories satisfy it: the dictionaries of \<open>MemRuns\<close> and the tables of \<open>SqlRuns\<close>.
\<close>

section \<open>The contract\<close>

text \<open>What of a run the contract speaks about.\<close>

record run_core =
  rc_conversation_id :: string
  rc_kind :: string
  rc_status :: string
  rc_key :: "string option"
  rc_fingerprint :: "string option"
  rc_created_at :: int
  rc_finished_at :: "int option"
  rc_event_count :: nat

text \<open>
  The operations that change a repository.  \<open>create_run\<close> is \<open>CreateRun\<close> of a request without a
  key; only SQLite has the last two.
\<close>

datatype run_op =
    CreateRun string run_request
  | AppendEvent string "(string \<times> pyval) list"
  | AppendEvents string "(string \<times> pyval) list list"
  | FinishRun string string "string option"
  | RequestStop string
  | UpdateStatus string string
  | MergeMetadata string "(string \<times> pyval) list"
  | UpdateTarget string string
  | UpdateAnchor string string
  | UpdateParent string "string option"
  | MarkInterrupted
  | DeleteRun string
  | AppendIndexed string "indexed_event list"
  | DeleteForNodes string "string list"

text \<open>Whether an operation may delete a run; \<open>delete_runs_for_deleted_nodes\<close> names none.\<close>

definition deletes :: "run_op \<Rightarrow> string \<Rightarrow> bool" where
  "deletes op i = (case op of DeleteRun j \<Rightarrow> j = i | DeleteForNodes c ns \<Rightarrow> True | _ \<Rightarrow> False)"

text \<open>How a run may change while it exists.\<close>

definition run_change :: "run_core \<Rightarrow> run_core \<Rightarrow> bool" where
  "run_change r r' =
     (rc_conversation_id r' = rc_conversation_id r \<and> rc_kind r' = rc_kind r \<and> rc_key r' = rc_key r \<and>
      rc_fingerprint r' = rc_fingerprint r \<and> rc_created_at r' = rc_created_at r \<and>
      rc_event_count r \<le> rc_event_count r' \<and>
      (is_finished (rc_status r) \<longrightarrow> rc_status r' = rc_status r \<and> rc_finished_at r' = rc_finished_at r))"

lemma run_change_refl [simp]: "run_change r r"
  by (simp add: run_change_def)

lemma run_change_trans: "run_change r r' \<Longrightarrow> run_change r' r'' \<Longrightarrow> run_change r r''"
  by (auto simp: run_change_def)

locale run_store =
  fixes view :: "'s \<Rightarrow> string \<Rightarrow> run_core option"
    and inv :: "'s \<Rightarrow> bool"
    and admissible :: "'s \<Rightarrow> run_op \<Rightarrow> bool"
    and exec :: "int \<Rightarrow> run_op \<Rightarrow> 's \<Rightarrow> 's"
    and create :: "string \<Rightarrow> int \<Rightarrow> run_request \<Rightarrow> 's \<Rightarrow> (run_info \<times> bool) result \<times> 's"
  assumes exec_inv: "inv s \<Longrightarrow> admissible s op \<Longrightarrow> inv (exec now op s)"
    and exec_change: "inv s \<Longrightarrow> admissible s op \<Longrightarrow> view s i = Some r \<Longrightarrow>
      view (exec now op s) i = Some r' \<Longrightarrow> run_change r r'"
    and exec_keeps: "inv s \<Longrightarrow> admissible s op \<Longrightarrow> view s i = Some r \<Longrightarrow> \<not> deletes op i \<Longrightarrow>
      view (exec now op s) i \<noteq> None"
    and keys_unique: "inv s \<Longrightarrow> view s i = Some r \<Longrightarrow> view s j = Some r' \<Longrightarrow> rc_key r = Some k \<Longrightarrow>
      rc_key r' = Some k \<Longrightarrow> i = j"
    and create_known: "inv s \<Longrightarrow> view s i = Some r \<Longrightarrow> rc_key r = rq_idempotency_key q \<Longrightarrow>
      rq_idempotency_key q \<noteq> None \<Longrightarrow>
      snd (create uuid now q s) = s \<and>
      (\<forall>x b. fst (create uuid now q s) = Inr (x, b) \<longrightarrow> \<not> b \<and> ri_id x = i \<and> rq_fingerprint q = rc_fingerprint r)"
    and create_view: "inv s \<Longrightarrow> admissible s (CreateRun uuid q) \<Longrightarrow> create uuid now q s = (Inr (x, b), s') \<Longrightarrow>
      exec now (CreateRun uuid q) s = s' \<and>
      (\<exists>r. view s' (ri_id x) = Some r \<and> rc_key r = rq_idempotency_key q \<and> rc_fingerprint r = rq_fingerprint q)"
begin

fun exec_all :: "(int \<times> run_op) list \<Rightarrow> 's \<Rightarrow> 's" where
  "exec_all [] s = s"
| "exec_all (e # es) s = exec_all es (exec (fst e) (snd e) s)"

fun all_admissible :: "(int \<times> run_op) list \<Rightarrow> 's \<Rightarrow> bool" where
  "all_admissible [] s = True"
| "all_admissible (e # es) s = (admissible s (snd e) \<and> all_admissible es (exec (fst e) (snd e) s))"

lemma exec_all_inv: "inv s \<Longrightarrow> all_admissible es s \<Longrightarrow> inv (exec_all es s)"
  by (induction es arbitrary: s) (auto intro: exec_inv)

text \<open>The run is there before the operations and after each of them.\<close>

fun survives :: "(int \<times> run_op) list \<Rightarrow> 's \<Rightarrow> string \<Rightarrow> bool" where
  "survives [] s i = (view s i \<noteq> None)"
| "survives (e # es) s i = (view s i \<noteq> None \<and> survives es (exec (fst e) (snd e) s) i)"

lemma survives_first: "survives es s i \<Longrightarrow> \<exists>r. view s i = Some r"
  by (cases es) auto

lemma not_deleted_survives:
  assumes "inv s" and "all_admissible es s" and "view s i \<noteq> None" and "\<forall>e \<in> set es. \<not> deletes (snd e) i"
  shows "survives es s i"
  using assms
proof (induction es arbitrary: s)
  case (Cons e es)
  obtain r where r: "view s i = Some r" using Cons.prems(3) by blast
  have adm: "admissible s (snd e)" "all_admissible es (exec (fst e) (snd e) s)" using Cons.prems(2) by simp_all
  have "view (exec (fst e) (snd e) s) i \<noteq> None"
    by (rule exec_keeps [OF Cons.prems(1) adm(1) r]) (use Cons.prems(4) in simp)
  then have "survives es (exec (fst e) (snd e) s) i"
    by (rule Cons.IH [OF exec_inv [OF Cons.prems(1) adm(1)] adm(2)]) (use Cons.prems(4) in simp)
  then show ?case using r by simp
qed simp

lemma exec_all_change:
  assumes "inv s" and "all_admissible es s" and "view s i = Some r" and "survives es s i"
  shows "\<exists>r'. view (exec_all es s) i = Some r' \<and> run_change r r'"
  using assms
proof (induction es arbitrary: s r)
  case (Cons e es)
  have sv: "survives es (exec (fst e) (snd e) s) i" using Cons.prems(4) by simp
  obtain r1 where r1: "view (exec (fst e) (snd e) s) i = Some r1" using survives_first [OF sv] by blast
  have ch: "run_change r r1" using exec_change [OF Cons.prems(1) _ Cons.prems(3) r1] Cons.prems(2) by simp
  have "inv (exec (fst e) (snd e) s)" using exec_inv Cons.prems(1,2) by simp
  then obtain r2 where "view (exec_all es (exec (fst e) (snd e) s)) i = Some r2" "run_change r1 r2"
    using Cons.IH [OF _ _ r1 sv] Cons.prems(2) by auto
  then show ?case using run_change_trans [OF ch] by auto
qed simp

text \<open>A finished run keeps its status and time whatever happens to it.\<close>

lemma finished_is_final:
  assumes "inv s" and "all_admissible es s" and "view s i = Some r" and "is_finished (rc_status r)"
    and "survives es s i"
  shows "\<exists>r'. view (exec_all es s) i = Some r' \<and> rc_status r' = rc_status r \<and> rc_finished_at r' = rc_finished_at r"
  using exec_all_change [OF assms(1-3,5)] assms(4) by (auto simp: run_change_def)

text \<open>A key creates one run: while the run exists, the same key never creates another.\<close>

lemma key_creates_once:
  assumes "inv s" and "all_admissible es s" and "view s i = Some r" and "rc_key r = rq_idempotency_key q"
    and "rq_idempotency_key q \<noteq> None" and "survives es s i"
  shows "snd (create uuid now q (exec_all es s)) = exec_all es s \<and>
    (\<forall>x b. fst (create uuid now q (exec_all es s)) = Inr (x, b) \<longrightarrow>
       \<not> b \<and> ri_id x = i \<and> rq_fingerprint q = rc_fingerprint r)"
proof -
  obtain r' where r': "view (exec_all es s) i = Some r'" "run_change r r'"
    using exec_all_change [OF assms(1-3,6)] by blast
  have k: "rc_key r' = rq_idempotency_key q" "rc_fingerprint r' = rc_fingerprint r"
    using r'(2) assms(4) by (simp_all add: run_change_def)
  show ?thesis
    using create_known [OF exec_all_inv [OF assms(1,2)] r'(1) k(1) assms(5), of uuid now] unfolding k(2) .
qed

lemma replay_returns_the_run:
  assumes "inv s" and "admissible s (CreateRun uuid q)" and "create uuid now q s = (Inr (x, b), s1)"
    and "rq_idempotency_key q \<noteq> None" and "all_admissible es s1" and "survives es s1 (ri_id x)"
    and "rq_idempotency_key q' = rq_idempotency_key q" and "s2 = exec_all es s1"
  shows "snd (create uuid' now' q' s2) = s2 \<and>
    (\<forall>y b'. fst (create uuid' now' q' s2) = Inr (y, b') \<longrightarrow>
       \<not> b' \<and> ri_id y = ri_id x \<and> rq_fingerprint q' = rq_fingerprint q)"
proof -
  obtain r where r: "view s1 (ri_id x) = Some r" "rc_key r = rq_idempotency_key q" "rc_fingerprint r = rq_fingerprint q"
    and s1: "exec now (CreateRun uuid q) s = s1"
    using create_view [OF assms(1-3)] by blast
  have inv: "inv s1" using exec_inv [OF assms(1,2), of now] s1 by simp
  have k: "rc_key r = rq_idempotency_key q'" using r(2) assms(7) by simp
  have ne: "rq_idempotency_key q' \<noteq> None" using assms(4,7) by simp
  show ?thesis
    using key_creates_once [OF inv assms(5) r(1) k ne assms(6), of uuid' now'] unfolding assms(8) r(3) .
qed

end

section \<open>The repository in memory\<close>

definition core_of :: "run_info \<Rightarrow> run_core" where
  "core_of r =
     \<lparr>rc_conversation_id = ri_conversation_id r, rc_kind = ri_kind r, rc_status = ri_status r,
      rc_key = ri_idempotency_key r, rc_fingerprint = ri_request_fingerprint r,
      rc_created_at = ri_created_at r, rc_finished_at = ri_finished_at r, rc_event_count = ri_event_count r\<rparr>"

definition mem_view :: "mem_runs \<Rightarrow> string \<Rightarrow> run_core option" where
  "mem_view s i = map_option core_of (mem_get_run s i)"

fun mem_exec :: "int \<Rightarrow> run_op \<Rightarrow> mem_runs \<Rightarrow> mem_runs" where
  "mem_exec now (CreateRun uuid q) s = snd (mem_create_or_get_run uuid now q s)"
| "mem_exec now (AppendEvent i p) s = snd (mem_append_event now i p s)"
| "mem_exec now (AppendEvents i ps) s = snd (mem_append_events now i ps s)"
| "mem_exec now (FinishRun i st err) s = snd (mem_finish_run now i st err s)"
| "mem_exec now (RequestStop i) s = snd (mem_request_stop now i s)"
| "mem_exec now (UpdateStatus i st) s = snd (mem_update_status now i st s)"
| "mem_exec now (MergeMetadata i md) s = snd (mem_merge_metadata now i md s)"
| "mem_exec now (UpdateTarget i nd) s = snd (mem_update_target_node now i nd s)"
| "mem_exec now (UpdateAnchor i nd) s = snd (mem_update_anchor_node now i nd s)"
| "mem_exec now (UpdateParent i p) s = snd (mem_update_cancellation_parent now i p s)"
| "mem_exec now MarkInterrupted s = snd (mem_mark_unfinished_as_interrupted now s)"
| "mem_exec now (DeleteRun i) s = mem_delete_run i s"
| "mem_exec now (AppendIndexed i xs) s = s"
| "mem_exec now (DeleteForNodes c ns) s = s"

text \<open>
  A fresh identifier; the database refuses one in use, the dictionary would overwrite it.  The
  class has no method for the last two operations, so no caller reaches them.
\<close>

fun mem_admissible :: "mem_runs \<Rightarrow> run_op \<Rightarrow> bool" where
  "mem_admissible s (CreateRun uuid q) = (mem_get_run s (''run_'' @ uuid) = None)"
| "mem_admissible s (AppendIndexed i xs) = False"
| "mem_admissible s (DeleteForNodes c ns) = False"
| "mem_admissible s op = True"

text \<open>
  Runs are stored under their ids, the keys lead to the runs that have them, and the events of
  a run are numbered from zero to its count.
\<close>

definition events_ok :: "run_info \<Rightarrow> run_event list \<Rightarrow> bool" where
  "events_ok r es =
     (ri_event_count r = length es \<and> map ev_event_index es = [0..<length es] \<and>
      (\<forall>e \<in> set es. ev_run_id e = ri_id r))"

definition mem_runs_inv :: "mem_runs \<Rightarrow> bool" where
  "mem_runs_inv s =
     ((\<forall>i r. map_of (m_runs s) i = Some r \<longrightarrow> ri_id r = i \<and> events_ok r (mem_run_events s i)) \<and>
      (\<forall>k i. map_of (m_idempotency s) k = Some i \<longleftrightarrow>
         (\<exists>r. map_of (m_runs s) i = Some r \<and> ri_idempotency_key r = Some k)))"

lemma mem_runs_inv_init: "mem_runs_inv mem_runs_init"
  by (simp add: mem_runs_inv_def mem_runs_init_def)

lemma mem_runs_invD:
  assumes "mem_runs_inv s"
  shows "map_of (m_runs s) i = Some r \<Longrightarrow> ri_id r = i"
    and "map_of (m_runs s) i = Some r \<Longrightarrow> events_ok r (mem_run_events s i)"
    and "map_of (m_idempotency s) k = Some i \<longleftrightarrow>
         (\<exists>r. map_of (m_runs s) i = Some r \<and> ri_idempotency_key r = Some k)"
  using assms unfolding mem_runs_inv_def by blast+

lemma mem_run_events_set:
  "mem_run_events (s\<lparr>m_events := dict_set i es (m_events s)\<rparr>) j = (if j = i then es else mem_run_events s j)"
  "mem_run_events (s\<lparr>m_runs := rs\<rparr>) j = mem_run_events s j"
  "mem_run_events (s\<lparr>m_idempotency := ks\<rparr>) j = mem_run_events s j"
  by (simp_all add: mem_run_events_def)

text \<open>Changing one run, and appending to it.\<close>

definition same_identity :: "run_info \<Rightarrow> run_info \<Rightarrow> bool" where
  "same_identity r r' =
     (ri_id r' = ri_id r \<and> ri_idempotency_key r' = ri_idempotency_key r \<and> ri_event_count r' = ri_event_count r)"

lemma mem_update_inv:
  assumes "mem_runs_inv s" and "\<And>r. same_identity r (f r)"
  shows "mem_runs_inv (snd (mem_update_run i f s))"
proof (cases "map_of (m_runs s) i")
  case None
  then show ?thesis using assms(1) by (simp add: mem_update_run_def mem_require_run_def)
next
  case (Some r)
  have f: "ri_id (f r) = ri_id r" "ri_idempotency_key (f r) = ri_idempotency_key r"
    "ri_event_count (f r) = ri_event_count r"
    using assms(2) [of r] by (simp_all add: same_identity_def)
  have "snd (mem_update_run i f s) = s\<lparr>m_runs := dict_set i (f r) (m_runs s)\<rparr>"
    using Some by (simp add: mem_update_run_def mem_require_run_def)
  then show ?thesis
    using Some f mem_runs_invD [OF assms(1)] by (auto simp: mem_runs_inv_def mem_run_events_set events_ok_def)
qed

lemma mem_update_view:
  "mem_get_run (snd (mem_update_run i f s)) j = (if j = i then map_option f (mem_get_run s i) else mem_get_run s j)"
  by (auto simp: mem_update_run_def mem_require_run_def mem_get_run_def split: option.split)

lemma mem_add_events_ok:
  "map ev_event_index es = [0..<length es] \<Longrightarrow> \<forall>e \<in> set es. ev_run_id e = ri_id r \<Longrightarrow>
   map ev_event_index (mem_add_events r now ps es) = [0..<length es + length ps] \<and>
   (\<forall>e \<in> set (mem_add_events r now ps es). ev_run_id e = ri_id r)"
proof (induction ps arbitrary: es)
  case (Cons p ps)
  show ?case using Cons.IH [of "es @ [mem_event r now (length es) p]"] Cons.prems
    by (simp add: mem_event_def Let_def)
qed simp

lemma length_mem_add_events: "length (mem_add_events r now ps es) = length es + length ps"
  by (induction ps arbitrary: es) simp_all

lemma mem_append_inv: "mem_runs_inv s \<Longrightarrow> mem_runs_inv (snd (mem_append_events now i ps s))"
proof (cases "map_of (m_runs s) i")
  case (Some r)
  assume inv: "mem_runs_inv s"
  let ?es = "mem_add_events r now ps (mem_run_events s i)"
  have r: "ri_id r = i" "events_ok r (mem_run_events s i)" using mem_runs_invD [OF inv] Some by blast+
  have es: "map ev_event_index ?es = [0..<length ?es]" "\<forall>e \<in> set ?es. ev_run_id e = i"
    using mem_add_events_ok [of "mem_run_events s i" r now ps] r by (simp_all add: events_ok_def length_mem_add_events)
  show ?thesis
  proof (cases "ps = []")
    case False
    then have "snd (mem_append_events now i ps s) =
        s\<lparr>m_events := dict_set i ?es (m_events s),
          m_runs := dict_set i (r\<lparr>ri_event_count := length ?es, ri_updated_at := now\<rparr>) (m_runs s)\<rparr>"
      using Some by (simp add: mem_append_events_def mem_require_run_def Let_def)
    then show ?thesis
      using Some r es mem_runs_invD [OF inv] by (auto simp: mem_runs_inv_def mem_run_events_set events_ok_def)
  qed (use inv Some in \<open>simp add: mem_append_events_def mem_require_run_def Let_def\<close>)
qed (simp add: mem_append_events_def mem_require_run_def)

lemma mem_append_view:
  assumes "mem_runs_inv s"
  shows "mem_get_run (snd (mem_append_events now i ps s)) j =
    (if j = i \<and> ps \<noteq> [] then map_option (\<lambda>r. r\<lparr>ri_event_count := ri_event_count r + length ps, ri_updated_at := now\<rparr>)
       (mem_get_run s i) else mem_get_run s j)"
proof (cases "map_of (m_runs s) i")
  case (Some r)
  have "ri_event_count r = length (mem_run_events s i)"
    using mem_runs_invD(2) [OF assms Some] by (simp add: events_ok_def)
  then show ?thesis using Some
    by (auto simp: mem_append_events_def mem_require_run_def mem_get_run_def Let_def length_mem_add_events)
qed (auto simp: mem_append_events_def mem_require_run_def mem_get_run_def)

lemma mem_append_event_state: "snd (mem_append_event now i p s) = snd (mem_append_events now i [p] s)"
  by (auto simp: mem_append_event_def split: prod.split sum.split list.split)

text \<open>Creation.\<close>

lemma mem_insert_inv:
  assumes "mem_runs_inv s" and "map_of (m_runs s) (ri_id r) = None" and "ri_event_count r = 0"
    and "\<And>k. ri_idempotency_key r = Some k \<Longrightarrow> map_of (m_idempotency s) k = None"
  shows "mem_runs_inv (mem_insert_run r s)"
proof -
  have "\<exists>k. map_of (m_idempotency s) k = Some (ri_id r) \<Longrightarrow> False"
    using mem_runs_invD(3) [OF assms(1)] assms(2) by auto
  moreover have "map_of (m_runs s) i = Some r' \<Longrightarrow> ri_idempotency_key r' = Some k \<Longrightarrow> ri_idempotency_key r \<noteq> Some k"
    for i r' k
    using mem_runs_invD(3) [OF assms(1), of k i] assms(4) [of k] by auto
  moreover have "mem_run_events (mem_insert_run r s) j = (if j = ri_id r then [] else mem_run_events s j)" for j
    by (simp add: mem_run_events_def mem_insert_run_def)
  moreover have "map_of (m_runs (mem_insert_run r s)) = (map_of (m_runs s))(ri_id r \<mapsto> r)"
    by (simp add: mem_insert_run_def)
  moreover have "map_of (m_idempotency (mem_insert_run r s)) = (case ri_idempotency_key r of
      None \<Rightarrow> map_of (m_idempotency s) | Some k \<Rightarrow> (map_of (m_idempotency s))(k \<mapsto> ri_id r))"
    by (simp add: mem_insert_run_def split: option.split)
  ultimately show ?thesis
    unfolding mem_runs_inv_def
    using assms(2,3) mem_runs_invD [OF assms(1)]
    by (auto simp: events_ok_def split: option.splits) blast
qed

lemma mem_create_cases:
  assumes "mem_runs_inv s" and "map_of (m_runs s) (''run_'' @ uuid) = None"
  obtains (failed) x where "mem_create_or_get_run uuid now q s = (Inl x, s)"
    | (known) r where "mem_create_or_get_run uuid now q s = (Inr (r, False), s)"
        and "map_of (m_runs s) (ri_id r) = Some r" and "ri_idempotency_key r = rq_idempotency_key q"
        and "ri_request_fingerprint r = rq_fingerprint q"
    | (created) "mem_create_or_get_run uuid now q s =
          (Inr (mem_new_run (''run_'' @ uuid) now q, True), mem_insert_run (mem_new_run (''run_'' @ uuid) now q) s)"
        and "\<And>k. rq_idempotency_key q = Some k \<Longrightarrow> map_of (m_idempotency s) k = None"
proof (cases "(rq_idempotency_key q = None) \<noteq> (rq_fingerprint q = None)")
  case True
  then show ?thesis by (intro failed) (simp add: mem_create_or_get_run_def)
next
  case False
  show ?thesis
  proof (cases "\<exists>k j. rq_idempotency_key q = Some k \<and> map_of (m_idempotency s) k = Some j")
    case True
    then obtain k j where k: "rq_idempotency_key q = Some k" "map_of (m_idempotency s) k = Some j" by blast
    then obtain r where r: "map_of (m_runs s) j = Some r" "ri_idempotency_key r = Some k"
      using mem_runs_invD(3) [OF assms(1)] by blast
    have "ri_id r = j" using mem_runs_invD(1) [OF assms(1) r(1)] .
    then show ?thesis using failed known [of r] k r False
      by (cases "ri_request_fingerprint r = rq_fingerprint q") (auto simp: mem_create_or_get_run_def Let_def)
  next
    case none: False
    then show ?thesis using created False
      by (cases "rq_idempotency_key q") (auto simp: mem_create_or_get_run_def Let_def split: option.splits)
  qed
qed

lemma mem_insert_view:
  "mem_get_run (mem_insert_run r s) i = (if i = ri_id r then Some r else mem_get_run s i)"
  by (simp add: mem_get_run_def mem_insert_run_def)

text \<open>The compound operations as sequences of the two simple ones.\<close>

lemma mem_finish_state:
  "snd (mem_finish_run now i st err s) =
    (case map_of (m_runs s) i of
       None \<Rightarrow> s
     | Some r \<Rightarrow> if is_finished (ri_status r) then s
         else snd (mem_append_events now i [finished_event st err now]
           (snd (mem_update_run i (\<lambda>r. r\<lparr>ri_status := st, ri_finished_at := Some now, ri_updated_at := now,
              ri_metadata := (if truthy_opt err then dict_set ''error'' (PStr (or_empty err)) (ri_metadata r)
                              else ri_metadata r)\<rparr>) s))))"
  by (simp add: mem_finish_run_def mem_require_run_def mem_append_event_state Let_def split: option.split)

lemma mem_stop_state:
  "snd (mem_request_stop now i s) =
    (case map_of (m_runs s) i of
       None \<Rightarrow> s
     | Some r \<Rightarrow> if is_finished (ri_status r) then s
         else snd (mem_append_events now i [[(''type'', PStr ''run_stop_requested''), (''status'', PStr ''stopping'')]]
           (snd (mem_update_run i (\<lambda>r. r\<lparr>ri_status := ''stopping'', ri_updated_at := now\<rparr>) s))))"
  by (simp add: mem_request_stop_def mem_append_event_state Let_def split: option.split)

lemma mem_update_status_state:
  "snd (mem_update_status now i st s) =
    (case map_of (m_runs s) i of
       None \<Rightarrow> s
     | Some r \<Rightarrow> if is_finished (ri_status r) then s
         else snd (mem_update_run i (\<lambda>r. r\<lparr>ri_status := st, ri_updated_at := now\<rparr>) s))"
  by (simp add: mem_update_status_def mem_require_run_def split: option.split)

lemmas mem_states = mem_finish_state mem_stop_state mem_update_status_state mem_merge_metadata_def
  mem_update_target_node_def mem_update_anchor_node_def mem_update_cancellation_parent_def

lemma mem_delete_inv: "mem_runs_inv s \<Longrightarrow> mem_runs_inv (mem_delete_run i s)"
proof -
  assume inv: "mem_runs_inv s"
  have "mem_run_events (mem_delete_run i s) j = (if j = i then [] else mem_run_events s j)" for j
    by (simp add: mem_run_events_def mem_delete_run_def)
  moreover have "map_of (m_runs s) i = Some r \<Longrightarrow> ri_idempotency_key r = Some k \<Longrightarrow> map_of (m_runs s) j = Some r' \<Longrightarrow>
      ri_idempotency_key r' = Some k \<Longrightarrow> j = i" for r r' j k
    using mem_runs_invD(3) [OF inv] by (metis option.inject)
  ultimately show ?thesis
    using mem_runs_invD [OF inv] unfolding mem_runs_inv_def
    by (auto simp: mem_delete_run_def split: option.splits)
qed

lemma mem_finish_inv: "mem_runs_inv s \<Longrightarrow> mem_runs_inv (snd (mem_finish_run now i st err s))"
  by (auto simp: mem_states same_identity_def intro!: mem_update_inv mem_append_inv split: option.split)

lemma mem_finish_all_inv: "mem_runs_inv s \<Longrightarrow> mem_runs_inv (mem_finish_all now is s)"
  by (induction "is" arbitrary: s) (simp_all add: mem_finish_inv)

lemma mem_exec_inv:
  assumes "mem_runs_inv s" and "mem_admissible s op"
  shows "mem_runs_inv (mem_exec now op s)"
proof (cases op)
  case (CreateRun uuid q)
  then have "map_of (m_runs s) (''run_'' @ uuid) = None" using assms(2) by (simp add: mem_get_run_def)
  from assms(1) this show ?thesis
  proof (cases rule: mem_create_cases [where now = now and q = q])
    case created
    have "mem_runs_inv (mem_insert_run (mem_new_run (''run_'' @ uuid) now q) s)"
      by (rule mem_insert_inv [OF assms(1)])
        (use created(2) \<open>map_of (m_runs s) (''run_'' @ uuid) = None\<close> in \<open>simp_all add: mem_new_run_def\<close>)
    then show ?thesis using CreateRun created(1) by simp
  qed (use assms CreateRun in simp_all)
next
  case MarkInterrupted
  then show ?thesis using mem_finish_all_inv [OF assms(1)] by (simp add: mem_mark_unfinished_as_interrupted_def Let_def)
qed (use assms in \<open>auto simp: mem_states mem_append_event_state same_identity_def mem_delete_inv mem_append_inv
      intro!: mem_update_inv mem_append_inv split: option.split\<close>)

definition info_change :: "mem_runs \<Rightarrow> mem_runs \<Rightarrow> string \<Rightarrow> bool" where
  "info_change s s' i =
     (\<forall>x. mem_get_run s i = Some x \<longrightarrow> (\<exists>y. mem_get_run s' i = Some y \<and> run_change (core_of x) (core_of y)))"

lemma info_change_trans: "info_change s s' i \<Longrightarrow> info_change s' s'' i \<Longrightarrow> info_change s s'' i"
  unfolding info_change_def using run_change_trans by blast

lemma mem_append_change: "mem_runs_inv s \<Longrightarrow> info_change s (snd (mem_append_events now j ps s)) i"
  by (cases "i = j") (auto simp: info_change_def mem_append_view core_of_def run_change_def)

lemma mem_finish_change: "mem_runs_inv s \<Longrightarrow> info_change s (snd (mem_finish_run now j st err s)) i"
  by (auto simp: info_change_def mem_states mem_append_view mem_update_inv same_identity_def mem_update_view
      core_of_def run_change_def mem_get_run_def [symmetric] split: option.split)

lemma mem_finish_all_change: "mem_runs_inv s \<Longrightarrow> info_change s (mem_finish_all now is s) i"
proof (induction "is" arbitrary: s)
  case (Cons j "is")
  then show ?case
    using info_change_trans [OF mem_finish_change [OF Cons.prems] Cons.IH [OF mem_finish_inv [OF Cons.prems]]] by simp
qed (simp add: info_change_def)

lemma mem_exec_change:
  assumes "mem_runs_inv s" and "mem_admissible s op" and "mem_view s i = Some r" and "\<not> deletes op i"
  shows "\<exists>r'. mem_view (mem_exec now op s) i = Some r' \<and> run_change r r'"
proof -
  obtain x where x: "mem_get_run s i = Some x" "r = core_of x" using assms(3) by (auto simp: mem_view_def)
  have "\<exists>y. mem_get_run (mem_exec now op s) i = Some y \<and> run_change (core_of x) (core_of y)"
  proof (cases op)
    case (CreateRun uuid q)
    then have "map_of (m_runs s) (''run_'' @ uuid) = None" using assms(2) by (simp add: mem_get_run_def)
    from assms(1) this show ?thesis
    proof (cases rule: mem_create_cases [where now = now and q = q])
      case created
      have "i \<noteq> ''run_'' @ uuid" using x(1) CreateRun assms(2) by auto
      then show ?thesis using CreateRun created(1) x by (simp add: mem_insert_view mem_new_run_def)
    qed (use x CreateRun in simp_all)
  next
    case (DeleteRun j)
    then have "j \<noteq> i" using assms(4) by (simp add: deletes_def)
    then show ?thesis using DeleteRun x by (simp add: mem_delete_run_def mem_get_run_def)
  next
    case (AppendEvents j ps)
    then show ?thesis using x mem_append_change [OF assms(1)] by (simp add: info_change_def)
  next
    case (AppendEvent j p)
    then show ?thesis using x mem_append_change [OF assms(1)] by (simp add: info_change_def mem_append_event_state)
  next
    case (FinishRun j st err)
    then show ?thesis using x mem_finish_change [OF assms(1)] by (simp add: info_change_def)
  next
    case MarkInterrupted
    then show ?thesis using x mem_finish_all_change [OF assms(1)]
      by (simp add: info_change_def mem_mark_unfinished_as_interrupted_def Let_def)
  qed (use x assms(1,2) in \<open>auto simp: mem_states mem_append_view mem_update_inv same_identity_def mem_update_view
        core_of_def run_change_def mem_get_run_def [symmetric] split: option.split\<close>)
  then show ?thesis using x by (auto simp: mem_view_def)
qed

lemma mem_deleted_view:
  assumes "deletes op i" and "mem_admissible s op"
  shows "mem_view (mem_exec now op s) i = None"
  using assms by (cases op) (auto simp: deletes_def mem_view_def mem_get_run_def mem_delete_run_def)

interpretation mem_store: run_store mem_view mem_runs_inv mem_admissible mem_exec mem_create_or_get_run
proof
  fix s op now assume "mem_runs_inv s" "mem_admissible s op"
  then show "mem_runs_inv (mem_exec now op s)" by (rule mem_exec_inv)
next
  fix s op i r now r'
  assume a: "mem_runs_inv s" "mem_admissible s op" "mem_view s i = Some r" "mem_view (mem_exec now op s) i = Some r'"
  then have "\<not> deletes op i" using mem_deleted_view [of op i s now] by fastforce
  from mem_exec_change [OF a(1-3) this, of now] a(4) show "run_change r r'" by auto
next
  fix s op i r now assume "mem_runs_inv s" "mem_admissible s op" "mem_view s i = Some r" "\<not> deletes op i"
  from mem_exec_change [OF this, of now] show "mem_view (mem_exec now op s) i \<noteq> None" by auto
next
  fix s i r j r' k
  assume a: "mem_runs_inv s" "mem_view s i = Some r" "mem_view s j = Some r'" "rc_key r = Some k" "rc_key r' = Some k"
  then have "map_of (m_idempotency s) k = Some i" "map_of (m_idempotency s) k = Some j"
    using mem_runs_invD(3) [OF a(1)] by (auto simp: mem_view_def mem_get_run_def core_of_def)
  then show "i = j" by simp
next
  fix s i r uuid now and q :: run_request
  assume a: "mem_runs_inv s" "mem_view s i = Some r" "rc_key r = rq_idempotency_key q" "rq_idempotency_key q \<noteq> None"
  obtain x where x: "map_of (m_runs s) i = Some x" "r = core_of x"
    using a(2) by (auto simp: mem_view_def mem_get_run_def)
  obtain k where k: "rq_idempotency_key q = Some k" using a(4) by blast
  have "map_of (m_idempotency s) k = Some i" using mem_runs_invD(3) [OF a(1)] x a(3) k by (auto simp: core_of_def)
  then show "snd (mem_create_or_get_run uuid now q s) = s \<and>
    (\<forall>y b. fst (mem_create_or_get_run uuid now q s) = Inr (y, b) \<longrightarrow> \<not> b \<and> ri_id y = i \<and> rq_fingerprint q = rc_fingerprint r)"
    using k x mem_runs_invD(1) [OF a(1) x(1)] by (auto simp: mem_create_or_get_run_def Let_def core_of_def)
next
  fix s uuid now x b s' and q :: run_request
  assume a: "mem_runs_inv s" "mem_admissible s (CreateRun uuid q)" "mem_create_or_get_run uuid now q s = (Inr (x, b), s')"
  have "map_of (m_runs s) (''run_'' @ uuid) = None" using a(2) by (simp add: mem_get_run_def)
  from a(1) this show "mem_exec now (CreateRun uuid q) s = s' \<and>
    (\<exists>r. mem_view s' (ri_id x) = Some r \<and> rc_key r = rq_idempotency_key q \<and> rc_fingerprint r = rq_fingerprint q)"
    by (cases rule: mem_create_cases [where now = now and q = q])
      (use a(3) in \<open>auto simp: mem_view_def mem_insert_view mem_get_run_def [of s] core_of_def mem_new_run_def\<close>)
qed

end
