(* ===== verification/RunSql.thy ===== *)
theory RunSql
  imports RunStore
begin

text \<open>
  The SQLite run repository satisfies the contract of \<open>RunStore\<close>.  Its operations change the
  rows of the table \<open>runs\<close> only as \<open>row_change\<close> allows, so the laws follow from one relation
  between the rows before and after.
\<close>

section \<open>View and invariant\<close>

definition row_core :: "run_row \<Rightarrow> run_core" where
  "row_core r =
     \<lparr>rc_conversation_id = r_conversation_id r, rc_kind = r_kind r, rc_status = r_status r,
      rc_key = r_idempotency_key r, rc_fingerprint = r_request_fingerprint r,
      rc_created_at = r_created_at r, rc_finished_at = r_finished_at r, rc_event_count = r_event_count r\<rparr>"

definition sql_view :: "db \<Rightarrow> string \<Rightarrow> run_core option" where
  "sql_view d i = map_option row_core (run_row_of d i)"

definition runs_ok :: "run_row list \<Rightarrow> bool" where
  "runs_ok rs =
     (distinct (map r_id rs) \<and>
      (\<forall>r \<in> set rs. \<forall>r' \<in> set rs. r_idempotency_key r \<noteq> None \<longrightarrow>
         r_idempotency_key r = r_idempotency_key r' \<longrightarrow> r_id r = r_id r'))"

definition sql_inv :: "db \<Rightarrow> bool" where
  "sql_inv d = runs_ok (runs d)"

fun sql_exec :: "codec \<Rightarrow> bool \<Rightarrow> int \<Rightarrow> run_op \<Rightarrow> db \<Rightarrow> db" where
  "sql_exec E wt now (CreateRun uuid q) d = snd (sql_create_or_get_run uuid now q d)"
| "sql_exec E wt now (AppendEvent i p) d = snd (sql_append_event E now i p d)"
| "sql_exec E wt now (AppendEvents i ps) d = snd (sql_append_events E now i ps d)"
| "sql_exec E wt now (FinishRun i st err) d = snd (sql_finish_run E wt now i st err d)"
| "sql_exec E wt now (RequestStop i) d = snd (sql_request_stop E now i d)"
| "sql_exec E wt now (UpdateStatus i st) d = snd (sql_update_status now i st d)"
| "sql_exec E wt now (MergeMetadata i md) d = snd (sql_merge_metadata now i md d)"
| "sql_exec E wt now (UpdateTarget i nd) d = snd (sql_update_target_node now i nd d)"
| "sql_exec E wt now (UpdateAnchor i nd) d = snd (sql_update_anchor_node now i nd d)"
| "sql_exec E wt now (UpdateParent i p) d = snd (sql_update_cancellation_parent now i p d)"
| "sql_exec E wt now MarkInterrupted d = snd (sql_mark_unfinished_as_interrupted E wt now d)"
| "sql_exec E wt now (DeleteRun i) d = sql_delete_run i d"
| "sql_exec E wt now (AppendIndexed i xs) d = snd (sql_append_indexed_events E now i xs d)"
| "sql_exec E wt now (DeleteForNodes c ns) d = snd (delete_runs_for_deleted_nodes c ns d)"

definition sql_admissible :: "db \<Rightarrow> run_op \<Rightarrow> bool" where
  "sql_admissible d op = True"

section \<open>How rows change\<close>

definition row_change :: "run_row \<Rightarrow> run_row \<Rightarrow> bool" where
  "row_change r r' = (r_id r' = r_id r \<and> run_change (row_core r) (row_core r'))"

definition rows_step :: "db \<Rightarrow> db \<Rightarrow> bool" where
  "rows_step d d' = list_all2 row_change (runs d) (runs d')"

lemma row_change_refl [simp]: "row_change r r"
  by (simp add: row_change_def)

lemma row_change_trans: "row_change r r' \<Longrightarrow> row_change r' r'' \<Longrightarrow> row_change r r''"
  by (auto simp: row_change_def intro: run_change_trans)

lemma row_changeD:
  "row_change r r' \<Longrightarrow> r_id r' = r_id r"
  "row_change r r' \<Longrightarrow> r_idempotency_key r' = r_idempotency_key r"
  by (simp_all add: row_change_def run_change_def row_core_def)

lemma rows_step_refl: "runs d' = runs d \<Longrightarrow> rows_step d d'"
  by (simp add: rows_step_def list_all2_same)

lemma rows_step_trans: "rows_step d d' \<Longrightarrow> rows_step d' d'' \<Longrightarrow> rows_step d d''"
  unfolding rows_step_def by (rule list_all2_trans [OF row_change_trans])

lemma rows_step_update:
  assumes "runs d' = update_rows P f (runs d)" and "\<And>r. r \<in> set (runs d) \<Longrightarrow> P r \<Longrightarrow> row_change r (f r)"
  shows "rows_step d d'"
  using assms(2) unfolding rows_step_def assms(1) update_rows_def by (simp add: list_all2_conv_all_nth)

lemma all2_same_key: "list_all2 row_change rs rs' \<Longrightarrow> map r_id rs' = map r_id rs"
  by (induction rule: list_all2_induct) (simp_all add: row_change_def)

lemma all2_in_set: "list_all2 row_change rs rs' \<Longrightarrow> r' \<in> set rs' \<Longrightarrow> \<exists>r \<in> set rs. row_change r r'"
  by (induction rule: list_all2_induct) auto

lemma all2_runs_ok: "list_all2 row_change rs rs' \<Longrightarrow> runs_ok rs \<Longrightarrow> runs_ok rs'"
proof -
  assume a: "list_all2 row_change rs rs'" and ok: "runs_ok rs"
  have "r_id r1 = r_id r2" if r: "r1 \<in> set rs'" "r2 \<in> set rs'" "r_idempotency_key r1 \<noteq> None"
      "r_idempotency_key r1 = r_idempotency_key r2" for r1 r2
  proof -
    obtain s1 s2 where "s1 \<in> set rs" "row_change s1 r1" "s2 \<in> set rs" "row_change s2 r2"
      using all2_in_set [OF a] r(1,2) by blast
    then show ?thesis using ok r(3,4) row_changeD [of s1 r1] row_changeD [of s2 r2] unfolding runs_ok_def by metis
  qed
  moreover have "distinct (map r_id rs')" using ok all2_same_key [OF a] by (simp add: runs_ok_def)
  ultimately show ?thesis unfolding runs_ok_def by blast
qed

lemma all2_row_of:
  "list_all2 row_change rs rs' \<Longrightarrow> fetchone (select (\<lambda>r. r_id r = i) rs) = Some r \<Longrightarrow>
   \<exists>r'. fetchone (select (\<lambda>r. r_id r = i) rs') = Some r' \<and> row_change r r'"
  by (induction rule: list_all2_induct) (auto simp: row_change_def split: if_splits)

lemma rows_step_inv: "rows_step d d' \<Longrightarrow> sql_inv d \<Longrightarrow> sql_inv d'"
  unfolding rows_step_def sql_inv_def by (rule all2_runs_ok)

lemma rows_step_view:
  assumes "rows_step d d'" and "sql_view d i = Some r"
  shows "\<exists>r'. sql_view d' i = Some r' \<and> run_change r r'"
proof -
  obtain x where x: "run_row_of d i = Some x" "r = row_core x" using assms(2) by (auto simp: sql_view_def)
  then obtain y where "run_row_of d' i = Some y" "row_change x y"
    using all2_row_of [OF assms(1) [unfolded rows_step_def]] by (auto simp: run_row_of_def)
  then show ?thesis using x(2) by (simp add: sql_view_def row_change_def)
qed

lemma run_row_of_iff: "sql_inv d \<Longrightarrow> run_row_of d i = Some r \<longleftrightarrow> r \<in> set (runs d) \<and> r_id r = i"
  unfolding run_row_of_def sql_inv_def runs_ok_def
  using fetchone_select_SomeD [of "\<lambda>r. r_id r = i" "runs d" r] fetchone_unique_key [of r_id "runs d" r i] by blast

section \<open>Operations that keep the table\<close>

lemma store_text_runs: "store_text_content E t d = Inr (x, d') \<Longrightarrow> runs d' = runs d"
  by (auto simp: store_text_content_def put_text_def Let_def map_result_eq_Inr split: if_splits)

lemma insert_indexed_event_runs: "insert_indexed_event E r n p t d = Inr (e, d') \<Longrightarrow> runs d' = runs d"
  by (auto simp: insert_indexed_event_def Let_def bind_result_eq_Inr map_result_eq_Inr insert_event_row_def
      dest!: store_text_runs split: prod.splits if_splits)

lemma bump_change: "row_change r (r\<lparr>r_event_count := Suc (r_event_count r), r_updated_at := now\<rparr>)"
  by (simp add: row_change_def run_change_def row_core_def)

lemma append_event_step: "append_event_in_connection E now i p d = Inr (e, d') \<Longrightarrow> rows_step d d'"
  by (auto simp: append_event_in_connection_def bind_result_eq_Inr update_run_rows_def bump_change
      dest!: insert_indexed_event_runs intro!: rows_step_update split: prod.splits)

lemma append_all_step: "append_all_in_connection E now i ps d = Inr (es, d') \<Longrightarrow> rows_step d d'"
proof (induction ps arbitrary: d es)
  case Nil
  then show ?case by (simp add: rows_step_refl)
next
  case (Cons p ps)
  then obtain e d1 es1 where "append_event_in_connection E now i p d = Inr (e, d1)"
      "append_all_in_connection E now i ps d1 = Inr (es1, d')"
    by (auto simp: bind_result_eq_Inr split: prod.splits)
  then show ?case using append_event_step Cons.IH rows_step_trans by blast
qed

text \<open>A transaction either keeps the database or does what its body does.\<close>

lemma transaction_step:
  assumes "\<And>x d'. body d = Inr (x, d') \<Longrightarrow> rows_step d d'"
  shows "rows_step d (snd (transaction body d))"
  using assms by (auto simp: transaction_def rows_step_refl split: sum.split)

lemma append_event_op_step: "rows_step d (snd (sql_append_event E now i p d))"
  using transaction_step [where body = "append_event_in_connection E now i p", of d] append_event_step
  by (auto simp: sql_append_event_def split: prod.split sum.split)

lemma append_events_op_step: "rows_step d (snd (sql_append_events E now i ps d))"
  using transaction_step [where body = "append_all_in_connection E now i ps", of d] append_all_step
  by (auto simp: sql_append_events_def rows_step_refl split: prod.split sum.split)

lemma insert_in_sequence_runs: "insert_in_sequence E now r n xs d = Inr (es, d') \<Longrightarrow> runs d' = runs d"
proof (induction xs arbitrary: n d es)
  case (Cons x xs)
  then obtain e d1 es1 where "insert_indexed_event E r n (ie_payload x) (or_now now (ie_created_at x)) d = Inr (e, d1)"
      "insert_in_sequence E now r (Suc n) xs d1 = Inr (es1, d')"
    by (auto simp: bind_result_eq_Inr split: if_splits prod.splits)
  then show ?case using Cons.IH insert_indexed_event_runs by metis
qed simp

lemma append_indexed_runs:
  assumes "append_indexed_body E now i xs d = Inr (es, d')"
  shows "\<exists>f. runs d' = update_rows (\<lambda>r. r_id r = i) f (runs d) \<and>
    (\<forall>r. \<exists>n t. f r = r\<lparr>r_event_count := r_event_count r + n, r_updated_at := t\<rparr>)"
proof -
  let ?t = "or_now now (ie_created_at (last (sort_key ie_index xs)))"
  obtain d1 where d1: "runs d1 = runs d"
    and d': "d' = update_run_rows i (\<lambda>r. r\<lparr>r_event_count := r_event_count r + length xs, r_updated_at := ?t\<rparr>) d1"
    using assms by (auto simp: append_indexed_body_def Let_def bind_result_eq_Inr dest!: insert_in_sequence_runs
        split: prod.splits)
  show ?thesis
    by (rule exI [of _ "\<lambda>r. r\<lparr>r_event_count := r_event_count r + length xs, r_updated_at := ?t\<rparr>"])
      (use d1 d' in \<open>auto simp: update_run_rows_def\<close>)
qed

lemma append_indexed_step: "append_indexed_body E now i xs d = Inr (es, d') \<Longrightarrow> rows_step d d'"
proof -
  assume "append_indexed_body E now i xs d = Inr (es, d')"
  from append_indexed_runs [OF this] obtain f where f: "runs d' = update_rows (\<lambda>r. r_id r = i) f (runs d)"
    and same: "\<And>r. \<exists>n t. f r = r\<lparr>r_event_count := r_event_count r + n, r_updated_at := t\<rparr>" by blast
  show ?thesis
  proof (rule rows_step_update [OF f])
    fix r
    obtain n t where "f r = r\<lparr>r_event_count := r_event_count r + n, r_updated_at := t\<rparr>" using same by blast
    then show "row_change r (f r)" by (simp add: row_change_def run_change_def row_core_def)
  qed
qed

lemma append_indexed_op_step: "rows_step d (snd (sql_append_indexed_events E now i xs d))"
  using transaction_step [where body = "append_indexed_body E now i xs", of d] append_indexed_step
  by (auto simp: sql_append_indexed_events_def rows_step_refl split: prod.split sum.split)

lemma update_run_rows_step: "(\<And>r. row_change r (f r)) \<Longrightarrow> rows_step d (update_run_rows i f d)"
  by (rule rows_step_update [where P = "\<lambda>r. r_id r = i" and f = f]) (simp_all add: update_run_rows_def)

lemma update_and_read_step: "(\<And>r. row_change r (f r)) \<Longrightarrow> rows_step d (snd (update_run_and_read i f ok d))"
  unfolding update_run_and_read_def
  by (auto simp: transaction_def rows_step_refl update_run_rows_step split: prod.split sum.split option.split if_split)

lemma merge_metadata_step: "rows_step d (snd (sql_merge_metadata now i md d))"
proof -
  have "rows_step d d'" if "merge_metadata_body now i md d = Inr (x, d')" for x d'
    using that
    by (auto simp: merge_metadata_body_def bind_result_eq_Inr map_result_eq_Inr Let_def row_change_def
        run_change_def row_core_def intro!: update_run_rows_step)
  then show ?thesis
    using transaction_step [where body = "merge_metadata_body now i md", of d]
    by (auto simp: sql_merge_metadata_def split: prod.split sum.split)
qed

lemma reference_step:
  "rows_step d (snd (sql_update_target_node now i nd d))"
  "rows_step d (snd (sql_update_anchor_node now i nd d))"
  "rows_step d (snd (sql_update_cancellation_parent now i p d))"
  unfolding sql_update_target_node_def sql_update_anchor_node_def sql_update_cancellation_parent_def
  by (rule update_and_read_step; simp add: row_change_def run_change_def row_core_def)+

lemma update_status_step: "rows_step d (snd (sql_update_status now i st d))"
  unfolding sql_update_status_def Let_def
  by (rule rows_step_update [where P = "\<lambda>r. r_id r = i \<and> \<not> is_finished (r_status r)"])
    (auto simp: row_change_def run_change_def row_core_def)

text \<open>Rows that are not finished may change their status.\<close>

lemma unfinished_update_step:
  assumes "sql_inv d" and "run_row_of d i = Some r" and "\<not> is_finished (r_status r)"
    and "\<And>r. r_id (f r) = r_id r \<and> r_conversation_id (f r) = r_conversation_id r \<and> r_kind (f r) = r_kind r \<and>
      r_idempotency_key (f r) = r_idempotency_key r \<and> r_request_fingerprint (f r) = r_request_fingerprint r \<and>
      r_created_at (f r) = r_created_at r \<and> r_event_count (f r) = r_event_count r"
  shows "rows_step d (update_run_rows i f d)"
proof (rule rows_step_update)
  show "runs (update_run_rows i f d) = update_rows (\<lambda>r. r_id r = i) f (runs d)" by (simp add: update_run_rows_def)
  fix x assume "x \<in> set (runs d)" "r_id x = i"
  then have "x = r" using run_row_of_iff [OF assms(1)] assms(2) by (metis option.inject)
  then show "row_change x (f x)" using assms(3,4) by (simp add: row_change_def run_change_def row_core_def)
qed

lemma request_stop_step: "sql_inv d \<Longrightarrow> rows_step d (snd (sql_request_stop E now i d))"
proof (cases "run_row_of d i")
  case (Some r)
  assume inv: "sql_inv d"
  show ?thesis
  proof (cases "is_finished (r_status r)")
    case False
    let ?d1 = "update_run_rows i (\<lambda>r. r\<lparr>r_status := ''stopping'', r_updated_at := now\<rparr>) d"
    have st: "rows_step d ?d1" by (rule unfinished_update_step [OF inv Some False]) simp
    have "snd (sql_request_stop E now i d) = snd (sql_append_event E now i
        [(''type'', PStr ''run_stop_requested''), (''run_id'', PStr i), (''status'', PStr ''stopping'')] ?d1)"
      using Some False by (simp add: sql_request_stop_def Let_def split: prod.split sum.split)
    then show ?thesis using rows_step_trans [OF st append_event_op_step] by simp
  qed (use Some in \<open>simp add: sql_request_stop_def rows_step_refl\<close>)
qed (simp add: sql_request_stop_def rows_step_refl)

section \<open>Finishing and deleting\<close>

lemma finish_binding_runs:
  assumes "finish_run_binding_in_connection E now i st err summary d = Inr (v, d')"
  shows "runs d' = runs d"
proof -
  have "runs d1 = runs d0" if "update_step c p s x y t d0 = Inr d1" for c p s x y t d0 d1
    using that by (auto simp: update_step_def Let_def split: if_splits)
  then show ?thesis
    using assms
    by (auto simp: finish_run_binding_in_connection_def Let_def bind_result_eq_Inr delete_binding_def
        bump_revision_def delete_active_tasks_def split: option.splits if_splits)
qed

lemma finish_body_step:
  assumes "sql_inv d" and "run_row_of d (r_id r) = Some r" and "\<not> is_finished (r_status r)"
    and "finish_run_body E wt now st err r d = Inr (r', d')"
  shows "rows_step d d'"
proof -
  let ?up = "\<lambda>md d1. update_run_rows (r_id r) (\<lambda>r. r\<lparr>r_status := st, r_metadata_json := Some (json_field md),
                 r_finished_at := Some now, r_updated_at := now\<rparr>) d1"
  obtain md v d1 ev x where b: "(if wt then finish_run_binding_in_connection E now (r_id r) st err (r_summary r) d
        else Inr (None, d)) = Inr (v, d1)"
    and a: "append_event_in_connection E now (r_id r) ev
      ((?up md d1)\<lparr>run_events := delete_rows (\<lambda>x. e_run_id x = r_id r) (run_events (?up md d1))\<rparr>) = Inr (x, d')"
    using assms(4) by (auto simp: finish_run_body_def Let_def bind_result_eq_Inr map_result_eq_Inr split: prod.splits)
  have d1: "runs d1 = runs d" using b finish_binding_runs by (auto split: if_splits)
  have "rows_step d1 (?up md d1)"
    by (rule unfinished_update_step [where r = r]) (use assms(1-3) d1 in \<open>simp_all add: sql_inv_def run_row_of_def\<close>)
  then have "rows_step d ((?up md d1)\<lparr>run_events := delete_rows (\<lambda>x. e_run_id x = r_id r) (run_events (?up md d1))\<rparr>)"
    using d1 by (simp add: rows_step_def)
  then show ?thesis by (rule rows_step_trans [OF _ append_event_step [OF a]])
qed

lemma finish_run_step:
  assumes "sql_inv d"
  shows "rows_step d (snd (sql_finish_run E wt now i st err d))"
proof (cases "run_row_of d i")
  case (Some r)
  have i: "r_id r = i" using Some run_row_of_iff [OF assms] by blast
  show ?thesis
  proof (cases "is_finished (r_status r)")
    case False
    have body: "rows_step d d'" if "finish_run_body E wt now st err r d = Inr (r', d')" for r' d'
      by (rule finish_body_step [OF assms _ False that]) (simp add: i Some)
    have "rows_step d (snd (reclaim_blobs d'))" if "finish_run_body E wt now st err r d = Inr (r', d')" for r' d'
      using body [OF that] by (simp add: rows_step_def reclaim_blobs_def Let_def)
    then show ?thesis using Some False
      by (auto simp: sql_finish_run_def require_run_row_def transaction_def rows_step_refl split: sum.split prod.split)
  qed (use Some in \<open>simp add: sql_finish_run_def require_run_row_def rows_step_refl\<close>)
qed (simp add: sql_finish_run_def require_run_row_def rows_step_refl)

lemma forget_core [simp]:
  "row_core (r\<lparr>r_created_by := x, r_cancellation_parent := y\<rparr>) = row_core r"
  by (simp add: row_core_def)

definition forget_row :: "string set \<Rightarrow> run_row \<Rightarrow> run_row" where
  "forget_row gone r = r\<lparr>r_created_by := forget gone (r_created_by r),
     r_cancellation_parent := forget gone (r_cancellation_parent r)\<rparr>"

lemma forget_row_change: "row_change r (forget_row gone r)"
  by (simp add: forget_row_def row_change_def run_change_def row_core_def)

lemma finish_all_step: "sql_inv d \<Longrightarrow> rows_step d (snd (sql_finish_all E wt now is d))"
proof (induction "is" arbitrary: d)
  case (Cons i "is")
  let ?f = "sql_finish_run E wt now i ''interrupted'' (Some ''interrupted on startup'') d"
  have st: "rows_step d (snd ?f)" by (rule finish_run_step [OF Cons.prems])
  have "rows_step (snd ?f) (snd (sql_finish_all E wt now is (snd ?f)))"
    by (rule Cons.IH [OF rows_step_inv [OF st Cons.prems]])
  with st show ?case by (cases ?f) (auto intro: rows_step_trans split: sum.split)
qed (simp add: rows_step_refl)

lemma interrupt_step: "sql_inv d \<Longrightarrow> rows_step d (snd (sql_mark_unfinished_as_interrupted E wt now d))"
  using finish_all_step by (auto simp: sql_mark_unfinished_as_interrupted_def Let_def split: prod.splits sum.splits) (metis snd_conv)+

text \<open>Deleting runs drops rows, and changes those that stay as \<open>row_change\<close> allows.\<close>

definition rows_drop :: "db \<Rightarrow> db \<Rightarrow> bool" where
  "rows_drop d d' = (\<exists>P. list_all2 row_change (delete_rows P (runs d)) (runs d'))"

lemma map_forget_step: "list_all2 row_change rs (map (forget_row gone) rs)"
  by (simp add: list_all2_conv_all_nth forget_row_change)

lemma runs_delete_run_rows:
  "runs (delete_run_rows P d) = map (forget_row (r_id ` set (select P (runs d)))) (delete_rows P (runs d))"
  by (simp add: delete_run_rows_def Let_def forget_row_def [abs_def])

lemma sql_delete_runs:
  "runs (sql_delete_run i d) =
     map (forget_row (r_id ` set (select (\<lambda>r. r_id r = i) (runs d)))) (delete_rows (\<lambda>r. r_id r = i) (runs d))"
  by (simp add: sql_delete_run_def reclaim_blobs_def Let_def runs_delete_run_rows)

lemma rows_drop_delete: "rows_drop d (delete_run_rows P d)"
  unfolding rows_drop_def runs_delete_run_rows by (rule exI [of _ P]) (rule map_forget_step)

lemma rows_drop_refl: "runs d' = runs d \<Longrightarrow> rows_drop d d'"
  unfolding rows_drop_def by (rule exI [of _ "\<lambda>_. False"]) (simp add: delete_rows_def list_all2_same)

lemma rows_drop_inv:
  assumes "sql_inv d" and "rows_drop d d'"
  shows "sql_inv d'"
proof -
  obtain P where P: "list_all2 row_change (delete_rows P (runs d)) (runs d')" using assms(2) by (auto simp: rows_drop_def)
  have "runs_ok (delete_rows P (runs d))"
    using assms(1) by (auto simp: sql_inv_def runs_ok_def distinct_map_delete_rows)
  then show ?thesis unfolding sql_inv_def by (rule all2_runs_ok [OF P])
qed

lemma rows_drop_view:
  assumes "sql_inv d" and "rows_drop d d'" and "sql_view d' i = Some r'"
  obtains r where "sql_view d i = Some r" and "run_change r r'"
proof -
  obtain P where P: "list_all2 row_change (delete_rows P (runs d)) (runs d')" using assms(2) by (auto simp: rows_drop_def)
  obtain y where y: "run_row_of d' i = Some y" "r' = row_core y" using assms(3) by (auto simp: sql_view_def)
  have "y \<in> set (runs d')" "r_id y = i" using y(1) run_row_of_iff [OF rows_drop_inv [OF assms(1,2)]] by blast+
  then obtain x where x: "x \<in> set (delete_rows P (runs d))" "row_change x y" using all2_in_set [OF P] by blast
  have "run_row_of d i = Some x"
    unfolding run_row_of_iff [OF assms(1)] using x \<open>r_id y = i\<close> by (auto simp: delete_rows_def dest: row_changeD)
  then show thesis using that [of "row_core x"] x(2) y(2) by (simp add: sql_view_def row_change_def)
qed

lemma delete_run_drop: "rows_drop d (sql_delete_run i d)"
  unfolding rows_drop_def sql_delete_runs by (rule exI [of _ "\<lambda>r. r_id r = i"]) (rule map_forget_step)

lemma delete_run_inv: "sql_inv d \<Longrightarrow> sql_inv (sql_delete_run i d)"
  using rows_drop_inv delete_run_drop by blast

lemma delete_run_view:
  assumes "sql_view d j = Some r" and "j \<noteq> i"
  shows "\<exists>r'. sql_view (sql_delete_run i d) j = Some r' \<and> run_change r r'"
proof -
  obtain x where x: "run_row_of d j = Some x" "r = row_core x" using assms(1) by (auto simp: sql_view_def)
  have "select (\<lambda>r. r_id r = j) (delete_rows (\<lambda>r. r_id r = i) (runs d)) = select (\<lambda>r. r_id r = j) (runs d)"
    unfolding select_delete_rows by (rule arg_cong [where f = "\<lambda>P. select P (runs d)"]) (use assms(2) in auto)
  then have "fetchone (select (\<lambda>r. r_id r = j) (delete_rows (\<lambda>r. r_id r = i) (runs d))) = Some x"
    using x(1) by (simp add: run_row_of_def)
  then obtain y where "run_row_of (sql_delete_run i d) j = Some y" "row_change x y"
    using all2_row_of [OF map_forget_step] unfolding run_row_of_def sql_delete_runs by blast
  then show ?thesis using x(2) by (simp add: sql_view_def row_change_def)
qed

text \<open>\<open>delete_runs_for_deleted_nodes\<close> is up to two deletions, and a clean-up of the blobs.\<close>

lemma delete_for_nodes_cases:
  obtains (deletions) P Q d' where "runs (snd (delete_runs_for_deleted_nodes c ns d)) = runs (delete_run_rows Q d')"
    and "run_events (snd (delete_runs_for_deleted_nodes c ns d)) = run_events (delete_run_rows Q d')"
    and "d' = d \<or> d' = delete_run_rows P d"
proof -
  let ?over = "\<lambda>r. r_conversation_id r = c \<and> is_finished (r_status r)"
  let ?P = "\<lambda>r. ?over r \<and> (r_target_node r \<in> Some ` set ns \<or> r_anchor_node r \<in> Some ` set ns)"
  let ?Q = "\<lambda>r. ?over r \<and> r_target_node r = None"
  show thesis
    by (rule deletions [of ?Q "if ns = [] then d else delete_run_rows ?P d" ?P])
      (simp_all add: delete_runs_for_deleted_nodes_def reclaim_blobs_def Let_def)
qed

lemma delete_for_nodes_drop:
  obtains d' where "rows_drop d d'" and "rows_drop d' (snd (delete_runs_for_deleted_nodes c ns d))"
proof (cases rule: delete_for_nodes_cases [of c ns d])
  case (deletions P Q d')
  have "rows_drop d' (snd (delete_runs_for_deleted_nodes c ns d))"
    using rows_drop_delete [of d' Q] deletions(1) by (simp add: rows_drop_def)
  moreover have "rows_drop d d'" using deletions(3) rows_drop_delete rows_drop_refl by blast
  ultimately show thesis using that by blast
qed

lemma delete_for_nodes_inv: "sql_inv d \<Longrightarrow> sql_inv (snd (delete_runs_for_deleted_nodes c ns d))"
  by (rule delete_for_nodes_drop [of d c ns]) (use rows_drop_inv in blast)

lemma delete_for_nodes_view:
  assumes "sql_inv d" and "sql_view d i = Some r"
    and "sql_view (snd (delete_runs_for_deleted_nodes c ns d)) i = Some r'"
  shows "run_change r r'"
proof (rule delete_for_nodes_drop [of d c ns])
  fix d' assume d': "rows_drop d d'" "rows_drop d' (snd (delete_runs_for_deleted_nodes c ns d))"
  obtain r1 where r1: "sql_view d' i = Some r1" "run_change r1 r'"
    using rows_drop_inv [OF assms(1) d'(1)] d'(2) assms(3) by (rule rows_drop_view)
  obtain r0 where "sql_view d i = Some r0" "run_change r0 r1"
    using assms(1) d'(1) r1(1) by (rule rows_drop_view)
  then show ?thesis using assms(2) r1(2) run_change_trans by auto
qed

section \<open>Creating\<close>

lemma bind_run_runs:
  assumes "bind_run_in_connection now i b d = Inr (gp, d')"
  shows "runs d' = runs d"
proof -
  have "runs d1 = runs d0" if "insert_binding row d0 = Inr d1" for row d0 d1
    using that by (auto simp: insert_binding_def split: if_splits)
  then show ?thesis
    using assms by (auto simp: bind_run_in_connection_def Let_def bind_result_eq_Inr map_result_eq_Inr
        split: option.splits if_splits)
qed

text \<open>A created run is one new row, with fresh id and key, that the binding may have given metadata.\<close>

lemma create_body_row:
  assumes "create_run_body i now q d = Inr (x, d')"
  obtains row where "r_id row = i" and "r_idempotency_key row = rq_idempotency_key q"
    and "r_request_fingerprint row = rq_fingerprint q" and "i \<notin> r_id ` set (runs d)"
    and "rq_idempotency_key q \<noteq> None \<longrightarrow> rq_idempotency_key q \<notin> r_idempotency_key ` set (runs d)"
    and "list_all2 row_change (runs d @ [row]) (runs d')"
    and "\<exists>y. run_row_of d' i = Some y \<and> run_from_row y = Inr x"
proof -
  let ?row = "\<lparr>r_id = i, r_conversation_id = rq_conversation_id q, r_kind = rq_kind q, r_status = ''running'',
        r_created_by = rq_created_by q, r_cancellation_parent = rq_cancellation_parent q,
        r_anchor_node = rq_anchor_node q, r_target_node = rq_target_node q, r_summary = rq_summary q,
        r_metadata_json = Some (json_field (rq_metadata q)), r_event_count = 0, r_created_at = now,
        r_updated_at = now, r_finished_at = None, r_idempotency_key = rq_idempotency_key q,
        r_request_fingerprint = rq_fingerprint q\<rparr>"
  obtain d1 where d1: "insert_run_row ?row d = Inr d1"
    and rest: "(case rq_binding q of None \<Rightarrow> Inr d1
       | Some b \<Rightarrow> bind_result (bind_run_in_connection now i b d1) (\<lambda>((g, p), d2).
           Inr (update_run_rows i (\<lambda>r. r\<lparr>r_metadata_json := Some (json_field
             (dict_update (rq_metadata q) [(''task_generation_id'', PStr g), (''task_step_position'', PInt p)]))\<rparr>) d2)))
         = Inr d'"
    and x: "\<exists>y. run_row_of d' i = Some y \<and> run_from_row y = Inr x"
    using assms
    by (auto simp: create_run_body_def insert_run_in_connection_def bind_result_eq_Inr map_result_eq_Inr
        split: option.splits)
  have ins: "runs d1 = runs d @ [?row]" "i \<notin> r_id ` set (runs d)"
    "rq_idempotency_key q \<noteq> None \<longrightarrow> rq_idempotency_key q \<notin> r_idempotency_key ` set (runs d)"
    using d1 by (auto simp: insert_run_row_def Let_def split: if_splits)
  have "rows_step d1 d'"
  proof (cases "rq_binding q")
    case None
    then show ?thesis using rest by (simp add: rows_step_refl)
  next
    case (Some b)
    then obtain g p d2 where d2: "bind_run_in_connection now i b d1 = Inr ((g, p), d2)"
      and d': "d' = update_run_rows i (\<lambda>r. r\<lparr>r_metadata_json := Some (json_field
             (dict_update (rq_metadata q) [(''task_generation_id'', PStr g), (''task_step_position'', PInt p)]))\<rparr>) d2"
      using rest by (auto simp: bind_result_eq_Inr)
    have "rows_step d2 d'" unfolding d'
      by (rule update_run_rows_step) (simp add: row_change_def run_change_def row_core_def)
    then show ?thesis using bind_run_runs [OF d2] by (simp add: rows_step_def)
  qed
  then show thesis using that [of ?row] ins x by (simp add: rows_step_def)
qed

lemma runs_ok_snoc:
  assumes "runs_ok rs" and "r_id row \<notin> r_id ` set rs"
    and "r_idempotency_key row \<noteq> None \<longrightarrow> r_idempotency_key row \<notin> r_idempotency_key ` set rs"
  shows "runs_ok (rs @ [row])"
proof -
  have fresh: "r_idempotency_key row \<noteq> r_idempotency_key r"
    if "r \<in> set rs" "r_idempotency_key row \<noteq> None" for r
    using assms(3) that by (metis imageI)
  have "r_id r = r_id r'" if "r \<in> set (rs @ [row])" "r' \<in> set (rs @ [row])" "r_idempotency_key r \<noteq> None"
      "r_idempotency_key r = r_idempotency_key r'" for r r'
  proof -
    have "r = row \<or> r \<in> set rs" "r' = row \<or> r' \<in> set rs" using that(1,2) by auto
    then consider "r = row" "r' = row" | "r = row" "r' \<in> set rs" | "r \<in> set rs" "r' = row" | "r \<in> set rs" "r' \<in> set rs"
      by blast
    then show ?thesis
    proof cases
      case 2
      then show ?thesis using fresh [of r'] that(3,4) by simp
    next
      case 3
      then show ?thesis using fresh [of r] that(3,4) by simp
    next
      case 4
      then show ?thesis using assms(1) that(3,4) unfolding runs_ok_def by blast
    qed simp
  qed
  moreover have "distinct (map r_id (rs @ [row]))" using assms(1,2) by (simp add: runs_ok_def)
  ultimately show ?thesis unfolding runs_ok_def by blast
qed

lemma run_from_row_fields:
  "run_from_row y = Inr x \<Longrightarrow> ri_id x = r_id y \<and> ri_idempotency_key x = r_idempotency_key y \<and>
     ri_request_fingerprint x = r_request_fingerprint y"
  by (auto simp: run_from_row_def map_result_eq_Inr)

lemma create_cases:
  obtains (refused) e where "sql_create_or_get_run uuid now q d = (Inl e, d)"
    | (known) y x where "sql_create_or_get_run uuid now q d = (Inr (x, False), d)" and "y \<in> set (runs d)"
        and "r_idempotency_key y = rq_idempotency_key q" and "rq_idempotency_key q \<noteq> None"
        and "run_from_row y = Inr x" and "ri_request_fingerprint x = rq_fingerprint q"
    | (created) x d' where "sql_create_or_get_run uuid now q d = (Inr (x, True), d')"
        and "create_run_body uuid now q d = Inr (x, d')"
proof (cases "(rq_idempotency_key q = None) \<noteq> (rq_fingerprint q = None)")
  case True
  then show ?thesis by (intro refused) (simp add: sql_create_or_get_run_def)
next
  case False
  show ?thesis
  proof (cases "create_run_body uuid now q d")
    case (Inr p)
    obtain x d' where p: "p = (x, d')" by (cases p)
    show ?thesis
      by (rule created [of x d']) (use False Inr p in \<open>simp_all add: sql_create_or_get_run_def transaction_def\<close>)
  next
    case (Inl e)
    show ?thesis
    proof (cases "is_integrity_error e \<and> rq_idempotency_key q \<noteq> None")
      case True
      then obtain k where k: "rq_idempotency_key q = Some k" by blast
      show ?thesis
      proof (cases "fetchone (select (\<lambda>r. r_idempotency_key r = Some k) (runs d))")
        case None
        then show ?thesis
          by (intro refused [of e])
            (use True k False Inl in \<open>simp add: sql_create_or_get_run_def transaction_def sql_get_run_by_idempotency_key_def\<close>)
      next
        case (Some y)
        then have y: "y \<in> set (runs d)" "r_idempotency_key y = Some k" using fetchone_select_SomeD by fast+
        show ?thesis
        proof (cases "run_from_row y")
          case (Inl e')
          then show ?thesis
            by (intro refused [of e'])
              (use True k False Some \<open>create_run_body uuid now q d = Inl e\<close>
                in \<open>simp add: sql_create_or_get_run_def transaction_def sql_get_run_by_idempotency_key_def\<close>)
        next
          case (Inr x)
          note st = True k False Some Inr \<open>create_run_body uuid now q d = Inl e\<close>
          show ?thesis
          proof (cases "ri_request_fingerprint x = rq_fingerprint q")
            case True
            then show ?thesis
              by (intro known [of x y])
                (use st y in \<open>simp_all add: sql_create_or_get_run_def transaction_def sql_get_run_by_idempotency_key_def\<close>)
          next
            case False
            then show ?thesis
              by (intro refused [of "RunIdempotencyConflictError (ri_id x)"])
                (use st in \<open>simp add: sql_create_or_get_run_def transaction_def sql_get_run_by_idempotency_key_def\<close>)
          qed
        qed
      qed
    next
      case no: False
      then show ?thesis
        by (intro refused [of e])
          (use Inl False in \<open>auto simp: sql_create_or_get_run_def transaction_def split: option.split\<close>)
    qed
  qed
qed

text \<open>The new run is visible under its identifier; the others are as the binding left them.\<close>

lemma created_inv:
  assumes "sql_inv d" and "create_run_body uuid now q d = Inr (x, d')"
  shows "sql_inv d'"
proof -
  from assms(2) obtain row where r: "r_id row \<notin> r_id ` set (runs d)"
      "r_idempotency_key row \<noteq> None \<longrightarrow> r_idempotency_key row \<notin> r_idempotency_key ` set (runs d)"
      and st: "list_all2 row_change (runs d @ [row]) (runs d')"
    by (rule create_body_row) (rule that, simp_all)
  show ?thesis
    using all2_runs_ok [OF st runs_ok_snoc [OF assms(1) [unfolded sql_inv_def] r]] by (simp add: sql_inv_def)
qed

lemma created_view:
  assumes "create_run_body uuid now q d = Inr (x, d')" and "sql_view d i = Some r"
  shows "\<exists>r'. sql_view d' i = Some r' \<and> run_change r r'"
proof -
  from assms(1) obtain row where st: "list_all2 row_change (runs d @ [row]) (runs d')"
    by (rule create_body_row) (rule that)
  obtain y where y: "run_row_of d i = Some y" "r = row_core y" using assms(2) by (auto simp: sql_view_def)
  then have "fetchone (select (\<lambda>r. r_id r = i) (runs d @ [row])) = Some y"
    by (auto simp: run_row_of_def fetchone_def select_def split: list.splits)
  then obtain z where "run_row_of d' i = Some z" "row_change y z"
    using all2_row_of [OF st] by (auto simp: run_row_of_def)
  then show ?thesis using y(2) by (simp add: sql_view_def row_change_def)
qed

lemma created_core:
  assumes "sql_inv d" and "create_run_body uuid now q d = Inr (x, d')"
  shows "\<exists>r. sql_view d' (ri_id x) = Some r \<and> rc_key r = rq_idempotency_key q \<and> rc_fingerprint r = rq_fingerprint q"
proof -
  from assms(2) obtain row y where row: "r_id row = uuid" "r_idempotency_key row = rq_idempotency_key q"
      "r_request_fingerprint row = rq_fingerprint q" and fresh: "uuid \<notin> r_id ` set (runs d)"
      and st: "list_all2 row_change (runs d @ [row]) (runs d')"
      and y: "run_row_of d' uuid = Some y" "run_from_row y = Inr x"
    by (rule create_body_row) (use that in blast)
  have "select (\<lambda>r. r_id r = uuid) (runs d) = []" using fresh by (force simp: select_def filter_empty_conv)
  then have "fetchone (select (\<lambda>r. r_id r = uuid) (runs d @ [row])) = Some row"
    using row(1) by (simp add: fetchone_def select_def)
  then have "row_change row y" using all2_row_of [OF st] y(1) by (force simp: run_row_of_def)
  moreover have "ri_id x = r_id y" using run_from_row_fields [OF y(2)] by simp
  ultimately show ?thesis using y(1) row by (simp add: sql_view_def row_change_def run_change_def row_core_def)
qed

lemma create_error:
  "create_run_body uuid now q d = Inr (x, d') \<Longrightarrow> k \<in> r_idempotency_key ` set (runs d) \<Longrightarrow> k = rq_idempotency_key q \<Longrightarrow>
     k = None"
  by (rule create_body_row) auto

lemma create_sql_inv: "sql_inv d \<Longrightarrow> sql_inv (snd (sql_create_or_get_run uuid now q d))"
  by (rule create_cases [of uuid now q d]) (simp_all add: created_inv)

lemma create_sql_view:
  "sql_view d i = Some r \<Longrightarrow> \<exists>r'. sql_view (snd (sql_create_or_get_run uuid now q d)) i = Some r' \<and> run_change r r'"
  by (rule create_cases [of uuid now q d]) (simp_all add: created_view)

lemma key_row_unique:
  "sql_inv d \<Longrightarrow> x \<in> set (runs d) \<Longrightarrow> y \<in> set (runs d) \<Longrightarrow> r_idempotency_key x \<noteq> None \<Longrightarrow>
     r_idempotency_key x = r_idempotency_key y \<Longrightarrow> r_id x = r_id y"
  unfolding sql_inv_def runs_ok_def by blast

lemma create_sql_known:
  assumes inv: "sql_inv d" and v: "sql_view d i = Some r" and k: "rc_key r = rq_idempotency_key q"
    and ne: "rq_idempotency_key q \<noteq> None"
  shows "snd (sql_create_or_get_run uuid now q d) = d \<and>
    (\<forall>x b. fst (sql_create_or_get_run uuid now q d) = Inr (x, b) \<longrightarrow> \<not> b \<and> ri_id x = i \<and> rq_fingerprint q = rc_fingerprint r)"
proof -
  obtain y where y: "y \<in> set (runs d)" "r_id y = i" "r = row_core y"
    using v run_row_of_iff [OF inv] by (auto simp: sql_view_def)
  have ky: "r_idempotency_key y = rq_idempotency_key q" using k y(3) by (simp add: row_core_def)
  show ?thesis
  proof (cases rule: create_cases [of uuid now q d])
    case (known z x)
    have "r_id z = r_id y" by (rule key_row_unique [OF inv known(2) y(1)]) (use known(3,4) ky in simp_all)
    then have "z = y" using run_row_of_iff [OF inv, of "r_id y"] known(2) y(1) by (metis option.inject)
    then show ?thesis using known y run_from_row_fields [OF known(5)] by (simp add: row_core_def)
  next
    case (created x d')
    have "rq_idempotency_key q \<in> r_idempotency_key ` set (runs d)" using y(1) ky by (metis imageI)
    then have "rq_idempotency_key q = None" by (rule create_error [OF created(2) _ refl])
    then show ?thesis using ne by contradiction
  qed simp
qed

lemma create_sql_result:
  assumes inv: "sql_inv d" and c: "sql_create_or_get_run uuid now q d = (Inr (x, b), d')"
  shows "\<exists>r. sql_view d' (ri_id x) = Some r \<and> rc_key r = rq_idempotency_key q \<and> rc_fingerprint r = rq_fingerprint q"
proof (cases rule: create_cases [of uuid now q d])
  case (known y z)
  then have "x = z" "d' = d" using c by simp_all
  then show ?thesis using known run_from_row_fields [OF known(5)] run_row_of_iff [OF inv, of "r_id y" y]
    by (simp add: sql_view_def row_core_def)
next
  case (created z d2)
  then show ?thesis using c created_core [OF inv created(2)] by simp
qed (use c in simp)

section \<open>The contract holds\<close>

lemma sql_exec_inv: "sql_inv d \<Longrightarrow> sql_inv (sql_exec E wt now op d)"
  by (cases op) (simp_all add: create_sql_inv delete_run_inv delete_for_nodes_inv
      rows_step_inv [OF append_events_op_step] rows_step_inv [OF append_event_op_step]
      rows_step_inv [OF append_indexed_op_step] rows_step_inv [OF interrupt_step]
      rows_step_inv [OF finish_run_step] rows_step_inv [OF request_stop_step] rows_step_inv [OF update_status_step]
      rows_step_inv [OF merge_metadata_step] rows_step_inv [OF reference_step(1)]
      rows_step_inv [OF reference_step(2)] rows_step_inv [OF reference_step(3)])

lemma sql_exec_kept:
  assumes "sql_inv d" and "sql_view d i = Some r" and "\<not> deletes op i"
  shows "\<exists>r'. sql_view (sql_exec E wt now op d) i = Some r' \<and> run_change r r'"
  using assms(3)
  by (cases op) (auto simp: deletes_def create_sql_view [OF assms(2)] rows_step_view [OF append_events_op_step assms(2)]
      rows_step_view [OF append_event_op_step assms(2)] rows_step_view [OF append_indexed_op_step assms(2)]
      rows_step_view [OF interrupt_step [OF assms(1)] assms(2)]
      rows_step_view [OF finish_run_step [OF assms(1)] assms(2)]
      rows_step_view [OF request_stop_step [OF assms(1)] assms(2)] rows_step_view [OF update_status_step assms(2)]
      rows_step_view [OF merge_metadata_step assms(2)] rows_step_view [OF reference_step(1) assms(2)]
      rows_step_view [OF reference_step(2) assms(2)] rows_step_view [OF reference_step(3) assms(2)]
      intro: delete_run_view [OF assms(2)])

lemma sql_exec_change:
  assumes "sql_inv d" and "sql_view d i = Some r" and "sql_view (sql_exec E wt now op d) i = Some r'"
  shows "run_change r r'"
proof (cases "deletes op i")
  case False
  then show ?thesis using sql_exec_kept [OF assms(1,2), of op E wt now] assms(3) by auto
next
  case True
  then consider "op = DeleteRun i" | c ns where "op = DeleteForNodes c ns"
    by (cases op) (auto simp: deletes_def)
  then show ?thesis
  proof cases
    case 1
    have "rows_drop d (sql_exec E wt now op d)" using 1 delete_run_drop by simp
    from rows_drop_view [OF assms(1) this assms(3)] show ?thesis using assms(2) by auto
  next
    case 2
    then show ?thesis using delete_for_nodes_view [OF assms(1,2)] assms(3) by simp
  qed
qed

lemma sql_keys_unique:
  assumes "sql_inv d" and "sql_view d i = Some r" and "sql_view d j = Some r'" and "rc_key r = Some k"
    and "rc_key r' = Some k"
  shows "i = j"
proof -
  obtain x where x: "x \<in> set (runs d)" "r_id x = i" "r = row_core x"
    using assms(2) run_row_of_iff [OF assms(1)] by (auto simp: sql_view_def)
  obtain y where y: "y \<in> set (runs d)" "r_id y = j" "r' = row_core y"
    using assms(3) run_row_of_iff [OF assms(1)] by (auto simp: sql_view_def)
  have "r_id x = r_id y"
    by (rule key_row_unique [OF assms(1) x(1) y(1)]) (use assms(4,5) x(3) y(3) in \<open>simp_all add: row_core_def\<close>)
  then show ?thesis using x(2) y(2) by simp
qed

interpretation sql_store: run_store sql_view sql_inv sql_admissible "sql_exec E wt" sql_create_or_get_run for E wt
proof unfold_locales
  show "sql_inv d \<Longrightarrow> sql_admissible d op \<Longrightarrow> sql_inv (sql_exec E wt now op d)" for d op now
    by (rule sql_exec_inv)
  show "sql_inv d \<Longrightarrow> sql_admissible d op \<Longrightarrow> sql_view d i = Some r \<Longrightarrow>
      sql_view (sql_exec E wt now op d) i = Some r' \<Longrightarrow> run_change r r'" for d op i r r' now
    by (rule sql_exec_change)
  show "sql_inv d \<Longrightarrow> sql_admissible d op \<Longrightarrow> sql_view d i = Some r \<Longrightarrow> \<not> deletes op i \<Longrightarrow>
      sql_view (sql_exec E wt now op d) i \<noteq> None" for d op i r now
    using sql_exec_kept [of d i r op E wt now] by auto
  show "sql_inv d \<Longrightarrow> sql_view d i = Some r \<Longrightarrow> sql_view d j = Some r' \<Longrightarrow> rc_key r = Some k \<Longrightarrow>
      rc_key r' = Some k \<Longrightarrow> i = j" for d i r j r' k
    by (rule sql_keys_unique)
  show "sql_inv d \<Longrightarrow> sql_view d i = Some r \<Longrightarrow> rc_key r = rq_idempotency_key q \<Longrightarrow> rq_idempotency_key q \<noteq> None \<Longrightarrow>
      snd (sql_create_or_get_run uuid now q d) = d \<and>
      (\<forall>x b. fst (sql_create_or_get_run uuid now q d) = Inr (x, b) \<longrightarrow> \<not> b \<and> ri_id x = i \<and> rq_fingerprint q = rc_fingerprint r)"
    for d i r uuid now and q :: run_request
    by (rule create_sql_known)
  show "sql_inv d \<Longrightarrow> sql_admissible d (CreateRun uuid q) \<Longrightarrow> sql_create_or_get_run uuid now q d = (Inr (x, b), d') \<Longrightarrow>
      sql_exec E wt now (CreateRun uuid q) d = d' \<and>
      (\<exists>r. sql_view d' (ri_id x) = Some r \<and> rc_key r = rq_idempotency_key q \<and> rc_fingerprint r = rq_fingerprint q)"
    for d d' uuid now x b and q :: run_request
    using create_sql_result [of d uuid now q x b d'] by simp
qed

end
