(* ===== verification/RunProps.thy ===== *)
theory RunProps
  imports RunSql TaskAgree
begin

text \<open>
  The properties of the run repositories: finished runs are final, an idempotency key creates
  one run, events are numbered without a gap, stored payloads are read back, and the private
  entries of a run are not shown.
\<close>

section \<open>Events in SQLite\<close>

text \<open>Every event belongs to a run, lies below its count, and no index occurs twice in a run.\<close>

definition events_below :: "db \<Rightarrow> bool" where
  "events_below d =
     (sql_inv d \<and>
      (\<forall>e \<in> set (run_events d). \<exists>r \<in> set (runs d). r_id r = e_run_id e \<and> e_event_index e < r_event_count r) \<and>
      distinct (map (\<lambda>e. (e_run_id e, e_event_index e)) (run_events d)))"

definition events_step :: "db \<Rightarrow> db \<Rightarrow> bool" where
  "events_step d d' = (\<exists>P. run_events d' = delete_rows P (run_events d))"

lemma events_step_same: "run_events d' = run_events d \<Longrightarrow> events_step d d'"
  unfolding events_step_def by (rule exI [of _ "\<lambda>_. False"]) (simp add: delete_rows_def)

lemma all2_in_set_left: "list_all2 row_change rs rs' \<Longrightarrow> r \<in> set rs \<Longrightarrow> \<exists>r' \<in> set rs'. row_change r r'"
  by (induction rule: list_all2_induct) auto

lemma rows_and_events_step:
  assumes "events_below d" and "list_all2 row_change rs (runs d')"
    and "\<And>r. r \<in> set (runs d) \<Longrightarrow> r_id r \<in> e_run_id ` set (run_events d') \<Longrightarrow> r \<in> set rs"
    and "sql_inv d'" and "events_step d d'"
  shows "events_below d'"
proof -
  obtain P where P: "run_events d' = delete_rows P (run_events d)" using assms(5) by (auto simp: events_step_def)
  have "\<exists>r' \<in> set (runs d'). r_id r' = e_run_id e \<and> e_event_index e < r_event_count r'"
    if "e \<in> set (run_events d')" for e
  proof -
    have "e \<in> set (run_events d)" using that P by (simp add: delete_rows_def)
    then obtain r where r: "r \<in> set (runs d)" "r_id r = e_run_id e" "e_event_index e < r_event_count r"
      using assms(1) unfolding events_below_def by blast
    have "r_id r \<in> e_run_id ` set (run_events d')" using that r(2) by (metis imageI)
    then obtain r' where "r' \<in> set (runs d')" "row_change r r'"
      using all2_in_set_left [OF assms(2)] assms(3) [OF r(1)] by blast
    then show ?thesis using r by (intro bexI [of _ r']) (auto simp: row_change_def run_change_def row_core_def)
  qed
  moreover have "distinct (map (\<lambda>e. (e_run_id e, e_event_index e)) (run_events d'))"
    using assms(1) unfolding P events_below_def by (simp add: distinct_map_delete_rows)
  ultimately show ?thesis using assms(4) by (simp add: events_below_def)
qed

lemma step_keeps_events:
  "events_below d \<Longrightarrow> rows_step d d' \<Longrightarrow> events_step d d' \<Longrightarrow> events_below d'"
  by (rule rows_and_events_step [where rs = "runs d"])
    (auto simp: rows_step_def events_below_def intro: rows_step_inv)

lemma insert_indexed_event_events:
  assumes "insert_indexed_event E r n p t d = Inr (e, d')"
  shows "runs d' = runs d" and "\<exists>x. run_events d' = run_events d @ [x] \<and> e_run_id x = r_id r \<and> e_event_index x = n \<and>
    (r_id r, n) \<notin> (\<lambda>x. (e_run_id x, e_event_index x)) ` set (run_events d)"
proof -
  have same: "run_events d1 = run_events d" if "store_text_content E t d = Inr (x, d1)" for t x d1
    using that by (auto simp: store_text_content_def put_text_def Let_def map_result_eq_Inr split: if_splits)
  show "\<exists>x. run_events d' = run_events d @ [x] \<and> e_run_id x = r_id r \<and> e_event_index x = n \<and>
    (r_id r, n) \<notin> (\<lambda>x. (e_run_id x, e_event_index x)) ` set (run_events d)"
    using assms same
    by (auto simp: insert_indexed_event_def Let_def bind_result_eq_Inr map_result_eq_Inr insert_event_row_def
        split: prod.splits if_splits)
qed (rule insert_indexed_event_runs [OF assms])

lemma append_event_events:
  assumes "events_below d" and "append_event_in_connection E now i p d = Inr (e, d')"
  shows "events_below d'"
proof -
  obtain r d1 where r: "run_row_of d i = Some r"
    and ins: "insert_indexed_event E r (r_event_count r) p now d = Inr (e, d1)"
    and d': "d' = update_run_rows i (\<lambda>r. r\<lparr>r_event_count := Suc (r_event_count r), r_updated_at := now\<rparr>) d1"
    using assms(2)
    by (auto simp: append_event_in_connection_def bind_result_eq_Inr require_run_row_def split: option.splits prod.splits)
  obtain x where x: "run_events d1 = run_events d @ [x]" "e_run_id x = r_id r" "e_event_index x = r_event_count r"
      "(r_id r, r_event_count r) \<notin> (\<lambda>x. (e_run_id x, e_event_index x)) ` set (run_events d)"
    using insert_indexed_event_events(2) [OF ins] by blast
  have ev: "run_events d' = run_events d @ [x]" using x(1) d' by (simp add: update_run_rows_def)
  have st: "rows_step d d'" by (rule append_event_step [OF assms(2)])
  have inv: "sql_inv d" using assms(1) by (simp add: events_below_def)
  let ?d0 = "d'\<lparr>run_events := run_events d\<rparr>"
  have "events_below ?d0"
    by (rule step_keeps_events [OF assms(1)]) (use st in \<open>simp_all add: rows_step_def events_step_same\<close>)
  moreover have ri: "r \<in> set (runs d)" "r_id r = i" using r run_row_of_iff [OF inv] by blast+
  moreover have "r\<lparr>r_event_count := Suc (r_event_count r), r_updated_at := now\<rparr> \<in> set (runs d')"
    using ri insert_indexed_event_events(1) [OF ins] unfolding d' update_run_rows_def update_rows_def by force
  ultimately show ?thesis
    using x(2-4) unfolding events_below_def sql_inv_def ev by (auto intro: bexI [rotated])
qed

lemma append_all_events: "events_below d \<Longrightarrow> append_all_in_connection E now i ps d = Inr (es, d') \<Longrightarrow> events_below d'"
proof (induction ps arbitrary: d es)
  case (Cons p ps)
  then obtain e d1 es1 where "append_event_in_connection E now i p d = Inr (e, d1)"
      "append_all_in_connection E now i ps d1 = Inr (es1, d')"
    by (auto simp: bind_result_eq_Inr split: prod.splits)
  then show ?case using append_event_events Cons by blast
qed simp

lemma append_event_op_events: "events_below d \<Longrightarrow> events_below (snd (sql_append_event E now i p d))"
  by (auto simp: sql_append_event_def transaction_def append_event_events split: prod.splits sum.splits)

lemma append_events_op_events: "events_below d \<Longrightarrow> events_below (snd (sql_append_events E now i ps d))"
  by (auto simp: sql_append_events_def transaction_def append_all_events split: prod.splits sum.splits)

lemma update_run_rows_events: "run_events (update_run_rows i f d) = run_events d"
  by (simp add: update_run_rows_def)

lemma request_stop_events: "events_below d \<Longrightarrow> events_below (snd (sql_request_stop E now i d))"
proof (cases "run_row_of d i")
  case (Some r)
  assume ok: "events_below d"
  have inv: "sql_inv d" using ok by (simp add: events_below_def)
  show ?thesis
  proof (cases "is_finished (r_status r)")
    case False
    have "events_below (update_run_rows i (\<lambda>r. r\<lparr>r_status := ''stopping'', r_updated_at := now\<rparr>) d)"
      by (rule step_keeps_events [OF ok unfinished_update_step [OF inv Some False]])
        (simp_all add: events_step_same update_run_rows_events)
    from append_event_op_events [OF this] show ?thesis using Some False
      by (simp add: sql_request_stop_def Let_def split: prod.split sum.split) (metis snd_conv)
  qed (use Some ok in \<open>simp add: sql_request_stop_def\<close>)
qed (simp add: sql_request_stop_def)

lemma finish_binding_events:
  assumes "finish_run_binding_in_connection E now i st err summary d = Inr (v, d')"
  shows "run_events d' = run_events d"
proof -
  have "run_events d1 = run_events d0" if "update_step c p s x y t d0 = Inr d1" for c p s x y t d0 d1
    using that by (auto simp: update_step_def Let_def split: if_splits)
  then show ?thesis
    using assms
    by (auto simp: finish_run_binding_in_connection_def Let_def bind_result_eq_Inr delete_binding_def
        bump_revision_def delete_active_tasks_def split: option.splits if_splits)
qed

lemma finish_body_events:
  assumes "events_below d" and "run_row_of d (r_id r) = Some r" and "\<not> is_finished (r_status r)"
    and "finish_run_body E wt now st err r d = Inr (r', d')"
  shows "events_below d'"
proof -
  let ?up = "\<lambda>md d1. update_run_rows (r_id r) (\<lambda>r. r\<lparr>r_status := st, r_metadata_json := Some (json_field md),
                 r_finished_at := Some now, r_updated_at := now\<rparr>) d1"
  let ?del = "\<lambda>md d1. (?up md d1)\<lparr>run_events := delete_rows (\<lambda>x. e_run_id x = r_id r) (run_events (?up md d1))\<rparr>"
  obtain md v d1 ev x where b: "(if wt then finish_run_binding_in_connection E now (r_id r) st err (r_summary r) d
        else Inr (None, d)) = Inr (v, d1)"
    and a: "append_event_in_connection E now (r_id r) ev (?del md d1) = Inr (x, d')"
    using assms(4) by (auto simp: finish_run_body_def Let_def bind_result_eq_Inr map_result_eq_Inr split: prod.splits)
  have d1: "runs d1 = runs d" "run_events d1 = run_events d"
    using b finish_binding_runs finish_binding_events by (auto split: if_splits)
  have "sql_inv d1" using assms(1) d1(1) by (simp add: events_below_def sql_inv_def)
  then have "rows_step d1 (?up md d1)"
    by (rule unfinished_update_step [where r = r]) (use assms(2,3) d1 in \<open>simp_all add: run_row_of_def\<close>)
  then have "rows_step d (?del md d1)" using d1 by (simp add: rows_step_def)
  moreover have "events_step d (?del md d1)"
    using d1(2) unfolding events_step_def by (intro exI [of _ "\<lambda>x. e_run_id x = r_id r"]) (simp add: update_run_rows_def)
  ultimately have "events_below (?del md d1)" by (rule step_keeps_events [OF assms(1)])
  then show ?thesis by (rule append_event_events [OF _ a])
qed

lemma reclaim_keeps_events: "events_below d \<Longrightarrow> events_below (snd (reclaim_blobs d))"
  by (simp add: events_below_def sql_inv_def reclaim_blobs_def Let_def)

lemma finish_run_events:
  assumes "events_below d"
  shows "events_below (snd (sql_finish_run E wt now i st err d))"
proof (cases "run_row_of d i")
  case (Some r)
  have "sql_inv d" using assms by (simp add: events_below_def)
  then have i: "r_id r = i" using Some run_row_of_iff by blast
  show ?thesis
  proof (cases "is_finished (r_status r)")
    case False
    have "events_below d'" if "finish_run_body E wt now st err r d = Inr (r', d')" for r' d'
      by (rule finish_body_events [OF assms _ False that]) (simp add: i Some)
    then show ?thesis using Some False assms
      by (auto simp: sql_finish_run_def require_run_row_def transaction_def reclaim_keeps_events split: sum.split prod.split)
  qed (use Some assms in \<open>simp add: sql_finish_run_def require_run_row_def\<close>)
qed (use assms in \<open>simp add: sql_finish_run_def require_run_row_def\<close>)

lemma bind_run_events:
  assumes "bind_run_in_connection now i b d = Inr (gp, d')"
  shows "run_events d' = run_events d"
proof -
  have "run_events d1 = run_events d0" if "insert_binding row d0 = Inr d1" for row d0 d1
    using that by (auto simp: insert_binding_def split: if_splits)
  then show ?thesis
    using assms by (auto simp: bind_run_in_connection_def Let_def bind_result_eq_Inr map_result_eq_Inr
        split: option.splits if_splits)
qed

lemma create_body_events:
  assumes "create_run_body i now q d = Inr (x, d')"
  shows "run_events d' = run_events d"
proof -
  have ins: "insert_run_in_connection i now q d = Inr d'"
    using assms by (auto simp: create_run_body_def bind_result_eq_Inr map_result_eq_Inr split: option.splits)
  have row: "run_events d2 = run_events d0" if "insert_run_row row d0 = Inr d2" for row d0 d2
    using that by (auto simp: insert_run_row_def Let_def split: if_splits)
  show ?thesis using ins
    by (auto simp: insert_run_in_connection_def bind_result_eq_Inr update_run_rows_events
        dest!: bind_run_events row split: option.splits)
qed

lemma create_events: "events_below d \<Longrightarrow> events_below (snd (sql_create_or_get_run uuid now q d))"
proof (rule create_cases [of uuid now q d])
  fix x d' assume ok: "events_below d" and res: "sql_create_or_get_run uuid now q d = (Inr (x, True), d')"
    and body: "create_run_body uuid now q d = Inr (x, d')"
  from body obtain row where st: "list_all2 row_change (runs d @ [row]) (runs d')" by (rule create_body_row) (rule that)
  have inv: "sql_inv d'" using created_inv [OF _ body] ok by (simp add: events_below_def)
  have "events_below d'"
    by (rule rows_and_events_step [OF ok st _ inv]) (simp_all add: events_step_same create_body_events [OF body])
  then show "events_below (snd (sql_create_or_get_run uuid now q d))" using res by simp
qed simp_all

lemma events_below_same:
  "runs d' = runs d \<Longrightarrow> run_events d' = run_events d \<Longrightarrow> events_below d' = events_below d"
  by (simp add: events_below_def sql_inv_def)

lemma delete_rows_events: "events_below d \<Longrightarrow> events_below (delete_run_rows P d)"
proof -
  assume ok: "events_below d"
  let ?gone = "r_id ` set (select P (runs d))"
  have ev: "run_events (delete_run_rows P d) = delete_rows (\<lambda>e. e_run_id e \<in> ?gone) (run_events d)"
    by (simp add: delete_run_rows_def Let_def)
  have "list_all2 row_change (delete_rows P (runs d)) (runs (delete_run_rows P d))"
    unfolding runs_delete_run_rows by (rule map_forget_step)
  then show ?thesis
  proof (rule rows_and_events_step [OF ok])
    show "sql_inv (delete_run_rows P d)"
      using ok rows_drop_inv [OF _ rows_drop_delete] by (simp add: events_below_def)
    show "events_step d (delete_run_rows P d)" unfolding events_step_def using ev by blast
    fix r assume r: "r \<in> set (runs d)" "r_id r \<in> e_run_id ` set (run_events (delete_run_rows P d))"
    obtain e where "e \<in> set (run_events (delete_run_rows P d))" "r_id r = e_run_id e" using r(2) by blast
    then have "r_id r \<notin> ?gone" unfolding ev delete_rows_def by simp
    then have "\<not> P r" using r(1) by (auto simp: select_def)
    then show "r \<in> set (delete_rows P (runs d))" using r(1) by (simp add: delete_rows_def)
  qed
qed

lemma delete_run_events: "events_below d \<Longrightarrow> events_below (sql_delete_run i d)"
  by (simp add: sql_delete_run_def reclaim_keeps_events delete_rows_events)

lemma delete_for_nodes_events: "events_below d \<Longrightarrow> events_below (snd (delete_runs_for_deleted_nodes c ns d))"
proof (rule delete_for_nodes_cases [of c ns d])
  fix P Q d'
  assume ok: "events_below d" and d': "d' = d \<or> d' = delete_run_rows P d"
    and same: "runs (snd (delete_runs_for_deleted_nodes c ns d)) = runs (delete_run_rows Q d')"
      "run_events (snd (delete_runs_for_deleted_nodes c ns d)) = run_events (delete_run_rows Q d')"
  have "events_below d'" using d' ok delete_rows_events by blast
  then have "events_below (delete_run_rows Q d')" by (rule delete_rows_events)
  then show ?thesis unfolding events_below_same [OF same] .
qed

lemma finish_all_events: "events_below d \<Longrightarrow> events_below (snd (sql_finish_all E wt now is d))"
proof (induction "is" arbitrary: d)
  case (Cons i "is")
  let ?f = "sql_finish_run E wt now i ''interrupted'' (Some ''interrupted on startup'') d"
  have "events_below (snd ?f)" by (rule finish_run_events [OF Cons.prems])
  with Cons.IH [OF this] show ?case by (cases ?f) (simp split: sum.split)
qed simp

lemma interrupt_events: "events_below d \<Longrightarrow> events_below (snd (sql_mark_unfinished_as_interrupted E wt now d))"
  using finish_all_events
  by (auto simp: sql_mark_unfinished_as_interrupted_def Let_def split: prod.splits sum.splits) (metis snd_conv)+

text \<open>
  While a sequence of indexed events is inserted, the count of its run is behind; the events of
  that run lie below the index of the next one.
\<close>

definition events_below_but :: "string \<Rightarrow> nat \<Rightarrow> db \<Rightarrow> bool" where
  "events_below_but i n d =
     (sql_inv d \<and>
      (\<forall>e \<in> set (run_events d). \<exists>r \<in> set (runs d). r_id r = e_run_id e \<and>
         e_event_index e < (if r_id r = i then n else r_event_count r)) \<and>
      distinct (map (\<lambda>e. (e_run_id e, e_event_index e)) (run_events d)))"

lemma events_below_but_count:
  assumes "events_below d" and "run_row_of d i = Some r"
  shows "events_below_but i (r_event_count r) d"
proof -
  have inv: "sql_inv d" using assms(1) by (simp add: events_below_def)
  have "r' = r" if "r' \<in> set (runs d)" "r_id r' = i" for r'
    using that assms(2) run_row_of_iff [OF inv] by (metis option.inject)
  then show ?thesis using assms(1) by (fastforce simp: events_below_def events_below_but_def)
qed

lemma insert_sequence_events:
  assumes "events_below_but (r_id r) n d" and "r \<in> set (runs d)"
    and "insert_in_sequence E now r n xs d = Inr (es, d')"
  shows "events_below_but (r_id r) (n + length xs) d' \<and> runs d' = runs d"
  using assms
proof (induction xs arbitrary: n d es)
  case (Cons x xs)
  then obtain e d1 es1 where ins: "insert_indexed_event E r n (ie_payload x) (or_now now (ie_created_at x)) d = Inr (e, d1)"
    and rest: "insert_in_sequence E now r (Suc n) xs d1 = Inr (es1, d')"
    by (auto simp: bind_result_eq_Inr split: if_splits prod.splits)
  have r1: "runs d1 = runs d" by (rule insert_indexed_event_events(1) [OF ins])
  obtain y where y: "run_events d1 = run_events d @ [y]" "e_run_id y = r_id r" "e_event_index y = n"
      "(r_id r, n) \<notin> (\<lambda>x. (e_run_id x, e_event_index x)) ` set (run_events d)"
    using insert_indexed_event_events(2) [OF ins] by blast
  have old: "\<exists>r' \<in> set (runs d1). r_id r' = e_run_id e \<and> e_event_index e < (if r_id r' = r_id r then Suc n else r_event_count r')"
    if e: "e \<in> set (run_events d)" for e
  proof -
    obtain x where "x \<in> set (runs d)" "r_id x = e_run_id e"
        "e_event_index e < (if r_id x = r_id r then n else r_event_count x)"
      using Cons.prems(1) e unfolding events_below_but_def by blast
    then show ?thesis unfolding r1 by (intro bexI [of _ x]) (auto split: if_splits)
  qed
  have "events_below_but (r_id r) (Suc n) d1"
    unfolding events_below_but_def
  proof (intro conjI ballI)
    show "sql_inv d1" using Cons.prems(1) by (simp add: events_below_but_def sql_inv_def r1)
    show "distinct (map (\<lambda>e. (e_run_id e, e_event_index e)) (run_events d1))"
      using Cons.prems(1) y by (auto simp: events_below_but_def)
    fix e assume "e \<in> set (run_events d1)"
    then consider "e \<in> set (run_events d)" | "e = y" using y(1) by auto
    then show "\<exists>r' \<in> set (runs d1). r_id r' = e_run_id e \<and>
        e_event_index e < (if r_id r' = r_id r then Suc n else r_event_count r')"
      by cases (rule old, use Cons.prems(2) y(2,3) r1 in auto)
  qed
  from Cons.IH [OF this _ rest] Cons.prems(2) r1 show ?case by simp
qed simp

lemma append_indexed_body_events:
  assumes "events_below d" and "append_indexed_body E now i xs d = Inr (es, d')"
  shows "events_below d'"
proof -
  let ?xs = "sort_key ie_index xs"
  obtain r d1 where r: "run_row_of d i = Some r"
    and ins: "insert_in_sequence E now r (r_event_count r) ?xs d = Inr (es, d1)"
    and d': "d' = update_run_rows i (\<lambda>r. r\<lparr>r_event_count := r_event_count r + length ?xs,
        r_updated_at := or_now now (ie_created_at (last ?xs))\<rparr>) d1"
    using assms(2) by (auto simp: append_indexed_body_def Let_def bind_result_eq_Inr require_run_row_def
        split: option.splits prod.splits)
  have inv: "sql_inv d" using assms(1) by (simp add: events_below_def)
  have ri: "r \<in> set (runs d)" "r_id r = i" using r run_row_of_iff [OF inv] by blast+
  have b: "events_below_but i (r_event_count r + length ?xs) d1" "runs d1 = runs d"
    using insert_sequence_events [OF _ ri(1) ins] events_below_but_count [OF assms(1) r] ri(2) by simp_all
  let ?f = "\<lambda>x :: run_row. if r_id x = i then x\<lparr>r_event_count := r_event_count x + length ?xs,
        r_updated_at := or_now now (ie_created_at (last ?xs))\<rparr> else x"
  have rows: "runs d' = map ?f (runs d)" "run_events d' = run_events d1"
    by (simp_all add: d' update_run_rows_def update_rows_def b(2))
  have own: "x = r" if "x \<in> set (runs d)" "r_id x = i" for x
    using that r run_row_of_iff [OF inv] by (metis option.inject)
  have "sql_inv d'" using rows_step_inv [OF append_indexed_step [OF assms(2)] inv] .
  moreover have "\<exists>y \<in> set (runs d'). r_id y = e_run_id e \<and> e_event_index e < r_event_count y"
    if e: "e \<in> set (run_events d')" for e
  proof -
    obtain x where x: "x \<in> set (runs d)" "r_id x = e_run_id e"
        "e_event_index e < (if r_id x = i then r_event_count r + length ?xs else r_event_count x)"
      using b e unfolding events_below_but_def rows(2) by auto
    have "?f x \<in> set (runs d')" using x(1) by (auto simp: rows(1))
    moreover have "e_event_index e < r_event_count (?f x)" using x own by (cases "r_id x = i") auto
    ultimately show ?thesis using x(2) by (intro bexI [of _ "?f x"]) auto
  qed
  moreover have "distinct (map (\<lambda>e. (e_run_id e, e_event_index e)) (run_events d'))"
    using b(1) by (simp add: events_below_but_def rows(2))
  ultimately show ?thesis by (simp add: events_below_def)
qed

lemma append_indexed_events: "events_below d \<Longrightarrow> events_below (snd (sql_append_indexed_events E now i xs d))"
  by (auto simp: sql_append_indexed_events_def transaction_def append_indexed_body_events split: prod.splits sum.splits)

lemma read_after_update_events: "run_events (snd (update_run_and_read i f ok d)) = run_events d"
  by (auto simp: update_run_and_read_def transaction_def update_run_rows_events
      split: prod.split sum.split option.split if_split)

lemma merge_events: "run_events (snd (sql_merge_metadata now i md d)) = run_events d"
  by (auto simp: sql_merge_metadata_def merge_metadata_body_def transaction_def bind_result_eq_Inr map_result_eq_Inr
      Let_def update_run_rows_events split: prod.split sum.split)

lemma sql_exec_events:
  assumes "events_below d"
  shows "events_below (sql_exec E wt now op d)"
proof (cases op)
  case (UpdateStatus i st)
  then show ?thesis
    using step_keeps_events [OF assms update_status_step events_step_same, of now i st]
    by (simp add: sql_update_status_def Let_def)
next
  case (MergeMetadata i md)
  then show ?thesis using step_keeps_events [OF assms merge_metadata_step events_step_same, of now i md] merge_events by simp
next
  case (UpdateTarget i nd)
  then show ?thesis using step_keeps_events [OF assms reference_step(1) events_step_same, of now i nd]
    by (simp add: sql_update_target_node_def read_after_update_events)
next
  case (UpdateAnchor i nd)
  then show ?thesis using step_keeps_events [OF assms reference_step(2) events_step_same, of now i nd]
    by (simp add: sql_update_anchor_node_def read_after_update_events)
next
  case (UpdateParent i x)
  then show ?thesis using step_keeps_events [OF assms reference_step(3) events_step_same, of now i x]
    by (simp add: sql_update_cancellation_parent_def read_after_update_events)
qed (simp_all add: create_events [OF assms] append_events_op_events [OF assms] finish_run_events [OF assms]
    request_stop_events [OF assms] delete_run_events [OF assms] append_event_op_events [OF assms]
    append_indexed_events [OF assms] interrupt_events [OF assms] delete_for_nodes_events [OF assms])

lemma sql_exec_all_events: "events_below d \<Longrightarrow> events_below (sql_store.exec_all E wt es d)"
  by (induction es arbitrary: d) (simp_all add: sql_exec_events)

lemma sql_all_admissible [simp]: "sql_store.all_admissible E wt es d"
  by (induction es arbitrary: d) (simp_all add: sql_admissible_def)

section \<open>Payloads and their text\<close>

text \<open>What a dictionary is after it was written with sorted keys and read again.\<close>

definition in_key_order :: "(string \<times> pyval) list \<Rightarrow> (string \<times> pyval) list" where
  "in_key_order d = map (\<lambda>p. (fst p, json_norm True (snd p))) (sort_key fst d)"

lemma field_seps: "seps_ok '', '' '': ''"
  by (simp add: seps_ok_def is_json_space_def)

lemma json_field_not_empty: "json_field d \<noteq> []"
  by (simp add: json_field_def dumps_members del: json_dumps.simps)

lemma load_json_field: "json_ok (PDict d) \<Longrightarrow> load_dict (Some (json_field d)) = Inr (in_key_order d)"
  using json_loads_dumps [OF field_seps, of "PDict d" True] json_field_not_empty [of d]
  by (simp add: load_dict_def load_json_def json_field_def norm_members in_key_order_def or_empty_def
      truthy_opt_def del: json_norm.simps json_dumps.simps json_ok.simps)

lemma json_ok_dict_set: "json_ok (PDict d) \<Longrightarrow> json_ok v \<Longrightarrow> json_ok (PDict (dict_set k v d))"
proof -
  assume ok: "json_ok (PDict d)" "json_ok v"
  have "set (dict_set k v d) \<subseteq> insert (k, v) (set d)" by (induction d) (auto split: if_splits)
  then show ?thesis using ok distinct_dict_set [of d k v] by auto
qed

lemma json_ok_dict_setdefault: "json_ok (PDict d) \<Longrightarrow> json_ok v \<Longrightarrow> json_ok (PDict (dict_setdefault k v d))"
  by (auto simp: dict_setdefault_def map_of_eq_None_iff split: option.split)

lemma json_ok_event_payload:
  "json_ok (PDict source) \<Longrightarrow> json_int_ok (int n) \<Longrightarrow> json_ok (PDict (event_payload i c k t n source))"
  unfolding event_payload_def
  by (intro json_ok_dict_set json_ok_dict_setdefault) (simp_all add: of_opt_def split: option.split)

section \<open>Reading an appended event\<close>

lemma event_from_row_text:
  assumes "read_text E d (e_payload_inline e) (e_payload_blob_id e) = Inr (json_field p)"
    and "e_payload_inline e \<noteq> None \<or> truthy_opt (e_payload_blob_id e)" and "json_ok (PDict p)"
  shows "event_from_row E d e = Inr
    \<lparr>ev_id = e_id e, ev_run_id = e_run_id e, ev_conversation_id = e_conversation_id e,
     ev_event_index = e_event_index e, ev_event_type = e_event_type e, ev_payload = in_key_order p,
     ev_payload_inline = e_payload_inline e, ev_payload_blob_id = e_payload_blob_id e, ev_created_at = e_created_at e\<rparr>"
  using assms(1,2) load_json_field [OF assms(3)]
  by (cases "e_payload_inline e") (auto simp: event_from_row_def read_text_def)

lemma stored_text_readable:
  assumes "codec_ok E" and "store_text_content E t d = Inr (x, d')"
  shows "s_inline x \<noteq> None \<or> truthy_opt (s_blob_id x)"
  using assms by (auto simp: store_text_content_def put_text_def Let_def map_result_eq_Inr truthy_opt_def codec_ok_def
      split: if_splits)

lemma events_from_count:
  assumes "events_below d" and "run_row_of d i = Some r" and "run_events d' = run_events d @ [x]"
    and "e_run_id x = i" and "e_event_index x = r_event_count r"
  shows "filter (\<lambda>e. max 0 (int (r_event_count r)) \<le> int (e_event_index e)) (events_of_run d' i) = [x]"
proof -
  have inv: "sql_inv d" using assms(1) by (simp add: events_below_def)
  have "e_event_index e < r_event_count r" if e: "e \<in> set (run_events d)" "e_run_id e = i" for e
  proof -
    obtain r' where r': "r' \<in> set (runs d)" "r_id r' = i" "e_event_index e < r_event_count r'"
      using assms(1) e unfolding events_below_def by blast
    then have "run_row_of d i = Some r'" using run_row_of_iff [OF inv] by blast
    then show ?thesis using r'(3) assms(2) by simp
  qed
  then have none: "filter (\<lambda>e. r_event_count r \<le> e_event_index e) (select (\<lambda>e. e_run_id e = i) (run_events d)) = []"
    by (auto simp: select_def filter_empty_conv not_le)
  have "filter (\<lambda>e. r_event_count r \<le> e_event_index e) (events_of_run d' i) =
      sort_key e_event_index (filter (\<lambda>e. r_event_count r \<le> e_event_index e) (select (\<lambda>e. e_run_id e = i) (run_events d')))"
    by (simp add: events_of_run_def filter_sort)
  also have "\<dots> = [x]" using none assms(3-5) by (simp add: select_def)
  finally show ?thesis by simp
qed

lemma append_event_succeeds:
  assumes "codec_ok E" and "blobs_ok E d" and "events_below d" and "run_row_of d i = Some r"
    and "has_conversation d (r_conversation_id r)"
  obtains row d' where "append_event_in_connection E now i source d = Inr (row, d')"
    and "read_text E d' (e_payload_inline row) (e_payload_blob_id row) = Inr (json_field
      (event_payload i (r_conversation_id r) (r_kind r) (r_target_node r) (r_event_count r) source))"
    and "e_payload_inline row \<noteq> None \<or> truthy_opt (e_payload_blob_id row)"
    and "e_run_id row = i" and "e_event_index row = r_event_count r"
    and "run_events d' = run_events d @ [row]"
proof -
  have inv: "sql_inv d" using assms(3) by (simp add: events_below_def)
  have ri: "r \<in> set (runs d)" "r_id r = i" using assms(4) run_row_of_iff [OF inv] by blast+
  let ?p = "event_payload i (r_conversation_id r) (r_kind r) (r_target_node r) (r_event_count r) source"
  obtain x d1 where x: "store_text_content E (json_field ?p) d = Inr (x, d1)" "only_blobs d d1"
      "opt_ok (has_blob d1) (s_blob_id x)" "read_text E d1 (s_inline x) (s_blob_id x) = Inr (json_field ?p)"
    using store_text_Inr [OF assms(1,2), of "json_field ?p"] by metis
  let ?e = "\<lparr>e_id = Suc (run_event_seq d1), e_run_id = r_id r, e_conversation_id = r_conversation_id r,
             e_event_index = r_event_count r, e_event_type = event_type_of ?p, e_payload_inline = s_inline x,
             e_payload_blob_id = s_blob_id x, e_created_at = now\<rparr>"
  have same: "runs d1 = runs d" "conversations d1 = conversations d" "run_events d1 = run_events d"
    using x(2) by (cases d; cases d1; simp add: only_blobs_def)+
  have fresh: "(r_id r, r_event_count r) \<notin> (\<lambda>x. (e_run_id x, e_event_index x)) ` set (run_events d1)"
  proof
    assume "(r_id r, r_event_count r) \<in> (\<lambda>x. (e_run_id x, e_event_index x)) ` set (run_events d1)"
    then obtain e where e: "e \<in> set (run_events d)" "e_run_id e = i" "e_event_index e = r_event_count r"
      using same(3) ri(2) by auto
    then obtain r' where "r' \<in> set (runs d)" "r_id r' = i" "e_event_index e < r_event_count r'"
      using assms(3) unfolding events_below_def by blast
    then show False using e(3) run_row_of_iff [OF inv, of i] assms(4) by (metis less_irrefl option.inject)
  qed
  have ok: "has_run d1 (r_conversation_id r) (r_id r)" "has_conversation d1 (r_conversation_id r)"
    using ri same assms(5) by (auto simp: has_run_def has_conversation_def)
  have "insert_event_row ?e d1 = Inr (d1\<lparr>run_events := run_events d1 @ [?e], run_event_seq := Suc (run_event_seq d1)\<rparr>)"
    using ok x(3) fresh by (simp add: insert_event_row_def)
  then have "append_event_in_connection E now i source d = Inr (?e, update_run_rows i
      (\<lambda>r. r\<lparr>r_event_count := Suc (r_event_count r), r_updated_at := now\<rparr>)
      (d1\<lparr>run_events := run_events d1 @ [?e], run_event_seq := Suc (run_event_seq d1)\<rparr>))" (is "_ = Inr (_, ?d')")
    using x(1) assms(4) ri(2)
    by (simp add: append_event_in_connection_def require_run_row_def insert_indexed_event_def Let_def)
  moreover have "read_text E ?d' (s_inline x) (s_blob_id x) = read_text E d1 (s_inline x) (s_blob_id x)"
    by (simp add: read_text_def get_text_def update_run_rows_def split: option.split)
  ultimately show thesis
    using x(4) stored_text_readable [OF assms(1) x(1)] ri(2) same(3)
    by (intro that [of ?e ?d']) (auto simp: update_run_rows_def)
qed

section \<open>Properties\<close>

text \<open>
  C19: Whatever operations of the SQLite run repository follow, in any order and also when they
  fail, as long as a finished run is not deleted by one of them it keeps its status and its
  time of finishing, its conversation, kind, key and fingerprint, and its event count never
  decreases.
\<close>

theorem finished_run_is_final:
  assumes "sql_inv d" and "run_row_of d i = Some r" and "is_finished (r_status r)"
    and "sql_store.survives E wt es d i"
  shows "\<exists>r'. run_row_of (sql_store.exec_all E wt es d) i = Some r' \<and> r_status r' = r_status r \<and>
    r_finished_at r' = r_finished_at r \<and> r_conversation_id r' = r_conversation_id r \<and> r_kind r' = r_kind r \<and>
    r_idempotency_key r' = r_idempotency_key r \<and> r_request_fingerprint r' = r_request_fingerprint r \<and>
    r_event_count r \<le> r_event_count r'"
proof -
  have "sql_view d i = Some (row_core r)" using assms(2) by (simp add: sql_view_def)
  from sql_store.exec_all_change [OF assms(1) sql_all_admissible this assms(4)]
  obtain r' where "run_row_of (sql_store.exec_all E wt es d) i = Some r'" "run_change (row_core r) (row_core r')"
    by (auto simp: sql_view_def)
  then show ?thesis using assms(3) by (simp add: run_change_def row_core_def)
qed

definition demo_request :: run_request where
  "demo_request =
     \<lparr>rq_conversation_id = ''c1'', rq_kind = ''chat'', rq_idempotency_key = Some ''k'', rq_fingerprint = Some ''f'',
      rq_anchor_node = None, rq_target_node = None, rq_created_by = None, rq_cancellation_parent = None,
      rq_summary = [], rq_metadata = [], rq_binding = None\<rparr>"

definition demo_finished_db :: db where
  "demo_finished_db = demo_db\<lparr>runs := [demo_run\<lparr>r_status := ''completed'', r_finished_at := Some 4\<rparr>]\<rparr>"

definition demo_later :: "(int \<times> run_op) list" where
  "demo_later = [(5, DeleteForNodes ''c2'' [''n'']), (6, UpdateStatus ''r1'' ''running''),
     (7, FinishRun ''r1'' ''failed'' (Some ''late'')), (8, CreateRun ''r2'' demo_request),
     (9, AppendIndexed ''r1'' [\<lparr>ie_index = 0, ie_payload = [], ie_created_at = None\<rparr>]), (10, DeleteRun ''r2'')]"

lemma demo_finished_inv: "sql_inv demo_finished_db"
  by (simp add: sql_inv_def runs_ok_def demo_finished_db_def)

lemma demo_later_keeps: "sql_store.survives demo_codec True demo_later demo_finished_db ''r1''"
proof -
  let ?d = "sql_exec demo_codec True 5 (DeleteForNodes ''c2'' [''n'']) demo_finished_db"
  have "sql_view demo_finished_db ''r1'' \<noteq> None" "sql_view ?d ''r1'' \<noteq> None" by code_simp+
  moreover have "sql_store.survives demo_codec True (tl demo_later) ?d ''r1''"
    by (rule sql_store.not_deleted_survives [OF sql_exec_inv [OF demo_finished_inv] sql_all_admissible calculation(2)])
      (simp add: demo_later_def deletes_def)
  ultimately show ?thesis by (simp add: demo_later_def)
qed

theorem finished_run_is_final_witness:
  "\<exists>r'. run_row_of (sql_store.exec_all demo_codec True demo_later demo_finished_db) ''r1'' = Some r' \<and>
     r_status r' = ''completed'' \<and> r_finished_at r' = Some 4"
proof -
  have r: "run_row_of demo_finished_db ''r1'' = Some (demo_run\<lparr>r_status := ''completed'', r_finished_at := Some 4\<rparr>)"
    by (simp add: run_row_of_def select_def demo_finished_db_def demo_run_def)
  have "is_finished (r_status (demo_run\<lparr>r_status := ''completed'', r_finished_at := Some 4\<rparr>))"
    by (simp add: is_finished_def FINISHED_STATUSES_def)
  from finished_run_is_final [OF demo_finished_inv r this demo_later_keeps] show ?thesis by force
qed

text \<open>
  C20: When a run was created or found in SQLite for an idempotency key, a later creation with
  the same key, as long as the run is not deleted, changes nothing; if it answers, it answers
  with the same run and reports that it was not created, and the request had the fingerprint of
  the first one.
\<close>

theorem idempotent_create_replays:
  assumes "sql_inv d" and "sql_create_or_get_run uuid now q d = (Inr (x, b), d1)"
    and "rq_idempotency_key q \<noteq> None" and "rq_idempotency_key q' = rq_idempotency_key q"
    and "sql_store.survives E wt es d1 (ri_id x)" and "d2 = sql_store.exec_all E wt es d1"
  shows "snd (sql_create_or_get_run uuid' now' q' d2) = d2 \<and>
    (\<forall>y b'. fst (sql_create_or_get_run uuid' now' q' d2) = Inr (y, b') \<longrightarrow>
       \<not> b' \<and> ri_id y = ri_id x \<and> rq_fingerprint q' = rq_fingerprint q)"
  by (rule sql_store.replay_returns_the_run [OF assms(1) _ assms(2,3) sql_all_admissible assms(5,4,6)])
    (simp add: sql_admissible_def)

lemma demo_sql_inv: "sql_inv demo_db"
  by (simp add: sql_inv_def runs_ok_def demo_db_def db_empty_def plain_conversation_def)

lemma demo_created:
  "\<exists>x d'. sql_create_or_get_run ''r2'' 2 demo_request demo_db = (Inr (x, True), d') \<and> ri_id x = ''r2''"
proof -
  have "case sql_create_or_get_run ''r2'' 2 demo_request demo_db of
      (Inr (x, b), d') \<Rightarrow> b \<and> ri_id x = ''r2'' | _ \<Rightarrow> False"
    by code_simp
  then show ?thesis by (auto split: prod.splits sum.splits)
qed

theorem idempotent_create_replays_witness:
  "\<exists>x d1. sql_create_or_get_run ''r2'' 2 demo_request demo_db = (Inr (x, True), d1) \<and>
     (let d2 = sql_store.exec_all demo_codec True [(3, FinishRun ''r2'' ''completed'' None)] d1 in
      snd (sql_create_or_get_run ''r3'' 9 (demo_request\<lparr>rq_fingerprint := Some ''other''\<rparr>) d2) = d2 \<and>
      (\<forall>y b. fst (sql_create_or_get_run ''r3'' 9 (demo_request\<lparr>rq_fingerprint := Some ''other''\<rparr>) d2) \<noteq> Inr (y, b)))"
proof -
  obtain x d1 where x: "sql_create_or_get_run ''r2'' 2 demo_request demo_db = (Inr (x, True), d1)"
    using demo_created by blast
  have a: "rq_idempotency_key demo_request \<noteq> None"
    "rq_idempotency_key (demo_request\<lparr>rq_fingerprint := Some ''other''\<rparr>) = rq_idempotency_key demo_request"
    by (simp_all add: demo_request_def)
  have inv: "sql_inv d1" using create_sql_inv [OF demo_sql_inv, of "''r2''" 2 demo_request] by (simp add: x)
  have "sql_view d1 (ri_id x) \<noteq> None" using create_sql_result [OF demo_sql_inv x] by auto
  then have "sql_store.survives demo_codec True [(3, FinishRun ''r2'' ''completed'' None)] d1 (ri_id x)"
    by (rule sql_store.not_deleted_survives [OF inv sql_all_admissible]) (simp add: deletes_def)
  from idempotent_create_replays [OF demo_sql_inv x a this refl, where uuid' = "''r3''" and now' = 9]
  have "snd (sql_create_or_get_run ''r3'' 9 (demo_request\<lparr>rq_fingerprint := Some ''other''\<rparr>)
        (sql_store.exec_all demo_codec True [(3, FinishRun ''r2'' ''completed'' None)] d1)) =
      sql_store.exec_all demo_codec True [(3, FinishRun ''r2'' ''completed'' None)] d1"
    "fst (sql_create_or_get_run ''r3'' 9 (demo_request\<lparr>rq_fingerprint := Some ''other''\<rparr>)
        (sql_store.exec_all demo_codec True [(3, FinishRun ''r2'' ''completed'' None)] d1)) \<noteq> Inr (y, b)" for y b
    by (simp, auto simp: demo_request_def)
  then show ?thesis using x unfolding Let_def by blast
qed

text \<open>
  In every state the memory repository reaches from its empty start, each run is stored
  under its id, its events are numbered from zero without a gap up to its event count, and a
  key leads to exactly the run that has it; a finished run stays finished, with the same status
  and time, through all further operations that do not delete it.
\<close>

theorem memory_runs_numbered_and_final:
  assumes "mem_store.all_admissible es mem_runs_init" and "s = mem_store.exec_all es mem_runs_init"
    and "mem_get_run s i = Some r"
  shows "ri_id r = i \<and> map ev_event_index (mem_run_events s i) = [0..<ri_event_count r] \<and>
    (\<forall>k. ri_idempotency_key r = Some k \<longrightarrow> mem_get_run_by_idempotency_key s k = Some r) \<and>
    (is_finished (ri_status r) \<longrightarrow> mem_store.all_admissible es' s \<longrightarrow> mem_store.survives es' s i \<longrightarrow>
       (\<exists>r'. mem_get_run (mem_store.exec_all es' s) i = Some r' \<and> ri_status r' = ri_status r \<and>
          ri_finished_at r' = ri_finished_at r))"
proof -
  have inv: "mem_runs_inv s" using mem_store.exec_all_inv [OF mem_runs_inv_init assms(1)] assms(2) by simp
  have r: "map_of (m_runs s) i = Some r" using assms(3) by (simp add: mem_get_run_def)
  have "mem_get_run_by_idempotency_key s k = Some r" if "ri_idempotency_key r = Some k" for k
    using mem_runs_invD(3) [OF inv, of k i] r that by (simp add: mem_get_run_by_idempotency_key_def)
  moreover have "\<exists>r'. mem_get_run (mem_store.exec_all es' s) i = Some r' \<and> ri_status r' = ri_status r \<and>
      ri_finished_at r' = ri_finished_at r"
    if f: "is_finished (ri_status r)" "mem_store.all_admissible es' s" "mem_store.survives es' s i"
  proof -
    have "mem_view s i = Some (core_of r)" using assms(3) by (simp add: mem_view_def)
    from mem_store.finished_is_final [OF inv f(2) this _ f(3)] f(1)
    show ?thesis by (auto simp: mem_view_def core_of_def)
  qed
  ultimately show ?thesis
    using mem_runs_invD(1,2) [OF inv r] by (simp add: events_ok_def)
qed

definition demo_memory_operations :: "(int \<times> run_op) list" where
  "demo_memory_operations =
     [(2, CreateRun ''2'' demo_request), (3, AppendEvents ''run_2'' [[(''type'', PStr ''note'')], []]),
      (4, FinishRun ''run_2'' ''completed'' None)]"

theorem memory_runs_numbered_and_final_witness:
  "\<exists>r. mem_get_run (mem_store.exec_all demo_memory_operations mem_runs_init) ''run_2'' = Some r \<and>
     is_finished (ri_status r) \<and> ri_event_count r = 3 \<and>
     map ev_event_index (mem_run_events (mem_store.exec_all demo_memory_operations mem_runs_init) ''run_2'') = [0, 1, 2]"
proof -
  let ?s = "mem_exec 4 (FinishRun ''run_2'' ''completed'' None)
      (mem_exec 3 (AppendEvents ''run_2'' [[(''type'', PStr ''note'')], []])
        (mem_exec 2 (CreateRun ''2'' demo_request) mem_runs_init))"
  have s: "mem_store.exec_all demo_memory_operations mem_runs_init = ?s" by (simp add: demo_memory_operations_def)
  have adm: "mem_store.all_admissible demo_memory_operations mem_runs_init"
    by (simp add: demo_memory_operations_def mem_runs_init_def mem_get_run_def)
  have "case mem_get_run ?s ''run_2'' of None \<Rightarrow> False | Some r \<Rightarrow> is_finished (ri_status r) \<and> ri_event_count r = 3"
    by code_simp
  then obtain r where r: "mem_get_run ?s ''run_2'' = Some r" "is_finished (ri_status r)" "ri_event_count r = 3"
    by (auto split: option.splits)
  from memory_runs_numbered_and_final [OF adm s [symmetric] r(1), where es' = "[]"] r
  show ?thesis unfolding s by (simp add: upt_rec)
qed

text \<open>
  C21: In every state the operations of the SQLite run repository reach from an empty table of
  runs, streamed events with given indices included, every event belongs to an existing run and has an index below that run's event count, and no index occurs twice in a run.
\<close>

theorem event_indices_below_count:
  assumes "runs d0 = []" and "run_events d0 = []" and "d = sql_store.exec_all E wt es d0"
  shows "(\<forall>e \<in> set (run_events d). \<exists>r \<in> set (runs d). r_id r = e_run_id e \<and> e_event_index e < r_event_count r) \<and>
    distinct (map (\<lambda>e. (e_run_id e, e_event_index e)) (run_events d))"
proof -
  have "events_below d0" using assms(1,2) by (simp add: events_below_def sql_inv_def runs_ok_def)
  from sql_exec_all_events [OF this] show ?thesis unfolding assms(3) events_below_def by blast
qed

definition demo_streamed :: "(int \<times> run_op) list" where
  "demo_streamed =
     [(2, CreateRun ''r2'' demo_request),
      (3, AppendIndexed ''r2'' [\<lparr>ie_index = 0, ie_payload = [], ie_created_at = None\<rparr>,
         \<lparr>ie_index = 1, ie_payload = [(''type'', PStr ''note'')], ie_created_at = Some 2\<rparr>]),
      (4, RequestStop ''r2''), (5, DeleteForNodes ''c1'' [])]"

theorem event_indices_below_count_witness:
  "list_all (\<lambda>e. list_ex (\<lambda>r. r_id r = e_run_id e \<and> e_event_index e < r_event_count r)
     (runs (sql_store.exec_all demo_codec True
        demo_streamed (demo_db\<lparr>runs := []\<rparr>))))
   (run_events (sql_store.exec_all demo_codec True
      demo_streamed (demo_db\<lparr>runs := []\<rparr>)))"
  unfolding list_all_iff list_ex_iff
  by (rule event_indices_below_count [OF _ _ refl, THEN conjunct1]) (simp_all add: demo_db_def db_empty_def plain_conversation_def)

text \<open>
  C22: Appending an event whose payload JSON can hold to an existing run always succeeds, gives
  it the run's count as its index, and reading from that index returns exactly this event, its
  payload the given one with the run's own entries added, in the order of the keys, whether it
  was stored in the row or as a blob.
\<close>

theorem appended_event_is_read_back:
  assumes "codec_ok E" and "blobs_ok E d" and "events_below d" and "run_row_of d i = Some r"
    and "has_conversation d (r_conversation_id r)" and "json_ok (PDict source)" and "json_int_ok (int (r_event_count r))"
  shows "\<exists>ev d'. sql_append_event E now i source d = (Inr ev, d') \<and>
    sql_read_events E d' i (int (r_event_count r)) = Inr [ev] \<and> ev_run_id ev = i \<and> ev_event_index ev = r_event_count r \<and>
    ev_payload ev = in_key_order
      (event_payload i (r_conversation_id r) (r_kind r) (r_target_node r) (r_event_count r) source)"
proof -
  obtain row d' where row: "append_event_in_connection E now i source d = Inr (row, d')"
    and rd: "read_text E d' (e_payload_inline row) (e_payload_blob_id row) = Inr (json_field
      (event_payload i (r_conversation_id r) (r_kind r) (r_target_node r) (r_event_count r) source))"
    and some: "e_payload_inline row \<noteq> None \<or> truthy_opt (e_payload_blob_id row)"
    and key: "e_run_id row = i" "e_event_index row = r_event_count r" "run_events d' = run_events d @ [row]"
    using append_event_succeeds [OF assms(1-5)] by metis
  note ev = event_from_row_text [OF rd some json_ok_event_payload [OF assms(6,7)]]
  show ?thesis
    using ev row key events_from_count [OF assms(3,4) key(3,1,2)]
    by (simp add: sql_append_event_def transaction_def sql_read_events_def)
qed

theorem appended_event_is_read_back_witness:
  "\<exists>ev d'. sql_append_event demo_codec 9 ''r1'' [(''type'', PStr ''note''), (''n'', PInt 7)] demo_db = (Inr ev, d') \<and>
    sql_read_events demo_codec d' ''r1'' 0 = Inr [ev] \<and> dget (ev_payload ev) ''n'' = PInt 7"
proof -
  have b: "events_below demo_db" by (simp add: events_below_def demo_sql_inv) (simp add: demo_db_def db_empty_def plain_conversation_def)
  have a: "blobs_ok demo_codec demo_db" "run_row_of demo_db ''r1'' = Some demo_run"
    "has_conversation demo_db (r_conversation_id demo_run)"
    by (simp_all add: blobs_ok_def run_row_of_def select_def has_conversation_def
        demo_db_def db_empty_def plain_conversation_def demo_run_def)
  have j: "json_ok (PDict [(''type'', PStr ''note''), (''n'', PInt 7)])" "json_int_ok (int (r_event_count demo_run))"
    by (code_simp, simp add: demo_run_def, code_simp)
  have p: "dget (in_key_order (event_payload ''r1'' (r_conversation_id demo_run) (r_kind demo_run)
      (r_target_node demo_run) (r_event_count demo_run) [(''type'', PStr ''note''), (''n'', PInt 7)])) ''n'' = PInt 7"
    by code_simp
  show ?thesis
    using appended_event_is_read_back [OF demo_codec_ok a(1) b a(2,3) j, where now = 9] p by (force simp: demo_run_def)
qed

lemma map_of_fold_pop: "map_of (fold dict_pop ks d) k = (if k \<in> set ks then None else map_of d k)"
  by (induction ks arbitrary: d) auto

text \<open>
  The public form of a run never shows its row id, key or fingerprint, its metadata has
  none of the three private task entries, and every other entry of the run and of its metadata
  is as it was; the step is shown on its own where the metadata had a position.
\<close>

theorem public_run_hides_private_entries:
  assumes "public_run_dict run = Inr p"
  shows "(\<forall>k \<in> {''id'', ''idempotency_key'', ''request_fingerprint''}. map_of p k = None) \<and>
    (\<forall>k. k \<notin> {''id'', ''idempotency_key'', ''request_fingerprint'', ''metadata'', ''step''} \<longrightarrow> map_of p k = map_of run k) \<and>
    (\<exists>m m'. metadata_of run = Inr m \<and> map_of p ''metadata'' = Some (PDict m') \<and>
       (\<forall>k. map_of m' k = (if k \<in> set PRIVATE_TASK_METADATA_KEYS then None else map_of m k)) \<and>
       (dget m ''task_step_position'' \<noteq> PNone \<longrightarrow> map_of p ''step'' = Some (dget m ''task_step_position'')))"
proof -
  let ?d = "fold dict_pop [''id'', ''idempotency_key'', ''request_fingerprint''] run"
  have d: "map_of ?d k = (if k \<in> {''id'', ''idempotency_key'', ''request_fingerprint''} then None else map_of run k)" for k
    using map_of_fold_pop [of "[''id'', ''idempotency_key'', ''request_fingerprint'']" run k] by simp
  have md: "metadata_of ?d = metadata_of run"
    using d [of "''metadata''"] by (simp add: metadata_of_def dget_def)
  obtain m where m: "metadata_of run = Inr m"
    and p: "p = (let d2 = dict_set ''metadata'' (PDict (fold dict_pop PRIVATE_TASK_METADATA_KEYS m)) ?d
       in if dget m ''task_step_position'' \<noteq> PNone then dict_set ''step'' (dget m ''task_step_position'') d2 else d2)"
    using assms unfolding public_run_dict_def Let_def map_result_eq_Inr md by auto
  have pk: "map_of p k = (if k = ''step'' \<and> dget m ''task_step_position'' \<noteq> PNone
      then Some (dget m ''task_step_position'')
      else if k = ''metadata'' then Some (PDict (fold dict_pop PRIVATE_TASK_METADATA_KEYS m)) else map_of ?d k)" for k
    unfolding p Let_def by simp
  have "map_of p k = None" if "k \<in> {''id'', ''idempotency_key'', ''request_fingerprint''}" for k
    using that unfolding pk d by auto
  moreover have "map_of p k = map_of run k"
    if "k \<notin> {''id'', ''idempotency_key'', ''request_fingerprint'', ''metadata'', ''step''}" for k
    using that unfolding pk d by simp
  moreover have "map_of p ''metadata'' = Some (PDict (fold dict_pop PRIVATE_TASK_METADATA_KEYS m))" unfolding pk by simp
  moreover have "map_of p ''step'' = Some (dget m ''task_step_position'')" if "dget m ''task_step_position'' \<noteq> PNone"
    using that unfolding pk by simp
  ultimately show ?thesis using m map_of_fold_pop [of PRIVATE_TASK_METADATA_KEYS m] by (intro conjI exI ballI allI impI) assumption+
qed

theorem public_run_hides_private_entries_witness:
  "\<exists>p. public_run_dict [(''id'', PInt 3), (''status'', PStr ''running''),
      (''metadata'', PDict [(''task_step_position'', PInt 2), (''source'', PStr ''ui'')])] = Inr p \<and>
     map_of p ''id'' = None \<and> map_of p ''step'' = Some (PInt 2)"
proof -
  have "public_run_dict [(''id'', PInt 3), (''status'', PStr ''running''),
      (''metadata'', PDict [(''task_step_position'', PInt 2), (''source'', PStr ''ui'')])] =
    Inr [(''status'', PStr ''running''), (''metadata'', PDict [(''source'', PStr ''ui'')]), (''step'', PInt 2)]"
    (is "_ = Inr ?p") by code_simp
  moreover have "map_of ?p ''id'' = None" using public_run_hides_private_entries [OF calculation] by simp
  ultimately show ?thesis by simp
qed

end
