(* ===== verification/NodeTypes.thy ===== *)
theory NodeTypes
  imports PyVal
begin

text \<open>
  Token usage (\<open>model/usage.py\<close>) and the nodes of a conversation (\<open>ConversationTreeNode\<close> in
  \<open>config/types.py\<close>, \<open>chat/node.py\<close>).  A usage is the dictionary the code passes around; a node
  is a record, its parent the string \<open>None\<close> for the root.
\<close>

section \<open>Usage\<close>

text \<open>\<open>_int_value\<close>: \<open>int\<close> with a default for \<open>None\<close> and for what \<open>int\<close> does not take.\<close>

definition int_value :: "pyval \<Rightarrow> int \<Rightarrow> int" where
  "int_value v dflt =
     (if v = PNone then dflt else (case py_int v of Inr n \<Rightarrow> n | Inl _ \<Rightarrow> dflt))"

text \<open>\<open>_get\<close> along two keys.\<close>

definition get_path :: "(string \<times> pyval) list \<Rightarrow> string \<Rightarrow> string \<Rightarrow> pyval" where
  "get_path d k k' = (case dget d k of PDict e \<Rightarrow> dget e k' | _ \<Rightarrow> PNone)"

text \<open>The three readers take what \<open>_to_plain\<close> leaves as it is, a JSON value.\<close>

definition usage_from_openai :: "pyval \<Rightarrow> string \<Rightarrow> (string \<times> pyval) list option" where
  "usage_from_openai raw source =
     (case raw of
        PDict d \<Rightarrow>
          let input = int_value (dget_or d ''input_tokens'' (dget d ''prompt_tokens'')) 0;
              output = int_value (dget_or d ''output_tokens'' (dget d ''completion_tokens'')) 0 in
          Some [(''input_tokens'', PInt input), (''output_tokens'', PInt output),
                (''total_tokens'', PInt (int_value (dget d ''total_tokens'') (input + output))),
                (''cached_tokens'', PInt (int_value (get_path d ''input_tokens_details'' ''cached_tokens'')
                   (int_value (get_path d ''prompt_tokens_details'' ''cached_tokens'') 0))),
                (''reasoning_tokens'', PInt (int_value (get_path d ''output_tokens_details'' ''reasoning_tokens'')
                   (int_value (get_path d ''completion_tokens_details'' ''reasoning_tokens'') 0))),
                (''source'', PStr source), (''raw'', PDict d)]
      | _ \<Rightarrow> None)"

definition usage_from_anthropic :: "pyval \<Rightarrow> string \<Rightarrow> (string \<times> pyval) list option" where
  "usage_from_anthropic raw source =
     (case raw of
        PDict d \<Rightarrow>
          let input = int_value (dget d ''input_tokens'') 0; output = int_value (dget d ''output_tokens'') 0;
              creation = int_value (dget d ''cache_creation_input_tokens'') 0;
              cached = int_value (dget d ''cache_read_input_tokens'') 0 in
          Some [(''input_tokens'', PInt input), (''output_tokens'', PInt output),
                (''total_tokens'', PInt (input + output + creation + cached)),
                (''cache_creation_input_tokens'', PInt creation), (''cache_read_input_tokens'', PInt cached),
                (''source'', PStr source), (''raw'', PDict d)]
      | _ \<Rightarrow> None)"

definition usage_from_gemini :: "pyval \<Rightarrow> string \<Rightarrow> (string \<times> pyval) list option" where
  "usage_from_gemini raw source =
     (case raw of
        PDict d \<Rightarrow>
          let input = int_value (dget d ''prompt_token_count'') 0;
              output = int_value (dget d ''candidates_token_count'') 0 in
          Some [(''input_tokens'', PInt input), (''output_tokens'', PInt output),
                (''total_tokens'', PInt (int_value (dget d ''total_token_count'') (input + output))),
                (''source'', PStr source), (''raw'', PDict d)]
      | _ \<Rightarrow> None)"

definition estimated_usage :: "int \<Rightarrow> int option \<Rightarrow> (string \<times> pyval) list" where
  "estimated_usage total_tokens output_tokens =
     (let output = (case output_tokens of None \<Rightarrow> total_tokens | Some n \<Rightarrow> n) in
      [(''input_tokens'', PInt (max (total_tokens - output) 0)), (''output_tokens'', PInt output),
       (''total_tokens'', PInt total_tokens), (''source'', PStr ''estimate''), (''raw'', PDict [])])"

definition usage_total :: "(string \<times> pyval) list \<Rightarrow> int \<Rightarrow> int" where
  "usage_total usage fallback =
     (if usage = [] then fallback else int_value (dget usage ''total_tokens'') fallback)"

definition usage_keys :: "string list" where
  "usage_keys =
     [''input_tokens'', ''output_tokens'', ''total_tokens'', ''cached_tokens'', ''reasoning_tokens'',
      ''cache_creation_input_tokens'', ''cache_read_input_tokens'']"

definition add_usage :: "(string \<times> pyval) list \<Rightarrow> (string \<times> pyval) list \<Rightarrow> (string \<times> pyval) list" where
  "add_usage left right =
     (let zero = map (\<lambda>k. (k, PInt 0)) usage_keys @ [(''source'', PStr ''aggregate''), (''raw'', PDict [])];
          add = (\<lambda>u r. if u = [] then r
                       else fold (\<lambda>k r. dict_set k (PInt (int_value (dget r k) 0 + int_value (dget u k) 0)) r) usage_keys r)
      in add right (add left zero))"

section \<open>Nodes\<close>

record tree_node =
  tn_id :: string
  tn_parent_id :: "string option"
  tn_children_ids :: "string list"
  tn_timestamp :: int
  tn_model_id :: "string option"
  tn_tool_permission_mode :: "string option"
  tn_task_context_mode :: string
  tn_total_tokens :: int
  tn_branch_usage_info :: "(string \<times> pyval) list"
  tn_turn_usage :: "(string \<times> pyval) list"
  tn_branch_usage :: "(string \<times> pyval) list"
  tn_active_context_usage :: "(string \<times> pyval) list"

definition create_node ::
  "string \<Rightarrow> int \<Rightarrow> string option \<Rightarrow> string option \<Rightarrow> string option \<Rightarrow> string \<Rightarrow> tree_node" where
  "create_node uuid now parent model mode context_mode =
     \<lparr>tn_id = uuid, tn_parent_id = parent, tn_children_ids = [], tn_timestamp = now, tn_model_id = model,
      tn_tool_permission_mode = mode, tn_task_context_mode = context_mode, tn_total_tokens = 0,
      tn_branch_usage_info = estimated_usage 0 None, tn_turn_usage = estimated_usage 0 None,
      tn_branch_usage = estimated_usage 0 None, tn_active_context_usage = estimated_usage 0 None\<rparr>"

definition create_root_node :: "string \<Rightarrow> int \<Rightarrow> tree_node" where
  "create_root_node uuid now = create_node uuid now (Some ''None'') None None ''attached''"

definition create_compact_node :: "string \<Rightarrow> int \<Rightarrow> string option \<Rightarrow> string option \<Rightarrow> string \<Rightarrow> tree_node" where
  "create_compact_node uuid now parent model context_mode = create_node uuid now parent model None context_mode"

definition mark_as_branch_point :: "tree_node \<Rightarrow> string \<Rightarrow> tree_node" where
  "mark_as_branch_point n child =
     (if child \<in> set (tn_children_ids n) then n else n\<lparr>tn_children_ids := tn_children_ids n @ [child]\<rparr>)"

end
