(* ===== verification/ChatRepo.thy ===== *)
theory ChatRepo
  imports Db Json NodeTypes
begin

text \<open>
  \<open>ChatRepository\<close> (\<open>persistence/repository.py\<close>): the rows of conversations, their tree of
  nodes, messages, tool calls and results, and the usage statistics.  Each operation is a
  transaction of its own over the tables of \<open>Db\<close>; texts are stored before it by the content
  store.  The clock and fresh identifiers are arguments.
\<close>

section \<open>JSON columns\<close>

text \<open>\<open>_json_field\<close> and \<open>_json_object\<close>; a document with floats counts as malformed.\<close>

definition chat_json_field :: "pyval \<Rightarrow> string option" where
  "chat_json_field v = (if v = PNone then None else Some (json_dumps True '', '' '': '' v))"

definition json_object :: "string option \<Rightarrow> (string \<times> pyval) list" where
  "json_object t =
     (if \<not> truthy_opt t then []
      else (case json_loads (or_empty t) of JOk (PDict d) _ \<Rightarrow> d | _ \<Rightarrow> []))"

section \<open>Conversations\<close>

record conversation_settings =
  cs_provider_id :: "string option"
  cs_model_id :: "string option"
  cs_workspace :: pyval
  cs_reasoning_effort :: "string option"
  cs_thinking_enabled :: "bool option"
  cs_multi_agent_mode :: "string option"

definition new_conversation_row :: "int \<Rightarrow> string \<Rightarrow> string \<Rightarrow> conversation_settings \<Rightarrow> conversation_row" where
  "new_conversation_row now c t cs =
     \<lparr>cv_id = c, cv_title = t, cv_root_node_id = None, cv_current_node_id = None,
      cv_provider_id = cs_provider_id cs, cv_model_id = cs_model_id cs,
      cv_reasoning_effort = cs_reasoning_effort cs, cv_thinking_enabled = cs_thinking_enabled cs,
      cv_multi_agent_mode = (case cs_multi_agent_mode cs of None \<Rightarrow> ''explicit_request_only'' | Some m \<Rightarrow> m),
      cv_workspace_json = chat_json_field (cs_workspace cs), cv_created_at = now, cv_updated_at = now\<rparr>"

definition conversation_row_of :: "db \<Rightarrow> string \<Rightarrow> conversation_row option" where
  "conversation_row_of d c = fetchone (select (\<lambda>r. cv_id r = c) (conversation_rows d))"

definition repo_create_conversation ::
  "string \<Rightarrow> int \<Rightarrow> string \<Rightarrow> string option \<Rightarrow> conversation_settings \<Rightarrow> db \<Rightarrow> string result \<times> db" where
  "repo_create_conversation uuid now t cid cs d =
     (let c = (if truthy_opt cid then or_empty cid else uuid) in
      if c \<in> set (conversations d) then (Inl (IntegrityError ''UNIQUE constraint failed''), d)
      else (Inr c, d\<lparr>conversation_rows := conversation_rows d @ [new_conversation_row now c t cs]\<rparr>))"

definition or_else :: "'a option \<Rightarrow> 'a option \<Rightarrow> 'a option" where
  "or_else x y = (case x of None \<Rightarrow> y | Some _ \<Rightarrow> x)"

definition repo_ensure_conversation ::
  "int \<Rightarrow> string \<Rightarrow> string \<Rightarrow> conversation_settings \<Rightarrow> db \<Rightarrow> string \<times> db" where
  "repo_ensure_conversation now c t cs d =
     (c,
      if c \<in> set (conversations d)
      then d\<lparr>conversation_rows := update_rows (\<lambda>r. cv_id r = c)
             (\<lambda>r. r\<lparr>cv_title := (if t = [] then cv_title r else t),
                    cv_provider_id := or_else (cs_provider_id cs) (cv_provider_id r),
                    cv_model_id := or_else (cs_model_id cs) (cv_model_id r),
                    cv_reasoning_effort := cs_reasoning_effort cs,
                    cv_thinking_enabled := cs_thinking_enabled cs,
                    cv_multi_agent_mode := cv_multi_agent_mode (new_conversation_row now c t cs),
                    cv_workspace_json := or_else (chat_json_field (cs_workspace cs)) (cv_workspace_json r),
                    cv_updated_at := now\<rparr>) (conversation_rows d)\<rparr>
      else d\<lparr>conversation_rows := conversation_rows d @ [new_conversation_row now c t cs]\<rparr>)"

definition repo_get_conversation :: "db \<Rightarrow> string \<Rightarrow> conversation_row result" where
  "repo_get_conversation d c = (case conversation_row_of d c of None \<Rightarrow> Inl (KeyError c) | Some r \<Rightarrow> Inr r)"

text \<open>The newest first, with the number of their nodes and the workspace as a dictionary.\<close>

definition repo_list_conversations :: "db \<Rightarrow> (conversation_row \<times> nat \<times> (string \<times> pyval) list) list" where
  "repo_list_conversations d =
     map (\<lambda>r. (r, rowcount (\<lambda>n. nd_conversation_id n = cv_id r) (nodes d), json_object (cv_workspace_json r)))
       (sort_key (\<lambda>r. (- cv_updated_at r, - cv_created_at r)) (conversation_rows d))"

text \<open>The arguments of \<open>update_conversation\<close>: \<open>None\<close> is the default \<open>_UNSET\<close>.\<close>

record conversation_update =
  cu_title :: "string option"
  cu_provider_id :: "string option option"
  cu_model_id :: "string option option"
  cu_reasoning_effort :: "string option option"
  cu_thinking_enabled :: "bool option option"
  cu_multi_agent_mode :: "string option"
  cu_workspace :: "pyval option"
  cu_current_node_id :: "string option option"

definition no_update :: conversation_update where
  "no_update = \<lparr>cu_title = None, cu_provider_id = None, cu_model_id = None, cu_reasoning_effort = None,
     cu_thinking_enabled = None, cu_multi_agent_mode = None, cu_workspace = None, cu_current_node_id = None\<rparr>"

definition set_if :: "'a option \<Rightarrow> 'a \<Rightarrow> 'a" where
  "set_if x old = (case x of None \<Rightarrow> old | Some y \<Rightarrow> y)"

definition updated_conversation :: "int \<Rightarrow> conversation_update \<Rightarrow> conversation_row \<Rightarrow> conversation_row" where
  "updated_conversation now u r =
     r\<lparr>cv_updated_at := now, cv_title := set_if (cu_title u) (cv_title r),
       cv_provider_id := set_if (cu_provider_id u) (cv_provider_id r),
       cv_model_id := set_if (cu_model_id u) (cv_model_id r),
       cv_reasoning_effort := set_if (cu_reasoning_effort u) (cv_reasoning_effort r),
       cv_thinking_enabled := set_if (cu_thinking_enabled u) (cv_thinking_enabled r),
       cv_multi_agent_mode := set_if (cu_multi_agent_mode u) (cv_multi_agent_mode r),
       cv_workspace_json := set_if (map_option chat_json_field (cu_workspace u)) (cv_workspace_json r),
       cv_current_node_id := set_if (cu_current_node_id u) (cv_current_node_id r)\<rparr>"

definition repo_update_conversation :: "int \<Rightarrow> string \<Rightarrow> conversation_update \<Rightarrow> db \<Rightarrow> bool \<times> db" where
  "repo_update_conversation now c u d =
     (0 < rowcount (\<lambda>r. cv_id r = c) (conversation_rows d),
      d\<lparr>conversation_rows := update_rows (\<lambda>r. cv_id r = c) (updated_conversation now u) (conversation_rows d)\<rparr>)"

text \<open>Deleting a conversation: every table refers to it with \<open>ON DELETE CASCADE\<close>.\<close>

definition delete_conversation_rows :: "string \<Rightarrow> db \<Rightarrow> db" where
  "delete_conversation_rows c d =
     d\<lparr>conversation_rows := delete_rows (\<lambda>r. cv_id r = c) (conversation_rows d),
       nodes := delete_rows (\<lambda>r. nd_conversation_id r = c) (nodes d),
       message_rows := delete_rows (\<lambda>r. mg_conversation_id r = c) (message_rows d),
       model_state_rows := delete_rows (\<lambda>r. mi_conversation_id r = c) (model_state_rows d),
       tool_call_rows := delete_rows (\<lambda>r. tl_conversation_id r = c) (tool_call_rows d),
       tool_result_rows := delete_rows (\<lambda>r. tz_conversation_id r = c) (tool_result_rows d),
       runs := delete_rows (\<lambda>r. r_conversation_id r = c) (runs d),
       run_events := delete_rows (\<lambda>r. e_conversation_id r = c) (run_events d),
       plans := delete_rows (\<lambda>r. p_conversation_id r = c) (plans d),
       active_tasks := delete_rows (\<lambda>r. at_conversation_id r = c) (active_tasks d),
       active_task_steps := delete_rows (\<lambda>r. st_conversation_id r = c) (active_task_steps d),
       task_run_bindings := delete_rows (\<lambda>r. b_conversation_id r = c) (task_run_bindings d),
       task_notifications := delete_rows (\<lambda>r. n_conversation_id r = c) (task_notifications d)\<rparr>"

definition repo_delete_conversation :: "string \<Rightarrow> db \<Rightarrow> bool \<times> db" where
  "repo_delete_conversation c d =
     (let deleted = 0 < rowcount (\<lambda>r. cv_id r = c) (conversation_rows d);
          d' = delete_conversation_rows c d
      in (deleted, if deleted then snd (reclaim_blobs d') else d'))"

section \<open>Nodes\<close>

text \<open>The keyword arguments of \<open>create_node\<close>.\<close>

record node_fields =
  nf_status :: "string option"
  nf_model_id :: "string option"
  nf_provider_id :: "string option"
  nf_tool_permission_mode :: "string option"
  nf_task_context_mode :: "string option"
  nf_turn_usage :: pyval
  nf_branch_usage :: pyval
  nf_active_context_usage :: pyval

definition context_mode_ok :: "string \<Rightarrow> bool" where
  "context_mode_ok m = (m \<in> {''attached'', ''detached''})"

definition node_row_of :: "db \<Rightarrow> string \<Rightarrow> string \<Rightarrow> node_row option" where
  "node_row_of d c i = fetchone (select (\<lambda>r. nd_conversation_id r = c \<and> nd_id r = i) (nodes d))"

text \<open>The insert, with the primary key, the foreign keys and the unique root of the schema.\<close>

definition insert_node :: "node_row \<Rightarrow> db \<Rightarrow> db result" where
  "insert_node r d =
     (if \<not> context_mode_ok (nd_task_context_mode r) then Inl (IntegrityError ''CHECK constraint failed'')
      else if nd_id r \<in> nd_id ` set (nodes d)
         \<or> (nd_parent_id r = None \<and>
            (\<exists>x \<in> set (nodes d). nd_conversation_id x = nd_conversation_id r \<and> nd_parent_id x = None))
      then Inl (IntegrityError ''UNIQUE constraint failed'')
      else if nd_conversation_id r \<notin> set (conversations d)
         \<or> \<not> opt_ok (has_node d (nd_conversation_id r)) (nd_parent_id r)
      then Inl (IntegrityError ''FOREIGN KEY constraint failed'')
      else Inr (d\<lparr>nodes := nodes d @ [r]\<rparr>))"

definition focus_on :: "int \<Rightarrow> string \<Rightarrow> string option \<Rightarrow> db \<Rightarrow> db" where
  "focus_on now c nd d =
     d\<lparr>conversation_rows := update_rows (\<lambda>r. cv_id r = c)
        (\<lambda>r. r\<lparr>cv_current_node_id := nd, cv_updated_at := now\<rparr>) (conversation_rows d)\<rparr>"

text \<open>A node that is already there keeps its place and gets the fields that are given.\<close>

definition refreshed_node :: "int \<Rightarrow> node_fields \<Rightarrow> node_row \<Rightarrow> node_row" where
  "refreshed_node now f r =
     r\<lparr>nd_updated_at := now,
       nd_model_id := or_else (nf_model_id f) (nd_model_id r),
       nd_provider_id := or_else (nf_provider_id f) (nd_provider_id r),
       nd_tool_permission_mode := or_else (nf_tool_permission_mode f) (nd_tool_permission_mode r),
       nd_task_context_mode := set_if (nf_task_context_mode f) (nd_task_context_mode r),
       nd_turn_usage_json := or_else (chat_json_field (nf_turn_usage f)) (nd_turn_usage_json r),
       nd_branch_usage_json := or_else (chat_json_field (nf_branch_usage f)) (nd_branch_usage_json r),
       nd_active_context_usage_json :=
         or_else (chat_json_field (nf_active_context_usage f)) (nd_active_context_usage_json r)\<rparr>"

definition update_existing_node ::
  "int \<Rightarrow> string \<Rightarrow> string \<Rightarrow> bool \<Rightarrow> node_fields \<Rightarrow> db \<Rightarrow> (string \<times> db) result" where
  "update_existing_node now c i focus f d =
     (if \<not> opt_ok context_mode_ok (nf_task_context_mode f)
      then Inl (IntegrityError ''CHECK constraint failed'')
      else if nf_status f \<noteq> None then Inl TypeError
      else
        let d' = d\<lparr>nodes := update_rows (\<lambda>r. nd_conversation_id r = c \<and> nd_id r = i) (refreshed_node now f) (nodes d)\<rparr>
        in Inr (i, if focus then focus_on now c (Some i) d' else d'))"

text \<open>\<open>parent_id == "None"\<close> is no parent.\<close>

definition real_parent :: "string option \<Rightarrow> string option" where
  "real_parent p = (if p = Some ''None'' then None else p)"

definition new_node_row ::
  "int \<Rightarrow> string \<Rightarrow> string \<Rightarrow> string option \<Rightarrow> int \<Rightarrow> int \<Rightarrow> string \<Rightarrow> node_fields \<Rightarrow> node_row" where
  "new_node_row now c i p order depth mode f =
     \<lparr>nd_id = i, nd_conversation_id = c, nd_parent_id = p, nd_child_order = order, nd_depth = depth,
      nd_status = set_if (nf_status f) ''complete'', nd_model_id = nf_model_id f,
      nd_provider_id = nf_provider_id f, nd_tool_permission_mode = nf_tool_permission_mode f,
      nd_task_context_mode = mode, nd_turn_usage_json = chat_json_field (nf_turn_usage f),
      nd_branch_usage_json = chat_json_field (nf_branch_usage f),
      nd_active_context_usage_json = chat_json_field (nf_active_context_usage f),
      nd_created_at = now, nd_updated_at = now\<rparr>"

definition create_new_node ::
  "int \<Rightarrow> string \<Rightarrow> string option \<Rightarrow> int \<Rightarrow> string \<Rightarrow> bool \<Rightarrow> node_fields \<Rightarrow> db \<Rightarrow> (string \<times> db) result" where
  "create_new_node now c p order i focus f d =
     (case conversation_row_of d c of
        None \<Rightarrow> Inl (KeyError c)
      | Some cv \<Rightarrow>
          if p = None \<and> cv_root_node_id cv \<noteq> None \<and> cv_root_node_id cv \<noteq> Some i
          then Inl (ValueError (''Conversation '' @ c @ '' already has a root node''))
          else
            bind_result
              (case p of
                 None \<Rightarrow> Inr (0, ''attached'')
               | Some q \<Rightarrow>
                   (case node_row_of d c q of
                      None \<Rightarrow> Inl (KeyError q)
                    | Some r \<Rightarrow> Inr (nd_depth r + 1,
                        if nd_task_context_mode r = [] then ''attached'' else nd_task_context_mode r)))
              (\<lambda>(depth, inherited).
            let mode = set_if (nf_task_context_mode f) inherited in
            if \<not> context_mode_ok mode
            then Inl (ValueError ''task_context_mode must be attached or detached'')
            else
              map_result
                (\<lambda>d'. (i, if p = None
                          then d'\<lparr>conversation_rows := update_rows (\<lambda>r. cv_id r = c)
                                  (\<lambda>r. r\<lparr>cv_root_node_id := Some i, cv_current_node_id := Some i,
                                         cv_updated_at := now\<rparr>) (conversation_rows d')\<rparr>
                          else if focus then focus_on now c (Some i) d' else d'))
                (insert_node (new_node_row now c i p order depth mode f) d)))"

definition repo_create_node ::
  "string \<Rightarrow> int \<Rightarrow> string \<Rightarrow> string option \<Rightarrow> int \<Rightarrow> string option \<Rightarrow> bool \<Rightarrow> node_fields \<Rightarrow> db \<Rightarrow>
   string result \<times> db" where
  "repo_create_node uuid now c p order nid focus f d =
     (let i = (if truthy_opt nid then or_empty nid else uuid) in
      transaction (\<lambda>d.
        if node_row_of d c i \<noteq> None then update_existing_node now c i focus f d
        else create_new_node now c (real_parent p) order i focus f d) d)"

definition repo_ensure_node ::
  "int \<Rightarrow> string \<Rightarrow> string \<Rightarrow> string option \<Rightarrow> int \<Rightarrow> bool \<Rightarrow> node_fields \<Rightarrow> db \<Rightarrow> string result \<times> db" where
  "repo_ensure_node now c i p order focus f d = repo_create_node i now c p order (Some i) focus f d"

text \<open>
  \<open>list_nodes\<close>, as the tree reads it: the columns of a row that \<open>ConversationTreeNode\<close> has no field
  for are left out.  The children of a node are in the order of the rows.
\<close>

definition int_or_0 :: "pyval \<Rightarrow> int result" where
  "int_or_0 v = (if py_true v then py_int v else Inr 0)"

definition nodes_in_order :: "db \<Rightarrow> string \<Rightarrow> node_row list" where
  "nodes_in_order d c =
     sort_key (\<lambda>r. (nd_depth r, nd_child_order r, nd_created_at r, nd_id r))
       (select (\<lambda>r. nd_conversation_id r = c) (nodes d))"

definition child_ids :: "node_row list \<Rightarrow> string \<Rightarrow> string list" where
  "child_ids rows i = map nd_id (filter (\<lambda>r. nd_parent_id r = Some i) rows)"

definition tree_node_of_row :: "node_row list \<Rightarrow> node_row \<Rightarrow> tree_node result" where
  "tree_node_of_row rows r =
     (let branch = json_object (nd_branch_usage_json r) in
      map_result
        (\<lambda>total. \<lparr>tn_id = nd_id r,
            tn_parent_id = Some (if truthy_opt (nd_parent_id r) then or_empty (nd_parent_id r) else ''None''),
            tn_children_ids = child_ids rows (nd_id r), tn_timestamp = nd_created_at r,
            tn_model_id = nd_model_id r, tn_tool_permission_mode = nd_tool_permission_mode r,
            tn_task_context_mode = nd_task_context_mode r, tn_total_tokens = total,
            tn_branch_usage_info = branch, tn_turn_usage = json_object (nd_turn_usage_json r),
            tn_branch_usage = branch,
            tn_active_context_usage = json_object (nd_active_context_usage_json r)\<rparr>)
        (int_or_0 (dget branch ''total_tokens'')))"

definition repo_list_nodes :: "db \<Rightarrow> string \<Rightarrow> tree_node list result" where
  "repo_list_nodes d c = (let rows = nodes_in_order d c in mapM_result (tree_node_of_row rows) rows)"

text \<open>
  Deleting nodes cascades along \<open>parent_id\<close>: the rows whose parent is gone go, level by level.
\<close>

function remove_descendants :: "string list \<Rightarrow> node_row list \<Rightarrow> node_row list" where
  "remove_descendants front ns =
     (if front = [] then ns
      else
        let hit = (\<lambda>r. nd_parent_id r \<in> Some ` set front)
        in remove_descendants (map nd_id (select hit ns)) (delete_rows hit ns))"
  by pat_completeness auto
termination
proof (relation "measures [\<lambda>(front, ns). length ns, \<lambda>(front, ns). length front]", goal_cases)
  case (2 front ns hit)
  show ?case
  proof (cases "select hit ns = []")
    case True
    then have "delete_rows hit ns = ns" by (intro delete_rows_none) (auto simp: select_def filter_empty_conv)
    then show ?thesis using True 2 by simp
  next
    case False
    then obtain r where "r \<in> set ns" "hit r" by (auto simp: select_def filter_empty_conv)
    then have "length (delete_rows hit ns) < length ns"
      unfolding delete_rows_def by (intro length_filter_less) auto
    then show ?thesis by simp
  qed
qed simp

declare remove_descendants.simps [simp del]

text \<open>
  What refers to a deleted node goes with it (messages with the states of their model, tool
  calls, tool results) or forgets it (runs, plans, notifications); a tool call forgets a deleted
  message, a tool result goes with its call.
\<close>

definition delete_node_references :: "string set \<Rightarrow> db \<Rightarrow> db" where
  "delete_node_references gone d =
     (let at = (\<lambda>x. x \<in> Some ` gone);
          messages_gone = mg_id ` set (select (\<lambda>r. at (mg_node_id r)) (message_rows d));
          calls_gone = (\<lambda>r. (tl_conversation_id r, tl_id r)) ` set (select (\<lambda>r. at (tl_node_id r)) (tool_call_rows d)) in
      d\<lparr>message_rows := delete_rows (\<lambda>r. at (mg_node_id r)) (message_rows d),
        model_state_rows := delete_rows (\<lambda>r. mi_assistant_message_id r \<in> messages_gone) (model_state_rows d),
        tool_call_rows := map (\<lambda>r. r\<lparr>tl_assistant_message_id := forget messages_gone (tl_assistant_message_id r)\<rparr>)
          (delete_rows (\<lambda>r. at (tl_node_id r)) (tool_call_rows d)),
        tool_result_rows := delete_rows (\<lambda>r. at (tz_node_id r) \<or>
            (case tz_tool_call_id r of None \<Rightarrow> False | Some k \<Rightarrow> (tz_conversation_id r, k) \<in> calls_gone)) (tool_result_rows d),
        runs := map (\<lambda>r. r\<lparr>r_anchor_node := forget gone (r_anchor_node r),
                            r_target_node := forget gone (r_target_node r)\<rparr>) (runs d),
        plans := map (\<lambda>p. p\<lparr>p_entered_node_id := forget gone (p_entered_node_id p),
                             p_blocking_node_id := forget gone (p_blocking_node_id p)\<rparr>) (plans d),
        task_notifications := map (\<lambda>n. n\<lparr>n_delivery_node_id := forget gone (n_delivery_node_id n)\<rparr>)
          (task_notifications d)\<rparr>)"

definition delete_node_rows :: "string \<Rightarrow> string \<Rightarrow> db \<Rightarrow> db" where
  "delete_node_rows c i d =
     (let rest = delete_rows (\<lambda>r. nd_conversation_id r = c \<and> nd_id r = i) (nodes d);
          kept = remove_descendants [i] rest;
          gone = nd_id ` set (nodes d) - nd_id ` set kept
      in delete_node_references gone (d\<lparr>nodes := kept\<rparr>))"

definition repo_delete_node :: "int \<Rightarrow> string \<Rightarrow> string \<Rightarrow> string option \<Rightarrow> db \<Rightarrow> bool \<times> db" where
  "repo_delete_node now c i new_current d =
     (if node_row_of d c i = None then (False, d)
      else
        let d1 = d\<lparr>conversation_rows := update_rows (\<lambda>r. cv_id r = c)
              (\<lambda>r. r\<lparr>cv_current_node_id := new_current,
                     cv_root_node_id := (if cv_root_node_id r = Some i then None else cv_root_node_id r),
                     cv_updated_at := now\<rparr>) (conversation_rows d)\<rparr>
        in (True, snd (reclaim_blobs (delete_node_rows c i d1))))"

section \<open>Messages\<close>

text \<open>The upsert of \<open>add_message\<close>: the message keeps its conversation and its time.\<close>

definition upsert_message :: "message_row \<Rightarrow> db \<Rightarrow> db result" where
  "upsert_message r d =
     (case fetchone (select (\<lambda>x. mg_id x = mg_id r) (message_rows d)) of
        None \<Rightarrow>
          if mg_conversation_id r \<notin> set (conversations d)
             \<or> \<not> opt_ok (has_node d (mg_conversation_id r)) (mg_node_id r)
             \<or> \<not> opt_ok (has_blob d) (mg_content_blob_id r)
          then Inl (IntegrityError ''FOREIGN KEY constraint failed'')
          else Inr (d\<lparr>message_rows := message_rows d @ [r]\<rparr>)
      | Some old \<Rightarrow>
          if \<not> opt_ok (has_node d (mg_conversation_id old)) (mg_node_id r)
             \<or> \<not> opt_ok (has_blob d) (mg_content_blob_id r)
          then Inl (IntegrityError ''FOREIGN KEY constraint failed'')
          else Inr (d\<lparr>message_rows := update_rows (\<lambda>x. mg_id x = mg_id r)
                 (\<lambda>x. r\<lparr>mg_conversation_id := mg_conversation_id x, mg_created_at := mg_created_at x\<rparr>)
                 (message_rows d)\<rparr>))"

record message_fields =
  mf_subtype :: "string option"
  mf_hidden :: bool
  mf_transcript_only :: bool
  mf_model_route_id :: "string option"
  mf_model_round_index :: "int option"
  mf_metadata :: pyval

definition add_message ::
  "codec \<Rightarrow> string \<Rightarrow> int \<Rightarrow> string \<Rightarrow> string option \<Rightarrow> string \<Rightarrow> string \<Rightarrow> message_fields \<Rightarrow> string option \<Rightarrow> db \<Rightarrow>
   string result \<times> db" where
  "add_message E uuid now c nd role content mf mid d =
     (let i = (if truthy_opt mid then or_empty mid else uuid) in
      case store_text_content E content d of
        Inl e \<Rightarrow> (Inl e, d)
      | Inr (st, d1) \<Rightarrow>
          transaction (\<lambda>d. map_result (Pair i) (upsert_message
            \<lparr>mg_id = i, mg_conversation_id = c, mg_node_id = nd, mg_role = role, mg_subtype = mf_subtype mf,
             mg_content_inline = s_inline st, mg_content_blob_id = s_blob_id st,
             mg_preview = (if truthy_opt (s_blob_id st) then s_preview st else []),
             mg_hidden = mf_hidden mf, mg_transcript_only = mf_transcript_only mf,
             mg_model_route_id = mf_model_route_id mf, mg_model_round_index = mf_model_round_index mf,
             mg_metadata_json = chat_json_field (mf_metadata mf), mg_created_at = now\<rparr> d)) d1)"

definition mark_assistant_answer_continued :: "string \<Rightarrow> string \<Rightarrow> db \<Rightarrow> db" where
  "mark_assistant_answer_continued c i d =
     d\<lparr>message_rows := update_rows
        (\<lambda>r. mg_conversation_id r = c \<and> mg_id r = i \<and> mg_subtype r = Some ''assistant_answer'')
        (\<lambda>r. r\<lparr>mg_subtype := Some ''assistant_continuation'', mg_hidden := True, mg_transcript_only := True\<rparr>)
        (message_rows d)\<rparr>"

definition repo_get_message :: "db \<Rightarrow> string \<Rightarrow> message_row result" where
  "repo_get_message d i =
     (case fetchone (select (\<lambda>r. mg_id r = i) (message_rows d)) of None \<Rightarrow> Inl (KeyError i) | Some r \<Rightarrow> Inr r)"

definition repo_get_message_content :: "codec \<Rightarrow> db \<Rightarrow> string \<Rightarrow> string result" where
  "repo_get_message_content E d i =
     bind_result (repo_get_message d i) (\<lambda>r.
       case mg_content_inline r of
         Some t \<Rightarrow> Inr t
       | None \<Rightarrow>
           if \<not> truthy_opt (mg_content_blob_id r) then Inr []
           else get_text E d (or_empty (mg_content_blob_id r)))"

definition list_node_messages :: "db \<Rightarrow> string \<Rightarrow> message_row list" where
  "list_node_messages d nd = sort_key mg_created_at (select (\<lambda>r. mg_node_id r = Some nd) (message_rows d))"

section \<open>Model states\<close>

text \<open>
  Items with a dictionary as \<open>state_payload\<close>, with their position among all items; their texts
  are stored first, then one transaction replaces the items of the message.
\<close>

definition state_items :: "(string \<times> pyval) list list \<Rightarrow> (int \<times> (string \<times> pyval) list \<times> (string \<times> pyval) list) list" where
  "state_items items =
     concat (map (\<lambda>(n, item). case dget item ''state_payload'' of PDict p \<Rightarrow> [(int n, item, p)] | _ \<Rightarrow> [])
       (enumerate 0 items))"

fun store_state_texts ::
  "codec \<Rightarrow> (int \<times> (string \<times> pyval) list \<times> (string \<times> pyval) list) list \<Rightarrow> db \<Rightarrow>
   ((int \<times> (string \<times> pyval) list \<times> stored_text) list \<times> db) result" where
  "store_state_texts E [] d = Inr ([], d)"
| "store_state_texts E ((n, item, p) # xs) d =
     bind_result (store_text_content E (json_dumps False '','' '':'' (PDict p)) d) (\<lambda>(st, d1).
     bind_result (store_state_texts E xs d1) (\<lambda>(ys, d2). Inr ((n, item, st) # ys, d2)))"

definition insert_model_state :: "model_state_row \<Rightarrow> db \<Rightarrow> db result" where
  "insert_model_state r d =
     (if (mi_conversation_id r, mi_assistant_message_id r, mi_item_index r) \<in>
         (\<lambda>x. (mi_conversation_id x, mi_assistant_message_id x, mi_item_index x)) ` set (model_state_rows d)
      then Inl (IntegrityError ''UNIQUE constraint failed'')
      else if mi_conversation_id r \<notin> set (conversations d)
         \<or> \<not> (\<exists>m \<in> set (message_rows d). mg_id m = mi_assistant_message_id r \<and> mg_conversation_id m = mi_conversation_id r)
         \<or> \<not> opt_ok (has_blob d) (mi_payload_blob_id r)
      then Inl (IntegrityError ''FOREIGN KEY constraint failed'')
      else Inr (d\<lparr>model_state_rows := model_state_rows d @ [r]\<rparr>))"

fun insert_model_states ::
  "string \<Rightarrow> string \<Rightarrow> (int \<times> (string \<times> pyval) list \<times> stored_text) list \<Rightarrow> db \<Rightarrow> db result" where
  "insert_model_states c m [] d = Inr d"
| "insert_model_states c m ((n, item, st) # xs) d =
     bind_result (py_int (dget_or item ''index'' (PInt n))) (\<lambda>k.
     bind_result (insert_model_state
       \<lparr>mi_conversation_id = c, mi_assistant_message_id = m, mi_item_index = k,
        mi_kind = str_or (dget item ''kind'') ''provider_state'', mi_payload_inline = s_inline st,
        mi_payload_blob_id = s_blob_id st\<rparr> d) (insert_model_states c m xs))"

definition persist_model_state_items ::
  "codec \<Rightarrow> string \<Rightarrow> string \<Rightarrow> (string \<times> pyval) list list \<Rightarrow> db \<Rightarrow> unit result \<times> db" where
  "persist_model_state_items E c m items d =
     (case store_state_texts E (state_items items) d of
        Inl e \<Rightarrow> (Inl e, d)
      | Inr (prepared, d1) \<Rightarrow>
          transaction (\<lambda>d. map_result (Pair ()) (insert_model_states c m prepared
            (d\<lparr>model_state_rows := delete_rows (\<lambda>r. mi_conversation_id r = c \<and> mi_assistant_message_id r = m)
                (model_state_rows d)\<rparr>))) d1)"

section \<open>Tool calls and results\<close>

text \<open>\<open>_existing_id\<close>: an identifier that the table does not have in the conversation is dropped.\<close>

definition existing_id :: "(string \<Rightarrow> bool) \<Rightarrow> string option \<Rightarrow> string option" where
  "existing_id present x = (if truthy_opt x \<and> present (or_empty x) then x else None)"

definition has_message :: "db \<Rightarrow> string \<Rightarrow> string \<Rightarrow> bool" where
  "has_message d c i = (\<exists>r \<in> set (message_rows d). mg_id r = i \<and> mg_conversation_id r = c)"

definition is_call :: "string \<Rightarrow> string \<Rightarrow> tool_call_row \<Rightarrow> bool" where
  "is_call c i r = (tl_conversation_id r = c \<and> tl_id r = i)"

text \<open>On a conflict the arguments are kept when the new ones are empty.\<close>

definition merge_tool_call :: "int \<Rightarrow> tool_call_row \<Rightarrow> tool_call_row \<Rightarrow> tool_call_row" where
  "merge_tool_call now new old =
     (let empty = \<not> truthy_opt (tl_args_inline new) \<and> tl_args_blob_id new = None in
      old\<lparr>tl_run_id := or_else (tl_run_id new) (tl_run_id old),
          tl_assistant_message_id := or_else (tl_assistant_message_id new) (tl_assistant_message_id old),
          tl_call_index := tl_call_index new,
          tl_name := (if tl_name new = [] then tl_name old else tl_name new),
          tl_args_inline := (if empty then tl_args_inline old else tl_args_inline new),
          tl_args_blob_id := (if empty then tl_args_blob_id old else tl_args_blob_id new),
          tl_args_preview := (if empty then tl_args_preview old else tl_args_preview new),
          tl_status := tl_status new, tl_updated_at := now\<rparr>)"

definition upsert_tool_call :: "int \<Rightarrow> tool_call_row \<Rightarrow> db \<Rightarrow> db result" where
  "upsert_tool_call now r d =
     (let same = is_call (tl_conversation_id r) (tl_id r) in
      if \<not> opt_ok (has_blob d) (tl_args_blob_id r) then Inl (IntegrityError ''FOREIGN KEY constraint failed'')
      else if 0 < rowcount same (tool_call_rows d)
      then Inr (d\<lparr>tool_call_rows := update_rows same (merge_tool_call now r) (tool_call_rows d)\<rparr>)
      else if tl_conversation_id r \<notin> set (conversations d)
      then Inl (IntegrityError ''FOREIGN KEY constraint failed'')
      else Inr (d\<lparr>tool_call_rows := tool_call_rows d @ [r]\<rparr>))"

definition add_tool_call ::
  "codec \<Rightarrow> string \<Rightarrow> int \<Rightarrow> string \<Rightarrow> string option \<Rightarrow> string option \<Rightarrow> string \<Rightarrow> pyval \<Rightarrow> int \<Rightarrow> string \<Rightarrow>
   string option \<Rightarrow> string option \<Rightarrow> db \<Rightarrow> string result \<times> db" where
  "add_tool_call E uuid now c nd call_id name arguments index status run message d =
     (let i = (if truthy_opt call_id then or_empty call_id else uuid);
          args = (case arguments of PStr s \<Rightarrow> s | v \<Rightarrow> or_empty (chat_json_field v)) in
      case store_text_content E args d of
        Inl e \<Rightarrow> (Inl e, d)
      | Inr (st, d1) \<Rightarrow>
          transaction (\<lambda>d. map_result (Pair i) (upsert_tool_call now
            \<lparr>tl_id = i, tl_conversation_id = c, tl_node_id = existing_id (has_node d c) nd,
             tl_run_id = existing_id (has_run d c) run,
             tl_assistant_message_id = existing_id (has_message d c) message,
             tl_call_index = index, tl_name = name, tl_args_inline = s_inline st, tl_args_blob_id = s_blob_id st,
             tl_args_preview = (if truthy_opt (s_blob_id st) then s_preview st else []),
             tl_status = status, tl_created_at = now, tl_updated_at = now\<rparr> d)) d1)"

definition tool_call_exists :: "db \<Rightarrow> string \<Rightarrow> string option \<Rightarrow> bool" where
  "tool_call_exists d c call_id =
     (truthy_opt call_id \<and> 0 < rowcount (is_call c (or_empty call_id)) (tool_call_rows d))"

text \<open>
  \<open>_existing_tool_result_blob_id\<close>: the blob of a stored result with the same output.
\<close>

definition existing_result_blob :: "codec \<Rightarrow> db \<Rightarrow> string \<Rightarrow> string \<Rightarrow> string option result" where
  "existing_result_blob E d i output =
     (case fetchone (select (\<lambda>r. tz_id r = i) (tool_result_rows d)) of
        None \<Rightarrow> Inr None
      | Some r \<Rightarrow>
          if tz_output_size r \<noteq> length output then Inr None
          else
            (case (if truthy_opt (tz_output_blob_id r) then get_text E d (or_empty (tz_output_blob_id r))
                   else Inr (tz_output_preview r)) of
               Inl (KeyError _) \<Rightarrow> Inr None
             | Inl e \<Rightarrow> Inl e
             | Inr existing \<Rightarrow>
                 Inr (if existing = output \<and> truthy_opt (tz_output_blob_id r) then tz_output_blob_id r else None)))"

text \<open>
  The three conflict clauses are tried in their order: a result of the same call, of the same
  id in the conversation, of the same id elsewhere.  The last two also set the call, which may
  violate the uniqueness of the calls of a conversation or refer to a call that is not there.
\<close>

definition merge_tool_result :: "bool \<Rightarrow> tool_result_row \<Rightarrow> tool_result_row \<Rightarrow> tool_result_row" where
  "merge_tool_result set_call new old =
     old\<lparr>tz_node_id := or_else (tz_node_id new) (tz_node_id old),
         tz_run_id := or_else (tz_run_id new) (tz_run_id old),
         tz_tool_call_id := (if set_call then or_else (tz_tool_call_id new) (tz_tool_call_id old)
                             else tz_tool_call_id old),
         tz_status := tz_status new, tz_output_preview := tz_output_preview new,
         tz_output_blob_id := tz_output_blob_id new, tz_output_size := tz_output_size new,
         tz_truncated := tz_truncated new, tz_metadata_json := tz_metadata_json new\<rparr>"

definition tool_result_refs_ok :: "db \<Rightarrow> tool_result_row \<Rightarrow> bool" where
  "tool_result_refs_ok d r =
     (opt_ok (has_node d (tz_conversation_id r)) (tz_node_id r) \<and>
      opt_ok (has_run d (tz_conversation_id r)) (tz_run_id r) \<and>
      opt_ok (\<lambda>k. 0 < rowcount (is_call (tz_conversation_id r) k) (tool_call_rows d)) (tz_tool_call_id r) \<and>
      opt_ok (has_blob d) (tz_output_blob_id r))"

definition same_call_elsewhere ::
  "(tool_result_row \<Rightarrow> bool) \<Rightarrow> (tool_result_row \<Rightarrow> tool_result_row) \<Rightarrow> db \<Rightarrow> bool" where
  "same_call_elsewhere P f d =
     (\<exists>r \<in> set (select P (tool_result_rows d)). \<exists>x \<in> set (tool_result_rows d).
        \<not> P x \<and> tz_conversation_id x = tz_conversation_id (f r) \<and> tz_tool_call_id x = tz_tool_call_id (f r) \<and>
        tz_tool_call_id x \<noteq> None)"

definition update_tool_results ::
  "(tool_result_row \<Rightarrow> bool) \<Rightarrow> (tool_result_row \<Rightarrow> tool_result_row) \<Rightarrow> db \<Rightarrow> db result" where
  "update_tool_results P f d =
     (if same_call_elsewhere P f d then Inl (IntegrityError ''UNIQUE constraint failed'')
      else if \<forall>r \<in> set (select P (tool_result_rows d)). tool_result_refs_ok d (f r)
      then Inr (d\<lparr>tool_result_rows := update_rows P f (tool_result_rows d)\<rparr>)
      else Inl (IntegrityError ''FOREIGN KEY constraint failed''))"

definition upsert_tool_result :: "tool_result_row \<Rightarrow> db \<Rightarrow> db result" where
  "upsert_tool_result r d =
     (let c = tz_conversation_id r;
          same_call = (\<lambda>x. tz_conversation_id x = c \<and> tz_tool_call_id x = tz_tool_call_id r \<and> tz_tool_call_id r \<noteq> None);
          same_id = (\<lambda>x. tz_conversation_id x = c \<and> tz_id x = tz_id r);
          same_key = (\<lambda>x. tz_id x = tz_id r) in
      if 0 < rowcount same_call (tool_result_rows d) then update_tool_results same_call (merge_tool_result False r) d
      else if 0 < rowcount same_id (tool_result_rows d) then update_tool_results same_id (merge_tool_result True r) d
      else if 0 < rowcount same_key (tool_result_rows d) then update_tool_results same_key (merge_tool_result True r) d
      else if c \<notin> set (conversations d) \<or> \<not> tool_result_refs_ok d r
      then Inl (IntegrityError ''FOREIGN KEY constraint failed'')
      else Inr (d\<lparr>tool_result_rows := tool_result_rows d @ [r]\<rparr>))"

definition result_of_call :: "db \<Rightarrow> string \<Rightarrow> string \<Rightarrow> tool_result_row option" where
  "result_of_call d c k =
     fetchone (select (\<lambda>r. tz_conversation_id r = c \<and> tz_tool_call_id r = Some k) (tool_result_rows d))"

text \<open>
  \<open>tool_result_preview\<close>: an output that is too long is cut, or, if it is a JSON object or array,
  printed again with shortened strings and lists.  \<open>ell\<close> stands for the character U+2026, which is
  outside the strings of the model, and \<open>other\<close> gives the printed values of the documents that
  \<open>json_loads\<close> does not reach, if they are objects or arrays.
\<close>

definition child_limit :: "nat \<Rightarrow> string \<Rightarrow> pyval \<Rightarrow> nat" where
  "child_limit il k child =
     (case child of
        PList xs \<Rightarrow> if k = ''files'' \<and> list_all (\<lambda>x. case x of PDict _ \<Rightarrow> True | _ \<Rightarrow> False) xs then length xs else il
      | _ \<Rightarrow> il)"

fun compact :: "char \<Rightarrow> nat \<Rightarrow> nat \<Rightarrow> pyval \<Rightarrow> pyval" where
  "compact ell sl il (PDict d) = PDict (map (\<lambda>p. (fst p, compact ell sl (child_limit il (fst p) (snd p)) (snd p))) d)"
| "compact ell sl il (PList xs) = PList (take il (map (compact ell sl il) xs))"
| "compact ell sl il (PStr s) = PStr (if sl < length s then take (sl - 1) s @ [ell] else s)"
| "compact ell sl il v = v"

definition preview_limits :: "(nat \<times> nat) list" where
  "preview_limits = [(1024, 20), (512, 10), (256, 5), (128, 3), (64, 2), (32, 1)]"

definition fallback_text :: "string \<Rightarrow> string" where
  "fallback_text s = json_dumps False '','' '':'' (PDict [(''truncated'', PBool True), (''preview'', PStr s)])"

text \<open>The last loop; it does not end if even an empty preview is too long.\<close>

function shrink_preview :: "nat \<Rightarrow> string \<Rightarrow> string option" where
  "shrink_preview limit s =
     (let p = fallback_text s in
      if length p \<le> limit then Some p
      else if s = [] then None
      else shrink_preview limit (take (length s - (length p - limit)) s))"
  by pat_completeness auto

termination by (relation "measure (\<lambda>(limit, s). length s)") (auto simp flip: length_greater_0_conv)

declare shrink_preview.simps [simp del]

definition tool_result_preview ::
  "char \<Rightarrow> (string \<Rightarrow> (nat \<times> nat \<Rightarrow> string) option) \<Rightarrow> nat \<Rightarrow> string \<Rightarrow> string option" where
  "tool_result_preview ell other limit s =
     (if length s \<le> limit then Some s
      else
        case (case json_loads s of
                JOk (PDict d) _ \<Rightarrow> Some (\<lambda>(sl, il). json_dumps False '','' '':'' (compact ell sl il (PDict d)))
              | JOk (PList xs) _ \<Rightarrow> Some (\<lambda>(sl, il). json_dumps False '','' '':'' (compact ell sl il (PList xs)))
              | JOut \<Rightarrow> other s
              | _ \<Rightarrow> None) of
          None \<Rightarrow> Some (take limit s)
        | Some printed \<Rightarrow>
            (case find (\<lambda>p. length p \<le> limit) (map printed preview_limits) of
               Some p \<Rightarrow> Some p
             | None \<Rightarrow> shrink_preview limit (take (limit div 2) s)))"

text \<open>All callers leave the limit at 4096 characters, where the preview always exists.\<close>

definition stored_preview :: "char \<Rightarrow> (string \<Rightarrow> (nat \<times> nat \<Rightarrow> string) option) \<Rightarrow> string \<Rightarrow> string" where
  "stored_preview ell other s = the (tool_result_preview ell other 4096 s)"

lemma fallback_empty: "length (fallback_text []) = 31"
  by code_simp

lemma shrink_preview_ends: "31 \<le> limit \<Longrightarrow> \<exists>p. shrink_preview limit s = Some p \<and> length p \<le> limit"
proof (induction limit s rule: shrink_preview.induct)
  case (1 limit s)
  show ?case
  proof (cases "length (fallback_text s) \<le> limit")
    case True
    then show ?thesis by (simp add: shrink_preview.simps [of limit s])
  next
    case False
    then have "s \<noteq> []" using 1(2) fallback_empty by auto
    then show ?thesis using 1(1) [OF refl False] 1(2) False by (simp add: shrink_preview.simps [of limit s])
  qed
qed

lemma tool_result_preview_ends:
  assumes "31 \<le> limit"
  obtains p where "tool_result_preview ell other limit s = Some p" and "length p \<le> limit \<or> p = s"
    and "length s \<le> limit \<Longrightarrow> p = s"
proof -
  have found: "length p \<le> limit" if "find (\<lambda>p. length p \<le> limit) xs = Some p" for xs p
    using that by (auto simp: find_Some_iff)
  have "\<exists>p. tool_result_preview ell other limit s = Some p \<and> length p \<le> limit" if "\<not> length s \<le> limit"
    using that shrink_preview_ends [OF assms, of "take (limit div 2) s"]
    by (auto simp: tool_result_preview_def dest: found split: option.split)
  then show thesis using that by (cases "length s \<le> limit") (auto simp: tool_result_preview_def)
qed

text \<open>\<open>preview\<close> is \<open>stored_preview\<close> with its arguments.\<close>

definition add_tool_result ::
  "codec \<Rightarrow> (string \<Rightarrow> string) \<Rightarrow> string \<Rightarrow> int \<Rightarrow> string \<Rightarrow> string option \<Rightarrow> string option \<Rightarrow> string option \<Rightarrow>
   string \<Rightarrow> string \<Rightarrow> string option \<Rightarrow> pyval \<Rightarrow> db \<Rightarrow> string result \<times> db" where
  "add_tool_result E preview uuid now c nd result_id call output status run metadata d =
     (let i = (if truthy_opt result_id then or_empty result_id else uuid); shown = preview output in
      case existing_result_blob E d i output of
        Inl e \<Rightarrow> (Inl e, d)
      | Inr old_blob \<Rightarrow>
          (case (if old_blob = None \<and> length shown < length output
                 then map_result (\<lambda>(b, d'). (Some b, d')) (put_text E output d)
                 else Inr (old_blob, d)) of
             Inl e \<Rightarrow> (Inl e, d)
           | Inr (blob, d1) \<Rightarrow>
               transaction (\<lambda>d. map_result
                 (\<lambda>d'. (if truthy_opt call
                        then (case result_of_call d' c (or_empty call) of None \<Rightarrow> i | Some r \<Rightarrow> tz_id r)
                        else i, d'))
                 (upsert_tool_result
                   \<lparr>tz_id = i, tz_conversation_id = c, tz_node_id = existing_id (has_node d c) nd,
                    tz_run_id = existing_id (has_run d c) run, tz_tool_call_id = call, tz_status = status,
                    tz_output_preview = shown, tz_output_blob_id = blob, tz_output_size = length output,
                    tz_truncated = truthy_opt blob, tz_metadata_json = chat_json_field metadata,
                    tz_created_at = now\<rparr> d)) d1))"

text \<open>\<open>get_tool_result_slice\<close>: the characters from \<open>offset\<close> on, at most \<open>limit\<close> of them.\<close>

definition slice_payload ::
  "string \<Rightarrow> pyval \<Rightarrow> (string \<times> pyval) list \<Rightarrow> int \<Rightarrow> int \<Rightarrow> string \<Rightarrow> nat \<Rightarrow> (string \<times> pyval) list" where
  "slice_payload i name metadata offset limit content stored =
     (let off = max 0 offset; lim = max 1 (if limit = 0 then 16000 else limit);
          chunk = take (nat lim) (drop (nat off) content);
          next_offset = off + int (length chunk);
          total = int (if content = [] then stored else length content) in
      [(''tool_result_id'', PStr i),
       (''tool_name'', if py_true name then name else dget metadata ''tool_name''),
       (''offset'', PInt off), (''limit'', PInt lim),
       (''next_offset'', if next_offset < total then PInt next_offset else PNone),
       (''total_chars'', PInt total), (''has_more'', PBool (next_offset < total)), (''content'', PStr chunk)]
      @ (if py_true (dget metadata ''diff_before'') then [(''diff_before'', dget metadata ''diff_before'')] else []))"

definition get_tool_result_slice ::
  "codec \<Rightarrow> db \<Rightarrow> string \<Rightarrow> int \<Rightarrow> int \<Rightarrow> (string \<times> pyval) list option result" where
  "get_tool_result_slice E d i offset limit =
     (case fetchone (select (\<lambda>r. tz_id r = i) (tool_result_rows d)) of
        None \<Rightarrow> Inr None
      | Some r \<Rightarrow>
          let name = (case tz_tool_call_id r of
                        None \<Rightarrow> PNone
                      | Some k \<Rightarrow> (case fetchone (select (is_call (tz_conversation_id r) k) (tool_call_rows d)) of
                                   None \<Rightarrow> PNone | Some t \<Rightarrow> PStr (tl_name t))) in
          map_result
            (\<lambda>content. Some (slice_payload i name (json_object (tz_metadata_json r)) offset limit content (tz_output_size r)))
            (if truthy_opt (tz_output_blob_id r) then get_text E d (or_empty (tz_output_blob_id r))
             else Inr (tz_output_preview r)))"

section \<open>Usage statistics\<close>

text \<open>\<open>time.strftime("%Y-%m-%d", time.gmtime(t))\<close>, for years of four digits.\<close>

definition pad2 :: "int \<Rightarrow> string" where
  "pad2 n = (if n < 10 then CHR ''0'' # int_str n else int_str n)"

definition day_of :: "int \<Rightarrow> string" where
  "day_of t =
     (let z = t div 86400 + 719468; era = z div 146097; doe = z mod 146097;
          yoe = (doe - doe div 1460 + doe div 36524 - doe div 146096) div 365;
          doy = doe - (365 * yoe + yoe div 4 - yoe div 100);
          mp = (5 * doy + 2) div 153;
          day = doy - (153 * mp + 2) div 5 + 1;
          month = (if mp < 10 then mp + 3 else mp - 9);
          year = yoe + era * 400 + (if month \<le> 2 then 1 else 0)
      in int_str year @ ''-'' @ pad2 month @ ''-'' @ pad2 day)"

definition usage_int :: "(string \<times> pyval) list \<Rightarrow> string \<Rightarrow> int" where
  "usage_int d k = (case int_or_0 (dget d k) of Inr n \<Rightarrow> n | Inl _ \<Rightarrow> 0)"

definition record_model_usage :: "string \<Rightarrow> (string \<times> pyval) list \<Rightarrow> int \<Rightarrow> int \<Rightarrow> db \<Rightarrow> db" where
  "record_model_usage model usage tokens at d =
     (let input = usage_int usage ''input_tokens''; output = usage_int usage ''output_tokens'';
          hit = usage_int usage ''cache_read_input_tokens'' + usage_int usage ''cached_tokens'';
          context_tokens = input + usage_int usage ''cache_creation_input_tokens''
             + usage_int usage ''cache_read_input_tokens'';
          same = (\<lambda>r. us_model_id r = model \<and> us_day r = day_of at) in
      if 0 < rowcount same (usage_rows d)
      then d\<lparr>usage_rows := update_rows same
             (\<lambda>r. r\<lparr>us_calls := us_calls r + 1, us_input_tokens := us_input_tokens r + input,
                    us_output_tokens := us_output_tokens r + output, us_total_tokens := us_total_tokens r + tokens,
                    us_cache_hit_tokens := us_cache_hit_tokens r + hit,
                    us_cache_context_tokens := us_cache_context_tokens r + context_tokens, us_created_at := at\<rparr>)
             (usage_rows d)\<rparr>
      else d\<lparr>usage_rows := usage_rows d @
             [\<lparr>us_model_id = model, us_day = day_of at, us_calls = 1, us_input_tokens = input,
               us_output_tokens = output, us_total_tokens = tokens, us_cache_hit_tokens = hit,
               us_cache_context_tokens = context_tokens, us_created_at = at\<rparr>]\<rparr>)"

lemma day_of_examples:
  "day_of 0 = ''1970-01-01''" "day_of 951782400 = ''2000-02-29''" "day_of 1709251199 = ''2024-02-29''"
  "day_of 1735689600 = ''2025-01-01''"
  by code_simp+

end
