(* ===== verification/ChatTree.thy ===== *)
theory ChatTree
  imports ChatRepo
begin

text \<open>
  The tree of nodes in the database.  \<open>tree_ok\<close> is the invariant: keys are unique, a node
  belongs to a conversation, its parent is a node of the same conversation one level above, and the root of
  a conversation is its only node without parent.  \<open>tree_step\<close> are the operations of
  \<open>ChatRepository\<close> with any arguments; every one of them keeps the invariant.
  \<open>descendants\<close> are the nodes below a node, and deleting removes exactly them.
\<close>

section \<open>The invariant\<close>

definition node_ok :: "db \<Rightarrow> node_row \<Rightarrow> bool" where
  "node_ok d n =
     (nd_conversation_id n \<in> set (conversations d) \<and> 0 \<le> nd_depth n \<and>
      (case nd_parent_id n of
         None \<Rightarrow> True
       | Some p \<Rightarrow> list_ex (\<lambda>m. nd_id m = p \<and> nd_conversation_id m = nd_conversation_id n
                                \<and> nd_depth n = nd_depth m + 1) (nodes d)))"

definition root_ok :: "db \<Rightarrow> conversation_row \<Rightarrow> bool" where
  "root_ok d r =
     (map nd_id (select (\<lambda>n. nd_conversation_id n = cv_id r \<and> nd_parent_id n = None) (nodes d)) =
      (case cv_root_node_id r of None \<Rightarrow> [] | Some i \<Rightarrow> [i]))"

definition tree_ok :: "db \<Rightarrow> bool" where
  "tree_ok d =
     (distinct (conversations d) \<and> distinct (map nd_id (nodes d)) \<and>
      list_all (node_ok d) (nodes d) \<and> list_all (root_ok d) (conversation_rows d))"

text \<open>The invariant looks at these columns only.\<close>

definition tree_view ::
  "db \<Rightarrow> (string \<times> string option) list \<times> (string \<times> string \<times> string option \<times> int) list" where
  "tree_view d =
     (map (\<lambda>r. (cv_id r, cv_root_node_id r)) (conversation_rows d),
      map (\<lambda>n. (nd_id n, nd_conversation_id n, nd_parent_id n, nd_depth n)) (nodes d))"

lemma list_ex_map: "list_ex P (map f xs) = list_ex (P \<circ> f) xs"
  by (induction xs) auto

lemma tree_ok_view:
  "tree_ok d =
    (case tree_view d of (cs, ns) \<Rightarrow>
       distinct (map fst cs) \<and> distinct (map fst ns) \<and>
       list_all (\<lambda>(i, c, p, k). c \<in> fst ` set cs \<and> 0 \<le> k \<and>
          (case p of None \<Rightarrow> True | Some q \<Rightarrow> list_ex (\<lambda>(j, c', p', k'). j = q \<and> c' = c \<and> k = k' + 1) ns)) ns \<and>
       list_all (\<lambda>(c, r). map fst (filter (\<lambda>(j, c', p, k). c' = c \<and> p = None) ns) =
          (case r of None \<Rightarrow> [] | Some i \<Rightarrow> [i])) cs)"
  by (simp add: tree_ok_def tree_view_def node_ok_def root_ok_def list_all_iff list_ex_map comp_def
        image_image filter_map select_def split_def cong: option.case_cong)

lemma tree_ok_same: "tree_ok d \<Longrightarrow> tree_view d' = tree_view d \<Longrightarrow> tree_ok d'"
  by (simp add: tree_ok_view)

lemma tree_ok_node: "tree_ok d \<Longrightarrow> n \<in> set (nodes d) \<Longrightarrow> node_ok d n"
  by (simp add: tree_ok_def list_all_iff)

lemma tree_okD:
  assumes "tree_ok d"
  shows "distinct (conversations d)" and "distinct (map nd_id (nodes d))"
    and "n \<in> set (nodes d) \<Longrightarrow> nd_conversation_id n \<in> set (conversations d)"
    and "n \<in> set (nodes d) \<Longrightarrow> 0 \<le> nd_depth n"
    and "r \<in> set (conversation_rows d) \<Longrightarrow> root_ok d r"
  using assms by (auto simp: tree_ok_def node_ok_def list_all_iff)

lemma tree_ok_parent:
  assumes "tree_ok d" and "n \<in> set (nodes d)" and "nd_parent_id n = Some p"
  obtains m where "m \<in> set (nodes d)" "nd_id m = p" "nd_conversation_id m = nd_conversation_id n"
    "nd_depth n = nd_depth m + 1"
proof -
  have "node_ok d n" using assms(1,2) by (simp add: tree_ok_def list_all_iff)
  then have "\<exists>m \<in> set (nodes d). nd_id m = p \<and> nd_conversation_id m = nd_conversation_id n \<and> nd_depth n = nd_depth m + 1"
    using assms(3) by (simp add: node_ok_def list_ex_iff)
  then show thesis using that by blast
qed

lemma same_node: "tree_ok d \<Longrightarrow> m \<in> set (nodes d) \<Longrightarrow> n \<in> set (nodes d) \<Longrightarrow> nd_id m = nd_id n \<Longrightarrow> m = n"
  using tree_okD(2) [of d] by (auto simp: distinct_map dest: inj_onD)

lemma root_okD:
  assumes "root_ok d r" and "n \<in> set (nodes d)" and "nd_conversation_id n = cv_id r" and "nd_parent_id n = None"
  shows "cv_root_node_id r = Some (nd_id n)"
proof -
  have "n \<in> set (select (\<lambda>n. nd_conversation_id n = cv_id r \<and> nd_parent_id n = None) (nodes d))"
    using assms(2-4) by simp
  then have "nd_id n \<in> set (case cv_root_node_id r of None \<Rightarrow> [] | Some i \<Rightarrow> [i])"
    using assms(1) unfolding root_ok_def by (metis (no_types, lifting) imageI list.set_map)
  then show ?thesis by (cases "cv_root_node_id r") simp_all
qed

lemma root_row:
  assumes "root_ok d r" and "cv_root_node_id r = Some i"
  obtains n where "n \<in> set (nodes d)" "nd_id n = i" "nd_conversation_id n = cv_id r" "nd_parent_id n = None"
proof -
  have "i \<in> set (map nd_id (select (\<lambda>n. nd_conversation_id n = cv_id r \<and> nd_parent_id n = None) (nodes d)))"
    using assms unfolding root_ok_def by simp
  then show thesis using that by auto
qed

lemma no_root_no_parentless:
  "root_ok d r \<Longrightarrow> cv_root_node_id r = None \<Longrightarrow> n \<in> set (nodes d) \<Longrightarrow> nd_conversation_id n = cv_id r \<Longrightarrow>
   nd_parent_id n \<noteq> None"
  using root_okD by fastforce

lemma conversation_row_of_SomeD:
  "conversation_row_of d c = Some r \<Longrightarrow> r \<in> set (conversation_rows d) \<and> cv_id r = c"
  unfolding conversation_row_of_def by (rule fetchone_select_SomeD)

lemma node_row_of_SomeD:
  "node_row_of d c i = Some n \<Longrightarrow> n \<in> set (nodes d) \<and> nd_id n = i \<and> nd_conversation_id n = c"
  unfolding node_row_of_def by (drule fetchone_select_SomeD) simp

lemma node_row_of_None:
  "node_row_of d c i = None \<longleftrightarrow> (\<forall>n \<in> set (nodes d). \<not> (nd_conversation_id n = c \<and> nd_id n = i))"
  unfolding node_row_of_def by (rule fetchone_select_None)

section \<open>Below a node\<close>

inductive_set descendants :: "node_row list \<Rightarrow> string \<Rightarrow> string set" for ns and i where
  self: "i \<in> descendants ns i"
| child: "n \<in> set ns \<Longrightarrow> nd_parent_id n = Some p \<Longrightarrow> p \<in> descendants ns i \<Longrightarrow> nd_id n \<in> descendants ns i"

inductive below :: "node_row list \<Rightarrow> string list \<Rightarrow> node_row \<Rightarrow> bool" for ns and front where
  front: "n \<in> set ns \<Longrightarrow> nd_parent_id n = Some p \<Longrightarrow> p \<in> set front \<Longrightarrow> below ns front n"
| deeper: "n \<in> set ns \<Longrightarrow> nd_parent_id n = Some (nd_id m) \<Longrightarrow> below ns front m \<Longrightarrow> below ns front n"

lemma below_in: "below ns front n \<Longrightarrow> n \<in> set ns"
  by (induction rule: below.induct) auto

lemma below_Nil: "\<not> below ns [] n"
proof
  assume "below ns [] n" then show False by (induction rule: below.induct) simp_all
qed

text \<open>One level of the cascade.\<close>

definition hits :: "string list \<Rightarrow> node_row \<Rightarrow> bool" where
  "hits front r = (nd_parent_id r \<in> Some ` set front)"

lemma below_step:
  assumes n: "n \<in> set ns"
  shows "below ns front n \<longleftrightarrow>
    hits front n \<or> below (delete_rows (hits front) ns) (map nd_id (select (hits front) ns)) n"
proof
  assume "below ns front n"
  then show "hits front n \<or> below (delete_rows (hits front) ns) (map nd_id (select (hits front) ns)) n"
  proof (induction rule: below.induct)
    case (front n p)
    then show ?case by (simp add: hits_def)
  next
    case (deeper n m)
    show ?case
    proof (cases "hits front n")
      case False
      then have n': "n \<in> set (delete_rows (hits front) ns)" using deeper.hyps(1) by simp
      from deeper.IH show ?thesis
      proof
        assume "hits front m"
        moreover have "m \<in> set ns" using deeper.hyps(3) by (rule below_in)
        ultimately have "nd_id m \<in> set (map nd_id (select (hits front) ns))" by simp
        with n' deeper.hyps(2) show ?thesis by (blast intro: below.front)
      next
        assume "below (delete_rows (hits front) ns) (map nd_id (select (hits front) ns)) m"
        with n' deeper.hyps(2) show ?thesis by (blast intro: below.deeper)
      qed
    qed simp
  qed
next
  have hit: "below ns front m" if "m \<in> set ns" "hits front m" for m
    using that by (auto simp: hits_def intro: below.front)
  assume "hits front n \<or> below (delete_rows (hits front) ns) (map nd_id (select (hits front) ns)) n"
  then show "below ns front n"
  proof
    assume "hits front n" then show ?thesis using hit n by blast
  next
    assume "below (delete_rows (hits front) ns) (map nd_id (select (hits front) ns)) n"
    then show ?thesis
    proof (induction rule: below.induct)
      case (front n p)
      then obtain m where "m \<in> set ns" "hits front m" "nd_id m = p" by auto
      with front hit show ?case by (auto intro: below.deeper)
    next
      case (deeper n m)
      then show ?case by (auto intro: below.deeper)
    qed
  qed
qed

lemma remove_descendants_filter: "remove_descendants front ns = filter (\<lambda>n. \<not> below ns front n) ns"
proof (induction front ns rule: remove_descendants.induct)
  case (1 front ns)
  show ?case
  proof (cases "front = []")
    case True
    then show ?thesis by (simp add: remove_descendants.simps below_Nil)
  next
    case False
    let ?front = "map nd_id (select (hits front) ns)" and ?ns = "delete_rows (hits front) ns"
    have h: "hits front = (\<lambda>r. nd_parent_id r \<in> Some ` set front)" by (simp add: hits_def fun_eq_iff)
    have "remove_descendants front ns = remove_descendants ?front ?ns"
      using False by (simp add: remove_descendants.simps [of front] h)
    also have "\<dots> = filter (\<lambda>n. \<not> below ?ns ?front n) ?ns"
      using 1 [OF False refl] unfolding h [symmetric] .
    also have "\<dots> = filter (\<lambda>n. \<not> below ns front n) ns"
      unfolding delete_rows_def by (simp add: below_step [of _ ns front] delete_rows_def cong: filter_cong)
    finally show ?thesis .
  qed
qed


lemma below_descendants:
  assumes d: "distinct (map nd_id ns)" and n: "n \<in> set (delete_rows (\<lambda>r. nd_id r = i) ns)"
  shows "below (delete_rows (\<lambda>r. nd_id r = i) ns) [i] n \<longleftrightarrow> nd_id n \<in> descendants ns i"
proof
  assume "below (delete_rows (\<lambda>r. nd_id r = i) ns) [i] n"
  then show "nd_id n \<in> descendants ns i"
    by (induction rule: below.induct) (auto intro: descendants.intros)
next
  have "nd_id n = j \<longrightarrow> n \<in> set ns \<longrightarrow> j \<noteq> i \<longrightarrow> below (delete_rows (\<lambda>r. nd_id r = i) ns) [i] n"
    if "j \<in> descendants ns i" for n j
    using that
  proof (induction arbitrary: n rule: descendants.induct)
    case (child m p)
    show ?case
    proof (intro impI)
      assume "nd_id n = nd_id m" and n: "n \<in> set ns" and ne: "nd_id m \<noteq> i"
      then have "n = m" using d child.hyps(1) by (meson distinct_map inj_onD)
      with child.hyps n ne show "below (delete_rows (\<lambda>r. nd_id r = i) ns) [i] n"
      proof (cases "p = i")
        case True
        with child.hyps n ne \<open>n = m\<close> show ?thesis by (auto intro: below.front)
      next
        case False
        from child.hyps(3) False obtain k where "k \<in> set ns" "nd_id k = p"
          by (cases rule: descendants.cases) auto
        with child.IH False have "below (delete_rows (\<lambda>r. nd_id r = i) ns) [i] k" by blast
        with child.hyps n ne \<open>n = m\<close> \<open>nd_id k = p\<close> show ?thesis by (auto intro: below.deeper)
      qed
    qed
  qed simp
  then show "nd_id n \<in> descendants ns i \<Longrightarrow> below (delete_rows (\<lambda>r. nd_id r = i) ns) [i] n"
    using n by simp
qed

text \<open>The rows that stay, for a node of the conversation.\<close>

lemma kept_nodes:
  assumes "distinct (map nd_id ns)" and "n \<in> set ns" and "nd_conversation_id n = c" and "nd_id n = i"
  shows "remove_descendants [i] (delete_rows (\<lambda>r. nd_conversation_id r = c \<and> nd_id r = i) ns) =
    filter (\<lambda>n. nd_id n \<notin> descendants ns i) ns"
proof -
  have same: "delete_rows (\<lambda>r. nd_conversation_id r = c \<and> nd_id r = i) ns = delete_rows (\<lambda>r. nd_id r = i) ns"
    unfolding delete_rows_def
  proof (rule filter_cong [OF refl])
    fix r assume "r \<in> set ns"
    then show "(\<not> (nd_conversation_id r = c \<and> nd_id r = i)) = (nd_id r \<noteq> i)"
      using assms by (metis distinct_map inj_onD)
  qed
  let ?rest = "delete_rows (\<lambda>r. nd_id r = i) ns"
  have "filter (\<lambda>n. \<not> below ?rest [i] n) ?rest = filter (\<lambda>n. nd_id n \<notin> descendants ns i) ?rest"
    by (rule filter_cong) (simp_all add: below_descendants [OF assms(1)])
  also have "\<dots> = filter (\<lambda>n. nd_id n \<notin> descendants ns i) ns"
    unfolding delete_rows_def filter_filter by (rule filter_cong) (auto intro: descendants.self)
  finally show ?thesis unfolding same remove_descendants_filter .
qed

lemma nodes_delete_node_references [simp]: "nodes (delete_node_references gone d) = nodes d"
  by (simp add: delete_node_references_def Let_def)

lemma conversation_rows_delete_node_references [simp]:
  "conversation_rows (delete_node_references gone d) = conversation_rows d"
  by (simp add: delete_node_references_def Let_def)

lemma nodes_reclaim_blobs [simp]: "nodes (snd (reclaim_blobs d)) = nodes d"
  by (simp add: reclaim_blobs_def Let_def)

lemma conversation_rows_reclaim_blobs [simp]:
  "conversation_rows (snd (reclaim_blobs d)) = conversation_rows d"
  by (simp add: reclaim_blobs_def Let_def)

definition without_root :: "string \<Rightarrow> string \<Rightarrow> string option \<Rightarrow> int \<Rightarrow> conversation_row \<Rightarrow> conversation_row" where
  "without_root c i nc now r =
     (if cv_id r = c
      then r\<lparr>cv_current_node_id := nc, cv_root_node_id := (if cv_root_node_id r = Some i then None else cv_root_node_id r),
             cv_updated_at := now\<rparr> else r)"

lemma repo_delete_node_tables:
  assumes "distinct (map nd_id (nodes d))" and "node_row_of d c i \<noteq> None"
  shows "nodes (snd (repo_delete_node now c i nc d)) = filter (\<lambda>n. nd_id n \<notin> descendants (nodes d) i) (nodes d)"
    and "conversation_rows (snd (repo_delete_node now c i nc d)) = map (without_root c i nc now) (conversation_rows d)"
proof -
  obtain n where n: "n \<in> set (nodes d)" "nd_id n = i" "nd_conversation_id n = c"
    using assms(2) node_row_of_SomeD by blast
  show "nodes (snd (repo_delete_node now c i nc d)) = filter (\<lambda>n. nd_id n \<notin> descendants (nodes d) i) (nodes d)"
    using assms(2) by (auto simp: repo_delete_node_def delete_node_rows_def Let_def kept_nodes [OF assms(1) n(1,3,2)])
  show "conversation_rows (snd (repo_delete_node now c i nc d)) = map (without_root c i nc now) (conversation_rows d)"
    using assms(2) by (auto simp: repo_delete_node_def delete_node_rows_def Let_def update_rows_def without_root_def)
qed


lemma repo_delete_node_absent: "node_row_of d c i = None \<Longrightarrow> repo_delete_node now c i nc d = (False, d)"
  by (simp add: repo_delete_node_def)

section \<open>Operations keep the invariant\<close>

lemma tree_okI:
  assumes "distinct (conversations d)" and "distinct (map nd_id (nodes d))"
    and "\<And>n. n \<in> set (nodes d) \<Longrightarrow> node_ok d n" and "\<And>r. r \<in> set (conversation_rows d) \<Longrightarrow> root_ok d r"
  shows "tree_ok d"
  using assms by (simp add: tree_ok_def list_all_iff)

text \<open>Updates of a conversation that keep its key and its root.\<close>

lemma tree_ok_same_keys:
  assumes "tree_ok d" and "nodes d' = nodes d"
    and "map (\<lambda>r. (cv_id r, cv_root_node_id r)) (conversation_rows d') =
         map (\<lambda>r. (cv_id r, cv_root_node_id r)) (conversation_rows d)"
  shows "tree_ok d'"
proof -
  have "tree_view d' = tree_view d" unfolding tree_view_def assms(2,3) ..
  with assms(1) show ?thesis by (rule tree_ok_same)
qed

lemma node_ok_mono:
  "node_ok d n \<Longrightarrow> set (nodes d) \<subseteq> set (nodes d') \<Longrightarrow> set (conversations d) \<subseteq> set (conversations d') \<Longrightarrow> node_ok d' n"
  by (cases "nd_parent_id n") (auto simp: node_ok_def list_ex_iff)

lemma tree_ok_new_conversation:
  assumes ok: "tree_ok d" and new: "cv_id r \<notin> set (conversations d)" and r: "cv_root_node_id r = None"
  shows "tree_ok (d\<lparr>conversation_rows := conversation_rows d @ [r]\<rparr>)" (is "tree_ok ?d")
proof (rule tree_okI)
  show "distinct (conversations ?d)" using tree_okD(1) [OF ok] new by simp
  show "distinct (map nd_id (nodes ?d))" using tree_okD(2) [OF ok] by simp
  show "node_ok ?d n" if "n \<in> set (nodes ?d)" for n
    by (rule node_ok_mono [OF tree_ok_node [OF ok]]) (use that in auto)
  show "root_ok ?d x" if "x \<in> set (conversation_rows ?d)" for x
  proof (cases "x \<in> set (conversation_rows d)")
    case True
    then show ?thesis using tree_okD(5) [OF ok True] by (simp add: root_ok_def)
  next
    case False
    then have "x = r" using that by simp
    moreover have "nd_conversation_id n \<noteq> cv_id r" if "n \<in> set (nodes d)" for n
      using tree_okD(3) [OF ok that] new by auto
    ultimately show ?thesis using r by (simp add: root_ok_def select_def filter_empty_conv)
  qed
qed

lemma tree_ok_create_conversation: "tree_ok d \<Longrightarrow> tree_ok (snd (repo_create_conversation uuid now t cid cs d))"
  by (auto simp: repo_create_conversation_def Let_def new_conversation_row_def intro!: tree_ok_new_conversation)

lemma tree_ok_ensure_conversation:
  assumes "tree_ok d" shows "tree_ok (snd (repo_ensure_conversation now c t cs d))"
proof (cases "c \<in> set (conversations d)")
  case True
  show ?thesis
    using True by (intro tree_ok_same_keys [OF assms]) (simp_all add: repo_ensure_conversation_def map_update_rows_key)
next
  case False
  then show ?thesis using assms
    by (auto simp: repo_ensure_conversation_def new_conversation_row_def intro!: tree_ok_new_conversation)
qed

lemma tree_ok_update_conversation:
  assumes "tree_ok d" shows "tree_ok (snd (repo_update_conversation now c u d))"
  by (rule tree_ok_same_keys [OF assms]) (simp_all add: repo_update_conversation_def updated_conversation_def map_update_rows_key)

lemma tree_ok_focus_on: "tree_ok d \<Longrightarrow> tree_ok (focus_on now c nd d)"
  by (erule tree_ok_same_keys) (simp_all add: focus_on_def map_update_rows_key)

text \<open>Deleting a conversation with its nodes.\<close>

lemma tree_ok_delete_conversation:
  assumes ok: "tree_ok d" shows "tree_ok (snd (repo_delete_conversation c d))"
proof -
  let ?d = "delete_conversation_rows c d"
  have N: "nodes ?d = delete_rows (\<lambda>r. nd_conversation_id r = c) (nodes d)"
    and C: "conversation_rows ?d = delete_rows (\<lambda>r. cv_id r = c) (conversation_rows d)"
    by (simp_all add: delete_conversation_rows_def)
  have "tree_ok ?d"
  proof (rule tree_okI)
    show "distinct (conversations ?d)" using tree_okD(1) [OF ok] C by (simp add: distinct_map_delete_rows)
    show "distinct (map nd_id (nodes ?d))" using tree_okD(2) [OF ok] N by (simp add: distinct_map_delete_rows)
    show "node_ok ?d n" if n: "n \<in> set (nodes ?d)" for n
    proof (cases "nd_parent_id n")
      case None
      then show ?thesis using n tree_okD(3,4) [OF ok, of n] by (auto simp: node_ok_def N C)
    next
      case (Some p)
      moreover have n': "n \<in> set (nodes d)" using n N by simp
      ultimately obtain m where "m \<in> set (nodes d)" "nd_id m = p" "nd_conversation_id m = nd_conversation_id n"
        "nd_depth n = nd_depth m + 1" using tree_ok_parent [OF ok] by blast
      then show ?thesis using n Some tree_okD(3,4) [OF ok n'] by (auto simp: node_ok_def N C list_ex_iff)
    qed
    show "root_ok ?d r" if "r \<in> set (conversation_rows ?d)" for r
    proof -
      have r: "root_ok d r" "cv_id r \<noteq> c" using that tree_okD(5) [OF ok, of r] C by simp_all
      have "select (\<lambda>n. nd_conversation_id n = cv_id r \<and> nd_parent_id n = None) (nodes ?d) =
            select (\<lambda>n. nd_conversation_id n = cv_id r \<and> nd_parent_id n = None) (nodes d)"
        unfolding N select_delete_rows unfolding select_def by (rule filter_cong) (use r(2) in auto)
      then show ?thesis using r(1) by (simp add: root_ok_def)
    qed
  qed
  then have "tree_ok (snd (reclaim_blobs ?d))" by (rule tree_ok_same) (simp add: tree_view_def)
  with \<open>tree_ok ?d\<close> show ?thesis by (simp add: repo_delete_conversation_def Let_def)
qed

text \<open>Deleting a node with its descendants.\<close>

lemma descendants_parentless:
  assumes ok: "tree_ok d" and n: "n \<in> set (nodes d)" "nd_parent_id n = None" and i: "nd_id n \<in> descendants (nodes d) i"
  shows "nd_id n = i"
  using i
proof (cases rule: descendants.cases)
  case (child m p)
  then have "m = n" using same_node [OF ok] n(1) by simp
  then show ?thesis using child n(2) by simp
qed simp

lemma tree_ok_delete_node:
  assumes ok: "tree_ok d" shows "tree_ok (snd (repo_delete_node now c i nc d))"
proof (cases "node_row_of d c i")
  case None
  then show ?thesis using ok by (simp add: repo_delete_node_absent)
next
  case (Some ni)
  let ?d = "snd (repo_delete_node now c i nc d)" and ?D = "descendants (nodes d) i"
  have ne: "node_row_of d c i \<noteq> None" using Some by simp
  note N = repo_delete_node_tables(1) [OF tree_okD(2) [OF ok] ne, of now nc]
    and C = repo_delete_node_tables(2) [OF tree_okD(2) [OF ok] ne, of now nc]
  have ids: "conversations ?d = conversations d" unfolding C by (simp add: without_root_def)
  show ?thesis
  proof (rule tree_okI)
    show "distinct (conversations ?d)" using tree_okD(1) [OF ok] ids by simp
    show "distinct (map nd_id (nodes ?d))" using tree_okD(2) [OF ok] unfolding N by (rule distinct_map_filter)
    show "node_ok ?d n" if n: "n \<in> set (nodes ?d)" for n
    proof -
      have n': "n \<in> set (nodes d)" "nd_id n \<notin> ?D" using n N by simp_all
      note cd = tree_okD(3,4) [OF ok n'(1)]
      show ?thesis
      proof (cases "nd_parent_id n")
        case (Some p)
        obtain m where m: "m \<in> set (nodes d)" "nd_id m = p" "nd_conversation_id m = nd_conversation_id n"
          "nd_depth n = nd_depth m + 1" using tree_ok_parent [OF ok n'(1) Some] .
        have "nd_id m \<notin> ?D" using n' Some m(2) descendants.child by metis
        then have "m \<in> set (nodes ?d)" using m(1) N by simp
        then show ?thesis using Some cd m unfolding node_ok_def ids by (auto simp: list_ex_iff)
      qed (use cd in \<open>simp add: node_ok_def ids\<close>)
    qed
    show "root_ok ?d r'" if r': "r' \<in> set (conversation_rows ?d)" for r'
    proof -
      obtain r where r: "r \<in> set (conversation_rows d)" "r' = without_root c i nc now r" using r' C by auto
      let ?P = "\<lambda>n. nd_conversation_id n = cv_id r \<and> nd_parent_id n = None"
      have id': "cv_id r' = cv_id r" using r(2) by (simp add: without_root_def)
      have ro: "root_ok d r" using tree_okD(5) [OF ok r(1)] .
      have sel: "select ?P (nodes ?d) = filter (\<lambda>n. nd_id n \<noteq> i) (select ?P (nodes d))"
        unfolding N select_def filter_filter
        by (rule filter_cong) (use descendants_parentless [OF ok] descendants.self in auto)
      have "map nd_id (select ?P (nodes ?d)) = filter (\<lambda>j. j \<noteq> i) (map nd_id (select ?P (nodes d)))"
        unfolding sel by (simp add: filter_map comp_def)
      also have "\<dots> = (case cv_root_node_id r' of None \<Rightarrow> [] | Some j \<Rightarrow> [j])"
      proof (cases "cv_root_node_id r = Some i")
        case True
        then obtain m where m: "m \<in> set (nodes d)" "nd_id m = i" "nd_conversation_id m = cv_id r"
          using root_row [OF ro] by blast
        have "ni = m" using same_node [OF ok] m(1,2) node_row_of_SomeD [OF Some] by blast
        then have "cv_id r = c" using m(3) node_row_of_SomeD [OF Some] by simp
        then show ?thesis using True ro r(2) by (simp add: root_ok_def without_root_def)
      next
        case False
        then show ?thesis using ro r(2) by (auto simp: root_ok_def without_root_def split: option.splits)
      qed
      finally show ?thesis by (simp add: root_ok_def id')
    qed
  qed
qed


text \<open>Creating a node.\<close>

lemma tree_ok_update_existing:
  assumes "tree_ok d" and "update_existing_node now c i focus f d = Inr (j, d')"
  shows "tree_ok d'"
proof -
  let ?e = "d\<lparr>nodes := update_rows (\<lambda>r. nd_conversation_id r = c \<and> nd_id r = i) (refreshed_node now f) (nodes d)\<rparr>"
  have d': "d' = (if focus then focus_on now c (Some i) ?e else ?e)"
    using assms(2) by (auto simp: update_existing_node_def Let_def split: if_splits)
  have "map (\<lambda>n. (nd_id n, nd_conversation_id n, nd_parent_id n, nd_depth n)) (nodes ?e) =
        map (\<lambda>n. (nd_id n, nd_conversation_id n, nd_parent_id n, nd_depth n)) (nodes d)"
    by (simp add: map_update_rows_key refreshed_node_def)
  then have "tree_ok ?e" by (intro tree_ok_same [OF assms(1)]) (simp add: tree_view_def)
  then show ?thesis unfolding d' using tree_ok_focus_on by (cases focus) simp_all
qed

lemma insert_node_Inr:
  assumes "insert_node r d = Inr d'"
  shows "d' = d\<lparr>nodes := nodes d @ [r]\<rparr>" and "nd_id r \<notin> nd_id ` set (nodes d)"
    and "nd_conversation_id r \<in> set (conversations d)"
    and "nd_parent_id r = None \<Longrightarrow>
      \<forall>x \<in> set (nodes d). \<not> (nd_conversation_id x = nd_conversation_id r \<and> nd_parent_id x = None)"
  using assms by (auto simp: insert_node_def split: if_splits)

text \<open>The row goes last; a node without parent becomes the root.\<close>

lemma tree_ok_insert_node:
  assumes ok: "tree_ok d" and ins: "insert_node r d = Inr d1" and d: "0 \<le> nd_depth r"
    and par: "\<And>p. nd_parent_id r = Some p \<Longrightarrow>
      \<exists>m \<in> set (nodes d). nd_id m = p \<and> nd_conversation_id m = nd_conversation_id r \<and> nd_depth r = nd_depth m + 1"
    and nodes': "nodes d2 = nodes d1"
    and keys: "map (\<lambda>x. (cv_id x, cv_root_node_id x)) (conversation_rows d2) =
      map (\<lambda>x. (cv_id x, if nd_parent_id r = None \<and> cv_id x = nd_conversation_id r
                         then Some (nd_id r) else cv_root_node_id x)) (conversation_rows d)"
  shows "tree_ok d2"
proof (rule tree_okI)
  note ins' = insert_node_Inr [OF ins]
  have N: "nodes d2 = nodes d @ [r]" using nodes' ins'(1) by simp
  have "map fst (map (\<lambda>x. (cv_id x, cv_root_node_id x)) (conversation_rows d2)) = conversations d"
    unfolding keys by simp
  then have ids: "conversations d2 = conversations d" by (simp add: comp_def)
  show "distinct (conversations d2)" using tree_okD(1) [OF ok] ids by simp
  show "distinct (map nd_id (nodes d2))" using tree_okD(2) [OF ok] ins'(2) N by simp
  show "node_ok d2 n" if "n \<in> set (nodes d2)" for n
  proof (cases "n = r")
    case True
    then show ?thesis using par d ins'(3) unfolding node_ok_def N ids
      by (cases "nd_parent_id r") (auto simp: list_ex_iff)
  next
    case False
    then have "n \<in> set (nodes d)" using that N by simp
    from tree_ok_node [OF ok this] show ?thesis by (rule node_ok_mono) (use N ids in auto)
  qed
  show "root_ok d2 x'" if x': "x' \<in> set (conversation_rows d2)" for x'
  proof -
    have "(cv_id x', cv_root_node_id x') \<in> set (map (\<lambda>x. (cv_id x, cv_root_node_id x)) (conversation_rows d2))"
      using x' by simp
    then obtain x where x: "x \<in> set (conversation_rows d)" "cv_id x' = cv_id x"
      "cv_root_node_id x' = (if nd_parent_id r = None \<and> cv_id x = nd_conversation_id r
                             then Some (nd_id r) else cv_root_node_id x)"
      unfolding keys by auto
    have ro: "root_ok d x" using tree_okD(5) [OF ok x(1)] .
    show ?thesis
    proof (cases "nd_parent_id r = None \<and> cv_id x = nd_conversation_id r")
      case True
      then have "select (\<lambda>n. nd_conversation_id n = cv_id x \<and> nd_parent_id n = None) (nodes d) = []"
        using ins'(4) by (auto simp: select_def filter_empty_conv)
      then show ?thesis using True x by (simp add: root_ok_def N)
    next
      case False
      then show ?thesis using ro x by (auto simp: root_ok_def N)
    qed
  qed
qed

lemma tree_ok_create_new:
  assumes ok: "tree_ok d" and new: "create_new_node now c p order i focus f d = Inr (j, d')"
  shows "tree_ok d'"
proof -
  obtain depth mode d1 where ins: "insert_node (new_node_row now c i p order depth mode f) d = Inr d1"
    and depth: "case p of None \<Rightarrow> depth = 0 | Some q \<Rightarrow> (\<exists>m. node_row_of d c q = Some m \<and> depth = nd_depth m + 1)"
    and d': "d' = (if p = None
        then d1\<lparr>conversation_rows := update_rows (\<lambda>r. cv_id r = c)
          (\<lambda>r. r\<lparr>cv_root_node_id := Some i, cv_current_node_id := Some i, cv_updated_at := now\<rparr>) (conversation_rows d1)\<rparr>
        else if focus then focus_on now c (Some i) d1 else d1)"
    using new
    by (auto simp: create_new_node_def Let_def bind_result_eq_Inr map_result_eq_Inr split: option.splits if_splits prod.splits)
  let ?r = "new_node_row now c i p order depth mode f"
  have r: "nd_parent_id ?r = p" "nd_conversation_id ?r = c" "nd_id ?r = i" "nd_depth ?r = depth"
    by (simp_all add: new_node_row_def)
  have rows1: "conversation_rows d1 = conversation_rows d" using insert_node_Inr(1) [OF ins] by simp
  show ?thesis
  proof (rule tree_ok_insert_node [OF ok ins])
    show "0 \<le> nd_depth ?r"
      using depth tree_okD(4) [OF ok] node_row_of_SomeD by (fastforce simp: r split: option.splits)
    show "\<exists>m \<in> set (nodes d). nd_id m = q \<and> nd_conversation_id m = nd_conversation_id ?r \<and> nd_depth ?r = nd_depth m + 1"
      if "nd_parent_id ?r = Some q" for q
    proof -
      have "p = Some q" using that unfolding r .
      then obtain m where "node_row_of d c q = Some m" "depth = nd_depth m + 1" using depth by auto
      with node_row_of_SomeD show ?thesis unfolding r by blast
    qed
    show "nodes d' = nodes d1" by (simp add: d' focus_on_def)
    show "map (\<lambda>x. (cv_id x, cv_root_node_id x)) (conversation_rows d') =
      map (\<lambda>x. (cv_id x, if nd_parent_id ?r = None \<and> cv_id x = nd_conversation_id ?r
                         then Some (nd_id ?r) else cv_root_node_id x)) (conversation_rows d)"
      unfolding r d' by (auto simp: rows1 update_rows_def focus_on_def)
  qed
qed

lemma tree_ok_transaction:
  assumes "tree_ok d" and "\<And>x d'. body d = Inr (x, d') \<Longrightarrow> tree_ok d'"
  shows "tree_ok (snd (transaction body d))"
  using assms by (auto simp: transaction_def split: sum.splits prod.splits)

lemma tree_ok_create_node:
  assumes "tree_ok d" shows "tree_ok (snd (repo_create_node uuid now c p order nid focus f d))"
  unfolding repo_create_node_def Let_def
  by (rule tree_ok_transaction [OF assms])
     (auto split: if_splits intro: tree_ok_update_existing [OF assms] tree_ok_create_new [OF assms])


section \<open>All operations\<close>

text \<open>The operations that leave both tables as they are.\<close>

named_theorems tree_view_simps \<open>operations that keep the view of the tree\<close>

lemma tree_view_put_text: "put_text E t d = Inr (i, d') \<Longrightarrow> tree_view d' = tree_view d"
  by (auto simp: put_text_def Let_def tree_view_def split: if_splits)

lemma tree_view_store_text: "store_text_content E t d = Inr (st, d') \<Longrightarrow> tree_view d' = tree_view d"
  by (auto simp: store_text_content_def Let_def map_result_eq_Inr dest: tree_view_put_text split: if_splits)

lemma tree_view_transaction:
  "(\<And>x d'. body d = Inr (x, d') \<Longrightarrow> tree_view d' = tree_view d) \<Longrightarrow>
   tree_view (snd (transaction body d)) = tree_view d"
  by (auto simp: transaction_def split: sum.splits prod.splits)

lemma tree_view_upsert_message: "upsert_message r d = Inr d' \<Longrightarrow> tree_view d' = tree_view d"
  by (auto simp: upsert_message_def tree_view_def split: option.splits if_splits)

lemma tree_view_add_message [tree_view_simps]:
  "tree_view (snd (add_message E uuid now c nd role content mf mid d)) = tree_view d"
proof (cases "store_text_content E content d")
  case (Inr p)
  then obtain st d1 where p: "store_text_content E content d = Inr (st, d1)" by (cases p) auto
  show ?thesis
    unfolding add_message_def Let_def p sum.case prod.case tree_view_store_text [OF p, symmetric]
    by (rule tree_view_transaction) (auto simp: map_result_eq_Inr dest: tree_view_upsert_message)
qed (simp add: add_message_def)

lemma tree_view_mark [tree_view_simps]: "tree_view (mark_assistant_answer_continued c i d) = tree_view d"
  by (simp add: mark_assistant_answer_continued_def tree_view_def)

lemma tree_view_insert_model_states: "insert_model_states c m xs d = Inr d' \<Longrightarrow> tree_view d' = tree_view d"
proof (induction c m xs d rule: insert_model_states.induct)
  case (2 c m n item st xs d)
  then obtain k d1 where "insert_model_state
      \<lparr>mi_conversation_id = c, mi_assistant_message_id = m, mi_item_index = k,
       mi_kind = str_or (dget item ''kind'') ''provider_state'', mi_payload_inline = s_inline st,
       mi_payload_blob_id = s_blob_id st\<rparr> d = Inr d1" and "insert_model_states c m xs d1 = Inr d'"
    by (auto simp: bind_result_eq_Inr)
  moreover from this have "tree_view d1 = tree_view d"
    by (auto simp: insert_model_state_def tree_view_def split: if_splits)
  ultimately show ?case using 2 by metis
qed simp

lemma tree_view_store_states: "store_state_texts E xs d = Inr (ys, d') \<Longrightarrow> tree_view d' = tree_view d"
proof (induction E xs d arbitrary: ys d' rule: store_state_texts.induct)
  case (2 E n item p xs d)
  then obtain st d1 zs where "store_text_content E (json_dumps False '','' '':'' (PDict p)) d = Inr (st, d1)"
    and "store_state_texts E xs d1 = Inr (zs, d')"
    by (auto simp: bind_result_eq_Inr)
  with 2 show ?case using tree_view_store_text by metis
qed simp

lemma tree_view_persist_states [tree_view_simps]:
  "tree_view (snd (persist_model_state_items E c m items d)) = tree_view d"
proof (cases "store_state_texts E (state_items items) d")
  case (Inr p)
  then obtain xs d1 where p: "store_state_texts E (state_items items) d = Inr (xs, d1)" by (cases p) auto
  show ?thesis
    unfolding persist_model_state_items_def p sum.case prod.case tree_view_store_states [OF p, symmetric]
    by (rule tree_view_transaction)
       (auto simp: map_result_eq_Inr tree_view_def dest!: tree_view_insert_model_states)
qed (simp add: persist_model_state_items_def)

lemma tree_view_upsert_call: "upsert_tool_call now r d = Inr d' \<Longrightarrow> tree_view d' = tree_view d"
  by (auto simp: upsert_tool_call_def Let_def tree_view_def split: if_splits)

lemma tree_view_add_call [tree_view_simps]:
  "tree_view (snd (add_tool_call E uuid now c nd call name args idx status run msg d)) = tree_view d"
proof (cases "store_text_content E (case args of PStr s \<Rightarrow> s | v \<Rightarrow> or_empty (chat_json_field v)) d")
  case (Inr p)
  then obtain st d1 where p: "store_text_content E (case args of PStr s \<Rightarrow> s | v \<Rightarrow> or_empty (chat_json_field v)) d = Inr (st, d1)"
    by (cases p) auto
  show ?thesis
    unfolding add_tool_call_def Let_def p sum.case prod.case tree_view_store_text [OF p, symmetric]
    by (rule tree_view_transaction) (auto simp: map_result_eq_Inr dest: tree_view_upsert_call)
qed (simp add: add_tool_call_def Let_def)

lemma tree_view_upsert_result: "upsert_tool_result r d = Inr d' \<Longrightarrow> tree_view d' = tree_view d"
  by (auto simp: upsert_tool_result_def update_tool_results_def Let_def tree_view_def split: if_splits)

lemma tree_view_add_result [tree_view_simps]:
  "tree_view (snd (add_tool_result E preview uuid now c nd rid call output status run md d)) = tree_view d"
proof -
  let ?put = "\<lambda>b. if b = None \<and> length (preview output) < length output
      then map_result (\<lambda>(b, d'). (Some b, d')) (put_text E output d) else Inr (b, d)"
  let ?i = "if truthy_opt rid then or_empty rid else uuid"
  show ?thesis
  proof (cases "existing_result_blob E d ?i output")
    case (Inr b)
    show ?thesis
    proof (cases "?put b")
      case (Inr p)
      then obtain b' d1 where p: "?put b = Inr (b', d1)" by (cases p) auto
      then have v: "tree_view d1 = tree_view d"
        by (auto simp: map_result_eq_Inr dest: tree_view_put_text split: if_splits)
      show ?thesis
        unfolding add_tool_result_def Let_def \<open>existing_result_blob E d ?i output = Inr b\<close> sum.case p prod.case v [symmetric]
        by (rule tree_view_transaction) (auto simp: map_result_eq_Inr dest: tree_view_upsert_result)
    qed (use Inr in \<open>simp add: add_tool_result_def Let_def\<close>)
  qed (simp add: add_tool_result_def Let_def)
qed

lemma tree_view_usage [tree_view_simps]: "tree_view (record_model_usage m u n t d) = tree_view d"
  by (simp add: record_model_usage_def tree_view_def Let_def)

inductive tree_step :: "db \<Rightarrow> db \<Rightarrow> bool" for d where
  create_conversation: "tree_step d (snd (repo_create_conversation uuid now t cid cs d))"
| ensure_conversation: "tree_step d (snd (repo_ensure_conversation now c t cs d))"
| update_conversation: "tree_step d (snd (repo_update_conversation now c u d))"
| delete_conversation: "tree_step d (snd (repo_delete_conversation c d))"
| create_node: "tree_step d (snd (repo_create_node uuid now c p order nid focus f d))"
| delete_node: "tree_step d (snd (repo_delete_node now c i nc d))"
| add_message: "tree_step d (snd (add_message E uuid now c nd role content mf mid d))"
| mark_continued: "tree_step d (mark_assistant_answer_continued c i d)"
| persist_states: "tree_step d (snd (persist_model_state_items E c m items d))"
| add_tool_call: "tree_step d (snd (add_tool_call E uuid now c nd call name args idx status run msg d))"
| add_tool_result: "tree_step d (snd (add_tool_result E preview uuid now c nd rid call output status run md d))"
| record_usage: "tree_step d (record_model_usage m usage n t d)"

lemma tree_step_ok: "tree_step d d' \<Longrightarrow> tree_ok d \<Longrightarrow> tree_ok d'"
  by (induction rule: tree_step.induct)
     (simp_all add: tree_ok_create_conversation tree_ok_ensure_conversation tree_ok_update_conversation
        tree_ok_delete_conversation tree_ok_create_node tree_ok_delete_node tree_ok_same [OF _ tree_view_add_message]
        tree_ok_same [OF _ tree_view_mark] tree_ok_same [OF _ tree_view_persist_states]
        tree_ok_same [OF _ tree_view_add_call] tree_ok_same [OF _ tree_view_add_result] tree_ok_same [OF _ tree_view_usage])

lemma tree_steps_ok: "tree_step\<^sup>*\<^sup>* d d' \<Longrightarrow> tree_ok d \<Longrightarrow> tree_ok d'"
  by (induction rule: rtranclp_induct) (auto intro: tree_step_ok)

lemma tree_ok_empty: "tree_ok db_empty"
  by (simp add: tree_ok_def db_empty_def)

end
