(* ===== verification/ToolFormat.thy ===== *)
theory ToolFormat
  imports ChatRepo
begin

text \<open>
  How tool results are shown to the model (\<open>chat/tool_result_format.py\<close>, \<open>microcompact_messages\<close>
  of \<open>chat/compact.py\<close>).  The two limits of the settings are arguments.  A result is a JSON
  text or any other text; a document with floats counts as any other text.
\<close>

type_synonym message = "(string \<times> pyval) list"

section \<open>One result\<close>

definition read_tool_result_hint :: "string \<Rightarrow> int \<Rightarrow> string" where
  "read_tool_result_hint i offset =
     ''read('' @ json_dumps False '','' '':'' (PDict [(''tool_result_id'', PStr i), (''offset'', PInt offset)]) @ '')''"

definition parse_json_object :: "string \<Rightarrow> (string \<times> pyval) list option" where
  "parse_json_object raw = (case json_loads raw of JOk (PDict d) _ \<Rightarrow> Some d | _ \<Rightarrow> None)"

definition command_keys :: "string list" where
  "command_keys = [''command'', ''cwd'', ''exit_code'', ''stdout'', ''stderr'', ''timed_out'']"

definition parse_command_tool_result :: "string \<Rightarrow> (string \<times> pyval) list option" where
  "parse_command_tool_result raw =
     (case parse_json_object raw of
        None \<Rightarrow> None
      | Some d \<Rightarrow> if list_all (\<lambda>k. k \<in> fst ` set d) command_keys then Some d else None)"

text \<open>\<open>newline\<close> is the line break the code joins lines with.\<close>

definition newline :: string where
  "newline = [char_of (10 :: nat)]"

definition command_result_text :: "(string \<times> pyval) list \<Rightarrow> string" where
  "command_result_text d =
     (let out = str_or (dget d ''stdout'') []; err = str_or (dget d ''stderr'') [] in
      join newline
        ([''Exit code: '' @ py_str (dget_or d ''exit_code'' (PStr []))]
         @ (if py_true (dget d ''timed_out'') then [''Timed out: true''] else [])
         @ (if out = [] then [] else [''Stdout:'', out])
         @ (if err = [] then [] else [''Stderr:'', err])))"

definition format_command_tool_result :: "nat \<Rightarrow> string \<Rightarrow> string \<Rightarrow> string" where
  "format_command_tool_result preview_chars raw i =
     (case parse_command_tool_result raw of
        None \<Rightarrow> raw
      | Some d \<Rightarrow>
          let content = command_result_text d in
          if length content \<le> preview_chars then content
          else join newline [take preview_chars content, ''tool_result_id: '' @ i,
                             ''read_more: '' @ read_tool_result_hint i 0])"

definition truncated_payload :: "nat \<Rightarrow> string \<Rightarrow> string \<Rightarrow> (string \<times> pyval) list" where
  "truncated_payload preview_chars raw i =
     (let shown = take preview_chars raw in
      [(''tool_result_id'', PStr i), (''total_chars'', PInt (int (length raw))), (''truncated'', PBool True),
       (''preview'', PStr shown), (''read_more'', PStr (read_tool_result_hint i (int (length shown))))])"

definition format_persisted_tool_result :: "nat \<Rightarrow> string \<Rightarrow> string \<Rightarrow> string" where
  "format_persisted_tool_result preview_chars raw i =
     (if parse_command_tool_result raw \<noteq> None then format_command_tool_result preview_chars raw i
      else if length raw \<le> preview_chars then raw
      else json_dumps False '', '' '': '' (PDict (truncated_payload preview_chars raw i)))"

section \<open>Snapshots\<close>

text \<open>\<open>_strip_diff_snapshot\<close> and \<open>_extract_diff_snapshot\<close>.\<close>

definition snapshot_keys :: "string list" where
  "snapshot_keys = [''before'', ''existed'', ''before_path'', ''after'']"

definition strip_diff_snapshot :: "string \<Rightarrow> string" where
  "strip_diff_snapshot raw =
     (case parse_json_object raw of
        Some p \<Rightarrow>
          if \<exists>k \<in> set snapshot_keys. k \<in> fst ` set p
          then json_dumps False '', '' '': '' (PDict (fold dict_pop snapshot_keys p)) else raw
      | None \<Rightarrow> raw)"

definition snapshot_entry :: "(string \<times> pyval) list \<Rightarrow> pyval" where
  "snapshot_entry p =
     PDict ([(''before'', PStr (str_or (dget p ''before'') [])), (''existed'', PBool (py_true (dget p ''existed'')))]
       @ (if ''after'' \<in> fst ` set p then [(''after'', PStr (str_or (dget p ''after'') []))] else []))"

definition snapshot_of_file ::
  "(string \<times> pyval) list \<Rightarrow> (string \<times> pyval) list \<Rightarrow> string \<times> pyval \<Rightarrow> string \<times> pyval" where
  "snapshot_of_file existed after f =
     (fst f, PDict ([(''before'', PStr (str_or (snd f) [])), (''existed'', PBool (py_true (dget existed (fst f))))]
       @ (if fst f \<in> fst ` set after then [(''after'', PStr (py_str (dget after (fst f))))] else [])))"

text \<open>A map of files whose \<open>existed\<close> is true but no map has no \<open>get\<close>.\<close>

definition extract_diff_snapshot :: "string \<Rightarrow> (string \<times> pyval) list option result" where
  "extract_diff_snapshot raw =
     (case parse_json_object raw of
        None \<Rightarrow> Inr None
      | Some p \<Rightarrow>
          if ''before'' \<notin> fst ` set p then Inr None
          else (case (dget p ''before_path'', dget p ''before'') of
                  (PStr f, _) \<Rightarrow> Inr (Some [(f, snapshot_entry p)])
                | (_, PDict before) \<Rightarrow>
                    let after = (case dget p ''after'' of PDict a \<Rightarrow> a | _ \<Rightarrow> []) in
                    if \<not> py_true (dget p ''existed'') then Inr (Some (map (snapshot_of_file [] after) before))
                    else (case dget p ''existed'' of
                            PDict e \<Rightarrow> Inr (Some (map (snapshot_of_file e after) before))
                          | _ \<Rightarrow> if before = [] then Inr (Some []) else Inl AttributeError)
                | _ \<Rightarrow> Inr None))"

section \<open>Storing a result\<close>

definition persist_model_visible_tool_result ::
  "codec \<Rightarrow> (string \<Rightarrow> string) \<Rightarrow> string \<Rightarrow> nat \<Rightarrow> int \<Rightarrow> string \<Rightarrow> string \<Rightarrow> string \<Rightarrow> string \<Rightarrow> string option \<Rightarrow> db \<Rightarrow>
   (string \<times> string) result \<times> db" where
  "persist_model_visible_tool_result E preview uuid preview_chars now raw name c nd call d =
     (case (if truthy_opt call \<and> \<not> tool_call_exists d c call
            then add_tool_call E uuid now c (Some nd) call name PNone 0 ''running'' None None d
            else (Inr [], d)) of
        (Inl e, d1) \<Rightarrow> (Inl e, d1)
      | (Inr _, d1) \<Rightarrow>
          (case extract_diff_snapshot raw of
             Inl e \<Rightarrow> (Inl e, d1)
           | Inr snap \<Rightarrow>
               let content = (case snap of None \<Rightarrow> raw | Some _ \<Rightarrow> strip_diff_snapshot raw);
                   md = (''tool_name'', PStr name) # (case snap of None \<Rightarrow> [] | Some b \<Rightarrow> [(''diff_before'', PDict b)]) in
               (case add_tool_result E preview uuid now c (Some nd) None call content ''complete'' None (PDict md) d1 of
                  (Inl e, d2) \<Rightarrow> (Inl e, d2)
                | (Inr i, d2) \<Rightarrow> (Inr (format_persisted_tool_result preview_chars content i, i), d2))))"

section \<open>The budget of a round\<close>

definition summarize_persisted_tool_result :: "message \<Rightarrow> string" where
  "summarize_persisted_tool_result m =
     (if \<not> py_true (dget m ''tool_result_id'') then str_or (dget m ''content'') []
      else join newline [''persisted: '' @ py_str (dget m ''tool_result_id''),
                         ''read_more: '' @ read_tool_result_hint (py_str (dget m ''tool_result_id'')) 0])"

definition visible_text :: "message \<Rightarrow> string" where
  "visible_text m =
     (if py_true (dget m ''model_visible_content'') then py_str (dget m ''model_visible_content'')
      else str_or (dget m ''content'') [])"

definition visible_total :: "message list \<Rightarrow> nat" where
  "visible_total ms = sum_list (map (length \<circ> visible_text) ms)"

definition shortenable :: "message \<Rightarrow> bool" where
  "shortenable m =
     (py_true (dget m ''tool_result_id'') \<and> \<not> py_true (dget m ''_round_budget_shortened'') \<and>
      length (summarize_persisted_tool_result m) < length (visible_text m))"

text \<open>\<open>max\<close> of the pairs of length and index.\<close>

definition longest :: "message list \<Rightarrow> nat option" where
  "longest ms =
     (let cands = filter (\<lambda>(n, i). shortenable (ms ! i)) (map (\<lambda>i. (length (visible_text (ms ! i)), i)) [0..<length ms]) in
      case cands of [] \<Rightarrow> None | c # cs \<Rightarrow> Some (snd (fold max cs c)))"

definition shorten :: "message \<Rightarrow> message" where
  "shorten m =
     (let m1 = (if ''raw_content'' \<in> fst ` set m then m else dict_set ''raw_content'' (PStr (visible_text m)) m);
          s = PStr (summarize_persisted_tool_result m1)
      in dict_set ''_round_budget_shortened'' (PBool True)
           (dict_set ''model_visible_content'' s (dict_set ''content'' s m1)))"

text \<open>Each turn of the loop makes the visible texts shorter in all, or it is the last.\<close>

function shrink_loop :: "nat \<Rightarrow> message list \<Rightarrow> message list" where
  "shrink_loop budget ms =
     (if visible_total ms \<le> budget then ms
      else (case longest ms of
              None \<Rightarrow> ms
            | Some i \<Rightarrow>
                let ms' = ms[i := shorten (ms ! i)] in
                if visible_total ms \<le> visible_total ms' then ms' else shrink_loop budget ms'))"
  by pat_completeness auto
termination
  by (relation "measure (\<lambda>(budget, ms). visible_total ms)") auto

declare shrink_loop.simps [simp del]

definition apply_round_tool_result_budget :: "int \<Rightarrow> message list \<Rightarrow> message list" where
  "apply_round_tool_result_budget budget ms =
     (if budget \<le> 0 then ms else map (dict_pop ''_round_budget_shortened'') (shrink_loop (nat budget) ms))"

section \<open>Deterministic shortening\<close>

definition MICROCOMPACT_MAX_TOOL_CONTENT_CHARS :: nat where
  "MICROCOMPACT_MAX_TOOL_CONTENT_CHARS = 8000"

definition microcompact_message :: "nat \<Rightarrow> message \<Rightarrow> message" where
  "microcompact_message limit m =
     (let content = str_or (dget m ''content'') []; head_chars = limit - 300 in
      if dget m ''role'' \<noteq> PStr ''tool'' \<or> length content \<le> limit then m
      else dict_set ''content'' (PStr (rstrip (take head_chars content) @ newline @ newline
             @ ''[microcompact] Tool result truncated from '' @ nat_str (length content) @ '' chars to ''
             @ nat_str head_chars
             @ '' chars for model context. Use the original transcript/tool result storage for full details.'')) m)"

definition microcompact_messages :: "message list \<Rightarrow> message list" where
  "microcompact_messages ms = map (microcompact_message MICROCOMPACT_MAX_TOOL_CONTENT_CHARS) ms"

end
