(* ===== verification/CanonicalReader.thy ===== *)
theory CanonicalReader
  imports ToolFormat
begin

text \<open>
  The read side of a conversation (\<open>chat/canonical_reader.py\<close>): messages, states of the model,
  tool calls with their results, compact boundaries and summaries, each grouped by node.  A
  message is the dictionary the code builds.  A role is its string; \<open>rowid\<close> is the place of a row in its
  table.
\<close>

section \<open>Payloads\<close>

definition tool_result_payload :: "pyval \<Rightarrow> (string \<times> pyval) list" where
  "tool_result_payload v = (case v of PDict d \<Rightarrow> d | PStr s \<Rightarrow> json_object (Some s) | _ \<Rightarrow> [])"

definition payload_of_message :: "message \<Rightarrow> (string \<times> pyval) list" where
  "payload_of_message m =
     tool_result_payload (if py_true (dget m ''raw_content'') then dget m ''raw_content'' else dget m ''content'')"

definition BLOCKING_PLAN_TOOLS :: "string list" where
  "BLOCKING_PLAN_TOOLS = [''ask_user_question'', ''exit_plan_mode'']"

definition has_blocking_plan_participation_result :: "message list \<Rightarrow> bool" where
  "has_blocking_plan_participation_result ms =
     list_ex (\<lambda>m. str_or (dget m ''name'') [] \<in> set BLOCKING_PLAN_TOOLS \<and>
       str_or (dget (payload_of_message m) ''status'') [] \<in> {''awaiting_approval'', ''awaiting_question''}) ms"

definition usage_from_message :: "message \<Rightarrow> (string \<times> pyval) list option" where
  "usage_from_message m =
     (case dget m ''generation_info'' of
        PDict g \<Rightarrow>
          (case dget g ''usage_info'' of
             PDict (p # u) \<Rightarrow> Some (p # u)
           | _ \<Rightarrow> (case dget g ''tokens_used'' of
                    PInt n \<Rightarrow> if n = 0 then None else Some (estimated_usage n None)
                  | _ \<Rightarrow> None))
      | _ \<Rightarrow> None)"

section \<open>Messages\<close>

definition message_roles :: "string list" where
  "message_roles = [''system'', ''user'', ''notify'', ''assistant'', ''tool'']"

text \<open>\<open>grouped.setdefault(k, []).append(x)\<close>.\<close>

definition group_append :: "'k \<Rightarrow> 'a \<Rightarrow> ('k \<times> 'a list) list \<Rightarrow> ('k \<times> 'a list) list" where
  "group_append k x g = dict_set k ((case map_of g k of None \<Rightarrow> [] | Some xs \<Rightarrow> xs) @ [x]) g"

definition group_all :: "('k \<times> 'a) list \<Rightarrow> ('k \<times> 'a list) list" where
  "group_all ps = fold (\<lambda>(k, x). group_append k x) ps []"

definition group_of :: "'k \<Rightarrow> ('k \<times> 'a list) list \<Rightarrow> 'a list" where
  "group_of k g = (case map_of g k of None \<Rightarrow> [] | Some xs \<Rightarrow> xs)"

text \<open>A column stored inline or as a blob; both may be missing.\<close>

definition stored_column :: "codec \<Rightarrow> db \<Rightarrow> string option \<Rightarrow> string option \<Rightarrow> string option result" where
  "stored_column E d inline blob =
     (if inline = None \<and> truthy_opt blob then map_result Some (get_text E d (or_empty blob)) else Inr inline)"

definition message_of_row :: "codec \<Rightarrow> db \<Rightarrow> nat \<times> message_row \<Rightarrow> message result" where
  "message_of_row E d nr =
     (let r = snd nr in
      bind_result (stored_column E d (mg_content_inline r) (mg_content_blob_id r)) (\<lambda>content.
        if mg_role r \<notin> set message_roles then Inl (ValueError ''is not a valid Role'')
        else
          Inr (dict_update
            ([(''id'', PStr (mg_id r)), (''role'', PStr (mg_role r)), (''content'', PStr (or_empty content)),
              (''timestamp'', PInt (mg_created_at r)), (''node_id'', of_opt (mg_node_id r)),
              (''_rowid'', PInt (int (fst nr)))]
             @ (if truthy_opt (mg_subtype r) then [(''subtype'', of_opt (mg_subtype r))] else [])
             @ (if mg_hidden r then [(''is_hidden_from_transcript'', PBool True)] else [])
             @ (if mg_transcript_only r then [(''is_visible_in_transcript_only'', PBool True)] else [])
             @ (if truthy_opt (mg_model_route_id r) then [(''model_route_id'', of_opt (mg_model_route_id r))] else [])
             @ (case mg_model_round_index r of None \<Rightarrow> [] | Some k \<Rightarrow> [(''model_round_index'', PInt k)]))
            (filter (\<lambda>p. fst p \<notin> {''id'', ''role'', ''content'', ''subtype'', ''timestamp'', ''node_id''})
               (json_object (mg_metadata_json r))))))"

definition message_rows_of :: "db \<Rightarrow> string \<Rightarrow> string list \<Rightarrow> (nat \<times> message_row) list" where
  "message_rows_of d c ids =
     sort_key (\<lambda>(n, r). (or_empty (mg_node_id r), mg_created_at r))
       (filter (\<lambda>(n, r). mg_conversation_id r = c \<and> mg_node_id r \<in> Some ` set ids) (enumerate 1 (message_rows d)))"

definition messages_by_node :: "codec \<Rightarrow> db \<Rightarrow> string \<Rightarrow> string list \<Rightarrow> (string \<times> message list) list result" where
  "messages_by_node E d c ids =
     map_result (\<lambda>ms. group_all ms)
       (mapM_result (\<lambda>nr. map_result (Pair (or_empty (mg_node_id (snd nr)))) (message_of_row E d nr))
          (message_rows_of d c ids))"

section \<open>States of the model\<close>

text \<open>
  The join of states and messages, by node, round (\<open>NULL\<close> first) and index; ties keep the order of the
  table of states.
\<close>

definition state_join :: "db \<Rightarrow> string \<Rightarrow> string list \<Rightarrow> (model_state_row \<times> message_row) list" where
  "state_join d c ids =
     concat (map (\<lambda>s. map (Pair s)
         (select (\<lambda>m. mg_conversation_id m = c \<and> mg_id m = mi_assistant_message_id s
                      \<and> mg_node_id m \<in> Some ` set ids) (message_rows d)))
       (select (\<lambda>s. mi_conversation_id s = c) (model_state_rows d)))"

definition state_key :: "model_state_row \<times> message_row \<Rightarrow> string \<times> (nat \<times> int) \<times> int" where
  "state_key sm =
     (or_empty (mg_node_id (snd sm)),
      (case mg_model_round_index (snd sm) of None \<Rightarrow> (0, 0) | Some k \<Rightarrow> (1, k)), mi_item_index (fst sm))"

definition state_entry :: "codec \<Rightarrow> db \<Rightarrow> model_state_row \<times> message_row \<Rightarrow> message result" where
  "state_entry E d sm =
     (let s = fst sm; m = snd sm in
      map_result (\<lambda>payload.
        [(''id'', PStr (mi_assistant_message_id s @ '':'' @ int_str (mi_item_index s))),
         (''assistant_message_id'', PStr (mi_assistant_message_id s)),
         (''route_id'', PStr (or_empty (mg_model_route_id m))), (''index'', PInt (mi_item_index s)),
         (''round_index'', PInt (case mg_model_round_index m of None \<Rightarrow> 0 | Some k \<Rightarrow> k)),
         (''kind'', PStr (mi_kind s)), (''native_payload'', PDict (json_object payload))])
        (stored_column E d (mi_payload_inline s) (mi_payload_blob_id s)))"

definition model_state_items_by_node ::
  "codec \<Rightarrow> db \<Rightarrow> string \<Rightarrow> string list \<Rightarrow> (string \<times> message list) list result" where
  "model_state_items_by_node E d c ids =
     map_result (\<lambda>ms. group_all ms)
       (mapM_result (\<lambda>sm. map_result (Pair (or_empty (mg_node_id (snd sm)))) (state_entry E d sm))
          (sort_key state_key (state_join d c ids)))"

section \<open>Compact boundaries and summaries\<close>

definition drop_keys :: "string list \<Rightarrow> message \<Rightarrow> message" where
  "drop_keys ks m = filter (\<lambda>p. fst p \<notin> set ks) m"

definition boundary_of :: "message list \<Rightarrow> message option" where
  "boundary_of ms =
     map_option
       (drop_keys [''id'', ''role'', ''content'', ''timestamp'', ''node_id'', ''subtype'',
          ''is_hidden_from_transcript'', ''is_visible_in_transcript_only''])
       (find (\<lambda>m. dget m ''role'' = PStr ''system'' \<and> dget m ''subtype'' = PStr ''compact_boundary'') ms)"

definition compact_metadata_by_node :: "codec \<Rightarrow> db \<Rightarrow> string \<Rightarrow> string list \<Rightarrow> (string \<times> message) list result" where
  "compact_metadata_by_node E d c ids =
     map_result
       (\<lambda>g. concat (map (\<lambda>(i, ms). case boundary_of ms of None \<Rightarrow> [] | Some b \<Rightarrow> [(i, b)]) g))
       (messages_by_node E d c ids)"

definition prune_record :: "message \<Rightarrow> message" where
  "prune_record m =
     dict_update
       (drop_keys [''role'', ''timestamp'', ''node_id'', ''is_hidden_from_transcript'', ''is_visible_in_transcript_only''] m)
       [(''id'', PStr (str_or (dget m ''id'') [])), (''summary'', PStr (str_or (dget m ''content'') [])),
        (''created_at'', PInt (int_value (dget m ''timestamp'') 0)), (''type'', PStr ''prune_summary''),
        (''status'', PStr ''completed'')]"

text \<open>The newest first.\<close>

definition prune_summaries_of :: "message list \<Rightarrow> message list" where
  "prune_summaries_of ms =
     map (dict_pop ''_rowid'')
       (sort_key (\<lambda>r. (- int_value (dget r ''created_at'') 0, - int_value (dget r ''_rowid'') 0))
          (map prune_record (filter (\<lambda>m. dget m ''subtype'' = PStr ''prune_summary'') ms)))"

definition prune_summaries_by_node ::
  "codec \<Rightarrow> db \<Rightarrow> string \<Rightarrow> string list \<Rightarrow> (string \<times> message list) list result" where
  "prune_summaries_by_node E d c ids =
     map_result
       (\<lambda>g. filter (\<lambda>p. snd p \<noteq> []) (map (\<lambda>(i, ms). (i, prune_summaries_of ms)) g))
       (messages_by_node E d c ids)"

definition is_answer :: "message \<Rightarrow> bool" where
  "is_answer m =
     (dget m ''role'' = PStr ''assistant'' \<and> dget m ''subtype'' \<in> {PNone, PStr [], PStr ''assistant_answer''})"

definition latest_assistant_answer :: "codec \<Rightarrow> db \<Rightarrow> string \<Rightarrow> string \<Rightarrow> message option result" where
  "latest_assistant_answer E d c i =
     map_result (\<lambda>g. find is_answer (rev (group_of i g))) (messages_by_node E d c [i])"

section \<open>Tool calls with their results\<close>

definition call_rows_of :: "db \<Rightarrow> string \<Rightarrow> string list \<Rightarrow> tool_call_row list" where
  "call_rows_of d c ids =
     sort_key (\<lambda>r. (or_empty (tl_node_id r), tl_call_index r, tl_created_at r, tl_id r))
       (select (\<lambda>r. tl_conversation_id r = c \<and> tl_node_id r \<in> Some ` set ids) (tool_call_rows d))"

definition results_by_call_id :: "db \<Rightarrow> string \<Rightarrow> string list \<Rightarrow> (string \<times> tool_result_row) list" where
  "results_by_call_id d c ids =
     fold (\<lambda>r g. if truthy_opt (tz_tool_call_id r) then dict_set (or_empty (tz_tool_call_id r)) r g else g)
       (sort_key (\<lambda>r. (tz_created_at r, tz_id r))
          (select (\<lambda>r. tz_conversation_id r = c \<and> tz_node_id r \<in> Some ` set ids) (tool_result_rows d))) []"

definition tool_call_message :: "tool_call_row \<Rightarrow> string \<Rightarrow> message" where
  "tool_call_message r arguments =
     [(''id'', PStr (if truthy_opt (tl_assistant_message_id r) then or_empty (tl_assistant_message_id r)
                     else ''tool-call:'' @ tl_id r)),
      (''role'', PStr ''assistant''), (''content'', PStr []),
      (''assistant_message_id'', of_opt (tl_assistant_message_id r)),
      (''tool_calls'', PList [PDict [(''id'', PStr (tl_id r)), (''type'', PStr ''function''),
         (''function'', PDict [(''name'', PStr (tl_name r)), (''arguments'', PStr arguments)])]])]"

definition tool_result_message :: "string \<Rightarrow> int \<Rightarrow> tool_call_row \<Rightarrow> string \<Rightarrow> string option \<Rightarrow> message" where
  "tool_result_message uuid now r content rid =
     [(''id'', PStr (if truthy_opt rid then or_empty rid else uuid)), (''role'', PStr ''tool''),
      (''content'', PStr content), (''model_visible_content'', PStr content), (''name'', PStr (tl_name r)),
      (''tool_call_id'', PStr (tl_id r)), (''tool_result_id'', of_opt rid), (''timestamp'', PInt now)]"

text \<open>The text of the result, and its id; a call without result gets a note.\<close>

definition result_text ::
  "codec \<Rightarrow> nat \<Rightarrow> db \<Rightarrow> (string \<times> tool_result_row) list \<Rightarrow> string \<Rightarrow> (string \<times> string option) result" where
  "result_text E preview_chars d results call =
     (case map_of results call of
        None \<Rightarrow> Inr (''Tool result missing for tool_call_id '' @ call @ ''.'', None)
      | Some z \<Rightarrow>
          map_result (\<lambda>raw. (format_persisted_tool_result preview_chars raw (tz_id z), Some (tz_id z)))
            (if truthy_opt (tz_output_blob_id z) then get_text E d (or_empty (tz_output_blob_id z))
             else Inr (tz_output_preview z)))"

definition tool_pair ::
  "codec \<Rightarrow> nat \<Rightarrow> (string \<Rightarrow> string) \<Rightarrow> int \<Rightarrow> db \<Rightarrow> (string \<times> tool_result_row) list \<Rightarrow> tool_call_row \<Rightarrow>
   (string \<times> message \<times> message) result" where
  "tool_pair E preview_chars fresh now d results r =
     bind_result (stored_column E d (tl_args_inline r) (tl_args_blob_id r)) (\<lambda>arguments.
     map_result (\<lambda>(content, rid). (or_empty (tl_node_id r), tool_call_message r (or_empty arguments),
                                   tool_result_message (fresh (tl_id r)) now r content rid))
       (result_text E preview_chars d results (tl_id r)))"

definition tool_history_by_node ::
  "codec \<Rightarrow> nat \<Rightarrow> (string \<Rightarrow> string) \<Rightarrow> int \<Rightarrow> db \<Rightarrow> string \<Rightarrow> string list \<Rightarrow>
   (string \<times> (message \<times> message) list) list result" where
  "tool_history_by_node E preview_chars fresh now d c ids =
     map_result (\<lambda>ms. group_all ms)
       (mapM_result (tool_pair E preview_chars fresh now d (results_by_call_id d c ids))
          (filter (\<lambda>r. truthy_opt (tl_node_id r) \<and> tl_id r \<noteq> []) (call_rows_of d c ids)))"

definition tool_context_by_node ::
  "codec \<Rightarrow> nat \<Rightarrow> (string \<Rightarrow> string) \<Rightarrow> int \<Rightarrow> db \<Rightarrow> string \<Rightarrow> string list \<Rightarrow> (string \<times> message list) list result" where
  "tool_context_by_node E preview_chars fresh now d c ids =
     map_result (map (\<lambda>(i, pairs). (i, map snd pairs))) (tool_history_by_node E preview_chars fresh now d c ids)"

section \<open>Usage\<close>

definition turn_usage_for_node :: "codec \<Rightarrow> db \<Rightarrow> string \<Rightarrow> string \<Rightarrow> (string \<times> pyval) list option result" where
  "turn_usage_for_node E d c i =
     map_result
       (\<lambda>g. fold (\<lambda>m u. Some (add_usage (case u of None \<Rightarrow> [] | Some v \<Rightarrow> v)
                                (case usage_from_message m of None \<Rightarrow> [] | Some v \<Rightarrow> v)))
              (filter is_answer (group_of i g)) None)
       (messages_by_node E d c [i])"

end
