(* ===== verification/Conversation.thy ===== *)
theory Conversation
  imports NodeTypes
begin

text \<open>
  The tree of a conversation in memory (\<open>chat/conversation.py\<close>).  The nodes are the dictionary
  the class keeps; walking up the parents and down with a stack are loops that the code does
  not bound, so their results are options, \<open>None\<close> when they do not return.  The recursive
  methods take the number of frames Python still allows and raise \<open>RecursionError\<close> beyond it.
\<close>

type_synonym node_dict = "(string \<times> tree_node) list"

record conversation =
  cn_metadata :: "(string \<times> pyval) list"
  cn_nodes :: node_dict
  cn_root_node_id :: "string option"
  cn_current_node_id :: "string option"
  cn_current_provider :: "string option"
  cn_current_model :: "string option"

definition SCHEMA_VERSION :: int where
  "SCHEMA_VERSION = 1"

definition touch :: "int \<Rightarrow> conversation \<Rightarrow> conversation" where
  "touch now c = c\<lparr>cn_metadata := dict_set ''updated_at'' (PInt now) (cn_metadata c)\<rparr>"

text \<open>The constructor: an empty identifier becomes a fresh one.\<close>

definition conversation_init :: "string \<Rightarrow> int \<Rightarrow> string \<Rightarrow> string \<Rightarrow> (string \<times> pyval) list option \<Rightarrow> conversation" where
  "conversation_init uuid now cid t workspace =
     \<lparr>cn_metadata =
        [(''id'', PStr (if cid = [] then uuid else cid)), (''title'', PStr t), (''created_at'', PInt now),
         (''updated_at'', PInt now), (''total_tokens'', PDict []), (''schema_version'', PInt SCHEMA_VERSION)]
        @ (case workspace of None \<Rightarrow> [] | Some w \<Rightarrow> [(''workspace'', PDict w)]),
      cn_nodes = [], cn_root_node_id = None, cn_current_node_id = None,
      cn_current_provider = None, cn_current_model = None\<rparr>"

definition set_current_model :: "string \<Rightarrow> string \<Rightarrow> conversation \<Rightarrow> conversation" where
  "set_current_model provider model c =
     c\<lparr>cn_current_provider := Some provider, cn_current_model := Some model,
       cn_metadata := dict_set ''model_id'' (PStr model) (dict_set ''provider_id'' (PStr provider) (cn_metadata c))\<rparr>"

definition clear :: "int \<Rightarrow> conversation \<Rightarrow> conversation" where
  "clear now c = touch now (c\<lparr>cn_nodes := [], cn_root_node_id := None, cn_current_node_id := None\<rparr>)"

section \<open>Adding and deleting\<close>

definition map_node :: "string \<Rightarrow> (tree_node \<Rightarrow> tree_node) \<Rightarrow> node_dict \<Rightarrow> node_dict" where
  "map_node i f ns = (case map_of ns i of None \<Rightarrow> ns | Some n \<Rightarrow> dict_set i (f n) ns)"

definition add_node :: "int \<Rightarrow> tree_node \<Rightarrow> string option \<Rightarrow> bool \<Rightarrow> bool \<Rightarrow> conversation \<Rightarrow> conversation" where
  "add_node now n parent is_root focus c =
     (let i = tn_id n; ns = dict_set i n (cn_nodes c); p = or_empty parent in
      touch now
        (if is_root then c\<lparr>cn_nodes := ns, cn_root_node_id := Some i, cn_current_node_id := Some i\<rparr>
         else if truthy_opt parent \<and> map_of ns p \<noteq> None
         then c\<lparr>cn_nodes := map_node p (\<lambda>m. m\<lparr>tn_children_ids := tn_children_ids m @ [i]\<rparr>)
                  (map_node i (\<lambda>m. m\<lparr>tn_parent_id := parent\<rparr>) ns),
                cn_current_node_id := (if focus then Some i else cn_current_node_id c)\<rparr>
         else c\<lparr>cn_nodes := ns\<rparr>))"

definition initialize_with_system_message :: "string \<Rightarrow> int \<Rightarrow> bool \<Rightarrow> conversation \<Rightarrow> conversation" where
  "initialize_with_system_message uuid now force c =
     (if cn_nodes c \<noteq> [] \<and> \<not> force then c
      else add_node now (create_root_node uuid now) None True True (clear now c))"

text \<open>\<open>_delete_recursive\<close> on a list of siblings, each after its children.\<close>

fun delete_recursive :: "nat \<Rightarrow> string list \<Rightarrow> node_dict \<Rightarrow> node_dict result" where
  "delete_recursive limit [] ns = Inr ns"
| "delete_recursive 0 (i # is) ns = Inl RecursionError"
| "delete_recursive (Suc k) (i # is) ns =
     (case map_of ns i of
        None \<Rightarrow> Inl (KeyError i)
      | Some n \<Rightarrow>
          (case delete_recursive k (tn_children_ids n) ns of
             Inl e \<Rightarrow> Inl e
           | Inr ns' \<Rightarrow>
               if map_of ns' i = None then Inl (KeyError i)
               else delete_recursive (Suc k) is (dict_pop i ns')))"

definition del_node :: "nat \<Rightarrow> int \<Rightarrow> string \<Rightarrow> conversation \<Rightarrow> conversation result" where
  "del_node limit now i c =
     (case map_of (cn_nodes c) i of
        None \<Rightarrow> Inr c
      | Some n \<Rightarrow>
          let parent = tn_parent_id n; p = or_empty parent in
          bind_result (delete_recursive limit [i] (cn_nodes c)) (\<lambda>ns.
          bind_result
            (if truthy_opt parent
             then (case map_of ns p of
                     None \<Rightarrow> Inr ns
                   | Some m \<Rightarrow>
                       if i \<in> set (tn_children_ids m)
                       then Inr (dict_set p (m\<lparr>tn_children_ids := remove1 i (tn_children_ids m)\<rparr>) ns)
                       else Inl (ValueError ''list.remove(x): x not in list''))
             else Inr ns) (\<lambda>ns'.
            Inr (touch now (c\<lparr>cn_nodes := ns',
              cn_current_node_id := (if cn_current_node_id c = Some i then parent else cn_current_node_id c)\<rparr>)))))"

section \<open>Walking\<close>

text \<open>\<open>get_node_chain\<close>: up the parents to the root, the chain in the order from the root.\<close>

partial_function (option) chain_up ::
  "node_dict \<Rightarrow> string option \<Rightarrow> tree_node list \<Rightarrow> tree_node list result option" where
  "chain_up ns current acc =
     (if current = Some ''None'' \<or> \<not> truthy_opt current then Some (Inr acc)
      else (case map_of ns (or_empty current) of
              None \<Rightarrow> Some (Inl (KeyError (or_empty current)))
            | Some n \<Rightarrow> chain_up ns (tn_parent_id n) (n # acc)))"

declare chain_up.simps [code]

definition get_node_chain :: "conversation \<Rightarrow> string option \<Rightarrow> tree_node list result option" where
  "get_node_chain c nid =
     (let target = (if truthy_opt nid then nid else cn_current_node_id c) in
      if \<not> truthy_opt target \<or> map_of (cn_nodes c) (or_empty target) = None then Some (Inr [])
      else chain_up (cn_nodes c) target [])"

text \<open>The stack of the two walks down is a list whose head is popped.\<close>

partial_function (option) descendants_loop ::
  "node_dict \<Rightarrow> bool \<Rightarrow> string \<Rightarrow> string list \<Rightarrow> string list \<Rightarrow> string list option" where
  "descendants_loop ns include_self start stack acc =
     (case stack of
        [] \<Rightarrow> Some acc
      | i # rest \<Rightarrow>
          descendants_loop ns include_self start
            ((case map_of ns i of None \<Rightarrow> [] | Some n \<Rightarrow> tn_children_ids n) @ rest)
            (if include_self \<or> i \<noteq> start then acc @ [i] else acc))"

declare descendants_loop.simps [code]

definition get_descendant_node_ids :: "conversation \<Rightarrow> string \<Rightarrow> bool \<Rightarrow> string list option" where
  "get_descendant_node_ids c i include_self =
     (if map_of (cn_nodes c) i = None then Some []
      else descendants_loop (cn_nodes c) include_self i [i] [])"

partial_function (option) count_loop :: "node_dict \<Rightarrow> string list \<Rightarrow> nat \<Rightarrow> nat option" where
  "count_loop ns stack count =
     (case stack of
        [] \<Rightarrow> Some count
      | i # rest \<Rightarrow>
          (case map_of ns i of
             None \<Rightarrow> count_loop ns rest count
           | Some n \<Rightarrow> count_loop ns (rev (tn_children_ids n) @ rest) (Suc count)))"

declare count_loop.simps [code]

definition count_nodes_in_branch :: "conversation \<Rightarrow> string \<Rightarrow> nat option" where
  "count_nodes_in_branch c i = count_loop (cn_nodes c) [i] 0"

text \<open>\<open>get_node_tree\<close>: the display entries of a subtree in preorder.\<close>

definition display_info :: "conversation \<Rightarrow> tree_node \<Rightarrow> int \<Rightarrow> (string \<times> pyval) list" where
  "display_info c n level =
     [(''id'', PStr (tn_id n)), (''level'', PInt level),
      (''is_current'', PBool (cn_current_node_id c = Some (tn_id n))),
      (''has_children'', PBool (tn_children_ids n \<noteq> [])),
      (''children_count'', PInt (int (length (tn_children_ids n)))), (''timestamp'', PInt (tn_timestamp n)),
      (''model_id'', of_opt (tn_model_id n))]"

fun get_node_tree :: "nat \<Rightarrow> conversation \<Rightarrow> string option \<Rightarrow> int \<Rightarrow> (string \<times> pyval) list list result" where
  "get_node_tree 0 c nid level = Inl RecursionError"
| "get_node_tree (Suc k) c nid level =
     (let current = (if truthy_opt nid then nid else cn_root_node_id c) in
      if \<not> truthy_opt current then Inr []
      else (case map_of (cn_nodes c) (or_empty current) of
              None \<Rightarrow> Inr []
            | Some n \<Rightarrow>
                map_result (\<lambda>below. display_info c n level # concat below)
                  (mapM_result (\<lambda>child. get_node_tree k c (Some child) (level + 1)) (tn_children_ids n))))"

definition switch_to_node :: "string \<Rightarrow> conversation \<Rightarrow> bool \<times> conversation" where
  "switch_to_node i c =
     (if map_of (cn_nodes c) i \<noteq> None then (True, c\<lparr>cn_current_node_id := Some i\<rparr>) else (False, c))"

section \<open>Loading\<close>

text \<open>\<open>_ensure_node_usage\<close>.\<close>

definition ensure_node_usage :: "tree_node \<Rightarrow> tree_node" where
  "ensure_node_usage n =
     (let total = tn_total_tokens n;
          b0 = (if tn_branch_usage_info n = [] then estimated_usage total None else tn_branch_usage_info n);
          b = (if \<not> py_true (dget b0 ''total_tokens'') \<and> total \<noteq> 0 then estimated_usage total None else b0);
          turn = (if tn_turn_usage n = [] then estimated_usage 0 None else tn_turn_usage n);
          active = tn_active_context_usage n
      in n\<lparr>tn_branch_usage_info := b, tn_total_tokens := usage_total b total, tn_turn_usage := turn,
           tn_branch_usage := (if tn_branch_usage n = [] then b else tn_branch_usage n),
           tn_active_context_usage :=
             (if active = [] \<or> dget active ''source'' = PStr ''aggregate'' then turn else active)\<rparr>)"

text \<open>
  One pass of \<open>_prune_dangling\<close> over the keys, then passes until one deletes nothing; last, the
  children that are gone are forgotten.
\<close>

fun prune_pass :: "string \<Rightarrow> string list \<Rightarrow> node_dict \<Rightarrow> string list \<Rightarrow> node_dict \<times> string list" where
  "prune_pass root [] ns skipped = (ns, skipped)"
| "prune_pass root (i # is) ns skipped =
     (case map_of ns i of
        None \<Rightarrow> prune_pass root is ns skipped
      | Some n \<Rightarrow>
          if i = root then prune_pass root is ns skipped
          else if (case tn_parent_id n of None \<Rightarrow> True | Some p \<Rightarrow> p \<noteq> ''None'' \<and> map_of ns p = None)
          then prune_pass root is (dict_pop i ns) (skipped @ [i])
          else prune_pass root is ns skipped)"

lemma length_prune_pass:
  "length (fst (prune_pass root is ns sk)) \<le> length ns \<and>
   (snd (prune_pass root is ns sk) \<noteq> sk \<longrightarrow> length (fst (prune_pass root is ns sk)) < length ns) \<and>
   length sk \<le> length (snd (prune_pass root is ns sk))"
proof (induction "root" "is" ns sk rule: prune_pass.induct)
  case (2 "root" i "is" ns skipped)
  show ?case
  proof (cases "map_of ns i")
    case (Some n)
    have "length (dict_pop i ns) < length ns"
      unfolding dict_pop_def using map_of_SomeD [OF Some] by (intro length_filter_less) auto
    then show ?thesis using 2 Some by (auto dest: order.strict_trans1 order.strict_trans2 split: if_splits)
  qed (use 2 in simp)
qed simp

function prune_loop :: "string \<Rightarrow> node_dict \<Rightarrow> string list \<Rightarrow> node_dict \<times> string list" where
  "prune_loop root ns skipped =
     (case prune_pass root (map fst ns) ns [] of
        (ns', new) \<Rightarrow> if new = [] then (ns', skipped) else prune_loop root ns' (skipped @ new))"
  by pat_completeness auto
termination
proof (relation "measure (\<lambda>(root, ns, skipped). length ns)")
  show "((root', ns', sk @ new), (root', ns, sk)) \<in> measure (\<lambda>(root, ns, skipped). length ns)"
    if "(ns', new) = prune_pass root' (map fst ns) ns []" and "new \<noteq> []" for root' ns ns' sk new
    using length_prune_pass [of root' "map fst ns" ns "[]"] that(2) unfolding that(1) [symmetric] by simp
qed simp_all

declare prune_loop.simps [simp del]

definition prune_dangling :: "string \<Rightarrow> node_dict \<Rightarrow> node_dict \<times> string list" where
  "prune_dangling root ns =
     (case prune_loop root ns [] of
        (ns', skipped) \<Rightarrow>
          (if skipped = [] then ns'
           else map (\<lambda>(i, n). (i, n\<lparr>tn_children_ids :=
                  filter (\<lambda>k. map_of ns' k \<noteq> None) (tn_children_ids n)\<rparr>)) ns',
           skipped))"

text \<open>A round without usage of its own inherits the active usage of its nearest ancestor that has one.\<close>

definition inherited_usage :: "tree_node list \<Rightarrow> (string \<times> pyval) list option" where
  "inherited_usage ancestors =
     map_option tn_active_context_usage (find (\<lambda>n. usage_total (tn_active_context_usage n) 0 \<noteq> 0) (rev ancestors))"

fun inherit_all :: "string list \<Rightarrow> node_dict \<Rightarrow> node_dict result option" where
  "inherit_all [] ns = Some (Inr ns)"
| "inherit_all (i # is) ns =
     (case map_of ns i of
        None \<Rightarrow> inherit_all is ns
      | Some n \<Rightarrow>
          if usage_total (tn_turn_usage n) 0 \<noteq> 0 \<or> usage_total (tn_branch_usage n) 0 = 0 then inherit_all is ns
          else (case chain_up ns (Some i) [] of
                  None \<Rightarrow> None
                | Some (Inl e) \<Rightarrow> Some (Inl e)
                | Some (Inr chain) \<Rightarrow>
                    (case inherited_usage (butlast chain) of
                       None \<Rightarrow> inherit_all is ns
                     | Some u \<Rightarrow> inherit_all is (dict_set i (n\<lparr>tn_active_context_usage := u\<rparr>) ns))))"

record tree_data =
  td_metadata :: "(string \<times> pyval) list"
  td_nodes :: "tree_node list"
  td_root_node_id :: "string option"
  td_current_node_id :: "string option"

definition newer_version :: "pyval \<Rightarrow> bool" where
  "newer_version v = (case v of PInt n \<Rightarrow> SCHEMA_VERSION < n | _ \<Rightarrow> False)"

definition conversation_from_dict :: "tree_data \<Rightarrow> conversation result option" where
  "conversation_from_dict d =
     (case dget (td_metadata d) ''id'' of
        PStr cid \<Rightarrow>
          if cid = [] \<or> newer_version (dget (td_metadata d) ''schema_version'') then Some (Inl CorruptConversationError)
          else
            let ns0 = fold (\<lambda>n ns. if tn_id n = [] then ns else dict_set (tn_id n) (ensure_node_usage n) ns) (td_nodes d) [];
                root = or_empty (td_root_node_id d) in
            if \<not> truthy_opt (td_root_node_id d) \<or> map_of ns0 root = None then Some (Inl CorruptConversationError)
            else
              (case prune_dangling root ns0 of
                 (ns1, skipped) \<Rightarrow>
                   (case inherit_all (map fst ns1) ns1 of
                      None \<Rightarrow> None
                    | Some (Inl e) \<Rightarrow> Some (Inl e)
                    | Some (Inr ns) \<Rightarrow>
                        let current = td_current_node_id d in
                        Some (Inr \<lparr>cn_metadata = td_metadata d, cn_nodes = ns, cn_root_node_id = Some root,
                          cn_current_node_id =
                            (if \<not> truthy_opt current \<or> map_of ns (or_empty current) = None
                                \<or> or_empty current \<in> set skipped
                             then Some root else current),
                          cn_current_provider = None, cn_current_model = None\<rparr>)))
      | _ \<Rightarrow> Some (Inl CorruptConversationError))"

end
