(* ===== verification/ChatPersist.thy ===== *)
theory ChatPersist
  imports ToolFormat Conversation
begin

text \<open>
  The operations of \<open>ChatRepository\<close> that store a conversation: the branch from the root to a
  node, the user's turn, and the assistant's turn with its rounds, tool calls and tool results.
  They are sequences of the transactions of \<open>ChatRepo\<close>; an exception ends the sequence and keeps
  what was stored before it.  Walking up the tree may not return, so \<open>ensure_branch\<close> is an option.
\<close>

definition then_op :: "'a result \<times> db \<Rightarrow> ('a \<Rightarrow> db \<Rightarrow> 'b result \<times> db) \<Rightarrow> 'b result \<times> db" where
  "then_op m f = (case m of (Inl e, d) \<Rightarrow> (Inl e, d) | (Inr x, d) \<Rightarrow> f x d)"

lemma then_op_simps [simp]:
  "then_op (Inl e, d) f = (Inl e, d)"
  "then_op (Inr x, d) f = f x d"
  by (simp_all add: then_op_def)

text \<open>Metadata entries that are strings, booleans or absent.\<close>

definition as_opt :: "pyval \<Rightarrow> string option" where
  "as_opt v = (case v of PStr s \<Rightarrow> Some s | _ \<Rightarrow> None)"

definition as_flag :: "pyval \<Rightarrow> bool option" where
  "as_flag v = (case v of PBool b \<Rightarrow> Some b | _ \<Rightarrow> None)"

definition or_str :: "string option \<Rightarrow> string option \<Rightarrow> string option" where
  "or_str x y = (if truthy_opt x then x else y)"

section \<open>The branch\<close>

definition settings_of :: "(string \<times> pyval) list \<Rightarrow> string option \<Rightarrow> string option \<Rightarrow> conversation_settings" where
  "settings_of md provider model =
     \<lparr>cs_provider_id = or_str provider (as_opt (dget md ''provider_id'')),
      cs_model_id = or_str model (as_opt (dget md ''model_id'')),
      cs_workspace = (case dget md ''workspace'' of PDict w \<Rightarrow> PDict w | _ \<Rightarrow> PNone),
      cs_reasoning_effort = as_opt (dget md ''reasoning_effort''),
      cs_thinking_enabled = as_flag (dget md ''thinking_enabled''),
      cs_multi_agent_mode = as_opt (dget md ''multi_agent_mode'')\<rparr>"

fun index_of :: "'a \<Rightarrow> 'a list \<Rightarrow> nat option" where
  "index_of x [] = None"
| "index_of x (y # ys) = (if y = x then Some 0 else map_option Suc (index_of x ys))"

text \<open>The place of a node among the children of its parent, or 0.\<close>

definition child_order_of :: "node_dict \<Rightarrow> tree_node \<Rightarrow> int" where
  "child_order_of ns n =
     (case real_parent (tn_parent_id n) of
        None \<Rightarrow> 0
      | Some p \<Rightarrow>
          if p = [] then 0
          else (case map_of ns p of
                  None \<Rightarrow> 0
                | Some m \<Rightarrow> (case index_of (tn_id n) (tn_children_ids m) of None \<Rightarrow> 0 | Some k \<Rightarrow> int k)))"

definition branch_fields :: "tree_node \<Rightarrow> string option \<Rightarrow> string option \<Rightarrow> node_fields" where
  "branch_fields n provider model =
     \<lparr>nf_status = None, nf_model_id = or_str (tn_model_id n) model, nf_provider_id = provider,
      nf_tool_permission_mode = tn_tool_permission_mode n,
      nf_task_context_mode = Some (if tn_task_context_mode n = [] then ''attached'' else tn_task_context_mode n),
      nf_turn_usage = PDict (tn_turn_usage n),
      nf_branch_usage = PDict (if tn_branch_usage n = [] then tn_branch_usage_info n else tn_branch_usage n),
      nf_active_context_usage = PDict (tn_active_context_usage n)\<rparr>"

fun ensure_chain ::
  "int \<Rightarrow> string \<Rightarrow> node_dict \<Rightarrow> string option \<Rightarrow> string option \<Rightarrow> string option \<Rightarrow> tree_node list \<Rightarrow> db \<Rightarrow>
   unit result \<times> db" where
  "ensure_chain now c ns provider model focus [] d = (Inr (), d)"
| "ensure_chain now c ns provider model focus (n # chain) d =
     then_op
       (repo_ensure_node now c (tn_id n) (real_parent (tn_parent_id n)) (child_order_of ns n)
          (Some (tn_id n) = focus) (branch_fields n provider model) d)
       (\<lambda>_. ensure_chain now c ns provider model focus chain)"

definition metadata_id :: "(string \<times> pyval) list \<Rightarrow> string" where
  "metadata_id md = py_str (dget md ''id'')"

definition ensure_branch ::
  "int \<Rightarrow> conversation \<Rightarrow> string \<Rightarrow> string option \<Rightarrow> string option \<Rightarrow> string option \<Rightarrow> db \<Rightarrow>
   (unit result \<times> db) option" where
  "ensure_branch now cn nid provider model focus d =
     (let md = cn_metadata cn; c = metadata_id md;
          d1 = snd (repo_ensure_conversation now c (str_or (dget md ''title'') []) (settings_of md provider model) d) in
      case get_node_chain cn (Some nid) of
        None \<Rightarrow> None
      | Some (Inl e) \<Rightarrow> Some (Inl e, d1)
      | Some (Inr chain) \<Rightarrow> Some (ensure_chain now c (cn_nodes cn) provider model focus chain d1))"

definition repo_save :: "int \<Rightarrow> conversation \<Rightarrow> db \<Rightarrow> (unit result \<times> db) option" where
  "repo_save now cn d =
     (let md = cn_metadata cn in
      if truthy_opt (cn_current_node_id cn)
      then ensure_branch now cn (or_empty (cn_current_node_id cn)) (as_opt (dget md ''provider_id''))
             (as_opt (dget md ''model_id'')) (cn_current_node_id cn) d
      else Some (Inr (), snd (repo_ensure_conversation now (metadata_id md) (str_or (dget md ''title'') [])
             (settings_of md None None) d)))"

section \<open>The user's turn\<close>

definition without_keys :: "string list \<Rightarrow> (string \<times> pyval) list \<Rightarrow> (string \<times> pyval) list" where
  "without_keys ks d = filter (\<lambda>p. fst p \<notin> set ks) d"

definition persist_user_turn ::
  "codec \<Rightarrow> string \<Rightarrow> int \<Rightarrow> conversation \<Rightarrow> tree_node \<Rightarrow> (string \<times> pyval) list \<Rightarrow> string option \<Rightarrow>
   string option \<Rightarrow> db \<Rightarrow> (unit result \<times> db) option" where
  "persist_user_turn E uuid now cn n msg provider model d =
     map_option
       (\<lambda>r. then_op r (\<lambda>_ d1. then_op
          (add_message E uuid now (metadata_id (cn_metadata cn)) (Some (tn_id n)) (str_or (dget msg ''role'') ''user'')
             (str_or (dget msg ''content'') [])
             \<lparr>mf_subtype = as_opt (dget msg ''subtype''),
              mf_hidden = py_true (dget msg ''is_hidden_from_transcript''), mf_transcript_only = False,
              mf_model_route_id = None, mf_model_round_index = None,
              mf_metadata = PDict (without_keys [''id'', ''role'', ''content'', ''subtype''] msg)\<rparr>
             (as_opt (dget msg ''id'')) d1)
          (\<lambda>_ d2. (Inr (), d2))))
       (ensure_branch now cn (tn_id n) provider model (cn_current_node_id cn) d)"

section \<open>Tool calls and results of a turn\<close>

text \<open>The status that the approval events give to a call; the last event decides.\<close>

definition approval_status_step ::
  "(string \<times> pyval) list \<Rightarrow> (string \<times> string) list \<Rightarrow> (string \<times> string) list" where
  "approval_status_step event st =
     (case dget event ''approval'' of
        PDict approval \<Rightarrow>
          let call = str_or (dget approval ''tool_call_id'') []; status = str_or (dget approval ''status'') [] in
          if call = [] then st
          else if dget event ''event_type'' = PStr ''tool_approval_request'' then dict_set call ''waiting_approval'' st
          else if status = ''approved'' then dict_set call ''approved'' st
          else if status \<in> {''denied'', ''expired'', ''cancelled'', ''rejected''} then dict_set call ''rejected'' st
          else st
      | _ \<Rightarrow> st)"

definition approval_statuses :: "(string \<times> pyval) list list \<Rightarrow> (string \<times> string) list" where
  "approval_statuses events = fold approval_status_step events []"

definition function_of :: "(string \<times> pyval) list \<Rightarrow> (string \<times> pyval) list" where
  "function_of call = (case dget call ''function'' of PDict f \<Rightarrow> f | _ \<Rightarrow> [])"

definition call_id_of :: "(string \<times> pyval) list \<Rightarrow> string" where
  "call_id_of m = str_or (dget m ''tool_call_id'') []"

fun persist_calls ::
  "codec \<Rightarrow> (nat \<Rightarrow> string) \<Rightarrow> int \<Rightarrow> string \<Rightarrow> string \<Rightarrow> string option \<Rightarrow> string option \<Rightarrow> (string \<times> string) list \<Rightarrow>
   string list \<Rightarrow> string \<Rightarrow> nat \<Rightarrow> (string \<times> pyval) list list \<Rightarrow> db \<Rightarrow> unit result \<times> db" where
  "persist_calls E fresh now c nd run msg statuses answered unresolved n [] d = (Inr (), d)"
| "persist_calls E fresh now c nd run msg statuses answered unresolved n (call # calls) d =
     (let f = function_of call; i = str_or (dget call ''id'') [];
          index = (if dget call ''call_index'' = PNone then int n
                   else (case py_int (dget call ''call_index'') of Inr k \<Rightarrow> k | Inl _ \<Rightarrow> int n));
          status = (case map_of statuses i of
                      Some s \<Rightarrow> s
                    | None \<Rightarrow> if i \<in> set answered then ''complete'' else unresolved) in
      then_op (add_tool_call E (fresh n) now c (Some nd) (Some i) (str_or (dget f ''name'') []) (dget f ''arguments'')
                 index status run msg d)
        (\<lambda>_. persist_calls E fresh now c nd run msg statuses answered unresolved (Suc n) calls))"

text \<open>A result whose call is not stored gets one first; the snapshot of an earlier result is kept.\<close>

definition result_metadata :: "db \<Rightarrow> string \<Rightarrow> (string \<times> pyval) list \<Rightarrow> (string \<times> pyval) list" where
  "result_metadata d c message =
     (let md = [(''tool_name'', dget message ''name''), (''tool_result_id'', dget message ''tool_result_id'')] in
      if \<not> py_true (dget message ''tool_call_id'') then md
      else (case result_of_call d c (call_id_of message) of
              None \<Rightarrow> md
            | Some r \<Rightarrow>
                let before = dget (json_object (tz_metadata_json r)) ''diff_before''
                in if py_true before then md @ [(''diff_before'', before)] else md))"

fun persist_results ::
  "codec \<Rightarrow> (string \<Rightarrow> string) \<Rightarrow> (nat \<Rightarrow> string) \<Rightarrow> int \<Rightarrow> string \<Rightarrow> string \<Rightarrow> string option \<Rightarrow> string option \<Rightarrow>
   (string \<times> string) list \<Rightarrow> nat \<Rightarrow> (string \<times> pyval) list list \<Rightarrow> db \<Rightarrow> unit result \<times> db" where
  "persist_results E preview fresh now c nd run msg statuses n [] d = (Inr (), d)"
| "persist_results E preview fresh now c nd run msg statuses n (m # ms) d =
     (let raw = (if py_true (dget m ''raw_content'') then py_str (dget m ''raw_content'')
                 else str_or (dget m ''content'') []);
          call = (if py_true (dget m ''tool_call_id'') then Some (call_id_of m) else as_opt (dget m ''tool_call_id'')) in
      then_op
        (if truthy_opt call \<and> \<not> tool_call_exists d c call
         then add_tool_call E (fresh n) now c (Some nd) call (str_or (dget m ''name'') []) PNone 0
                (case map_of statuses (call_id_of m) of Some s \<Rightarrow> s | None \<Rightarrow> ''complete'') run msg d
         else (Inr [], d))
        (\<lambda>_ d1. then_op
          (add_tool_result E preview (fresh (Suc n)) now c (Some nd) (as_opt (dget m ''tool_result_id'')) call
             (strip_diff_snapshot raw) ''complete'' run (PDict (result_metadata d1 c m)) d1)
          (\<lambda>_. persist_results E preview fresh now c nd run msg statuses (Suc (Suc n)) ms)))"

definition persist_tool_metadata ::
  "codec \<Rightarrow> (string \<Rightarrow> string) \<Rightarrow> (nat \<Rightarrow> string) \<Rightarrow> int \<Rightarrow> string \<Rightarrow> string \<Rightarrow> string option \<Rightarrow> string option \<Rightarrow>
   (string \<times> pyval) list list \<Rightarrow> (string \<times> pyval) list list \<Rightarrow> (string \<times> pyval) list list \<Rightarrow> string \<Rightarrow> db \<Rightarrow>
   unit result \<times> db" where
  "persist_tool_metadata E preview fresh now c nd run msg calls messages events generation_status d =
     (let statuses = approval_statuses events;
          answered = map call_id_of (filter (\<lambda>m. py_true (dget m ''tool_call_id'')) messages);
          unresolved = (if generation_status = ''stopped'' then ''stopped'' else ''error'') in
      then_op (persist_calls E fresh now c nd run msg statuses answered unresolved 0 calls d)
        (\<lambda>_. persist_results E preview fresh now c nd run msg statuses (length calls) messages))"

section \<open>The assistant's turn\<close>

text \<open>\<open>list(x or [])\<close> for a list of dictionaries.\<close>

definition dict_list :: "pyval \<Rightarrow> (string \<times> pyval) list list" where
  "dict_list v =
     (case v of PList xs \<Rightarrow> concat (map (\<lambda>x. case x of PDict d \<Rightarrow> [d] | _ \<Rightarrow> []) xs) | _ \<Rightarrow> [])"

definition turn_keys :: "string list" where
  "turn_keys =
     [''id'', ''role'', ''content'', ''tool_calls'', ''tool_results'', ''approval_events'', ''reasoning'']"

definition run_entry :: "string option \<Rightarrow> (string \<times> pyval) list" where
  "run_entry run = (if truthy_opt run then [(''run_id'', of_opt run)] else [])"

definition round_metadata ::
  "(string \<times> pyval) list \<Rightarrow> string option \<Rightarrow> bool \<Rightarrow> (string \<times> pyval) list \<Rightarrow> (string \<times> pyval) list result" where
  "round_metadata msg run is_final rnd =
     (let base = dict_update (if is_final then without_keys turn_keys msg else []) (run_entry run) in
      if \<not> is_final \<and> dget rnd ''content_order'' \<noteq> PNone
      then map_result (\<lambda>k. dict_set ''order'' (PInt k) base) (py_int (dget rnd ''content_order''))
      else Inr base)"

text \<open>What stays the same over the rounds of a turn.\<close>

record turn_context =
  tc_conversation :: string
  tc_node :: string
  tc_message :: "(string \<times> pyval) list"
  tc_run :: "string option"
  tc_route :: string
  tc_events :: "(string \<times> pyval) list list"
  tc_generation_status :: string

definition generation_status_of :: "(string \<times> pyval) list \<Rightarrow> string" where
  "generation_status_of msg =
     (case dget msg ''generation_info'' of PDict g \<Rightarrow> str_or (dget g ''status'') ''completed'' | _ \<Rightarrow> ''completed'')"

definition round_message_fields :: "turn_context \<Rightarrow> bool \<Rightarrow> int \<Rightarrow> (string \<times> pyval) list \<Rightarrow> message_fields" where
  "round_message_fields t is_final k md =
     \<lparr>mf_subtype = Some (if is_final then ''assistant_answer'' else ''assistant_round''),
      mf_hidden = \<not> is_final, mf_transcript_only = \<not> is_final, mf_model_route_id = Some (tc_route t),
      mf_model_round_index = Some k, mf_metadata = PDict md\<rparr>"

definition reasoning_fields :: "turn_context \<Rightarrow> int \<Rightarrow> int \<Rightarrow> message_fields" where
  "reasoning_fields t k order =
     \<lparr>mf_subtype = Some ''assistant_process_reasoning'', mf_hidden = True, mf_transcript_only = True,
      mf_model_route_id = Some (tc_route t), mf_model_round_index = Some k,
      mf_metadata = PDict (run_entry (tc_run t) @ [(''order'', PInt order)])\<rparr>"

definition assistant_role :: "turn_context \<Rightarrow> string" where
  "assistant_role t = str_or (dget (tc_message t) ''role'') ''assistant''"

text \<open>The message of a round, then its reasoning where there is one.\<close>

definition persist_round_messages ::
  "codec \<Rightarrow> int \<Rightarrow> turn_context \<Rightarrow> bool \<Rightarrow> string \<Rightarrow> int \<Rightarrow> string \<Rightarrow> (string \<times> pyval) list \<Rightarrow> db \<Rightarrow>
   unit result \<times> db" where
  "persist_round_messages E now t is_final mid k content rnd d =
     (case round_metadata (tc_message t) (tc_run t) is_final rnd of
        Inl e \<Rightarrow> (Inl e, d)
      | Inr md \<Rightarrow>
          then_op (add_message E [] now (tc_conversation t) (Some (tc_node t)) (assistant_role t) content
                     (round_message_fields t is_final k md) (Some mid) d)
            (\<lambda>_ d1.
              let reasoning = str_or (dget rnd ''reasoning'') [];
                  order = (if dget rnd ''reasoning_order'' \<noteq> PNone then py_int (dget rnd ''reasoning_order'')
                           else Inr (k * 100)) in
              if reasoning = [] then (Inr (), d1)
              else (case order of
                      Inl e \<Rightarrow> (Inl e, d1)
                    | Inr p \<Rightarrow>
                        then_op (add_message E [] now (tc_conversation t) (Some (tc_node t)) ''assistant'' reasoning
                                   (reasoning_fields t k p) (Some (mid @ '':reasoning'')) d1)
                          (\<lambda>_ d2. (Inr (), d2)))))"

text \<open>
  One round: messages, its tool calls with the results that answer them, and the states of the
  model.  The results that no call of the round asked for stay for later rounds.
\<close>

definition persist_round ::
  "codec \<Rightarrow> (string \<Rightarrow> string) \<Rightarrow> (nat \<Rightarrow> string) \<Rightarrow> int \<Rightarrow> turn_context \<Rightarrow> string \<Rightarrow> string \<Rightarrow> bool \<Rightarrow> nat \<Rightarrow>
   (string \<times> pyval) list \<Rightarrow> (string \<times> pyval) list list \<Rightarrow> db \<Rightarrow> (string \<times> pyval) list list result \<times> db" where
  "persist_round E preview fresh now t base content is_final n rnd remaining d =
     (case py_int (dget_or rnd ''round_index'' (PInt (int n))) of
        Inl e \<Rightarrow> (Inl e, d)
      | Inr k \<Rightarrow>
          let mid = (if is_final then base else base @ '':round:'' @ int_str k);
              text' = (if is_final then content else str_or (dget rnd ''content'') []);
              calls = dict_list (dget rnd ''tool_calls'');
              ids = map (\<lambda>c. py_str (dget c ''id'')) (filter (\<lambda>c. py_true (dget c ''id'')) calls);
              mine = filter (\<lambda>m. call_id_of m \<in> set ids) remaining;
              rest = filter (\<lambda>m. call_id_of m \<notin> set ids) remaining in
          then_op (persist_round_messages E now t is_final mid k text' rnd d)
            (\<lambda>_ d1. then_op
              (if calls = [] \<and> mine = [] then (Inr (), d1)
               else persist_tool_metadata E preview fresh now (tc_conversation t) (tc_node t) (tc_run t) (Some mid)
                      calls mine (tc_events t) (tc_generation_status t) d1)
              (\<lambda>_ d2. then_op (persist_model_state_items E (tc_conversation t) mid (dict_list (dget rnd ''output_items'')) d2)
                (\<lambda>_ d3. (Inr rest, d3)))))"

fun persist_rounds ::
  "codec \<Rightarrow> (string \<Rightarrow> string) \<Rightarrow> (nat \<Rightarrow> nat \<Rightarrow> string) \<Rightarrow> int \<Rightarrow> turn_context \<Rightarrow> string \<Rightarrow> string \<Rightarrow> bool \<Rightarrow> nat \<Rightarrow>
   (string \<times> pyval) list list \<Rightarrow> (string \<times> pyval) list list \<Rightarrow> db \<Rightarrow> (string \<times> pyval) list list result \<times> db" where
  "persist_rounds E preview fresh now t base content has_final n [] remaining d = (Inr remaining, d)"
| "persist_rounds E preview fresh now t base content has_final n (rnd # rnds) remaining d =
     then_op (persist_round E preview (fresh n) now t base content (has_final \<and> rnds = []) n rnd remaining d)
       (\<lambda>rest. persist_rounds E preview fresh now t base content has_final (Suc n) rnds rest)"

text \<open>
  The answer is the last round when the turn has rounds, and a message of its own otherwise.
\<close>

definition persist_turn_body ::
  "codec \<Rightarrow> (string \<Rightarrow> string) \<Rightarrow> (nat \<Rightarrow> nat \<Rightarrow> string) \<Rightarrow> int \<Rightarrow> turn_context \<Rightarrow> string \<Rightarrow> bool \<Rightarrow>
   (string \<times> pyval) list list \<Rightarrow> (string \<times> pyval) list list \<Rightarrow> db \<Rightarrow> unit result \<times> db" where
  "persist_turn_body E preview fresh now t base plan_only rounds tool_messages d =
     (let content = str_or (dget (tc_message t) ''content'') [];
          answers = (content \<noteq> [] \<and> \<not> plan_only) in
      then_op (persist_rounds E preview fresh now t base content answers 0 rounds tool_messages d)
        (\<lambda>rest d1. then_op
          (if rest = [] then (Inr (), d1)
           else persist_tool_metadata E preview (fresh (length rounds)) now (tc_conversation t) (tc_node t) (tc_run t)
                  None [] rest (tc_events t) (tc_generation_status t) d1)
          (\<lambda>_ d2.
            if rounds = [] \<and> answers
            then then_op (add_message E [] now (tc_conversation t) (Some (tc_node t)) (assistant_role t) content
                   \<lparr>mf_subtype = Some ''assistant_answer'', mf_hidden = False, mf_transcript_only = False,
                    mf_model_route_id = Some (tc_route t), mf_model_round_index = Some 0,
                    mf_metadata = PDict (dict_update (without_keys turn_keys (tc_message t)) (run_entry (tc_run t)))\<rparr>
                   (Some base) d2)
                   (\<lambda>_ d3. (Inr (), d3))
            else (Inr (), d2))))"

definition persist_assistant_turn ::
  "codec \<Rightarrow> (string \<Rightarrow> string) \<Rightarrow> string \<Rightarrow> (nat \<Rightarrow> nat \<Rightarrow> string) \<Rightarrow> int \<Rightarrow> conversation \<Rightarrow> tree_node \<Rightarrow>
   (string \<times> pyval) list \<Rightarrow> string option \<Rightarrow> string option \<Rightarrow> string option \<Rightarrow> (string \<times> pyval) list list \<Rightarrow>
   (string \<times> pyval) list list \<Rightarrow> string \<Rightarrow> (string \<times> pyval) list list \<Rightarrow> bool \<Rightarrow> db \<Rightarrow>
   (unit result \<times> db) option" where
  "persist_assistant_turn E preview uuid fresh now cn n msg provider model run tool_messages rounds route events plan_only d =
     (let base = (if py_true (dget msg ''id'') then py_str (dget msg ''id'')
                  else if truthy_opt run then or_empty run else uuid);
          t = \<lparr>tc_conversation = metadata_id (cn_metadata cn), tc_node = tn_id n, tc_message = msg, tc_run = run,
               tc_route = route, tc_events = events, tc_generation_status = generation_status_of msg\<rparr> in
      map_option
        (\<lambda>r. then_op r (\<lambda>_. persist_turn_body E preview fresh now t base plan_only rounds tool_messages))
        (ensure_branch now cn (tn_id n) provider model (cn_current_node_id cn) d))"

end
