(* ===== verification/ChatManager.thy ===== *)
theory ChatManager
  imports CanonicalReader ChatPersist Permissions TaskTypes
begin

text \<open>
  \<open>ChatManager\<close> (\<open>chat/chat_manager.py\<close>), the part that keeps conversations: loading, creating,
  deleting and switching, the nodes of a turn, and the choice of model and mode.  Its state is
  the database and the conversation that was opened last.  A section under the lock of a
  conversation is one function.  Configuration values and fresh identifiers are arguments.
\<close>

record chat_state =
  cm_db :: db
  cm_current :: "conversation option"

section \<open>Loading\<close>

text \<open>\<open>_conversation_from_repository\<close>.\<close>

definition row_metadata :: "conversation_row \<Rightarrow> (string \<times> pyval) list" where
  "row_metadata r =
     [(''id'', PStr (cv_id r)), (''title'', PStr (cv_title r)), (''created_at'', PInt (cv_created_at r)),
      (''updated_at'', PInt (cv_updated_at r)), (''total_tokens'', PDict []),
      (''schema_version'', PInt SCHEMA_VERSION), (''provider_id'', of_opt (cv_provider_id r)),
      (''model_id'', of_opt (cv_model_id r)), (''reasoning_effort'', of_opt (cv_reasoning_effort r)),
      (''thinking_enabled'', case cv_thinking_enabled r of None \<Rightarrow> PNone | Some b \<Rightarrow> PBool b),
      (''multi_agent_mode'',
       PStr (if cv_multi_agent_mode r = [] then ''explicit_request_only'' else cv_multi_agent_mode r))]
     @ (if truthy_opt (cv_workspace_json r) then [(''workspace'', PDict (json_object (cv_workspace_json r)))] else [])"

definition conversation_from_repository :: "db \<Rightarrow> conversation_row \<Rightarrow> conversation result option" where
  "conversation_from_repository d r =
     (case repo_list_nodes d (cv_id r) of
        Inl e \<Rightarrow> Some (Inl e)
      | Inr ns \<Rightarrow>
          conversation_from_dict
            \<lparr>td_metadata = row_metadata r, td_nodes = ns, td_root_node_id = cv_root_node_id r,
             td_current_node_id = cv_current_node_id r\<rparr>)"

definition get_conversation :: "db \<Rightarrow> string \<Rightarrow> conversation option result option" where
  "get_conversation d c =
     (case repo_get_conversation d c of
        Inl _ \<Rightarrow> Some (Inr None)
      | Inr r \<Rightarrow> map_option (map_result Some) (conversation_from_repository d r))"

text \<open>
  \<open>then_get\<close> loads a conversation in an operation: not returning and exceptions are passed on.
\<close>

definition then_get ::
  "db \<Rightarrow> string \<Rightarrow> 'a \<Rightarrow> (conversation \<Rightarrow> ('a result \<times> db) option) \<Rightarrow> ('a result \<times> db) option" where
  "then_get d c absent f =
     (case get_conversation d c of
        None \<Rightarrow> None
      | Some (Inl e) \<Rightarrow> Some (Inl e, d)
      | Some (Inr None) \<Rightarrow> Some (Inr absent, d)
      | Some (Inr (Some cn)) \<Rightarrow> f cn)"

definition load_conversation :: "string \<Rightarrow> chat_state \<Rightarrow> (bool result \<times> chat_state) option" where
  "load_conversation c s =
     (case get_conversation (cm_db s) c of
        None \<Rightarrow> None
      | Some (Inl e) \<Rightarrow> Some (Inl e, s)
      | Some (Inr None) \<Rightarrow> Some (Inr False, s)
      | Some (Inr (Some cn)) \<Rightarrow> Some (Inr True, s\<lparr>cm_current := Some cn\<rparr>))"

definition save_conversation :: "int \<Rightarrow> chat_state \<Rightarrow> (unit result \<times> chat_state) option" where
  "save_conversation now s =
     (case cm_current s of
        None \<Rightarrow> Some (Inr (), s)
      | Some cn \<Rightarrow> map_option (\<lambda>(r, d). (r, s\<lparr>cm_db := d\<rparr>)) (repo_save now cn (cm_db s)))"

section \<open>Creating\<close>

definition multi_agent_modes :: "string list" where
  "multi_agent_modes = [''none'', ''explicit_request_only'', ''proactive'']"

definition normalize_multi_agent_mode :: "pyval \<Rightarrow> string" where
  "normalize_multi_agent_mode mode =
     (let value = str_or mode ''explicit_request_only''
      in if value \<in> set multi_agent_modes then value else ''explicit_request_only'')"

definition normalize_selected_system_prompt_mode :: "string \<Rightarrow> string" where
  "normalize_selected_system_prompt_mode mode =
     (if mode \<in> {''override'', ''append''} then mode else ''override'')"

text \<open>
  The system prompt is the text \<open>prompts.load\<close> finds; the workspace is normalised before.
\<close>

definition selected_prompt :: "string option \<Rightarrow> string \<Rightarrow> string option \<Rightarrow> (string \<times> pyval) list" where
  "selected_prompt prompt_id mode found =
     (if truthy_opt prompt_id \<and> truthy_opt found
      then [(''selected_system_prompt'',
             PDict [(''id'', of_opt prompt_id), (''mode'', PStr (normalize_selected_system_prompt_mode mode)),
                    (''content'', of_opt found)])]
      else [])"

definition new_conversation ::
  "string \<Rightarrow> string \<Rightarrow> int \<Rightarrow> string \<Rightarrow> (string \<times> pyval) list \<Rightarrow> string option \<Rightarrow> pyval \<Rightarrow> conversation" where
  "new_conversation uuid root_uuid now t workspace mode configured =
     (let cn = conversation_init uuid now [] t (Some workspace);
          m = normalize_multi_agent_mode
                (if truthy_opt mode then of_opt mode else PStr (normalize_multi_agent_mode configured))
      in initialize_with_system_message root_uuid now False
           (cn\<lparr>cn_metadata := dict_set ''multi_agent_mode'' (PStr m) (cn_metadata cn)\<rparr>))"

definition create_conversation ::
  "string \<Rightarrow> string \<Rightarrow> int \<Rightarrow> string \<Rightarrow> string option \<Rightarrow> string \<Rightarrow> string option \<Rightarrow> (string \<times> pyval) list \<Rightarrow>
   string option \<Rightarrow> pyval \<Rightarrow> chat_state \<Rightarrow> (conversation result \<times> chat_state) option" where
  "create_conversation uuid root_uuid now t prompt_id prompt_mode found workspace mode configured s =
     (let cn0 = new_conversation uuid root_uuid now t workspace mode configured;
          cn = cn0\<lparr>cn_metadata := cn_metadata cn0 @ selected_prompt prompt_id prompt_mode found\<rparr> in
      map_option
        (\<lambda>(r, d). (case r of
                     Inl e \<Rightarrow> (Inl e, s\<lparr>cm_db := d\<rparr>)
                   | Inr _ \<Rightarrow> (Inr cn, s\<lparr>cm_db := d, cm_current := Some cn\<rparr>)))
        (repo_save now cn (cm_db s)))"

section \<open>Deleting and updating\<close>

definition is_current_conversation :: "string \<Rightarrow> conversation \<Rightarrow> bool" where
  "is_current_conversation c cn = (dget (cn_metadata cn) ''id'' = PStr c)"

definition delete_conversation :: "string \<Rightarrow> chat_state \<Rightarrow> chat_state" where
  "delete_conversation c s =
     \<lparr>cm_db = snd (repo_delete_conversation c (cm_db s)),
      cm_current = (case cm_current s of
                      None \<Rightarrow> None
                    | Some cn \<Rightarrow> if is_current_conversation c cn then None else Some cn)\<rparr>"

text \<open>An update of the stored row, then of the open conversation where it is the same.\<close>

definition update_both ::
  "int \<Rightarrow> string \<Rightarrow> conversation_update \<Rightarrow> (string \<times> pyval) list \<Rightarrow> chat_state \<Rightarrow> bool \<times> chat_state" where
  "update_both now c u entries s =
     (case repo_update_conversation now c u (cm_db s) of
        (ok, d) \<Rightarrow>
          (ok, \<lparr>cm_db = d,
                cm_current = map_option
                  (\<lambda>cn. if ok \<and> is_current_conversation c cn
                        then cn\<lparr>cn_metadata := dict_update (cn_metadata cn) entries\<rparr> else cn) (cm_current s)\<rparr>))"

definition update_conversation_title :: "int \<Rightarrow> string \<Rightarrow> string \<Rightarrow> chat_state \<Rightarrow> bool \<times> chat_state" where
  "update_conversation_title now c t s =
     update_both now c (no_update\<lparr>cu_title := Some t\<rparr>) [(''title'', PStr t)] s"

definition update_conversation_model ::
  "int \<Rightarrow> string \<Rightarrow> string \<Rightarrow> string \<Rightarrow> string option \<Rightarrow> bool option \<Rightarrow> chat_state \<Rightarrow> bool \<times> chat_state" where
  "update_conversation_model now c model provider effort thinking s =
     update_both now c
       (no_update\<lparr>cu_model_id := Some (Some model), cu_provider_id := Some (Some provider),
                  cu_reasoning_effort := Some effort, cu_thinking_enabled := Some thinking\<rparr>)
       [(''model_id'', PStr model), (''provider_id'', PStr provider), (''reasoning_effort'', of_opt effort),
        (''thinking_enabled'', case thinking of None \<Rightarrow> PNone | Some b \<Rightarrow> PBool b)] s"

definition update_conversation_multi_agent_mode :: "int \<Rightarrow> string \<Rightarrow> pyval \<Rightarrow> chat_state \<Rightarrow> bool \<times> chat_state" where
  "update_conversation_multi_agent_mode now c mode s =
     (let m = normalize_multi_agent_mode mode in
      update_both now c (no_update\<lparr>cu_multi_agent_mode := Some m\<rparr>) [(''multi_agent_mode'', PStr m)] s)"

definition switch_node :: "int \<Rightarrow> string \<Rightarrow> string \<Rightarrow> db \<Rightarrow> (string option result \<times> db) option" where
  "switch_node now c i d =
     then_get d c None (\<lambda>cn.
       case switch_to_node i cn of
         (False, _) \<Rightarrow> Some (Inr None, d)
       | (True, cn') \<Rightarrow>
           Some (Inr (cn_current_node_id cn'),
                 snd (repo_update_conversation now c (no_update\<lparr>cu_current_node_id := Some (Some i)\<rparr>) d)))"

record deleted_node =
  dn_deleted_node_id :: string
  dn_new_current_node_id :: "string option"
  dn_parent_node_id :: "string option"

definition delete_node :: "nat \<Rightarrow> int \<Rightarrow> string \<Rightarrow> string \<Rightarrow> db \<Rightarrow> (deleted_node option result \<times> db) option" where
  "delete_node limit now c i d =
     then_get d c None (\<lambda>cn.
       case del_node limit now i cn of
         Inl e \<Rightarrow> Some (Inl e, d)
       | Inr cn' \<Rightarrow>
           Some (Inr (Some \<lparr>dn_deleted_node_id = i, dn_new_current_node_id = cn_current_node_id cn',
                            dn_parent_node_id =
                              (case map_of (cn_nodes cn) i of None \<Rightarrow> None | Some n \<Rightarrow> tn_parent_id n)\<rparr>),
                 snd (repo_delete_node now c i (cn_current_node_id cn') d)))"

section \<open>Models and modes\<close>

text \<open>The models of each provider are an argument, in the order of the dictionary.\<close>

type_synonym model_list = "(string \<times> string list) list"

definition provider_for_model :: "model_list \<Rightarrow> string option \<Rightarrow> string option" where
  "provider_for_model models m =
     (if \<not> truthy_opt m then None
      else (case filter (\<lambda>(p, ms). or_empty m \<in> set ms) models of [(p, _)] \<Rightarrow> Some p | _ \<Rightarrow> None))"

definition current_node :: "conversation \<Rightarrow> tree_node option" where
  "current_node cn = map_of (cn_nodes cn) (or_empty (cn_current_node_id cn))"

definition current_branch_model :: "conversation \<Rightarrow> string option result option" where
  "current_branch_model cn =
     (case current_node cn of
        Some n \<Rightarrow>
          if truthy_opt (tn_model_id n) then Some (Inr (tn_model_id n))
          else map_option (map_result (\<lambda>chain. Option.bind (find (\<lambda>n. truthy_opt (tn_model_id n)) (rev chain)) tn_model_id))
                 (get_node_chain cn (cn_current_node_id cn))
      | None \<Rightarrow> map_option (map_result (\<lambda>chain. Option.bind (find (\<lambda>n. truthy_opt (tn_model_id n)) (rev chain)) tn_model_id))
                 (get_node_chain cn (cn_current_node_id cn)))"

definition metadata_opt :: "conversation \<Rightarrow> string \<Rightarrow> string option" where
  "metadata_opt cn k = as_opt (dget (cn_metadata cn) k)"

definition model_summary_for_conversation ::
  "model_list \<Rightarrow> conversation \<Rightarrow> (string option \<times> string option) result option" where
  "model_summary_for_conversation models cn =
     map_option (map_result (\<lambda>m.
        (m, or_str (metadata_opt cn ''provider_id'') (or_str (cn_current_provider cn) (provider_for_model models m)))))
       (if truthy_opt (metadata_opt cn ''model_id'') then Some (Inr (metadata_opt cn ''model_id''))
        else current_branch_model cn)"

definition set_conversation_model_metadata :: "string \<Rightarrow> string \<Rightarrow> conversation \<Rightarrow> conversation" where
  "set_conversation_model_metadata provider model cn = set_current_model provider model cn"

definition first_model :: "model_list \<Rightarrow> string option" where
  "first_model models = (case filter (\<lambda>(p, ms). ms \<noteq> []) models of (p, m # _) # _ \<Rightarrow> Some m | _ \<Rightarrow> None)"

definition resolve_model_for_conversation ::
  "model_list \<Rightarrow> conversation \<Rightarrow> string option \<Rightarrow> string option \<Rightarrow> (string option \<times> string option) result option" where
  "resolve_model_for_conversation models cn model provider =
     (let given = or_str model (or_str (metadata_opt cn ''model_id'') (cn_current_model cn)) in
      map_option (map_result (\<lambda>m.
         let target = (if truthy_opt m then m else or_else (first_model models) m) in
         (target, or_str provider (or_str (metadata_opt cn ''provider_id'')
                    (or_str (cn_current_provider cn) (provider_for_model models target))))))
        (if truthy_opt given then Some (Inr given) else current_branch_model cn))"

definition current_node_permission_mode :: "conversation option \<Rightarrow> permission_mode" where
  "current_node_permission_mode cn =
     (case Option.bind cn current_node of
        None \<Rightarrow> DefaultMode
      | Some n \<Rightarrow>
          normalize_permission_mode
            (if truthy_opt (tn_tool_permission_mode n) then of_opt (tn_tool_permission_mode n) else PStr ''default''))"

definition current_node_task_context_mode :: "conversation option \<Rightarrow> context_mode result" where
  "current_node_task_context_mode cn =
     normalize_context_mode (map_option tn_task_context_mode (Option.bind cn current_node))"

text \<open>
  The tokens written with Chinese characters are left out: they occur in no string of the model.
\<close>

definition MULTI_AGENT_REJECTION_TOKENS :: "string list" where
  "MULTI_AGENT_REJECTION_TOKENS = [''do not use subagent'', ''without subagent'']"

definition MULTI_AGENT_REQUEST_TOKENS :: "string list" where
  "MULTI_AGENT_REQUEST_TOKENS = [''subagent'', ''delegate'', ''parallel agent'', ''fork agent'', ''workflow'']"

definition resolve_multi_agent_mode :: "string \<Rightarrow> (string \<times> pyval) list \<Rightarrow> string" where
  "resolve_multi_agent_mode input md =
     (let mode = normalize_multi_agent_mode (dget md ''multi_agent_mode''); t = lower input in
      if mode \<in> {''none'', ''proactive''} then mode
      else if list_ex (\<lambda>k. contains t k) MULTI_AGENT_REJECTION_TOKENS then ''none''
      else if list_ex (\<lambda>k. contains t k) MULTI_AGENT_REQUEST_TOKENS then mode else ''none'')"

end
