(* ===== verification/ChatLoad.thy ===== *)
theory ChatLoad
  imports ChatTree ChatManager
begin

text \<open>
  Loading a conversation returns: walking up the parents ends because every stored node lies one
  level below its parent.  \<open>ranked\<close> is that argument for the dictionary of nodes in
  memory.  The operations of the manager are sequences of steps of the repository.
\<close>

section \<open>Walking up ends\<close>

definition ranked :: "(string \<Rightarrow> nat) \<Rightarrow> node_dict \<Rightarrow> bool" where
  "ranked rank ns =
     (\<forall>i n p m. map_of ns i = Some n \<longrightarrow> tn_parent_id n = Some p \<longrightarrow> p \<noteq> ''None'' \<longrightarrow> map_of ns p = Some m \<longrightarrow>
        rank p < rank i)"

lemma rankedD:
  "ranked rank ns \<Longrightarrow> map_of ns i = Some n \<Longrightarrow> tn_parent_id n = Some p \<Longrightarrow> p \<noteq> ''None'' \<Longrightarrow> map_of ns p = Some m \<Longrightarrow>
   rank p < rank i"
  unfolding ranked_def by blast

lemma chain_up_returns:
  assumes "ranked rank ns"
  shows "chain_up ns current acc \<noteq> None"
proof (cases current)
  case None
  then show ?thesis by (simp add: chain_up.simps)
next
  case (Some j)
  have "chain_up ns (Some i) acc \<noteq> None" for i acc
  proof (induction "rank i" arbitrary: i acc rule: less_induct)
    case less
    show ?case
    proof (cases "i = ''None'' \<or> i = []")
      case True
      then show ?thesis by (auto simp: chain_up.simps)
    next
      case False
      then have i: "i \<noteq> ''None''" "i \<noteq> []" by simp_all
      show ?thesis
      proof (cases "map_of ns i")
        case None
        then show ?thesis using i by (simp add: chain_up.simps)
      next
        case n: (Some n)
        then have step: "chain_up ns (Some i) acc = chain_up ns (tn_parent_id n) (n # acc)"
          using i by (subst chain_up.simps) simp
        show ?thesis
        proof (cases "tn_parent_id n")
          case None
          then show ?thesis unfolding step by (simp add: chain_up.simps)
        next
          case p: (Some p)
          show ?thesis
          proof (cases "p = ''None'' \<or> p = [] \<or> map_of ns p = None")
            case True
            then show ?thesis unfolding step p by (auto simp: chain_up.simps)
          next
            case False
            then obtain m where "p \<noteq> ''None''" "map_of ns p = Some m" by auto
            then have "rank p < rank i" using rankedD [OF assms n p] by blast
            then show ?thesis unfolding step p by (rule less)
          qed
        qed
      qed
    qed
  qed
  then show ?thesis using Some by simp
qed

text \<open>Changes that keep the parents keep the rank; so does leaving nodes out.\<close>

definition parents_within :: "node_dict \<Rightarrow> node_dict \<Rightarrow> bool" where
  "parents_within ns' ns =
     (\<forall>i n'. map_of ns' i = Some n' \<longrightarrow> (\<exists>n. map_of ns i = Some n \<and> tn_parent_id n' = tn_parent_id n))"

lemma parents_within_refl [simp]: "parents_within ns ns"
  by (simp add: parents_within_def)

lemma parents_within_trans: "parents_within a b \<Longrightarrow> parents_within b c \<Longrightarrow> parents_within a c"
  unfolding parents_within_def by metis

lemma ranked_within:
  assumes "ranked rank ns" and "parents_within ns' ns"
  shows "ranked rank ns'"
  unfolding ranked_def
proof (intro allI impI)
  fix i n' p m'
  assume "map_of ns' i = Some n'" "tn_parent_id n' = Some p" "p \<noteq> ''None''" "map_of ns' p = Some m'"
  moreover from this obtain n m where "map_of ns i = Some n" "tn_parent_id n' = tn_parent_id n" "map_of ns p = Some m"
    using assms(2) unfolding parents_within_def by metis
  ultimately show "rank p < rank i" using rankedD [OF assms(1)] by metis
qed

lemma parents_within_pop: "parents_within (dict_pop i ns) ns"
  by (simp add: parents_within_def)

lemma parents_within_set:
  "map_of ns i = Some n \<Longrightarrow> tn_parent_id n' = tn_parent_id n \<Longrightarrow> parents_within (dict_set i n' ns) ns"
  by (simp add: parents_within_def)

lemma parents_within_prune_pass: "parents_within (fst (prune_pass r is ns sk)) ns"
proof (induction r "is" ns sk rule: prune_pass.induct)
  case (2 r i "is" ns sk)
  then show ?case by (auto split: option.split intro: parents_within_trans [OF _ parents_within_pop])
qed simp

lemma parents_within_prune_loop: "parents_within (fst (prune_loop r ns sk)) ns"
proof (induction r ns sk rule: prune_loop.induct)
  case (1 r ns sk)
  obtain ns' new where p: "prune_pass r (map fst ns) ns [] = (ns', new)" by fastforce
  then have w: "parents_within ns' ns" using parents_within_prune_pass [of r "map fst ns" ns "[]"] by simp
  show ?case
  proof (cases "new = []")
    case False
    then have "parents_within (fst (prune_loop r ns' (sk @ new))) ns'" using 1 p by simp
    with False p w show ?thesis by (simp add: prune_loop.simps [of r ns] parents_within_trans)
  qed (use p w in \<open>simp add: prune_loop.simps [of r ns]\<close>)
qed

lemma map_of_map_value: "map_of (map (\<lambda>(k, v). (k, f v)) xs) i = map_option f (map_of xs i)"
  by (induction xs) auto

lemma parents_within_prune: "parents_within (fst (prune_dangling r ns)) ns"
proof -
  obtain ns' sk where p: "prune_loop r ns [] = (ns', sk)" by fastforce
  then have "parents_within ns' ns" using parents_within_prune_loop [of r ns "[]"] by simp
  then show ?thesis
    by (auto simp: prune_dangling_def p parents_within_def map_of_map_value)
qed

lemma inherit_all_returns:
  assumes "ranked rank ns"
  shows "inherit_all is ns \<noteq> None"
  using assms
proof (induction "is" ns rule: inherit_all.induct)
  case (2 i "is" ns)
  show ?case
  proof (cases "map_of ns i")
    case (Some n)
    show ?thesis
    proof (cases "usage_total (tn_turn_usage n) 0 \<noteq> 0 \<or> usage_total (tn_branch_usage n) 0 = 0")
      case True
      then show ?thesis using 2 Some by simp
    next
      case False
      obtain r where r: "chain_up ns (Some i) [] = Some r" using chain_up_returns [OF 2(5)] by blast
      show ?thesis
      proof (cases r)
        case (Inr chain)
        show ?thesis
        proof (cases "inherited_usage (butlast chain)")
          case None
          then show ?thesis using 2 Some False r Inr by simp
        next
          case u: (Some u)
          have "ranked rank (dict_set i (n\<lparr>tn_active_context_usage := u\<rparr>) ns)"
            by (rule ranked_within [OF 2(5) parents_within_set [OF Some]]) simp
          then show ?thesis using 2(4) Some False r Inr u by simp
        qed
      qed (use Some False r in simp)
    qed
  qed (use 2 in simp)
qed simp


section \<open>The stored tree is ranked\<close>

definition node_rank :: "db \<Rightarrow> string \<Rightarrow> nat" where
  "node_rank d i =
     (case fetchone (select (\<lambda>r. nd_id r = i) (nodes d)) of None \<Rightarrow> 0 | Some r \<Rightarrow> nat (nd_depth r))"

lemma node_rank_row: "tree_ok d \<Longrightarrow> r \<in> set (nodes d) \<Longrightarrow> node_rank d (nd_id r) = nat (nd_depth r)"
  using fetchone_unique_key [OF tree_okD(2), of d r "nd_id r"] by (simp add: node_rank_def)

definition parent_field :: "node_row \<Rightarrow> string option" where
  "parent_field r = Some (if truthy_opt (nd_parent_id r) then or_empty (nd_parent_id r) else ''None'')"

lemma tree_node_of_row_Inr:
  "tree_node_of_row rows r = Inr n \<Longrightarrow>
   tn_id n = nd_id r \<and> tn_parent_id n = parent_field r \<and> tn_children_ids n = child_ids rows (nd_id r)"
  by (auto simp: tree_node_of_row_def Let_def map_result_eq_Inr parent_field_def)

lemma list_all2_in_second: "list_all2 P xs ys \<Longrightarrow> y \<in> set ys \<Longrightarrow> \<exists>x \<in> set xs. P x y"
  by (induction rule: list_all2_induct) auto

lemma list_all2_in_first: "list_all2 P xs ys \<Longrightarrow> x \<in> set xs \<Longrightarrow> \<exists>y \<in> set ys. P x y"
  by (induction rule: list_all2_induct) auto

lemma listed_nodes:
  assumes "repo_list_nodes d c = Inr ns" and "n \<in> set ns"
  obtains r where "r \<in> set (nodes d)" "nd_conversation_id r = c" "tn_id n = nd_id r" "tn_parent_id n = parent_field r"
proof -
  have "list_all2 (\<lambda>r n. tree_node_of_row (nodes_in_order d c) r = Inr n) (nodes_in_order d c) ns"
    using assms(1) by (auto simp: repo_list_nodes_def Let_def dest: mapM_result_all)
  then obtain r where "r \<in> set (nodes_in_order d c)" "tree_node_of_row (nodes_in_order d c) r = Inr n"
    using list_all2_in_second [OF _ assms(2)] by blast
  moreover from this have "r \<in> set (nodes d)" "nd_conversation_id r = c" by (simp_all add: nodes_in_order_def)
  ultimately show thesis using tree_node_of_row_Inr [of _ r n] that [of r] by blast
qed

text \<open>The dictionary that loading fills.\<close>

definition load_nodes :: "tree_node list \<Rightarrow> node_dict" where
  "load_nodes xs = fold (\<lambda>n ns. if tn_id n = [] then ns else dict_set (tn_id n) (ensure_node_usage n) ns) xs []"

lemma ensure_node_usage_fields [simp]:
  "tn_id (ensure_node_usage n) = tn_id n" "tn_parent_id (ensure_node_usage n) = tn_parent_id n"
  "tn_children_ids (ensure_node_usage n) = tn_children_ids n"
  by (simp_all add: ensure_node_usage_def Let_def)

lemma fold_load_Some:
  "map_of (fold (\<lambda>n ns. if tn_id n = [] then ns else dict_set (tn_id n) (ensure_node_usage n) ns) xs acc) i = Some m \<Longrightarrow>
   map_of acc i = Some m \<or> (\<exists>n \<in> set xs. tn_id n = i \<and> m = ensure_node_usage n)"
proof (induction xs arbitrary: acc)
  case (Cons x xs)
  let ?acc = "if tn_id x = [] then acc else dict_set (tn_id x) (ensure_node_usage x) acc"
  have "map_of ?acc i = Some m \<or> (\<exists>n \<in> set xs. tn_id n = i \<and> m = ensure_node_usage n)"
    using Cons.prems by (intro Cons.IH) simp
  then show ?case by (auto split: if_splits)
qed simp

lemma load_nodes_Some:
  assumes "map_of (load_nodes xs) i = Some m"
  obtains n where "n \<in> set xs" "tn_id n = i" "m = ensure_node_usage n"
  using fold_load_Some [OF assms [unfolded load_nodes_def]] by auto

lemma ranked_rows:
  assumes ok: "tree_ok d"
    and rows: "\<And>i n. map_of ns i = Some n \<Longrightarrow> \<exists>r \<in> set (nodes d). nd_id r = i \<and> tn_parent_id n = parent_field r"
  shows "ranked (node_rank d) ns"
  unfolding ranked_def
proof (intro allI impI)
  fix i n p m
  assume n: "map_of ns i = Some n" and p: "tn_parent_id n = Some p" "p \<noteq> ''None''" and m: "map_of ns p = Some m"
  obtain r where r: "r \<in> set (nodes d)" "nd_id r = i" "tn_parent_id n = parent_field r" using rows [OF n] by blast
  have "nd_parent_id r = Some p" using p r(3) by (auto simp: parent_field_def truthy_opt_def split: if_splits option.splits)
  then obtain q where q: "q \<in> set (nodes d)" "nd_id q = p" "nd_depth r = nd_depth q + 1"
    using tree_ok_parent [OF ok r(1)] by metis
  have "node_rank d i = nat (nd_depth r)" using node_rank_row [OF ok r(1)] r(2) by simp
  moreover have "node_rank d p = nat (nd_depth q)" using node_rank_row [OF ok q(1)] q(2) by simp
  ultimately show "node_rank d p < node_rank d i" using q(3) tree_okD(4) [OF ok q(1)] by simp
qed

lemma ranked_load:
  assumes ok: "tree_ok d" and ns: "repo_list_nodes d c = Inr ns"
  shows "ranked (node_rank d) (load_nodes ns)"
proof (rule ranked_rows [OF ok])
  fix i n assume n: "map_of (load_nodes ns) i = Some n"
  obtain n0 where n0: "n0 \<in> set ns" "tn_id n0 = i" "n = ensure_node_usage n0" using load_nodes_Some [OF n] .
  then show "\<exists>r \<in> set (nodes d). nd_id r = i \<and> tn_parent_id n = parent_field r"
    using listed_nodes [OF ns n0(1)] by (metis ensure_node_usage_fields(2))
qed

lemma conversation_from_dict_returns:
  assumes "ranked rank (load_nodes (td_nodes t))"
  shows "conversation_from_dict t \<noteq> None"
proof -
  obtain ns1 sk where p: "prune_dangling (or_empty (td_root_node_id t)) (load_nodes (td_nodes t)) = (ns1, sk)"
    by fastforce
  then have "ranked rank ns1"
    using ranked_within [OF assms] parents_within_prune [of "or_empty (td_root_node_id t)" "load_nodes (td_nodes t)"] by simp
  then have "inherit_all (map fst ns1) ns1 \<noteq> None" by (rule inherit_all_returns)
  then show ?thesis
    using p unfolding conversation_from_dict_def load_nodes_def
    by (auto simp: Let_def split: pyval.split option.split sum.split)
qed

lemma get_conversation_returns:
  assumes "tree_ok d" shows "get_conversation d c \<noteq> None"
proof (cases "repo_get_conversation d c")
  case (Inr r)
  have "conversation_from_repository d r \<noteq> None"
  proof (cases "repo_list_nodes d (cv_id r)")
    case (Inr ns)
    then show ?thesis unfolding conversation_from_repository_def
      using conversation_from_dict_returns [where t = "\<lparr>td_metadata = row_metadata r, td_nodes = ns,
        td_root_node_id = cv_root_node_id r, td_current_node_id = cv_current_node_id r\<rparr>"]
        ranked_load [OF assms Inr] by simp
  qed (simp add: conversation_from_repository_def)
  then show ?thesis using Inr by (simp add: get_conversation_def)
qed (simp add: get_conversation_def)

section \<open>What is loaded\<close>

text \<open>The shape of a dictionary of nodes: keys, parents and children.\<close>

definition shape :: "node_dict \<Rightarrow> (string \<times> string option \<times> string list) list" where
  "shape ns = map (\<lambda>(i, n). (i, tn_parent_id n, tn_children_ids n)) ns"

lemma shape_dict_set:
  "map_of ns i = Some n \<Longrightarrow> tn_parent_id n' = tn_parent_id n \<Longrightarrow> tn_children_ids n' = tn_children_ids n \<Longrightarrow>
   shape (dict_set i n' ns) = shape ns"
  by (induction ns) (auto simp: shape_def split: if_splits)

lemma inherit_all_shape: "inherit_all is ns = Some (Inr ns') \<Longrightarrow> shape ns' = shape ns"
  by (induction "is" ns rule: inherit_all.induct)
     (auto split: option.splits sum.splits if_splits simp: shape_dict_set)

text \<open>Nothing is pruned when every parent is there.\<close>

definition parents_present :: "string \<Rightarrow> node_dict \<Rightarrow> bool" where
  "parents_present r ns =
     (\<forall>i n. map_of ns i = Some n \<longrightarrow>
        i = r \<or> tn_parent_id n = Some ''None'' \<or> (\<exists>p. tn_parent_id n = Some p \<and> map_of ns p \<noteq> None))"

lemma prune_pass_present: "parents_present r ns \<Longrightarrow> prune_pass r is ns sk = (ns, sk)"
proof (induction "is")
  case (Cons i "is")
  show ?case
  proof (cases "map_of ns i")
    case (Some n)
    then have "i = r \<or> tn_parent_id n = Some ''None'' \<or> (\<exists>p. tn_parent_id n = Some p \<and> map_of ns p \<noteq> None)"
      using Cons.prems unfolding parents_present_def by blast
    then show ?thesis using Some Cons by auto
  qed (use Cons in simp)
qed simp

lemma prune_dangling_present: "parents_present r ns \<Longrightarrow> prune_dangling r ns = (ns, [])"
  by (simp add: prune_dangling_def prune_loop.simps [of r ns] prune_pass_present)


lemma map_of_shape: "map_of (shape ns) i = map_option (\<lambda>n. (tn_parent_id n, tn_children_ids n)) (map_of ns i)"
  unfolding shape_def by (rule map_of_map_value)

text \<open>Identifiers are neither empty nor the word the code writes for no parent.\<close>

definition plain_ids :: "db \<Rightarrow> bool" where
  "plain_ids d = list_all (\<lambda>n. nd_id n \<notin> {[], ''None''}) (nodes d)"

lemma load_nodes_present:
  assumes "n \<in> set xs" and "tn_id n \<noteq> []"
  shows "map_of (load_nodes xs) (tn_id n) \<noteq> None"
proof -
  let ?f = "\<lambda>n ns. if tn_id n = [] then ns else dict_set (tn_id n) (ensure_node_usage n) ns"
  have keep: "map_of acc i \<noteq> None \<Longrightarrow> map_of (fold ?f ys acc) i \<noteq> None" for acc i ys
    by (induction ys arbitrary: acc) simp_all
  have "map_of (fold ?f xs acc) (tn_id n) \<noteq> None" for acc
    using assms(1)
  proof (induction xs arbitrary: acc)
    case (Cons y ys)
    then show ?case using assms(2) keep [of "?f y acc" "tn_id n" ys] by (cases "n = y") auto
  qed simp
  then show ?thesis unfolding load_nodes_def by blast
qed

text \<open>A node of the dictionary and the row it comes from.\<close>

definition node_matches :: "db \<Rightarrow> string \<Rightarrow> node_dict \<Rightarrow> bool" where
  "node_matches d c ns =
     ((\<forall>i n. map_of ns i = Some n \<longrightarrow>
        (\<exists>r \<in> set (nodes d). nd_conversation_id r = c \<and> nd_id r = i \<and> tn_parent_id n = parent_field r \<and>
           tn_children_ids n = child_ids (nodes_in_order d c) i)) \<and>
      (\<forall>r \<in> set (nodes d). nd_conversation_id r = c \<longrightarrow> map_of ns (nd_id r) \<noteq> None))"

lemma node_matches_row:
  assumes "node_matches d c ns" and "map_of ns i = Some n"
  obtains r where "r \<in> set (nodes d)" "nd_conversation_id r = c" "nd_id r = i" "tn_parent_id n = parent_field r"
    "tn_children_ids n = child_ids (nodes_in_order d c) i"
  using assms unfolding node_matches_def by blast

lemma node_matches_node:
  "node_matches d c ns \<Longrightarrow> r \<in> set (nodes d) \<Longrightarrow> nd_conversation_id r = c \<Longrightarrow> map_of ns (nd_id r) \<noteq> None"
  unfolding node_matches_def by blast

lemma load_nodes_match:
  assumes ids: "plain_ids d" and ns: "repo_list_nodes d c = Inr ns"
  shows "node_matches d c (load_nodes ns)"
proof -
  let ?rows = "nodes_in_order d c"
  have all: "list_all2 (\<lambda>r n. tree_node_of_row ?rows r = Inr n) ?rows ns"
    using ns by (auto simp: repo_list_nodes_def Let_def dest: mapM_result_all)
  have rows: "set ?rows = {r \<in> set (nodes d). nd_conversation_id r = c}" by (simp add: nodes_in_order_def)
  have "\<exists>r \<in> set (nodes d). nd_conversation_id r = c \<and> nd_id r = i \<and> tn_parent_id n = parent_field r \<and>
          tn_children_ids n = child_ids ?rows i" if some: "map_of (load_nodes ns) i = Some n" for i n
  proof -
    obtain n0 where n0: "n0 \<in> set ns" "tn_id n0 = i" "n = ensure_node_usage n0" using load_nodes_Some [OF some] .
    then obtain r where "r \<in> set ?rows" "tree_node_of_row ?rows r = Inr n0" using list_all2_in_second [OF all] by blast
    then show ?thesis using n0 rows tree_node_of_row_Inr [of ?rows r n0] by auto
  qed
  moreover have "map_of (load_nodes ns) (nd_id r) \<noteq> None" if r: "r \<in> set (nodes d)" "nd_conversation_id r = c" for r
  proof -
    have "r \<in> set ?rows" using r rows by simp
    then obtain n where n: "n \<in> set ns" "tree_node_of_row ?rows r = Inr n"
      using list_all2_in_first [OF all] by blast
    then have "tn_id n = nd_id r" using tree_node_of_row_Inr by blast
    moreover have "nd_id r \<noteq> []" using ids r(1) by (simp add: plain_ids_def list_all_iff)
    ultimately show ?thesis using load_nodes_present [OF n(1)] by simp
  qed
  ultimately show ?thesis unfolding node_matches_def by blast
qed

lemma parents_present_match:
  assumes ok: "tree_ok d" and m: "node_matches d c ns"
  shows "parents_present root' ns"
  unfolding parents_present_def
proof (intro allI impI)
  fix i n assume "map_of ns i = Some n"
  then obtain r where r: "r \<in> set (nodes d)" "nd_conversation_id r = c" "tn_parent_id n = parent_field r"
    using node_matches_row [OF m] by metis
  show "i = root' \<or> tn_parent_id n = Some ''None'' \<or> (\<exists>p. tn_parent_id n = Some p \<and> map_of ns p \<noteq> None)"
  proof (cases "truthy_opt (nd_parent_id r)")
    case True
    then obtain p where p: "nd_parent_id r = Some p" "p \<noteq> []" by (auto simp: truthy_opt_def split: option.splits)
    then obtain q where "q \<in> set (nodes d)" "nd_id q = p" "nd_conversation_id q = c"
      using tree_ok_parent [OF ok r(1)] r(2) by metis
    then have "map_of ns p \<noteq> None" using node_matches_node [OF m] by metis
    then show ?thesis using r(3) p by (simp add: parent_field_def)
  qed (use r(3) in \<open>simp add: parent_field_def\<close>)
qed

lemma node_matches_shape: "shape ns' = shape ns \<Longrightarrow> node_matches d c ns \<Longrightarrow> node_matches d c ns'"
proof -
  assume s: "shape ns' = shape ns" and m: "node_matches d c ns"
  have eq: "map_option (\<lambda>n. (tn_parent_id n, tn_children_ids n)) (map_of ns' i) =
        map_option (\<lambda>n. (tn_parent_id n, tn_children_ids n)) (map_of ns i)" for i
    using s by (simp only: map_of_shape [symmetric])
  show ?thesis
    unfolding node_matches_def
  proof (intro conjI allI impI ballI)
    fix i n' assume "map_of ns' i = Some n'"
    then obtain n where n: "map_of ns i = Some n" "tn_parent_id n' = tn_parent_id n" "tn_children_ids n' = tn_children_ids n"
      using eq [of i] by (cases "map_of ns i") auto
    then show "\<exists>r \<in> set (nodes d). nd_conversation_id r = c \<and> nd_id r = i \<and> tn_parent_id n' = parent_field r \<and>
        tn_children_ids n' = child_ids (nodes_in_order d c) i"
      using node_matches_row [OF m n(1)] by metis
  next
    fix r assume "r \<in> set (nodes d)" "nd_conversation_id r = c"
    then have "map_of ns (nd_id r) \<noteq> None" by (rule node_matches_node [OF m])
    then show "map_of ns' (nd_id r) \<noteq> None" using eq [of "nd_id r"] by (cases "map_of ns' (nd_id r)") auto
  qed
qed


lemma ranked_matches: "tree_ok d \<Longrightarrow> node_matches d c ns \<Longrightarrow> ranked (node_rank d) ns"
  by (rule ranked_rows) (auto simp: node_matches_def)

end
