(* ===== verification/ChatDelete.thy ===== *)
theory ChatDelete
  imports ChatLoad
begin

text \<open>
  Deleting a node in memory and in the database.  The recursion over the children removes
  what can be reached from the node; on a loaded conversation these are its descendants in the
  table, so that the tree in memory and the rows stay in step.
\<close>

section \<open>The recursion\<close>

inductive_set reach :: "node_dict \<Rightarrow> string set \<Rightarrow> string set" for ns and S where
  start: "i \<in> S \<Longrightarrow> i \<in> reach ns S"
| down: "j \<in> reach ns S \<Longrightarrow> map_of ns j = Some n \<Longrightarrow> k \<in> set (tn_children_ids n) \<Longrightarrow> k \<in> reach ns S"

lemma reach_mono:
  assumes "x \<in> reach ns S" and "S \<subseteq> reach ns' T"
    and "\<And>j n. map_of ns j = Some n \<Longrightarrow> map_of ns' j = Some n"
  shows "x \<in> reach ns' T"
  using assms(1) by induction (use assms(2,3) reach.down in blast)+

lemma reach_empty [simp]: "reach ns {} = {}"
proof -
  have "x \<notin> reach ns {}" for x
  proof
    assume "x \<in> reach ns {}" then show False by induction simp_all
  qed
  then show ?thesis by blast
qed

definition without :: "string set \<Rightarrow> node_dict \<Rightarrow> node_dict" where
  "without X ns = filter (\<lambda>p. fst p \<notin> X) ns"

lemma map_of_without: "map_of (without X ns) i = (if i \<in> X then None else map_of ns i)"
  using map_of_filter_fst [of "- X" ns i] by (simp add: without_def)

lemma without_without: "without Y (without X ns) = without (X \<union> Y) ns"
  by (auto simp: without_def intro: filter_cong)

lemma dict_pop_without: "dict_pop i ns = without {i} ns"
  by (simp add: dict_pop_def without_def)

lemma reach_split:
  assumes n: "map_of ns i = Some n" and D: "D = insert i (reach ns (set (tn_children_ids n)))"
  shows "D \<union> reach (without D ns) S = reach ns (insert i S)"
proof (rule subset_antisym)
  have closed: "k \<in> D" if "j \<in> D" "map_of ns j = Some m" "k \<in> set (tn_children_ids m)" for j k m
    using that n unfolding D by (auto intro: reach.intros)
  show "reach ns (insert i S) \<subseteq> D \<union> reach (without D ns) S"
  proof
    fix x assume "x \<in> reach ns (insert i S)"
    then show "x \<in> D \<union> reach (without D ns) S"
    proof induction
      case (start x)
      then show ?case unfolding D by (auto intro: reach.start)
    next
      case (down j m k)
      show ?case
      proof (cases "j \<in> D")
        case True
        then show ?thesis using closed down.hyps by blast
      next
        case False
        then have "j \<in> reach (without D ns) S" "map_of (without D ns) j = Some m"
          using down by (simp_all add: map_of_without)
        then show ?thesis using down.hyps(3) reach.down by blast
      qed
    qed
  qed
  have "i \<in> reach ns (insert i S)" by (rule reach.start) simp
  then have "set (tn_children_ids n) \<subseteq> reach ns (insert i S)" using n reach.down by blast
  then have "D \<subseteq> reach ns (insert i S)"
    unfolding D using reach_mono \<open>i \<in> reach ns (insert i S)\<close> by blast
  moreover have "reach (without D ns) S \<subseteq> reach ns (insert i S)"
  proof
    fix x assume "x \<in> reach (without D ns) S"
    then show "x \<in> reach ns (insert i S)"
      by (rule reach_mono) (auto simp: map_of_without intro: reach.start split: if_splits)
  qed
  ultimately show "D \<union> reach (without D ns) S \<subseteq> reach ns (insert i S)" by blast
qed

lemma delete_recursive_without:
  "delete_recursive k is ns = Inr ns' \<Longrightarrow> ns' = without (reach ns (set is)) ns"
proof (induction k "is" ns arbitrary: ns' rule: delete_recursive.induct)
  case (1 limit ns)
  then show ?case by (simp add: without_def)
next
  case (3 k i "is" ns)
  obtain n ns1 where n: "map_of ns i = Some n" and ns1: "delete_recursive k (tn_children_ids n) ns = Inr ns1"
    and present: "map_of ns1 i \<noteq> None" and rest: "delete_recursive (Suc k) is (dict_pop i ns1) = Inr ns'"
    using "3.prems" by (auto split: option.splits sum.splits if_splits)
  let ?R = "reach ns (set (tn_children_ids n))"
  have e1: "ns1 = without ?R ns" by (rule "3.IH"(1) [OF n ns1])
  have e2: "ns' = without (reach (dict_pop i ns1) (set is)) (dict_pop i ns1)"
    by (rule "3.IH"(2) [OF n ns1 present rest])
  have e3: "dict_pop i ns1 = without (insert i ?R) ns"
    unfolding e1 dict_pop_without without_without by simp
  show ?case
    unfolding e2 e3 without_without reach_split [OF n refl] by simp
qed simp


section \<open>What a loaded conversation reaches\<close>

lemma in_child_ids: "k \<in> set (child_ids rows i) \<longleftrightarrow> (\<exists>r \<in> set rows. nd_parent_id r = Some i \<and> nd_id r = k)"
  by (auto simp: child_ids_def)

lemma set_nodes_in_order [simp]: "set (nodes_in_order d c) = {r \<in> set (nodes d). nd_conversation_id r = c}"
  by (simp add: nodes_in_order_def)

lemma descendants_same_conversation:
  assumes ok: "tree_ok d" and r: "r \<in> set (nodes d)" "nd_id r = i" and j: "j \<in> descendants (nodes d) i"
  shows "\<exists>m \<in> set (nodes d). nd_id m = j \<and> nd_conversation_id m = nd_conversation_id r"
  using j
proof induction
  case self
  then show ?case using r by blast
next
  case (child n p)
  obtain q where q: "q \<in> set (nodes d)" "nd_id q = p" "nd_conversation_id q = nd_conversation_id n"
    using tree_ok_parent [OF ok child.hyps(1,2)] by metis
  then have "nd_conversation_id q = nd_conversation_id r" using child.IH same_node [OF ok] by metis
  then show ?case using child.hyps(1) q(3) by auto
qed

lemma reach_descendants:
  assumes ok: "tree_ok d" and m: "node_matches d c ns"
    and r: "r \<in> set (nodes d)" "nd_id r = i" "nd_conversation_id r = c"
  shows "reach ns {i} = descendants (nodes d) i"
proof (rule subset_antisym)
  show "reach ns {i} \<subseteq> descendants (nodes d) i"
  proof
    fix x assume "x \<in> reach ns {i}"
    then show "x \<in> descendants (nodes d) i"
    proof induction
      case (down j n k)
      then have "k \<in> set (child_ids (nodes_in_order d c) j)" using node_matches_row [OF m] by metis
      then show ?case using down.IH by (auto simp: in_child_ids intro: descendants.child)
    qed (simp add: descendants.self)
  qed
  show "descendants (nodes d) i \<subseteq> reach ns {i}"
  proof
    fix x assume "x \<in> descendants (nodes d) i"
    then show "x \<in> reach ns {i}"
    proof induction
      case (child n p)
      obtain q where q: "q \<in> set (nodes d)" "nd_id q = p" "nd_conversation_id q = c"
        using descendants_same_conversation [OF ok r(1,2) child.hyps(3)] r(3) by auto
      then obtain a where a: "map_of ns p = Some a" using node_matches_node [OF m q(1,3)] by auto
      have "nd_conversation_id n = c"
        using tree_ok_parent [OF ok child.hyps(1,2)] q same_node [OF ok] by metis
      then have "nd_id n \<in> set (tn_children_ids a)"
        using node_matches_row [OF m a] child.hyps(1,2) by (metis (mono_tags, lifting) in_child_ids mem_Collect_eq set_nodes_in_order)
      then show ?case using child.IH a by (rule reach.down [rotated 2])
    qed (simp add: reach.start)
  qed
qed

text \<open>The table after the deletion, seen from one conversation.\<close>

lemma nodes_in_order_deleted:
  assumes "nodes d' = filter (\<lambda>n. nd_id n \<notin> D) (nodes d)"
  shows "nodes_in_order d' c = filter (\<lambda>n. nd_id n \<notin> D) (nodes_in_order d c)"
  unfolding nodes_in_order_def select_def assms filter_sort filter_filter by (simp add: conj_commute)

lemma child_ids_filter: "child_ids (filter (\<lambda>n. nd_id n \<notin> D) rows) j = filter (\<lambda>k. k \<notin> D) (child_ids rows j)"
  by (induction rows) (auto simp: child_ids_def)

lemma distinct_child_ids:
  assumes "tree_ok d" shows "distinct (child_ids (nodes_in_order d c) j)"
proof -
  have "distinct (map nd_id (nodes_in_order d c))"
    using tree_okD(2) [OF assms]
    by (simp add: nodes_in_order_def distinct_map select_def inj_on_def)
  then show ?thesis unfolding child_ids_def by (rule distinct_map_filter)
qed

text \<open>A kept node loses a child only if it is the parent of the deleted node.\<close>

lemma kept_children:
  assumes ok: "tree_ok d" and r: "r \<in> set (nodes d)" "nd_id r = i"
    and j: "j \<notin> descendants (nodes d) i" and k: "k \<in> set (child_ids (nodes_in_order d c) j)" "k \<in> descendants (nodes d) i"
  shows "k = i \<and> nd_parent_id r = Some j"
proof -
  obtain n where n: "n \<in> set (nodes d)" "nd_parent_id n = Some j" "nd_id n = k"
    using k(1) by (auto simp: in_child_ids)
  from k(2) have "k = i"
  proof (cases rule: descendants.cases)
    case (child m p)
    then have "m = n" using same_node [OF ok] n by metis
    then show ?thesis using child n(2) j by simp
  qed simp
  moreover have "n = r" using same_node [OF ok] n r calculation by metis
  ultimately show ?thesis using n(2) by simp
qed

lemma del_node_matches:
  assumes ok: "tree_ok d" and ids: "plain_ids d" and m: "node_matches d c (cn_nodes cn)"
    and del: "del_node limit now i cn = Inr cn'"
  shows "node_matches (snd (repo_delete_node now c i nc d)) c (cn_nodes cn')"
proof (cases "node_row_of d c i")
  case None
  have "map_of (cn_nodes cn) i = None"
  proof (rule ccontr)
    assume "map_of (cn_nodes cn) i \<noteq> None"
    then obtain r where "r \<in> set (nodes d)" "nd_conversation_id r = c" "nd_id r = i"
      using node_matches_row [OF m] by blast
    then show False using None by (simp add: node_row_of_None)
  qed
  then show ?thesis using m del None by (simp add: del_node_def repo_delete_node_absent)
next
  case (Some r)
  let ?ns = "cn_nodes cn" and ?D = "descendants (nodes d) i" and ?d = "snd (repo_delete_node now c i nc d)"
  note r = node_row_of_SomeD [OF Some]
  have N: "nodes ?d = filter (\<lambda>n. nd_id n \<notin> ?D) (nodes d)"
    using repo_delete_node_tables(1) [OF tree_okD(2) [OF ok]] Some by simp
  obtain n where n: "map_of ?ns i = Some n" using node_matches_node [OF m] r by blast
  have par: "tn_parent_id n = parent_field r" using node_matches_row [OF m n] same_node [OF ok] r by metis
  obtain ns1 where ns1: "delete_recursive limit [i] ?ns = Inr ns1"
    using del n by (cases "delete_recursive limit [i] ?ns") (auto simp: del_node_def Let_def)
  have e1: "ns1 = without ?D ?ns"
    using delete_recursive_without [OF ns1] reach_descendants [OF ok m, of r i] r by simp
  let ?p = "or_empty (tn_parent_id n)"
  have cn': "cn_nodes cn' = (case map_of ns1 ?p of None \<Rightarrow> ns1
      | Some a \<Rightarrow> dict_set ?p (a\<lparr>tn_children_ids := remove1 i (tn_children_ids a)\<rparr>) ns1)"
  proof -
    have "truthy_opt (tn_parent_id n)" unfolding par parent_field_def by (cases "nd_parent_id r") simp_all
    then show ?thesis using del n ns1
      by (auto simp: del_node_def Let_def touch_def bind_result_eq_Inr split: option.splits if_splits)
  qed
  have look: "map_of (cn_nodes cn') j = (if j \<in> ?D then None else
      map_option (\<lambda>a. if j = ?p then a\<lparr>tn_children_ids := remove1 i (tn_children_ids a)\<rparr> else a) (map_of ?ns j))" for j
    unfolding cn' e1 by (cases "map_of ?ns j") (auto simp: map_of_without split: option.split)
  have kids: "child_ids (nodes_in_order ?d c) j =
      (if j = ?p then remove1 i (child_ids (nodes_in_order d c) j) else child_ids (nodes_in_order d c) j)"
    if "j \<notin> ?D" "j \<noteq> ''None''" for j
  proof -
    have e: "child_ids (nodes_in_order ?d c) j = filter (\<lambda>k. k \<notin> ?D) (child_ids (nodes_in_order d c) j)"
      unfolding nodes_in_order_deleted [OF N] by (rule child_ids_filter)
    have only: "k = i \<and> nd_parent_id r = Some j" if "k \<in> set (child_ids (nodes_in_order d c) j)" "k \<in> ?D" for k
      using kept_children [OF ok _ _ \<open>j \<notin> ?D\<close> that] r by blast
    show ?thesis
    proof (cases "j = ?p")
      case True
      have "filter (\<lambda>k. k \<notin> ?D) (child_ids (nodes_in_order d c) j) = filter ((\<noteq>) i) (child_ids (nodes_in_order d c) j)"
        by (rule filter_cong [OF refl]) (use only descendants.self in blast)
      then show ?thesis using True e distinct_child_ids [OF ok] by (simp add: distinct_remove1_removeAll removeAll_filter_not_eq)
    next
      case False
      have "k \<notin> ?D" if "k \<in> set (child_ids (nodes_in_order d c) j)" for k
      proof
        assume "k \<in> ?D"
        then have "nd_parent_id r = Some j" using only that by blast
        moreover have "j \<noteq> []"
        proof -
          obtain q where "q \<in> set (nodes d)" "nd_id q = j" using tree_ok_parent [OF ok _ calculation] r by blast
          then show ?thesis using ids by (auto simp: plain_ids_def list_all_iff)
        qed
        ultimately show False using False par by (simp add: parent_field_def)
      qed
      then show ?thesis using False e by (simp add: filter_True)
    qed
  qed
  show ?thesis
    unfolding node_matches_def
  proof (intro conjI allI impI ballI)
    fix j b assume "map_of (cn_nodes cn') j = Some b"
    then obtain a where j: "j \<notin> ?D" and a: "map_of ?ns j = Some a"
      and b: "b = (if j = ?p then a\<lparr>tn_children_ids := remove1 i (tn_children_ids a)\<rparr> else a)"
      unfolding look by (cases "j \<in> ?D"; cases "map_of ?ns j") (simp_all split del: if_split)
    obtain q where q: "q \<in> set (nodes d)" "nd_conversation_id q = c" "nd_id q = j" "tn_parent_id a = parent_field q"
      "tn_children_ids a = child_ids (nodes_in_order d c) j" using node_matches_row [OF m a] .
    have "j \<noteq> ''None''" using ids q(1,3) by (auto simp: plain_ids_def list_all_iff)
    then show "\<exists>q \<in> set (nodes ?d). nd_conversation_id q = c \<and> nd_id q = j \<and> tn_parent_id b = parent_field q \<and>
        tn_children_ids b = child_ids (nodes_in_order ?d c) j"
      using q j b kids [OF j] by (intro bexI [of _ q]) (auto simp: N)
  next
    fix q assume "q \<in> set (nodes ?d)" "nd_conversation_id q = c"
    then have "nd_id q \<notin> ?D" "map_of ?ns (nd_id q) \<noteq> None" using N node_matches_node [OF m] by auto
    then show "map_of (cn_nodes cn') (nd_id q) \<noteq> None" unfolding look by simp
  qed
qed


section \<open>Loaded conversations\<close>

lemma conversation_from_dict_Inr:
  assumes "conversation_from_dict t = Some (Inr cn)"
    and "parents_present (or_empty (td_root_node_id t)) (load_nodes (td_nodes t))"
  shows "shape (cn_nodes cn) = shape (load_nodes (td_nodes t))"
    and "cn_root_node_id cn = td_root_node_id t" and "cn_metadata cn = td_metadata t"
    and "truthy_opt (td_current_node_id t) \<Longrightarrow> map_of (cn_nodes cn) (or_empty (td_current_node_id t)) \<noteq> None \<Longrightarrow>
      cn_current_node_id cn = td_current_node_id t"
    and "\<not> truthy_opt (td_current_node_id t) \<or> map_of (cn_nodes cn) (or_empty (td_current_node_id t)) = None \<Longrightarrow>
      cn_current_node_id cn = td_root_node_id t"
  using assms(1) prune_dangling_present [OF assms(2)] unfolding conversation_from_dict_def load_nodes_def [symmetric]
  by (auto simp: Let_def truthy_opt_def inherit_all_shape split: pyval.splits if_splits option.splits sum.splits)

lemma get_conversation_Some:
  assumes ok: "tree_ok d" and ids: "plain_ids d" and get: "get_conversation d c = Some (Inr (Some cn))"
  obtains r where "conversation_row_of d c = Some r" "node_matches d c (cn_nodes cn)"
    "cn_root_node_id cn = cv_root_node_id r" "dget (cn_metadata cn) ''id'' = PStr c"
    "cv_current_node_id r = Some x \<Longrightarrow> node_row_of d c x \<noteq> None \<Longrightarrow> cn_current_node_id cn = Some x"
    "cv_current_node_id r = Some x \<Longrightarrow> node_row_of d c x = None \<Longrightarrow> cn_current_node_id cn = cv_root_node_id r"
proof -
  obtain r where r: "conversation_row_of d c = Some r" and from': "conversation_from_repository d r = Some (Inr cn)"
    using get by (auto simp: get_conversation_def repo_get_conversation_def map_result_eq_Inr split: option.splits)
  have c: "cv_id r = c" using conversation_row_of_SomeD [OF r] by simp
  obtain ns where ns: "repo_list_nodes d c = Inr ns"
    using from' c by (auto simp: conversation_from_repository_def split: sum.splits)
  let ?t = "\<lparr>td_metadata = row_metadata r, td_nodes = ns, td_root_node_id = cv_root_node_id r,
             td_current_node_id = cv_current_node_id r\<rparr>"
  have t: "conversation_from_dict ?t = Some (Inr cn)"
    using from' ns c by (simp add: conversation_from_repository_def)
  have m0: "node_matches d c (load_nodes ns)" by (rule load_nodes_match [OF ids ns])
  have pp: "parents_present (or_empty (td_root_node_id ?t)) (load_nodes (td_nodes ?t))"
    using parents_present_match [OF ok m0] by simp
  note L = conversation_from_dict_Inr [OF t pp, simplified]
  have m: "node_matches d c (cn_nodes cn)" using node_matches_shape [OF L(1) m0] .
  have present: "map_of (cn_nodes cn) x \<noteq> None \<longleftrightarrow> node_row_of d c x \<noteq> None" for x
  proof -
    have "\<exists>r \<in> set (nodes d). nd_conversation_id r = c \<and> nd_id r = x" if "map_of (cn_nodes cn) x = Some n" for n
      using node_matches_row [OF m that] by metis
    then have "map_of (cn_nodes cn) x \<noteq> None \<longrightarrow> node_row_of d c x \<noteq> None" unfolding node_row_of_None by blast
    moreover have "node_row_of d c x \<noteq> None \<longrightarrow> map_of (cn_nodes cn) x \<noteq> None"
      using node_row_of_SomeD node_matches_node [OF m] by blast
    ultimately show ?thesis by blast
  qed
  then have absent: "map_of (cn_nodes cn) x = None \<longleftrightarrow> node_row_of d c x = None" for x by blast
  have "truthy_opt (Some x)" if "node_row_of d c x \<noteq> None" for x
    using that node_row_of_SomeD ids by (fastforce simp: plain_ids_def list_all_iff)
  note plain = this
  have "cn_current_node_id cn = Some x" if "cv_current_node_id r = Some x" "node_row_of d c x \<noteq> None"
    using L(4) that(1) present [THEN iffD2, OF that(2)] plain [OF that(2)] by simp
  moreover have "cn_current_node_id cn = cv_root_node_id r" if "cv_current_node_id r = Some x" "node_row_of d c x = None"
    using L(5) that(1) absent [THEN iffD2, OF that(2)] by simp
  moreover have "dget (cn_metadata cn) ''id'' = PStr c" unfolding L(3) row_metadata_def c by simp
  ultimately show thesis by (intro that [OF r m L(2)])
qed

lemma delete_node_Inr:
  assumes get: "get_conversation d c = Some (Inr (Some cn))"
    and del: "delete_node limit now c i d = Some (Inr (Some rep), d')"
  obtains cn' where "del_node limit now i cn = Inr cn'" "dn_new_current_node_id rep = cn_current_node_id cn'"
    "d' = snd (repo_delete_node now c i (cn_current_node_id cn') d)"
  using del unfolding delete_node_def then_get_def get by (auto split: sum.splits)

end
