(* ===== verification/ChatSteps.thy ===== *)
theory ChatSteps
  imports ChatTree ChatManager
begin

text \<open>
  The operations that store whole turns, and those of the manager, are sequences of steps of the
  repository; \<open>chat_step\<close> is one operation of either.  With \<open>tree_steps_ok\<close> all of
  them keep the tree of nodes well formed.
\<close>

abbreviation tree_steps :: "db \<Rightarrow> db \<Rightarrow> bool" where
  "tree_steps \<equiv> tree_step\<^sup>*\<^sup>*"

named_theorems steps \<open>operations as sequences of steps\<close>

lemma step_one: "tree_step d d' \<Longrightarrow> tree_steps d d'"
  by (rule r_into_rtranclp)

lemma steps_then_op [steps]:
  assumes "tree_steps d (snd m)" and "\<And>x d1. tree_steps d1 (snd (f x d1))"
  shows "tree_steps d (snd (then_op m f))"
proof -
  obtain r d1 where m: "m = (r, d1)" by fastforce
  then show ?thesis
  proof (cases r)
    case (Inr x)
    have "tree_steps d d1" using assms(1) m by simp
    moreover have "tree_steps d1 (snd (f x d1))" by (rule assms(2))
    ultimately show ?thesis using Inr m by simp
  qed (use assms(1) m in simp)
qed

lemma steps_done [steps]: "tree_steps d (snd (r, d))"
  by simp

lemma steps_base [steps]:
  "tree_steps d (snd (repo_ensure_conversation now c t cs d))"
  "tree_steps d (snd (repo_ensure_node now c i p order focus f d))"
  "tree_steps d (snd (add_message E uuid now c nd role content mf mid d))"
  "tree_steps d (snd (persist_model_state_items E c m items d))"
  "tree_steps d (snd (add_tool_call E uuid now c nd call name args idx st run msg d))"
  "tree_steps d (snd (add_tool_result E preview uuid now c nd rid call output st run md d))"
  unfolding repo_ensure_node_def by (intro step_one tree_step.intros)+

lemma steps_if [steps]: "tree_steps d (snd m) \<Longrightarrow> tree_steps d (snd m') \<Longrightarrow> tree_steps d (snd (if P then m else m'))"
  by simp

lemma steps_result [steps]:
  "(\<And>e. tree_steps d (snd (f e))) \<Longrightarrow> (\<And>x. tree_steps d (snd (g x))) \<Longrightarrow>
   tree_steps d (snd (case r of Inl e \<Rightarrow> f e | Inr x \<Rightarrow> g x))"
  by (cases r) simp_all

section \<open>Branches and turns\<close>

lemma steps_ensure_chain [steps]: "tree_steps d (snd (ensure_chain now c ns provider model focus chain d))"
  by (induction chain arbitrary: d) (auto intro: steps)

lemma steps_ensure_branch:
  "ensure_branch now cn nid provider model focus d = Some (r, d') \<Longrightarrow> tree_steps d d'"
proof -
  let ?md = "cn_metadata cn"
  let ?d1 = "snd (repo_ensure_conversation now (metadata_id ?md) (str_or (dget ?md ''title'') []) (settings_of ?md provider model) d)"
  have 1: "tree_steps d ?d1" by (rule steps_base)
  assume "ensure_branch now cn nid provider model focus d = Some (r, d')"
  then have "d' = ?d1 \<or> (\<exists>chain. d' = snd (ensure_chain now (metadata_id ?md) (cn_nodes cn) provider model focus chain ?d1))"
    unfolding ensure_branch_def Let_def
    by (auto split: option.splits sum.splits) (metis snd_conv)
  then show ?thesis
  proof
    assume "\<exists>chain. d' = snd (ensure_chain now (metadata_id ?md) (cn_nodes cn) provider model focus chain ?d1)"
    then obtain chain where d': "d' = snd (ensure_chain now (metadata_id ?md) (cn_nodes cn) provider model focus chain ?d1)" ..
    show ?thesis unfolding d' using 1 steps_ensure_chain by (rule rtranclp_trans)
  qed (use 1 in simp)
qed

lemma steps_save:
  assumes "repo_save now cn d = Some (r, d')" shows "tree_steps d d'"
proof (cases "truthy_opt (cn_current_node_id cn)")
  case True
  then show ?thesis using assms steps_ensure_branch by (simp add: repo_save_def Let_def)
next
  case False
  then have "d' = snd (repo_ensure_conversation now (metadata_id (cn_metadata cn)) (str_or (dget (cn_metadata cn) ''title'') [])
      (settings_of (cn_metadata cn) None None) d)"
    using assms by (simp add: repo_save_def Let_def)
  then show ?thesis using steps_base by simp
qed

lemma steps_calls [steps]:
  "tree_steps d (snd (persist_calls E fresh now c nd run msg st ans un n calls d))"
  by (induction calls arbitrary: d n) (auto simp: Let_def intro!: steps)

lemma steps_results [steps]:
  "tree_steps d (snd (persist_results E preview fresh now c nd run msg st n ms d))"
  by (induction ms arbitrary: d n) (auto simp: Let_def simp del: then_op_simps intro!: steps)

lemma steps_tool_metadata [steps]:
  "tree_steps d (snd (persist_tool_metadata E preview fresh now c nd run msg calls messages events gs d))"
  unfolding persist_tool_metadata_def Let_def by (intro steps)

lemma steps_round_messages [steps]:
  "tree_steps d (snd (persist_round_messages E now t is_final mid k content rnd d))"
  unfolding persist_round_messages_def Let_def by (intro steps)

lemma steps_round [steps]:
  "tree_steps d (snd (persist_round E preview fresh now t base content is_final n rnd remaining d))"
  unfolding persist_round_def Let_def by (intro steps)

lemma steps_rounds [steps]:
  "tree_steps d (snd (persist_rounds E preview fresh now t base content has_final n rounds remaining d))"
  by (induction rounds arbitrary: d n remaining) (auto intro: steps)

lemma steps_turn_body [steps]:
  "tree_steps d (snd (persist_turn_body E preview fresh now t base plan_only rounds tms d))"
  unfolding persist_turn_body_def Let_def by (intro steps)

lemma steps_map_then:
  assumes "map_option (\<lambda>r. then_op r f) x = Some q"
    and "\<And>r d'. x = Some (r, d') \<Longrightarrow> tree_steps d d'" and "\<And>y d. tree_steps d (snd (f y d))"
  shows "tree_steps d (snd q)"
proof -
  obtain r d1 where x: "x = Some (r, d1)" and q: "q = then_op (r, d1) f" using assms(1) by auto
  have "tree_steps d (snd (r, d1))" using assms(2) [OF x] by simp
  then show ?thesis unfolding q by (rule steps_then_op) (rule assms(3))
qed

lemma steps_assistant_turn:
  assumes "persist_assistant_turn E preview uuid fresh now cn n msg provider model run tms rounds route events po d = Some (r, d')"
  shows "tree_steps d d'"
  using steps_map_then [OF assms [unfolded persist_assistant_turn_def Let_def] steps_ensure_branch steps_turn_body]
  by simp

lemma steps_user_turn:
  assumes "persist_user_turn E uuid now cn n msg provider model d = Some (r, d')"
  shows "tree_steps d d'"
  using steps_map_then [OF assms [unfolded persist_user_turn_def] steps_ensure_branch
      steps_then_op [OF steps_base(3) steps_done]]
  by simp

section \<open>Operations of the manager\<close>

inductive manager_step :: "db \<Rightarrow> db \<Rightarrow> bool" for d where
  create: "create_conversation uuid ru now t pid pm found ws mode conf s = Some (r, s') \<Longrightarrow> cm_db s = d \<Longrightarrow>
           manager_step d (cm_db s')"
| save: "save_conversation now s = Some (r, s') \<Longrightarrow> cm_db s = d \<Longrightarrow> manager_step d (cm_db s')"
| delete_conversation: "cm_db s = d \<Longrightarrow> manager_step d (cm_db (delete_conversation c s))"
| title: "cm_db s = d \<Longrightarrow> manager_step d (cm_db (snd (update_conversation_title now c t s)))"
| model: "cm_db s = d \<Longrightarrow> manager_step d (cm_db (snd (update_conversation_model now c m p e th s)))"
| mode: "cm_db s = d \<Longrightarrow> manager_step d (cm_db (snd (update_conversation_multi_agent_mode now c md s)))"
| switch: "switch_node now c i d = Some (r, d') \<Longrightarrow> manager_step d d'"
| delete_node: "delete_node limit now c i d = Some (r, d') \<Longrightarrow> manager_step d d'"
| user_turn: "persist_user_turn E uuid now cn n msg provider m d = Some (r, d') \<Longrightarrow> manager_step d d'"
| assistant_turn:
    "persist_assistant_turn E preview uuid fresh now cn n msg provider m run tms rounds route events po d = Some (r, d') \<Longrightarrow>
     manager_step d d'"

lemma steps_update_both: "tree_steps (cm_db s) (cm_db (snd (update_both now c u es s)))"
  unfolding update_both_def by (simp add: split_def step_one tree_step.update_conversation)

lemma steps_then_get:
  assumes "then_get d c absent f = Some (r, d')" and "\<And>cn r d'. f cn = Some (r, d') \<Longrightarrow> tree_steps d d'"
  shows "tree_steps d d'"
  using assms unfolding then_get_def by (auto split: option.splits sum.splits)

lemma manager_step_steps: "manager_step d d' \<Longrightarrow> tree_steps d d'"
proof (induction rule: manager_step.induct)
  case (create uuid ru now t pid pm found ws mode conf s r s')
  then obtain cn q where sv: "repo_save now cn (cm_db s) = Some q"
    and e: "(case fst q of Inl e \<Rightarrow> (Inl e, s\<lparr>cm_db := snd q\<rparr>)
             | Inr _ \<Rightarrow> (Inr cn, s\<lparr>cm_db := snd q, cm_current := Some cn\<rparr>)) = (r, s')"
    unfolding create_conversation_def Let_def by (auto simp: split_def)
  have "cm_db s' = snd q" using e by (cases "fst q") auto
  then show ?case using create(2) sv steps_save [of now cn d "fst q" "snd q"] by simp
next
  case (save now s r s')
  then show ?case unfolding save_conversation_def by (auto split: option.splits dest!: steps_save)
next
  case (delete_conversation s c)
  then show ?case using tree_step.delete_conversation [of d c]
    by (simp add: delete_conversation_def step_one)
next
  case (switch now c i r d')
  then show ?case unfolding switch_node_def
    by (rule steps_then_get) (auto split: prod.splits bool.splits intro: step_one tree_step.update_conversation)
next
  case (delete_node limit now c i r d')
  then show ?case unfolding delete_node_def
    by (rule steps_then_get) (auto split: sum.splits intro: step_one tree_step.delete_node)
qed (auto simp: update_conversation_title_def update_conversation_model_def update_conversation_multi_agent_mode_def Let_def
       intro: steps_update_both steps_user_turn steps_assistant_turn)

definition chat_step :: "db \<Rightarrow> db \<Rightarrow> bool" where
  "chat_step d d' = (tree_step d d' \<or> manager_step d d')"

lemma chat_steps_tree_steps: "chat_step\<^sup>*\<^sup>* d d' \<Longrightarrow> tree_steps d d'"
  by (induction rule: rtranclp_induct) (auto simp: chat_step_def dest: manager_step_steps)

end
