(* ===== verification/ChatProps.thy ===== *)
theory ChatProps
  imports ChatDelete ChatSteps
begin

text \<open>
  Properties of conversations: the tree in the database, loading it, deleting nodes in memory and
  in the database, and what a conversation forgets when it is loaded again.
\<close>

section \<open>A small database\<close>

definition plain_settings :: conversation_settings where
  "plain_settings =
     \<lparr>cs_provider_id = None, cs_model_id = None, cs_workspace = PNone, cs_reasoning_effort = None,
      cs_thinking_enabled = None, cs_multi_agent_mode = None\<rparr>"

definition plain_fields :: node_fields where
  "plain_fields =
     \<lparr>nf_status = None, nf_model_id = None, nf_provider_id = None, nf_tool_permission_mode = None,
      nf_task_context_mode = None, nf_turn_usage = PNone, nf_branch_usage = PNone, nf_active_context_usage = PNone\<rparr>"

definition plain_node :: "int \<Rightarrow> string \<Rightarrow> string option \<Rightarrow> int \<Rightarrow> db \<Rightarrow> db" where
  "plain_node now i p order d = snd (repo_create_node [] now ''c'' p order (Some i) True plain_fields d)"

text \<open>The root \<open>r\<close> has the children \<open>a\<close> and \<open>e\<close>, and \<open>a\<close> the child \<open>b\<close>, where the user is.\<close>

definition demo_tree :: db where
  "demo_tree =
     plain_node 5 ''b'' (Some ''a'') 0 (plain_node 4 ''e'' (Some ''r'') 1 (plain_node 3 ''a'' (Some ''r'') 0
       (plain_node 2 ''r'' None 0 (snd (repo_create_conversation [] 1 ''t'' (Some ''c'') plain_settings db_empty)))))"

lemma demo_tree_reachable: "chat_step\<^sup>*\<^sup>* db_empty demo_tree"
proof -
  have node: "chat_step d (plain_node now i p order d)" for now i p order d
    unfolding plain_node_def chat_step_def by (intro disjI1 tree_step.create_node)
  have "chat_step db_empty (snd (repo_create_conversation [] 1 ''t'' (Some ''c'') plain_settings db_empty))"
    unfolding chat_step_def by (intro disjI1 tree_step.create_conversation)
  then show ?thesis unfolding demo_tree_def
    by (meson node rtranclp.rtrancl_into_rtrancl rtranclp.rtrancl_refl)
qed

lemma demo_tree_keys:
  "map (\<lambda>n. (nd_id n, nd_parent_id n)) (nodes demo_tree) =
     [(''r'', None), (''a'', Some ''r''), (''e'', Some ''r''), (''b'', Some ''a'')]"
  by code_simp

lemma demo_tree_ok: "tree_ok demo_tree" "plain_ids demo_tree"
  by code_simp+

lemma demo_tree_rows: "node_row_of demo_tree ''c'' ''a'' \<noteq> None" "node_row_of demo_tree ''c'' ''b'' \<noteq> None"
  by code_simp+

section \<open>The tree\<close>

text \<open>
  C26: In every database that the operations of the repository and of the manager can produce, with
  any arguments and any errors on the way, the nodes form one tree per conversation: keys are
  unique, every parent is a node of the same conversation one level above, and the root of a
  conversation is its only node without parent.
\<close>

theorem chat_trees_well_formed:
  assumes "chat_step\<^sup>*\<^sup>* db_empty d"
  shows "tree_ok d"
  using tree_steps_ok [OF chat_steps_tree_steps [OF assms] tree_ok_empty] .

theorem chat_trees_well_formed_witness:
  "tree_ok demo_tree \<and>
   map (\<lambda>n. (nd_id n, nd_parent_id n)) (nodes demo_tree) =
     [(''r'', None), (''a'', Some ''r''), (''e'', Some ''r''), (''b'', Some ''a'')]"
  using chat_trees_well_formed [OF demo_tree_reachable] demo_tree_keys by blast

text \<open>
  C27: Loading a conversation always returns, with the conversation, with \<open>None\<close> or with an
  exception: the walks up the parents that loading makes end.  On a loaded conversation the
  chain of every node, existing or not, is found too.
\<close>

theorem loading_terminates:
  assumes "chat_step\<^sup>*\<^sup>* db_empty d" and "plain_ids d"
  shows "(\<exists>r. get_conversation d c = Some r) \<and>
    (get_conversation d c = Some (Inr (Some cn)) \<longrightarrow> (\<exists>chain. get_node_chain cn nid = Some chain))"
proof -
  have ok: "tree_ok d" by (rule tree_steps_ok [OF chat_steps_tree_steps [OF assms(1)] tree_ok_empty])
  have "get_conversation d c = Some (Inr (Some cn)) \<Longrightarrow> get_node_chain cn nid \<noteq> None"
  proof -
    assume "get_conversation d c = Some (Inr (Some cn))"
    then obtain r where "node_matches d c (cn_nodes cn)" using get_conversation_Some [OF ok assms(2)] by blast
    then show ?thesis using chain_up_returns [OF ranked_matches [OF ok]] by (auto simp: get_node_chain_def Let_def)
  qed
  then show ?thesis using get_conversation_returns [OF ok] by blast
qed

theorem loading_terminates_witness:
  "(\<exists>r. get_conversation demo_tree ''c'' = Some r) \<and>
   (\<exists>r. get_conversation demo_tree ''x'' = Some r)"
  using loading_terminates [OF demo_tree_reachable demo_tree_ok(2)] by blast

section \<open>Deleting a node\<close>

lemma descendants_present:
  "n \<in> set ns \<Longrightarrow> j \<in> descendants ns (nd_id n) \<Longrightarrow> j \<in> nd_id ` set ns"
  by (erule descendants.cases) auto

lemma gone_nodes:
  assumes "distinct (map nd_id (nodes d))" and "node_row_of d c i = Some r"
  shows "nd_id ` set (nodes d) - nd_id ` set (filter (\<lambda>n. nd_id n \<notin> descendants (nodes d) i) (nodes d)) =
    descendants (nodes d) i"
  using node_row_of_SomeD [OF assms(2)] descendants_present [of r "nodes d"] by fastforce

lemma repo_delete_node_eq:
  assumes "tree_ok d" and "node_row_of d c i = Some r"
  shows "snd (repo_delete_node now c i nc d) =
    snd (reclaim_blobs (delete_node_references (descendants (nodes d) i)
      (d\<lparr>conversation_rows := map (without_root c i nc now) (conversation_rows d),
         nodes := filter (\<lambda>n. nd_id n \<notin> descendants (nodes d) i) (nodes d)\<rparr>)))"
proof -
  note r = node_row_of_SomeD [OF assms(2)] and dist = tree_okD(2) [OF assms(1)]
  have rows: "update_rows (\<lambda>r. cv_id r = c)
        (\<lambda>r. r\<lparr>cv_current_node_id := nc, cv_root_node_id := (if cv_root_node_id r = Some i then None else cv_root_node_id r),
               cv_updated_at := now\<rparr>) (conversation_rows d) = map (without_root c i nc now) (conversation_rows d)"
    by (simp add: update_rows_def without_root_def)
  have kept: "remove_descendants [i] (delete_rows (\<lambda>r. nd_conversation_id r = c \<and> nd_id r = i) (nodes d)) =
      filter (\<lambda>n. nd_id n \<notin> descendants (nodes d) i) (nodes d)"
    using kept_nodes [OF dist, of r c i] r by blast
  show ?thesis
    using assms(2) unfolding repo_delete_node_def rows delete_node_rows_def Let_def
    by (simp add: kept gone_nodes [OF dist assms(2)] del: set_filter)
qed

lemma referenced_after_reclaim: "is_referenced (snd (reclaim_blobs d)) i = is_referenced d i"
  by (simp add: is_referenced_def reclaim_blobs_def Let_def)

lemma blobs_after_reclaim: "b \<in> set (blobs (snd (reclaim_blobs d))) \<Longrightarrow> is_referenced (snd (reclaim_blobs d)) (bl_id b)"
  unfolding referenced_after_reclaim by (simp add: reclaim_blobs_def Let_def)

text \<open>
  C28: Deleting a node deletes the rows of exactly the node and its descendants, the messages and
  tool calls on them, and the tool results on them or of their calls; all other rows of these
  tables stay, in their order, and no blob stays that nothing refers to.
\<close>

theorem delete_node_removes_subtree:
  fixes d :: db and now :: int and nc :: "string option"
  assumes "tree_ok d" and "node_row_of d c i \<noteq> None"
  defines "D \<equiv> descendants (nodes d) i" and "d' \<equiv> snd (repo_delete_node now c i nc d)"
  shows "nodes d' = filter (\<lambda>n. nd_id n \<notin> D) (nodes d) \<and>
    message_rows d' = filter (\<lambda>m. mg_node_id m \<notin> Some ` D) (message_rows d) \<and>
    map tl_id (tool_call_rows d') = map tl_id (filter (\<lambda>t. tl_node_id t \<notin> Some ` D) (tool_call_rows d)) \<and>
    tool_result_rows d' = filter (\<lambda>z. tz_node_id z \<notin> Some ` D \<and>
      opt_ok (\<lambda>k. (tz_conversation_id z, k) \<notin>
         (\<lambda>t. (tl_conversation_id t, tl_id t)) ` set (filter (\<lambda>t. tl_node_id t \<in> Some ` D) (tool_call_rows d)))
        (tz_tool_call_id z))
      (tool_result_rows d) \<and>
    list_all (\<lambda>b. is_referenced d' (bl_id b)) (blobs d')"
proof -
  obtain r where r: "node_row_of d c i = Some r" using assms(2) by blast
  note eq = repo_delete_node_eq [OF assms(1) r, of now nc]
  have "list_all (\<lambda>b. is_referenced d' (bl_id b)) (blobs d')"
    unfolding d'_def eq list_all_iff using blobs_after_reclaim by blast
  then show ?thesis
    unfolding d'_def eq D_def
    by (auto simp: reclaim_blobs_def delete_node_references_def Let_def delete_rows_def select_def comp_def opt_ok_def
          split: option.split intro!: filter_cong)
qed

theorem delete_node_removes_subtree_witness:
  "map nd_id (nodes (snd (repo_delete_node 9 ''c'' ''a'' (Some ''r'') demo_tree))) = [''r'', ''e''] \<and>
   nodes (snd (repo_delete_node 9 ''c'' ''a'' (Some ''r'') demo_tree)) =
     filter (\<lambda>n. nd_id n \<notin> descendants (nodes demo_tree) ''a'') (nodes demo_tree)"
proof
  show "map nd_id (nodes (snd (repo_delete_node 9 ''c'' ''a'' (Some ''r'') demo_tree))) = [''r'', ''e'']"
    by code_simp
  show "nodes (snd (repo_delete_node 9 ''c'' ''a'' (Some ''r'') demo_tree)) =
     filter (\<lambda>n. nd_id n \<notin> descendants (nodes demo_tree) ''a'') (nodes demo_tree)"
    using delete_node_removes_subtree [OF demo_tree_ok(1) demo_tree_rows(1)] by blast
qed


lemma plain_ids_delete: "tree_ok d \<Longrightarrow> plain_ids d \<Longrightarrow> plain_ids (snd (repo_delete_node now c i nc d))"
  using repo_delete_node_tables(1) [OF tree_okD(2), of d c i now nc]
  by (cases "node_row_of d c i") (auto simp: plain_ids_def list_all_iff repo_delete_node_absent)

lemma shapes_agree:
  assumes ok: "tree_ok d" and a: "node_matches d c ns" and b: "node_matches d c ns'"
  shows "map_of (shape ns) = map_of (shape ns')"
proof
  have half: "map_of (shape ns') j = Some x"
    if a: "node_matches d c ns" and b: "node_matches d c ns'" and x: "map_of (shape ns) j = Some x" for ns ns' j x
  proof -
    obtain n where n: "map_of ns j = Some n" "x = (tn_parent_id n, tn_children_ids n)"
      using x unfolding map_of_shape by auto
    obtain r where r: "r \<in> set (nodes d)" "nd_conversation_id r = c" "nd_id r = j" "tn_parent_id n = parent_field r"
      "tn_children_ids n = child_ids (nodes_in_order d c) j" using node_matches_row [OF a n(1)] .
    then obtain n' where n': "map_of ns' j = Some n'" using node_matches_node [OF b r(1,2)] by auto
    obtain r' where r': "r' \<in> set (nodes d)" "nd_conversation_id r' = c" "nd_id r' = j" "tn_parent_id n' = parent_field r'"
      "tn_children_ids n' = child_ids (nodes_in_order d c) j" using node_matches_row [OF b n'] .
    have "r' = r" using same_node [OF ok r'(1) r(1)] r'(3) r(3) by simp
    then show ?thesis unfolding map_of_shape using n n' r(4,5) r'(4,5) by simp
  qed
  fix j show "map_of (shape ns) j = map_of (shape ns') j"
    using half [OF a b, of j] half [OF b a, of j]
    by (cases "map_of (shape ns) j"; cases "map_of (shape ns') j") auto
qed

text \<open>
  C29: The tree that \<open>del_node\<close> leaves in memory is the tree that loading the conversation
  gives after \<open>delete_node\<close>: the same nodes, each with the same parent and the same children in
  the same order.
\<close>

theorem deletion_in_memory_and_database_agree:
  assumes "tree_ok d" and "plain_ids d" and "get_conversation d c = Some (Inr (Some cn))"
    and "del_node limit now i cn = Inr cn'"
    and "delete_node limit now c i d = Some (Inr (Some rep), d')"
    and "get_conversation d' c = Some (Inr (Some again))"
  shows "map_of (shape (cn_nodes again)) = map_of (shape (cn_nodes cn'))"
proof -
  have d': "d' = snd (repo_delete_node now c i (cn_current_node_id cn') d)"
    using delete_node_Inr [OF assms(3,5)] assms(4) by auto
  obtain r where m: "node_matches d c (cn_nodes cn)" using get_conversation_Some [OF assms(1-3)] by blast
  have ok': "tree_ok d'" unfolding d' by (rule tree_ok_delete_node [OF assms(1)])
  have ids': "plain_ids d'" unfolding d' by (rule plain_ids_delete [OF assms(1,2)])
  obtain r' where "node_matches d' c (cn_nodes again)" using get_conversation_Some [OF ok' ids' assms(6)] by blast
  moreover have "node_matches d' c (cn_nodes cn')"
    unfolding d' by (rule del_node_matches [OF assms(1,2) m assms(4)])
  ultimately show ?thesis by (rule shapes_agree [OF ok'])
qed

text \<open>The demo conversation, loaded, and what deleting the node \<open>a\<close> leaves of it.\<close>

definition loaded :: "db \<Rightarrow> string \<Rightarrow> conversation" where
  "loaded d c = (case get_conversation d c of Some (Inr (Some cn)) \<Rightarrow> cn | _ \<Rightarrow> conversation_init [] 0 [] [] None)"

definition is_loaded :: "db \<Rightarrow> string \<Rightarrow> bool" where
  "is_loaded d c = (case get_conversation d c of Some (Inr (Some cn)) \<Rightarrow> True | _ \<Rightarrow> False)"

lemma is_loaded: "is_loaded d c \<Longrightarrow> get_conversation d c = Some (Inr (Some (loaded d c)))"
  by (auto simp: is_loaded_def loaded_def split: option.splits sum.splits)

definition deleted_in_memory :: "string \<Rightarrow> conversation" where
  "deleted_in_memory i =
     (case del_node 10 9 i (loaded demo_tree ''c'') of Inr cn \<Rightarrow> cn | Inl _ \<Rightarrow> conversation_init [] 0 [] [] None)"

definition deletes :: "string \<Rightarrow> bool" where
  "deletes i =
     (case (del_node 10 9 i (loaded demo_tree ''c''), delete_node 10 9 ''c'' i demo_tree) of
        (Inr _, Some (Inr (Some _), _)) \<Rightarrow> True | _ \<Rightarrow> False)"

definition demo_deleted :: "string \<Rightarrow> deleted_node \<times> db" where
  "demo_deleted i =
     (case delete_node 10 9 ''c'' i demo_tree of
        Some (Inr (Some rep), d) \<Rightarrow> (rep, d)
      | _ \<Rightarrow> (\<lparr>dn_deleted_node_id = [], dn_new_current_node_id = None, dn_parent_node_id = None\<rparr>, db_empty))"

lemma deletes:
  assumes "deletes i"
  shows "del_node 10 9 i (loaded demo_tree ''c'') = Inr (deleted_in_memory i)"
    and "delete_node 10 9 ''c'' i demo_tree = Some (Inr (Some (fst (demo_deleted i))), snd (demo_deleted i))"
  using assms unfolding deletes_def deleted_in_memory_def demo_deleted_def
  by (auto split: option.splits sum.splits prod.splits)

lemma demo_facts: "is_loaded demo_tree ''c''" "deletes ''a''" "deletes ''r''" "is_loaded (snd (demo_deleted ''a'')) ''c''"
  by code_simp+

theorem deletion_in_memory_and_database_agree_witness:
  "map_of (shape (cn_nodes (loaded (snd (demo_deleted ''a'')) ''c''))) =
   map_of (shape (cn_nodes (deleted_in_memory ''a''))) \<and>
   shape (cn_nodes (deleted_in_memory ''a'')) = [(''r'', Some ''None'', [''e'']), (''e'', Some ''r'', [])]"
proof
  show "map_of (shape (cn_nodes (loaded (snd (demo_deleted ''a'')) ''c''))) =
      map_of (shape (cn_nodes (deleted_in_memory ''a'')))"
    by (rule deletion_in_memory_and_database_agree [OF demo_tree_ok is_loaded [OF demo_facts(1)] deletes [OF demo_facts(2)]
          is_loaded [OF demo_facts(4)]])
  show "shape (cn_nodes (deleted_in_memory ''a'')) = [(''r'', Some ''None'', [''e'']), (''e'', Some ''r'', [])]"
    by code_simp
qed

text \<open>
  C30: Deleting a proper ancestor of the current node deletes the current node, but memory, the
  answer and the database go on naming it: the row of the conversation points to a node that is
  gone, and the next load falls back to the root instead of the parent of the deleted node.
\<close>

theorem deleting_ancestor_loses_current:
  assumes "tree_ok d" and "plain_ids d" and "get_conversation d c = Some (Inr (Some cn))"
    and "cn_current_node_id cn = Some cur" and "cur \<noteq> i" and "node_row_of d c i \<noteq> None"
    and "cur \<in> descendants (nodes d) i"
    and "delete_node limit now c i d = Some (Inr (Some rep), d')"
    and "get_conversation d' c = Some (Inr (Some again))"
  shows "dn_new_current_node_id rep = Some cur \<and> node_row_of d' c cur = None \<and>
    map_option cv_current_node_id (conversation_row_of d' c) = Some (Some cur) \<and>
    cn_current_node_id again = cn_root_node_id again"
proof -
  obtain cn' where del: "del_node limit now i cn = Inr cn'" and rep: "dn_new_current_node_id rep = cn_current_node_id cn'"
    and d': "d' = snd (repo_delete_node now c i (cn_current_node_id cn') d)"
    using delete_node_Inr [OF assms(3,8)] .
  have cur: "cn_current_node_id cn' = Some cur"
    using del assms(4,5) by (auto simp: del_node_def Let_def touch_def bind_result_eq_Inr split: option.splits)
  note T = repo_delete_node_tables [OF tree_okD(2) [OF assms(1)] assms(6), of now "Some cur"]
  have gone: "node_row_of d' c cur = None"
    unfolding node_row_of_None d' cur T(1) using assms(7) by auto
  have ok': "tree_ok d'" unfolding d' by (rule tree_ok_delete_node [OF assms(1)])
  have ids': "plain_ids d'" unfolding d' by (rule plain_ids_delete [OF assms(1,2)])
  obtain r where r: "conversation_row_of d' c = Some r" "cn_root_node_id again = cv_root_node_id r"
    and reset: "cv_current_node_id r = Some cur \<Longrightarrow> node_row_of d' c cur = None \<Longrightarrow>
      cn_current_node_id again = cv_root_node_id r"
    using get_conversation_Some [OF ok' ids' assms(9), where x = cur] by metis
  obtain r0 where "r0 \<in> set (conversation_rows d)" "r = without_root c i (Some cur) now r0"
    using conversation_row_of_SomeD [OF r(1)] T(2) unfolding d' cur by auto
  then have "cv_current_node_id r = Some cur"
    using conversation_row_of_SomeD [OF r(1)] by (auto simp: without_root_def split: if_splits)
  then show ?thesis using rep cur gone r reset by simp
qed

lemma demo_current: "cn_current_node_id (loaded demo_tree ''c'') = Some ''b''"
  by code_simp

lemma demo_below: "''b'' \<in> descendants (nodes demo_tree) ''a''"
proof -
  have "(''b'', Some ''a'') \<in> (\<lambda>n. (nd_id n, nd_parent_id n)) ` set (nodes demo_tree)"
    using arg_cong [OF demo_tree_keys, of set] by simp
  then obtain n where "n \<in> set (nodes demo_tree)" "nd_parent_id n = Some ''a''" "nd_id n = ''b''" by auto
  then show ?thesis using descendants.child [OF _ _ descendants.self] by metis
qed

theorem deleting_ancestor_loses_current_witness:
  "dn_new_current_node_id (fst (demo_deleted ''a'')) = Some ''b'' \<and>
   node_row_of (snd (demo_deleted ''a'')) ''c'' ''b'' = None \<and>
   map_option cv_current_node_id (conversation_row_of (snd (demo_deleted ''a'')) ''c'') = Some (Some ''b'') \<and>
   cn_current_node_id (loaded (snd (demo_deleted ''a'')) ''c'') = cn_root_node_id (loaded (snd (demo_deleted ''a'')) ''c'')"
  by (rule deleting_ancestor_loses_current [OF demo_tree_ok is_loaded [OF demo_facts(1)] demo_current _
        demo_tree_rows(1) demo_below deletes(2) [OF demo_facts(2)] is_loaded [OF demo_facts(4)]]) simp


lemma all_below_root:
  assumes ok: "tree_ok d" and r: "conversation_row_of d c = Some r" "cv_root_node_id r = Some i"
    and n: "n \<in> set (nodes d)" "nd_conversation_id n = c"
  shows "nd_id n \<in> descendants (nodes d) i"
  using n
proof (induction "nat (nd_depth n)" arbitrary: n rule: less_induct)
  case less
  note row = conversation_row_of_SomeD [OF r(1)]
  show ?case
  proof (cases "nd_parent_id n")
    case None
    then have "nd_id n = i"
      using root_okD [OF tree_okD(5) [OF ok], of r n] row less.prems r(2) by simp
    then show ?thesis by (simp add: descendants.self)
  next
    case (Some p)
    obtain m where m: "m \<in> set (nodes d)" "nd_id m = p" "nd_conversation_id m = nd_conversation_id n"
      "nd_depth n = nd_depth m + 1" using tree_ok_parent [OF ok less.prems(1) Some] .
    then have "nd_id m \<in> descendants (nodes d) i"
      using less.prems tree_okD(4) [OF ok m(1)] by (intro less.hyps) simp_all
    then show ?thesis using descendants.child [OF less.prems(1) Some] m(2) by simp
  qed
qed

lemma conversation_row_of_map:
  "(\<And>r. cv_id (f r) = cv_id r) \<Longrightarrow> conversation_rows d' = map f (conversation_rows d) \<Longrightarrow>
   conversation_row_of d' c = map_option f (conversation_row_of d c)"
proof -
  assume f: "\<And>r. cv_id (f r) = cv_id r" and rows: "conversation_rows d' = map f (conversation_rows d)"
  have "fetchone (select (\<lambda>r. cv_id r = c) (map f xs)) = map_option f (fetchone (select (\<lambda>r. cv_id r = c) xs))" for xs
    by (induction xs) (simp_all add: f)
  then show ?thesis unfolding conversation_row_of_def rows .
qed

text \<open>
  C31: Deleting the root of a conversation leaves a conversation that cannot be loaded any more:
  every node is gone, the row has no root, and loading raises \<open>CorruptConversationError\<close>.
\<close>

theorem deleting_root_makes_unloadable:
  assumes "tree_ok d" and "conversation_row_of d c = Some r" and "cv_root_node_id r = Some i"
    and "get_conversation d c = Some (Inr (Some cn))"
    and "delete_node limit now c i d = Some (Inr (Some rep), d')"
  shows "get_conversation d' c = Some (Inl CorruptConversationError)"
proof -
  obtain nc where d': "d' = snd (repo_delete_node now c i nc d)" using delete_node_Inr [OF assms(4,5)] by metis
  note row = conversation_row_of_SomeD [OF assms(2)]
  obtain n where n: "n \<in> set (nodes d)" "nd_id n = i" "nd_conversation_id n = c"
    using root_row [OF tree_okD(5) [OF assms(1)] assms(3)] row by metis
  then have "node_row_of d c i \<noteq> None" by (auto simp: node_row_of_None)
  note T = repo_delete_node_tables [OF tree_okD(2) [OF assms(1)] this, of now nc]
  have "set (nodes_in_order d' c) = {}"
    using all_below_root [OF assms(1-3)] by (auto simp: d' T(1))
  then have "nodes_in_order d' c = []" by (simp only: set_empty)
  then have nodes: "repo_list_nodes d' c = Inr []" by (simp add: repo_list_nodes_def)
  have "conversation_row_of d' c = map_option (without_root c i nc now) (conversation_row_of d c)"
    by (rule conversation_row_of_map [OF _ T(2) [folded d']]) (simp add: without_root_def)
  then have r': "repo_get_conversation d' c = Inr (without_root c i nc now r)"
    unfolding repo_get_conversation_def assms(2) by simp
  show ?thesis
    using row assms(3) nodes unfolding get_conversation_def r' conversation_from_repository_def
    by (simp add: without_root_def conversation_from_dict_def row_metadata_def Let_def)
qed

definition demo_row :: conversation_row where
  "demo_row = (case conversation_row_of demo_tree ''c'' of Some r \<Rightarrow> r | None \<Rightarrow> plain_conversation [] 0)"

lemma demo_row: "conversation_row_of demo_tree ''c'' = Some demo_row" "cv_root_node_id demo_row = Some ''r''"
proof -
  have "conversation_row_of demo_tree ''c'' \<noteq> None" by code_simp
  then show "conversation_row_of demo_tree ''c'' = Some demo_row"
    by (auto simp: demo_row_def)
  show "cv_root_node_id demo_row = Some ''r''" by code_simp
qed

theorem deleting_root_makes_unloadable_witness:
  "get_conversation (snd (demo_deleted ''r'')) ''c'' = Some (Inl CorruptConversationError)"
  by (rule deleting_root_makes_unloadable [OF demo_tree_ok(1) demo_row is_loaded [OF demo_facts(1)]
        deletes(2) [OF demo_facts(3)]])

section \<open>What is not stored\<close>

lemma new_conversation_prompt:
  "map_of (cn_metadata (new_conversation uuid ru now t ws mode conf)) ''selected_system_prompt'' = None"
  by (simp add: new_conversation_def Let_def conversation_init_def initialize_with_system_message_def
        add_node_def touch_def clear_def)

lemma answer_of_Inr: "(case a of Inl e \<Rightarrow> (Inl e, x) | Inr _ \<Rightarrow> (Inr y, z)) = (Inr cn, s') \<Longrightarrow> cn = y"
  by (cases a) simp_all

text \<open>
  A conversation created with a system prompt carries it in memory, but no conversation that
  is loaded from a database has one: the prompt is in no column.  Since each turn loads the
  conversation again, the chosen prompt never takes effect.
\<close>

theorem selected_prompt_is_not_stored:
  assumes "create_conversation uuid ru now t (Some pid) pm (Some found) ws mode conf s = Some (Inr cn, s')"
    and "pid \<noteq> []" and "found \<noteq> []"
    and "get_conversation d c = Some (Inr (Some cn'))"
  shows "dget (cn_metadata cn) ''selected_system_prompt'' \<noteq> PNone \<and>
    dget (cn_metadata cn') ''selected_system_prompt'' = PNone"
proof
  let ?cn = "new_conversation uuid ru now t ws mode conf"
  have "cn_metadata cn = cn_metadata ?cn @ selected_prompt (Some pid) pm (Some found)"
    using assms(1) unfolding create_conversation_def Let_def
    by (auto simp: split_def dest!: answer_of_Inr)
  then show "dget (cn_metadata cn) ''selected_system_prompt'' \<noteq> PNone"
    using assms(2,3) new_conversation_prompt [of uuid ru now t ws mode conf]
    by (simp add: dget_def selected_prompt_def map_add_def)
  obtain r ns where "repo_list_nodes d (cv_id r) = Inr ns"
    and "conversation_from_dict \<lparr>td_metadata = row_metadata r, td_nodes = ns, td_root_node_id = cv_root_node_id r,
             td_current_node_id = cv_current_node_id r\<rparr> = Some (Inr cn')"
    using assms(4) by (auto simp: get_conversation_def conversation_from_repository_def map_result_eq_Inr
        split: sum.splits)
  then have "cn_metadata cn' = row_metadata r"
    by (auto simp: conversation_from_dict_def Let_def split: pyval.splits if_splits prod.splits option.splits sum.splits)
  then show "dget (cn_metadata cn') ''selected_system_prompt'' = PNone" by (simp add: row_metadata_def)
qed

definition prompted :: "conversation result \<times> chat_state" where
  "prompted =
     (case create_conversation ''u'' ''r'' 1 ''t'' (Some ''p'') ''append'' (Some ''Be brief.'') [] None PNone
             \<lparr>cm_db = db_empty, cm_current = None\<rparr> of
        Some q \<Rightarrow> q | None \<Rightarrow> (Inl TypeError, \<lparr>cm_db = db_empty, cm_current = None\<rparr>))"

definition prompted_conversation :: conversation where
  "prompted_conversation = (case fst prompted of Inr cn \<Rightarrow> cn | Inl _ \<Rightarrow> conversation_init [] 0 [] [] None)"

lemma prompted:
  "create_conversation ''u'' ''r'' 1 ''t'' (Some ''p'') ''append'' (Some ''Be brief.'') [] None PNone
     \<lparr>cm_db = db_empty, cm_current = None\<rparr> = Some (Inr prompted_conversation, snd prompted)"
proof -
  have "(case create_conversation ''u'' ''r'' 1 ''t'' (Some ''p'') ''append'' (Some ''Be brief.'') [] None PNone
     \<lparr>cm_db = db_empty, cm_current = None\<rparr> of Some (Inr _, _) \<Rightarrow> True | _ \<Rightarrow> False)" by code_simp
  then show ?thesis unfolding prompted_conversation_def prompted_def
    by (auto split: option.splits sum.splits prod.splits)
qed

lemma prompted_loaded: "is_loaded (cm_db (snd prompted)) ''u''"
  by code_simp

theorem selected_prompt_is_not_stored_witness:
  "dget (cn_metadata prompted_conversation) ''selected_system_prompt'' \<noteq> PNone \<and>
   dget (cn_metadata (loaded (cm_db (snd prompted)) ''u'')) ''selected_system_prompt'' = PNone"
  by (rule selected_prompt_is_not_stored [OF prompted _ _ is_loaded [OF prompted_loaded]]) simp_all

end
