(* ===== verification/ToolProps.thy ===== *)
theory ToolProps
  imports ToolFormat
begin

text \<open>
  Properties of tool results: the budget of a round, and reading a stored result in slices.
\<close>

section \<open>The budget of a round\<close>

lemma dget_dict_set [simp]: "dget (dict_set k v d) k' = (if k' = k then v else dget d k')"
  by (simp add: dget_def)

lemma dget_dict_pop [simp]: "dget (dict_pop k d) k' = (if k' = k then PNone else dget d k')"
  by (simp add: dget_def)

lemma summary_same_id:
  "py_true (dget m ''tool_result_id'') \<Longrightarrow> dget m' ''tool_result_id'' = dget m ''tool_result_id'' \<Longrightarrow>
   summarize_persisted_tool_result m' = summarize_persisted_tool_result m"
  by (simp add: summarize_persisted_tool_result_def)

lemma summary_shorten [simp]:
  "py_true (dget m ''tool_result_id'') \<Longrightarrow> summarize_persisted_tool_result (shorten m) = summarize_persisted_tool_result m"
  by (erule summary_same_id) (simp add: shorten_def Let_def)

lemma summary_nonempty: "py_true (dget m ''tool_result_id'') \<Longrightarrow> summarize_persisted_tool_result m \<noteq> []"
  by (simp add: summarize_persisted_tool_result_def join_def)

lemma summary_raw [simp]:
  "summarize_persisted_tool_result (dict_set ''raw_content'' v m) = summarize_persisted_tool_result m"
  by (simp add: summarize_persisted_tool_result_def)

lemma visible_shorten:
  assumes "py_true (dget m ''tool_result_id'')"
  shows "visible_text (shorten m) = summarize_persisted_tool_result m"
  using summary_nonempty [OF assms] by (simp add: shorten_def Let_def visible_text_def)

lemma longest_Some:
  assumes "longest ms = Some i" shows "i < length ms \<and> shortenable (ms ! i)"
proof -
  let ?c = "filter (\<lambda>(n, i). shortenable (ms ! i)) (map (\<lambda>i. (length (visible_text (ms ! i)), i)) [0..<length ms])"
  obtain c cs where c: "?c = c # cs" "i = snd (fold max cs c)"
    using assms by (auto simp: longest_def Let_def split: list.splits)
  have "fold max cs c \<in> set (c # cs)" for c :: "nat \<times> nat" and cs
    by (induction cs arbitrary: c) (auto simp: max_def)
  then have "fold max cs c \<in> set ?c" unfolding c(1) by blast
  then show ?thesis using c(2) by auto
qed

lemma longest_None:
  assumes "longest ms = None" and "m \<in> set ms" shows "\<not> shortenable m"
proof -
  obtain i where "i < length ms" "m = ms ! i" using assms(2) by (metis in_set_conv_nth)
  moreover have "filter (\<lambda>(n, i). shortenable (ms ! i)) (map (\<lambda>i. (length (visible_text (ms ! i)), i)) [0..<length ms]) = []"
    using assms(1) by (auto simp: longest_def Let_def split: list.splits)
  ultimately show ?thesis by (auto simp: filter_empty_conv)
qed

text \<open>Shortening one candidate makes the round shorter, so the loop never stops early.\<close>

lemma visible_total_update:
  "i < length ms \<Longrightarrow> length (visible_text m) < length (visible_text (ms ! i)) \<Longrightarrow>
   visible_total (ms[i := m]) < visible_total ms"
proof -
  assume i: "i < length ms" and less: "length (visible_text m) < length (visible_text (ms ! i))"
  have "ms = take i ms @ ms ! i # drop (Suc i) ms" using i by (rule id_take_nth_drop)
  then have a: "visible_total ms = visible_total (take i ms) + length (visible_text (ms ! i)) + visible_total (drop (Suc i) ms)"
    by (metis (no_types, lifting) add.assoc comp_apply list.map(2) map_append sum_list.Cons sum_list_append visible_total_def)
  have "visible_total (ms[i := m]) = visible_total (take i ms) + length (visible_text m) + visible_total (drop (Suc i) ms)"
    using i by (simp add: upd_conv_take_nth_drop visible_total_def)
  with a less show ?thesis by simp
qed

lemma longest_longest:
  assumes "longest ms = Some i" and "j < length ms" and "shortenable (ms ! j)"
  shows "length (visible_text (ms ! j)) \<le> length (visible_text (ms ! i))"
proof -
  let ?l = "\<lambda>i. length (visible_text (ms ! i))"
  let ?c = "filter (\<lambda>(n, i). shortenable (ms ! i)) (map (\<lambda>i. (?l i, i)) [0..<length ms])"
  obtain c cs where c: "?c = c # cs" "i = snd (fold max cs c)"
    using assms(1) by (auto simp: longest_def Let_def split: list.splits)
  have top: "fold max cs c = Max (set ?c)" unfolding c(1) by (rule Max.set_eq_fold [symmetric])
  have "Max (set (c # cs)) \<in> set (c # cs)" by (rule Max_in) simp_all
  then have "fold max cs c \<in> set ?c" unfolding top unfolding c(1) .
  then have "fold max cs c = (?l i, i)" using c(2) by auto
  moreover have "(?l j, j) \<in> set ?c" using assms(2,3) by auto
  then have "(?l j, j) \<le> fold max cs c" unfolding top by (rule Max_ge [OF finite_set])
  ultimately show ?thesis by (auto simp: less_eq_prod_def)
qed

text \<open>A result that is replaced by its pointer, and keeps what was shown as its raw content.\<close>

definition pointed :: "message \<Rightarrow> message" where
  "pointed m =
     (let s = PStr (summarize_persisted_tool_result m) in
      dict_set ''model_visible_content'' s (dict_set ''content'' s
        (if ''raw_content'' \<in> fst ` set m then m else dict_set ''raw_content'' (PStr (visible_text m)) m)))"

abbreviation unmarked :: "message \<Rightarrow> message" where
  "unmarked m \<equiv> dict_pop ''_round_budget_shortened'' m"

lemma shorten_pointed: "shorten m = dict_set ''_round_budget_shortened'' (PBool True) (pointed m)"
  by (simp add: shorten_def pointed_def Let_def)

lemma visible_pop [simp]:
  "visible_text (unmarked m) = visible_text m"
  "summarize_persisted_tool_result (unmarked m) = summarize_persisted_tool_result m"
  by (simp_all add: visible_text_def summarize_persisted_tool_result_def)

lemma visible_total_pop [simp]: "visible_total (map (dict_pop ''_round_budget_shortened'') ms) = visible_total ms"
  by (simp add: visible_total_def comp_def)

lemma visible_pointed: "py_true (dget m ''tool_result_id'') \<Longrightarrow> visible_text (pointed m) = summarize_persisted_tool_result m"
  using summary_nonempty [of m] by (simp add: pointed_def Let_def visible_text_def)

lemma unmarked_shorten: "unmarked (shorten m) = unmarked (pointed m)"
proof -
  have "dict_pop k (dict_set k v d) = dict_pop k d" for k :: string and v :: pyval and d
    by (induction d) (auto simp: dict_pop_def)
  then show ?thesis by (simp only: shorten_pointed)
qed

text \<open>The loop replaces some of the results, longest first.\<close>

definition replaced :: "message list \<Rightarrow> message list \<Rightarrow> nat \<Rightarrow> bool" where
  "replaced ms0 ms i = (shortenable (ms0 ! i) \<and> ms ! i = shorten (ms0 ! i))"

definition shrunk :: "message list \<Rightarrow> message list \<Rightarrow> bool" where
  "shrunk ms0 ms =
     (length ms = length ms0 \<and>
      (\<forall>i < length ms0. ms ! i = ms0 ! i \<or> replaced ms0 ms i) \<and>
      (\<forall>i < length ms0. \<forall>j < length ms0. replaced ms0 ms i \<longrightarrow> ms ! j = ms0 ! j \<longrightarrow> shortenable (ms0 ! j) \<longrightarrow>
         length (visible_text (ms0 ! j)) \<le> length (visible_text (ms0 ! i))))"

lemma shorten_marked: "\<not> shortenable (shorten m)"
  by (simp add: shortenable_def shorten_pointed)

lemma shrunk_same: "shrunk ms ms"
  by (auto simp: shrunk_def replaced_def) (metis shorten_marked)

lemma shrunk_step:
  assumes "shrunk ms0 ms" and "longest ms = Some i"
  shows "shrunk ms0 (ms[i := shorten (ms ! i)])"
proof -
  let ?ms = "ms[i := shorten (ms ! i)]"
  have n: "length ms = length ms0" using assms(1) by (simp add: shrunk_def)
  have i: "i < length ms" "shortenable (ms ! i)" using longest_Some [OF assms(2)] by simp_all
  have same: "ms ! i = ms0 ! i" using assms(1) i n shorten_marked by (auto simp: shrunk_def replaced_def)
  have new: "replaced ms0 ?ms i" using i n same by (simp add: replaced_def)
  have old: "replaced ms0 ?ms k \<longleftrightarrow> k = i \<or> replaced ms0 ms k" if "k < length ms0" for k
    using that new i n by (cases "k = i") (simp_all add: replaced_def)
  have kept: "?ms ! k = ms0 ! k \<Longrightarrow> k \<noteq> i \<and> ms ! k = ms0 ! k" if "k < length ms0" for k
    using that i n same shorten_marked by (cases "k = i") (auto, metis)
  have "?ms ! k = ms0 ! k \<or> replaced ms0 ?ms k" if "k < length ms0" for k
    using that assms(1) old [OF that] i n by (cases "k = i") (auto simp: shrunk_def)
  moreover have "length (visible_text (ms0 ! j)) \<le> length (visible_text (ms0 ! k))"
    if "k < length ms0" "j < length ms0" "replaced ms0 ?ms k" "?ms ! j = ms0 ! j" "shortenable (ms0 ! j)" for j k
  proof (cases "k = i")
    case True
    have "ms ! j = ms0 ! j" using kept [OF that(2,4)] by simp
    then show ?thesis using longest_longest [OF assms(2), of j] that(2,5) n same True by simp
  next
    case False
    then show ?thesis using assms(1) that old [OF that(1)] kept [OF that(2,4)] by (auto simp: shrunk_def)
  qed
  ultimately show ?thesis using n by (simp add: shrunk_def)
qed

lemma shrink_loop_result:
  assumes "shrunk ms0 ms"
  shows "visible_total (shrink_loop b ms) \<le> visible_total ms \<and> shrunk ms0 (shrink_loop b ms) \<and>
    (visible_total (shrink_loop b ms) \<le> b \<or> (\<forall>m \<in> set (shrink_loop b ms). \<not> shortenable m))"
  using assms
proof (induction b ms rule: shrink_loop.induct)
  case (1 b ms)
  show ?case
  proof (cases "visible_total ms \<le> b")
    case True
    then show ?thesis using "1.prems" by (simp add: shrink_loop.simps [of b ms])
  next
    case False
    show ?thesis
    proof (cases "longest ms")
      case None
      then show ?thesis using False "1.prems" longest_None [OF None] by (simp add: shrink_loop.simps [of b ms])
    next
      case (Some i)
      let ?ms = "ms[i := shorten (ms ! i)]"
      have i: "i < length ms" "shortenable (ms ! i)" using longest_Some [OF Some] by simp_all
      then have id': "py_true (dget (ms ! i) ''tool_result_id'')" by (simp add: shortenable_def)
      have less: "visible_total ?ms < visible_total ms"
        using i visible_shorten [OF id'] by (intro visible_total_update) (simp_all add: shortenable_def)
      show ?thesis
        using "1.IH" [OF False Some refl _ shrunk_step [OF "1.prems" Some]] False Some less
        by (auto simp: shrink_loop.simps [of b ms] Let_def)
    qed
  qed
qed

text \<open>
  C32: Applying the budget of a round to fresh messages keeps their number and order, and leaves
  each of them as it is or, if it is a stored result that is longer than its pointer, replaces
  its text by the pointer and keeps the text as the raw content.  Longer results are replaced
  before shorter ones, the texts never become longer in all, and in the end they are within the
  budget or every stored result that is longer than its pointer is replaced.
\<close>

theorem round_budget:
  assumes "0 < budget" and "list_all (\<lambda>m. dget m ''_round_budget_shortened'' = PNone) ms"
    and "out = apply_round_tool_result_budget budget ms"
  shows "length out = length ms \<and> visible_total out \<le> visible_total ms \<and>
    (\<forall>i < length ms. out ! i = unmarked (ms ! i) \<or> shortenable (ms ! i) \<and> out ! i = unmarked (pointed (ms ! i))) \<and>
    (\<forall>i < length ms. \<forall>j < length ms.
       shortenable (ms ! i) \<and> out ! i = unmarked (pointed (ms ! i)) \<and> shortenable (ms ! j) \<and> out ! j = unmarked (ms ! j) \<longrightarrow>
       length (visible_text (ms ! j)) \<le> length (visible_text (ms ! i))) \<and>
    (int (visible_total out) \<le> budget \<or>
     (\<forall>i < length ms. shortenable (ms ! i) \<longrightarrow> out ! i = unmarked (pointed (ms ! i))))"
proof -
  let ?ms = "shrink_loop (nat budget) ms"
  note R = shrink_loop_result [OF shrunk_same, of "nat budget" ms]
  then have S: "shrunk ms ?ms" by simp
  have n: "length ?ms = length ms" using S by (simp add: shrunk_def)
  have out: "out = map unmarked ?ms" using assms(1,3) by (simp add: apply_round_tool_result_budget_def)
  have each: "?ms ! i = ms ! i \<and> out ! i = unmarked (ms ! i) \<or>
      replaced ms ?ms i \<and> out ! i = unmarked (pointed (ms ! i))" if "i < length ms" for i
    using S that n by (auto simp: shrunk_def out replaced_def unmarked_shorten)
  have apart: "unmarked (ms ! i) \<noteq> unmarked (pointed (ms ! i))" if "shortenable (ms ! i)" for i
  proof
    assume "unmarked (ms ! i) = unmarked (pointed (ms ! i))"
    then have "visible_text (ms ! i) = visible_text (pointed (ms ! i))" by (metis visible_pop(1))
    then show False using that visible_pointed [of "ms ! i"] by (simp add: shortenable_def)
  qed
  have "shortenable (ms ! i) \<longrightarrow> out ! i = unmarked (pointed (ms ! i))"
    if "\<forall>m \<in> set ?ms. \<not> shortenable m" "i < length ms" for i
    using each [OF that(2)] that n by (metis nth_mem)
  moreover have "length (visible_text (ms ! j)) \<le> length (visible_text (ms ! i))"
    if "i < length ms" "j < length ms" "shortenable (ms ! i)" "out ! i = unmarked (pointed (ms ! i))"
      "shortenable (ms ! j)" "out ! j = unmarked (ms ! j)" for i j
  proof -
    have "replaced ms ?ms i" using each [OF that(1)] apart [OF that(3)] that(4) by metis
    moreover have "?ms ! j = ms ! j" using each [OF that(2)] apart [OF that(5)] that(6) by metis
    ultimately show ?thesis using S that by (simp add: shrunk_def)
  qed
  moreover have "visible_total out \<le> visible_total ms" "length out = length ms" using R n by (simp_all add: out)
  moreover have "int (visible_total out) \<le> budget \<or> (\<forall>m \<in> set ?ms. \<not> shortenable m)"
    using R assms(1) by (auto simp: out nat_le_iff)
  ultimately show ?thesis using each by (auto simp: replaced_def)
qed

definition long_result :: "nat \<Rightarrow> message" where
  "long_result n = [(''tool_result_id'', PStr ''x''), (''content'', PStr (replicate n CHR ''a''))]"

text \<open>Of two results only the longer one is replaced, which is enough for this budget.\<close>

theorem round_budget_witness:
  "apply_round_tool_result_budget 170 [long_result 90, long_result 100] =
     [long_result 90, unmarked (pointed (long_result 100))] \<and>
   map shortenable [long_result 90, long_result 100] = [True, True] \<and>
   visible_total (apply_round_tool_result_budget 170 [long_result 90, long_result 100]) \<le> 190"
proof -
  let ?ms = "[long_result 90, long_result 100]"
  have "list_all (\<lambda>m. dget m ''_round_budget_shortened'' = PNone) ?ms" by (simp add: long_result_def)
  from round_budget [OF _ this refl, of 170]
  have "visible_total (apply_round_tool_result_budget 170 ?ms) \<le> visible_total ?ms" by simp
  moreover have "visible_total ?ms = 190" by (simp add: long_result_def visible_total_def visible_text_def)
  moreover have "apply_round_tool_result_budget 170 ?ms = [long_result 90, unmarked (pointed (long_result 100))]"
    by code_simp
  moreover have "map shortenable ?ms = [True, True]" by code_simp
  ultimately show ?thesis by simp
qed

section \<open>Reading a stored result\<close>

text \<open>A stored preview that is not shorter than the output is the output.\<close>

lemma stored_preview_whole: "length s \<le> length (stored_preview ell other s) \<Longrightarrow> stored_preview ell other s = s"
proof -
  obtain p where "tool_result_preview ell other 4096 s = Some p" "length p \<le> 4096 \<or> p = s" "length s \<le> 4096 \<Longrightarrow> p = s"
    by (rule tool_result_preview_ends [of 4096 ell other s]) simp_all
  then show "length s \<le> length (stored_preview ell other s) \<Longrightarrow> stored_preview ell other s = s"
    by (auto simp: stored_preview_def)
qed

text \<open>The row of a result holds its output, in the preview or in a blob.\<close>

definition holds_output :: "codec \<Rightarrow> db \<Rightarrow> tool_result_row \<Rightarrow> string \<Rightarrow> bool" where
  "holds_output E d r output =
     (tz_output_size r = length output \<and>
      (if truthy_opt (tz_output_blob_id r) then get_text E d (or_empty (tz_output_blob_id r))
       else Inr (tz_output_preview r)) = Inr output)"

lemma existing_result_blob_text:
  "existing_result_blob E d i output = Inr (Some b) \<Longrightarrow> b \<noteq> [] \<and> get_text E d b = Inr output"
  unfolding existing_result_blob_def by (auto split: option.splits sum.splits pyerr.splits if_splits)

lemma get_text_only: "blobs d' = blobs d \<Longrightarrow> files d' = files d \<Longrightarrow> get_text E d' i = get_text E d i"
  by (simp only: get_text_def)

text \<open>An upsert leaves a row with the new output, under the key that is returned.\<close>

definition with_output :: "tool_result_row \<Rightarrow> tool_result_row \<Rightarrow> bool" where
  "with_output r x =
     (tz_output_blob_id x = tz_output_blob_id r \<and> tz_output_preview x = tz_output_preview r \<and>
      tz_output_size x = tz_output_size r)"

lemma merge_fields [simp]: "with_output r (merge_tool_result b r x)" "tz_id (merge_tool_result b r x) = tz_id x"
  "tz_conversation_id (merge_tool_result b r x) = tz_conversation_id x"
  "tz_tool_call_id (merge_tool_result False r x) = tz_tool_call_id x"
  "tz_tool_call_id (merge_tool_result True r x) = or_else (tz_tool_call_id r) (tz_tool_call_id x)"
  "with_output r r"
  by (simp_all add: with_output_def merge_tool_result_def)

definition returned_key :: "db \<Rightarrow> tool_result_row \<Rightarrow> string" where
  "returned_key d r =
     (if truthy_opt (tz_tool_call_id r)
      then (case result_of_call d (tz_conversation_id r) (or_empty (tz_tool_call_id r)) of None \<Rightarrow> tz_id r | Some x \<Rightarrow> tz_id x)
      else tz_id r)"

text \<open>If every row of the call has the output, so has the row with the returned key.\<close>

lemma returned_row:
  assumes "\<And>y k. y \<in> set (tool_result_rows d) \<Longrightarrow> tz_conversation_id y = tz_conversation_id r \<Longrightarrow>
      tz_tool_call_id r = Some k \<Longrightarrow> k \<noteq> [] \<Longrightarrow> tz_tool_call_id y = Some k \<Longrightarrow> with_output r y"
    and "(\<exists>k y. tz_tool_call_id r = Some k \<and> k \<noteq> [] \<and> y \<in> set (tool_result_rows d) \<and>
            tz_conversation_id y = tz_conversation_id r \<and> tz_tool_call_id y = Some k)
         \<or> (\<exists>y \<in> set (tool_result_rows d). tz_id y = tz_id r \<and> with_output r y)"
  shows "\<exists>y \<in> set (tool_result_rows d). tz_id y = returned_key d r \<and> with_output r y"
proof (cases "truthy_opt (tz_tool_call_id r)")
  case True
  then obtain k where k: "tz_tool_call_id r = Some k" "k \<noteq> []" by (auto simp: truthy_opt_def split: option.splits)
  show ?thesis
  proof (cases "result_of_call d (tz_conversation_id r) k")
    case None
    then have "\<not> (\<exists>y. y \<in> set (tool_result_rows d) \<and> tz_conversation_id y = tz_conversation_id r \<and> tz_tool_call_id y = Some k)"
      by (auto simp: result_of_call_def select_def filter_empty_conv)
    then have "\<exists>y \<in> set (tool_result_rows d). tz_id y = tz_id r \<and> with_output r y" using assms(2) k by auto
    then show ?thesis using k None by (simp add: returned_key_def)
  next
    case (Some x)
    then have "x \<in> set (tool_result_rows d)" "tz_conversation_id x = tz_conversation_id r" "tz_tool_call_id x = Some k"
      using fetchone_select_SomeD unfolding result_of_call_def by fastforce+
    then show ?thesis using assms(1) k Some by (auto simp: returned_key_def)
  qed
next
  case False
  then have "\<not> (\<exists>k. tz_tool_call_id r = Some k \<and> k \<noteq> [])" by (auto simp: truthy_opt_def)
  then show ?thesis using assms(2) False by (auto simp: returned_key_def)
qed

lemma upsert_result_stored:
  assumes dist: "distinct (map tz_id (tool_result_rows d))" and call: "tz_tool_call_id r \<noteq> Some []"
    and up: "upsert_tool_result r d = Inr d'"
  shows "distinct (map tz_id (tool_result_rows d'))" and "blobs d' = blobs d" and "files d' = files d"
    and "\<exists>y \<in> set (tool_result_rows d'). tz_id y = returned_key d' r \<and> with_output r y"
proof -
  let ?call = "\<lambda>x. tz_conversation_id x = tz_conversation_id r \<and> tz_tool_call_id x = tz_tool_call_id r \<and> tz_tool_call_id r \<noteq> None"
  let ?id = "\<lambda>x. tz_conversation_id x = tz_conversation_id r \<and> tz_id x = tz_id r"
  let ?key = "\<lambda>x. tz_id x = tz_id r"
  let ?t = "tool_result_rows d"
  have upd: "d' = d\<lparr>tool_result_rows := update_rows P f ?t\<rparr>" if "update_tool_results P f d = Inr d'" for P f
    using that by (auto simp: update_tool_results_def split: if_splits)
  consider
      (call) "\<exists>x \<in> set ?t. ?call x" "d' = d\<lparr>tool_result_rows := update_rows ?call (merge_tool_result False r) ?t\<rparr>"
    | (id) "\<forall>x \<in> set ?t. \<not> ?call x" "\<exists>x \<in> set ?t. ?id x"
        "d' = d\<lparr>tool_result_rows := update_rows ?id (merge_tool_result True r) ?t\<rparr>"
    | (key) "\<forall>x \<in> set ?t. \<not> ?call x" "\<forall>x \<in> set ?t. \<not> ?id x" "\<exists>x \<in> set ?t. ?key x"
        "d' = d\<lparr>tool_result_rows := update_rows ?key (merge_tool_result True r) ?t\<rparr>"
    | (new) "\<forall>x \<in> set ?t. \<not> ?call x" "\<forall>x \<in> set ?t. \<not> ?key x" "d' = d\<lparr>tool_result_rows := ?t @ [r]\<rparr>"
  proof -
    have some: "0 < rowcount P ?t \<longleftrightarrow> (\<exists>x \<in> set ?t. P x)" for P using rowcount_0_iff [of P ?t] by auto
    show thesis
      using up that upd unfolding upsert_tool_result_def Let_def some by (simp split: if_splits)
  qed
  note cases = this
  have "\<exists>t. d' = d\<lparr>tool_result_rows := t\<rparr>" using cases by cases blast+
  then show "blobs d' = blobs d" "files d' = files d" by auto
  show "distinct (map tz_id (tool_result_rows d'))"
    using cases
  proof cases
    case new
    then show ?thesis using dist by auto
  qed (simp_all add: map_update_rows_key dist)
  show "\<exists>y \<in> set (tool_result_rows d'). tz_id y = returned_key d' r \<and> with_output r y"
    using cases
  proof cases
    case call
    obtain k where k: "tz_tool_call_id r = Some k" "k \<noteq> []" using call(1) assms(2) by auto
    then show ?thesis using call by (intro returned_row) (auto simp: set_update_rows)
  next
    case id
    then obtain x where x: "x \<in> set ?t" "?id x" by blast
    have "merge_tool_result True r x \<in> set (tool_result_rows d')" using x id(3) by (simp add: set_update_rows)
    then have "\<exists>y \<in> set (tool_result_rows d'). tz_id y = tz_id r \<and> with_output r y"
      using x by (intro bexI) simp_all
    then show ?thesis using id(1,3) by (intro returned_row disjI2) (auto simp: set_update_rows)
  next
    case key
    then obtain x where x: "x \<in> set ?t" "?key x" by blast
    have "merge_tool_result True r x \<in> set (tool_result_rows d')" using x key(4) by (simp add: set_update_rows)
    then have "\<exists>y \<in> set (tool_result_rows d'). tz_id y = tz_id r \<and> with_output r y"
      using x by (intro bexI) simp_all
    then show ?thesis using key(1,2,4) by (intro returned_row disjI2) (auto simp: set_update_rows)
  next
    case new
    then show ?thesis by (intro returned_row disjI2) auto
  qed
qed

lemma stored_result_holds:
  assumes E: "codec_ok E" "blobs_ok E d" and pv: "preview = stored_preview ell other"
    and dist: "distinct (map tz_id (tool_result_rows d))" and call: "call \<noteq> Some []"
    and add: "add_tool_result E preview uuid now c nd rid call output st run md d = (Inr i, d')"
  obtains y where "fetchone (select (\<lambda>r. tz_id r = i) (tool_result_rows d')) = Some y" and "holds_output E d' y output"
proof -
  let ?key = "if truthy_opt rid then or_empty rid else uuid"
  obtain old where old: "existing_result_blob E d ?key output = Inr old"
    using add by (cases "existing_result_blob E d ?key output") (simp_all add: add_tool_result_def Let_def)
  let ?put = "if old = None \<and> length (preview output) < length output
      then map_result (\<lambda>(b, d'). (Some b, d')) (put_text E output d) else Inr (old, d)"
  obtain blob d1 where put: "?put = Inr (blob, d1)"
    using add old by (cases ?put) (auto simp: add_tool_result_def Let_def)
  have rows1: "tool_result_rows d1 = tool_result_rows d"
    using put by (auto simp: map_result_eq_Inr put_text_def Let_def split: if_splits)
  have text1: "(if truthy_opt blob then get_text E d1 (or_empty blob) else Inr (preview output)) = Inr output"
  proof (cases "old = None \<and> length (preview output) < length output")
    case True
    obtain d2 where d2: "put_text E output d = Inr (sha256 E (utf8_encode output), d2)" "blobs_ok E d2"
      "has_blob d2 (sha256 E (utf8_encode output))" using put_text_Inr [OF E] by blast
    then have "blob = Some (sha256 E (utf8_encode output))" "d1 = d2" using put True by auto
    then show ?thesis using get_text_ok [OF E(1) d2(2,3)] E(1) by (simp add: codec_ok_def)
  next
    case False
    then have b: "blob = old" "d1 = d" using put by auto
    show ?thesis
    proof (cases old)
      case None
      then have "preview output = output" using False by (simp add: pv stored_preview_whole)
      then show ?thesis using None b by simp
    next
      case (Some x)
      then show ?thesis using b old existing_result_blob_text by fastforce
    qed
  qed
  define r where r_def: "r \<equiv> (\<lambda>d. \<lparr>tz_id = ?key, tz_conversation_id = c, tz_node_id = existing_id (has_node d c) nd,
      tz_run_id = existing_id (has_run d c) run, tz_tool_call_id = call, tz_status = st,
      tz_output_preview = preview output, tz_output_blob_id = blob, tz_output_size = length output,
      tz_truncated = truthy_opt blob, tz_metadata_json = chat_json_field md, tz_created_at = now\<rparr>)"
  obtain d2 where up: "upsert_tool_result (r d1) d1 = Inr d2" and d': "d' = d2"
    and i0: "i = (if truthy_opt call then (case result_of_call d2 c (or_empty call) of None \<Rightarrow> ?key | Some x \<Rightarrow> tz_id x)
                  else ?key)"
    using add old put by (auto simp: add_tool_result_def Let_def transaction_def r_def map_result_eq_Inr
        split: sum.splits prod.splits)
  have i: "i = returned_key d2 (r d1)"
    unfolding i0 by (simp add: returned_key_def r_def cong: option.case_cong)
  have r: "tz_tool_call_id (r d1) = call" by (simp add: r_def)
  note S = upsert_result_stored [OF dist [folded rows1] _ up, unfolded r, OF call]
  obtain y where y: "y \<in> set (tool_result_rows d2)" "tz_id y = i" "with_output (r d1) y" using S(4) i by metis
  have "fetchone (select (\<lambda>x. tz_id x = i) (tool_result_rows d')) = Some y"
    unfolding d' by (rule fetchone_unique_key [OF S(1) y(1,2)])
  moreover have "holds_output E d' y output"
    using y(3) text1 get_text_only [OF S(2,3)] unfolding d' holds_output_def with_output_def
    by (cases "truthy_opt blob") (simp_all add: r_def)
  ultimately show thesis by (rule that)
qed

text \<open>A slice of a row that holds an output.\<close>

lemma slice_of_output:
  assumes "fetchone (select (\<lambda>r. tz_id r = i) (tool_result_rows d)) = Some y" and "holds_output E d y output"
    and "0 \<le> off" and "0 < lim"
  obtains p where "get_tool_result_slice E d i off lim = Inr (Some p)"
    and "dget p ''content'' = PStr (take (nat lim) (drop (nat off) output))"
    and "dget p ''total_chars'' = PInt (int (length output))"
    and "dget p ''has_more'' = PBool (nat off + length (take (nat lim) (drop (nat off) output)) < length output)"
    and "dget p ''next_offset'' = (if nat off + length (take (nat lim) (drop (nat off) output)) < length output
           then PInt (int (nat off + length (take (nat lim) (drop (nat off) output)))) else PNone)"
proof -
  obtain name md where p: "get_tool_result_slice E d i off lim =
      Inr (Some (slice_payload i name md off lim output (length output)))"
    using assms(1,2) by (auto simp: get_tool_result_slice_def Let_def holds_output_def)
  have total: "(if output = [] then length output else length output) = length output" by simp
  obtain k where k: "off = int k" using assms(3) nonneg_eq_int by blast
  define chunk where "chunk = take (nat lim) (drop k output)"
  have chunk: "take (nat lim) (drop (nat off) output) = chunk" by (simp add: chunk_def k)
  have off: "max 0 off = int k" "nat (max 0 off) = k" "nat off = k" and lim: "max 1 (if lim = 0 then 16000 else lim) = lim"
    using assms(4) k by simp_all
  show thesis
    using that [OF p] unfolding slice_payload_def Let_def off lim nat_int chunk_def [symmetric] total
    by (simp flip: of_nat_add)
qed

text \<open>
  A reader that starts at the beginning and goes on at \<open>next_offset\<close> as long as there is one.
\<close>

fun read_pages :: "nat \<Rightarrow> codec \<Rightarrow> db \<Rightarrow> string \<Rightarrow> int \<Rightarrow> int \<Rightarrow> string option" where
  "read_pages 0 E d i lim off = None"
| "read_pages (Suc n) E d i lim off =
     (case get_tool_result_slice E d i off lim of
        Inr (Some p) \<Rightarrow>
          (case (dget p ''content'', dget p ''next_offset'') of
             (PStr s, PInt next) \<Rightarrow> map_option (\<lambda>rest. s @ rest) (read_pages n E d i lim next)
           | (PStr s, _) \<Rightarrow> Some s
           | _ \<Rightarrow> None)
      | _ \<Rightarrow> None)"

lemma take_append_rest: "take m (drop k xs) @ drop (k + length (take m (drop k xs))) xs = drop k xs"
proof -
  have "drop (k + length (take m (drop k xs))) xs = drop (length (take m (drop k xs))) (drop k xs)"
    by (simp add: add.commute)
  also have "\<dots> = drop m (drop k xs)" by (simp add: min_def)
  finally show ?thesis by (simp only: append_take_drop_id)
qed

lemma read_pages_rest:
  assumes y: "fetchone (select (\<lambda>r. tz_id r = i) (tool_result_rows d)) = Some y" "holds_output E d y output"
    and lim: "0 < lim"
  shows "length output < n + k \<Longrightarrow> 0 < n \<Longrightarrow> read_pages n E d i lim (int k) = Some (drop k output)"
proof (induction n arbitrary: k)
  case (Suc n)
  let ?chunk = "take (nat lim) (drop k output)"
  obtain p where p: "get_tool_result_slice E d i (int k) lim = Inr (Some p)" "dget p ''content'' = PStr ?chunk"
    "dget p ''next_offset'' = (if k + length ?chunk < length output then PInt (int (k + length ?chunk)) else PNone)"
    by (rule slice_of_output [OF y of_nat_0_le_iff lim, unfolded nat_int])
  show ?case
  proof (cases "k + length ?chunk < length output")
    case True
    have "0 < length ?chunk" using True lim by (cases "k < length output") auto
    then have "read_pages n E d i lim (int (k + length ?chunk)) = Some (drop (k + length ?chunk) output)"
      using Suc.prems True by (intro Suc.IH) linarith+
    moreover have "?chunk @ drop (k + length ?chunk) output = drop k output"
      by (rule take_append_rest)
    ultimately show ?thesis using p True by simp
  next
    case False
    then have "?chunk = drop k output" by (simp add: min_def split: if_splits)
    then show ?thesis using p False by simp
  qed
qed simp


text \<open>
  C33: Whatever was stored before and whichever of the conflict clauses applies, a tool result that
  \<open>add_tool_result\<close> has stored is read back in full, under the id it returned, by reading
  slices of any size from the start.  The call of the result is not named by the empty string.
\<close>

theorem tool_result_pages_roundtrip:
  assumes "codec_ok E" and "blobs_ok E d" and "distinct (map tz_id (tool_result_rows d))"
    and "call \<noteq> Some []" and "0 < lim" and "length output < n"
    and "add_tool_result E (stored_preview ell other) uuid now c nd rid call output st run md d = (Inr i, d')"
  shows "read_pages n E d' i lim 0 = Some output"
proof -
  obtain y where y: "fetchone (select (\<lambda>r. tz_id r = i) (tool_result_rows d')) = Some y" "holds_output E d' y output"
    by (rule stored_result_holds [OF assms(1,2) refl assms(3,4,7)])
  show ?thesis using read_pages_rest [OF y assms(5), of n 0] assms(6) by simp
qed

definition demo_result_codec :: codec where
  "demo_result_codec = \<lparr>sha256 = (\<lambda>x. CHR ''h'' # x), gzip_compress = (\<lambda>x. x), gzip_decompress = (\<lambda>x. x)\<rparr>"

lemma demo_result_codec_ok: "codec_ok demo_result_codec"
  by (simp add: codec_ok_def demo_result_codec_def inj_def)

text \<open>A result is stored again under its id, from another conversation and for a new call.\<close>

definition demo_conversation_db :: db where
  "demo_conversation_db = db_empty\<lparr>conversation_rows := [plain_conversation ''c'' 1, plain_conversation ''e'' 1]\<rparr>"

definition demo_store :: "string \<Rightarrow> string \<Rightarrow> db \<Rightarrow> string result \<times> db" where
  "demo_store c output =
     add_tool_result demo_result_codec (stored_preview (CHR ''.'') (\<lambda>_. None)) ''u'' 5 c None (Some ''z'') None
       output ''complete'' None PNone"

definition demo_stored_db :: db where
  "demo_stored_db = snd (demo_store ''c'' ''first'' demo_conversation_db)"

theorem tool_result_pages_roundtrip_witness:
  "read_pages 20 demo_result_codec (snd (demo_store ''e'' ''the output'' demo_stored_db)) ''z'' 4 0 = Some ''the output'' \<and>
   map tz_conversation_id (tool_result_rows (snd (demo_store ''e'' ''the output'' demo_stored_db))) = [''c'']"
proof
  have "blobs demo_stored_db = [] \<and> map tz_id (tool_result_rows demo_stored_db) = [''z'']" by code_simp
  then have blobs: "blobs_ok demo_result_codec demo_stored_db" and ids: "distinct (map tz_id (tool_result_rows demo_stored_db))"
    by (simp_all add: blobs_ok_def)
  have "fst (demo_store ''e'' ''the output'' demo_stored_db) = Inr ''z''" by code_simp
  then have add: "demo_store ''e'' ''the output'' demo_stored_db = (Inr ''z'', snd (demo_store ''e'' ''the output'' demo_stored_db))"
    by (metis prod.collapse)
  show "read_pages 20 demo_result_codec (snd (demo_store ''e'' ''the output'' demo_stored_db)) ''z'' 4 0 = Some ''the output''"
    unfolding demo_store_def
    by (rule tool_result_pages_roundtrip [OF demo_result_codec_ok blobs ids _ _ _ add [unfolded demo_store_def]]) simp_all
  show "map tz_conversation_id (tool_result_rows (snd (demo_store ''e'' ''the output'' demo_stored_db))) = [''c'']"
    by code_simp
qed

end
