(* ===== verification/RunManager.thy ===== *)
theory RunManager
  imports RunStore TaskService
begin

text \<open>
  \<open>RunManager\<close> (\<open>runs/run_manager.py\<close>) and \<open>RunJournal\<close> (\<open>runs/journal.py\<close>): the active runs in
  memory over a durable repository.  While a run streams, its events are only in memory and in
  its journal file; they go to the database when the run is stopped or finished.

  A section that holds the lock, and what follows it up to the next point where another
  coroutine can take over, is one operation.  A handler of several sections is their sequence.
  The clock is an argument, one instant for each section.  The events a subscriber waits for are numbered signals.
\<close>

section \<open>The repository\<close>

datatype run_repository = MemoryRepository mem_runs | SQLiteRepository db

record run_env =
  en_codec :: codec
  en_with_tasks :: bool

definition manages_task_bindings :: "run_repository \<Rightarrow> bool" where
  "manages_task_bindings rep = (case rep of MemoryRepository _ \<Rightarrow> False | SQLiteRepository _ \<Rightarrow> True)"

text \<open>Whether the repository has \<open>append_indexed_events\<close>.\<close>

definition uses_indexed_persistence :: "run_repository \<Rightarrow> bool" where
  "uses_indexed_persistence rep = (case rep of MemoryRepository _ \<Rightarrow> False | SQLiteRepository _ \<Rightarrow> True)"

definition on_repository ::
  "(mem_runs \<Rightarrow> 'a \<times> mem_runs) \<Rightarrow> (db \<Rightarrow> 'a \<times> db) \<Rightarrow> run_repository \<Rightarrow> 'a \<times> run_repository" where
  "on_repository f g rep =
     (case rep of
        MemoryRepository s \<Rightarrow> (case f s of (r, s') \<Rightarrow> (r, MemoryRepository s'))
      | SQLiteRepository d \<Rightarrow> (case g d of (r, d') \<Rightarrow> (r, SQLiteRepository d')))"

definition rep_get_run :: "run_repository \<Rightarrow> string \<Rightarrow> run_info option result" where
  "rep_get_run rep i =
     (case rep of MemoryRepository s \<Rightarrow> Inr (mem_get_run s i) | SQLiteRepository d \<Rightarrow> sql_get_run d i)"

definition rep_get_run_by_idempotency_key :: "run_repository \<Rightarrow> string \<Rightarrow> run_info option result" where
  "rep_get_run_by_idempotency_key rep k =
     (case rep of
        MemoryRepository s \<Rightarrow> Inr (mem_get_run_by_idempotency_key s k)
      | SQLiteRepository d \<Rightarrow> sql_get_run_by_idempotency_key d k)"

definition rep_create_or_get_run ::
  "string \<Rightarrow> int \<Rightarrow> run_request \<Rightarrow> run_repository \<Rightarrow> (run_info \<times> bool) result \<times> run_repository" where
  "rep_create_or_get_run uuid now q =
     on_repository (mem_create_or_get_run uuid now q) (sql_create_or_get_run (''run_'' @ uuid) now q)"

definition rep_read_events :: "run_env \<Rightarrow> run_repository \<Rightarrow> string \<Rightarrow> int \<Rightarrow> run_event list result" where
  "rep_read_events env rep i from_event =
     (case rep of
        MemoryRepository s \<Rightarrow> mem_read_events s i from_event
      | SQLiteRepository d \<Rightarrow> sql_read_events (en_codec env) d i from_event)"

definition rep_finish_run ::
  "run_env \<Rightarrow> int \<Rightarrow> string \<Rightarrow> string \<Rightarrow> string option \<Rightarrow> run_repository \<Rightarrow> run_info result \<times> run_repository" where
  "rep_finish_run env now i st err =
     on_repository (mem_finish_run now i st err) (sql_finish_run (en_codec env) (en_with_tasks env) now i st err)"

definition rep_request_stop :: "run_env \<Rightarrow> int \<Rightarrow> string \<Rightarrow> run_repository \<Rightarrow> bool result \<times> run_repository" where
  "rep_request_stop env now i =
     on_repository (\<lambda>s. case mem_request_stop now i s of (b, s') \<Rightarrow> (Inr b, s')) (sql_request_stop (en_codec env) now i)"

definition rep_update_target_node :: "int \<Rightarrow> string \<Rightarrow> string \<Rightarrow> run_repository \<Rightarrow> run_info result \<times> run_repository" where
  "rep_update_target_node now i nd = on_repository (mem_update_target_node now i nd) (sql_update_target_node now i nd)"

definition rep_update_anchor_node :: "int \<Rightarrow> string \<Rightarrow> string \<Rightarrow> run_repository \<Rightarrow> run_info result \<times> run_repository" where
  "rep_update_anchor_node now i nd = on_repository (mem_update_anchor_node now i nd) (sql_update_anchor_node now i nd)"

definition rep_update_cancellation_parent ::
  "int \<Rightarrow> string \<Rightarrow> string option \<Rightarrow> run_repository \<Rightarrow> run_info result \<times> run_repository" where
  "rep_update_cancellation_parent now i p =
     on_repository (mem_update_cancellation_parent now i p) (sql_update_cancellation_parent now i p)"

definition rep_update_status :: "int \<Rightarrow> string \<Rightarrow> string \<Rightarrow> run_repository \<Rightarrow> run_info result \<times> run_repository" where
  "rep_update_status now i st = on_repository (mem_update_status now i st) (sql_update_status now i st)"

definition rep_merge_metadata ::
  "int \<Rightarrow> string \<Rightarrow> (string \<times> pyval) list \<Rightarrow> run_repository \<Rightarrow> run_info result \<times> run_repository" where
  "rep_merge_metadata now i md = on_repository (mem_merge_metadata now i md) (sql_merge_metadata now i md)"

definition rep_delete_run :: "string \<Rightarrow> run_repository \<Rightarrow> run_repository" where
  "rep_delete_run i rep =
     (case rep of
        MemoryRepository s \<Rightarrow> MemoryRepository (mem_delete_run i s)
      | SQLiteRepository d \<Rightarrow> SQLiteRepository (sql_delete_run i d))"

definition rep_list_runs :: "run_repository \<Rightarrow> string option \<Rightarrow> run_info list result" where
  "rep_list_runs rep c =
     (case rep of MemoryRepository s \<Rightarrow> Inr (mem_list_runs s c) | SQLiteRepository d \<Rightarrow> sql_list_runs d c)"

definition rep_list_active :: "run_repository \<Rightarrow> string option \<Rightarrow> run_info list result" where
  "rep_list_active rep c =
     (case rep of MemoryRepository s \<Rightarrow> Inr (mem_list_active s c) | SQLiteRepository d \<Rightarrow> sql_list_active d c)"

section \<open>The state\<close>

record cached_event =
  ce_run_id :: string
  ce_index :: nat
  ce_payload :: "(string \<times> pyval) list"
  ce_created_at :: int

text \<open>
  The journal is a list of files, named by the directory of the conversation and the file of
  the run, each with its lines.  \<open>rm_set_signals\<close> has the signals that are set, and
  \<open>rm_notified\<close> the dictionaries the finish listeners were called with.
\<close>

type_synonym journal = "((string \<times> string) \<times> string list) list"

record run_manager =
  rm_repo :: run_repository
  rm_journal :: journal
  rm_tasks :: "mem_state option"
  rm_runs :: "(string \<times> run_record) list"
  rm_events :: "(string \<times> cached_event list) list"
  rm_subscribers :: "(string \<times> nat list) list"
  rm_set_signals :: "nat list"
  rm_writers :: "(string \<times> string) list"
  rm_stop_events :: "(string \<times> bool) list"
  rm_notified :: "(string \<times> pyval) list list"
  rm_closing :: bool

text \<open>A step that may raise, and the next one.\<close>

definition then_do :: "'a result \<times> 's \<Rightarrow> ('a \<Rightarrow> 's \<Rightarrow> 'b result \<times> 's) \<Rightarrow> 'b result \<times> 's" where
  "then_do m f = (case m of (Inl e, s) \<Rightarrow> (Inl e, s) | (Inr x, s) \<Rightarrow> f x s)"

lemma then_do_simps [simp]:
  "then_do (Inl e, s) f = (Inl e, s)"
  "then_do (Inr x, s) f = f x s"
  by (simp_all add: then_do_def)

definition on_repo :: "(run_repository \<Rightarrow> 'a \<times> run_repository) \<Rightarrow> run_manager \<Rightarrow> 'a \<times> run_manager" where
  "on_repo f m = (case f (rm_repo m) of (r, rep) \<Rightarrow> (r, m\<lparr>rm_repo := rep\<rparr>))"

definition put_record :: "string \<Rightarrow> run_record \<Rightarrow> run_manager \<Rightarrow> run_manager" where
  "put_record i r m = m\<lparr>rm_runs := dict_set i r (rm_runs m)\<rparr>"

definition record_finished :: "run_record \<Rightarrow> bool" where
  "record_finished r = (rr_status r \<in> set FINISHED_RUN_STATUSES)"

definition cached_events :: "run_manager \<Rightarrow> string \<Rightarrow> cached_event list" where
  "cached_events m i = (case map_of (rm_events m) i of None \<Rightarrow> [] | Some es \<Rightarrow> es)"

definition add_cached :: "string \<Rightarrow> cached_event list \<Rightarrow> run_manager \<Rightarrow> run_manager" where
  "add_cached i es m = m\<lparr>rm_events := dict_set i (cached_events m i @ es) (rm_events m)\<rparr>"

text \<open>Setting the signals of the subscribers of a run.\<close>

definition subscriber_signals :: "run_manager \<Rightarrow> string \<Rightarrow> nat list" where
  "subscriber_signals m i = (case map_of (rm_subscribers m) i of None \<Rightarrow> [] | Some ss \<Rightarrow> ss)"

definition signal_subscribers :: "string \<Rightarrow> run_manager \<Rightarrow> run_manager" where
  "signal_subscribers i m = m\<lparr>rm_set_signals := rm_set_signals m @ subscriber_signals m i\<rparr>"

definition release_writer :: "string \<Rightarrow> run_record \<Rightarrow> run_manager \<Rightarrow> run_manager" where
  "release_writer i r m =
     (if truthy_opt (rr_target_node_id r) \<and> map_of (rm_writers m) (or_empty (rr_target_node_id r)) = Some i
      then m\<lparr>rm_writers := dict_pop (or_empty (rr_target_node_id r)) (rm_writers m)\<rparr> else m)"

section \<open>The journal\<close>

definition safe_name :: "string \<Rightarrow> string" where
  "safe_name s = map (\<lambda>ch. if ch = CHR ''/'' \<or> ch = CHR 0x5C then CHR ''_'' else ch) s"

definition journal_key :: "string \<Rightarrow> string \<Rightarrow> string \<times> string" where
  "journal_key c i = (safe_name c, safe_name i)"

definition journal_line :: "cached_event \<Rightarrow> string" where
  "journal_line e =
     json_dumps False '','' '':''
       (PDict (run_event_to_dict (ce_run_id e) (int (ce_index e)) (ce_payload e) (ce_created_at e)))"

definition journal_lines :: "journal \<Rightarrow> string \<times> string \<Rightarrow> string list" where
  "journal_lines j k = (case map_of j k of None \<Rightarrow> [] | Some ls \<Rightarrow> ls)"

definition journal_append :: "string \<Rightarrow> string \<Rightarrow> cached_event list \<Rightarrow> journal \<Rightarrow> journal" where
  "journal_append c i es j =
     (if es = [] then j
      else dict_set (journal_key c i) (journal_lines j (journal_key c i) @ map journal_line es) j)"

text \<open>\<open>read_events\<close>: the lines that are not blank; one that is no JSON raises.\<close>

definition read_line :: "string \<Rightarrow> pyval result" where
  "read_line l = (case json_loads l of JOk v _ \<Rightarrow> Inr v | _ \<Rightarrow> Inl (ValueError ''JSON''))"

definition journal_read :: "journal \<Rightarrow> string \<times> string \<Rightarrow> pyval list result" where
  "journal_read j k = mapM_result read_line (filter (\<lambda>l. l \<noteq> []) (map strip (journal_lines j k)))"

definition journal_delete :: "string \<Rightarrow> string \<Rightarrow> journal \<Rightarrow> journal" where
  "journal_delete c i j = dict_pop (journal_key c i) j"

section \<open>Records\<close>

definition all_run_statuses :: "run_status list" where
  "all_run_statuses =
     [Queued, Running, WaitingApproval, Stopping, Completed, Failed, Cancelled, Interrupted, Stopped]"

definition all_run_kinds :: "run_kind list" where
  "all_run_kinds = [Chat, SideQuestion, Subagent, Command, Workflow, WorkflowStep, DirectResponse]"

text \<open>\<open>RunStatus(s)\<close> and \<open>RunKind(s)\<close>.\<close>

definition parse_run_status :: "string \<Rightarrow> run_status result" where
  "parse_run_status s =
     (case find (\<lambda>x. run_status_value x = s) all_run_statuses of
        None \<Rightarrow> Inl (ValueError (repr_str s @ '' is not a valid RunStatus''))
      | Some x \<Rightarrow> Inr x)"

definition parse_run_kind :: "string \<Rightarrow> run_kind result" where
  "parse_run_kind s =
     (case find (\<lambda>x. run_kind_value x = s) all_run_kinds of
        None \<Rightarrow> Inl (ValueError (repr_str s @ '' is not a valid RunKind''))
      | Some x \<Rightarrow> Inr x)"

definition or_string :: "string \<Rightarrow> string \<Rightarrow> string" where
  "or_string s e = (if s = [] then e else s)"

definition or_time :: "int \<Rightarrow> int \<Rightarrow> int" where
  "or_time t e = (if t = 0 then e else t)"

definition new_record :: "int \<Rightarrow> run_kind \<Rightarrow> run_status \<Rightarrow> run_info \<Rightarrow> run_record" where
  "new_record now k st x =
     \<lparr>rr_run_id = ri_id x, rr_conversation_id = ri_conversation_id x, rr_kind = k, rr_status = st,
      rr_anchor_node_id = ri_anchor_node x, rr_target_node_id = ri_target_node x,
      rr_created_by_run_id = ri_created_by x, rr_cancellation_parent_run_id = ri_cancellation_parent x,
      rr_summary = ri_summary x, rr_event_count = ri_event_count x, rr_metadata = ri_metadata x,
      rr_created_at = or_time (ri_created_at x) now, rr_updated_at = or_time (ri_updated_at x) now,
      rr_finished_at = ri_finished_at x\<rparr>"

definition rehydrated :: "run_status \<Rightarrow> run_info \<Rightarrow> run_record \<Rightarrow> run_record" where
  "rehydrated st x r =
     r\<lparr>rr_status := st,
       rr_event_count := (if ri_event_count x \<noteq> 0 then ri_event_count x else rr_event_count r),
       rr_updated_at := or_time (ri_updated_at x) (rr_updated_at r), rr_finished_at := ri_finished_at x,
       rr_metadata := ri_metadata x\<rparr>"

definition register_writer :: "string \<Rightarrow> run_record \<Rightarrow> run_manager \<Rightarrow> run_manager" where
  "register_writer i r m =
     (if truthy_opt (rr_target_node_id r) \<and> \<not> record_finished r
      then m\<lparr>rm_writers := dict_set (or_empty (rr_target_node_id r)) i (rm_writers m)\<rparr> else m)"

definition hydrate_record :: "int \<Rightarrow> run_info \<Rightarrow> run_manager \<Rightarrow> run_record result \<times> run_manager" where
  "hydrate_record now x m =
     (case parse_run_status (or_string (ri_status x) ''running'') of
        Inl e \<Rightarrow> (Inl e, m)
      | Inr st \<Rightarrow>
         (case parse_run_kind (or_string (ri_kind x) ''chat'') of
            Inl e \<Rightarrow> (Inl e, m)
          | Inr k \<Rightarrow>
              let i = ri_id x in
              case map_of (rm_runs m) i of
                Some r \<Rightarrow> let r' = rehydrated st x r in (Inr r', register_writer i r' (put_record i r' m))
              | None \<Rightarrow>
                  let r' = new_record now k st x in
                  (Inr r', register_writer i r'
                    ((put_record i r' m)\<lparr>rm_subscribers := dict_setdefault i [] (rm_subscribers m),
                                         rm_stop_events := dict_setdefault i False (rm_stop_events m)\<rparr>))))"

definition hydrate_run :: "int \<Rightarrow> string \<Rightarrow> run_manager \<Rightarrow> run_record option result \<times> run_manager" where
  "hydrate_run now i m =
     (case rep_get_run (rm_repo m) i of
        Inl e \<Rightarrow> (Inl e, m)
      | Inr None \<Rightarrow> (Inr None, m)
      | Inr (Some x) \<Rightarrow> then_do (hydrate_record now x m) (\<lambda>r m. (Inr (Some r), m)))"

definition require_run :: "int \<Rightarrow> string \<Rightarrow> run_manager \<Rightarrow> run_record result \<times> run_manager" where
  "require_run now i m =
     (case map_of (rm_runs m) i of
        Some r \<Rightarrow> (Inr r, m)
      | None \<Rightarrow> then_do (hydrate_run now i m)
          (\<lambda>x m. case x of None \<Rightarrow> (Inl (RunNotFoundError i), m) | Some r \<Rightarrow> (Inr r, m)))"

definition forget_cached_run :: "string \<Rightarrow> run_manager \<Rightarrow> run_manager" where
  "forget_cached_run i m =
     m\<lparr>rm_runs := dict_pop i (rm_runs m), rm_events := dict_pop i (rm_events m),
       rm_set_signals := rm_set_signals m @ subscriber_signals m i,
       rm_subscribers := dict_pop i (rm_subscribers m), rm_stop_events := dict_pop i (rm_stop_events m),
       rm_writers := filter (\<lambda>p. snd p \<noteq> i) (rm_writers m)\<rparr>"

definition discard_cached_run :: "string \<Rightarrow> run_manager \<Rightarrow> run_manager" where
  "discard_cached_run i m =
     (let m1 = forget_cached_run i m in m1\<lparr>rm_repo := rep_delete_run i (rm_repo m1)\<rparr>)"

text \<open>\<open>_normalize_repository_run\<close>; the order of the entries is that of the table.\<close>

definition run_info_to_dict :: "run_info \<Rightarrow> (string \<times> pyval) list" where
  "run_info_to_dict x =
     [(''id'', PStr (ri_id x)), (''conversation_id'', PStr (ri_conversation_id x)), (''kind'', PStr (ri_kind x)),
      (''status'', PStr (ri_status x)), (''created_by_run_id'', of_opt (ri_created_by x)),
      (''cancellation_parent_run_id'', of_opt (ri_cancellation_parent x)),
      (''anchor_node_id'', of_opt (ri_anchor_node x)), (''target_node_id'', of_opt (ri_target_node x)),
      (''summary'', PStr (ri_summary x)), (''event_count'', PInt (int (ri_event_count x))),
      (''created_at'', PInt (ri_created_at x)), (''updated_at'', PInt (ri_updated_at x)),
      (''finished_at'', of_opt_int (ri_finished_at x)), (''idempotency_key'', of_opt (ri_idempotency_key x)),
      (''request_fingerprint'', of_opt (ri_request_fingerprint x)), (''run_id'', PStr (ri_id x)),
      (''metadata'', PDict (ri_metadata x))]"

definition normalize_repository_run :: "run_info \<Rightarrow> (string \<times> pyval) list result" where
  "normalize_repository_run x =
     public_run_dict
       (dict_set ''cancellation_parent_run_id'' (of_opt (or_none (ri_cancellation_parent x)))
         (dict_set ''created_by_run_id'' (of_opt (or_none (ri_created_by x)))
           (dict_set ''status'' (PStr (or_string (ri_status x) ''running''))
             (dict_set ''kind'' (PStr (or_string (ri_kind x) ''chat'')) (run_info_to_dict x)))))"

definition get_run :: "int \<Rightarrow> string \<Rightarrow> run_manager \<Rightarrow> (string \<times> pyval) list option result \<times> run_manager" where
  "get_run now i m =
     (case map_of (rm_runs m) i of
        Some r \<Rightarrow> (Inr (Some (run_record_to_dict r)), m)
      | None \<Rightarrow>
         (case rep_get_run (rm_repo m) i of
            Inl e \<Rightarrow> (Inl e, m)
          | Inr None \<Rightarrow> (Inr None, m)
          | Inr (Some x) \<Rightarrow>
             (case normalize_repository_run x of
                Inl e \<Rightarrow> (Inl e, m)
              | Inr data \<Rightarrow>
                  if is_finished (or_string (ri_status x) ''running'') then (Inr (Some data), m)
                  else then_do (hydrate_record now x m) (\<lambda>_ m. (Inr (Some data), m)))))"

text \<open>\<open>get_run_for_recovery\<close>.\<close>

definition get_run_for_recovery :: "int \<Rightarrow> string \<Rightarrow> run_manager \<Rightarrow> run_record option result \<times> run_manager" where
  "get_run_for_recovery now i m =
     (case rep_get_run (rm_repo m) i of
        Inl e \<Rightarrow> (Inl e, m)
      | Inr None \<Rightarrow> (Inr None, forget_cached_run i m)
      | Inr (Some x) \<Rightarrow> then_do (hydrate_record now x m) (\<lambda>r m. (Inr (Some r), m)))"

section \<open>Events\<close>

definition cached_of_stored :: "run_event \<Rightarrow> cached_event" where
  "cached_of_stored e =
     \<lparr>ce_run_id = ev_run_id e, ce_index = ev_event_index e, ce_payload = ev_payload e, ce_created_at = ev_created_at e\<rparr>"

definition default_payload :: "string \<Rightarrow> run_record \<Rightarrow> (string \<times> pyval) list \<Rightarrow> (string \<times> pyval) list" where
  "default_payload i r p =
     dict_setdefault ''target_node_id'' (of_opt (rr_target_node_id r))
       (dict_setdefault ''kind'' (PStr (run_kind_value (rr_kind r)))
         (dict_setdefault ''conversation_id'' (PStr (rr_conversation_id r))
           (dict_setdefault ''run_id'' (PStr i) p)))"

definition streamed_event :: "int \<Rightarrow> string \<Rightarrow> run_record \<Rightarrow> nat \<Rightarrow> (string \<times> pyval) list \<Rightarrow> cached_event" where
  "streamed_event now i r n p =
     \<lparr>ce_run_id = i, ce_index = n,
      ce_payload = public_run_event (dict_set ''event_index'' (PInt (int n)) (default_payload i r p)),
      ce_created_at = now\<rparr>"

fun streamed_events :: "int \<Rightarrow> string \<Rightarrow> run_record \<Rightarrow> nat \<Rightarrow> (string \<times> pyval) list list \<Rightarrow> cached_event list" where
  "streamed_events now i r n [] = []"
| "streamed_events now i r n (p # ps) = streamed_event now i r n p # streamed_events now i r (Suc n) ps"

definition append_streamed ::
  "int \<Rightarrow> string \<Rightarrow> run_record \<Rightarrow> (string \<times> pyval) list list \<Rightarrow> run_manager \<Rightarrow>
   (string \<times> pyval) list list result \<times> run_manager" where
  "append_streamed now i r payloads m =
     (let es = streamed_events now i r (rr_event_count r) payloads;
          m1 = add_cached i es (put_record i (r\<lparr>rr_event_count := rr_event_count r + length es, rr_updated_at := now\<rparr>) m);
          m2 = m1\<lparr>rm_journal := journal_append (rr_conversation_id r) i es (rm_journal m1)\<rparr>
      in (Inr (map ce_payload es), signal_subscribers i m2))"

text \<open>The path of the repository in memory, which stores the events at once.\<close>

definition append_stored ::
  "int \<Rightarrow> string \<Rightarrow> run_record \<Rightarrow> (string \<times> pyval) list list \<Rightarrow> mem_runs \<Rightarrow> run_manager \<Rightarrow>
   (string \<times> pyval) list list result \<times> run_manager" where
  "append_stored now i r payloads s m =
     (case mem_append_events now i (map (public_run_event \<circ> default_payload i r) payloads) s of
        (Inl e, s') \<Rightarrow> (Inl e, m\<lparr>rm_repo := MemoryRepository s'\<rparr>)
      | (Inr stored, s') \<Rightarrow>
          let es = map cached_of_stored stored;
              r' = r\<lparr>rr_event_count := fold max (map (Suc \<circ> ce_index) es) (rr_event_count r), rr_updated_at := now\<rparr>;
              m1 = add_cached i es (put_record i r' (m\<lparr>rm_repo := MemoryRepository s'\<rparr>));
              m2 = m1\<lparr>rm_journal := journal_append (rr_conversation_id r) i es (rm_journal m1)\<rparr>
          in (Inr (map ce_payload es), signal_subscribers i m2))"

definition append_events ::
  "int \<Rightarrow> string \<Rightarrow> (string \<times> pyval) list list \<Rightarrow> run_manager \<Rightarrow> (string \<times> pyval) list list result \<times> run_manager" where
  "append_events now i payloads m =
     (if payloads = [] then (Inr [], m)
      else then_do (require_run now i m) (\<lambda>r m.
        case rm_repo m of
          SQLiteRepository d \<Rightarrow> append_streamed now i r payloads m
        | MemoryRepository s \<Rightarrow> append_stored now i r payloads s m))"

definition append_event ::
  "int \<Rightarrow> string \<Rightarrow> (string \<times> pyval) list \<Rightarrow> run_manager \<Rightarrow> (string \<times> pyval) list result \<times> run_manager" where
  "append_event now i p m =
     then_do (append_events now i [p] m) (\<lambda>ps m. case ps of [] \<Rightarrow> (Inl IndexError, m) | q # _ \<Rightarrow> (Inr q, m))"

text \<open>
  \<open>_persist_streamed_events\<close>: what is not in the database yet goes there; \<open>False\<close> if that fails.
\<close>

definition pending_events :: "nat \<Rightarrow> cached_event list \<Rightarrow> indexed_event list" where
  "pending_events persisted es =
     map (\<lambda>e. \<lparr>ie_index = int (ce_index e), ie_payload = ce_payload e, ie_created_at = Some (ce_created_at e)\<rparr>)
       (filter (\<lambda>e. persisted \<le> ce_index e) es)"

definition stored_count :: "run_info option \<Rightarrow> nat" where
  "stored_count stored = (case stored of None \<Rightarrow> 0 | Some x \<Rightarrow> ri_event_count x)"

definition persist_streamed_events :: "run_env \<Rightarrow> int \<Rightarrow> string \<Rightarrow> run_manager \<Rightarrow> bool \<times> run_manager" where
  "persist_streamed_events env now i m =
     (case rm_repo m of
        MemoryRepository _ \<Rightarrow> (True, m)
      | SQLiteRepository d \<Rightarrow>
          if cached_events m i = [] then (True, m)
          else
           (case sql_get_run d i of
              Inl _ \<Rightarrow> (False, m)
            | Inr stored \<Rightarrow>
                let pending = pending_events (stored_count stored) (cached_events m i) in
                if pending = [] then (True, m)
                else
                  case sql_append_indexed_events (en_codec env) now i pending d of
                    (Inl _, d') \<Rightarrow> (False, m\<lparr>rm_repo := SQLiteRepository d'\<rparr>)
                  | (Inr _, d') \<Rightarrow> (True, m\<lparr>rm_repo := SQLiteRepository d'\<rparr>)))"

text \<open>The events of memory and repository together, those of memory first where both have one.\<close>

definition merge_by_index :: "cached_event list \<Rightarrow> cached_event list \<Rightarrow> cached_event list" where
  "merge_by_index stored cached =
     map snd (sort_key fst (fold (\<lambda>e. dict_set (ce_index e) e) (stored @ cached) []))"

definition ensure_events_loaded :: "run_env \<Rightarrow> string \<Rightarrow> run_manager \<Rightarrow> unit result \<times> run_manager" where
  "ensure_events_loaded env i m =
     (case map_of (rm_runs m) i of
        None \<Rightarrow> (Inr (), m)
      | Some r \<Rightarrow>
          let cached = map_of (rm_events m) i in
          if cached \<noteq> None \<and> rr_event_count r \<le> length (cached_events m i) then (Inr (), m)
          else
           (case rep_read_events env (rm_repo m) i 0 of
              Inl e \<Rightarrow> (Inl e, m)
            | Inr stored \<Rightarrow>
                let loaded = map cached_of_stored stored;
                    es = (if cached_events m i = [] then loaded else merge_by_index loaded (cached_events m i))
                in (Inr (), m\<lparr>rm_events := dict_set i es (rm_events m)\<rparr>)))"

text \<open>\<open>read_events\<close>.\<close>

definition read_events ::
  "run_env \<Rightarrow> int \<Rightarrow> string \<Rightarrow> int \<Rightarrow> run_manager \<Rightarrow> (string \<times> pyval) list list result \<times> run_manager" where
  "read_events env now i from_event m =
     (let start = nat (max 0 from_event); cached = cached_events m i in
      case map_of (rm_runs m) i of
        Some r \<Rightarrow>
          if rr_event_count r \<le> length cached
          then (Inr (map (public_run_event \<circ> ce_payload) (drop start cached)), m)
          else
            (map_result (\<lambda>stored. map (public_run_event \<circ> ce_payload)
                (filter (\<lambda>e. start \<le> ce_index e) (merge_by_index (map cached_of_stored stored) cached)))
               (rep_read_events env (rm_repo m) i 0), m)
      | None \<Rightarrow>
          then_do (get_run now i m) (\<lambda>x m.
            case x of
              None \<Rightarrow> (Inl (RunNotFoundError i), m)
            | Some _ \<Rightarrow>
                (map_result (map (public_run_event \<circ> ev_payload)) (rep_read_events env (rm_repo m) i (int start)), m)))"

end
