(* ===== verification/RunManagerOps.thy ===== *)
theory RunManagerOps
  imports RunManager
begin

text \<open>
  The handlers of \<open>RunManager\<close>: creation, binding to nodes, status and metadata, stopping and
  finishing, subscriptions, and the recovery when the process starts.
\<close>

section \<open>Finishing\<close>

definition notify_listeners :: "run_record \<Rightarrow> run_manager \<Rightarrow> run_manager" where
  "notify_listeners r m = m\<lparr>rm_notified := rm_notified m @ [run_record_to_dict r]\<rparr>"

text \<open>The task service in memory learns of the end of the run before the repository does.\<close>

definition proposed_run :: "int \<Rightarrow> run_status \<Rightarrow> run_record \<Rightarrow> (string \<times> pyval) list" where
  "proposed_run now st r =
     dict_update (run_record_to_dict r)
       [(''status'', PStr (run_status_value st)), (''finished_at'', PInt now), (''updated_at'', PInt now)]"

definition finish_bound_task ::
  "run_env \<Rightarrow> int \<Rightarrow> string \<Rightarrow> run_status \<Rightarrow> run_record \<Rightarrow> run_manager \<Rightarrow> unit result \<times> run_manager" where
  "finish_bound_task env now i st r m =
     (case (manages_task_bindings (rm_repo m), rm_tasks m) of
        (False, Some tasks) \<Rightarrow>
          (case handle_run_finished (en_codec env) now (proposed_run now st r) (InMemory tasks) of
             (out, backend) \<Rightarrow>
               let m1 = m\<lparr>rm_tasks := (case backend of InMemory tasks' \<Rightarrow> Some tasks' | _ \<Rightarrow> Some tasks)\<rparr> in
               case out of
                 Inl e \<Rightarrow> (Inl e, m1)
               | Inr None \<Rightarrow> (Inr (), m1)
               | Inr (Some outcome) \<Rightarrow>
                   then_do (on_repo (rep_merge_metadata now i [(''task_outcome'', outcome_public_dict outcome)]) m1)
                     (\<lambda>_ m. (Inr (), m)))
      | _ \<Rightarrow> (Inr (), m))"

text \<open>What the section of \<open>finish_run\<close> does once the repository has finished the run.\<close>

definition record_terminal ::
  "run_env \<Rightarrow> int \<Rightarrow> string \<Rightarrow> nat \<Rightarrow> run_status \<Rightarrow> run_record \<Rightarrow> run_info \<Rightarrow> run_manager \<Rightarrow>
   run_record result \<times> run_manager" where
  "record_terminal env now i event_index st r x m =
     (case rep_read_events env (rm_repo m) i (int event_index) of
        Inl e \<Rightarrow> (Inl e, m)
      | Inr stored \<Rightarrow>
         (case parse_run_status (or_string (ri_status x) (run_status_value st)) of
            Inl e \<Rightarrow> (Inl e, m)
          | Inr st' \<Rightarrow>
              if st' \<notin> set FINISHED_RUN_STATUSES
              then (Inl (RuntimeError (''repository did not finish run '' @ i)), m)
              else
                let fin = (case ri_finished_at x of None \<Rightarrow> now | Some t \<Rightarrow> or_time t now);
                    r1 = r\<lparr>rr_status := st', rr_finished_at := Some fin, rr_updated_at := or_time (ri_updated_at x) fin,
                           rr_metadata := (if ri_metadata x = [] then rr_metadata r else ri_metadata x)\<rparr>
                in case stored of
                     [] \<Rightarrow> (Inl (RuntimeError (''repository did not append terminal event for run '' @ i)), put_record i r1 m)
                   | e # _ \<Rightarrow>
                       let r2 = r1\<lparr>rr_event_count := ri_event_count x\<rparr>
                       in (Inr r2, add_cached i [cached_of_stored e] (release_writer i r2 (put_record i r2 m)))))"

text \<open>
  \<open>persist\<close> is \<open>not _skip_event_flush\<close> and \<open>listen\<close> is \<open>_notify_listeners\<close>.  When the events cannot
  be stored, the run fails and its count goes back to that of the repository.
\<close>

definition flush_or_fail ::
  "run_env \<Rightarrow> int \<Rightarrow> string \<Rightarrow> run_status \<Rightarrow> string option \<Rightarrow> run_record \<Rightarrow> run_manager \<Rightarrow>
   (run_status \<times> string option \<times> run_record) result \<times> run_manager" where
  "flush_or_fail env now i st err r m =
     (case persist_streamed_events env now i m of
        (True, m1) \<Rightarrow> (Inr (st, err, r), m1)
      | (False, m1) \<Rightarrow>
         (case rep_get_run (rm_repo m1) i of
            Inl e \<Rightarrow> (Inl e, m1)
          | Inr None \<Rightarrow> (Inr (Failed, Some ''run event persistence failed'', r), m1)
          | Inr (Some x) \<Rightarrow>
              let r' = r\<lparr>rr_event_count := ri_event_count x\<rparr> in
              (Inr (Failed, Some ''run event persistence failed'', r'),
               put_record i r' (m1\<lparr>rm_events := dict_set i [] (rm_events m1)\<rparr>))))"

definition finish_locked ::
  "run_env \<Rightarrow> int \<Rightarrow> string \<Rightarrow> run_status \<Rightarrow> string option \<Rightarrow> bool \<Rightarrow> run_record \<Rightarrow> run_manager \<Rightarrow>
   run_record result \<times> run_manager" where
  "finish_locked env now i st err persist r m =
     then_do (if persist then flush_or_fail env now i st err r m else (Inr (st, err, r), m)) (\<lambda>(st', err', r') m1.
     then_do (finish_bound_task env now i st' r' m1) (\<lambda>_ m2.
     then_do (on_repo (rep_finish_run env now i (run_status_value st') err') m2) (\<lambda>x m3.
       record_terminal env now i (rr_event_count r') st' r' x m3)))"

definition finish_run ::
  "run_env \<Rightarrow> int \<Rightarrow> string \<Rightarrow> run_status \<Rightarrow> string option \<Rightarrow> bool \<Rightarrow> bool \<Rightarrow> run_manager \<Rightarrow>
   run_record result \<times> run_manager" where
  "finish_run env now i st err listen persist m =
     (if st \<notin> set FINISHED_RUN_STATUSES
      then (Inl (ValueError (''finish_run requires finished status, got '' @ run_status_value st)), m)
      else
        then_do (require_run now i m) (\<lambda>r m1.
          if record_finished r then (Inr r, m1)
          else
            then_do (finish_locked env now i st err persist r m1) (\<lambda>r' m2.
              let m3 = signal_subscribers i m2;
                  m4 = (if listen then notify_listeners r' m3 else m3);
                  m5 = (if uses_indexed_persistence (rm_repo m4)
                        then m4\<lparr>rm_journal := journal_delete (rr_conversation_id r') i (rm_journal m4)\<rparr> else m4)
              in (Inr r', m5))))"

section \<open>Creation\<close>

definition target_available :: "string option \<Rightarrow> run_manager \<Rightarrow> unit result" where
  "target_available target m =
     (if \<not> truthy_opt target then Inr ()
      else case map_of (rm_writers m) (or_empty target) of
             None \<Rightarrow> Inr ()
           | Some j \<Rightarrow>
               if j = [] then Inr ()
               else (case map_of (rm_runs m) j of
                 None \<Rightarrow> Inr ()
               | Some r \<Rightarrow>
                   if record_finished r then Inr ()
                   else Inl (RunWriterConflictError
                     (''target node '' @ or_empty target @ '' already has active writer '' @ j))))"

definition started_payload :: "run_request \<Rightarrow> run_record \<Rightarrow> (string \<times> pyval) list" where
  "started_payload q r =
     [(''type'', PStr ''run_started''), (''run_id'', PStr (rr_run_id r)),
      (''conversation_id'', PStr (rq_conversation_id q)), (''kind'', PStr (run_kind_value (rr_kind r))),
      (''status'', PStr (run_status_value (rr_status r))), (''anchor_node_id'', of_opt (rq_anchor_node q)),
      (''target_node_id'', of_opt (rq_target_node q)), (''created_by_run_id'', of_opt (rq_created_by q)),
      (''cancellation_parent_run_id'', of_opt (rq_cancellation_parent q)), (''summary'', PStr (rq_summary q)),
      (''metadata'', PDict (rr_metadata r)), (''created_at'', PInt (rr_created_at r))]"

definition child_started_payload :: "string \<Rightarrow> run_record \<Rightarrow> (string \<times> pyval) list" where
  "child_started_payload parent r =
     [(''type'', PStr ''child_run_started''), (''event_type'', PStr ''child_run_started''),
      (''status'', PStr ''content''), (''content'', PStr []), (''child_run_id'', PStr (rr_run_id r)),
      (''child_kind'', PStr (run_kind_value (rr_kind r))), (''child_status'', PStr (run_status_value (rr_status r))),
      (''child_summary'', PStr (rr_summary r)),
      (''payload'', PDict
         [(''run_id'', PStr (rr_run_id r)), (''kind'', PStr (run_kind_value (rr_kind r))),
          (''status'', PStr (run_status_value (rr_status r))), (''summary'', PStr (rr_summary r)),
          (''created_by_run_id'', PStr parent),
          (''cancellation_parent_run_id'', of_opt (rr_cancellation_parent_run_id r)),
          (''anchor_node_id'', of_opt (rr_anchor_node_id r)), (''target_node_id'', of_opt (rr_target_node_id r)),
          (''metadata'', PDict (rr_metadata r))])]"

definition append_child_started :: "int \<Rightarrow> string \<Rightarrow> run_record \<Rightarrow> run_manager \<Rightarrow> unit result \<times> run_manager" where
  "append_child_started now parent r m =
     then_do (get_run now parent m) (\<lambda>x m.
       case x of
         None \<Rightarrow> (Inr (), m)
       | Some _ \<Rightarrow> then_do (append_event now parent (child_started_payload parent r) m) (\<lambda>_ m. (Inr (), m)))"

text \<open>\<open>_finish_unhydrated_creation\<close>.\<close>

definition record_unhydrated :: "int \<Rightarrow> string \<Rightarrow> run_info \<Rightarrow> run_record \<Rightarrow> run_manager \<Rightarrow> run_record result \<times> run_manager" where
  "record_unhydrated now i x r m =
     (case parse_run_status (ri_status x) of
        Inl e \<Rightarrow> (Inl e, m)
      | Inr st \<Rightarrow>
          let fin = (case ri_finished_at x of None \<Rightarrow> now | Some t \<Rightarrow> t);
              r' = r\<lparr>rr_status := st, rr_finished_at := Some fin, rr_updated_at := or_time (ri_updated_at x) fin,
                     rr_event_count := (if ri_event_count x = 0 then rr_event_count r else ri_event_count x),
                     rr_metadata := (if ri_metadata x = [] then rr_metadata r else ri_metadata x)\<rparr>
          in (Inr r', release_writer i r' (put_record i r' m)))"

definition finish_unhydrated_creation :: "run_env \<Rightarrow> int \<Rightarrow> string \<Rightarrow> string \<Rightarrow> run_manager \<Rightarrow> unit result \<times> run_manager" where
  "finish_unhydrated_creation env now i reason m =
     then_do (on_repo (rep_finish_run env now i ''interrupted'' (Some reason)) m) (\<lambda>x m1.
       let stored = (case rep_read_events env (rm_repo m1) i 0 of Inl _ \<Rightarrow> [] | Inr es \<Rightarrow> es);
           with_events = (\<lambda>m. if stored = [] then m
                              else m\<lparr>rm_events := dict_set i (map cached_of_stored stored) (rm_events m)\<rparr>)
       in case map_of (rm_runs m1) i of
            None \<Rightarrow> (Inr (), with_events m1)
          | Some r \<Rightarrow>
              then_do (record_unhydrated now i x r m1) (\<lambda>r' m2.
                (Inr (), notify_listeners r' (signal_subscribers i (with_events m2)))))"

text \<open>\<open>_interrupt_committed_creation\<close>: the first section decides what is left to do.\<close>

definition interrupt_section :: "int \<Rightarrow> string \<Rightarrow> run_manager \<Rightarrow> bool result \<times> run_manager" where
  "interrupt_section now i m =
     (case rep_get_run (rm_repo m) i of
        Inl e \<Rightarrow> (Inl e, m)
      | Inr None \<Rightarrow> (Inr False, m)
      | Inr (Some x) \<Rightarrow>
          then_do (case map_of (rm_runs m) i of Some r \<Rightarrow> (Inr r, m) | None \<Rightarrow> hydrate_record now x m) (\<lambda>r m.
            if record_finished r then (Inr False, m)
            else if uses_indexed_persistence (rm_repo m)
            then (Inr True, m\<lparr>rm_events := dict_set i [] (rm_events m)\<rparr>)
            else (Inr True, m)))"

definition interrupt_committed_creation ::
  "run_env \<Rightarrow> int \<Rightarrow> string \<Rightarrow> string \<Rightarrow> run_manager \<Rightarrow> unit result \<times> run_manager" where
  "interrupt_committed_creation env now i reason m =
     (case interrupt_section now i m of
        (Inl _, m1) \<Rightarrow> finish_unhydrated_creation env now i reason m1
      | (Inr False, m1) \<Rightarrow> (Inr (), m1)
      | (Inr True, m1) \<Rightarrow> then_do (finish_run env now i Interrupted (Some reason) True False m1) (\<lambda>_ m. (Inr (), m)))"

text \<open>
  The section of \<open>create_run\<close> that holds the lock, with the identifier once the repository has
  made the run.
\<close>

definition create_section ::
  "string \<Rightarrow> int \<Rightarrow> run_request \<Rightarrow> run_manager \<Rightarrow> (string option \<times> run_record result) \<times> run_manager" where
  "create_section uuid now q m =
     (if rm_closing m then ((None, Inl RunManagerClosingError), m)
      else case target_available (rq_target_node q) m of
        Inl e \<Rightarrow> ((None, Inl e), m)
      | Inr _ \<Rightarrow>
         (case on_repo (rep_create_or_get_run uuid now (q\<lparr>rq_idempotency_key := None, rq_fingerprint := None\<rparr>)) m of
            (Inl e, m1) \<Rightarrow> ((None, Inl e), m1)
          | (Inr (x, created), m1) \<Rightarrow>
              if \<not> created
              then ((None, Inl (RuntimeError ''non-idempotent run creation returned an existing run'')), m1)
              else (case hydrate_record now x m1 of (r, m2) \<Rightarrow> ((Some (ri_id x), r), m2))))"

text \<open>The binding of the task for a repository that does not manage bindings.\<close>

definition bind_task_section :: "string \<Rightarrow> task_binding option \<Rightarrow> run_manager \<Rightarrow> unit result \<times> run_manager" where
  "bind_task_section i binding m =
     (case binding of
        None \<Rightarrow> (Inr (), m)
      | Some b \<Rightarrow>
          if manages_task_bindings (rm_repo m) then (Inr (), m)
          else case rm_tasks m of
            None \<Rightarrow> (Inl (RuntimeError ''task service is required for bound runs''), discard_cached_run i m)
          | Some tasks \<Rightarrow>
             (case bind_in_memory_run i b tasks of
                (Inl e, tasks') \<Rightarrow> (Inl e, discard_cached_run i (m\<lparr>rm_tasks := Some tasks'\<rparr>))
              | (Inr _, tasks') \<Rightarrow> (Inr (), m\<lparr>rm_tasks := Some tasks'\<rparr>)))"

definition publish_run :: "int \<Rightarrow> string \<Rightarrow> run_request \<Rightarrow> run_record \<Rightarrow> run_manager \<Rightarrow> run_record result \<times> run_manager" where
  "publish_run now i q r m =
     then_do (bind_task_section i (rq_binding q) m) (\<lambda>_ m.
     then_do (append_event now i (started_payload q r) m) (\<lambda>_ m.
     then_do (if truthy_opt (rq_created_by q) then append_child_started now (or_empty (rq_created_by q)) r m
              else (Inr (), m)) (\<lambda>_ m.
       (Inr (case map_of (rm_runs m) i of Some r' \<Rightarrow> r' | None \<Rightarrow> r), m))))"

text \<open>The except clause: the exception of the interruption, if it has one, replaces the first.\<close>

definition unless_published ::
  "run_env \<Rightarrow> int \<Rightarrow> string \<Rightarrow> string \<Rightarrow> 'a result \<times> run_manager \<Rightarrow> 'a result \<times> run_manager" where
  "unless_published env now i reason out =
     (case out of
        (Inr x, m) \<Rightarrow> (Inr x, m)
      | (Inl e, m) \<Rightarrow> then_do (interrupt_committed_creation env now i reason m) (\<lambda>_ m. (Inl e, m)))"

definition create_run ::
  "run_env \<Rightarrow> string \<Rightarrow> int \<Rightarrow> run_request \<Rightarrow> run_manager \<Rightarrow> run_record result \<times> run_manager" where
  "create_run env uuid now q m =
     (case parse_run_kind (rq_kind q) of
        Inl e \<Rightarrow> (Inl e, m)
      | Inr _ \<Rightarrow>
         (case create_section uuid now q m of
            ((None, r), m1) \<Rightarrow> (r, m1)
          | ((Some i, r), m1) \<Rightarrow>
              unless_published env now i ''run creation interrupted before publication''
                (then_do (r, m1) (publish_run now i q))))"

text \<open>Creation with an idempotency key.\<close>

definition idempotent_run_section ::
  "run_env \<Rightarrow> int \<Rightarrow> string \<Rightarrow> string \<Rightarrow> run_manager \<Rightarrow> run_record option result \<times> run_manager" where
  "idempotent_run_section env now key fingerprint m =
     (case rep_get_run_by_idempotency_key (rm_repo m) key of
        Inl e \<Rightarrow> (Inl e, m)
      | Inr None \<Rightarrow> (Inr None, m)
      | Inr (Some x) \<Rightarrow>
          if or_empty (ri_request_fingerprint x) \<noteq> fingerprint
          then (Inl (RunIdempotencyConflictError (ri_id x)), m)
          else
            then_do (hydrate_record now x m) (\<lambda>r m.
            then_do (ensure_events_loaded env (ri_id x) m) (\<lambda>_ m. (Inr (Some r), m))))"

definition idempotency_ok :: "run_request \<Rightarrow> unit result" where
  "idempotency_ok q =
     (if \<not> truthy_opt (rq_idempotency_key q) then Inl (ValueError ''idempotency key is required'')
      else if \<not> truthy_opt (rq_fingerprint q) then Inl (ValueError ''request fingerprint is required'')
      else Inr ())"

definition get_idempotent_run ::
  "run_env \<Rightarrow> int \<Rightarrow> run_request \<Rightarrow> run_manager \<Rightarrow> run_record option result \<times> run_manager" where
  "get_idempotent_run env now q m =
     (case idempotency_ok q of
        Inl e \<Rightarrow> (Inl e, m)
      | Inr _ \<Rightarrow> idempotent_run_section env now (or_empty (rq_idempotency_key q)) (or_empty (rq_fingerprint q)) m)"

text \<open>
  The section of \<open>reserve_or_get_run\<close>: the identifier if this call created the run, and the
  record.  The callback for a reserved run is not modelled.
\<close>

definition reserve_section ::
  "run_env \<Rightarrow> string \<Rightarrow> int \<Rightarrow> run_request \<Rightarrow> run_manager \<Rightarrow>
   (string option \<times> run_record result) \<times> run_manager" where
  "reserve_section env uuid now q m =
     (if rm_closing m then ((None, Inl RunManagerClosingError), m)
      else case idempotent_run_section env now (or_empty (rq_idempotency_key q)) (or_empty (rq_fingerprint q)) m of
        (Inl e, m1) \<Rightarrow> ((None, Inl e), m1)
      | (Inr (Some r), m1) \<Rightarrow> ((None, Inr r), m1)
      | (Inr None, m1) \<Rightarrow>
         (case target_available (rq_target_node q) m1 of
            Inl e \<Rightarrow> ((None, Inl e), m1)
          | Inr _ \<Rightarrow>
             (case on_repo (rep_create_or_get_run uuid now q) m1 of
                (Inl e, m2) \<Rightarrow> ((None, Inl e), m2)
              | (Inr (x, created), m2) \<Rightarrow>
                  let own = (if created then Some (ri_id x) else None) in
                  if or_empty (ri_request_fingerprint x) \<noteq> or_empty (rq_fingerprint q)
                  then ((own, Inl (RunIdempotencyConflictError (ri_id x))), m2)
                  else
                    (case hydrate_record now x m2 of
                       (Inl e, m3) \<Rightarrow> ((own, Inl e), m3)
                     | (Inr r, m3) \<Rightarrow>
                         if created then ((own, Inr r), m3)
                         else (case ensure_events_loaded env (ri_id x) m3 of
                            (Inl e, m4) \<Rightarrow> ((None, Inl e), m4)
                          | (Inr _, m4) \<Rightarrow> ((None, Inr r), m4))))))"

definition reserve_or_get_run ::
  "run_env \<Rightarrow> string \<Rightarrow> int \<Rightarrow> run_request \<Rightarrow> run_manager \<Rightarrow> (run_record \<times> bool) result \<times> run_manager" where
  "reserve_or_get_run env uuid now q m =
     (case idempotency_ok q of
        Inl e \<Rightarrow> (Inl e, m)
      | Inr _ \<Rightarrow>
         (case parse_run_kind (rq_kind q) of
            Inl e \<Rightarrow> (Inl e, m)
          | Inr _ \<Rightarrow>
             (case reserve_section env uuid now q m of
                ((None, r), m1) \<Rightarrow> (map_result (\<lambda>r. (r, False)) r, m1)
              | ((Some i, r), m1) \<Rightarrow>
                  unless_published env now i ''run reservation interrupted before publication''
                    (then_do (r, m1) (\<lambda>r m. then_do (publish_run now i q r m) (\<lambda>r' m. (Inr (r', True), m)))))))"

section \<open>Binding to nodes\<close>

definition bind_anchor_section :: "int \<Rightarrow> string \<Rightarrow> string \<Rightarrow> run_manager \<Rightarrow> (run_record \<times> bool) result \<times> run_manager" where
  "bind_anchor_section now i nd m =
     then_do (require_run now i m) (\<lambda>r m.
       if rr_anchor_node_id r = Some nd then (Inr (r, False), m)
       else then_do (on_repo (rep_update_anchor_node now i nd) m) (\<lambda>x m.
         let r' = r\<lparr>rr_anchor_node_id := Some nd, rr_updated_at := or_time (ri_updated_at x) now\<rparr>
         in (Inr (r', True), put_record i r' m)))"

text \<open>The event that follows a section which changed the run.\<close>

definition announce ::
  "int \<Rightarrow> string \<Rightarrow> (string \<times> pyval) list \<Rightarrow> (run_record \<times> bool) result \<times> run_manager \<Rightarrow>
   run_record result \<times> run_manager" where
  "announce now i payload out =
     then_do out (\<lambda>(r, changed) m.
       if changed then then_do (append_event now i payload m) (\<lambda>_ m. (Inr r, m)) else (Inr r, m))"

definition bind_anchor_node :: "int \<Rightarrow> string \<Rightarrow> string \<Rightarrow> run_manager \<Rightarrow> run_record result \<times> run_manager" where
  "bind_anchor_node now i nd m =
     announce now i [(''type'', PStr ''run_anchor_bound''), (''run_id'', PStr i), (''anchor_node_id'', PStr nd)]
       (bind_anchor_section now i nd m)"

definition acquire_writer :: "string \<Rightarrow> string \<Rightarrow> run_manager \<Rightarrow> unit result \<times> run_manager" where
  "acquire_writer nd i m =
     (case map_of (rm_writers m) nd of
        Some j \<Rightarrow>
          if j \<noteq> [] \<and> j \<noteq> i
             \<and> (case map_of (rm_runs m) j of None \<Rightarrow> False | Some r \<Rightarrow> \<not> record_finished r)
          then (Inl (RunWriterConflictError (''target node '' @ nd @ '' already has active writer '' @ j)), m)
          else (Inr (), m\<lparr>rm_writers := dict_set nd i (rm_writers m)\<rparr>)
      | None \<Rightarrow> (Inr (), m\<lparr>rm_writers := dict_set nd i (rm_writers m)\<rparr>))"

text \<open>When the repository refuses, the writer from before the call is put back.\<close>

definition restore_writer :: "string \<Rightarrow> string \<Rightarrow> string option \<Rightarrow> run_manager \<Rightarrow> run_manager" where
  "restore_writer nd i previous m =
     (case previous of
        None \<Rightarrow> if map_of (rm_writers m) nd = Some i then m\<lparr>rm_writers := dict_pop nd (rm_writers m)\<rparr> else m
      | Some j \<Rightarrow> m\<lparr>rm_writers := dict_set nd j (rm_writers m)\<rparr>)"

definition bind_target_section :: "int \<Rightarrow> string \<Rightarrow> string \<Rightarrow> run_manager \<Rightarrow> (run_record \<times> bool) result \<times> run_manager" where
  "bind_target_section now i nd m =
     then_do (require_run now i m) (\<lambda>r m.
       if rr_target_node_id r = Some nd then (Inr (r, False), m)
       else
         let previous = map_of (rm_writers m) nd in
         then_do (acquire_writer nd i m) (\<lambda>_ m.
           case on_repo (rep_update_target_node now i nd) m of
             (Inl e, m) \<Rightarrow> (Inl e, restore_writer nd i previous m)
           | (Inr x, m) \<Rightarrow>
               let m' = release_writer i r m;
                   r' = r\<lparr>rr_target_node_id := Some nd, rr_updated_at := or_time (ri_updated_at x) now\<rparr>
               in (Inr (r', True), put_record i r' m')))"

definition bind_target_node :: "int \<Rightarrow> string \<Rightarrow> string \<Rightarrow> run_manager \<Rightarrow> run_record result \<times> run_manager" where
  "bind_target_node now i nd m =
     announce now i [(''type'', PStr ''run_target_bound''), (''run_id'', PStr i), (''target_node_id'', PStr nd)]
       (bind_target_section now i nd m)"

definition parent_section ::
  "int \<Rightarrow> string \<Rightarrow> string option \<Rightarrow> run_manager \<Rightarrow> (run_record \<times> bool) result \<times> run_manager" where
  "parent_section now i parent m =
     then_do (require_run now i m) (\<lambda>r m.
       if rr_cancellation_parent_run_id r = parent then (Inr (r, False), m)
       else then_do (on_repo (rep_update_cancellation_parent now i parent) m) (\<lambda>x m.
         let r' = r\<lparr>rr_cancellation_parent_run_id := parent, rr_updated_at := or_time (ri_updated_at x) now\<rparr>
         in (Inr (r', True), put_record i r' m)))"

definition update_cancellation_parent ::
  "int \<Rightarrow> string \<Rightarrow> string option \<Rightarrow> run_manager \<Rightarrow> run_record result \<times> run_manager" where
  "update_cancellation_parent now i parent m =
     announce now i [(''type'', PStr ''run_cancellation_parent_updated''), (''run_id'', PStr i),
         (''cancellation_parent_run_id'', of_opt parent)]
       (parent_section now i parent m)"

section \<open>Status and metadata\<close>

definition status_section :: "int \<Rightarrow> string \<Rightarrow> run_status \<Rightarrow> run_manager \<Rightarrow> (run_record \<times> bool) result \<times> run_manager" where
  "status_section now i st m =
     then_do (require_run now i m) (\<lambda>r m.
       if record_finished r \<or> rr_status r = st then (Inr (r, False), m)
       else then_do (on_repo (rep_update_status now i (run_status_value st)) m) (\<lambda>x m.
         case parse_run_status (ri_status x) of
           Inl e \<Rightarrow> (Inl e, m)
         | Inr st' \<Rightarrow>
             let r' = r\<lparr>rr_status := st', rr_updated_at := or_time (ri_updated_at x) now\<rparr>
             in (Inr (r', True), put_record i r' m)))"

definition update_status :: "int \<Rightarrow> string \<Rightarrow> run_status \<Rightarrow> run_manager \<Rightarrow> run_record result \<times> run_manager" where
  "update_status now i st m =
     (if st \<in> set FINISHED_RUN_STATUSES
      then (Inl (ValueError (''update_status requires non-finished status, got '' @ run_status_value st)), m)
      else announce now i [(''type'', PStr ''run_status_changed''), (''run_id'', PStr i),
               (''status'', PStr (run_status_value st))]
             (status_section now i st m))"

definition metadata_section ::
  "int \<Rightarrow> string \<Rightarrow> (string \<times> pyval) list \<Rightarrow> run_manager \<Rightarrow> (run_record \<times> bool) result \<times> run_manager" where
  "metadata_section now i md m =
     then_do (require_run now i m) (\<lambda>r m.
     then_do (on_repo (rep_merge_metadata now i md) m) (\<lambda>x m.
       let r' = r\<lparr>rr_metadata := ri_metadata x, rr_updated_at := or_time (ri_updated_at x) now\<rparr>
       in (Inr (r', True), put_record i r' m)))"

definition update_metadata ::
  "int \<Rightarrow> string \<Rightarrow> (string \<times> pyval) list \<Rightarrow> run_manager \<Rightarrow> run_record result \<times> run_manager" where
  "update_metadata now i md m =
     announce now i [(''type'', PStr ''run_metadata_updated''), (''run_id'', PStr i), (''metadata'', PDict md)]
       (metadata_section now i md m)"

definition mark_observed ::
  "int \<Rightarrow> string \<Rightarrow> string option \<Rightarrow> string \<Rightarrow> run_manager \<Rightarrow> run_record result \<times> run_manager" where
  "mark_observed now i observer via m =
     update_metadata now i
       ([(''result_observed_at'', PInt now), (''result_observed_via'', PStr via)] @
        (if truthy_opt observer then [(''result_observed_by_run_id'', of_opt observer)] else [])) m"

section \<open>Stopping\<close>

definition stop_requested :: "string \<Rightarrow> run_manager \<Rightarrow> bool \<times> run_manager" where
  "stop_requested i m =
     (map_of (rm_stop_events m) i = Some True, m\<lparr>rm_stop_events := dict_setdefault i False (rm_stop_events m)\<rparr>)"

text \<open>What \<open>request_stop\<close> does when the events cannot be stored.\<close>

definition note_persistence_error ::
  "int \<Rightarrow> string \<Rightarrow> run_record \<Rightarrow> run_manager \<Rightarrow> run_record result \<times> run_manager" where
  "note_persistence_error now i r m =
     then_do (on_repo (rep_merge_metadata now i
         [(''event_persistence_error'', PStr ''run event persistence failed'')]) m) (\<lambda>x m.
       case rep_get_run (rm_repo m) i of
         Inl e \<Rightarrow> (Inl e, m)
       | Inr stored \<Rightarrow>
           let n = stored_count stored;
               r' = r\<lparr>rr_metadata := (if ri_metadata x = [] then rr_metadata r else ri_metadata x),
                      rr_event_count := (if n = 0 then rr_event_count r else n), rr_updated_at := now\<rparr>
           in (Inr r', put_record i r' m))"

text \<open>After the repository has taken the request: status, count and the event it appended.\<close>

definition record_stop ::
  "run_env \<Rightarrow> string \<Rightarrow> nat \<Rightarrow> run_record \<Rightarrow> run_manager \<Rightarrow> bool result \<times> run_manager" where
  "record_stop env i event_index r m =
     (case rep_read_events env (rm_repo m) i (int event_index) of
        Inl e \<Rightarrow> (Inl e, m)
      | Inr stored \<Rightarrow>
         (case rep_get_run (rm_repo m) i of
            Inl e \<Rightarrow> (Inl e, m)
          | Inr x \<Rightarrow>
             (case parse_run_status (case x of None \<Rightarrow> ''stopping'' | Some y \<Rightarrow> or_string (ri_status y) ''stopping'') of
                Inl e \<Rightarrow> (Inl e, m)
              | Inr st \<Rightarrow>
                  let r' = r\<lparr>rr_status := st,
                             rr_event_count := (case x of None \<Rightarrow> rr_event_count r | Some y \<Rightarrow> ri_event_count y),
                             rr_updated_at := (case x of None \<Rightarrow> rr_updated_at r
                                               | Some y \<Rightarrow> or_time (ri_updated_at y) (rr_updated_at r))\<rparr>;
                      m1 = put_record i r' m;
                      m2 = (case stored of [] \<Rightarrow> m1 | e # _ \<Rightarrow> add_cached i [cached_of_stored e] m1)
                  in (Inr True, signal_subscribers i m2))))"

definition request_stop :: "run_env \<Rightarrow> int \<Rightarrow> string \<Rightarrow> run_manager \<Rightarrow> bool result \<times> run_manager" where
  "request_stop env now i m =
     (case map_of (rm_runs m) i of
        None \<Rightarrow> (Inr False, m)
      | Some r \<Rightarrow>
          if record_finished r then (Inr False, m)
          else
            let r1 = r\<lparr>rr_status := Stopping, rr_updated_at := now\<rparr>;
                m1 = (put_record i r1 m)\<lparr>rm_stop_events := dict_set i True (rm_stop_events m)\<rparr> in
            then_do
              (case persist_streamed_events env now i m1 of
                 (True, m2) \<Rightarrow> (Inr r1, m2)
               | (False, m2) \<Rightarrow> note_persistence_error now i r1 m2) (\<lambda>r2 m2.
            then_do (on_repo (rep_request_stop env now i) m2) (\<lambda>ok m3.
              if \<not> ok then (Inr False, m3) else record_stop env i (rr_event_count r) r2 m3)))"

section \<open>Queries\<close>

definition list_active :: "string option \<Rightarrow> run_manager \<Rightarrow> (string \<times> pyval) list list result" where
  "list_active c m = bind_result (rep_list_active (rm_repo m) c) (mapM_result normalize_repository_run)"

definition list_runs :: "string option \<Rightarrow> run_manager \<Rightarrow> (string \<times> pyval) list list result" where
  "list_runs c m = bind_result (rep_list_runs (rm_repo m) c) (mapM_result normalize_repository_run)"

definition list_active_cancellation_children ::
  "string \<Rightarrow> string option \<Rightarrow> run_manager \<Rightarrow> (string \<times> pyval) list list result" where
  "list_active_cancellation_children parent c m =
     map_result (filter (\<lambda>d. dget d ''cancellation_parent_run_id'' = PStr parent)) (list_active c m)"

definition list_cached_active_cancellation_children ::
  "string \<Rightarrow> string option \<Rightarrow> run_manager \<Rightarrow> (string \<times> pyval) list list" where
  "list_cached_active_cancellation_children parent c m =
     map run_record_to_dict
       (filter (\<lambda>r. \<not> record_finished r \<and> rr_cancellation_parent_run_id r = Some parent \<and>
                    (c = None \<or> c = Some (rr_conversation_id r)))
         (map snd (rm_runs m)))"

text \<open>The search stops at the first hit, so later rows need not be readable.\<close>

fun first_active :: "string \<Rightarrow> string \<Rightarrow> string option \<Rightarrow> run_info list \<Rightarrow> (string \<times> pyval) list option result" where
  "first_active key nd knd [] = Inr None"
| "first_active key nd knd (x # xs) =
     (case normalize_repository_run x of
        Inl e \<Rightarrow> Inl e
      | Inr d \<Rightarrow>
          if dget d key \<noteq> PStr nd then first_active key nd knd xs
          else if knd \<noteq> None \<and> dget d ''kind'' \<noteq> of_opt knd then first_active key nd knd xs
          else Inr (Some d))"

definition find_active_by_target ::
  "string \<Rightarrow> string \<Rightarrow> string option \<Rightarrow> run_manager \<Rightarrow> (string \<times> pyval) list option result" where
  "find_active_by_target c nd knd m =
     bind_result (rep_list_active (rm_repo m) (Some c)) (first_active ''target_node_id'' nd knd)"

definition find_active_by_anchor ::
  "string \<Rightarrow> string \<Rightarrow> string option \<Rightarrow> run_manager \<Rightarrow> (string \<times> pyval) list option result" where
  "find_active_by_anchor c nd knd m =
     bind_result (rep_list_active (rm_repo m) (Some c)) (first_active ''anchor_node_id'' nd knd)"

definition active_runs_for_targets ::
  "string \<Rightarrow> string list \<Rightarrow> run_manager \<Rightarrow> (string \<times> pyval) list list result" where
  "active_runs_for_targets c targets m =
     map_result (filter (\<lambda>d. dget d ''target_node_id'' \<in> PStr ` set targets)) (list_active (Some c) m)"

section \<open>Subscriptions\<close>

text \<open>
  A subscription is its run and the index of the next event.  \<open>subscribe_section\<close> says whether it
  goes on; a poll yields the next event, ends, or leaves a fresh signal to wait for;
  \<open>unsubscribe\<close> is the clean-up behind the wait.
\<close>

datatype poll = Yield "(string \<times> pyval) list" | Wait nat | Done

definition subscribe_section :: "int \<Rightarrow> string \<Rightarrow> run_manager \<Rightarrow> bool result \<times> run_manager" where
  "subscribe_section now i m = then_do (require_run now i m) (\<lambda>r m. (Inr (\<not> record_finished r), m))"

definition poll_section :: "run_env \<Rightarrow> int \<Rightarrow> string \<Rightarrow> nat \<Rightarrow> nat \<Rightarrow> run_manager \<Rightarrow> poll result \<times> run_manager" where
  "poll_section env now i index fresh m =
     then_do (require_run now i m) (\<lambda>r m.
     then_do (ensure_events_loaded env i m) (\<lambda>_ m.
       let m1 = m\<lparr>rm_events := dict_setdefault i [] (rm_events m)\<rparr>; es = cached_events m i in
       if index < length es then (Inr (Yield (public_run_event (ce_payload (es ! index)))), m1)
       else if record_finished r then (Inr Done, m1)
       else (Inr (Wait fresh), m1\<lparr>rm_subscribers := dict_set i (subscriber_signals m1 i @ [fresh]) (rm_subscribers m1)\<rparr>)))"

definition unsubscribe :: "string \<Rightarrow> nat \<Rightarrow> run_manager \<Rightarrow> run_manager" where
  "unsubscribe i signal m =
     (case map_of (rm_subscribers m) i of
        None \<Rightarrow> m
      | Some ss \<Rightarrow>
          let ss' = filter (\<lambda>x. x \<noteq> signal) ss in
          m\<lparr>rm_subscribers := (if ss' = [] then dict_pop i (rm_subscribers m) else dict_set i ss' (rm_subscribers m))\<rparr>)"

text \<open>
  \<open>wait_for_terminal_result\<close>: how one payload changes what the waiter has seen, and what it
  answers in the end.
\<close>

record awaited =
  aw_next :: int
  aw_result :: "(string \<times> pyval) list option"
  aw_error :: "(string \<times> pyval) list option"
  aw_final :: "(string \<times> pyval) list option"

definition payload_index :: "(string \<times> pyval) list \<Rightarrow> int option" where
  "payload_index p =
     (case dget p ''event_index'' of PInt n \<Rightarrow> Some n | PBool b \<Rightarrow> Some (if b then 1 else 0) | _ \<Rightarrow> None)"

definition note_type ::
  "string list \<Rightarrow> string list \<Rightarrow> string \<Rightarrow> (string \<times> pyval) list \<Rightarrow> awaited \<Rightarrow> awaited" where
  "note_type results errors t p a =
     (if t \<in> set results then a\<lparr>aw_result := Some p\<rparr>
      else if t \<in> set errors then a\<lparr>aw_error := Some p\<rparr> else a)"

definition note_payload :: "string list \<Rightarrow> string list \<Rightarrow> (string \<times> pyval) list \<Rightarrow> awaited \<Rightarrow> awaited" where
  "note_payload results errors p a =
     (let a1 = a\<lparr>aw_next := (case payload_index p of Some n \<Rightarrow> max (aw_next a) (n + 1) | None \<Rightarrow> aw_next a + 1)\<rparr>;
          a2 = note_type results errors (str_or (dget p ''event_type'') []) p a1
      in if dget p ''type'' = PStr ''run_finished''
         then (case dget p ''terminal_result'' of
                 PDict t \<Rightarrow> note_type results errors (str_or (dget t ''event_type'') (str_or (dget t ''type'') [])) t a2
               | _ \<Rightarrow> a2)\<lparr>aw_final := Some p\<rparr>
         else a2)"

fun note_payloads :: "string list \<Rightarrow> string list \<Rightarrow> (string \<times> pyval) list list \<Rightarrow> awaited \<Rightarrow> awaited" where
  "note_payloads results errors [] a = a"
| "note_payloads results errors (p # ps) a =
     (let a' = note_payload results errors p a
      in if aw_final a' \<noteq> None then a' else note_payloads results errors ps a')"

definition value_or :: "pyval \<Rightarrow> pyval \<Rightarrow> pyval" where
  "value_or v w = (if py_true v then v else w)"

definition dict_or :: "(string \<times> pyval) list option \<Rightarrow> (string \<times> pyval) list \<Rightarrow> (string \<times> pyval) list" where
  "dict_or d e = (case d of None \<Rightarrow> e | Some x \<Rightarrow> if x = [] then e else x)"

definition terminal_answer :: "string \<Rightarrow> (string \<times> pyval) list option \<Rightarrow> awaited \<Rightarrow> (string \<times> pyval) list" where
  "terminal_answer i run a =
     (let r = dict_or run []; final = dict_or (aw_final a) [];
          selected = dict_or (aw_error a) (dict_or (aw_result a) final)
      in [(''run_id'', PStr i), (''conversation_id'', dget r ''conversation_id''), (''kind'', dget r ''kind''),
          (''status'', value_or (dget final ''status'') (value_or (dget r ''status'') (PStr ''completed''))),
          (''message_type'', PStr (if aw_error a \<noteq> None then ''error'' else if aw_result a \<noteq> None then ''result''
                                   else ''terminal'')),
          (''content'', value_or (dget selected ''content'') (PStr [])), (''result'', dget selected ''result''),
          (''error'', dget selected ''error''),
          (''event_type'', value_or (dget selected ''event_type'') (dget selected ''type'')),
          (''event'', PDict selected),
          (''finished_at'', value_or (dget r ''finished_at'') (dget final ''finished_at''))])"

section \<open>Recovery\<close>

text \<open>
  An event of the journal as \<open>append_indexed_events\<close> takes it.  Lines that
  \<open>append_event\<close> wrote are dictionaries with a dictionary as payload; others raise.
\<close>

definition event_index_or_0 :: "pyval \<Rightarrow> int result" where
  "event_index_or_0 v =
     (case v of PDict d \<Rightarrow> py_int (value_or (dget d ''event_index'') (PInt 0)) | _ \<Rightarrow> Inl AttributeError)"

definition journal_event :: "pyval \<Rightarrow> indexed_event result" where
  "journal_event v =
     (case v of
        PDict d \<Rightarrow>
          (case map_of d ''event_index'' of
             None \<Rightarrow> Inl (KeyError ''event_index'')
           | Some n \<Rightarrow>
              bind_result (py_int n) (\<lambda>k.
                case map_of d ''payload'' of
                  None \<Rightarrow> Inl (KeyError ''payload'')
                | Some (PDict p) \<Rightarrow>
                    (case dget d ''created_at'' of
                       PInt t \<Rightarrow> Inr \<lparr>ie_index = k, ie_payload = p, ie_created_at = Some t\<rparr>
                     | PNone \<Rightarrow> Inr \<lparr>ie_index = k, ie_payload = p, ie_created_at = None\<rparr>
                     | _ \<Rightarrow> Inl TypeError)
                | Some _ \<Rightarrow> Inl TypeError))
      | _ \<Rightarrow> Inl AttributeError)"

text \<open>
  One journal file.  The names of its directory and of itself stand for the conversation and the
  run; an exception leaves the run as it is.
\<close>

definition recover_file :: "run_env \<Rightarrow> int \<Rightarrow> string \<times> string \<Rightarrow> run_manager \<Rightarrow> run_manager" where
  "recover_file env now k m =
     (case rm_repo m of
        MemoryRepository _ \<Rightarrow> m
      | SQLiteRepository d \<Rightarrow>
         (case sql_get_run d (snd k) of
            Inr (Some x) \<Rightarrow>
              if is_finished (ri_status x) then m
              else
               (case journal_read (rm_journal m) (safe_name (fst k), safe_name (snd k)) of
                  Inl _ \<Rightarrow> m
                | Inr vs \<Rightarrow>
                   (case mapM_result (\<lambda>v. map_result (Pair v) (event_index_or_0 v)) vs of
                      Inl _ \<Rightarrow> m
                    | Inr indexed \<Rightarrow>
                        let pending = map fst (filter (\<lambda>p. int (ri_event_count x) \<le> snd p) indexed) in
                        case mapM_result journal_event pending of
                          Inl _ \<Rightarrow> m
                        | Inr es \<Rightarrow>
                            m\<lparr>rm_repo := SQLiteRepository
                              (snd (sql_append_indexed_events (en_codec env) now (snd k) es d))\<rparr>))
          | _ \<Rightarrow> m))"

definition recover_journal_events :: "run_env \<Rightarrow> int \<Rightarrow> run_manager \<Rightarrow> run_manager" where
  "recover_journal_events env now m = fold (recover_file env now) (map fst (rm_journal m)) m"

fun hydrate_all :: "int \<Rightarrow> run_info list \<Rightarrow> run_manager \<Rightarrow> unit result \<times> run_manager" where
  "hydrate_all now [] m = (Inr (), m)"
| "hydrate_all now (x # xs) m = then_do (hydrate_record now x m) (\<lambda>_ m. hydrate_all now xs m)"

definition hydrate_active_runs :: "int \<Rightarrow> run_manager \<Rightarrow> unit result \<times> run_manager" where
  "hydrate_active_runs now m =
     (case rep_list_active (rm_repo m) None of Inl e \<Rightarrow> (Inl e, m) | Inr xs \<Rightarrow> hydrate_all now xs m)"

definition fresh_manager :: "run_repository \<Rightarrow> journal \<Rightarrow> mem_state option \<Rightarrow> run_manager" where
  "fresh_manager rep j tasks =
     \<lparr>rm_repo = rep, rm_journal = j, rm_tasks = tasks, rm_runs = [], rm_events = [], rm_subscribers = [],
      rm_set_signals = [], rm_writers = [], rm_stop_events = [], rm_notified = [], rm_closing = False\<rparr>"

definition manager_init ::
  "run_env \<Rightarrow> int \<Rightarrow> run_repository \<Rightarrow> journal \<Rightarrow> mem_state option \<Rightarrow> unit result \<times> run_manager" where
  "manager_init env now rep j tasks = hydrate_active_runs now (recover_journal_events env now (fresh_manager rep j tasks))"

definition close_manager :: "run_manager \<Rightarrow> run_manager" where
  "close_manager m = m\<lparr>rm_closing := True\<rparr>"

end
