(* ===== verification/RunRows.thy ===== *)
theory RunRows
  imports RunSql
begin

text \<open>
  What the operations of the SQLite run repository do to the rows of active runs, as far as the
  run manager depends on it: an active row of before keeps its node, and only two operations, creation
  and \<open>update_target_node\<close>, make a row the active writer of another node.
\<close>

section \<open>Active rows\<close>

definition readable_row :: "run_row \<Rightarrow> bool" where
  "readable_row r = (case load_dict (r_metadata_json r) of Inl _ \<Rightarrow> False | Inr _ \<Rightarrow> True)"

definition live_row :: "run_row \<Rightarrow> bool" where
  "live_row r = (\<not> is_finished (r_status r) \<and> readable_row r)"

definition row_keep :: "run_row \<Rightarrow> run_row \<Rightarrow> bool" where
  "row_keep r r' =
     (r_id r' = r_id r \<and> (live_row r' \<longrightarrow> live_row r \<and> r_target_node r' = r_target_node r))"

definition rows_keep :: "db \<Rightarrow> db \<Rightarrow> bool" where
  "rows_keep d d' = list_all2 row_keep (runs d) (runs d')"

lemma row_keep_refl [simp]: "row_keep r r"
  by (simp add: row_keep_def)

lemma row_keep_trans: "row_keep r r' \<Longrightarrow> row_keep r' r'' \<Longrightarrow> row_keep r r''"
  by (simp add: row_keep_def)

lemma rows_keep_same: "runs d' = runs d \<Longrightarrow> rows_keep d d'"
  by (simp add: rows_keep_def list_all2_same)

lemma rows_keep_trans: "rows_keep d d' \<Longrightarrow> rows_keep d' d'' \<Longrightarrow> rows_keep d d''"
  unfolding rows_keep_def by (rule list_all2_trans [OF row_keep_trans])

lemma rows_keep_update:
  assumes "runs d' = update_rows P f (runs d)" and "\<And>r. r \<in> set (runs d) \<Longrightarrow> P r \<Longrightarrow> row_keep r (f r)"
  shows "rows_keep d d'"
  using assms(2) unfolding rows_keep_def assms(1) update_rows_def by (simp add: list_all2_conv_all_nth)

lemma rows_keep_update_run: "(\<And>r. row_keep r (f r)) \<Longrightarrow> rows_keep d (update_run_rows i f d)"
  by (rule rows_keep_update [where P = "\<lambda>r. r_id r = i" and f = f]) (simp_all add: update_run_rows_def)

text \<open>An update that changes neither status, metadata nor node.\<close>

lemma row_keep_same:
  "r_id r' = r_id r \<Longrightarrow> r_status r' = r_status r \<Longrightarrow> r_metadata_json r' = r_metadata_json r \<Longrightarrow>
   r_target_node r' = r_target_node r \<Longrightarrow> row_keep r r'"
  by (simp add: row_keep_def live_row_def readable_row_def)

lemma all2_keep_in_set: "list_all2 row_keep rs rs' \<Longrightarrow> r' \<in> set rs' \<Longrightarrow> \<exists>r \<in> set rs. row_keep r r'"
  by (induction rule: list_all2_induct) auto

lemma rows_keep_live:
  assumes "rows_keep d d'" and "r' \<in> set (runs d')" and "live_row r'"
  obtains r where "r \<in> set (runs d)" and "live_row r" and "r_id r = r_id r'" and "r_target_node r = r_target_node r'"
proof -
  from all2_keep_in_set [OF assms(1) [unfolded rows_keep_def] assms(2)] obtain r where "r \<in> set (runs d)" "row_keep r r'"
    by blast
  then show thesis using that [of r] assms(3) by (simp add: row_keep_def)
qed

section \<open>Operations that keep them\<close>

lemma transaction_keep:
  assumes "\<And>x d'. body d = Inr (x, d') \<Longrightarrow> rows_keep d d'"
  shows "rows_keep d (snd (transaction body d))"
  using assms by (auto simp: transaction_def rows_keep_same split: sum.split)

lemma append_event_keep: "append_event_in_connection E now i p d = Inr (e, d') \<Longrightarrow> rows_keep d d'"
  by (auto simp: append_event_in_connection_def bind_result_eq_Inr update_run_rows_def
      dest!: insert_indexed_event_runs intro!: rows_keep_update row_keep_same split: prod.splits)

lemma append_indexed_keep: "append_indexed_body E now i xs d = Inr (es, d') \<Longrightarrow> rows_keep d d'"
proof -
  assume "append_indexed_body E now i xs d = Inr (es, d')"
  from append_indexed_runs [OF this] obtain f where f: "runs d' = update_rows (\<lambda>r. r_id r = i) f (runs d)"
    and same: "\<And>r. \<exists>n t. f r = r\<lparr>r_event_count := r_event_count r + n, r_updated_at := t\<rparr>" by blast
  show ?thesis
  proof (rule rows_keep_update [OF f])
    fix r
    obtain n t where "f r = r\<lparr>r_event_count := r_event_count r + n, r_updated_at := t\<rparr>" using same by blast
    then show "row_keep r (f r)" by (simp add: row_keep_same)
  qed
qed

lemma append_indexed_op:
  "rows_keep d (snd (sql_append_indexed_events E now i xs d))"
  "rows_step d (snd (sql_append_indexed_events E now i xs d))"
  using transaction_keep [where body = "append_indexed_body E now i xs", of d] append_indexed_keep
    append_indexed_op_step
  by (auto simp: sql_append_indexed_events_def rows_keep_same split: prod.split sum.split)

lemma append_event_op_keep: "rows_keep d (snd (sql_append_event E now i p d))"
  using transaction_keep [where body = "append_event_in_connection E now i p", of d] append_event_keep
  by (auto simp: sql_append_event_def split: prod.split sum.split)

lemma update_and_read_keep: "(\<And>r. row_keep r (f r)) \<Longrightarrow> rows_keep d (snd (update_run_and_read i f ok d))"
  unfolding update_run_and_read_def
  by (auto simp: transaction_def rows_keep_same rows_keep_update_run split: prod.split sum.split option.split if_split)

lemma reference_keep:
  "rows_keep d (snd (sql_update_anchor_node now i nd d))"
  "rows_keep d (snd (sql_update_cancellation_parent now i p d))"
  unfolding sql_update_anchor_node_def sql_update_cancellation_parent_def
  by (rule update_and_read_keep; simp add: row_keep_same)+

lemma same_row: "sql_inv d \<Longrightarrow> run_row_of d i = Some r \<Longrightarrow> x \<in> set (runs d) \<Longrightarrow> r_id x = i \<Longrightarrow> x = r"
  using run_row_of_iff [of d i x] by simp

lemma update_known_row_keep:
  assumes "sql_inv d" and "run_row_of d i = Some r" and "row_keep r (f r)"
  shows "rows_keep d (update_run_rows i f d)"
  by (rule rows_keep_update [where P = "\<lambda>r. r_id r = i" and f = f])
    (use same_row [OF assms(1,2)] assms(3) in \<open>auto simp: update_run_rows_def\<close>)

lemma merge_metadata_keep:
  assumes "sql_inv d"
  shows "rows_keep d (snd (sql_merge_metadata now i md d))"
proof -
  have "rows_keep d d'" if b: "merge_metadata_body now i md d = Inr (x, d')" for x d'
  proof -
    obtain r old where r: "run_row_of d i = Some r" and old: "load_dict (r_metadata_json r) = Inr old"
      and d': "d' = update_run_rows i (\<lambda>r. r\<lparr>r_metadata_json := Some (json_field (dict_update old md)), r_updated_at := now\<rparr>) d"
      using b by (auto simp: merge_metadata_body_def require_run_row_def bind_result_eq_Inr map_result_eq_Inr Let_def
          split: option.splits)
    show ?thesis unfolding d'
      by (rule update_known_row_keep [OF assms r]) (simp add: row_keep_def live_row_def readable_row_def old)
  qed
  then show ?thesis
    using transaction_keep [where body = "merge_metadata_body now i md", of d]
    by (auto simp: sql_merge_metadata_def split: prod.split sum.split)
qed

lemma update_status_keep: "rows_keep d (snd (sql_update_status now i st d))"
  unfolding sql_update_status_def Let_def
  by (rule rows_keep_update [where P = "\<lambda>r. r_id r = i \<and> \<not> is_finished (r_status r)"])
    (auto simp: row_keep_def live_row_def readable_row_def)

lemma request_stop_keep:
  assumes "sql_inv d"
  shows "rows_keep d (snd (sql_request_stop E now i d))"
proof (cases "run_row_of d i")
  case (Some r)
  show ?thesis
  proof (cases "is_finished (r_status r)")
    case False
    let ?f = "\<lambda>r. r\<lparr>r_status := ''stopping'', r_updated_at := now\<rparr>"
    have st: "rows_keep d (update_run_rows i ?f d)"
      by (rule update_known_row_keep [OF assms Some]) (use False in \<open>simp add: row_keep_def live_row_def readable_row_def\<close>)
    have "snd (sql_request_stop E now i d) = snd (sql_append_event E now i
        [(''type'', PStr ''run_stop_requested''), (''run_id'', PStr i), (''status'', PStr ''stopping'')] (update_run_rows i ?f d))"
      using Some False by (simp add: sql_request_stop_def Let_def split: prod.split sum.split)
    then show ?thesis using rows_keep_trans [OF st append_event_op_keep] by simp
  qed (use Some in \<open>simp add: sql_request_stop_def rows_keep_same\<close>)
qed (simp add: sql_request_stop_def rows_keep_same)

section \<open>Finishing\<close>

text \<open>A run that the repository has finished is no active row any more.\<close>

lemma finish_body_rows:
  assumes "sql_inv d" and "run_row_of d (r_id r) = Some r" and "is_finished st"
    and "finish_run_body E wt now st err r d = Inr (r', d')"
  shows "rows_keep d d' \<and> (\<forall>x \<in> set (runs d'). r_id x = r_id r \<longrightarrow> \<not> live_row x)"
proof -
  let ?f = "\<lambda>md r. r\<lparr>r_status := st, r_metadata_json := Some (json_field md), r_finished_at := Some now, r_updated_at := now\<rparr>"
  let ?up = "\<lambda>md d1. update_run_rows (r_id r) (?f md) d1"
  obtain md v d1 ev x where b: "(if wt then finish_run_binding_in_connection E now (r_id r) st err (r_summary r) d
        else Inr (None, d)) = Inr (v, d1)"
    and a: "append_event_in_connection E now (r_id r) ev
      ((?up md d1)\<lparr>run_events := delete_rows (\<lambda>x. e_run_id x = r_id r) (run_events (?up md d1))\<rparr>) = Inr (x, d')"
      (is "append_event_in_connection _ _ _ _ ?d2 = _")
    using assms(4) by (auto simp: finish_run_body_def Let_def bind_result_eq_Inr map_result_eq_Inr split: prod.splits)
  have d1: "runs d1 = runs d" using b finish_binding_runs by (auto split: if_splits)
  have d2: "runs ?d2 = update_rows (\<lambda>x. r_id x = r_id r) (?f md) (runs d)" by (simp add: update_run_rows_def d1)
  have keep2: "rows_keep d ?d2"
    by (rule rows_keep_update [OF d2]) (use assms(3) in \<open>simp add: row_keep_def live_row_def\<close>)
  have dead: "\<not> live_row y" if "y \<in> set (runs ?d2)" "r_id y = r_id r" for y
    using that assms(3) unfolding d2 by (auto simp: update_rows_def live_row_def split: if_splits)
  have keep3: "rows_keep ?d2 d'" by (rule append_event_keep [OF a])
  have "\<not> live_row y" if y: "y \<in> set (runs d')" "r_id y = r_id r" for y
  proof
    assume "live_row y"
    then obtain z where "z \<in> set (runs ?d2)" "live_row z" "r_id z = r_id y" using rows_keep_live [OF keep3 y(1)] by blast
    then show False using dead y(2) by simp
  qed
  then show ?thesis using rows_keep_trans [OF keep2 keep3] by blast
qed

lemma runs_reclaim: "runs (snd (reclaim_blobs d)) = runs d"
  by (simp add: reclaim_blobs_def Let_def)

lemma finish_run_rows:
  assumes "sql_inv d" and "is_finished st"
  shows "rows_keep d (snd (sql_finish_run E wt now i st err d))" (is ?keep)
    and "fst (sql_finish_run E wt now i st err d) = Inr x \<Longrightarrow>
      \<forall>y \<in> set (runs (snd (sql_finish_run E wt now i st err d))). r_id y = i \<longrightarrow> \<not> live_row y"
proof -
  have "?keep \<and> (fst (sql_finish_run E wt now i st err d) = Inr x \<longrightarrow>
      (\<forall>y \<in> set (runs (snd (sql_finish_run E wt now i st err d))). r_id y = i \<longrightarrow> \<not> live_row y))"
  proof (cases "run_row_of d i")
    case (Some r)
    have i: "r_id r = i" using Some run_row_of_iff [OF assms(1)] by blast
    show ?thesis
    proof (cases "is_finished (r_status r)")
      case True
      have "\<not> live_row y" if "y \<in> set (runs d)" "r_id y = i" for y
        using same_row [OF assms(1) Some that] True by (simp add: live_row_def)
      then show ?thesis using Some True by (simp add: sql_finish_run_def require_run_row_def rows_keep_same)
    next
      case False
      show ?thesis
      proof (cases "finish_run_body E wt now st err r d")
        case (Inl e)
        then show ?thesis using Some False
          by (simp add: sql_finish_run_def require_run_row_def transaction_def rows_keep_same)
      next
        case (Inr p)
        obtain r' d' where p: "p = (r', d')" by (cases p)
        have R: "rows_keep d d' \<and> (\<forall>x \<in> set (runs d'). r_id x = r_id r \<longrightarrow> \<not> live_row x)"
          by (rule finish_body_rows [OF assms(1) _ assms(2) Inr [unfolded p]]) (simp add: Some i)
        show ?thesis using Some False Inr R i
          by (auto simp: p sql_finish_run_def require_run_row_def transaction_def rows_keep_same runs_reclaim
              rows_keep_def list_all2_same split: sum.split)
      qed
    qed
  qed (simp add: sql_finish_run_def require_run_row_def rows_keep_same)
  then show ?keep and "fst (sql_finish_run E wt now i st err d) = Inr x \<Longrightarrow>
      \<forall>y \<in> set (runs (snd (sql_finish_run E wt now i st err d))). r_id y = i \<longrightarrow> \<not> live_row y" by blast+
qed

section \<open>The two operations that set a node\<close>

lemma update_target_cases:
  obtains (refused) e where "sql_update_target_node now i nd d = (Inl e, d)"
    | (done_so) r where "run_row_of d i = Some r"
        and "sql_update_target_node now i nd d =
          (run_from_row (r\<lparr>r_target_node := Some nd, r_updated_at := now\<rparr>),
           update_run_rows i (\<lambda>r. r\<lparr>r_target_node := Some nd, r_updated_at := now\<rparr>) d)"
proof (cases "run_row_of d i")
  case None
  then show ?thesis by (intro refused [of "KeyError i"]) (simp add: sql_update_target_node_def update_run_and_read_def transaction_def)
next
  case (Some r)
  show ?thesis
  proof (cases "has_node d (r_conversation_id r) nd")
    case True
    then show ?thesis using Some
      by (intro done_so [of r]) (simp_all add: sql_update_target_node_def update_run_and_read_def transaction_def)
  next
    case False
    then show ?thesis using Some
      by (intro refused [of "IntegrityError ''FOREIGN KEY constraint failed''"])
        (simp add: sql_update_target_node_def update_run_and_read_def transaction_def)
  qed
qed

lemma update_target_rows:
  assumes "sql_inv d" and "y \<in> set (runs (snd (sql_update_target_node now i nd d)))" and "live_row y"
  shows "\<exists>r \<in> set (runs d). live_row r \<and> r_id r = r_id y \<and>
     (r_target_node y = r_target_node r \<or>
      r_id y = i \<and> r_target_node y = Some nd \<and> (\<exists>x. fst (sql_update_target_node now i nd d) = Inr x))"
proof (cases rule: update_target_cases [of now i nd d])
  case (refused e)
  then show ?thesis using assms(2,3) by auto
next
  case (done_so r)
  let ?f = "\<lambda>r. r\<lparr>r_target_node := Some nd, r_updated_at := now\<rparr>"
  have r: "r \<in> set (runs d)" "r_id r = i" using done_so(1) run_row_of_iff [OF assms(1)] by blast+
  obtain z where z: "z \<in> set (runs d)" and y: "y = (if r_id z = i then ?f z else z)"
    using assms(2) unfolding done_so(2) by (auto simp: update_run_rows_def update_rows_def)
  show ?thesis
  proof (cases "r_id z = i")
    case True
    then have "z = r" using same_row [OF assms(1) done_so(1) z] by simp
    then have y: "y = ?f r" using y True by simp
    then have live: "live_row r" using assms(3) by (simp add: live_row_def readable_row_def)
    then have "\<exists>x. run_from_row (?f r) = Inr x"
      by (auto simp: live_row_def readable_row_def run_from_row_def map_result_def split: sum.splits)
    then show ?thesis using r live by (intro bexI [of _ r]) (simp_all add: y done_so(2))
  qed (use y z assms(3) in auto)
qed

text \<open>A refused creation keeps the rows, a creation adds one.\<close>

lemma create_body_adds:
  assumes "create_run_body i now q d = Inr (x, d')"
  obtains row where "runs d' = runs d @ [row]" and "i \<notin> r_id ` set (runs d)" and "run_from_row row = Inr x"
    and "r_id row = i" and "r_status row = ''running''" and "r_kind row = rq_kind q"
    and "r_target_node row = rq_target_node q"
proof -
  let ?row = "\<lparr>r_id = i, r_conversation_id = rq_conversation_id q, r_kind = rq_kind q, r_status = ''running'',
        r_created_by = rq_created_by q, r_cancellation_parent = rq_cancellation_parent q,
        r_anchor_node = rq_anchor_node q, r_target_node = rq_target_node q, r_summary = rq_summary q,
        r_metadata_json = Some (json_field (rq_metadata q)), r_event_count = 0, r_created_at = now,
        r_updated_at = now, r_finished_at = None, r_idempotency_key = rq_idempotency_key q,
        r_request_fingerprint = rq_fingerprint q\<rparr>"
  obtain d1 y where d1: "insert_run_row ?row d = Inr d1"
    and rest: "(case rq_binding q of None \<Rightarrow> Inr d1
       | Some b \<Rightarrow> bind_result (bind_run_in_connection now i b d1) (\<lambda>((g, p), d2).
           Inr (update_run_rows i (\<lambda>r. r\<lparr>r_metadata_json := Some (json_field
             (dict_update (rq_metadata q) [(''task_generation_id'', PStr g), (''task_step_position'', PInt p)]))\<rparr>) d2)))
         = Inr d'"
    and y: "run_row_of d' i = Some y" "run_from_row y = Inr x"
    using assms by (auto simp: create_run_body_def insert_run_in_connection_def bind_result_eq_Inr map_result_eq_Inr
        split: option.splits)
  have ins: "runs d1 = runs d @ [?row]" and fresh: "i \<notin> r_id ` set (runs d)"
    using d1 by (auto simp: insert_run_row_def Let_def split: if_splits)
  have "\<exists>md. runs d' = runs d @ [?row\<lparr>r_metadata_json := md\<rparr>]"
  proof (cases "rq_binding q")
    case None
    then show ?thesis using rest ins by (intro exI [of _ "Some (json_field (rq_metadata q))"]) simp
  next
    case (Some b)
    then obtain g p d2 where d2: "bind_run_in_connection now i b d1 = Inr ((g, p), d2)"
      and d': "d' = update_run_rows i (\<lambda>r. r\<lparr>r_metadata_json := Some (json_field
             (dict_update (rq_metadata q) [(''task_generation_id'', PStr g), (''task_step_position'', PInt p)]))\<rparr>) d2"
      using rest by (auto simp: bind_result_eq_Inr)
    let ?md = "Some (json_field (dict_update (rq_metadata q)
             [(''task_generation_id'', PStr g), (''task_step_position'', PInt p)]))"
    let ?f = "\<lambda>r :: run_row. r\<lparr>r_metadata_json := ?md\<rparr>"
    have "runs d' = map (\<lambda>r. if r_id r = i then ?f r else r) (runs d @ [?row])"
      using bind_run_runs [OF d2] ins d' by (simp add: update_run_rows_def update_rows_def)
    moreover have "map (\<lambda>r. if r_id r = i then ?f r else r) (runs d) = runs d"
      using fresh by (intro map_idI) auto
    ultimately show ?thesis by (intro exI [of _ ?md]) simp
  qed
  then obtain md where md: "runs d' = runs d @ [?row\<lparr>r_metadata_json := md\<rparr>]" ..
  have "select (\<lambda>r. r_id r = i) (runs d) = []" using fresh by (force simp: select_def filter_empty_conv)
  then have "y = ?row\<lparr>r_metadata_json := md\<rparr>" using y(1) by (simp add: run_row_of_def md)
  then show thesis using that [OF md fresh] y(2) by simp
qed

lemma delete_rows_live:
  assumes "y \<in> set (runs (sql_delete_run i d))" and "live_row y"
  shows "\<exists>r \<in> set (runs d). live_row r \<and> r_id r = r_id y \<and> r_target_node r = r_target_node y"
  using assms unfolding sql_delete_runs by (auto simp: forget_row_def live_row_def readable_row_def)

end
