(* ===== verification/RunWriters.thy ===== *)
theory RunWriters
  imports RunManagerOps RunRows
begin

text \<open>
  One writer for each node.  The invariant of the run manager over the SQLite repository: a
  cached run that is active and has a target node is registered as the writer of that node, and
  every active row of the table is cached as an active run with the same node.  Every section of every
  handler keeps it, and so does a restart.
\<close>

section \<open>The invariant\<close>

definition writers_ok :: "run_manager \<Rightarrow> bool" where
  "writers_ok m =
     (map_of (rm_runs m) [] = None \<and>
      (\<forall>i r t. map_of (rm_runs m) i = Some r \<longrightarrow> \<not> record_finished r \<longrightarrow> rr_target_node_id r = Some t \<longrightarrow> t \<noteq> [] \<longrightarrow>
         map_of (rm_writers m) t = Some i))"

definition cached_ok :: "db \<Rightarrow> run_manager \<Rightarrow> bool" where
  "cached_ok d m =
     ([] \<notin> r_id ` set (runs d) \<and>
      (\<forall>row \<in> set (runs d). live_row row \<longrightarrow>
         (\<exists>r. map_of (rm_runs m) (r_id row) = Some r \<and> \<not> record_finished r \<and>
            (truthy_opt (r_target_node row) \<longrightarrow> rr_target_node_id r = r_target_node row))))"

definition mgr_inv :: "run_manager \<Rightarrow> bool" where
  "mgr_inv m = (\<exists>d. rm_repo m = SQLiteRepository d \<and> sql_inv d \<and> writers_ok m \<and> cached_ok d m)"

lemma writers_okD:
  "writers_ok m \<Longrightarrow> map_of (rm_runs m) i = Some r \<Longrightarrow> \<not> record_finished r \<Longrightarrow> rr_target_node_id r = Some t \<Longrightarrow> t \<noteq> [] \<Longrightarrow>
   map_of (rm_writers m) t = Some i"
  unfolding writers_ok_def by blast

lemma cached_okE:
  assumes "cached_ok d m" and "row \<in> set (runs d)" and "live_row row"
  obtains r where "map_of (rm_runs m) (r_id row) = Some r" and "\<not> record_finished r"
    and "truthy_opt (r_target_node row) \<longrightarrow> rr_target_node_id r = r_target_node row"
  using assms unfolding cached_ok_def by blast

lemma mgr_invE:
  assumes "mgr_inv m"
  obtains d where "rm_repo m = SQLiteRepository d" and "sql_inv d" and "writers_ok m" and "cached_ok d m"
  using assms unfolding mgr_inv_def by blast

lemma mgr_invI:
  "rm_repo m = SQLiteRepository d \<Longrightarrow> sql_inv d \<Longrightarrow> writers_ok m \<Longrightarrow> cached_ok d m \<Longrightarrow> mgr_inv m"
  unfolding mgr_inv_def by blast

text \<open>No run has the empty string for its identifier, which the code takes for no run.\<close>

lemma named_runsD: "writers_ok m \<Longrightarrow> map_of (rm_runs m) j = Some r \<Longrightarrow> j \<noteq> []"
  by (auto simp: writers_ok_def)

lemma named_rowsD: "cached_ok d m \<Longrightarrow> row \<in> set (runs d) \<Longrightarrow> r_id row \<noteq> []"
  by (force simp: cached_ok_def)

lemma cached_okI:
  assumes "[] \<notin> r_id ` set (runs d)"
    and "\<And>row. row \<in> set (runs d) \<Longrightarrow> live_row row \<Longrightarrow>
      \<exists>r. map_of (rm_runs m) (r_id row) = Some r \<and> \<not> record_finished r \<and>
        (truthy_opt (r_target_node row) \<longrightarrow> rr_target_node_id r = r_target_node row)"
  shows "cached_ok d m"
  using assms unfolding cached_ok_def by blast

lemma rows_keep_ids: "rows_keep d d' \<Longrightarrow> r_id ` set (runs d') = r_id ` set (runs d)"
proof -
  have "list_all2 row_keep rs rs' \<Longrightarrow> map r_id rs' = map r_id rs" for rs rs'
    by (induction rule: list_all2_induct) (simp_all add: row_keep_def)
  then show "rows_keep d d' \<Longrightarrow> ?thesis" unfolding rows_keep_def by (metis list.set_map)
qed

text \<open>It is about the repository, the records and the writers only.\<close>

lemma mgr_inv_cong:
  "rm_repo m' = rm_repo m \<Longrightarrow> rm_runs m' = rm_runs m \<Longrightarrow> rm_writers m' = rm_writers m \<Longrightarrow> mgr_inv m \<Longrightarrow> mgr_inv m'"
  by (simp add: mgr_inv_def writers_ok_def cached_ok_def)

lemma mgr_inv_fields [simp]:
  "mgr_inv (m\<lparr>rm_events := a\<rparr>) = mgr_inv m"
  "mgr_inv (m\<lparr>rm_journal := b\<rparr>) = mgr_inv m"
  "mgr_inv (m\<lparr>rm_set_signals := c\<rparr>) = mgr_inv m"
  "mgr_inv (m\<lparr>rm_subscribers := e\<rparr>) = mgr_inv m"
  "mgr_inv (m\<lparr>rm_stop_events := f\<rparr>) = mgr_inv m"
  "mgr_inv (m\<lparr>rm_notified := g\<rparr>) = mgr_inv m"
  "mgr_inv (m\<lparr>rm_closing := h\<rparr>) = mgr_inv m"
  by (simp_all add: mgr_inv_def writers_ok_def cached_ok_def)

lemma mgr_inv_add_cached [simp]: "mgr_inv (add_cached i es m) = mgr_inv m"
  by (simp add: add_cached_def)

lemma mgr_inv_signal [simp]: "mgr_inv (signal_subscribers i m) = mgr_inv m"
  by (simp add: signal_subscribers_def)

lemma mgr_inv_notify [simp]: "mgr_inv (notify_listeners r m) = mgr_inv m"
  by (simp add: notify_listeners_def)

lemma mgr_inv_rows:
  assumes "mgr_inv m" and "rm_repo m = SQLiteRepository d" and "rows_keep d d'" and "rows_step d d'"
  shows "mgr_inv (m\<lparr>rm_repo := SQLiteRepository d'\<rparr>)"
proof -
  from assms(1,2) have d: "sql_inv d" "writers_ok m" "cached_ok d m" by (auto elim: mgr_invE)
  have "cached_ok d' m"
  proof (rule cached_okI)
    show "[] \<notin> r_id ` set (runs d')" using d(3) rows_keep_ids [OF assms(3)] by (simp add: cached_ok_def)
    fix row assume row: "row \<in> set (runs d')" "live_row row"
    obtain row0 where "row0 \<in> set (runs d)" "live_row row0" "r_id row0 = r_id row" "r_target_node row0 = r_target_node row"
      using rows_keep_live [OF assms(3) row] .
    then show "\<exists>r. map_of (rm_runs m) (r_id row) = Some r \<and> \<not> record_finished r \<and>
        (truthy_opt (r_target_node row) \<longrightarrow> rr_target_node_id r = r_target_node row)"
      using d(3) by (fastforce simp: cached_ok_def)
  qed
  then show ?thesis using d rows_step_inv [OF assms(4)] by (simp add: mgr_inv_def writers_ok_def cached_ok_def)
qed

lemma on_repo_sql:
  "rm_repo m = SQLiteRepository d \<Longrightarrow>
   on_repo (on_repository f g) m = (fst (g d), m\<lparr>rm_repo := SQLiteRepository (snd (g d))\<rparr>)"
  by (simp add: on_repo_def on_repository_def split: prod.split)

lemma mgr_inv_then_do:
  "mgr_inv (snd x) \<Longrightarrow> (\<And>a m. x = (Inr a, m) \<Longrightarrow> mgr_inv m \<Longrightarrow> mgr_inv (snd (f a m))) \<Longrightarrow> mgr_inv (snd (then_do x f))"
  by (auto simp: then_do_def split: prod.split sum.split)

section \<open>Records\<close>

lemma map_of_put_record [simp]: "map_of (rm_runs (put_record i r m)) = (map_of (rm_runs m))(i \<mapsto> r)"
  by (simp add: put_record_def)

lemma put_record_other [simp]:
  "rm_repo (put_record i r m) = rm_repo m"
  "rm_writers (put_record i r m) = rm_writers m"
  by (simp_all add: put_record_def)

lemma mgr_inv_put:
  assumes "mgr_inv m" and "map_of (rm_runs m) i = Some r" and "rr_target_node_id r' = rr_target_node_id r"
    and "record_finished r' = record_finished r"
  shows "mgr_inv (put_record i r' m)"
proof -
  from assms(1) obtain d where d: "rm_repo m = SQLiteRepository d" "sql_inv d" and w: "writers_ok m" and c: "cached_ok d m"
    by (rule mgr_invE)
  have "writers_ok (put_record i r' m)"
    using w assms(2-4) named_runsD [OF w assms(2)] unfolding writers_ok_def by (simp split: if_split)
  moreover have "cached_ok d (put_record i r' m)"
  proof (rule cached_okI)
    show "[] \<notin> r_id ` set (runs d)" using c by (simp add: cached_ok_def)
    fix row assume row: "row \<in> set (runs d)" "live_row row"
    show "\<exists>x. map_of (rm_runs (put_record i r' m)) (r_id row) = Some x \<and> \<not> record_finished x \<and>
        (truthy_opt (r_target_node row) \<longrightarrow> rr_target_node_id x = r_target_node row)"
    proof (rule cached_okE [OF c row])
      fix x assume "map_of (rm_runs m) (r_id row) = Some x" "\<not> record_finished x"
        "truthy_opt (r_target_node row) \<longrightarrow> rr_target_node_id x = r_target_node row"
      then show ?thesis using assms(2-4) by (cases "r_id row = i") auto
    qed
  qed
  ultimately show ?thesis using d by (auto intro: mgr_invI)
qed

text \<open>A record may become finished once its row is no active row.\<close>

lemma mgr_inv_put_finished:
  assumes "mgr_inv m" and "rm_repo m = SQLiteRepository d" and "record_finished r'" and "i \<noteq> []"
    and "\<forall>y \<in> set (runs d). r_id y = i \<longrightarrow> \<not> live_row y"
  shows "mgr_inv (put_record i r' m)"
proof -
  from assms(1,2) have d: "sql_inv d" and w: "writers_ok m" and c: "cached_ok d m" by (auto elim: mgr_invE)
  have "writers_ok (put_record i r' m)"
    using w assms(3,4) unfolding writers_ok_def by (simp split: if_split)
  moreover have "cached_ok d (put_record i r' m)"
    using c assms(5) unfolding cached_ok_def by simp
  ultimately show ?thesis using d assms(2) by (auto intro: mgr_invI)
qed

lemma mgr_inv_release:
  assumes "mgr_inv m" and "map_of (rm_runs m) i = Some x" and "record_finished x"
  shows "mgr_inv (release_writer i r m)"
proof -
  from assms(1) obtain d where d: "rm_repo m = SQLiteRepository d" "sql_inv d" and w: "writers_ok m" and c: "cached_ok d m"
    by (rule mgr_invE)
  have "map_of (rm_writers (release_writer i r m)) t = Some j"
    if j: "map_of (rm_runs m) j = Some y" "\<not> record_finished y" "rr_target_node_id y = Some t" "t \<noteq> []" for j y t
  proof -
    have "j \<noteq> i" using j(1,2) assms(2,3) by auto
    then show ?thesis using writers_okD [OF w j] by (auto simp: release_writer_def)
  qed
  moreover have "rm_runs (release_writer i r m) = rm_runs m" by (simp add: release_writer_def)
  ultimately have "writers_ok (release_writer i r m)" using w unfolding writers_ok_def by simp
  moreover have "cached_ok d (release_writer i r m)" using c by (simp add: cached_ok_def release_writer_def)
  ultimately show ?thesis using d by (auto intro!: mgr_invI simp: release_writer_def)
qed

lemma parse_run_status_finished: "parse_run_status s = Inr st \<Longrightarrow> st \<in> set FINISHED_RUN_STATUSES \<longleftrightarrow> is_finished s"
proof -
  assume "parse_run_status s = Inr st"
  then have "run_status_value st = s"
    by (auto simp: parse_run_status_def find_Some_iff split: option.splits)
  then show ?thesis using finished_values [of st] by simp
qed

lemma or_running_finished: "is_finished (or_string s ''running'') = is_finished s"
  by (simp add: or_string_def is_finished_def FINISHED_STATUSES_def)

text \<open>Reading a run again changes nothing the invariant speaks about.\<close>

definition stored_run :: "run_manager \<Rightarrow> run_info \<Rightarrow> bool" where
  "stored_run m x =
     (case rm_repo m of MemoryRepository _ \<Rightarrow> False | SQLiteRepository d \<Rightarrow> \<exists>y \<in> set (runs d). run_from_row y = Inr x)"

lemma run_from_row_more:
  "run_from_row y = Inr x \<Longrightarrow> ri_status x = r_status y \<and> ri_target_node x = r_target_node y \<and> readable_row y"
  by (auto simp: run_from_row_def map_result_def readable_row_def split: sum.splits)

lemma stored_run_get:
  assumes "rep_get_run (rm_repo m) i = Inr (Some x)" and "mgr_inv m"
  shows "stored_run m x \<and> ri_id x = i"
proof -
  from assms(2) obtain d where d: "rm_repo m = SQLiteRepository d" by (rule mgr_invE)
  then obtain y where y: "run_row_of d i = Some y" "run_from_row y = Inr x"
    using assms(1) by (auto simp: rep_get_run_def sql_get_run_def map_result_eq_Inr split: option.splits)
  then have "y \<in> set (runs d)" "r_id y = i" using fetchone_select_SomeD unfolding run_row_of_def by fast+
  then show ?thesis using d y(2) run_from_row_fields [OF y(2)] by (auto simp: stored_run_def)
qed

lemma stored_run_key: "rep_get_run_by_idempotency_key (rm_repo m) k = Inr (Some x) \<Longrightarrow> mgr_inv m \<Longrightarrow> stored_run m x"
  by (auto simp: rep_get_run_by_idempotency_key_def sql_get_run_by_idempotency_key_def stored_run_def mgr_inv_def
      map_result_eq_Inr dest!: fetchone_select_SomeD split: option.splits)

lemma register_other [simp]:
  "rm_repo (register_writer i r m) = rm_repo m"
  "rm_runs (register_writer i r m) = rm_runs m"
  by (simp_all add: register_writer_def)

lemma register_registered:
  "map_of (rm_writers m) (or_empty (rr_target_node_id r)) = Some i \<or> record_finished r \<or> \<not> truthy_opt (rr_target_node_id r) \<Longrightarrow>
   map_of (rm_writers (register_writer i r m)) = map_of (rm_writers m)"
  by (auto simp: register_writer_def fun_upd_idem)

lemma mgr_inv_writers:
  "mgr_inv m \<Longrightarrow> rm_repo m' = rm_repo m \<Longrightarrow> rm_runs m' = rm_runs m \<Longrightarrow> map_of (rm_writers m') = map_of (rm_writers m) \<Longrightarrow>
   mgr_inv m'"
  by (simp add: mgr_inv_def writers_ok_def cached_ok_def)

lemma mgr_inv_hydrate:
  assumes "mgr_inv m" and "stored_run m x"
  shows "mgr_inv (snd (hydrate_record now x m)) \<and>
    (\<forall>r. fst (hydrate_record now x m) = Inr r \<longrightarrow> map_of (rm_runs (snd (hydrate_record now x m))) (ri_id x) = Some r)"
proof -
  from assms(1) obtain d where d: "rm_repo m = SQLiteRepository d" "sql_inv d" and w: "writers_ok m" and c: "cached_ok d m"
    by (rule mgr_invE)
  obtain y where y: "y \<in> set (runs d)" "run_from_row y = Inr x" using assms(2) d(1) by (auto simp: stored_run_def)
  have named: "r_id y \<noteq> []" by (rule named_rowsD [OF c y(1)])
  have yx: "r_id y = ri_id x" "r_status y = ri_status x" "readable_row y"
    using run_from_row_fields [OF y(2)] run_from_row_more [OF y(2)] by simp_all
  have rows: "z = y" if "z \<in> set (runs d)" "r_id z = ri_id x" for z
    using that y(1) yx(1) run_row_of_iff [OF d(2), of "ri_id x"] by (metis option.inject)
  show ?thesis
  proof (cases "parse_run_status (or_string (ri_status x) ''running'')")
    case st: (Inr st)
    have fin: "st \<in> set FINISHED_RUN_STATUSES \<longleftrightarrow> \<not> live_row y"
      using parse_run_status_finished [OF st] yx by (simp add: live_row_def or_running_finished)
    show ?thesis
    proof (cases "parse_run_kind (or_string (ri_kind x) ''chat'')")
      case k: (Inr k)
      show ?thesis
      proof (cases "map_of (rm_runs m) (ri_id x)")
        case None
        have dead: "\<not> live_row y" using cached_okE [OF c y(1)] None yx(1) by fastforce
        then have ended: "record_finished (new_record now k st x)" using fin by (simp add: record_finished_def new_record_def)
        have "mgr_inv (put_record (ri_id x) (new_record now k st x) m)"
          by (rule mgr_inv_put_finished [OF assms(1) d(1) ended]) (use rows dead named yx in auto)
        then show ?thesis using st k None ended by (simp add: hydrate_record_def Let_def register_writer_def)
      next
        case (Some r)
        let ?r = "rehydrated st x r"
        have f: "record_finished ?r \<longleftrightarrow> \<not> live_row y" "rr_target_node_id ?r = rr_target_node_id r"
          using fin by (simp_all add: record_finished_def rehydrated_def)
        have inv: "mgr_inv (put_record (ri_id x) ?r m)"
        proof (cases "live_row y")
          case True
          then have "\<not> record_finished r" using cached_okE [OF c y(1)] Some yx(1) by fastforce
          then show ?thesis by (intro mgr_inv_put [OF assms(1) Some]) (use f True in simp_all)
        next
          case False
          show ?thesis by (rule mgr_inv_put_finished [OF assms(1) d(1)]) (use f rows False named yx in auto)
        qed
        have "map_of (rm_writers (register_writer (ri_id x) ?r (put_record (ri_id x) ?r m))) = map_of (rm_writers m)"
        proof -
          have "map_of (rm_writers m) (or_empty (rr_target_node_id ?r)) = Some (ri_id x)"
            if "\<not> record_finished ?r" "truthy_opt (rr_target_node_id ?r)"
            using writers_okD [of "put_record (ri_id x) ?r m" "ri_id x" ?r "or_empty (rr_target_node_id ?r)"] that inv
            by (auto elim!: mgr_invE simp: truthy_opt_def split: option.splits)
          then show ?thesis using register_registered [of "put_record (ri_id x) ?r m" ?r "ri_id x"] by auto
        qed
        then have "mgr_inv (register_writer (ri_id x) ?r (put_record (ri_id x) ?r m))"
          by (intro mgr_inv_writers [OF inv]) simp_all
        then show ?thesis using st k Some by (simp add: hydrate_record_def Let_def)
      qed
    qed (use st assms(1) in \<open>simp add: hydrate_record_def\<close>)
  qed (use assms(1) in \<open>simp add: hydrate_record_def\<close>)
qed

lemma mgr_inv_require:
  assumes "mgr_inv m" and "require_run now i m = (out, m')"
  shows "mgr_inv m'" and "out = Inr r \<Longrightarrow> map_of (rm_runs m') i = Some r"
proof -
  have "mgr_inv m' \<and> (out = Inr r \<longrightarrow> map_of (rm_runs m') i = Some r)"
  proof (cases "map_of (rm_runs m) i")
    case None
    show ?thesis
    proof (cases "rep_get_run (rm_repo m) i")
      case (Inr o')
      show ?thesis
      proof (cases o')
        case (Some x)
        have x: "stored_run m x" "ri_id x = i" using stored_run_get [OF Inr [unfolded Some] assms(1)] by simp_all
        show ?thesis using mgr_inv_hydrate [OF assms(1) x(1), of now] assms(2) None Inr Some x(2)
          by (auto simp: require_run_def hydrate_run_def then_do_def split: prod.splits sum.splits)
      qed (use assms None Inr in \<open>auto simp: require_run_def hydrate_run_def\<close>)
    qed (use assms None in \<open>auto simp: require_run_def hydrate_run_def\<close>)
  qed (use assms in \<open>auto simp: require_run_def\<close>)
  then show "mgr_inv m'" and "out = Inr r \<Longrightarrow> map_of (rm_runs m') i = Some r" by blast+
qed

lemma mgr_inv_then_require:
  assumes "mgr_inv m" and "\<And>r m'. mgr_inv m' \<Longrightarrow> map_of (rm_runs m') i = Some r \<Longrightarrow> mgr_inv (snd (f r m'))"
  shows "mgr_inv (snd (then_do (require_run now i m) f))"
proof -
  obtain out m' where "require_run now i m = (out, m')" by fastforce
  note R = mgr_inv_require [OF assms(1) this] and eq = this
  show ?thesis using R(1) R(2) assms(2) eq by (cases out) auto
qed

section \<open>Sections that only read or stream\<close>

lemma mgr_inv_get_run: "mgr_inv m \<Longrightarrow> mgr_inv (snd (get_run now i m))"
  using stored_run_get [of m i] mgr_inv_hydrate [of m]
  by (auto simp: get_run_def split: option.split sum.split intro!: mgr_inv_then_do)

lemma mgr_inv_ensure_events: "mgr_inv m \<Longrightarrow> mgr_inv (snd (ensure_events_loaded env i m))"
  by (auto simp: ensure_events_loaded_def Let_def split: option.split sum.split)

lemma mgr_inv_append_events:
  assumes "mgr_inv m"
  shows "mgr_inv (snd (append_events now i ps m))"
proof (cases "ps = []")
  case False
  have "mgr_inv (snd (case rm_repo m of SQLiteRepository d \<Rightarrow> append_streamed now i r ps m
      | MemoryRepository s \<Rightarrow> append_stored now i r ps s m))"
    if "mgr_inv m" "map_of (rm_runs m) i = Some r" for r m
  proof -
    from that(1) obtain d where "rm_repo m = SQLiteRepository d" by (rule mgr_invE)
    moreover have "mgr_inv (put_record i (r\<lparr>rr_event_count := n, rr_updated_at := now\<rparr>) m)" for n
      by (rule mgr_inv_put [OF that]) (simp_all add: record_finished_def)
    ultimately show ?thesis by (simp add: append_streamed_def Let_def)
  qed
  then show ?thesis using False by (simp add: append_events_def mgr_inv_then_require [OF assms])
qed (use assms in \<open>simp add: append_events_def\<close>)

lemma mgr_inv_append_event: "mgr_inv m \<Longrightarrow> mgr_inv (snd (append_event now i p m))"
  unfolding append_event_def
  by (rule mgr_inv_then_do) (auto simp: mgr_inv_append_events split: list.split)

lemma mgr_inv_announce:
  "mgr_inv (snd out) \<Longrightarrow> mgr_inv (snd (announce now i p out))"
  unfolding announce_def
  by (rule mgr_inv_then_do) (auto simp: mgr_inv_append_event split: prod.split intro!: mgr_inv_then_do)

lemma mgr_inv_subscribe: "mgr_inv m \<Longrightarrow> mgr_inv (snd (subscribe_section now i m))"
  unfolding subscribe_section_def by (rule mgr_inv_then_require) simp_all

lemma mgr_inv_poll: "mgr_inv m \<Longrightarrow> mgr_inv (snd (poll_section env now i n s m))"
  unfolding poll_section_def
  by (rule mgr_inv_then_require) (auto simp: Let_def mgr_inv_ensure_events intro!: mgr_inv_then_do)

lemma mgr_inv_unsubscribe: "mgr_inv m \<Longrightarrow> mgr_inv (unsubscribe i s m)"
  by (simp add: unsubscribe_def Let_def split: option.split)

lemma mgr_inv_read_events: "mgr_inv m \<Longrightarrow> mgr_inv (snd (read_events env now i n m))"
  by (auto simp: read_events_def Let_def mgr_inv_get_run split: option.split intro!: mgr_inv_then_do)

section \<open>Sections that change a run\<close>

lemma mgr_inv_on_repo:
  assumes "mgr_inv m" and "\<And>d. sql_inv d \<Longrightarrow> rows_keep d (snd (g d)) \<and> rows_step d (snd (g d))"
  shows "mgr_inv (snd (on_repo (on_repository f g) m))"
proof -
  from assms(1) obtain d where d: "rm_repo m = SQLiteRepository d" "sql_inv d" by (rule mgr_invE)
  then show ?thesis using mgr_inv_rows [OF assms(1) d(1)] assms(2) [OF d(2)] by (simp add: on_repo_sql)
qed

lemma on_repo_runs: "rm_runs (snd (on_repo f m)) = rm_runs m" "rm_writers (snd (on_repo f m)) = rm_writers m"
  by (simp_all add: on_repo_def split: prod.split)

text \<open>A change through the repository, and then of the record, that keeps node and end.\<close>

lemma mgr_inv_change:
  assumes "mgr_inv m" and "map_of (rm_runs m) i = Some r"
    and "\<And>d. sql_inv d \<Longrightarrow> rows_keep d (snd (g d)) \<and> rows_step d (snd (g d))"
    and "\<And>x m'. mgr_inv m' \<Longrightarrow> map_of (rm_runs m') i = Some r \<Longrightarrow> mgr_inv (snd (h x m'))"
  shows "mgr_inv (snd (then_do (on_repo (on_repository f g) m) h))"
proof (rule mgr_inv_then_do)
  show "mgr_inv (snd (on_repo (on_repository f g) m))" by (rule mgr_inv_on_repo [OF assms(1,3)])
  fix x m' assume "on_repo (on_repository f g) m = (Inr x, m')" "mgr_inv m'"
  then show "mgr_inv (snd (h x m'))" using assms(2,4) on_repo_runs(1) [of "on_repository f g" m] by simp
qed

lemma mgr_inv_anchor: "mgr_inv m \<Longrightarrow> mgr_inv (snd (bind_anchor_section now i nd m))"
  unfolding bind_anchor_section_def rep_update_anchor_node_def
  by (rule mgr_inv_then_require)
    (auto simp: Let_def reference_keep reference_step record_finished_def intro!: mgr_inv_change mgr_inv_put)

lemma mgr_inv_parent: "mgr_inv m \<Longrightarrow> mgr_inv (snd (parent_section now i p m))"
  unfolding parent_section_def rep_update_cancellation_parent_def
  by (rule mgr_inv_then_require)
    (auto simp: Let_def reference_keep reference_step record_finished_def intro!: mgr_inv_change mgr_inv_put)

lemma mgr_inv_metadata: "mgr_inv m \<Longrightarrow> mgr_inv (snd (metadata_section now i md m))"
  unfolding metadata_section_def rep_merge_metadata_def
  by (rule mgr_inv_then_require)
    (auto simp: Let_def merge_metadata_keep merge_metadata_step record_finished_def intro!: mgr_inv_change mgr_inv_put)

text \<open>The status of a record follows that of its row.\<close>

lemma status_read:
  assumes "sql_inv d" and "sql_update_status now i st d = (Inr x, d')"
  shows "\<exists>y \<in> set (runs d'). run_from_row y = Inr x \<and> r_id y = i"
proof -
  obtain y where "run_row_of d' i = Some y" "run_from_row y = Inr x"
    using assms(2) by (auto simp: sql_update_status_def Let_def bind_result_eq_Inr require_run_row_def split: option.splits)
  then show ?thesis using fetchone_select_SomeD unfolding run_row_of_def by fast
qed

lemma mgr_inv_put_status:
  assumes "mgr_inv m" and "map_of (rm_runs m) i = Some r" and "rm_repo m = SQLiteRepository d"
    and "y \<in> set (runs d)" and "r_id y = i" and "readable_row y" and "parse_run_status s = Inr st"
    and "is_finished s = is_finished (r_status y)" and "rr_target_node_id r' = rr_target_node_id r" and "rr_status r' = st"
  shows "mgr_inv (put_record i r' m)"
proof -
  from assms(1,3) have d: "sql_inv d" and c: "cached_ok d m" by (auto elim: mgr_invE)
  have rows: "z = y" if "z \<in> set (runs d)" "r_id z = i" for z
    using that assms(4,5) run_row_of_iff [OF d, of i] by (metis option.inject)
  have fin: "record_finished r' \<longleftrightarrow> \<not> live_row y"
    using parse_run_status_finished [OF assms(7)] assms(6,8,10) by (simp add: record_finished_def live_row_def)
  show ?thesis
  proof (cases "live_row y")
    case True
    then have "\<not> record_finished r" using cached_okE [OF c assms(4)] assms(2,5) by fastforce
    then show ?thesis by (intro mgr_inv_put [OF assms(1,2)]) (use fin True assms(9) in simp_all)
  next
    case False
    show ?thesis by (rule mgr_inv_put_finished [OF assms(1,3)]) (use fin rows False assms(5) named_rowsD [OF c assms(4)] in auto)
  qed
qed

lemma mgr_inv_status:
  assumes "mgr_inv m"
  shows "mgr_inv (snd (status_section now i st m))"
  unfolding status_section_def
proof (rule mgr_inv_then_require [OF assms])
  fix r m assume m: "mgr_inv m" "map_of (rm_runs m) i = Some r"
  from m(1) obtain d where d: "rm_repo m = SQLiteRepository d" "sql_inv d" by (rule mgr_invE)
  show "mgr_inv (snd (if record_finished r \<or> rr_status r = st then (Inr (r, False), m)
      else then_do (on_repo (rep_update_status now i (run_status_value st)) m) (\<lambda>x m.
         case parse_run_status (ri_status x) of
           Inl e \<Rightarrow> (Inl e, m)
         | Inr st' \<Rightarrow>
             let r' = r\<lparr>rr_status := st', rr_updated_at := or_time (ri_updated_at x) now\<rparr>
             in (Inr (r', True), put_record i r' m))))"
  proof (cases "record_finished r \<or> rr_status r = st")
    case False
    have "mgr_inv (snd (then_do (on_repo (rep_update_status now i (run_status_value st)) m) (\<lambda>x m.
         case parse_run_status (ri_status x) of
           Inl e \<Rightarrow> (Inl e, m)
         | Inr st' \<Rightarrow>
             let r' = r\<lparr>rr_status := st', rr_updated_at := or_time (ri_updated_at x) now\<rparr>
             in (Inr (r', True), put_record i r' m))))"
    proof (rule mgr_inv_then_do)
      show "mgr_inv (snd (on_repo (rep_update_status now i (run_status_value st)) m))"
        unfolding rep_update_status_def by (rule mgr_inv_on_repo [OF m(1)]) (simp add: update_status_keep update_status_step)
      fix x m' assume eq: "on_repo (rep_update_status now i (run_status_value st)) m = (Inr x, m')" and inv: "mgr_inv m'"
      obtain d' where st: "sql_update_status now i (run_status_value st) d = (Inr x, d')"
        and m': "m' = m\<lparr>rm_repo := SQLiteRepository d'\<rparr>"
        using eq d(1) unfolding rep_update_status_def by (cases "sql_update_status now i (run_status_value st) d")
          (simp add: on_repo_sql)
      obtain y where y: "y \<in> set (runs d')" "run_from_row y = Inr x" "r_id y = i" using status_read [OF d(2) st] by blast
      have "mgr_inv (put_record i (r\<lparr>rr_status := st', rr_updated_at := t\<rparr>) m')"
        if "parse_run_status (ri_status x) = Inr st'" for st' t
        by (rule mgr_inv_put_status [OF inv _ _ y(1,3) _ that]) (use m m' run_from_row_more [OF y(2)] in simp_all)
      then show "mgr_inv (snd (case parse_run_status (ri_status x) of
           Inl e \<Rightarrow> (Inl e, m')
         | Inr st' \<Rightarrow>
             let r' = r\<lparr>rr_status := st', rr_updated_at := or_time (ri_updated_at x) now\<rparr>
             in (Inr (r', True), put_record i r' m')))"
        using inv by (simp add: Let_def split: sum.split)
    qed
    then show ?thesis using False by simp
  qed (use m in simp)
qed

section \<open>Binding to a node\<close>

lemma acquire_cases:
  assumes "acquire_writer nd i m = (out, m')"
  obtains (refused) e where "out = Inl e" and "m' = m"
    | (taken) "out = Inr ()" and "m' = m\<lparr>rm_writers := dict_set nd i (rm_writers m)\<rparr>"
        and "\<And>j r. map_of (rm_writers m) nd = Some j \<Longrightarrow> j \<noteq> [] \<Longrightarrow> j \<noteq> i \<Longrightarrow> map_of (rm_runs m) j = Some r \<Longrightarrow> record_finished r"
proof (cases "\<exists>j r. map_of (rm_writers m) nd = Some j \<and> j \<noteq> [] \<and> j \<noteq> i \<and> map_of (rm_runs m) j = Some r \<and> \<not> record_finished r")
  case True
  then have "\<exists>e. out = Inl e \<and> m' = m" using assms by (auto simp: acquire_writer_def)
  then show ?thesis using refused by blast
next
  case False
  then show ?thesis using assms by (intro taken) (auto simp: acquire_writer_def split: option.splits if_splits)
qed

text \<open>Taking the node and then naming it in the record.\<close>

lemma writers_ok_retarget:
  assumes w: "writers_ok m" and r: "map_of (rm_runs m) i = Some r"
    and free: "\<And>j r. map_of (rm_writers m) nd = Some j \<Longrightarrow> j \<noteq> [] \<Longrightarrow> j \<noteq> i \<Longrightarrow> map_of (rm_runs m) j = Some r \<Longrightarrow> record_finished r"
    and r': "rr_target_node_id r' = Some nd" and ne: "rr_target_node_id r \<noteq> Some nd"
    and writers: "rm_writers m' = rm_writers (release_writer i r (m\<lparr>rm_writers := dict_set nd i (rm_writers m)\<rparr>))"
    and recs: "rm_runs m' = dict_set i r' (rm_runs m)"
  shows "writers_ok m'"
proof -
  have "map_of (rm_writers m') t = Some j"
    if j: "map_of (rm_runs m') j = Some y" "\<not> record_finished y" "rr_target_node_id y = Some t" "t \<noteq> []" for j y t
  proof (cases "j = i")
    case True
    then have "t = nd" using j(1,3) recs r' by simp
    then show ?thesis using True writers ne by (auto simp: release_writer_def truthy_opt_def split: option.splits)
  next
    case False
    then have y: "map_of (rm_runs m) j = Some y" using j(1) recs by simp
    have wt: "map_of (rm_writers m) t = Some j" by (rule writers_okD [OF w y j(2-4)])
    have "t \<noteq> nd" using free [of j y] wt named_runsD [OF w y] False y j(2) by auto
    then show ?thesis using wt False writers by (auto simp: release_writer_def)
  qed
  moreover have "map_of (rm_runs m') [] = None" using w named_runsD [OF w r] recs by (auto simp: writers_ok_def)
  ultimately show ?thesis unfolding writers_ok_def by blast
qed

lemma restore_writers:
  "map_of (rm_writers (restore_writer nd i (map_of (rm_writers m) nd) (m'\<lparr>rm_writers := dict_set nd i (rm_writers m)\<rparr>))) =
   map_of (rm_writers m)"
  by (auto simp: restore_writer_def fun_eq_iff split: option.split)

lemma restore_other:
  "rm_repo (restore_writer nd i p m) = rm_repo m" "rm_runs (restore_writer nd i p m) = rm_runs m"
  by (simp_all add: restore_writer_def split: option.split)

lemma target_known:
  assumes "mgr_inv m" and "map_of (rm_runs m) i = Some r" and "rr_target_node_id r \<noteq> Some nd"
  shows "mgr_inv (snd (then_do (acquire_writer nd i m) (\<lambda>_ m1.
           case on_repo (rep_update_target_node now i nd) m1 of
             (Inl e, m2) \<Rightarrow> (Inl e, restore_writer nd i (map_of (rm_writers m) nd) m2)
           | (Inr x, m2) \<Rightarrow>
               let m' = release_writer i r m2;
                   r' = r\<lparr>rr_target_node_id := Some nd, rr_updated_at := or_time (ri_updated_at x) now\<rparr>
               in (Inr (r', True), put_record i r' m'))))"
    (is "mgr_inv (snd (then_do _ ?f))")
proof -
  from assms(1) obtain d where d: "rm_repo m = SQLiteRepository d" "sql_inv d" and w: "writers_ok m" and c: "cached_ok d m"
    by (rule mgr_invE)
  obtain out m1 where a: "acquire_writer nd i m = (out, m1)" by fastforce
  then show ?thesis
  proof (cases rule: acquire_cases)
    case taken
    let ?w = "dict_set nd i (rm_writers m)"
    obtain o2 d2 where u: "sql_update_target_node now i nd d = (o2, d2)" by fastforce
    have eq: "on_repo (rep_update_target_node now i nd) m1 = (o2, m\<lparr>rm_repo := SQLiteRepository d2, rm_writers := ?w\<rparr>)"
      unfolding rep_update_target_node_def taken(2) using d(1) u by (simp add: on_repo_def on_repository_def)
    have inv2: "sql_inv d2" using rows_step_inv [OF reference_step(1) d(2), of now i nd] u by simp
    have "map r_id (runs d2) = map r_id (runs d)"
      using all2_same_key [OF reference_step(1) [of d now i nd, unfolded rows_step_def]] u by simp
    then have ids: "r_id ` set (runs d2) = r_id ` set (runs d)" by (metis list.set_map)
    have rows: "\<exists>z \<in> set (runs d). live_row z \<and> r_id z = r_id y \<and>
        (r_target_node y = r_target_node z \<or> r_id y = i \<and> r_target_node y = Some nd \<and> (\<exists>x. o2 = Inr x))"
      if "y \<in> set (runs d2)" "live_row y" for y
      using update_target_rows [OF d(2), of y now i nd] that u by simp
    show ?thesis
    proof (cases o2)
      case (Inl e)
      let ?m = "restore_writer nd i (map_of (rm_writers m) nd) (m\<lparr>rm_repo := SQLiteRepository d2, rm_writers := ?w\<rparr>)"
      have "writers_ok ?m"
        using w restore_writers [of nd i m "m\<lparr>rm_repo := SQLiteRepository d2\<rparr>"] by (simp add: writers_ok_def restore_other)
      moreover have "cached_ok d2 ?m"
      proof (rule cached_okI)
        show "[] \<notin> r_id ` set (runs d2)" using ids c by (simp add: cached_ok_def)
        fix y assume "y \<in> set (runs d2)" "live_row y"
        then obtain z where z: "z \<in> set (runs d)" "live_row z" "r_id z = r_id y" "r_target_node y = r_target_node z"
          using rows Inl by fastforce
        then show "\<exists>q. map_of (rm_runs ?m) (r_id y) = Some q \<and> \<not> record_finished q \<and>
            (truthy_opt (r_target_node y) \<longrightarrow> rr_target_node_id q = r_target_node y)"
        proof (cases rule: cached_okE [OF c z(1,2)])
          case (1 q)
          then show ?thesis using z(3,4) by (simp add: restore_other)
        qed
      qed
      ultimately have "mgr_inv ?m" using inv2 by (intro mgr_invI) (simp_all add: restore_other)
      then show ?thesis using a taken(1) eq Inl by simp
    next
      case (Inr x)
      let ?m = "m\<lparr>rm_repo := SQLiteRepository d2, rm_writers := ?w\<rparr>"
      let ?r = "r\<lparr>rr_target_node_id := Some nd, rr_updated_at := or_time (ri_updated_at x) now\<rparr>"
      let ?m' = "put_record i ?r (release_writer i r ?m)"
      have same: "rm_repo (release_writer i r ?m) = SQLiteRepository d2" "rm_runs (release_writer i r ?m) = rm_runs m"
        by (simp_all add: release_writer_def)
      have "writers_ok ?m'"
        by (rule writers_ok_retarget [where r' = ?r and nd = nd, OF w assms(2) taken(3) _ assms(3)])
          (use same in \<open>auto simp: put_record_def release_writer_def\<close>)
      moreover have "cached_ok d2 ?m'"
      proof (rule cached_okI)
        show "[] \<notin> r_id ` set (runs d2)" using ids c by (simp add: cached_ok_def)
        fix y assume y: "y \<in> set (runs d2)" "live_row y"
        obtain z where z: "z \<in> set (runs d)" "live_row z" "r_id z = r_id y"
            "r_target_node y = r_target_node z \<or> r_id y = i \<and> r_target_node y = Some nd"
          using rows [OF y] by blast
        obtain q where q: "map_of (rm_runs m) (r_id z) = Some q" "\<not> record_finished q"
            "truthy_opt (r_target_node z) \<longrightarrow> rr_target_node_id q = r_target_node z"
          using cached_okE [OF c z(1,2)] .
        show "\<exists>q. map_of (rm_runs ?m') (r_id y) = Some q \<and> \<not> record_finished q \<and>
            (truthy_opt (r_target_node y) \<longrightarrow> rr_target_node_id q = r_target_node y)"
        proof (cases "r_id y = i")
          case True
          let ?f = "\<lambda>r. r\<lparr>r_target_node := Some nd, r_updated_at := now\<rparr>"
          have "d2 = update_run_rows i ?f d"
            using u Inr by (cases rule: update_target_cases [of now i nd d]) simp_all
          then have "y \<in> (\<lambda>r. if r_id r = i then ?f r else r) ` set (runs d)"
            using y(1) by (simp add: update_run_rows_def update_rows_def)
          then obtain x where "y = (if r_id x = i then ?f x else x)" by blast
          then have tgt: "r_target_node y = Some nd" using True by (cases "r_id x = i") simp_all
          have "\<not> record_finished r" using q(1,2) z(3) True assms(2) by simp
          then show ?thesis using True tgt same(2) by (simp add: record_finished_def)
        next
          case False
          then show ?thesis using q z(3,4) same(2) by auto
        qed
      qed
      ultimately have "mgr_inv ?m'" using inv2 same by (intro mgr_invI) simp_all
      then show ?thesis using a taken(1) eq Inr by (simp add: Let_def)
    qed
  qed (use assms(1) a in simp)
qed

lemma mgr_inv_target:
  assumes "mgr_inv m"
  shows "mgr_inv (snd (bind_target_section now i nd m))"
  unfolding bind_target_section_def Let_def
proof (rule mgr_inv_then_require [OF assms])
  fix r m' assume m': "mgr_inv m'" "map_of (rm_runs m') i = Some r"
  show "mgr_inv (snd (if rr_target_node_id r = Some nd then (Inr (r, False), m')
      else then_do (acquire_writer nd i m') (\<lambda>_ m1.
           case on_repo (rep_update_target_node now i nd) m1 of
             (Inl e, m2) \<Rightarrow> (Inl e, restore_writer nd i (map_of (rm_writers m') nd) m2)
           | (Inr x, m2) \<Rightarrow>
               (Inr (r\<lparr>rr_target_node_id := Some nd, rr_updated_at := or_time (ri_updated_at x) now\<rparr>, True),
                put_record i (r\<lparr>rr_target_node_id := Some nd, rr_updated_at := or_time (ri_updated_at x) now\<rparr>)
                  (release_writer i r m2)))))"
    using target_known [OF m', of nd now, unfolded Let_def] m'(1) by (cases "rr_target_node_id r = Some nd") simp_all
qed

section \<open>Stopping and finishing\<close>

lemma persist_sql:
  assumes "mgr_inv m" and "persist_streamed_events env now i m = (ok, m')"
  shows "mgr_inv m' \<and> rm_runs m' = rm_runs m"
proof -
  from assms(1) obtain d where d: "rm_repo m = SQLiteRepository d" "sql_inv d" by (rule mgr_invE)
  have "m' = m \<or> (\<exists>xs. m' = m\<lparr>rm_repo := SQLiteRepository (snd (sql_append_indexed_events (en_codec env) now i xs d))\<rparr>)"
  proof (cases "cached_events m i = []")
    case False
    show ?thesis
    proof (cases "sql_get_run d i")
      case (Inr stored)
      let ?xs = "pending_events (stored_count stored) (cached_events m i)"
      have "(if ?xs = [] then (True, m)
          else case sql_append_indexed_events (en_codec env) now i ?xs d of
                 (Inl _, d') \<Rightarrow> (False, m\<lparr>rm_repo := SQLiteRepository d'\<rparr>)
               | (Inr _, d') \<Rightarrow> (True, m\<lparr>rm_repo := SQLiteRepository d'\<rparr>)) = (ok, m')"
        using assms(2) d(1) False Inr by (simp add: persist_streamed_events_def Let_def split del: if_split)
      then show ?thesis
        by (cases "sql_append_indexed_events (en_codec env) now i ?xs d") (auto split: if_splits sum.splits intro!: exI [of _ ?xs])
    qed (use assms(2) d(1) False in \<open>simp add: persist_streamed_events_def\<close>)
  qed (use assms(2) d(1) in \<open>simp add: persist_streamed_events_def\<close>)
  then show ?thesis using assms(1) mgr_inv_rows [OF assms(1) d(1) append_indexed_op] by auto
qed

lemma mgr_inv_flush:
  assumes "mgr_inv m" and "map_of (rm_runs m) i = Some r" and "flush_or_fail env now i st err r m = (out, m')"
  shows "mgr_inv m'"
    and "out = Inr (st', err', r') \<Longrightarrow> map_of (rm_runs m') i = Some r' \<and> (st' = st \<or> st' = Failed)"
proof -
  obtain ok m1 where p: "persist_streamed_events env now i m = (ok, m1)" by fastforce
  note P = persist_sql [OF assms(1) p]
  have put: "mgr_inv (put_record i (r\<lparr>rr_event_count := n\<rparr>) (m1\<lparr>rm_events := es\<rparr>))" for n es
    by (rule mgr_inv_put [where r = r]) (use P assms(2) in \<open>simp_all add: record_finished_def\<close>)
  have "mgr_inv m' \<and> (out = Inr (st', err', r') \<longrightarrow> map_of (rm_runs m') i = Some r' \<and> (st' = st \<or> st' = Failed))"
  proof (cases ok)
    case True
    then show ?thesis using assms(2,3) p P by (auto simp: flush_or_fail_def)
  next
    case False
    show ?thesis
    proof (cases "rep_get_run (rm_repo m1) i")
      case (Inr o')
      show ?thesis
      proof (cases o')
        case None
        then show ?thesis using assms(2,3) p P False Inr by (auto simp: flush_or_fail_def)
      next
        case (Some x)
        then show ?thesis using assms(2,3) p P False Inr put by (auto simp: flush_or_fail_def Let_def)
      qed
    qed (use assms(3) p P False in \<open>auto simp: flush_or_fail_def\<close>)
  qed
  then show "mgr_inv m'"
    and "out = Inr (st', err', r') \<Longrightarrow> map_of (rm_runs m') i = Some r' \<and> (st' = st \<or> st' = Failed)" by blast+
qed

lemma mgr_inv_terminal:
  assumes "mgr_inv m" and "map_of (rm_runs m) i = Some r" and "rm_repo m = SQLiteRepository d"
    and "\<forall>y \<in> set (runs d). r_id y = i \<longrightarrow> \<not> live_row y"
  shows "mgr_inv (snd (record_terminal env now i n st r x m))"
proof -
  have "i \<noteq> []" using assms(1,2) named_runsD by (auto elim: mgr_invE)
  then have put: "mgr_inv (put_record i r' m)" if "record_finished r'" for r'
    by (rule mgr_inv_put_finished [OF assms(1,3) that _ assms(4)])
  have release: "mgr_inv (release_writer i r' (put_record i r' m))" if "record_finished r'" for r'
    by (rule mgr_inv_release [OF put [OF that], of i r']) (simp_all add: that)
  show ?thesis
    using put release assms(1)
    by (auto simp: record_terminal_def Let_def record_finished_def split: sum.split list.split)
qed

lemma mgr_inv_bound_task: "mgr_inv m \<Longrightarrow> finish_bound_task env now i st r m = (Inr (), m)"
  by (auto simp: finish_bound_task_def manages_task_bindings_def elim: mgr_invE)

lemma finish_repository:
  assumes "mgr_inv m" and "is_finished s" and "on_repo (rep_finish_run env now i s err) m = (out, m')"
  shows "mgr_inv m' \<and> rm_runs m' = rm_runs m \<and>
    (\<forall>x. out = Inr x \<longrightarrow> (\<exists>d. rm_repo m' = SQLiteRepository d \<and> (\<forall>y \<in> set (runs d). r_id y = i \<longrightarrow> \<not> live_row y)))"
proof -
  from assms(1) obtain d where d: "rm_repo m = SQLiteRepository d" "sql_inv d" by (rule mgr_invE)
  let ?s = "sql_finish_run (en_codec env) (en_with_tasks env) now i s err d"
  have eq: "out = fst ?s" "m' = m\<lparr>rm_repo := SQLiteRepository (snd ?s)\<rparr>"
    using assms(3) unfolding rep_finish_run_def on_repo_sql [OF d(1)] by simp_all
  have "mgr_inv m'"
    unfolding eq by (rule mgr_inv_rows [OF assms(1) d(1) finish_run_rows(1) [OF d(2) assms(2)] finish_run_step [OF d(2)]])
  then show ?thesis using eq finish_run_rows(2) [OF d(2) assms(2)] by auto
qed

lemma mgr_inv_finish_locked:
  assumes "mgr_inv m" and "map_of (rm_runs m) i = Some r" and "st \<in> set FINISHED_RUN_STATUSES"
  shows "mgr_inv (snd (finish_locked env now i st err persist r m))"
proof -
  let ?first = "if persist then flush_or_fail env now i st err r m else (Inr (st, err, r), m)"
  obtain out m1 where f: "?first = (out, m1)" by fastforce
  have m1: "mgr_inv m1" using f assms mgr_inv_flush(1) by (auto split: if_splits)
  show ?thesis
  proof (cases out)
    case (Inr p)
    obtain st' err' r' where p: "p = (st', err', r')" by (cases p)
    have r': "map_of (rm_runs m1) i = Some r'" "st' = st \<or> st' = Failed"
      using f Inr p assms(2) mgr_inv_flush(2) [OF assms(1,2)] by (auto split: if_splits)
    then have fin: "is_finished (run_status_value st')"
      using assms(3) finished_values [of st'] by (auto simp: FINISHED_RUN_STATUSES_def)
    obtain out2 m2 where fr: "on_repo (rep_finish_run env now i (run_status_value st') err') m1 = (out2, m2)" by fastforce
    note F = finish_repository [OF m1 fin fr]
    have "finish_locked env now i st err persist r m =
        then_do (out2, m2) (\<lambda>x m3. record_terminal env now i (rr_event_count r') st' r' x m3)"
      unfolding finish_locked_def f Inr p by (simp add: mgr_inv_bound_task [OF m1] fr)
    moreover have "mgr_inv (snd (then_do (out2, m2) (\<lambda>x m3. record_terminal env now i (rr_event_count r') st' r' x m3)))"
    proof (cases out2)
      case (Inr x)
      then obtain d where "rm_repo m2 = SQLiteRepository d" "\<forall>y \<in> set (runs d). r_id y = i \<longrightarrow> \<not> live_row y"
        using F by blast
      then show ?thesis using Inr F r'(1) mgr_inv_terminal [of m2 i r' d] by simp
    qed (use F in simp)
    ultimately show ?thesis by simp
  qed (use f m1 in \<open>simp add: finish_locked_def\<close>)
qed

lemma mgr_inv_finish_run:
  assumes "mgr_inv m"
  shows "mgr_inv (snd (finish_run env now i st err listen persist m))"
proof (cases "st \<in> set FINISHED_RUN_STATUSES")
  case True
  have "mgr_inv (snd (if record_finished r then (Inr r, m)
      else then_do (finish_locked env now i st err persist r m) (\<lambda>r' m2.
              let m3 = signal_subscribers i m2;
                  m4 = (if listen then notify_listeners r' m3 else m3);
                  m5 = (if uses_indexed_persistence (rm_repo m4)
                        then m4\<lparr>rm_journal := journal_delete (rr_conversation_id r') i (rm_journal m4)\<rparr> else m4)
              in (Inr r', m5))))"
    if "mgr_inv m" "map_of (rm_runs m) i = Some r" for r m
    using that mgr_inv_finish_locked [OF that True] by (auto simp: Let_def intro!: mgr_inv_then_do)
  then show ?thesis using True by (simp add: finish_run_def mgr_inv_then_require [OF assms])
qed (use assms in \<open>simp add: finish_run_def\<close>)

section \<open>Creation\<close>

lemma mgr_inv_created:
  assumes "mgr_inv m" and d: "rm_repo m = SQLiteRepository d" and free: "target_available (rq_target_node q) m = Inr ()"
    and c: "create_run_body i now q d = Inr (x, d')" and fresh: "map_of (rm_runs m) i = None" "i \<noteq> []"
    and k: "parse_run_kind (rq_kind q) = Inr k" "rq_kind q \<noteq> []"
  shows "mgr_inv (snd (hydrate_record now x (m\<lparr>rm_repo := SQLiteRepository d'\<rparr>)))"
proof -
  from assms(1) d have inv: "sql_inv d" and w: "writers_ok m" and cok: "cached_ok d m" by (auto elim: mgr_invE)
  obtain row where row: "runs d' = runs d @ [row]" "i \<notin> r_id ` set (runs d)" "run_from_row row = Inr x" "r_id row = i"
    "r_status row = ''running''" "r_kind row = rq_kind q" "r_target_node row = rq_target_node q"
    using c by (rule create_body_adds)
  have x: "ri_id x = i" "ri_status x = ''running''" "ri_kind x = rq_kind q" "ri_target_node x = rq_target_node q"
    using row run_from_row_fields [OF row(3)] run_from_row_more [OF row(3)]
    by (auto simp: run_from_row_def map_result_eq_Inr)
  have running: "parse_run_status ''running'' = Inr Running" by code_simp
  let ?r = "new_record now k Running x"
  have r: "rr_target_node_id ?r = rq_target_node q" "\<not> record_finished ?r"
    using x by (simp_all add: new_record_def record_finished_def FINISHED_RUN_STATUSES_def)
  let ?m = "register_writer i ?r ((put_record i ?r (m\<lparr>rm_repo := SQLiteRepository d'\<rparr>))
      \<lparr>rm_subscribers := dict_setdefault i [] (rm_subscribers m), rm_stop_events := dict_setdefault i False (rm_stop_events m)\<rparr>)"
  have h: "snd (hydrate_record now x (m\<lparr>rm_repo := SQLiteRepository d'\<rparr>)) = ?m"
    using x k running fresh by (simp add: hydrate_record_def or_string_def Let_def put_record_def)
  have runs: "rm_runs ?m = dict_set i ?r (rm_runs m)" by (simp add: put_record_def)
  have writers: "map_of (rm_writers ?m) = (if truthy_opt (rq_target_node q)
      then (map_of (rm_writers m))(or_empty (rq_target_node q) \<mapsto> i) else map_of (rm_writers m))"
    using r by (simp add: register_writer_def put_record_def)
  have "writers_ok ?m" unfolding writers_ok_def
  proof (intro conjI allI impI)
    show "map_of (rm_runs ?m) [] = None" using w fresh(2) by (simp add: runs writers_ok_def)
    fix j y t assume j: "map_of (rm_runs ?m) j = Some y" "\<not> record_finished y" "rr_target_node_id y = Some t" "t \<noteq> []"
    show "map_of (rm_writers ?m) t = Some j"
    proof (cases "j = i")
      case True
      then have "rq_target_node q = Some t" using j(1,3) runs r(1) by simp
      then show ?thesis using True writers j(4) by (simp add: truthy_opt_def)
    next
      case False
      then have y: "map_of (rm_runs m) j = Some y" using j(1) runs by simp
      have wt: "map_of (rm_writers m) t = Some j" by (rule writers_okD [OF w y j(2-4)])
      have "rq_target_node q \<noteq> Some t"
        using free wt y j(2,4) named_runsD [OF w y] by (auto simp: target_available_def)
      then show ?thesis using wt writers by (auto simp: truthy_opt_def split: option.splits)
    qed
  qed
  moreover have "cached_ok d' ?m"
  proof (rule cached_okI)
    show "[] \<notin> r_id ` set (runs d')" using cok row(1,4) fresh(2) by (auto simp: cached_ok_def)
    fix y assume y: "y \<in> set (runs d')" "live_row y"
    show "\<exists>z. map_of (rm_runs ?m) (r_id y) = Some z \<and> \<not> record_finished z \<and>
        (truthy_opt (r_target_node y) \<longrightarrow> rr_target_node_id z = r_target_node y)"
    proof (cases "y = row")
      case True
      then show ?thesis using row(4,7) r runs by simp
    next
      case False
      then have old: "y \<in> set (runs d)" using y(1) row(1) by simp
      then have "r_id y \<noteq> i" using row(2) by auto
      then show ?thesis using cached_okE [OF cok old y(2)] runs by (metis fun_upd_other map_of_dict_set)
    qed
  qed
  moreover have "sql_inv d'" by (rule created_inv [OF inv c])
  ultimately have "mgr_inv ?m" by (intro mgr_invI) (simp_all add: put_record_def)
  then show ?thesis using h by simp
qed

text \<open>A new run has a fresh name and a kind the program knows.\<close>

definition creatable :: "string \<Rightarrow> run_request \<Rightarrow> run_manager \<Rightarrow> bool" where
  "creatable uuid q m =
     (map_of (rm_runs m) (''run_'' @ uuid) = None \<and> rq_kind q \<noteq> [] \<and> (\<exists>k. parse_run_kind (rq_kind q) = Inr k))"

lemma parse_kind_named: "parse_run_kind s = Inr k \<Longrightarrow> s \<noteq> []"
proof -
  have "run_kind_value x \<noteq> []" for x by (cases x) (simp_all add: run_kind_value_def)
  then show "parse_run_kind s = Inr k \<Longrightarrow> s \<noteq> []"
    by (auto simp: parse_run_kind_def find_Some_iff split: option.splits)
qed

lemma mgr_inv_create_and_hydrate:
  assumes "mgr_inv m" and "target_available (rq_target_node q) m = Inr ()" and "creatable uuid q m"
    and "on_repo (rep_create_or_get_run uuid now q) m = (out, m')"
  shows "case out of Inl e \<Rightarrow> mgr_inv m' | Inr (x, created) \<Rightarrow>
    mgr_inv (snd (hydrate_record now x m')) \<and> (\<not> created \<longrightarrow> mgr_inv m')"
proof -
  from assms(1) obtain d where d: "rm_repo m = SQLiteRepository d" "sql_inv d" by (rule mgr_invE)
  obtain o' d' where c: "sql_create_or_get_run (''run_'' @ uuid) now q d = (o', d')" by fastforce
  have eq: "out = o'" "m' = m\<lparr>rm_repo := SQLiteRepository d'\<rparr>"
    using assms(4) c unfolding rep_create_or_get_run_def on_repo_sql [OF d(1)] by simp_all
  show ?thesis
  proof (cases rule: create_cases [of "''run_'' @ uuid" now q d])
    case (refused e)
    then have "d' = d" "out = Inl e" using c eq(1) by simp_all
    then show ?thesis using eq assms(1) d(1) by (simp add: mgr_inv_def writers_ok_def cached_ok_def)
  next
    case (known y x)
    then have e: "d' = d" "out = Inr (x, False)" using c eq(1) by simp_all
    have m': "m' = m" using eq e d(1) by simp
    have "stored_run m x" using known(2,5) d(1) by (auto simp: stored_run_def)
    then show ?thesis using mgr_inv_hydrate [OF assms(1)] e m' assms(1) by simp
  next
    case (created x d1)
    then have e: "d' = d1" "out = Inr (x, True)" using c eq(1) by simp_all
    obtain k where "parse_run_kind (rq_kind q) = Inr k" using assms(3) by (auto simp: creatable_def)
    then show ?thesis
      using mgr_inv_created [OF assms(1) d(1) assms(2) created(2)] assms(3) e eq(2) by (simp add: creatable_def)
  qed
qed

lemma mgr_inv_create_section:
  assumes "mgr_inv m" and "creatable uuid q m"
  shows "mgr_inv (snd (create_section uuid now q m))"
proof (cases "rm_closing m")
  case False
  show ?thesis
  proof (cases "target_available (rq_target_node q) m")
    case (Inr u)
    let ?q = "q\<lparr>rq_idempotency_key := None, rq_fingerprint := None\<rparr>"
    obtain out m1 where c: "on_repo (rep_create_or_get_run uuid now ?q) m = (out, m1)" by fastforce
    have H: "case out of Inl e \<Rightarrow> mgr_inv m1 | Inr (x, created) \<Rightarrow>
        mgr_inv (snd (hydrate_record now x m1)) \<and> (\<not> created \<longrightarrow> mgr_inv m1)"
      by (rule mgr_inv_create_and_hydrate [OF assms(1) _ _ c]) (use Inr assms(2) in \<open>simp_all add: creatable_def\<close>)
    show ?thesis using H False Inr c by (auto simp: create_section_def split: sum.splits prod.splits)
  qed (use False assms in \<open>simp add: create_section_def\<close>)
qed (use assms in \<open>simp add: create_section_def\<close>)

lemma mgr_inv_idempotent:
  assumes "mgr_inv m"
  shows "mgr_inv (snd (idempotent_run_section env now key fp m))"
proof (cases "rep_get_run_by_idempotency_key (rm_repo m) key")
  case (Inr o')
  show ?thesis
  proof (cases o')
    case (Some x)
    have "stored_run m x" by (rule stored_run_key [OF Inr [unfolded Some] assms])
    then show ?thesis using Inr Some assms mgr_inv_hydrate [OF assms, of x now]
      by (auto simp: idempotent_run_section_def mgr_inv_ensure_events intro!: mgr_inv_then_do)
  qed (use Inr assms in \<open>simp add: idempotent_run_section_def\<close>)
qed (use assms in \<open>simp add: idempotent_run_section_def\<close>)

text \<open>Looking the key up does not cache a run under a fresh name.\<close>

lemma creatable_idempotent:
  assumes "idempotent_run_section env now key fp m = (Inr None, m')"
  shows "m' = m"
proof (cases "rep_get_run_by_idempotency_key (rm_repo m) key")
  case (Inr o')
  show ?thesis
  proof (cases o')
    case (Some x)
    then show ?thesis using assms Inr
      by (auto simp: idempotent_run_section_def then_do_def split: if_splits prod.splits sum.splits)
  qed (use Inr assms in \<open>simp add: idempotent_run_section_def\<close>)
qed (use assms in \<open>simp add: idempotent_run_section_def\<close>)

lemma created_fingerprint:
  assumes "sql_inv d" and "create_run_body i now q d = Inr (x, d1)"
  shows "ri_request_fingerprint x = rq_fingerprint q"
proof -
  obtain row where row: "runs d1 = runs d @ [row]" "run_from_row row = Inr x" "r_id row = i"
    using assms(2) by (rule create_body_adds) blast
  obtain r where r: "sql_view d1 (ri_id x) = Some r" "rc_fingerprint r = rq_fingerprint q"
    using created_core [OF assms] by blast
  have x: "ri_id x = i" "ri_request_fingerprint x = r_request_fingerprint row"
    using run_from_row_fields [OF row(2)] row(3) by simp_all
  have "run_row_of d1 i = Some row"
    using run_row_of_iff [OF created_inv [OF assms], of i row] row(1,3) by simp
  then show ?thesis using r x by (auto simp: sql_view_def row_core_def)
qed

lemma mgr_inv_reserve:
  assumes "mgr_inv m" and "creatable uuid q m"
  shows "mgr_inv (snd (reserve_section env uuid now q m))"
proof (cases "rm_closing m")
  case False
  let ?i = "idempotent_run_section env now (or_empty (rq_idempotency_key q)) (or_empty (rq_fingerprint q)) m"
  obtain o1 m1 where i: "?i = (o1, m1)" by fastforce
  have m1: "mgr_inv m1" using mgr_inv_idempotent [OF assms(1)] i by (metis snd_conv)
  consider (err) e where "o1 = Inl e" | (old) r where "o1 = Inr (Some r)" | (new) "o1 = Inr None"
    by (cases o1) auto
  then show ?thesis
  proof cases
    case new
    have same: "m1 = m" by (rule creatable_idempotent [OF i [unfolded new]])
    show ?thesis
    proof (cases "target_available (rq_target_node q) m")
      case (Inr u)
      obtain out m2 where c: "on_repo (rep_create_or_get_run uuid now q) m = (out, m2)" by fastforce
      have H: "case out of Inl e \<Rightarrow> mgr_inv m2 | Inr (x, created) \<Rightarrow>
          mgr_inv (snd (hydrate_record now x m2)) \<and> (\<not> created \<longrightarrow> mgr_inv m2)"
        by (rule mgr_inv_create_and_hydrate [OF assms(1) _ assms(2) c]) (use Inr in simp)
      show ?thesis
      proof (cases out)
        case o2: (Inr p)
        obtain x created where p: "p = (x, created)" by (cases p)
        show ?thesis
        proof (cases "or_empty (ri_request_fingerprint x) = or_empty (rq_fingerprint q)")
          case True
          have "mgr_inv (snd (ensure_events_loaded env (ri_id x) (snd (hydrate_record now x m2))))"
            using H o2 p by (simp add: mgr_inv_ensure_events)
          then show ?thesis using H False i new same Inr c o2 p True
            by (auto simp: reserve_section_def Let_def split: sum.splits prod.splits)
        next
          case fp: False
          have "\<not> created"
          proof
            assume "created"
            from assms(1) obtain d where d: "rm_repo m = SQLiteRepository d" "sql_inv d" by (rule mgr_invE)
            have "fst (sql_create_or_get_run (''run_'' @ uuid) now q d) = Inr (x, True)"
              using c o2 p \<open>created\<close> unfolding rep_create_or_get_run_def on_repo_sql [OF d(1)] by simp
            then obtain d1 where c1: "create_run_body (''run_'' @ uuid) now q d = Inr (x, d1)"
              by (cases rule: create_cases [of "''run_'' @ uuid" now q d]) auto
            have "ri_request_fingerprint x = rq_fingerprint q" by (rule created_fingerprint [OF d(2) c1])
            then show False using fp by simp
          qed
          then show ?thesis using H False i new same Inr c o2 p fp by (simp add: reserve_section_def Let_def)
        qed
      qed (use H False i new same Inr c in \<open>simp add: reserve_section_def\<close>)
    qed (use False i new same assms in \<open>simp add: reserve_section_def\<close>)
  qed (use False i m1 in \<open>simp_all add: reserve_section_def\<close>)
qed (use assms in \<open>simp add: reserve_section_def\<close>)

section \<open>Forgetting and compensation\<close>

lemma map_of_filter_value: "map_of xs t = Some j \<Longrightarrow> j \<noteq> i \<Longrightarrow> map_of (filter (\<lambda>p. snd p \<noteq> i) xs) t = Some j"
  by (induction xs) (auto split: if_splits)

lemma mgr_inv_forget:
  assumes "mgr_inv m" and "rm_repo m = SQLiteRepository d" and "\<forall>y \<in> set (runs d). r_id y = i \<longrightarrow> \<not> live_row y"
  shows "mgr_inv (forget_cached_run i m)"
proof -
  from assms(1,2) have d: "sql_inv d" and w: "writers_ok m" and c: "cached_ok d m" by (auto elim: mgr_invE)
  have runs: "map_of (rm_runs (forget_cached_run i m)) j = (if j = i then None else map_of (rm_runs m) j)" for j
    by (simp add: forget_cached_run_def)
  have writers: "map_of (rm_writers (forget_cached_run i m)) t = Some j"
    if "map_of (rm_writers m) t = Some j" "j \<noteq> i" for t j
    using that by (simp add: forget_cached_run_def map_of_filter_value)
  have "writers_ok (forget_cached_run i m)"
    using w writers unfolding writers_ok_def runs by (metis option.distinct(1))
  moreover have "cached_ok d (forget_cached_run i m)"
    using c assms(3) unfolding cached_ok_def runs by auto
  moreover have "rm_repo (forget_cached_run i m) = SQLiteRepository d" using assms(2) by (simp add: forget_cached_run_def)
  ultimately show ?thesis using d by (rule mgr_invI [rotated 2])
qed

lemma mgr_inv_recovery:
  assumes "mgr_inv m"
  shows "mgr_inv (snd (get_run_for_recovery now i m))"
proof (cases "rep_get_run (rm_repo m) i")
  case (Inr o')
  from assms obtain d where d: "rm_repo m = SQLiteRepository d" "sql_inv d" by (rule mgr_invE)
  show ?thesis
  proof (cases o')
    case None
    then have "run_row_of d i = None" using Inr d(1)
      by (auto simp: rep_get_run_def sql_get_run_def map_result_def split: option.splits sum.splits)
    then have "\<forall>y \<in> set (runs d). r_id y = i \<longrightarrow> \<not> live_row y" using run_row_of_iff [OF d(2), of i] by fastforce
    then show ?thesis using mgr_inv_forget [OF assms d(1)] Inr None by (simp add: get_run_for_recovery_def)
  next
    case (Some x)
    then show ?thesis using stored_run_get [OF Inr [unfolded Some] assms] mgr_inv_hydrate [OF assms, of x now] Inr
      by (auto simp: get_run_for_recovery_def intro!: mgr_inv_then_do)
  qed
qed (use assms in \<open>simp add: get_run_for_recovery_def\<close>)

lemma mgr_inv_interrupt:
  assumes "mgr_inv m"
  shows "mgr_inv (snd (interrupt_section now i m))"
proof (cases "rep_get_run (rm_repo m) i")
  case (Inr o')
  show ?thesis
  proof (cases o')
    case (Some x)
    have "mgr_inv (snd (hydrate_record now x m))"
      using stored_run_get [OF Inr [unfolded Some] assms] mgr_inv_hydrate [OF assms, of x now] by blast
    then have "mgr_inv (snd (case map_of (rm_runs m) i of Some r \<Rightarrow> (Inr r, m) | None \<Rightarrow> hydrate_record now x m))"
      using assms by (simp split: option.split)
    then show ?thesis using Inr Some by (auto simp: interrupt_section_def intro!: mgr_inv_then_do)
  qed (use assms Inr in \<open>simp add: interrupt_section_def\<close>)
qed (use assms in \<open>simp add: interrupt_section_def\<close>)

lemma finish_run_reads:
  assumes "sql_inv d" and "sql_finish_run E wt now i st err d = (Inr x, d')"
  shows "\<exists>y \<in> set (runs d'). run_from_row y = Inr x \<and> r_id y = i"
proof (cases "run_row_of d i")
  case (Some r)
  have r: "r \<in> set (runs d)" "r_id r = i" using Some run_row_of_iff [OF assms(1)] by blast+
  show ?thesis
  proof (cases "is_finished (r_status r)")
    case True
    then show ?thesis using assms(2) Some r by (auto simp: sql_finish_run_def require_run_row_def)
  next
    case False
    obtain r' d4 where b: "finish_run_body E wt now st err r d = Inr (r', d4)" "run_from_row r' = Inr x" "d' = snd (reclaim_blobs d4)"
      using assms(2) Some False
      by (auto simp: sql_finish_run_def require_run_row_def transaction_def split: sum.splits prod.splits)
    then have "run_row_of d4 i = Some r'"
      using r(2) by (auto simp: finish_run_body_def Let_def bind_result_eq_Inr map_result_eq_Inr require_run_row_def
          split: option.splits)
    then have "r' \<in> set (runs d4)" "r_id r' = i" using fetchone_select_SomeD unfolding run_row_of_def by fast+
    then show ?thesis using b(2,3) by (auto simp: runs_reclaim)
  qed
qed (use assms(2) in \<open>simp add: sql_finish_run_def require_run_row_def\<close>)

lemma mgr_inv_unhydrated:
  assumes "mgr_inv m"
  shows "mgr_inv (snd (finish_unhydrated_creation env now i reason m))"
  unfolding finish_unhydrated_creation_def
proof (rule mgr_inv_then_do)
  have fin: "is_finished ''interrupted''" by (simp add: is_finished_def FINISHED_STATUSES_def)
  obtain out m1 where f: "on_repo (rep_finish_run env now i ''interrupted'' (Some reason)) m = (out, m1)" by fastforce
  note F = finish_repository [OF assms fin f]
  show "mgr_inv (snd (on_repo (rep_finish_run env now i ''interrupted'' (Some reason)) m))" using f F by simp
  fix x m2
  assume x: "on_repo (rep_finish_run env now i ''interrupted'' (Some reason)) m = (Inr x, m2)" and m2: "mgr_inv m2"
  obtain d where d: "rm_repo m2 = SQLiteRepository d" and dead: "\<forall>y \<in> set (runs d). r_id y = i \<longrightarrow> \<not> live_row y"
    using F f x by auto
  obtain y where y: "y \<in> set (runs d)" "run_from_row y = Inr x" "r_id y = i"
  proof -
    from assms obtain d0 where d0: "rm_repo m = SQLiteRepository d0" "sql_inv d0" by (rule mgr_invE)
    let ?s = "sql_finish_run (en_codec env) (en_with_tasks env) now i ''interrupted'' (Some reason) d0"
    have "fst ?s = Inr x" "snd ?s = d"
      using x d unfolding rep_finish_run_def on_repo_sql [OF d0(1)] by auto
    then show ?thesis using that finish_run_reads [OF d0(2)] by (metis prod.collapse)
  qed
  have ended: "is_finished (ri_status x)"
    using dead y run_from_row_more [OF y(2)] by (auto simp: live_row_def)
  have inv: "mgr_inv (snd (record_unhydrated now i x r m2))" if "map_of (rm_runs m2) i = Some r" for r
  proof (cases "parse_run_status (ri_status x)")
    case (Inr st)
    have st: "st \<in> set FINISHED_RUN_STATUSES" using parse_run_status_finished [OF Inr] ended by simp
    have "i \<noteq> []" using named_runsD [OF _ that] m2 by (auto elim: mgr_invE)
    then have put: "mgr_inv (put_record i r' m2)" if "record_finished r'" for r'
      using mgr_inv_put_finished [OF m2 d that _ dead] by blast
    have "mgr_inv (release_writer i r' (put_record i r' m2))" if "record_finished r'" for r'
      by (rule mgr_inv_release [OF put [OF that], of i r']) (simp_all add: that)
    then show ?thesis using Inr st by (simp add: record_unhydrated_def Let_def record_finished_def)
  qed (use m2 in \<open>simp add: record_unhydrated_def\<close>)
  show "mgr_inv (snd (let stored = (case rep_read_events env (rm_repo m2) i 0 of Inl _ \<Rightarrow> [] | Inr es \<Rightarrow> es);
           with_events = (\<lambda>m. if stored = [] then m
                              else m\<lparr>rm_events := dict_set i (map cached_of_stored stored) (rm_events m)\<rparr>)
       in case map_of (rm_runs m2) i of
            None \<Rightarrow> (Inr (), with_events m2)
          | Some r \<Rightarrow>
              then_do (record_unhydrated now i x r m2) (\<lambda>r' m2.
                (Inr (), notify_listeners r' (signal_subscribers i (with_events m2))))))"
    using m2 inv by (auto simp: Let_def split: option.split intro!: mgr_inv_then_do)
qed

section \<open>Stopping\<close>

lemma mgr_inv_note_error:
  assumes "mgr_inv m" and "map_of (rm_runs m) i = Some r" and "note_persistence_error now i r m = (out, m')"
  shows "mgr_inv m'" and "out = Inr r' \<Longrightarrow> map_of (rm_runs m') i = Some r' \<and> rr_target_node_id r' = rr_target_node_id r
    \<and> record_finished r' = record_finished r"
proof -
  let ?md = "[(''event_persistence_error'', PStr ''run event persistence failed'')]"
  obtain o1 m1 where u: "on_repo (rep_merge_metadata now i ?md) m = (o1, m1)" by fastforce
  have m1: "mgr_inv m1"
    using mgr_inv_on_repo [OF assms(1), of "sql_merge_metadata now i ?md"] u merge_metadata_keep merge_metadata_step
    unfolding rep_merge_metadata_def by (metis snd_conv)
  have runs1: "map_of (rm_runs m1) i = Some r" using on_repo_runs(1) u assms(2) by (metis snd_conv)
  have put: "mgr_inv (put_record i (r\<lparr>rr_metadata := a, rr_event_count := n, rr_updated_at := t\<rparr>) m1)" for a n t
    by (rule mgr_inv_put [OF m1 runs1]) (simp_all add: record_finished_def)
  have "mgr_inv m' \<and> (out = Inr r' \<longrightarrow> map_of (rm_runs m') i = Some r' \<and> rr_target_node_id r' = rr_target_node_id r
    \<and> record_finished r' = record_finished r)"
    using assms(3) u m1 put
    by (cases o1; cases "rep_get_run (rm_repo m1) i")
      (auto simp: note_persistence_error_def Let_def record_finished_def)
  then show "mgr_inv m'" and "out = Inr r' \<Longrightarrow> map_of (rm_runs m') i = Some r' \<and> rr_target_node_id r' = rr_target_node_id r
    \<and> record_finished r' = record_finished r" by blast+
qed

lemma mgr_inv_record_stop:
  assumes "mgr_inv m" and "map_of (rm_runs m) i = Some r" and "\<not> record_finished r"
  shows "mgr_inv (snd (record_stop env i n r m))"
proof -
  from assms(1) obtain d where d: "rm_repo m = SQLiteRepository d" "sql_inv d" by (rule mgr_invE)
  have inv: "mgr_inv (put_record i r' m)"
    if get: "rep_get_run (rm_repo m) i = Inr x" and rr: "rr_target_node_id r' = rr_target_node_id r" "rr_status r' = st"
      and st: "parse_run_status (case x of None \<Rightarrow> ''stopping'' | Some y \<Rightarrow> or_string (ri_status y) ''stopping'') = Inr st"
    for x r' st
  proof (cases x)
    case None
    then have "st \<notin> set FINISHED_RUN_STATUSES"
      using parse_run_status_finished [OF st] by (simp add: is_finished_def FINISHED_STATUSES_def)
    then show ?thesis by (intro mgr_inv_put [OF assms(1,2)]) (use rr assms(3) in \<open>simp_all add: record_finished_def\<close>)
  next
    case (Some y)
    obtain row where row: "row \<in> set (runs d)" "run_from_row row = Inr y" and i: "ri_id y = i"
      using stored_run_get [OF get [unfolded Some] assms(1)] d(1) by (auto simp: stored_run_def)
    have "r_id row = i" "readable_row row" "r_status row = ri_status y"
      using run_from_row_fields [OF row(2)] run_from_row_more [OF row(2)] i by simp_all
    moreover have "is_finished (or_string s ''stopping'') = is_finished s" for s
      by (simp add: or_string_def is_finished_def FINISHED_STATUSES_def)
    ultimately show ?thesis using st Some
      by (intro mgr_inv_put_status [OF assms(1,2) d(1) row(1) _ _ st _ rr(1) rr(2)]) simp_all
  qed
  show ?thesis
  proof (cases "rep_read_events env (rm_repo m) i (int n)")
    case (Inr stored)
    show ?thesis
    proof (cases "rep_get_run (rm_repo m) i")
      case get: (Inr x)
      show ?thesis
      proof (cases "parse_run_status (case x of None \<Rightarrow> ''stopping'' | Some y \<Rightarrow> or_string (ri_status y) ''stopping'')")
        case st: (Inr st)
        show ?thesis using Inr get st inv [OF get _ _ st]
          by (cases stored) (simp_all add: record_stop_def Let_def)
      qed (use Inr get assms(1) in \<open>simp add: record_stop_def\<close>)
    qed (use Inr assms(1) in \<open>simp add: record_stop_def\<close>)
  qed (use assms(1) in \<open>simp add: record_stop_def\<close>)
qed

lemma mgr_inv_request_stop:
  assumes "mgr_inv m"
  shows "mgr_inv (snd (request_stop env now i m))"
proof (cases "map_of (rm_runs m) i")
  case (Some r)
  show ?thesis
  proof (cases "record_finished r")
    case False
    let ?r = "r\<lparr>rr_status := Stopping, rr_updated_at := now\<rparr>"
    let ?m = "(put_record i ?r m)\<lparr>rm_stop_events := dict_set i True (rm_stop_events m)\<rparr>"
    have r: "\<not> record_finished ?r" by (simp add: record_finished_def FINISHED_RUN_STATUSES_def)
    have m1: "mgr_inv ?m" using mgr_inv_put [OF assms Some, of ?r] r False by simp
    obtain ok m2 where p: "persist_streamed_events env now i ?m = (ok, m2)" by fastforce
    have m2: "mgr_inv m2" "map_of (rm_runs m2) i = Some ?r" using persist_sql [OF m1 p] by simp_all
    obtain o3 m3 where n: "(if ok then (Inr ?r, m2) else note_persistence_error now i ?r m2) = (o3, m3)" by fastforce
    have m3: "mgr_inv m3" "\<And>r'. o3 = Inr r' \<Longrightarrow> map_of (rm_runs m3) i = Some r' \<and> \<not> record_finished r'"
      using n m2 r mgr_inv_note_error [OF m2] by (auto split: if_splits)
    have eq: "request_stop env now i m = then_do (o3, m3) (\<lambda>r2 m2.
            then_do (on_repo (rep_request_stop env now i) m2) (\<lambda>ok m3.
              if \<not> ok then (Inr False, m3) else record_stop env i (rr_event_count r) r2 m3))"
      using Some False p n by (cases ok) (simp_all add: request_stop_def Let_def)
    show ?thesis unfolding eq
    proof (rule mgr_inv_then_do)
      fix r2 m4 assume e: "(o3, m3) = (Inr r2, m4)"
      have "mgr_inv (snd (then_do (on_repo (rep_request_stop env now i) m3) (\<lambda>ok m3.
              if \<not> ok then (Inr False, m3) else record_stop env i (rr_event_count r) r2 m3)))"
        unfolding rep_request_stop_def
        by (rule mgr_inv_change [OF m3(1), of i r2])
          (use e m3(2) [of r2] in \<open>simp_all add: request_stop_keep request_stop_step mgr_inv_record_stop\<close>)
      then show "mgr_inv (snd (then_do (on_repo (rep_request_stop env now i) m4) (\<lambda>ok m3.
              if \<not> ok then (Inr False, m3) else record_stop env i (rr_event_count r) r2 m3)))"
        using e by simp
    qed (use m3(1) in simp)
  qed (use Some assms in \<open>simp add: request_stop_def\<close>)
qed (use assms in \<open>simp add: request_stop_def\<close>)

section \<open>Restart\<close>

text \<open>No two active rows name the same node.\<close>

definition targets_distinct :: "db \<Rightarrow> bool" where
  "targets_distinct d =
     (\<forall>y \<in> set (runs d). \<forall>z \<in> set (runs d). live_row y \<longrightarrow> live_row z \<longrightarrow> truthy_opt (r_target_node y) \<longrightarrow>
        r_target_node y = r_target_node z \<longrightarrow> r_id y = r_id z)"

definition restartable :: "db \<Rightarrow> bool" where
  "restartable d = (sql_inv d \<and> [] \<notin> r_id ` set (runs d) \<and> targets_distinct d)"

lemma mgr_inv_restartable:
  assumes "mgr_inv m" and "rm_repo m = SQLiteRepository d"
  shows "restartable d"
proof -
  from assms have d: "sql_inv d" and w: "writers_ok m" and c: "cached_ok d m" by (auto elim: mgr_invE)
  have "r_id y = r_id z" if y: "y \<in> set (runs d)" "live_row y" and z: "z \<in> set (runs d)" "live_row z"
    and t: "truthy_opt (r_target_node y)" "r_target_node y = r_target_node z" for y z
  proof -
    obtain a where a: "map_of (rm_runs m) (r_id y) = Some a" "\<not> record_finished a" "rr_target_node_id a = r_target_node y"
      using cached_okE [OF c y] t by metis
    obtain b where b: "map_of (rm_runs m) (r_id z) = Some b" "\<not> record_finished b" "rr_target_node_id b = r_target_node z"
      using cached_okE [OF c z] t by metis
    obtain nd where nd: "r_target_node y = Some nd" "nd \<noteq> []"
      using t(1) by (auto simp: truthy_opt_def split: option.splits)
    have "map_of (rm_writers m) nd = Some (r_id y)" by (rule writers_okD [OF w a(1,2)]) (use a(3) nd in simp_all)
    moreover have "map_of (rm_writers m) nd = Some (r_id z)" by (rule writers_okD [OF w b(1,2)]) (use b(3) nd t in simp_all)
    ultimately show ?thesis by simp
  qed
  then show ?thesis using d c unfolding restartable_def targets_distinct_def cached_ok_def by blast
qed

lemma restartable_keep:
  assumes "restartable d" and "rows_keep d d'" and "rows_step d d'"
  shows "restartable d'"
proof -
  have "r_id y = r_id z" if y: "y \<in> set (runs d')" "live_row y" and z: "z \<in> set (runs d')" "live_row z"
    and t: "truthy_opt (r_target_node y)" "r_target_node y = r_target_node z" for y z
  proof -
    obtain y0 where y0: "y0 \<in> set (runs d)" "live_row y0" "r_id y0 = r_id y" "r_target_node y0 = r_target_node y"
      using rows_keep_live [OF assms(2) y] .
    obtain z0 where z0: "z0 \<in> set (runs d)" "live_row z0" "r_id z0 = r_id z" "r_target_node z0 = r_target_node z"
      using rows_keep_live [OF assms(2) z] .
    show ?thesis using assms(1) y0 z0 t unfolding restartable_def targets_distinct_def by metis
  qed
  then show ?thesis
    using assms(1) rows_step_inv [OF assms(3)] rows_keep_ids [OF assms(2)]
    unfolding restartable_def targets_distinct_def by metis
qed

text \<open>While the active rows are read, the records are those of the rows read so far.\<close>

definition hydrating :: "db \<Rightarrow> run_row set \<Rightarrow> run_manager \<Rightarrow> bool" where
  "hydrating d S m =
     (rm_repo m = SQLiteRepository d \<and> S \<subseteq> {y \<in> set (runs d). live_row y} \<and>
      (\<forall>i r. map_of (rm_runs m) i = Some r \<longrightarrow>
         (\<exists>y \<in> S. r_id y = i \<and> \<not> record_finished r \<and> rr_target_node_id r = r_target_node y)) \<and>
      (\<forall>y \<in> S. map_of (rm_runs m) (r_id y) \<noteq> None) \<and>
      (\<forall>y \<in> S. truthy_opt (r_target_node y) \<longrightarrow> map_of (rm_writers m) (or_empty (r_target_node y)) = Some (r_id y)))"

lemma hydrating_step:
  assumes d: "restartable d" and h: "hydrating d S m" and y: "y \<in> set (runs d)" "live_row y" "run_from_row y = Inr x"
    and eq: "hydrate_record now x m = (Inr r, m')"
  shows "hydrating d (insert y S) m'"
proof -
  have x: "ri_id x = r_id y" "ri_status x = r_status y" "ri_target_node x = r_target_node y"
    using run_from_row_fields [OF y(3)] run_from_row_more [OF y(3)] by simp_all
  obtain st k where st: "parse_run_status (or_string (ri_status x) ''running'') = Inr st"
    and k: "parse_run_kind (or_string (ri_kind x) ''chat'') = Inr k"
    using eq by (auto simp: hydrate_record_def split: sum.splits)
  have live: "st \<notin> set FINISHED_RUN_STATUSES"
    using parse_run_status_finished [OF st] y(2) x by (simp add: live_row_def or_running_finished)
  have same: "z = y" if "z \<in> S" "r_id z = r_id y" for z
    using that h y(1) d run_row_of_iff [of d "r_id y"] unfolding restartable_def hydrating_def by (metis (mono_tags) mem_Collect_eq option.inject subsetD)
  have r: "\<not> record_finished r \<and> rr_target_node_id r = r_target_node y"
  proof (cases "map_of (rm_runs m) (r_id y)")
    case None
    then show ?thesis using eq st k x live by (auto simp: hydrate_record_def Let_def new_record_def record_finished_def)
  next
    case (Some q)
    then obtain z where "z \<in> S" "r_id z = r_id y" "rr_target_node_id q = r_target_node z"
      using h unfolding hydrating_def by blast
    then have "rr_target_node_id q = r_target_node y" using same by blast
    then show ?thesis using eq st k x live Some by (auto simp: hydrate_record_def Let_def rehydrated_def record_finished_def)
  qed
  have m': "rm_repo m' = rm_repo m" "map_of (rm_runs m') = (map_of (rm_runs m))(r_id y \<mapsto> r)"
    "map_of (rm_writers m') = (if truthy_opt (r_target_node y) then (map_of (rm_writers m))(or_empty (r_target_node y) \<mapsto> r_id y)
       else map_of (rm_writers m))"
    using eq st k x r
    by (auto simp: hydrate_record_def Let_def register_writer_def put_record_def split: option.splits)
  have "map_of (rm_writers m') (or_empty (r_target_node z)) = Some (r_id z)"
    if z: "z \<in> insert y S" "truthy_opt (r_target_node z)" for z
  proof (cases "truthy_opt (r_target_node y) \<and> or_empty (r_target_node z) = or_empty (r_target_node y)")
    case True
    then have "r_target_node y = r_target_node z"
      using z(2) by (auto simp: truthy_opt_def split: option.splits)
    moreover have "z \<in> set (runs d)" "live_row z" using z(1) h y by (auto simp: hydrating_def)
    ultimately have "r_id y = r_id z" using d y True unfolding restartable_def targets_distinct_def by blast
    then show ?thesis using True m'(3) by simp
  next
    case False
    then have "z \<in> S" using z by auto
    then show ?thesis using h z(2) False m'(3) by (auto simp: hydrating_def)
  qed
  then show ?thesis using h y(1,2) r m'(1,2) unfolding hydrating_def by (auto split: if_splits)
qed

lemma hydrating_all:
  assumes "restartable d"
  shows "hydrating d S m \<Longrightarrow> mapM_result run_from_row ys = Inr xs \<Longrightarrow> set ys \<subseteq> {y \<in> set (runs d). live_row y} \<Longrightarrow>
    hydrate_all now xs m = (Inr (), m') \<Longrightarrow> hydrating d (S \<union> set ys) m'"
proof (induction ys arbitrary: S m xs)
  case (Cons y ys)
  obtain x xs' where x: "run_from_row y = Inr x" "mapM_result run_from_row ys = Inr xs'" "xs = x # xs'"
    using Cons.prems(2) by (auto simp: bind_result_eq_Inr map_result_eq_Inr split: sum.splits)
  obtain r m1 where h: "hydrate_record now x m = (Inr r, m1)" "hydrate_all now xs' m1 = (Inr (), m')"
    using Cons.prems(4) x(3) by (auto simp: then_do_def split: sum.splits prod.splits)
  have "hydrating d (insert y S) m1"
    by (rule hydrating_step [OF assms Cons.prems(1) _ _ x(1) h(1)]) (use Cons.prems(3) in auto)
  from Cons.IH [OF this x(2) _ h(2)] show ?case using Cons.prems(3) by simp
qed simp

lemma same_repo: "rm_repo m = SQLiteRepository d \<Longrightarrow> m = m\<lparr>rm_repo := SQLiteRepository d\<rparr>"
  by (cases m) simp

lemma recover_keeps:
  assumes "restartable d" and "rm_repo m = SQLiteRepository d"
  shows "\<exists>d'. recover_file env now k m = m\<lparr>rm_repo := SQLiteRepository d'\<rparr> \<and> restartable d'"
proof -
  have id: "m = m\<lparr>rm_repo := SQLiteRepository d\<rparr>" by (rule same_repo [OF assms(2)])
  have "recover_file env now k m = m \<or>
      (\<exists>es. recover_file env now k m =
         m\<lparr>rm_repo := SQLiteRepository (snd (sql_append_indexed_events (en_codec env) now (snd k) es d))\<rparr>)"
    using assms(2) by (auto simp: recover_file_def Let_def split: sum.split option.split)
  moreover have "restartable (snd (sql_append_indexed_events (en_codec env) now (snd k) es d))" for es
    using restartable_keep [OF assms(1)] append_indexed_op by blast
  ultimately show ?thesis using id assms(1) by metis
qed

lemma recover_all_keep:
  assumes "restartable d" and "rm_repo m = SQLiteRepository d"
  shows "\<exists>d'. fold (recover_file env now) ks m = m\<lparr>rm_repo := SQLiteRepository d'\<rparr> \<and> restartable d'"
  using assms
proof (induction ks arbitrary: m d)
  case (Cons k ks)
  obtain d1 where d1: "recover_file env now k m = m\<lparr>rm_repo := SQLiteRepository d1\<rparr>" "restartable d1"
    using recover_keeps [OF Cons.prems] by blast
  show ?case using Cons.IH [OF d1(2), of "m\<lparr>rm_repo := SQLiteRepository d1\<rparr>"] d1(1) by auto
next
  case Nil
  then show ?case using same_repo by auto
qed

lemma mgr_inv_init:
  assumes "restartable d" and "manager_init env now (SQLiteRepository d) j tasks = (Inr (), m)"
  shows "mgr_inv m"
proof -
  let ?m0 = "fresh_manager (SQLiteRepository d) j tasks"
  obtain d1 where d1: "recover_journal_events env now ?m0 = ?m0\<lparr>rm_repo := SQLiteRepository d1\<rparr>" "restartable d1"
    using recover_all_keep [OF assms(1), of ?m0 env now "map fst j"] unfolding recover_journal_events_def
    by (auto simp: fresh_manager_def simp del: fold_map)
  let ?m1 = "?m0\<lparr>rm_repo := SQLiteRepository d1\<rparr>"
  let ?ys = "runs_in_order (\<lambda>r. \<not> is_finished (r_status r)) d1"
  obtain xs where xs: "mapM_result run_from_row ?ys = Inr xs" "hydrate_all now xs ?m1 = (Inr (), m)"
    using assms(2) d1(1)
    by (auto simp: manager_init_def hydrate_active_runs_def rep_list_active_def sql_list_active_def split: sum.splits)
  have readable: "readable_row y" if "y \<in> set ?ys" for y
  proof -
    obtain n where "n < length ?ys" "y = ?ys ! n" using \<open>y \<in> set ?ys\<close> by (metis in_set_conv_nth)
    then obtain x where "run_from_row y = Inr x" using list_all2_nthD [OF mapM_result_all [OF xs(1)]] by blast
    then show ?thesis using run_from_row_more by blast
  qed
  have live: "set ?ys = {y \<in> set (runs d1). live_row y}"
  proof -
    have "set ?ys = {y \<in> set (runs d1). \<not> is_finished (r_status y)}" by (auto simp: runs_in_order_def select_def)
    then show ?thesis using readable by (auto simp: live_row_def)
  qed
  have "hydrating d1 {} ?m1" by (simp add: hydrating_def fresh_manager_def)
  from hydrating_all [OF d1(2) this xs(1) _ xs(2)] have h: "hydrating d1 {y \<in> set (runs d1). live_row y} m" using live by simp
  have ids: "[] \<notin> r_id ` set (runs d1)" using d1(2) by (simp add: restartable_def)
  have "writers_ok m" unfolding writers_ok_def
  proof (intro conjI allI impI)
    show "map_of (rm_runs m) [] = None"
    proof (cases "map_of (rm_runs m) []")
      case (Some r)
      then show ?thesis using h ids unfolding hydrating_def by force
    qed
    fix i r t assume "map_of (rm_runs m) i = Some r" "rr_target_node_id r = Some t" "t \<noteq> []"
    then show "map_of (rm_writers m) t = Some i"
      using h unfolding hydrating_def by (fastforce simp: truthy_opt_def)
  qed
  moreover have "cached_ok d1 m"
  proof (rule cached_okI [OF ids])
    fix y assume y: "y \<in> set (runs d1)" "live_row y"
    then obtain r where r: "map_of (rm_runs m) (r_id y) = Some r" using h unfolding hydrating_def by blast
    then obtain z where z: "z \<in> set (runs d1)" "r_id z = r_id y" "\<not> record_finished r" "rr_target_node_id r = r_target_node z"
      using h unfolding hydrating_def by blast
    have "z = y" using z(1,2) y(1) run_row_of_iff [of d1 "r_id y"] d1(2) by (metis option.inject restartable_def)
    then show "\<exists>r. map_of (rm_runs m) (r_id y) = Some r \<and> \<not> record_finished r \<and>
        (truthy_opt (r_target_node y) \<longrightarrow> rr_target_node_id r = r_target_node y)" using r z by blast
  qed
  ultimately show ?thesis using h d1(2) by (intro mgr_invI) (simp_all add: hydrating_def restartable_def)
qed

section \<open>Whole handlers\<close>

lemma mgr_inv_bind_task: "mgr_inv m \<Longrightarrow> bind_task_section i b m = (Inr (), m)"
  by (auto simp: bind_task_section_def manages_task_bindings_def elim!: mgr_invE split: option.split)

lemma mgr_inv_publish:
  assumes "mgr_inv m"
  shows "mgr_inv (snd (publish_run now i q r m))"
proof -
  have child: "mgr_inv (snd (append_child_started now p r m))" if "mgr_inv m" for p m
    unfolding append_child_started_def using mgr_inv_get_run [OF that]
    by (rule mgr_inv_then_do) (auto simp: mgr_inv_append_event split: option.split intro!: mgr_inv_then_do)
  show ?thesis
    unfolding publish_run_def mgr_inv_bind_task [OF assms] then_do_simps
    using assms child by (auto simp: mgr_inv_append_event intro!: mgr_inv_then_do)
qed

lemma mgr_inv_compensation:
  assumes "mgr_inv m"
  shows "mgr_inv (snd (interrupt_committed_creation env now i reason m))"
proof -
  obtain out m1 where i: "interrupt_section now i m = (out, m1)" by fastforce
  have m1: "mgr_inv m1" using mgr_inv_interrupt [OF assms, of now i] i by simp
  consider (err) e where "out = Inl e" | (no) "out = Inr False" | (yes) "out = Inr True" by (cases out) auto
  then show ?thesis
  proof cases
    case yes
    have "mgr_inv (snd (then_do (finish_run env now i Interrupted (Some reason) True False m1) (\<lambda>_ m. (Inr (), m))))"
      by (rule mgr_inv_then_do [OF mgr_inv_finish_run [OF m1]]) simp
    then show ?thesis using i yes by (simp add: interrupt_committed_creation_def)
  qed (use i m1 in \<open>simp_all add: interrupt_committed_creation_def mgr_inv_unhydrated\<close>)
qed

lemma mgr_inv_unless:
  assumes "mgr_inv (snd out)"
  shows "mgr_inv (snd (unless_published env now i reason out))"
proof -
  obtain x m where out: "out = (x, m)" by fastforce
  show ?thesis
  proof (cases x)
    case (Inl e)
    have "mgr_inv (snd (then_do (interrupt_committed_creation env now i reason m) (\<lambda>_ m. (Inl e, m))))"
      by (rule mgr_inv_then_do [OF mgr_inv_compensation]) (use assms out in simp_all)
    then show ?thesis using out Inl by (simp add: unless_published_def)
  qed (use assms out in \<open>simp add: unless_published_def\<close>)
qed

lemma mgr_inv_create_run:
  assumes "mgr_inv m" and "map_of (rm_runs m) (''run_'' @ uuid) = None"
  shows "mgr_inv (snd (create_run env uuid now q m))"
proof (cases "parse_run_kind (rq_kind q)")
  case (Inr k)
  then have c: "creatable uuid q m" using assms(2) by (simp add: parse_kind_named creatable_def)
  obtain own r m1 where s: "create_section uuid now q m = ((own, r), m1)" by (metis prod.collapse)
  have m1: "mgr_inv m1" using mgr_inv_create_section [OF assms(1) c, of now] s by simp
  show ?thesis
  proof (cases own)
    case (Some i)
    have "mgr_inv (snd (then_do (r, m1) (publish_run now i q)))"
      by (rule mgr_inv_then_do) (use m1 in \<open>simp_all add: mgr_inv_publish\<close>)
    then show ?thesis using Inr s Some by (simp add: create_run_def mgr_inv_unless)
  qed (use Inr s m1 in \<open>simp add: create_run_def\<close>)
qed (use assms in \<open>simp add: create_run_def\<close>)

lemma mgr_inv_reserve_or_get:
  assumes "mgr_inv m" and "map_of (rm_runs m) (''run_'' @ uuid) = None"
  shows "mgr_inv (snd (reserve_or_get_run env uuid now q m))"
proof (cases "idempotency_ok q")
  case ok: (Inr u)
  show ?thesis
  proof (cases "parse_run_kind (rq_kind q)")
    case (Inr k)
    then have c: "creatable uuid q m" using assms(2) by (simp add: parse_kind_named creatable_def)
    obtain own r m1 where s: "reserve_section env uuid now q m = ((own, r), m1)" by (metis prod.collapse)
    have m1: "mgr_inv m1" using mgr_inv_reserve [OF assms(1) c, of env now] s by simp
    show ?thesis
    proof (cases own)
      case (Some i)
      have "mgr_inv (snd (then_do (r, m1) (\<lambda>r m. then_do (publish_run now i q r m) (\<lambda>r' m. (Inr (r', True), m)))))"
        by (rule mgr_inv_then_do) (use m1 in \<open>auto simp: mgr_inv_publish intro!: mgr_inv_then_do\<close>)
      then show ?thesis using ok Inr s Some by (simp add: reserve_or_get_run_def mgr_inv_unless)
    qed (use ok Inr s m1 in \<open>simp add: reserve_or_get_run_def\<close>)
  qed (use ok assms in \<open>simp add: reserve_or_get_run_def\<close>)
qed (use assms in \<open>simp add: reserve_or_get_run_def\<close>)

section \<open>Reachable states\<close>

text \<open>
  One rule for each section, so that the sections of different handlers may follow each other in
  any order; \<open>deleted\<close> is a deletion of the run by another part of the program, \<open>restart\<close> a new
  process over the same database and journal.
\<close>

inductive rm_step :: "run_env \<Rightarrow> run_manager \<Rightarrow> run_manager \<Rightarrow> bool" for env where
  create: "creatable uuid q m \<Longrightarrow> rm_step env m (snd (create_section uuid now q m))"
| reserve: "creatable uuid q m \<Longrightarrow> rm_step env m (snd (reserve_section env uuid now q m))"
| bind_task: "rm_step env m (snd (bind_task_section i b m))"
| append: "rm_step env m (snd (append_events now i ps m))"
| interrupt: "rm_step env m (snd (interrupt_section now i m))"
| unhydrated: "rm_step env m (snd (finish_unhydrated_creation env now i reason m))"
| finish: "rm_step env m (snd (finish_run env now i st err listen persist m))"
| anchor: "rm_step env m (snd (bind_anchor_section now i nd m))"
| target: "rm_step env m (snd (bind_target_section now i nd m))"
| parent: "rm_step env m (snd (parent_section now i p m))"
| status: "rm_step env m (snd (status_section now i st m))"
| metadata: "rm_step env m (snd (metadata_section now i md m))"
| stop: "rm_step env m (snd (request_stop env now i m))"
| ask_stop: "rm_step env m (snd (stop_requested i m))"
| look_up: "rm_step env m (snd (get_run now i m))"
| recovery: "rm_step env m (snd (get_run_for_recovery now i m))"
| replay: "rm_step env m (snd (idempotent_run_section env now key fp m))"
| read: "rm_step env m (snd (read_events env now i n m))"
| subscribe: "rm_step env m (snd (subscribe_section now i m))"
| poll: "rm_step env m (snd (poll_section env now i n s m))"
| unsubscribe: "rm_step env m (unsubscribe i s m)"
| close: "rm_step env m (close_manager m)"
| deleted: "rm_repo m = SQLiteRepository d \<Longrightarrow> rm_step env m (m\<lparr>rm_repo := SQLiteRepository (sql_delete_run i d)\<rparr>)"
| restart: "manager_init env now (rm_repo m) (rm_journal m) tasks = (Inr (), m') \<Longrightarrow> rm_step env m m'"

inductive rm_reach :: "run_env \<Rightarrow> run_manager \<Rightarrow> bool" for env where
  start: "restartable d \<Longrightarrow> manager_init env now (SQLiteRepository d) j tasks = (Inr (), m) \<Longrightarrow> rm_reach env m"
| step: "rm_reach env m \<Longrightarrow> rm_step env m m' \<Longrightarrow> rm_reach env m'"

lemma mgr_inv_deleted:
  assumes "mgr_inv m" and "rm_repo m = SQLiteRepository d"
  shows "mgr_inv (m\<lparr>rm_repo := SQLiteRepository (sql_delete_run i d)\<rparr>)"
proof -
  from assms have d: "sql_inv d" and w: "writers_ok m" and c: "cached_ok d m" by (auto elim: mgr_invE)
  have "cached_ok (sql_delete_run i d) m"
  proof (rule cached_okI)
    show "[] \<notin> r_id ` set (runs (sql_delete_run i d))"
      using c unfolding sql_delete_runs cached_ok_def by (auto simp: forget_row_def)
    fix row assume "row \<in> set (runs (sql_delete_run i d))" "live_row row"
    from delete_rows_live [OF this] obtain r where r: "r \<in> set (runs d)" "live_row r" "r_id r = r_id row"
      "r_target_node r = r_target_node row" by blast
    then show "\<exists>r. map_of (rm_runs m) (r_id row) = Some r \<and> \<not> record_finished r \<and>
        (truthy_opt (r_target_node row) \<longrightarrow> rr_target_node_id r = r_target_node row)"
      using cached_okE [OF c r(1,2)] by metis
  qed
  then show ?thesis using w delete_run_inv [OF d] by (simp add: mgr_inv_def writers_ok_def cached_ok_def)
qed

lemma rm_step_inv: "rm_step env m m' \<Longrightarrow> mgr_inv m \<Longrightarrow> mgr_inv m'"
proof (induction rule: rm_step.induct)
  case (bind_task m i b)
  then show ?case by (simp add: mgr_inv_bind_task)
next
  case (restart now m tasks m')
  then obtain d where "rm_repo m = SQLiteRepository d" by (auto elim: mgr_invE)
  then show ?case using restart mgr_inv_init [OF mgr_inv_restartable] by metis
qed (simp_all add: mgr_inv_create_section mgr_inv_reserve mgr_inv_append_events mgr_inv_interrupt mgr_inv_unhydrated
    mgr_inv_finish_run mgr_inv_anchor mgr_inv_target mgr_inv_parent mgr_inv_status mgr_inv_metadata mgr_inv_request_stop
    stop_requested_def mgr_inv_get_run mgr_inv_recovery mgr_inv_idempotent mgr_inv_read_events mgr_inv_subscribe
    mgr_inv_poll mgr_inv_unsubscribe close_manager_def mgr_inv_deleted)

lemma rm_reach_inv: "rm_reach env m \<Longrightarrow> mgr_inv m"
  by (induction rule: rm_reach.induct) (auto intro: mgr_inv_init rm_step_inv)

end
