(* ===== verification/RunStream.thy ===== *)
theory RunStream
  imports RunWriters
begin

text \<open>
  A run that streams over the SQLite repository: from its first event until it is asked to stop,
  is finished or the process ends, whatever the other runs do, its journal has exactly the events
  that are cached for it.
\<close>

section \<open>The journal and the cache\<close>

definition journal_ok :: "string \<Rightarrow> run_manager \<Rightarrow> bool" where
  "journal_ok i m =
     ((\<exists>d. rm_repo m = SQLiteRepository d) \<and>
      (\<exists>r. map_of (rm_runs m) i = Some r \<and> map_of (rm_events m) i \<noteq> None \<and>
           rr_event_count r \<le> length (cached_events m i) \<and>
           journal_lines (rm_journal m) (journal_key (rr_conversation_id r) i) = map journal_line (cached_events m i)))"

text \<open>Another run, in another file.\<close>

definition apart :: "string \<Rightarrow> string \<Rightarrow> bool" where
  "apart i j = (safe_name j \<noteq> safe_name i)"

lemma apart_neq: "apart i j \<Longrightarrow> j \<noteq> i"
  by (auto simp: apart_def)

lemma apart_key: "apart i j \<Longrightarrow> journal_key c' j \<noteq> journal_key c i"
  by (simp add: apart_def journal_key_def)

lemma journal_okE:
  assumes "journal_ok i m"
  obtains d r where "rm_repo m = SQLiteRepository d" and "map_of (rm_runs m) i = Some r"
    and "map_of (rm_events m) i \<noteq> None" and "rr_event_count r \<le> length (cached_events m i)"
    and "journal_lines (rm_journal m) (journal_key (rr_conversation_id r) i) = map journal_line (cached_events m i)"
  using assms unfolding journal_ok_def by blast

text \<open>What the sections change without touching the journal or the events of the run.\<close>

lemma journal_ok_fields [simp]:
  "journal_ok i (m\<lparr>rm_tasks := a\<rparr>) = journal_ok i m"
  "journal_ok i (m\<lparr>rm_subscribers := b\<rparr>) = journal_ok i m"
  "journal_ok i (m\<lparr>rm_set_signals := s\<rparr>) = journal_ok i m"
  "journal_ok i (m\<lparr>rm_writers := w\<rparr>) = journal_ok i m"
  "journal_ok i (m\<lparr>rm_stop_events := e\<rparr>) = journal_ok i m"
  "journal_ok i (m\<lparr>rm_notified := n\<rparr>) = journal_ok i m"
  "journal_ok i (m\<lparr>rm_closing := f\<rparr>) = journal_ok i m"
  by (simp_all add: journal_ok_def cached_events_def)

lemma journal_ok_repo: "journal_ok i m \<Longrightarrow> journal_ok i (m\<lparr>rm_repo := SQLiteRepository d\<rparr>)"
  by (simp add: journal_ok_def cached_events_def)

lemma journal_ok_signal [simp]: "journal_ok i (signal_subscribers j m) = journal_ok i m"
  by (simp add: signal_subscribers_def)

lemma journal_ok_notify [simp]: "journal_ok i (notify_listeners r m) = journal_ok i m"
  by (simp add: notify_listeners_def)

lemma journal_ok_register [simp]: "journal_ok i (register_writer j r m) = journal_ok i m"
  by (simp add: register_writer_def)

lemma journal_ok_release [simp]: "journal_ok i (release_writer j r m) = journal_ok i m"
  by (simp add: release_writer_def Let_def split: option.split)

lemma journal_ok_put_other: "journal_ok i m \<Longrightarrow> j \<noteq> i \<Longrightarrow> journal_ok i (put_record j r m)"
  by (simp add: journal_ok_def put_record_def cached_events_def)

lemma journal_ok_put:
  "journal_ok i m \<Longrightarrow> (j = i \<Longrightarrow> \<exists>r. map_of (rm_runs m) i = Some r \<and> rr_conversation_id r' = rr_conversation_id r \<and>
     rr_event_count r' = rr_event_count r) \<Longrightarrow> journal_ok i (put_record j r' m)"
  by (cases "j = i") (auto simp: journal_ok_put_other, auto simp: journal_ok_def put_record_def cached_events_def)

lemma journal_ok_events_other: "journal_ok i m \<Longrightarrow> j \<noteq> i \<Longrightarrow> journal_ok i (m\<lparr>rm_events := dict_set j es (rm_events m)\<rparr>)"
  by (simp add: journal_ok_def cached_events_def)

lemma journal_ok_setdefault: "journal_ok i m \<Longrightarrow> journal_ok i (m\<lparr>rm_events := dict_setdefault j es (rm_events m)\<rparr>)"
  by (cases "map_of (rm_events m) j") (auto simp: journal_ok_def cached_events_def)

lemma journal_ok_add_other: "journal_ok i m \<Longrightarrow> j \<noteq> i \<Longrightarrow> journal_ok i (add_cached j es m)"
  by (simp add: add_cached_def journal_ok_events_other)

lemma journal_ok_append_other:
  "journal_ok i m \<Longrightarrow> apart i j \<Longrightarrow> journal_ok i (m\<lparr>rm_journal := journal_append c j es (rm_journal m)\<rparr>)"
  by (auto simp: journal_ok_def cached_events_def journal_append_def journal_lines_def apart_key [THEN not_sym])

lemma journal_ok_delete_other:
  "journal_ok i m \<Longrightarrow> apart i j \<Longrightarrow> journal_ok i (m\<lparr>rm_journal := journal_delete c j (rm_journal m)\<rparr>)"
  by (auto simp: journal_ok_def cached_events_def journal_delete_def journal_lines_def apart_key [THEN not_sym])

lemma journal_ok_then_do:
  "journal_ok i (snd x) \<Longrightarrow> (\<And>a m. x = (Inr a, m) \<Longrightarrow> journal_ok i m \<Longrightarrow> journal_ok i (snd (f a m))) \<Longrightarrow>
   journal_ok i (snd (then_do x f))"
  by (auto simp: then_do_def split: prod.split sum.split)

lemma journal_ok_on_repo:
  "journal_ok i m \<Longrightarrow> journal_ok i (snd (on_repo (on_repository f g) m))"
  by (erule journal_okE) (simp add: on_repo_sql journal_ok_repo journal_ok_def cached_events_def)

section \<open>Finding a run\<close>

lemma stored_id: "rep_get_run rep j = Inr (Some x) \<Longrightarrow> rep = SQLiteRepository d \<Longrightarrow> ri_id x = j"
  by (auto simp: rep_get_run_def sql_get_run_def run_row_of_def map_result_eq_Inr run_from_row_fields
      dest!: fetchone_select_SomeD split: option.splits)

lemma journal_ok_hydrate:
  assumes "journal_ok i m" and "ri_id x \<noteq> i"
  shows "journal_ok i (snd (hydrate_record now x m))"
  using assms journal_ok_put_other [OF assms]
  by (simp add: hydrate_record_def Let_def split: sum.split option.split)

lemma hydrate_gives:
  "hydrate_record now x m = (Inr r, m') \<Longrightarrow> map_of (rm_runs m') (ri_id x) = Some r"
  by (auto simp: hydrate_record_def Let_def split: sum.splits option.splits)

lemma journal_ok_require:
  assumes "journal_ok i m" and "\<And>r m'. journal_ok i m' \<Longrightarrow> map_of (rm_runs m') j = Some r \<Longrightarrow> journal_ok i (snd (f r m'))"
  shows "journal_ok i (snd (then_do (require_run now j m) f))"
proof (cases "map_of (rm_runs m) j")
  case None
  from assms(1) obtain d r where d: "rm_repo m = SQLiteRepository d" and r: "map_of (rm_runs m) i = Some r" by (rule journal_okE)
  have other: "j \<noteq> i" using None r by auto
  have H: "journal_ok i (snd (hydrate_record now x m))" if "rep_get_run (rm_repo m) j = Inr (Some x)" for x
    using journal_ok_hydrate [OF assms(1)] stored_id [OF that d] other by simp
  have G: "map_of (rm_runs m') j = Some r'"
    if "rep_get_run (rm_repo m) j = Inr (Some x)" "hydrate_record now x m = (Inr r', m')" for x r' m'
    using hydrate_gives [OF that(2)] stored_id [OF that(1) d] by simp
  show ?thesis
  proof (cases "rep_get_run (rm_repo m) j")
    case (Inr o')
    show ?thesis
    proof (cases o')
      case (Some x)
      obtain out m' where h: "hydrate_record now x m = (out, m')" by fastforce
      have m': "journal_ok i m'" using H [of x] Inr Some h by simp
      show ?thesis
      proof (cases out)
        case (Inr r')
        then show ?thesis using assms(2) [OF m' G [of x r' m']] h None \<open>rep_get_run (rm_repo m) j = Inr o'\<close> Some
          by (simp add: require_run_def hydrate_run_def)
      qed (use h m' None \<open>rep_get_run (rm_repo m) j = Inr o'\<close> Some in \<open>simp add: require_run_def hydrate_run_def\<close>)
    qed (use assms(1) None Inr in \<open>simp add: require_run_def hydrate_run_def\<close>)
  qed (use assms(1) None in \<open>simp add: require_run_def hydrate_run_def\<close>)
qed (use assms in \<open>simp add: require_run_def\<close>)

section \<open>Sections of any run\<close>

lemma journal_ok_append:
  assumes "journal_ok i m" and "j = i \<or> apart i j"
  shows "journal_ok i (snd (append_events now j ps m))"
proof (cases "ps = []")
  case False
  have "journal_ok i (snd (case rm_repo m' of
      SQLiteRepository d \<Rightarrow> append_streamed now j r ps m' | MemoryRepository s \<Rightarrow> append_stored now j r ps s m'))"
    if ok: "journal_ok i m'" and r: "map_of (rm_runs m') j = Some r" for r m'
  proof -
    let ?es = "streamed_events now j r (rr_event_count r) ps"
    let ?r = "r\<lparr>rr_event_count := rr_event_count r + length ?es, rr_updated_at := now\<rparr>"
    from ok obtain d where d: "rm_repo m' = SQLiteRepository d" by (rule journal_okE)
    have "journal_ok i (snd (append_streamed now j r ps m'))"
    proof (cases "j = i")
      case True
      then show ?thesis using ok r
        by (auto simp: append_streamed_def Let_def journal_ok_def add_cached_def cached_events_def put_record_def
            signal_subscribers_def journal_append_def journal_lines_def)
    next
      case False
      then have a: "apart i j" using assms(2) by simp
      have "journal_ok i (add_cached j ?es (put_record j ?r m'))"
        using False by (intro journal_ok_add_other journal_ok_put_other ok)
      then show ?thesis
        unfolding append_streamed_def Let_def snd_conv journal_ok_signal by (rule journal_ok_append_other [OF _ a])
    qed
    then show ?thesis using d by simp
  qed
  then show ?thesis using False unfolding append_events_def by (simp add: journal_ok_require [OF assms(1)])
qed (use assms(1) in \<open>simp add: append_events_def\<close>)

lemma journal_ok_put_kept:
  "journal_ok i m \<Longrightarrow> map_of (rm_runs m) j = Some r \<Longrightarrow> rr_conversation_id r' = rr_conversation_id r \<Longrightarrow>
   rr_event_count r' = rr_event_count r \<Longrightarrow> journal_ok i (put_record j r' m)"
  by (rule journal_ok_put) auto

lemma on_repo_keeps:
  assumes "on_repo (on_repository f g) m = (out, m')" and "journal_ok i m"
  shows "journal_ok i m'" and "rm_runs m' = rm_runs m"
proof -
  show "journal_ok i m'" using journal_ok_on_repo [OF assms(2), of f g] assms(1) by simp
  from assms(2) obtain d where "rm_repo m = SQLiteRepository d" by (rule journal_okE)
  then show "rm_runs m' = rm_runs m" using assms(1) by (auto simp: on_repo_sql)
qed

text \<open>The sections that change a record through the repository have one shape.\<close>

lemma journal_ok_change:
  assumes "journal_ok i m" and "map_of (rm_runs m) j = Some r"
    and "\<And>x. rr_conversation_id (g x) = rr_conversation_id r \<and> rr_event_count (g x) = rr_event_count r"
  shows "journal_ok i (snd (then_do (on_repo (on_repository f h) m) (\<lambda>x m. (Inr (g x, b), put_record j (g x) m))))"
proof -
  obtain out m' where o: "on_repo (on_repository f h) m = (out, m')" by fastforce
  note K = on_repo_keeps [OF o assms(1)]
  show ?thesis using o K(1) journal_ok_put_kept [OF K(1)] K(2) assms(2,3) by (cases out) simp_all
qed

lemma journal_ok_anchor: "journal_ok i m \<Longrightarrow> journal_ok i (snd (bind_anchor_section now j nd m))"
  unfolding bind_anchor_section_def Let_def rep_update_anchor_node_def
  by (rule journal_ok_require, assumption) (simp add: journal_ok_change)

lemma journal_ok_parent: "journal_ok i m \<Longrightarrow> journal_ok i (snd (parent_section now j p m))"
  unfolding parent_section_def Let_def rep_update_cancellation_parent_def
  by (rule journal_ok_require, assumption) (simp add: journal_ok_change)

lemma journal_ok_metadata: "journal_ok i m \<Longrightarrow> journal_ok i (snd (metadata_section now j md m))"
  unfolding metadata_section_def Let_def rep_merge_metadata_def
  by (rule journal_ok_require, assumption) (simp add: journal_ok_change)

lemma journal_ok_status: "journal_ok i m \<Longrightarrow> journal_ok i (snd (status_section now j st m))"
  unfolding status_section_def Let_def rep_update_status_def
proof (rule journal_ok_require, assumption)
  fix r m' assume m': "journal_ok i m'" "map_of (rm_runs m') j = Some r"
  let ?o = "on_repository (mem_update_status now j (run_status_value st)) (sql_update_status now j (run_status_value st))"
  show "journal_ok i (snd (if record_finished r \<or> rr_status r = st then (Inr (r, False), m')
      else then_do (on_repo ?o m') (\<lambda>x m. case parse_run_status (ri_status x) of
           Inl e \<Rightarrow> (Inl e, m)
         | Inr st' \<Rightarrow> (Inr (r\<lparr>rr_status := st', rr_updated_at := or_time (ri_updated_at x) now\<rparr>, True),
             put_record j (r\<lparr>rr_status := st', rr_updated_at := or_time (ri_updated_at x) now\<rparr>) m))))"
  proof -
    obtain out m1 where o: "on_repo ?o m' = (out, m1)" by fastforce
    note K = on_repo_keeps [OF o m'(1)]
    show ?thesis using o K(1) m'(1) journal_ok_put_kept [OF K(1)] K(2) m'(2) by (cases out) (simp_all split: sum.split)
  qed
qed

lemma journal_ok_target: "journal_ok i m \<Longrightarrow> journal_ok i (snd (bind_target_section now j nd m))"
  unfolding bind_target_section_def Let_def rep_update_target_node_def
proof (rule journal_ok_require, assumption)
  fix r m' assume m': "journal_ok i m'" "map_of (rm_runs m') j = Some r"
  let ?o = "on_repository (mem_update_target_node now j nd) (sql_update_target_node now j nd)"
  obtain a m1 where acq: "acquire_writer nd j m' = (a, m1)" by fastforce
  then have m1: "journal_ok i m1" "rm_runs m1 = rm_runs m'"
    using m'(1) by (auto simp: acquire_writer_def split: option.splits if_splits)
  obtain out m2 where o: "on_repo ?o m1 = (out, m2)" by fastforce
  note K = on_repo_keeps [OF o m1(1)]
  have release: "map_of (rm_runs (release_writer j r m2)) j = Some r"
    using K(2) m1(2) m'(2) by (simp add: release_writer_def split: option.split)
  have "journal_ok i (restore_writer nd j w m2)" for w using K(1) by (simp add: restore_writer_def split: option.split)
  then show "journal_ok i (snd (if rr_target_node_id r = Some nd then (Inr (r, False), m')
      else then_do (acquire_writer nd j m') (\<lambda>_ m.
           case on_repo ?o m of
             (Inl e, m) \<Rightarrow> (Inl e, restore_writer nd j (map_of (rm_writers m') nd) m)
           | (Inr x, m) \<Rightarrow>
               (Inr (r\<lparr>rr_target_node_id := Some nd, rr_updated_at := or_time (ri_updated_at x) now\<rparr>, True),
                put_record j (r\<lparr>rr_target_node_id := Some nd, rr_updated_at := or_time (ri_updated_at x) now\<rparr>)
                  (release_writer j r m)))))"
    using acq o m'(1) m1(1) K(1) journal_ok_put_kept [OF _ release] by (cases a; cases out) simp_all
qed

lemma journal_ok_ensure: "journal_ok i m \<Longrightarrow> journal_ok i (snd (ensure_events_loaded env j m))"
proof (cases "j = i")
  case True
  assume ok: "journal_ok i m"
  then have "ensure_events_loaded env j m = (Inr (), m)"
    using True by (auto simp: ensure_events_loaded_def elim!: journal_okE)
  then show ?thesis using ok by simp
next
  case False
  moreover assume "journal_ok i m"
  ultimately show ?thesis
    by (simp add: ensure_events_loaded_def Let_def journal_ok_events_other split: option.split sum.split)
qed

lemma journal_ok_get_run: "journal_ok i m \<Longrightarrow> journal_ok i (snd (get_run now j m))"
proof (cases "map_of (rm_runs m) j")
  case None
  moreover assume ok: "journal_ok i m"
  moreover have "ri_id x \<noteq> i" if "rep_get_run (rm_repo m) j = Inr (Some x)" for x
    using ok None stored_id [OF that] by (auto elim!: journal_okE)
  ultimately show ?thesis
    by (auto simp: get_run_def journal_ok_hydrate split: option.split sum.split intro!: journal_ok_then_do)
qed (simp add: get_run_def)

lemma journal_ok_read: "journal_ok i m \<Longrightarrow> journal_ok i (snd (read_events env now j n m))"
  by (auto simp: read_events_def Let_def journal_ok_get_run split: option.split intro!: journal_ok_then_do)

lemma journal_ok_subscribe: "journal_ok i m \<Longrightarrow> journal_ok i (snd (subscribe_section now j m))"
  unfolding subscribe_section_def by (rule journal_ok_require) simp_all

lemma journal_ok_poll: "journal_ok i m \<Longrightarrow> journal_ok i (snd (poll_section env now j n s m))"
  unfolding poll_section_def Let_def
  by (rule journal_ok_require, assumption)
    (auto simp: journal_ok_ensure journal_ok_setdefault intro!: journal_ok_then_do)

lemma journal_ok_unsubscribe: "journal_ok i m \<Longrightarrow> journal_ok i (unsubscribe j s m)"
  by (simp add: unsubscribe_def Let_def split: option.split)

section \<open>Sections of other runs\<close>

lemma persist_repo:
  assumes "persist_streamed_events env now j m = (ok, m')" and "journal_ok i m"
  shows "journal_ok i m'" and "rm_runs m' = rm_runs m"
proof -
  from assms(2) obtain d where d: "rm_repo m = SQLiteRepository d" by (rule journal_okE)
  have "m' = m \<or> (\<exists>d'. m' = m\<lparr>rm_repo := SQLiteRepository d'\<rparr>)"
    using assms(1) d by (auto simp: persist_streamed_events_def Let_def split: if_splits sum.splits prod.splits)
  then show "journal_ok i m'" and "rm_runs m' = rm_runs m" using assms(2) by (auto intro: journal_ok_repo)
qed

lemma journal_ok_recovery:
  assumes "journal_ok i m" and "apart i j"
  shows "journal_ok i (snd (get_run_for_recovery now j m))"
proof -
  have "ri_id x \<noteq> i" if "rep_get_run (rm_repo m) j = Inr (Some x)" for x
    using assms apart_neq stored_id [OF that] by (auto elim!: journal_okE)
  moreover have "journal_ok i (forget_cached_run j m)"
    using assms apart_neq [OF assms(2)] by (simp add: journal_ok_def forget_cached_run_def cached_events_def)
  ultimately show ?thesis using assms(1)
    by (auto simp: get_run_for_recovery_def journal_ok_hydrate split: option.split sum.split intro!: journal_ok_then_do)
qed

lemma journal_ok_note_error:
  assumes "journal_ok i m" and "apart i j"
  shows "journal_ok i (snd (note_persistence_error now j r m))"
proof -
  have "journal_ok i (snd (case rep_get_run (rm_repo m') j of Inl e \<Rightarrow> (Inl e, m')
      | Inr stored \<Rightarrow> (Inr (g stored), put_record j (g stored) m')))" if "journal_ok i m'" for m' and g :: "run_info option \<Rightarrow> run_record"
    using journal_ok_put_other [OF that apart_neq [OF assms(2)]] that by (simp split: sum.split)
  then show ?thesis
    unfolding note_persistence_error_def rep_merge_metadata_def Let_def
    by (intro journal_ok_then_do [OF journal_ok_on_repo [OF assms(1)]])
qed

lemma journal_ok_record_stop:
  assumes "journal_ok i m" and "apart i j"
  shows "journal_ok i (snd (record_stop env j n r m))"
  using assms(1) journal_ok_put_other [OF assms(1) apart_neq [OF assms(2)]]
    journal_ok_add_other [OF journal_ok_put_other [OF assms(1) apart_neq [OF assms(2)]] apart_neq [OF assms(2)]]
  by (simp add: record_stop_def Let_def split: sum.split list.split)

lemma journal_ok_request_stop:
  assumes "journal_ok i m" and "apart i j"
  shows "journal_ok i (snd (request_stop env now j m))"
proof (cases "map_of (rm_runs m) j")
  case (Some r)
  let ?r = "r\<lparr>rr_status := Stopping, rr_updated_at := now\<rparr>"
  let ?m = "(put_record j ?r m)\<lparr>rm_stop_events := dict_set j True (rm_stop_events m)\<rparr>"
  have m: "journal_ok i ?m" using journal_ok_put_other [OF assms(1) apart_neq [OF assms(2)]] by simp
  obtain ok m2 where p: "persist_streamed_events env now j ?m = (ok, m2)" by fastforce
  note P = persist_repo(1) [OF p m]
  have first: "journal_ok i (snd (case (ok, m2) of (True, m2) \<Rightarrow> (Inr ?r, m2) | (False, m2) \<Rightarrow> note_persistence_error now j ?r m2))"
    using P journal_ok_note_error [OF P assms(2)] by (cases ok) simp_all
  have rest: "journal_ok i (snd (on_repo (rep_request_stop env now j) m'))" if "journal_ok i m'" for m'
    unfolding rep_request_stop_def by (rule journal_ok_on_repo [OF that])
  show ?thesis using first assms(1) Some p
    unfolding request_stop_def Let_def
    by (auto intro!: journal_ok_then_do rest journal_ok_record_stop assms(2))
qed (use assms in \<open>simp add: request_stop_def\<close>)

lemma journal_ok_terminal:
  assumes "journal_ok i m" and "apart i j"
  shows "journal_ok i (snd (record_terminal env now j n st r x m))"
  using assms(1) journal_ok_put_other [OF assms(1) apart_neq [OF assms(2)]] journal_ok_add_other [OF _ apart_neq [OF assms(2)]]
  by (simp add: record_terminal_def Let_def split: sum.split list.split)

lemma journal_ok_flush:
  assumes "journal_ok i m" and "apart i j"
  shows "journal_ok i (snd (flush_or_fail env now j st err r m))"
proof -
  obtain ok m1 where p: "persist_streamed_events env now j m = (ok, m1)" by fastforce
  note P = persist_repo(1) [OF p assms(1)]
  show ?thesis
    using P p journal_ok_put_other [OF journal_ok_events_other [OF P apart_neq [OF assms(2)]] apart_neq [OF assms(2)]]
    by (cases ok) (simp_all add: flush_or_fail_def Let_def split: sum.split option.split)
qed

lemma journal_ok_finish:
  assumes "journal_ok i m" and "apart i j"
  shows "journal_ok i (snd (finish_run env now j st err listen persist m))"
proof -
  have task: "finish_bound_task env now j st' r m' = (Inr (), m')" if "journal_ok i m'" for st' r m'
    using that by (auto simp: finish_bound_task_def manages_task_bindings_def elim!: journal_okE)
  have repo: "journal_ok i (snd (on_repo (rep_finish_run env now j s e) m'))" if "journal_ok i m'" for s e m'
    unfolding rep_finish_run_def by (rule journal_ok_on_repo [OF that])
  have locked: "journal_ok i (snd (finish_locked env now j st err persist r m'))" if "journal_ok i m'" for r m'
    unfolding finish_locked_def
    using that journal_ok_flush [OF that assms(2)]
    by (auto simp: task split: prod.split intro!: journal_ok_then_do repo journal_ok_terminal assms(2))
  have "journal_ok i (snd (if record_finished r then (Inr r, m1)
      else then_do (finish_locked env now j st err persist r m1) (\<lambda>r' m2.
        let m3 = signal_subscribers j m2;
            m4 = (if listen then notify_listeners r' m3 else m3);
            m5 = (if uses_indexed_persistence (rm_repo m4)
                  then m4\<lparr>rm_journal := journal_delete (rr_conversation_id r') j (rm_journal m4)\<rparr> else m4)
        in (Inr r', m5))))" if "journal_ok i m1" for r m1
    using that journal_ok_delete_other [OF _ assms(2)]
    by (auto simp: Let_def intro!: journal_ok_then_do locked)
  then show ?thesis using assms(1) by (simp add: finish_run_def journal_ok_require)
qed

lemma journal_ok_unhydrated:
  assumes "journal_ok i m" and "apart i j"
  shows "journal_ok i (snd (finish_unhydrated_creation env now j reason m))"
proof -
  note neq = apart_neq [OF assms(2)]
  have rec: "journal_ok i (snd (record_unhydrated now j x r m'))" if "journal_ok i m'" for x r m'
    using that journal_ok_put_other [OF that neq] by (simp add: record_unhydrated_def Let_def split: sum.split)
  have ev: "journal_ok i (if es = [] then m' else m'\<lparr>rm_events := dict_set j (map cached_of_stored es) (rm_events m')\<rparr>)"
    if "journal_ok i m'" for es :: "run_event list" and m'
    using that by (simp add: journal_ok_events_other neq)
  show ?thesis
    unfolding finish_unhydrated_creation_def rep_finish_run_def Let_def
  proof (rule journal_ok_then_do [OF journal_ok_on_repo [OF assms(1)]])
    fix x m1 assume m1: "journal_ok i m1"
    let ?es = "case rep_read_events env (rm_repo m1) j 0 of Inl _ \<Rightarrow> [] | Inr es \<Rightarrow> es"
    let ?ev = "\<lambda>m :: run_manager. if ?es = [] then m else m\<lparr>rm_events := dict_set j (map cached_of_stored ?es) (rm_events m)\<rparr>"
    have "journal_ok i (snd (then_do (record_unhydrated now j x r m1) (\<lambda>r' m2.
        (Inr (), notify_listeners r' (signal_subscribers j (?ev m2))))))" for r
      by (rule journal_ok_then_do [OF rec [OF m1]]) (simp only: snd_conv journal_ok_notify journal_ok_signal ev)
    then show "journal_ok i (snd (case map_of (rm_runs m1) j of
        None \<Rightarrow> (Inr (), ?ev m1)
      | Some r \<Rightarrow> then_do (record_unhydrated now j x r m1) (\<lambda>r' m2.
          (Inr (), notify_listeners r' (signal_subscribers j (?ev m2))))))"
      using ev [OF m1] by (simp only: snd_conv split: option.split) blast
  qed
qed

lemma journal_ok_interrupt:
  assumes "journal_ok i m" and "apart i j"
  shows "journal_ok i (snd (interrupt_section now j m))"
proof -
  note neq = apart_neq [OF assms(2)]
  have "ri_id x \<noteq> i" if "rep_get_run (rm_repo m) j = Inr (Some x)" for x
    using assms(1) neq stored_id [OF that] by (auto elim!: journal_okE)
  then have "journal_ok i (snd (case map_of (rm_runs m) j of Some r \<Rightarrow> (Inr r, m) | None \<Rightarrow> hydrate_record now x m))"
    if "rep_get_run (rm_repo m) j = Inr (Some x)" for x
    using that assms(1) by (simp add: journal_ok_hydrate split: option.split)
  then show ?thesis using assms(1)
    by (auto simp: interrupt_section_def journal_ok_events_other neq split: sum.split option.split intro!: journal_ok_then_do)
qed

section \<open>Creation\<close>

lemma run_from_row_count: "run_from_row y = Inr x \<Longrightarrow> ri_event_count x = r_event_count y"
  by (auto simp: run_from_row_def map_result_eq_Inr)

lemma create_body_count:
  assumes "create_run_body j now q d = Inr (x, d')"
  shows "ri_id x = j" and "ri_event_count x = 0"
proof -
  let ?P = "\<lambda>d :: db. \<forall>y \<in> set (runs d). r_id y = j \<longrightarrow> r_event_count y = 0"
  obtain y where y: "insert_run_in_connection j now q d = Inr d'" "run_row_of d' j = Some y" "run_from_row y = Inr x"
    using assms by (auto simp: create_run_body_def bind_result_eq_Inr map_result_eq_Inr split: option.splits)
  have row: "y \<in> set (runs d')" "r_id y = j" using y(2) fetchone_select_SomeD unfolding run_row_of_def by fast+
  have new: "?P d1" if "insert_run_row r d = Inr d1" "r_id r = j" "r_event_count r = 0" for r d1
  proof -
    have "runs d1 = runs d @ [r] \<and> r_id r \<notin> r_id ` set (runs d)"
      using that(1) by (simp add: insert_run_row_def Let_def split: if_splits) auto
    then show ?thesis using that(2,3) by (auto simp: image_iff dest: bspec)
  qed
  let ?row = "\<lparr>r_id = j, r_conversation_id = rq_conversation_id q, r_kind = rq_kind q, r_status = ''running'',
        r_created_by = rq_created_by q, r_cancellation_parent = rq_cancellation_parent q,
        r_anchor_node = rq_anchor_node q, r_target_node = rq_target_node q, r_summary = rq_summary q,
        r_metadata_json = Some (json_field (rq_metadata q)), r_event_count = 0, r_created_at = now,
        r_updated_at = now, r_finished_at = None, r_idempotency_key = rq_idempotency_key q,
        r_request_fingerprint = rq_fingerprint q\<rparr>"
  obtain d1 where d1: "insert_run_row ?row d = Inr d1"
    and rest: "(case rq_binding q of None \<Rightarrow> Inr d1
       | Some b \<Rightarrow> bind_result (bind_run_in_connection now j b d1) (\<lambda>((g, p), d2).
           Inr (update_run_rows j (\<lambda>r. r\<lparr>r_metadata_json := Some (json_field
             (dict_update (rq_metadata q) [(''task_generation_id'', PStr g), (''task_step_position'', PInt p)]))\<rparr>) d2)))
         = Inr d'"
    using y(1) by (auto simp: insert_run_in_connection_def bind_result_eq_Inr)
  have P1: "?P d1" using new [OF d1] by simp
  have changed: "runs (update_run_rows j f d0) = map (\<lambda>r. if r_id r = j then f r else r) (runs d0)" for f d0
    by (simp add: update_run_rows_def update_rows_def)
  have "?P d'"
  proof (cases "rq_binding q")
    case None
    then show ?thesis using rest P1 by simp
  next
    case (Some b)
    then obtain g p d2 where b: "bind_run_in_connection now j b d1 = Inr ((g, p), d2)"
      and d': "d' = update_run_rows j (\<lambda>r. r\<lparr>r_metadata_json := Some (json_field
             (dict_update (rq_metadata q) [(''task_generation_id'', PStr g), (''task_step_position'', PInt p)]))\<rparr>) d2"
      using rest by (auto simp: bind_result_eq_Inr)
    have "?P d2" using P1 bind_run_runs [OF b] by simp
    moreover have "?P (update_run_rows j (\<lambda>r. r\<lparr>r_metadata_json := md\<rparr>) d0)" if P0: "?P d0" for md d0
    proof (intro ballI impI)
      fix u assume u: "u \<in> set (runs (update_run_rows j (\<lambda>r. r\<lparr>r_metadata_json := md\<rparr>) d0))" "r_id u = j"
      have "u \<in> (\<lambda>r. if r_id r = j then r\<lparr>r_metadata_json := md\<rparr> else r) ` set (runs d0)"
        using u(1) unfolding changed set_map .
      then obtain z where z: "z \<in> set (runs d0)" "u = (if r_id z = j then z\<lparr>r_metadata_json := md\<rparr> else z)"
        by (rule imageE)
      then have "r_id z = j" using u(2) by (simp split: if_splits)
      then show "r_event_count u = 0" using z P0 by simp
    qed
    ultimately show ?thesis unfolding d' by blast
  qed
  then show "ri_id x = j" and "ri_event_count x = 0"
    using row run_from_row_fields [OF y(3)] run_from_row_count [OF y(3)] by simp_all
qed

text \<open>What the repository answers to a creation.\<close>

lemma create_answer:
  assumes "on_repo (rep_create_or_get_run uuid now q) m = (out, m')" and "rm_repo m = SQLiteRepository d"
  shows "\<exists>d'. m' = m\<lparr>rm_repo := SQLiteRepository d'\<rparr>"
    and "out = Inr (x, True) \<Longrightarrow> ri_id x = ''run_'' @ uuid \<and> ri_event_count x = 0"
    and "out = Inr (x, False) \<Longrightarrow> \<exists>k. rq_idempotency_key q = Some k \<and> k \<in> {k. \<exists>y \<in> set (runs d). r_idempotency_key y = Some k \<and> run_from_row y = Inr x}"
proof -
  have eq: "out = fst (sql_create_or_get_run (''run_'' @ uuid) now q d)"
    "m' = m\<lparr>rm_repo := SQLiteRepository (snd (sql_create_or_get_run (''run_'' @ uuid) now q d))\<rparr>"
    using assms(1) unfolding rep_create_or_get_run_def on_repo_sql [OF assms(2)] by simp_all
  then show "\<exists>d'. m' = m\<lparr>rm_repo := SQLiteRepository d'\<rparr>" by blast
  show "out = Inr (x, True) \<Longrightarrow> ri_id x = ''run_'' @ uuid \<and> ri_event_count x = 0"
    using eq(1) by (cases rule: create_cases [of "''run_'' @ uuid" now q d]) (auto dest: create_body_count)
  show "out = Inr (x, False) \<Longrightarrow> \<exists>k. rq_idempotency_key q = Some k \<and> k \<in> {k. \<exists>y \<in> set (runs d). r_idempotency_key y = Some k \<and> run_from_row y = Inr x}"
    using eq(1) by (cases rule: create_cases [of "''run_'' @ uuid" now q d]) auto
qed

lemma journal_ok_create:
  assumes "journal_ok i m" and "''run_'' @ uuid \<noteq> i"
  shows "journal_ok i (snd (create_section uuid now q m))"
proof -
  from assms(1) obtain d where d: "rm_repo m = SQLiteRepository d" by (rule journal_okE)
  let ?q = "q\<lparr>rq_idempotency_key := None, rq_fingerprint := None\<rparr>"
  obtain out m1 where c: "on_repo (rep_create_or_get_run uuid now ?q) m = (out, m1)" by fastforce
  have m1: "journal_ok i m1" using create_answer(1) [OF c d] journal_ok_repo [OF assms(1)] by blast
  have "journal_ok i (snd (hydrate_record now x m1))" if "out = Inr (x, True)" for x
    using journal_ok_hydrate [OF m1] create_answer(2) [OF c d that] assms(2) by simp
  then show ?thesis using assms(1) m1 c
    by (auto simp: create_section_def split: sum.split prod.split)
qed

text \<open>A key that is not the key of the run.\<close>

definition other_key :: "string \<Rightarrow> string \<Rightarrow> run_manager \<Rightarrow> bool" where
  "other_key i k m =
     (case rm_repo m of
        MemoryRepository _ \<Rightarrow> False
      | SQLiteRepository d \<Rightarrow> \<forall>y \<in> set (runs d). r_idempotency_key y = Some k \<longrightarrow> r_id y \<noteq> i)"

lemma other_key_run:
  assumes "other_key i k m" and "rep_get_run_by_idempotency_key (rm_repo m) k = Inr (Some x)"
  shows "ri_id x \<noteq> i"
  using assms
  by (auto simp: other_key_def rep_get_run_by_idempotency_key_def sql_get_run_by_idempotency_key_def map_result_eq_Inr
      run_from_row_fields dest!: fetchone_select_SomeD split: option.splits run_repository.splits)

lemma journal_ok_idempotent:
  assumes "journal_ok i m" and "other_key i k m"
  shows "journal_ok i (snd (idempotent_run_section env now k fp m))"
  using assms other_key_run [OF assms(2)]
  by (auto simp: idempotent_run_section_def split: option.split sum.split
      intro!: journal_ok_then_do journal_ok_hydrate journal_ok_ensure)

lemma journal_ok_reserve:
  assumes "journal_ok i m" and "other_key i (or_empty (rq_idempotency_key q)) m" and "''run_'' @ uuid \<noteq> i"
  shows "journal_ok i (snd (reserve_section env uuid now q m))"
proof (cases "idempotent_run_section env now (or_empty (rq_idempotency_key q)) (or_empty (rq_fingerprint q)) m")
  case (Pair first m0)
  have m0: "journal_ok i m0" using journal_ok_idempotent [OF assms(1,2)] Pair by (metis snd_conv)
  show ?thesis
  proof (cases "first = Inr None \<and> \<not> rm_closing m")
    case True
    have same: "m0 = m" using creatable_idempotent Pair True by blast
    from assms(1) obtain d where d: "rm_repo m = SQLiteRepository d" by (rule journal_okE)
    obtain out m1 where c: "on_repo (rep_create_or_get_run uuid now q) m = (out, m1)" by fastforce
    have m1: "journal_ok i m1" using create_answer(1) [OF c d] journal_ok_repo [OF assms(1)] by blast
    have x: "ri_id x \<noteq> i" if "out = Inr (x, b)" for x b
      using that create_answer(2,3) [OF c d, of x] assms(2,3) d
      by (cases b) (auto simp: other_key_def run_from_row_fields)
    have h: "journal_ok i m2" if "out = Inr (x, b)" "hydrate_record now x m1 = (r, m2)" for x b r m2
      using journal_ok_hydrate [OF m1 x [OF that(1)], of now] that(2) by simp
    have e: "journal_ok i m3"
      if "out = Inr (x, b)" "hydrate_record now x m1 = (r, m2)" "ensure_events_loaded env j m2 = (u, m3)" for x b r m2 j u m3
      using journal_ok_ensure [OF h [OF that(1,2)], of env j] that(3) by simp
    let ?tail = "\<lambda>p. case p of (Inl e, m2) \<Rightarrow> ((None, Inl e), m2)
      | (Inr (x, created), m2) \<Rightarrow>
          let own = (if created then Some (ri_id x) else None) in
          if or_empty (ri_request_fingerprint x) \<noteq> or_empty (rq_fingerprint q)
          then ((own, Inl (RunIdempotencyConflictError (ri_id x))), m2)
          else (case hydrate_record now x m2 of
               (Inl e, m3) \<Rightarrow> ((own, Inl e), m3)
             | (Inr r, m3) \<Rightarrow>
                 if created then ((own, Inr r), m3)
                 else (case ensure_events_loaded env (ri_id x) m3 of
                    (Inl e, m4) \<Rightarrow> ((None, Inl e), m4)
                  | (Inr _, m4) \<Rightarrow> ((None, Inr r), m4)))"
    have "journal_ok i (snd (?tail (out, m1)))"
    proof (cases out)
      case (Inr y)
      obtain x b where y: "y = (x, b)" by (cases y)
      obtain r m2 where hy: "hydrate_record now x m1 = (r, m2)" by fastforce
      obtain u m3 where en: "ensure_events_loaded env (ri_id x) m2 = (u, m3)" by fastforce
      have o: "out = Inr (x, b)" using Inr y by simp
      show ?thesis using m1 h [OF o hy] e [OF o hy en]
        by (cases r; cases u) (simp_all add: o hy en Let_def)
    qed (use m1 in simp)
    then show ?thesis using Pair True same assms(1) c
      by (cases "target_available (rq_target_node q) m") (simp_all add: reserve_section_def)
  next
    case False
    then show ?thesis using Pair m0 assms(1) by (auto simp: reserve_section_def split: sum.split option.split)
  qed
qed

section \<open>Streaming\<close>

text \<open>
  What may happen while a run streams: its own events and changes, readers, and any section of
  the other runs, whose names must not fall together with its own in the names of the journal
  files.  Left out are the sections that end the streaming (a request to stop the run, its end,
  its deletion, the end of the process) and idempotent creations that repeat the run itself.
\<close>

inductive stream_step :: "run_env \<Rightarrow> string \<Rightarrow> run_manager \<Rightarrow> run_manager \<Rightarrow> bool" for env i where
  append: "j = i \<or> apart i j \<Longrightarrow> stream_step env i m (snd (append_events now j ps m))"
| anchor: "stream_step env i m (snd (bind_anchor_section now j nd m))"
| target: "stream_step env i m (snd (bind_target_section now j nd m))"
| parent: "stream_step env i m (snd (parent_section now j p m))"
| status: "stream_step env i m (snd (status_section now j st m))"
| metadata: "stream_step env i m (snd (metadata_section now j md m))"
| requested: "stream_step env i m (snd (stop_requested j m))"
| get: "stream_step env i m (snd (get_run now j m))"
| read: "stream_step env i m (snd (read_events env now j n m))"
| subscribe: "stream_step env i m (snd (subscribe_section now j m))"
| poll: "stream_step env i m (snd (poll_section env now j n s m))"
| unsubscribe: "stream_step env i m (unsubscribe j s m)"
| close: "stream_step env i m (close_manager m)"
| create: "''run_'' @ uuid \<noteq> i \<Longrightarrow> stream_step env i m (snd (create_section uuid now q m))"
| reserve: "''run_'' @ uuid \<noteq> i \<Longrightarrow> other_key i (or_empty (rq_idempotency_key q)) m \<Longrightarrow>
    stream_step env i m (snd (reserve_section env uuid now q m))"
| idempotent: "other_key i key m \<Longrightarrow> stream_step env i m (snd (idempotent_run_section env now key fp m))"
| interrupt: "apart i j \<Longrightarrow> stream_step env i m (snd (interrupt_section now j m))"
| unhydrated: "apart i j \<Longrightarrow> stream_step env i m (snd (finish_unhydrated_creation env now j reason m))"
| finish: "apart i j \<Longrightarrow> stream_step env i m (snd (finish_run env now j st err listen persist m))"
| stop: "apart i j \<Longrightarrow> stream_step env i m (snd (request_stop env now j m))"
| recovery: "apart i j \<Longrightarrow> stream_step env i m (snd (get_run_for_recovery now j m))"
| delete: "rm_repo m = SQLiteRepository d \<Longrightarrow> j \<noteq> i \<Longrightarrow>
    stream_step env i m (m\<lparr>rm_repo := SQLiteRepository (sql_delete_run j d)\<rparr>)"

lemma journal_ok_step: "stream_step env i m m' \<Longrightarrow> journal_ok i m \<Longrightarrow> journal_ok i m'"
  by (induction rule: stream_step.induct)
    (simp_all add: journal_ok_append journal_ok_anchor journal_ok_target journal_ok_parent journal_ok_status
      journal_ok_metadata stop_requested_def journal_ok_get_run journal_ok_read journal_ok_subscribe journal_ok_poll
      journal_ok_unsubscribe close_manager_def journal_ok_create journal_ok_reserve journal_ok_idempotent
      journal_ok_interrupt journal_ok_unhydrated journal_ok_finish journal_ok_request_stop journal_ok_recovery
      journal_ok_repo)

text \<open>A run streams once a section has created it under a fresh name and its first event is out.\<close>

definition untouched :: "string \<Rightarrow> run_manager \<Rightarrow> bool" where
  "untouched i m =
     (map_of (rm_runs m) i = None \<and> map_of (rm_events m) i = None \<and>
      safe_name i \<notin> (\<lambda>(k, ls). snd k) ` set (rm_journal m))"

definition newly_created :: "string \<Rightarrow> run_manager \<Rightarrow> bool" where
  "newly_created i m =
     ((\<exists>d. rm_repo m = SQLiteRepository d) \<and>
      (\<exists>r. map_of (rm_runs m) i = Some r \<and> rr_event_count r = 0) \<and> map_of (rm_events m) i = None \<and>
      safe_name i \<notin> (\<lambda>(k, ls). snd k) ` set (rm_journal m))"

lemma register_fields [simp]:
  "rm_events (register_writer j r m) = rm_events m"
  "rm_journal (register_writer j r m) = rm_journal m"
  by (simp_all add: register_writer_def)

lemma hydrate_new:
  assumes "hydrate_record now x m = (Inr r, m')" and "untouched (ri_id x) m" and "ri_event_count x = 0"
    and "rm_repo m = SQLiteRepository d"
  shows "newly_created (ri_id x) m'"
proof -
  obtain st k where "m' = register_writer (ri_id x) (new_record now k st x)
      ((put_record (ri_id x) (new_record now k st x) m)
        \<lparr>rm_subscribers := dict_setdefault (ri_id x) [] (rm_subscribers m),
         rm_stop_events := dict_setdefault (ri_id x) False (rm_stop_events m)\<rparr>)"
    using assms(1,2) by (auto simp: hydrate_record_def Let_def untouched_def put_record_def split: sum.splits)
  moreover have "rr_event_count (new_record now k st x) = 0" using assms(3) by (simp add: new_record_def)
  ultimately show ?thesis
    using assms(2,4) by (simp add: newly_created_def untouched_def put_record_def)
qed

lemma create_new:
  assumes "create_section uuid now q m = ((Some i, Inr r), m')" and "untouched i m" and "rm_repo m = SQLiteRepository d"
  shows "newly_created i m'"
proof -
  let ?q = "q\<lparr>rq_idempotency_key := None, rq_fingerprint := None\<rparr>"
  obtain out m1 where c: "on_repo (rep_create_or_get_run uuid now ?q) m = (out, m1)" by fastforce
  obtain x where x: "out = Inr (x, True)" "ri_id x = i" "hydrate_record now x m1 = (Inr r, m')"
    using assms(1) c by (auto simp: create_section_def split: if_splits sum.splits prod.splits)
  obtain d' where m1: "m1 = m\<lparr>rm_repo := SQLiteRepository d'\<rparr>" using create_answer(1) [OF c assms(3)] by blast
  then have "untouched (ri_id x) m1" using assms(2) x(2) by (simp add: untouched_def)
  then show ?thesis using hydrate_new [OF x(3)] create_answer(2) [OF c assms(3) x(1)] m1 x(2) by simp
qed

lemma reserve_new:
  assumes "reserve_section env uuid now q m = ((Some i, Inr r), m')" and "untouched i m" and "rm_repo m = SQLiteRepository d"
  shows "newly_created i m'"
proof -
  obtain m0 where m0: "idempotent_run_section env now (or_empty (rq_idempotency_key q)) (or_empty (rq_fingerprint q)) m = (Inr None, m0)"
    using assms(1) by (auto simp: reserve_section_def split: if_splits sum.splits prod.splits option.splits)
  have same: "m0 = m" by (rule creatable_idempotent [OF m0])
  obtain out m1 where c: "on_repo (rep_create_or_get_run uuid now q) m = (out, m1)" by fastforce
  obtain x where x: "out = Inr (x, True)" "ri_id x = i" "hydrate_record now x m1 = (Inr r, m')"
    using assms(1) c m0 same
    by (auto simp: reserve_section_def Let_def split: if_splits sum.splits prod.splits)
  obtain d' where m1: "m1 = m\<lparr>rm_repo := SQLiteRepository d'\<rparr>" using create_answer(1) [OF c assms(3)] by blast
  then have "untouched (ri_id x) m1" using assms(2) x(2) by (simp add: untouched_def)
  then show ?thesis using hydrate_new [OF x(3)] create_answer(2) [OF c assms(3) x(1)] m1 x(2) by simp
qed

lemma no_lines:
  assumes "safe_name i \<notin> (\<lambda>(k, ls). snd k) ` set j"
  shows "journal_lines j (journal_key c i) = []"
proof -
  have "map_of j (journal_key c i) = None"
    using assms by (auto simp: map_of_eq_None_iff journal_key_def image_iff split: prod.splits)
  then show ?thesis by (simp add: journal_lines_def)
qed

lemma first_events:
  assumes "newly_created i m" and "ps \<noteq> []"
  shows "journal_ok i (snd (append_events now i ps m))"
proof -
  from assms(1) obtain d r where d: "rm_repo m = SQLiteRepository d" and r: "map_of (rm_runs m) i = Some r" "rr_event_count r = 0"
    and none: "map_of (rm_events m) i = None" "safe_name i \<notin> (\<lambda>(k, ls). snd k) ` set (rm_journal m)"
    by (auto simp: newly_created_def)
  have "cached_events m i = []" using none(1) by (simp add: cached_events_def)
  then show ?thesis using assms(2) d r no_lines [OF none(2)]
    by (auto simp: append_events_def require_run_def append_streamed_def Let_def journal_ok_def add_cached_def
        cached_events_def put_record_def signal_subscribers_def journal_append_def journal_lines_def)
qed

inductive streaming :: "run_env \<Rightarrow> string \<Rightarrow> run_manager \<Rightarrow> bool" for env i where
  created: "rm_reach env m \<Longrightarrow> untouched i m \<Longrightarrow> create_section uuid now q m = ((Some i, Inr r), m1) \<Longrightarrow>
    streaming env i (snd (append_events now2 i [started_payload q r] m1))"
| reserved: "rm_reach env m \<Longrightarrow> untouched i m \<Longrightarrow> reserve_section env uuid now q m = ((Some i, Inr r), m1) \<Longrightarrow>
    streaming env i (snd (append_events now2 i [started_payload q r] m1))"
| step: "streaming env i m \<Longrightarrow> stream_step env i m m' \<Longrightarrow> streaming env i m'"

lemma streaming_journal: "streaming env i m \<Longrightarrow> journal_ok i m"
proof (induction rule: streaming.induct)
  case (created m uuid now q r m1 now2)
  obtain d where "rm_repo m = SQLiteRepository d" using rm_reach_inv [OF created(1)] by (rule mgr_invE)
  then show ?case using first_events [OF create_new [OF created(3,2)]] by simp
next
  case (reserved m uuid now q r m1 now2)
  obtain d where "rm_repo m = SQLiteRepository d" using rm_reach_inv [OF reserved(1)] by (rule mgr_invE)
  then show ?case using first_events [OF reserve_new [OF reserved(3,2)]] by simp
next
  case (step m m')
  then show ?case by (simp add: journal_ok_step)
qed

text \<open>What an append of a cached run leaves, for the run and for the others.\<close>

lemma append_streams:
  assumes "map_of (rm_runs m) j = Some r" and "rm_repo m = SQLiteRepository d" and "ps \<noteq> []"
  shows "rm_repo (snd (append_events now j ps m)) = SQLiteRepository d"
    and "map_of (rm_runs (snd (append_events now j ps m))) =
      (map_of (rm_runs m))(j \<mapsto> r\<lparr>rr_event_count := rr_event_count r + length (streamed_events now j r (rr_event_count r) ps), rr_updated_at := now\<rparr>)"
    and "cached_events (snd (append_events now j ps m)) = (cached_events m)(j := cached_events m j @ streamed_events now j r (rr_event_count r) ps)"
  using assms
  by (simp_all add: append_events_def require_run_def append_streamed_def Let_def add_cached_def cached_events_def
      put_record_def signal_subscribers_def fun_eq_iff)

end
