(* ===== verification/RunMgrProps.thy ===== *)
theory RunMgrProps
  imports RunStream RunProps
begin

text \<open>
  Properties of the run manager over the SQLite repository, in every state its sections can reach.
\<close>

section \<open>One writer for each node\<close>

lemma writer_found:
  assumes "mgr_inv m" and "map_of (rm_runs m) i = Some r" and "\<not> record_finished r" and "rr_target_node_id r = Some t" and "t \<noteq> []"
  shows "map_of (rm_writers m) t = Some i \<and> i \<noteq> []"
proof -
  have w: "writers_ok m" using assms(1) by (auto elim: mgr_invE)
  show ?thesis using writers_okD [OF w assms(2-5)] named_runsD [OF w assms(2)] by blast
qed

text \<open>
  C23: In every state the run manager can reach, in any order of the sections of its handlers,
  with deletions of runs from outside and restarts of the process, an active run that has a
  target node is the only one: no other cached active run has this node, another run that asks
  for the node is refused, and so is the creation of a run for it.
\<close>
theorem single_writer:
  assumes "rm_reach env m" and "map_of (rm_runs m) i = Some r" and "\<not> record_finished r"
    and "rr_target_node_id r = Some t" and "t \<noteq> []"
  shows "(\<forall>j s. map_of (rm_runs m) j = Some s \<and> \<not> record_finished s \<and> rr_target_node_id s = Some t \<longrightarrow> j = i) \<and>
    (\<forall>j. j \<noteq> i \<longrightarrow> acquire_writer t j m =
       (Inl (RunWriterConflictError (''target node '' @ t @ '' already has active writer '' @ i)), m)) \<and>
    (\<forall>uuid now q. rq_target_node q = Some t \<and> \<not> rm_closing m \<longrightarrow> create_section uuid now q m =
       ((None, Inl (RunWriterConflictError (''target node '' @ t @ '' already has active writer '' @ i))), m))"
proof -
  have inv: "mgr_inv m" by (rule rm_reach_inv [OF assms(1)])
  have w: "map_of (rm_writers m) t = Some i" "i \<noteq> []" using writer_found [OF inv assms(2-5)] by simp_all
  have "j = i" if "map_of (rm_runs m) j = Some s" "\<not> record_finished s" "rr_target_node_id s = Some t" for j s
    using writer_found [OF inv that assms(5)] w(1) by simp
  moreover have "acquire_writer t j m =
      (Inl (RunWriterConflictError (''target node '' @ t @ '' already has active writer '' @ i)), m)" if "j \<noteq> i" for j
    using w assms(2,3) that by (simp add: acquire_writer_def)
  moreover have "create_section uuid now q m =
      ((None, Inl (RunWriterConflictError (''target node '' @ t @ '' already has active writer '' @ i))), m)"
    if "rq_target_node q = Some t" "\<not> rm_closing m" for uuid now q
    using w assms(2,3,5) that by (simp add: create_section_def target_available_def)
  ultimately show ?thesis by blast
qed

definition demo_env :: run_env where
  "demo_env = \<lparr>en_codec = demo_codec, en_with_tasks = True\<rparr>"

definition demo_writer_db :: db where
  "demo_writer_db = demo_db\<lparr>runs := [demo_run\<lparr>r_target_node := Some ''n1''\<rparr>]\<rparr>"

definition demo_manager :: run_manager where
  "demo_manager = snd (manager_init demo_env 5 (SQLiteRepository demo_writer_db) [] None)"

lemma demo_manager_starts: "manager_init demo_env 5 (SQLiteRepository demo_writer_db) [] None = (Inr (), demo_manager)"
proof -
  have "fst (manager_init demo_env 5 (SQLiteRepository demo_writer_db) [] None) = Inr ()" by code_simp
  then show ?thesis unfolding demo_manager_def by (metis prod.collapse)
qed

lemma demo_manager_reached: "rm_reach demo_env demo_manager"
  by (rule rm_reach.start [OF _ demo_manager_starts])
    (simp add: restartable_def sql_inv_def runs_ok_def targets_distinct_def demo_writer_db_def demo_run_def)

lemma demo_manager_runs:
  "map_of (rm_runs demo_manager) ''r1'' = Some (new_record 5 Chat Running
     (the (projr (rep_get_run (SQLiteRepository demo_writer_db) ''r1''))))"
  by code_simp

theorem single_writer_witness:
  "acquire_writer ''n1'' ''r2'' demo_manager =
     (Inl (RunWriterConflictError ''target node n1 already has active writer r1''), demo_manager)"
proof -
  let ?r = "new_record 5 Chat Running (the (projr (rep_get_run (SQLiteRepository demo_writer_db) ''r1'')))"
  have a: "\<not> record_finished ?r" by code_simp
  have b: "rr_target_node_id ?r = Some ''n1''" by code_simp
  show ?thesis using single_writer [OF demo_manager_reached demo_manager_runs a b] by simp
qed

section \<open>Replay of a creation\<close>












section \<open>Recovery from the journal\<close>

lemma json_norm_unsorted: "json_norm False v = v"
proof (induction v)
  case (PList xs)
  then show ?case by (simp add: map_idI)
next
  case (PDict d)
  then have "map (\<lambda>p. (fst p, json_norm False (snd p))) d = d" by (intro map_idI) (auto simp: prod_eq_iff)
  then show ?case by simp
qed simp_all

lemma strip_braces: "strip (CHR ''{'' # s @ ''}'') = CHR ''{'' # s @ ''}''"
  by (simp add: strip_def lstrip_def rstrip_def is_space_def)

definition loggable :: "cached_event \<Rightarrow> bool" where
  "loggable e = (json_ok (PDict (ce_payload e)) \<and> json_int_ok (int (ce_index e)) \<and> json_int_ok (ce_created_at e))"

abbreviation logged :: "cached_event \<Rightarrow> pyval" where
  "logged e \<equiv> PDict (run_event_to_dict (ce_run_id e) (int (ce_index e)) (ce_payload e) (ce_created_at e))"

lemma journal_line_read:
  assumes "loggable e"
  shows "strip (journal_line e) = journal_line e" and "journal_line e \<noteq> []"
    and "read_line (journal_line e) = Inr (logged e)"
proof -
  obtain s where s: "journal_line e = CHR ''{'' # s @ ''}''" by (simp add: journal_line_def)
  then show "strip (journal_line e) = journal_line e" and "journal_line e \<noteq> []" using strip_braces by simp_all
  have ok: "json_ok (logged e)" using assms by (simp add: loggable_def run_event_to_dict_def)
  have "seps_ok '','' '':''" by (simp add: seps_ok_def)
  then show "read_line (journal_line e) = Inr (logged e)"
    using json_loads_dumps [OF _ ok, of "'',''" "'':''" False] by (simp add: journal_line_def read_line_def json_norm_unsorted)
qed

lemma journal_read_back:
  assumes "journal_lines j k = map journal_line es" and "\<forall>e \<in> set es. loggable e"
  shows "journal_read j k = Inr (map logged es)"
proof -
  have "map strip (map journal_line es) = map journal_line es"
    using assms(2) journal_line_read(1) by (simp add: map_idI)
  moreover have "filter (\<lambda>l. l \<noteq> []) (map journal_line es) = map journal_line es"
    using assms(2) journal_line_read(2) by (auto simp: filter_id_conv)
  moreover have "mapM_result read_line (map journal_line es) = Inr (map logged es)"
    unfolding mapM_result_map using assms(2) journal_line_read(3) by (intro mapM_result_Inr_map) simp
  ultimately show ?thesis unfolding journal_read_def assms(1) by (simp only:)
qed

lemma logged_index: "event_index_or_0 (logged e) = Inr (int (ce_index e))"
  by (simp add: event_index_or_0_def run_event_to_dict_def dget_def value_or_def)

lemma logged_event:
  "journal_event (logged e) =
     Inr \<lparr>ie_index = int (ce_index e), ie_payload = ce_payload e, ie_created_at = Some (ce_created_at e)\<rparr>"
  by (simp add: journal_event_def run_event_to_dict_def dget_def)

lemma journal_pending:
  assumes "journal_read j k = Inr (map logged es)"
  shows "mapM_result (\<lambda>v. map_result (Pair v) (event_index_or_0 v)) (map logged es) =
      Inr (map (\<lambda>e. (logged e, int (ce_index e))) es)"
    and "mapM_result journal_event (map fst (filter (\<lambda>p. int n \<le> snd p) (map (\<lambda>e. (logged e, int (ce_index e))) es))) =
      Inr (pending_events n es)"
proof -
  show "mapM_result (\<lambda>v. map_result (Pair v) (event_index_or_0 v)) (map logged es) =
      Inr (map (\<lambda>e. (logged e, int (ce_index e))) es)"
    unfolding mapM_result_map by (rule mapM_result_Inr_map) (simp add: logged_index)
  have "map fst (filter (\<lambda>p. int n \<le> snd p) (map (\<lambda>e. (logged e, int (ce_index e))) es)) =
      map logged (filter (\<lambda>e. n \<le> ce_index e) es)"
    by (simp add: filter_map comp_def)
  then show "mapM_result journal_event (map fst (filter (\<lambda>p. int n \<le> snd p) (map (\<lambda>e. (logged e, int (ce_index e))) es))) =
      Inr (pending_events n es)"
    unfolding pending_events_def by (simp add: mapM_result_map mapM_result_Inr_map logged_event)
qed

text \<open>Reading the lines back and appending them is what a flush does.\<close>

lemma journal_recovers:
  assumes repo: "rm_repo m = SQLiteRepository d" and x: "sql_get_run d i = Inr (Some x)" "\<not> is_finished (ri_status x)"
    and names: "safe_name i = i"
    and journal: "journal_lines (rm_journal m) (journal_key c i) = map journal_line (cached_events m i)"
    and events: "\<forall>e \<in> set (cached_events m i). loggable e"
  shows "rm_repo (recover_file env now (journal_key c i) (fresh_manager (SQLiteRepository d) (rm_journal m) tasks)) =
    rm_repo (snd (persist_streamed_events env now i m))"
proof -
  let ?es = "cached_events m i" and ?k = "journal_key c i" and ?n = "ri_event_count x"
  have safe: "safe_name (safe_name s) = safe_name s" for s by (simp add: safe_name_def)
  have key: "(safe_name (fst ?k), safe_name i) = ?k" "snd ?k = i" using names safe by (simp_all add: journal_key_def)
  have read: "journal_read (rm_journal m) ?k = Inr (map logged ?es)" by (rule journal_read_back [OF journal events])
  have "rm_repo (recover_file env now ?k (fresh_manager (SQLiteRepository d) (rm_journal m) tasks)) =
      SQLiteRepository (snd (sql_append_indexed_events (en_codec env) now i (pending_events ?n ?es) d))"
    using x read journal_pending(1) [OF read] journal_pending(2) [OF read, of ?n]
    by (simp add: recover_file_def fresh_manager_def key Let_def del: list.map)
  moreover have "rm_repo (snd (persist_streamed_events env now i m)) =
      SQLiteRepository (snd (sql_append_indexed_events (en_codec env) now i (pending_events ?n ?es) d))"
  proof -
    have none: "sql_append_indexed_events (en_codec env) now i [] d = (Inr [], d)"
      by (simp add: sql_append_indexed_events_def)
    have "pending_events ?n [] = []" by (simp add: pending_events_def)
    then show ?thesis using repo x(1) none
      by (auto simp: persist_streamed_events_def stored_count_def Let_def split: sum.split prod.split)
  qed
  ultimately show ?thesis by simp
qed

text \<open>
  C24: A run that streams, from its first event on and with any sections of other runs in between,
  until it is asked to stop, finished, or the process ends: should the process end now, recovering
  its journal file at the next start stores in the database exactly what
  \<open>_persist_streamed_events\<close> would have stored from memory, also when the repository refuses the
  events.  The row of the run is there and not finished, the name of the run is the name of its
  file, and its events can be written as JSON.
\<close>
theorem recovery_stores_what_a_flush_would:
  assumes "streaming env i m" and "rm_repo m = SQLiteRepository d" and "map_of (rm_runs m) i = Some r"
    and "sql_get_run d i = Inr (Some x)" and "\<not> is_finished (ri_status x)" and "safe_name i = i"
    and "\<forall>e \<in> set (cached_events m i). loggable e"
  shows "rm_repo (recover_file env2 now (journal_key (rr_conversation_id r) i)
      (fresh_manager (SQLiteRepository d) (rm_journal m) tasks)) =
    rm_repo (snd (persist_streamed_events env2 now i m))"
proof -
  have "journal_lines (rm_journal m) (journal_key (rr_conversation_id r) i) = map journal_line (cached_events m i)"
    using streaming_journal [OF assms(1)] assms(3) by (auto elim: journal_okE)
  then show ?thesis by (rule journal_recovers [OF assms(2,4,5,6) _ assms(7)])
qed

definition demo_stream_request :: run_request where
  "demo_stream_request =
     \<lparr>rq_conversation_id = ''c1'', rq_kind = ''chat'', rq_idempotency_key = None, rq_fingerprint = None,
      rq_anchor_node = None, rq_target_node = None, rq_created_by = None, rq_cancellation_parent = None,
      rq_summary = [], rq_metadata = [], rq_binding = None\<rparr>"

definition demo_opened :: "(string option \<times> run_record result) \<times> run_manager" where
  "demo_opened = create_section ''b'' 6 demo_stream_request demo_manager"

text \<open>Three events of the new run, and one of another run in between.\<close>

definition demo_started :: run_manager where
  "demo_started =
     snd (append_events 7 ''run_b'' [started_payload demo_stream_request (projr (snd (fst demo_opened)))] (snd demo_opened))"

definition demo_streaming :: run_manager where
  "demo_streaming = snd (append_events 9 ''run_b'' [[(''type'', PStr ''note'')], [(''n'', PInt 2)]]
     (snd (append_events 8 ''r1'' [[(''type'', PStr ''note'')]] demo_started)))"

lemma demo_streaming: "streaming demo_env ''run_b'' demo_streaming"
proof -
  have "fst (fst demo_opened) = Some ''run_b'' \<and> \<not> isl (snd (fst demo_opened))" by code_simp
  then have o: "create_section ''b'' 6 demo_stream_request demo_manager =
      ((Some ''run_b'', Inr (projr (snd (fst demo_opened)))), snd demo_opened)"
    unfolding demo_opened_def [symmetric] by (metis prod.collapse sum.collapse(2))
  have u: "untouched ''run_b'' demo_manager" by code_simp
  have started: "streaming demo_env ''run_b'' demo_started"
    unfolding demo_started_def by (rule streaming.created [OF demo_manager_reached u o])
  have other: "''r1'' = ''run_b'' \<or> apart ''run_b'' ''r1''" by code_simp
  have "streaming demo_env ''run_b'' (snd (append_events 8 ''r1'' [[(''type'', PStr ''note'')]] demo_started))"
    by (rule streaming.step [OF started stream_step.append [OF other]])
  then show ?thesis
    unfolding demo_streaming_def by (rule streaming.step) (rule stream_step.append, rule disjI1, rule refl)
qed

definition demo_opened_run :: run_record where
  "demo_opened_run = projr (snd (fst demo_opened))"

definition demo_streamed_events :: "cached_event list" where
  "demo_streamed_events =
     streamed_events 7 ''run_b'' demo_opened_run 0 [started_payload demo_stream_request demo_opened_run] @
     streamed_events 9 ''run_b'' (demo_opened_run\<lparr>rr_event_count := 1, rr_updated_at := 7\<rparr>) 1
       [[(''type'', PStr ''note'')], [(''n'', PInt 2)]]"

lemma demo_streaming_state:
  assumes "rm_repo (snd demo_opened) = SQLiteRepository d"
  shows "rm_repo demo_streaming = SQLiteRepository d"
    and "\<exists>r. map_of (rm_runs demo_streaming) ''run_b'' = Some r \<and> rr_conversation_id r = ''c1''"
    and "cached_events demo_streaming ''run_b'' = demo_streamed_events"
proof -
  have "map_of (rm_runs (snd demo_opened)) ''run_b'' = Some demo_opened_run" by code_simp
  then have r0: "map_of (rm_runs (snd demo_opened)) ''run_b'' = Some demo_opened_run" .
  obtain r1 where r1: "map_of (rm_runs (snd demo_opened)) ''r1'' = Some r1"
  proof -
    have "map_of (rm_runs (snd demo_opened)) ''r1'' \<noteq> None" by code_simp
    then show ?thesis using that by blast
  qed
  have none: "cached_events (snd demo_opened) ''run_b'' = []" by code_simp
  have n: "rr_event_count demo_opened_run = 0" "rr_conversation_id demo_opened_run = ''c1''" by code_simp+
  note A = append_streams [OF r0 assms, of "[started_payload demo_stream_request demo_opened_run]" 7]
  have s: "demo_started = snd (append_events 7 ''run_b'' [started_payload demo_stream_request demo_opened_run] (snd demo_opened))"
    by (simp only: demo_started_def demo_opened_run_def)
  have s1: "rm_repo demo_started = SQLiteRepository d" "map_of (rm_runs demo_started) ''r1'' = Some r1"
    using A(1,2) r1 unfolding s by simp_all
  note B = append_streams [OF s1(2,1), of "[[(''type'', PStr ''note'')]]" 8]
  let ?m = "snd (append_events 8 ''r1'' [[(''type'', PStr ''note'')]] demo_started)"
  have s2: "rm_repo ?m = SQLiteRepository d"
    "map_of (rm_runs ?m) ''run_b'' = Some (demo_opened_run\<lparr>rr_event_count := 1, rr_updated_at := 7\<rparr>)"
    "cached_events ?m ''run_b'' = streamed_events 7 ''run_b'' demo_opened_run 0 [started_payload demo_stream_request demo_opened_run]"
    using B A(2,3) n none unfolding s by simp_all
  note C = append_streams [OF s2(2,1), of "[[(''type'', PStr ''note'')], [(''n'', PInt 2)]]" 9, folded demo_streaming_def]
  show "rm_repo demo_streaming = SQLiteRepository d" using C(1) by simp
  show "\<exists>r. map_of (rm_runs demo_streaming) ''run_b'' = Some r \<and> rr_conversation_id r = ''c1''" using C(2) n by simp
  show "cached_events demo_streaming ''run_b'' = demo_streamed_events" using C(3) s2(3) by (simp add: demo_streamed_events_def)
qed

theorem recovery_stores_what_a_flush_would_witness:
  "case rm_repo demo_streaming of
     MemoryRepository _ \<Rightarrow> False
   | SQLiteRepository d \<Rightarrow>
       length (cached_events demo_streaming ''run_b'') = 3 \<and>
       rm_repo (recover_file demo_env 12 (journal_key ''c1'' ''run_b'')
         (fresh_manager (SQLiteRepository d) (rm_journal demo_streaming) None)) =
       rm_repo (snd (persist_streamed_events demo_env 12 ''run_b'' demo_streaming))"
proof -
  have "case rm_repo (snd demo_opened) of MemoryRepository _ \<Rightarrow> False | SQLiteRepository d \<Rightarrow>
      (case sql_get_run d ''run_b'' of Inr (Some x) \<Rightarrow> \<not> is_finished (ri_status x) | _ \<Rightarrow> False)"
    by code_simp
  then obtain d x where d0: "rm_repo (snd demo_opened) = SQLiteRepository d"
    and x: "sql_get_run d ''run_b'' = Inr (Some x)" "\<not> is_finished (ri_status x)"
    by (auto split: run_repository.splits sum.splits option.splits)
  note D = demo_streaming_state [OF d0]
  obtain r where r: "map_of (rm_runs demo_streaming) ''run_b'' = Some r" "rr_conversation_id r = ''c1''" using D(2) by blast
  have name: "safe_name ''run_b'' = ''run_b''" by code_simp
  have n: "length (cached_events demo_streaming ''run_b'') = 3" by (simp add: D(3) demo_streamed_events_def)
  have "list_all loggable demo_streamed_events" by code_simp
  then have e: "\<forall>e \<in> set (cached_events demo_streaming ''run_b''). loggable e" by (simp only: D(3) list_all_iff)
  show ?thesis
    using recovery_stores_what_a_flush_would [OF demo_streaming D(1) r(1) x name e, of demo_env 12 None] r(2) D(1) n by simp
qed

end
