(* ===== verification/TextLines.thy ===== *)
theory TextLines
  imports Sandbox
begin

text \<open>
  Lines of text as Python has them: \<open>str.splitlines\<close>, the lines of a file opened in text mode
  (which turns every line end into a line feed), and the counting and replacement of a
  substring.
\<close>

abbreviation LF :: char where "LF \<equiv> CHR 0x0A"
abbreviation CR :: char where "CR \<equiv> CHR 0x0D"

section \<open>\<open>splitlines\<close>\<close>

definition is_line_break :: "char \<Rightarrow> bool" where
  "is_line_break c =
     (c = LF \<or> c = CR \<or> c = CHR 0x0B \<or> c = CHR 0x0C \<or> c = CHR 0x1C \<or> c = CHR 0x1D \<or> c = CHR 0x1E \<or> c = CHR 0x85)"

fun splitlines_from :: "string \<Rightarrow> string \<Rightarrow> string list" where
  "splitlines_from acc [] = (if acc = [] then [] else [rev acc])"
| "splitlines_from acc (c # s) =
     (if c = CR then rev acc # (case s of d # t \<Rightarrow> if d = LF then splitlines_from [] t else splitlines_from [] s
                                        | [] \<Rightarrow> [])
      else if is_line_break c then rev acc # splitlines_from [] s
      else splitlines_from (c # acc) s)"

definition splitlines :: "string \<Rightarrow> string list" where
  "splitlines s = splitlines_from [] s"

text \<open>A text without line breaks in its lines is split where its line feeds are.\<close>

definition one_line :: "string \<Rightarrow> bool" where
  "one_line l = (\<forall>c \<in> set l. \<not> is_line_break c)"

lemma one_line_simps [simp]:
  "one_line []"
  "one_line (c # l) \<longleftrightarrow> \<not> is_line_break c \<and> one_line l"
  "one_line (k @ l) \<longleftrightarrow> one_line k \<and> one_line l"
  by (auto simp: one_line_def)

lemma splitlines_line: "one_line l \<Longrightarrow> splitlines_from acc (l @ LF # s) = (rev acc @ l) # splitlines_from [] s"
proof (induction l arbitrary: acc)
  case Nil
  then show ?case by (simp add: is_line_break_def)
next
  case (Cons c l)
  then have "c \<noteq> CR" by (auto simp: is_line_break_def)
  then show ?case using Cons by simp
qed

lemma splitlines_unlines:
  "\<forall>l \<in> set ls. one_line l \<Longrightarrow> splitlines (concat (map (\<lambda>l. l @ [LF]) ls)) = ls"
  by (induction ls) (simp_all add: splitlines_def splitlines_line)

section \<open>Files in text mode\<close>

text \<open>Reading with \<open>newline=None\<close>: a carriage return, with or without a line feed, reads as a line feed.\<close>

fun universal_newlines :: "string \<Rightarrow> string" where
  "universal_newlines [] = []"
| "universal_newlines (c # s) =
     (if c = CR then LF # (case s of d # t \<Rightarrow> if d = LF then universal_newlines t else universal_newlines s | [] \<Rightarrow> [])
      else c # universal_newlines s)"

lemma universal_newlines_id: "CR \<notin> set s \<Longrightarrow> universal_newlines s = s"
  by (induction s) auto

lemma universal_newlines_no_CR: "CR \<notin> set (universal_newlines s)"
  by (induction s rule: universal_newlines.induct) (auto split: list.split)

text \<open>The lines a handle yields, each with its line feed; the last one may have none.\<close>

fun raw_lines_from :: "string \<Rightarrow> string \<Rightarrow> string list" where
  "raw_lines_from acc [] = (if acc = [] then [] else [rev acc])"
| "raw_lines_from acc (c # s) =
     (if c = LF then rev (c # acc) # raw_lines_from [] s else raw_lines_from (c # acc) s)"

definition raw_lines :: "string \<Rightarrow> string list" where
  "raw_lines s = raw_lines_from [] s"

lemma concat_raw_lines_from: "concat (raw_lines_from acc s) = rev acc @ s"
  by (induction acc s rule: raw_lines_from.induct) simp_all

lemma concat_raw_lines: "concat (raw_lines s) = s"
  by (simp add: raw_lines_def concat_raw_lines_from)

text \<open>\<open>_strip_line_ending\<close>.\<close>

definition strip_line_ending :: "string \<Rightarrow> string" where
  "strip_line_ending l = (if endswith l [CR, LF] then butlast (butlast l) else if endswith l [LF] then butlast l else l)"

definition unlines :: "string list \<Rightarrow> string" where
  "unlines ls = concat (map (\<lambda>l. l @ [LF]) ls)"

lemma unlines_simps [simp]:
  "unlines [] = []"
  "unlines (l # ls) = l @ LF # unlines ls"
  "unlines (ks @ ls) = unlines ks @ unlines ls"
  by (simp_all add: unlines_def)

lemma raw_lines_line: "LF \<notin> set l \<Longrightarrow> raw_lines_from acc (l @ LF # s) = (rev acc @ l @ [LF]) # raw_lines_from [] s"
  by (induction l arbitrary: acc) auto

lemma raw_lines_unlines: "\<forall>l \<in> set ls. LF \<notin> set l \<Longrightarrow> raw_lines (unlines ls) = map (\<lambda>l. l @ [LF]) ls"
  by (induction ls) (simp_all add: raw_lines_def raw_lines_line)

lemma strip_line_ending_LF: "CR \<notin> set l \<Longrightarrow> strip_line_ending (l @ [LF]) = l"
proof -
  assume "CR \<notin> set l"
  then have "\<not> endswith (l @ [LF]) [CR, LF]"
    by (cases l rule: rev_cases) (auto simp: endswith_def)
  then show ?thesis by (simp add: strip_line_ending_def endswith_def)
qed

text \<open>The lines of a file, without their ends.\<close>

definition file_lines :: "string \<Rightarrow> string list" where
  "file_lines s = map strip_line_ending (raw_lines (universal_newlines s))"

lemma file_lines_unlines:
  assumes "\<forall>l \<in> set ls. LF \<notin> set l \<and> CR \<notin> set l"
  shows "file_lines (unlines ls) = ls"
proof -
  have "CR \<notin> set (unlines ls)" using assms by (auto simp: unlines_def)
  then have "file_lines (unlines ls) = map strip_line_ending (map (\<lambda>l. l @ [LF]) ls)"
    using assms by (simp add: file_lines_def universal_newlines_id raw_lines_unlines)
  also have "\<dots> = ls" using assms by (simp add: map_idI strip_line_ending_LF)
  finally show ?thesis .
qed

section \<open>Substrings\<close>

text \<open>\<open>str.count\<close> and \<open>str.replace\<close>, from the left and without overlap; \<open>sub\<close> is not empty.\<close>

function count_sub :: "string \<Rightarrow> string \<Rightarrow> nat" where
  "count_sub sub s =
     (if sub = [] \<or> s = [] then 0
      else if startswith s sub then Suc (count_sub sub (drop (length sub) s)) else count_sub sub (tl s))"
  by auto
termination by (relation "measure (\<lambda>(sub, s). length s)") auto

text \<open>At most \<open>n\<close> replacements, or all.\<close>

function replace_sub :: "nat option \<Rightarrow> string \<Rightarrow> string \<Rightarrow> string \<Rightarrow> string" where
  "replace_sub n old new s =
     (if old = [] \<or> s = [] \<or> n = Some 0 then s
      else if startswith s old then new @ replace_sub (map_option (\<lambda>k. k - 1) n) old new (drop (length old) s)
      else hd s # replace_sub n old new (tl s))"
  by auto
termination by (relation "measure (\<lambda>(n, old, new, s). length s)") auto

declare count_sub.simps [simp del] replace_sub.simps [simp del]

end
