(* ===== verification/Patch.thy ===== *)
theory Patch
  imports TextLines
begin

text \<open>
  Unified diffs (\<open>tools/code/patch.py\<close>): the parser, the placing of the hunks in a file and
  the rewriting of the file in one pass.  A file is the list of the lines its handle yields.
\<close>

section \<open>Results of the file tools\<close>

text \<open>
  The exceptions of the file tools: \<open>CodeToolError\<close> with its type, the two other exceptions the
  tools turn into an answer, those of the operating system, and those of the path functions.
\<close>

datatype code_error =
    CodeToolError string string
  | UnicodeDecodeError string
  | PatchError string
  | OSError string
  | Raised pyerr

type_synonym 'a code_result = "code_error + 'a"

definition and_then :: "'a code_result \<Rightarrow> ('a \<Rightarrow> 'b code_result) \<Rightarrow> 'b code_result" where
  "and_then m f = (case m of Inl e \<Rightarrow> Inl e | Inr x \<Rightarrow> f x)"

lemma and_then_simps [simp]:
  "and_then (Inl e) f = Inl e"
  "and_then (Inr x) f = f x"
  by (simp_all add: and_then_def)

lemma and_then_eq_Inr: "and_then m f = Inr y \<longleftrightarrow> (\<exists>x. m = Inr x \<and> f x = Inr y)"
  by (cases m) simp_all

lemma and_then_eq_Inl: "and_then m f = Inl e \<longleftrightarrow> m = Inl e \<or> (\<exists>x. m = Inr x \<and> f x = Inl e)"
  by (cases m) simp_all

fun each_then :: "('a \<Rightarrow> 'b code_result) \<Rightarrow> 'a list \<Rightarrow> 'b list code_result" where
  "each_then f [] = Inr []"
| "each_then f (x # xs) = and_then (f x) (\<lambda>y. and_then (each_then f xs) (\<lambda>ys. Inr (y # ys)))"

lemma each_then_Inr: "each_then f xs = Inr ys \<longleftrightarrow> list_all2 (\<lambda>x y. f x = Inr y) xs ys"
  by (induction xs arbitrary: ys) (auto simp: and_then_eq_Inr list_all2_Cons1)

section \<open>Patches\<close>

record patch_hunk =
  ph_old_index :: int
  ph_remove :: "string list"
  ph_add :: "string list"
  ph_header :: string

record file_patch =
  fp_path :: string
  fp_hunks :: "patch_hunk list"

definition patch_path :: "string \<Rightarrow> string code_result" where
  "patch_path raw =
     (let p = strip raw in
      if p = ''/dev/null'' then Inl (PatchError ''file deletion patches are not supported'')
      else
        let q = (if startswith p ''a/'' \<or> startswith p ''b/'' then drop 2 p else p);
            parsed = make_path q in
        if pp_absolute parsed \<or> ''..'' \<in> set (pp_parts parsed)
        then Inl (PatchError ''patch path must stay inside the workspace'')
        else Inr q)"

text \<open>\<open>lines[i][4:].split(''\t'', 1)[0].strip()\<close>.\<close>

definition header_path :: "string \<Rightarrow> string code_result" where
  "header_path l = patch_path (strip (takeWhile (\<lambda>c. c \<noteq> CHR 0x09) (drop 4 l)))"

text \<open>
  The regular expression of a hunk header, with the number of its first group.  The digits are
  followed by another character, so the greedy reading is the only one.  \<open>int\<close> refuses more
  than 4300 digits.
\<close>

definition opt_count :: "string \<Rightarrow> string option" where
  "opt_count s =
     (case s of
        c # t \<Rightarrow>
          if c = CHR '',''
          then (if takeWhile is_digit t = [] then None else Some (dropWhile is_digit t))
          else Some s
      | [] \<Rightarrow> Some s)"

definition hunk_number :: "string \<Rightarrow> (string \<times> string) option" where
  "hunk_number s = (if takeWhile is_digit s = [] then None else Some (takeWhile is_digit s, dropWhile is_digit s))"

definition match_header :: "string \<Rightarrow> string option" where
  "match_header h =
     (if \<not> startswith h ''@@ -'' then None
      else case hunk_number (drop 4 h) of
        None \<Rightarrow> None
      | Some (n, s) \<Rightarrow>
         (case opt_count s of
            None \<Rightarrow> None
          | Some t \<Rightarrow>
              if \<not> startswith t '' +'' then None
              else case hunk_number (drop 2 t) of
                None \<Rightarrow> None
              | Some (_, u) \<Rightarrow>
                 (case opt_count u of None \<Rightarrow> None | Some v \<Rightarrow> if startswith v '' @@'' then Some n else None)))"

definition hunk_start :: "string \<Rightarrow> int code_result" where
  "hunk_start h =
     (case match_header h of
        None \<Rightarrow> Inl (PatchError ''invalid hunk header'')
      | Some n \<Rightarrow>
          if 4300 < length n then Inl (PatchError (''Exceeds the limit (4300 digits) for integer string conversion: value has '' @
            nat_str (length n) @ '' digits; use sys.set_int_max_str_digits() to increase the limit''))
          else Inr (int (digits_value 0 n) - 1))"

text \<open>The lines of a hunk, up to the next hunk or file: what it removes, what it adds, and the rest.\<close>

definition no_newline_mark :: string where
  "no_newline_mark = CHR 0x5C # '' No newline at end of file''"

definition ends_hunk :: "string \<Rightarrow> bool" where
  "ends_hunk l = (startswith l ''@@'' \<or> startswith l ''--- '')"

fun parse_body :: "string list \<Rightarrow> (string list \<times> string list \<times> string list) code_result" where
  "parse_body [] = Inr ([], [], [])"
| "parse_body (l # ls) =
     (if ends_hunk l then Inr ([], [], l # ls)
      else if l = no_newline_mark then parse_body ls
      else case l of
        [] \<Rightarrow> Inl (PatchError ''invalid hunk line'')
      | m # v \<Rightarrow>
          if m = CHR '' '' then and_then (parse_body ls) (\<lambda>(r, a, rest). Inr (v # r, v # a, rest))
          else if m = CHR ''-'' then and_then (parse_body ls) (\<lambda>(r, a, rest). Inr (v # r, a, rest))
          else if m = CHR ''+'' then and_then (parse_body ls) (\<lambda>(r, a, rest). Inr (r, v # a, rest))
          else Inl (PatchError ''invalid hunk line''))"

lemma parse_body_rest: "parse_body ls = Inr (r, a, rest) \<Longrightarrow> length rest \<le> length ls"
proof (induction ls arbitrary: r a)
  case (Cons l ls)
  show ?case
  proof (cases "ends_hunk l \<or> l = no_newline_mark")
    case False
    then obtain m v where l: "l = m # v" using Cons.prems by (cases l) auto
    then obtain r' a' where "parse_body ls = Inr (r', a', rest)"
      using Cons.prems False by (auto simp: and_then_eq_Inr split: if_splits)
    then show ?thesis using Cons.IH by fastforce
  qed (use Cons in \<open>auto split: if_splits\<close>)
qed simp

function parse_hunks :: "string list \<Rightarrow> (patch_hunk list \<times> string list) code_result" where
  "parse_hunks [] = Inr ([], [])"
| "parse_hunks (l # ls) =
     (if \<not> startswith l ''@@'' then Inr ([], l # ls)
      else case hunk_start l of
        Inl e \<Rightarrow> Inl e
      | Inr old_index \<Rightarrow>
         (case parse_body ls of
            Inl e \<Rightarrow> Inl e
          | Inr (r, a, rest) \<Rightarrow>
              and_then (parse_hunks rest) (\<lambda>(hs, rest').
                Inr (\<lparr>ph_old_index = old_index, ph_remove = r, ph_add = a, ph_header = l\<rparr> # hs, rest'))))"
  by pat_completeness auto
termination by (relation "measure length") (auto dest!: parse_body_rest)

lemma parse_hunks_rest: "parse_hunks ls = Inr (hs, rest) \<Longrightarrow> length rest \<le> length ls"
proof (induction ls arbitrary: hs rule: parse_hunks.induct)
  case (2 l ls)
  show ?case
  proof (cases "startswith l ''@@''")
    case True
    obtain n r a rest1 hs' where *: "hunk_start l = Inr n" "parse_body ls = Inr (r, a, rest1)" "parse_hunks rest1 = Inr (hs', rest)"
      using 2(2) True by (auto simp: and_then_eq_Inr split: sum.splits)
    then have "length rest \<le> length rest1" using 2(1) True by auto
    then show ?thesis using parse_body_rest [OF *(2)] by simp
  qed (use 2 in simp)
qed simp

function parse_files :: "string list \<Rightarrow> file_patch list code_result" where
  "parse_files [] = Inr []"
| "parse_files (l # ls) =
     (if \<not> startswith l ''--- '' then parse_files ls
      else case header_path l of
        Inl e \<Rightarrow> Inl e
      | Inr old_path \<Rightarrow>
         (case ls of
            [] \<Rightarrow> Inl (PatchError ''invalid unified diff header'')
          | p # rest \<Rightarrow>
              if \<not> startswith p ''+++ '' then Inl (PatchError ''invalid unified diff header'')
              else case header_path p of
                Inl e \<Rightarrow> Inl e
              | Inr new_path \<Rightarrow>
                  if old_path \<noteq> new_path then Inl (PatchError ''renames are not supported'')
                  else case parse_hunks rest of
                    Inl e \<Rightarrow> Inl e
                  | Inr (hs, rest') \<Rightarrow>
                      and_then (parse_files rest') (\<lambda>fps. Inr (\<lparr>fp_path = new_path, fp_hunks = hs\<rparr> # fps))))"
  by pat_completeness auto
termination by (relation "measure length") (auto dest!: parse_hunks_rest)

definition parse_unified_patch :: "string \<Rightarrow> file_patch list code_result" where
  "parse_unified_patch text =
     and_then (parse_files (splitlines text)) (\<lambda>fps.
       if fps = [] then Inl (PatchError ''no file changes found in patch'') else Inr fps)"

section \<open>Placing the hunks\<close>

text \<open>
  \<open>_stream_lines_match_at\<close>.  The end of the hunk is only noticed at a line behind it.
\<close>

fun match_from :: "int \<Rightarrow> int \<Rightarrow> string list \<Rightarrow> string list \<Rightarrow> bool" where
  "match_from current old_index expected [] = False"
| "match_from current old_index expected (raw # rest) =
     (if current < old_index then match_from (current + 1) old_index expected rest
      else if int (length expected) \<le> current - old_index then True
      else if strip_line_ending raw \<noteq> expected ! nat (current - old_index) then False
      else match_from (current + 1) old_index expected rest)"

definition stream_lines_match_at :: "string list \<Rightarrow> int \<Rightarrow> string list \<Rightarrow> bool" where
  "stream_lines_match_at raws old_index expected = (expected = [] \<or> match_from 0 old_index expected raws)"

text \<open>\<open>_find_unique_hunk_offset_streaming\<close>: the window of the last lines, at most six matches.\<close>

definition next_window :: "string list \<Rightarrow> string list \<Rightarrow> string \<Rightarrow> string list" where
  "next_window expected window raw =
     (let w = window @ [strip_line_ending raw] in if length expected < length w then tl w else w)"

definition note_match :: "string list \<Rightarrow> string list \<Rightarrow> nat \<Rightarrow> nat list \<Rightarrow> nat list" where
  "note_match expected window n found = (if window = expected then found @ [Suc n - length expected] else found)"

fun window_matches :: "string list \<Rightarrow> string list \<Rightarrow> nat \<Rightarrow> nat list \<Rightarrow> string list \<Rightarrow> nat list" where
  "window_matches expected window n found [] = found"
| "window_matches expected window n found (raw # rest) =
     (if 5 < length (note_match expected (next_window expected window raw) n found)
      then note_match expected (next_window expected window raw) n found
      else window_matches expected (next_window expected window raw) (Suc n)
             (note_match expected (next_window expected window raw) n found) rest)"

definition mismatch :: "string \<Rightarrow> string \<Rightarrow> string" where
  "mismatch path header = ''hunk does not match target file: '' @ path @ ''; '' @ header"

definition find_unique_hunk_offset :: "string list \<Rightarrow> string list \<Rightarrow> string \<Rightarrow> string \<Rightarrow> int code_result" where
  "find_unique_hunk_offset raws expected path header =
     (if expected = []
      then Inl (PatchError (mismatch path header @ ''; empty context cannot be relocated''))
      else case window_matches expected [] 0 [] raws of
        [n] \<Rightarrow> Inr (int n)
      | [] \<Rightarrow> Inl (PatchError (mismatch path header @ ''; no matching context found''))
      | ns \<Rightarrow> Inl (PatchError (mismatch path header @ ''; multiple matching locations found at lines '' @
                 join '', '' (map (\<lambda>n. nat_str (Suc n)) (take 5 ns)) @ (if 5 < length ns then ''...'' else []))))"

definition resolve_hunk :: "string list \<Rightarrow> string \<Rightarrow> patch_hunk \<Rightarrow> patch_hunk code_result" where
  "resolve_hunk raws path h =
     (if ph_remove h \<noteq> [] \<and> \<not> stream_lines_match_at raws (ph_old_index h) (ph_remove h)
      then and_then (find_unique_hunk_offset raws (ph_remove h) path (ph_header h)) (\<lambda>n. Inr (h\<lparr>ph_old_index := n\<rparr>))
      else Inr h)"

fun check_overlaps :: "string \<Rightarrow> int \<Rightarrow> patch_hunk list \<Rightarrow> unit code_result" where
  "check_overlaps path previous_end [] = Inr ()"
| "check_overlaps path previous_end (h # hs) =
     (if ph_old_index h < previous_end
      then Inl (PatchError (''overlapping hunks are not supported: '' @ path @ ''; '' @ ph_header h))
      else check_overlaps path (ph_old_index h + int (length (ph_remove h))) hs)"

definition resolve_patch_hunk_offsets :: "string list \<Rightarrow> file_patch \<Rightarrow> patch_hunk list code_result" where
  "resolve_patch_hunk_offsets raws fp =
     and_then (each_then (resolve_hunk raws (fp_path fp)) (fp_hunks fp)) (\<lambda>hs.
       let ordered = sort_key ph_old_index hs in
       and_then (check_overlaps (fp_path fp) 0 ordered) (\<lambda>_. Inr ordered))"

section \<open>Rewriting\<close>

fun consume_expected_lines :: "string \<Rightarrow> string \<Rightarrow> string list \<Rightarrow> string list \<Rightarrow> string list code_result" where
  "consume_expected_lines path header [] raws = Inr raws"
| "consume_expected_lines path header (e # es) [] = Inl (PatchError (mismatch path header))"
| "consume_expected_lines path header (e # es) (raw # raws) =
     (if strip_line_ending raw \<noteq> e then Inl (PatchError (mismatch path header))
      else consume_expected_lines path header es raws)"

lemma consume_rest: "consume_expected_lines path header es raws = Inr rest \<Longrightarrow> length rest \<le> length raws"
  by (induction path header es raws rule: consume_expected_lines.induct) (auto split: if_splits)

text \<open>The hunks left when the file has ended.\<close>

fun rewrite_end :: "string \<Rightarrow> int \<Rightarrow> patch_hunk list \<Rightarrow> string list code_result" where
  "rewrite_end path current [] = Inr []"
| "rewrite_end path current (h # hs) =
     (if current < ph_old_index h \<or> ph_remove h \<noteq> [] then Inl (PatchError (mismatch path (ph_header h)))
      else and_then (rewrite_end path current hs) (\<lambda>out. Inr (ph_add h @ out)))"

text \<open>\<open>_rewrite_patch_stream\<close>: the lines it writes, each of which gets a line feed.\<close>

function rewrite_stream :: "string \<Rightarrow> int \<Rightarrow> patch_hunk list \<Rightarrow> string list \<Rightarrow> string list code_result" where
  "rewrite_stream path current [] [] = Inr []"
| "rewrite_stream path current [] (raw # raws) =
     and_then (rewrite_stream path (current + 1) [] raws) (\<lambda>out. Inr (strip_line_ending raw # out))"
| "rewrite_stream path current (h # hs) raws =
     (if current = ph_old_index h
      then (case consume_expected_lines path (ph_header h) (ph_remove h) raws of
              Inl e \<Rightarrow> Inl e
            | Inr rest \<Rightarrow>
                and_then (rewrite_stream path (current + int (length (ph_remove h))) hs rest) (\<lambda>out. Inr (ph_add h @ out)))
      else case raws of
        [] \<Rightarrow> rewrite_end path current (h # hs)
      | raw # rest \<Rightarrow>
          and_then (rewrite_stream path (current + 1) (h # hs) rest) (\<lambda>out. Inr (strip_line_ending raw # out)))"
  by pat_completeness auto
termination
  by (relation "measures [\<lambda>(path, current, hs, raws). length hs + length raws]") (auto dest!: consume_rest)

definition apply_file_patch :: "file_patch \<Rightarrow> string \<Rightarrow> string code_result" where
  "apply_file_patch fp content =
     (let raws = raw_lines (universal_newlines content) in
      and_then (resolve_patch_hunk_offsets raws fp) (\<lambda>hs.
      and_then (rewrite_stream (fp_path fp) 0 hs raws) (\<lambda>out. Inr (unlines out))))"

end
