(* ===== verification/CodeFiles.thy ===== *)
theory CodeFiles
  imports Patch
begin

text \<open>
  The file tools of the model (\<open>tools/code\<close>): the workspace they are confined to
  (\<open>common.py\<close>), and the tools that read, write, edit and patch files.  The files are a
  dictionary from resolved paths to nodes; the observations say which content of a file the model
  has seen in full, by its version.  A tool answers with a dictionary, whose JSON is its text, or
  raises.  Taking the locks of the paths is one step.  Symbolic links are followed when a path is
  resolved, so the paths of the dictionary have none; no path holds a null character.
\<close>

section \<open>Files\<close>

text \<open>
  A file whose bytes are no UTF-8 has the message of the decoder with it; decoding fails wherever
  the file is read as text.
\<close>

datatype file_node = Directory | TextFile string | RawFile string string

record code_world =
  cw_nodes :: "(string list \<times> file_node) list"
  cw_seen :: "(string \<times> string) list"

definition node_at :: "code_world \<Rightarrow> string list \<Rightarrow> file_node option" where
  "node_at w p = (if p = [] then Some Directory else map_of (cw_nodes w) p)"

definition put_node :: "string list \<Rightarrow> file_node \<Rightarrow> code_world \<Rightarrow> code_world" where
  "put_node p n w = w\<lparr>cw_nodes := dict_set p n (cw_nodes w)\<rparr>"

definition observe :: "string list \<Rightarrow> string \<Rightarrow> code_world \<Rightarrow> code_world" where
  "observe p v w = w\<lparr>cw_seen := dict_set (path_str p) v (cw_seen w)\<rparr>"

definition unobserve :: "string list \<Rightarrow> code_world \<Rightarrow> code_world" where
  "unobserve p w = w\<lparr>cw_seen := dict_pop (path_str p) (cw_seen w)\<rparr>"

text \<open>\<open>Path.read_text\<close>: a missing file and a directory raise errors of the system.\<close>

definition read_file_text :: "code_world \<Rightarrow> string list \<Rightarrow> string code_result" where
  "read_file_text w p =
     (case node_at w p of
        None \<Rightarrow> Inl (OSError ''FileNotFoundError'')
      | Some Directory \<Rightarrow> Inl (OSError ''IsADirectoryError'')
      | Some (RawFile _ m) \<Rightarrow> Inl (UnicodeDecodeError m)
      | Some (TextFile s) \<Rightarrow> Inr (universal_newlines s))"

text \<open>\<open>_file_version\<close>; the digest is a parameter.\<close>

definition file_version :: "(file_node \<Rightarrow> string) \<Rightarrow> code_world \<Rightarrow> string list \<Rightarrow> string code_result" where
  "file_version digest w p =
     (case node_at w p of
        None \<Rightarrow> Inl (OSError ''FileNotFoundError'')
      | Some Directory \<Rightarrow> Inl (OSError ''IsADirectoryError'')
      | Some n \<Rightarrow> Inr (''sha256:'' @ digest n))"

text \<open>\<open>target.parent.mkdir(parents=True, exist_ok=True)\<close>.\<close>

definition parents :: "string list \<Rightarrow> string list list" where
  "parents p = map (\<lambda>k. take k p) [1..<length p]"

definition make_parents :: "string list \<Rightarrow> code_world \<Rightarrow> unit code_result \<times> code_world" where
  "make_parents p w =
     (if node_at w (butlast p) \<noteq> None \<and> node_at w (butlast p) \<noteq> Some Directory
      then (Inl (OSError ''FileExistsError''), w)
      else if list_ex (\<lambda>q. node_at w q \<noteq> None \<and> node_at w q \<noteq> Some Directory) (parents p)
      then (Inl (OSError ''NotADirectoryError''), w)
      else (Inr (), fold (\<lambda>q w. if node_at w q = None then put_node q Directory w else w) (parents p) w))"

text \<open>The length of the text in UTF-8.\<close>

definition utf8_length :: "string \<Rightarrow> int" where
  "utf8_length s = int (length s + length (filter (\<lambda>c. 128 \<le> (of_char c :: nat)) s))"

section \<open>The workspace\<close>

record code_workspace =
  wk_roots :: "string list list"
  wk_protected :: "py_path list"
  wk_max_read_chars :: int

definition py_path_str :: "py_path \<Rightarrow> string" where
  "py_path_str p =
     (if pp_absolute p then path_str (pp_parts p)
      else if pp_parts p = [] then ''.'' else join ''/'' (pp_parts p))"

definition path_result :: "'a result \<Rightarrow> 'a code_result" where
  "path_result m = (case m of Inl e \<Rightarrow> Inl (Raised e) | Inr x \<Rightarrow> Inr x)"

definition default_root :: "code_workspace \<Rightarrow> string list" where
  "default_root ws = hd (wk_roots ws)"

definition workspace_resolve :: "file_system \<Rightarrow> code_workspace \<Rightarrow> py_path \<Rightarrow> string list code_result" where
  "workspace_resolve fs ws path =
     and_then (path_result (expanduser fs path)) (\<lambda>raw.
       path_result (resolve_in fs (join_path \<lparr>pp_absolute = True, pp_parts = default_root ws\<rparr> raw)))"

definition containing_root :: "code_workspace \<Rightarrow> string list \<Rightarrow> string list option" where
  "containing_root ws target = find (is_relative_to target) (wk_roots ws)"

definition workspace_relative :: "code_workspace \<Rightarrow> string list \<Rightarrow> string" where
  "workspace_relative ws p =
     (case containing_root ws p of
        None \<Rightarrow> path_str p
      | Some root \<Rightarrow> if length p = length root then ''.'' else join ''/'' (drop (length root) p))"

fun unprotected :: "file_system \<Rightarrow> string list \<Rightarrow> string list \<Rightarrow> py_path list \<Rightarrow> unit code_result" where
  "unprotected fs root target [] = Inr ()"
| "unprotected fs root target (p # ps) =
     and_then (path_result (resolve_in fs (join_path \<lparr>pp_absolute = True, pp_parts = root\<rparr> p))) (\<lambda>r.
       if is_relative_to target r
       then Inl (CodeToolError ''protected_path'' (''path is within protected path: '' @ py_path_str p))
       else unprotected fs root target ps)"

definition check_path :: "file_system \<Rightarrow> code_workspace \<Rightarrow> py_path \<Rightarrow> string list code_result" where
  "check_path fs ws path =
     and_then (workspace_resolve fs ws path) (\<lambda>target.
       case containing_root ws target of
         None \<Rightarrow> Inl (CodeToolError ''invalid_path'' (''path is outside workspace roots: '' @ path_str target))
       | Some root \<Rightarrow> and_then (unprotected fs root target (wk_protected ws)) (\<lambda>_. Inr target))"

text \<open>\<open>check_read\<close> and \<open>check_write\<close> of an argument: \<open>Path(str(path or '.'))\<close>.\<close>

definition check_argument :: "file_system \<Rightarrow> code_workspace \<Rightarrow> pyval \<Rightarrow> string list code_result" where
  "check_argument fs ws v = check_path fs ws (make_path (str_or v ''.''))"

section \<open>Answers\<close>

type_synonym tool_answer = "(string \<times> pyval) list code_result"

definition error_answer :: "string \<Rightarrow> string \<Rightarrow> (string \<times> pyval) list \<Rightarrow> (string \<times> pyval) list" where
  "error_answer t message extra =
     [(''error'', PDict ([(''type'', PStr t), (''message'', PStr message)] @ extra))]"

definition int_arg :: "pyval \<Rightarrow> int code_result" where
  "int_arg v = path_result (py_int v)"

section \<open>Reading\<close>

text \<open>\<open>_read_targets\<close>.\<close>

definition normalize_target :: "pyval \<Rightarrow> (string \<times> pyval) list option" where
  "normalize_target v =
     (case v of
        PDict d \<Rightarrow>
          let p = str_or (dget d ''path'') [] in if p = [] then None else Some (dict_set ''path'' (PStr p) d)
      | _ \<Rightarrow> None)"

definition read_targets :: "(string \<times> pyval) list \<Rightarrow> (string \<times> pyval) list list" where
  "read_targets args =
     (let normalized = (case dget args ''targets'' of PList ts \<Rightarrow> List.map_filter normalize_target ts | _ \<Rightarrow> [])
      in if normalized \<noteq> [] then normalized
         else if py_true (dget args ''path'') then [[(''path'', PStr (py_str (dget args ''path'')))]] else [])"

text \<open>The loop of \<open>_read_payload\<close> over the lines of the file.\<close>

record read_state =
  rs_selected :: "string list"
  rs_line :: int
  rs_chars :: int
  rs_truncated :: bool

definition read_one :: "int \<Rightarrow> int option \<Rightarrow> int \<Rightarrow> string \<Rightarrow> read_state \<Rightarrow> read_state" where
  "read_one start count max_chars raw st =
     (let st1 = st\<lparr>rs_line := rs_line st + 1\<rparr>;
          full = (case count of None \<Rightarrow> False | Some n \<Rightarrow> n \<le> int (length (rs_selected st))) in
      if rs_line st1 < start then st1
      else if full then st1\<lparr>rs_truncated := True\<rparr>
      else
        let remaining = max_chars - rs_chars st in
        if remaining \<le> 0 then st1\<lparr>rs_truncated := True\<rparr>
        else if remaining < int (length raw)
        then st1\<lparr>rs_selected := rs_selected st @ [take (nat remaining) raw], rs_chars := rs_chars st + remaining,
                 rs_truncated := True\<rparr>
        else st1\<lparr>rs_selected := rs_selected st @ [raw], rs_chars := rs_chars st + int (length raw)\<rparr>)"

definition read_lines :: "int \<Rightarrow> int option \<Rightarrow> int \<Rightarrow> string list \<Rightarrow> read_state" where
  "read_lines start count max_chars raws =
     fold (read_one start count max_chars) raws
       \<lparr>rs_selected = [], rs_line = 0, rs_chars = 0, rs_truncated = False\<rparr>"

definition numbered_from :: "int \<Rightarrow> string list \<Rightarrow> (int \<times> string) list" where
  "numbered_from start ls = map (\<lambda>(i, l). (start + int i, strip_line_ending l)) (enumerate 0 ls)"

definition number_lines :: "string list \<Rightarrow> int \<Rightarrow> string" where
  "number_lines ls start = join [LF] (map (\<lambda>(n, l). int_str n @ CHR 0x09 # l) (numbered_from start ls))"

definition read_content :: "string \<Rightarrow> int \<Rightarrow> read_state \<Rightarrow> string \<times> pyval" where
  "read_content format start st =
     (if format = ''json''
      then (''lines'', PList (map (\<lambda>(n, l). PDict [(''line'', PInt n), (''text'', PStr l)]) (numbered_from start (rs_selected st))))
      else if format = ''raw'' then (''content'', PStr (concat (rs_selected st)))
      else (''content'', PStr (number_lines (rs_selected st) start)))"

text \<open>\<open>_read_payload\<close>: the answer, and whether the file was cut off.\<close>

definition read_payload ::
  "code_workspace \<Rightarrow> code_world \<Rightarrow> string list \<Rightarrow> int \<Rightarrow> int option \<Rightarrow> int \<Rightarrow> string \<Rightarrow>
   (string \<times> pyval) list \<times> bool option" where
  "read_payload ws w target start count max_chars format =
     (case node_at w target of
        Some (TextFile s) \<Rightarrow>
          let st = read_lines start count max_chars (raw_lines (universal_newlines s)) in
          ([(''path'', PStr (workspace_relative ws target)), (''start_line'', PInt start),
            (''line_count'', PInt (int (length (rs_selected st)))), (''total_lines'', PInt (rs_line st)),
            (''truncated'', PBool (rs_truncated st)), read_content format start st],
           Some (rs_truncated st))
      | Some (RawFile _ _) \<Rightarrow>
          ((''path'', PStr (workspace_relative ws target)) # error_answer ''not_utf8'' ''file is not valid UTF-8 text'' [], None)
      | _ \<Rightarrow>
          ((''path'', PStr (workspace_relative ws target)) # error_answer ''not_found'' ''file not found'' [], None))"

definition read_range :: "code_workspace \<Rightarrow> (string \<times> pyval) list \<Rightarrow> (string \<times> pyval) list \<Rightarrow> (int \<times> int option \<times> int) code_result" where
  "read_range ws args target =
     and_then (int_arg (or_value (dget target ''start_line'') (or_value (dget args ''start_line'') (PInt 1)))) (\<lambda>start.
     and_then (int_arg (or_value (dget_or target ''max_chars'' (dget args ''max_chars_per_file'')) (PInt (wk_max_read_chars ws)))) (\<lambda>n.
     let count = dget_or target ''line_count'' (dget args ''line_count'') in
     and_then (if count = PNone then Inr None else and_then (int_arg count) (\<lambda>k. Inr (Some k))) (\<lambda>c.
       Inr (max 1 start, c, max 1 (min n (wk_max_read_chars ws))))))"

text \<open>A complete read is observed; a partial one of another content forgets what was seen.\<close>

definition note_read ::
  "(file_node \<Rightarrow> string) \<Rightarrow> string list \<Rightarrow> int \<Rightarrow> bool option \<Rightarrow> code_world \<Rightarrow> code_world" where
  "note_read digest target start truncated w =
     (case (truncated, file_version digest w target) of
        (Some short, Inr v) \<Rightarrow>
          if start = 1 \<and> \<not> short then observe target v w
          else if map_of (cw_seen w) (path_str target) \<noteq> None \<and> map_of (cw_seen w) (path_str target) \<noteq> Some v
          then unobserve target w else w
      | _ \<Rightarrow> w)"

definition read_one_target ::
  "file_system \<Rightarrow> code_workspace \<Rightarrow> (file_node \<Rightarrow> string) \<Rightarrow> (string \<times> pyval) list \<Rightarrow> (string \<times> pyval) list \<Rightarrow>
   code_world \<Rightarrow> tool_answer \<times> code_world" where
  "read_one_target fs ws digest args target w =
     (case check_argument fs ws (dget target ''path'') of
        Inl (CodeToolError t m) \<Rightarrow>
          (Inr ((''path'', PStr (py_str (dget target ''path''))) # error_answer t m []), w)
      | Inl e \<Rightarrow> (Inl e, w)
      | Inr p \<Rightarrow>
         (case read_range ws args target of
            Inl e \<Rightarrow> (Inl e, w)
          | Inr (start, count, n) \<Rightarrow>
             (case read_payload ws w p start count n (str_or (dget args ''format'') ''numbered'') of
                (payload, truncated) \<Rightarrow> (Inr payload, note_read digest p start truncated w))))"

fun read_all_targets ::
  "file_system \<Rightarrow> code_workspace \<Rightarrow> (file_node \<Rightarrow> string) \<Rightarrow> (string \<times> pyval) list \<Rightarrow> (string \<times> pyval) list list \<Rightarrow>
   code_world \<Rightarrow> (string \<times> pyval) list list code_result \<times> code_world" where
  "read_all_targets fs ws digest args [] w = (Inr [], w)"
| "read_all_targets fs ws digest args (t # ts) w =
     (case read_one_target fs ws digest args t w of
        (Inl e, w1) \<Rightarrow> (Inl e, w1)
      | (Inr payload, w1) \<Rightarrow>
         (case read_all_targets fs ws digest args ts w1 of
            (Inl e, w2) \<Rightarrow> (Inl e, w2)
          | (Inr payloads, w2) \<Rightarrow> (Inr (payload # payloads), w2)))"

text \<open>The tool \<open>read\<close> on files; stored tool results are read by \<open>get_tool_result_slice\<close>.\<close>

definition read_tool ::
  "file_system \<Rightarrow> code_workspace \<Rightarrow> (file_node \<Rightarrow> string) \<Rightarrow> (string \<times> pyval) list \<Rightarrow> code_world \<Rightarrow> tool_answer \<times> code_world" where
  "read_tool fs ws digest args w =
     (if read_targets args = [] then (Inr (error_answer ''invalid_path'' ''path or targets is required'' []), w)
      else case read_all_targets fs ws digest args (read_targets args) w of
        (Inl e, w1) \<Rightarrow> (Inl e, w1)
      | (Inr [payload], w1) \<Rightarrow> (Inr payload, w1)
      | (Inr payloads, w1) \<Rightarrow> (Inr [(''files'', PList (map PDict payloads))], w1))"

end
