(* ===== verification/CodeTools.thy ===== *)
theory CodeTools
  imports CodeFiles
begin

text \<open>
  The tools \<open>write\<close>, \<open>edit\<close> and \<open>patch\<close> (\<open>write_file.py\<close>, \<open>edit_file.py\<close>, \<open>apply_patch.py\<close>), and a
  call of one of the file tools.
\<close>

section \<open>Writing\<close>

definition write_file :: "string list \<Rightarrow> string \<Rightarrow> (file_node \<Rightarrow> string) \<Rightarrow> code_world \<Rightarrow> code_world" where
  "write_file p content digest w =
     observe p (''sha256:'' @ digest (TextFile content)) (put_node p (TextFile content) w)"

definition write_answer :: "code_workspace \<Rightarrow> string list \<Rightarrow> string \<Rightarrow> bool \<Rightarrow> string \<Rightarrow> (string \<times> pyval) list" where
  "write_answer ws p content existed before =
     [(''path'', PStr (workspace_relative ws p)), (''bytes_written'', PInt (utf8_length content)),
      (''mode'', PStr (if existed then ''overwrite'' else ''create'')), (''before_path'', PStr (path_str p)),
      (''before'', PStr before), (''existed'', PBool existed)]"

text \<open>The branch that overwrites, with the version that was observed.\<close>

definition stale :: "(file_node \<Rightarrow> string) \<Rightarrow> string list \<Rightarrow> code_world \<Rightarrow> bool code_result" where
  "stale digest p w =
     (case (node_at w p, map_of (cw_seen w) (path_str p)) of
        (None, observed) \<Rightarrow> Inr (observed \<noteq> None)
      | (Some _, None) \<Rightarrow> Inr True
      | (Some _, Some v) \<Rightarrow> and_then (file_version digest w p) (\<lambda>now. Inr (now \<noteq> v)))"

definition overwrite ::
  "code_workspace \<Rightarrow> (file_node \<Rightarrow> string) \<Rightarrow> string list \<Rightarrow> string \<Rightarrow> code_world \<Rightarrow> tool_answer \<times> code_world" where
  "overwrite ws digest p content w =
     (case stale digest p w of
        Inl e \<Rightarrow> (Inl e, w)
      | Inr True \<Rightarrow>
          (Inr (error_answer ''stale_file''
             ''file changed or was not read completely; read it again before overwriting''
             [(''path'', PStr (workspace_relative ws p))]), unobserve p w)
      | Inr False \<Rightarrow>
         (case read_file_text w p of
            Inl (UnicodeDecodeError _) \<Rightarrow>
              (Inr (error_answer ''not_utf8'' ''file is not valid UTF-8 text'' [(''path'', PStr (workspace_relative ws p))]), w)
          | Inl e \<Rightarrow> (Inl e, w)
          | Inr before \<Rightarrow>
              (Inr (write_answer ws p content (node_at w p \<noteq> None) before), write_file p content digest w)))"

definition create_file ::
  "code_workspace \<Rightarrow> (file_node \<Rightarrow> string) \<Rightarrow> string list \<Rightarrow> string \<Rightarrow> code_world \<Rightarrow> tool_answer \<times> code_world" where
  "create_file ws digest p content w =
     (if node_at w p \<noteq> None
      then (Inr (error_answer ''file_exists''
              ''file already exists; read it completely before overwriting, or use exact replacement edit''
              [(''path'', PStr (workspace_relative ws p))]), w)
      else (Inr (write_answer ws p content False []), write_file p content digest w))"

definition write_tool ::
  "file_system \<Rightarrow> code_workspace \<Rightarrow> (file_node \<Rightarrow> string) \<Rightarrow> (string \<times> pyval) list \<Rightarrow> code_world \<Rightarrow> tool_answer \<times> code_world" where
  "write_tool fs ws digest args w =
     (case check_argument fs ws (dget args ''path'') of
        Inl (CodeToolError t m) \<Rightarrow> (Inr (error_answer t m [(''path'', PStr (str_or (dget args ''path'') []))]), w)
      | Inl e \<Rightarrow> (Inl e, w)
      | Inr p \<Rightarrow>
         (case make_parents p w of
            (Inl e, w1) \<Rightarrow> (Inl e, w1)
          | (Inr _, w1) \<Rightarrow>
              if str_or (dget args ''mode'') ''create'' = ''create''
              then create_file ws digest p (str_or (dget args ''content'') []) w1
              else overwrite ws digest p (str_or (dget args ''content'') []) w1))"

section \<open>Editing\<close>

text \<open>\<open>_looks_like_numbered_read_line\<close>; the arrow it also looks for is not a Latin-1 character.\<close>

definition numbered_line :: "string \<Rightarrow> bool" where
  "numbered_line l =
     (let r = lstrip l in takeWhile is_digit r \<noteq> [] \<and> startswith (dropWhile is_digit r) [CHR 0x09])"

definition looks_like_numbered_read_line :: "string \<Rightarrow> bool" where
  "looks_like_numbered_read_line text = list_ex numbered_line (splitlines text)"

text \<open>One replacement: an answer that ends the edit, or the new text and the number of places.\<close>

definition edit_error :: "code_workspace \<Rightarrow> string list \<Rightarrow> string \<Rightarrow> string \<Rightarrow> (string \<times> pyval) list \<Rightarrow> (string \<times> pyval) list" where
  "edit_error ws p t message extra = error_answer t message ((''path'', PStr (workspace_relative ws p)) # extra)"

definition replace_once ::
  "code_workspace \<Rightarrow> string list \<Rightarrow> nat \<Rightarrow> pyval \<Rightarrow> string \<Rightarrow> ((string \<times> pyval) list + string \<times> nat) code_result" where
  "replace_once ws p k v text =
     (case v of
        PDict d \<Rightarrow>
          let old = str_or (dget d ''old'') []; new = str_or (dget d ''new'') []; n = count_sub old text;
              index = (''index'', PInt (int k)); expected = dget d ''expected_count'' in
          if old = [] then Inr (Inl (edit_error ws p ''invalid_edit'' ''old text is required'' [index]))
          else if looks_like_numbered_read_line old
          then Inr (Inl (edit_error ws p ''invalid_edit''
                 ''old text includes read line-number prefixes; remove prefixes before editing'' [index]))
          else
            and_then (if expected = PNone then Inr (int n) else int_arg expected) (\<lambda>e.
              if int n \<noteq> e
              then Inr (Inl (edit_error ws p ''edit_count_mismatch'' ''old text occurrence count did not match expected_count''
                     [index, (''expected_count'', PInt e), (''occurrences'', PInt (int n))]))
              else if n = 0 then Inr (Inl (edit_error ws p ''edit_not_found'' ''old text was not found'' [index]))
              else if 1 < n \<and> \<not> py_true (dget d ''replace_all'')
              then Inr (Inl (edit_error ws p ''edit_not_unique''
                     ''old text occurs more than once; set replace_all=true or provide more context''
                     [index, (''occurrences'', PInt (int n))]))
              else
                let all_places = py_true (dget d ''replace_all'') in
                Inr (Inr (replace_sub (if all_places then None else Some 1) old new text, if all_places then n else 1)))
      | _ \<Rightarrow> Inr (Inl (edit_error ws p ''invalid_edit'' (''replacement '' @ nat_str k @ '' must be an object'') [])))"

fun replace_each ::
  "code_workspace \<Rightarrow> string list \<Rightarrow> nat \<Rightarrow> pyval list \<Rightarrow> string \<Rightarrow> nat \<Rightarrow> ((string \<times> pyval) list + string \<times> nat) code_result" where
  "replace_each ws p k [] text applied = Inr (Inr (text, applied))"
| "replace_each ws p k (v # vs) text applied =
     (case replace_once ws p k v text of
        Inl e \<Rightarrow> Inl e
      | Inr (Inl answer) \<Rightarrow> Inr (Inl answer)
      | Inr (Inr (text', n)) \<Rightarrow> replace_each ws p (Suc k) vs text' (applied + n))"

definition replace_in_file ::
  "code_workspace \<Rightarrow> string list \<Rightarrow> pyval list \<Rightarrow> code_world \<Rightarrow> tool_answer \<times> code_world" where
  "replace_in_file ws p replacements w =
     (case node_at w p of
        Some (RawFile _ _) \<Rightarrow> (Inr (edit_error ws p ''not_utf8'' ''file is not valid UTF-8 text'' []), w)
      | Some (TextFile s) \<Rightarrow>
         (case replace_each ws p 0 replacements (universal_newlines s) 0 of
            Inl e \<Rightarrow> (Inl e, w)
          | Inr (Inl answer) \<Rightarrow> (Inr answer, w)
          | Inr (Inr (text, applied)) \<Rightarrow>
              (Inr [(''path'', PStr (workspace_relative ws p)), (''replacements'', PInt (int applied)),
                    (''bytes_written'', PInt (utf8_length text)), (''before_path'', PStr (path_str p)),
                    (''before'', PStr (universal_newlines s)), (''after'', PStr text), (''existed'', PBool True)],
               unobserve p (put_node p (TextFile text) w)))
      | _ \<Rightarrow> (Inr (edit_error ws p ''not_found'' ''file not found'' []), w))"

section \<open>Patching\<close>

text \<open>\<open>_apply_file_patch_streaming\<close>: the new text replaces the file once it is complete.\<close>

definition patch_file :: "file_patch \<Rightarrow> string list \<Rightarrow> code_world \<Rightarrow> unit code_result \<times> code_world" where
  "patch_file fp p w =
     (case node_at w p of
        None \<Rightarrow> (Inl (PatchError (''target file does not exist: '' @ fp_path fp)), w)
      | Some Directory \<Rightarrow> (Inl (OSError ''IsADirectoryError''), w)
      | Some (RawFile _ m) \<Rightarrow> (Inl (UnicodeDecodeError m), w)
      | Some (TextFile s) \<Rightarrow>
         (case apply_file_patch fp s of
            Inl e \<Rightarrow> (Inl e, w)
          | Inr s' \<Rightarrow> (Inr (), put_node p (TextFile s') w)))"

text \<open>\<open>_apply_simple_unified_patch\<close>: one file after the other; what was changed before an error stays.\<close>

fun patch_files ::
  "code_workspace \<Rightarrow> (file_patch \<times> string list) list \<Rightarrow> code_world \<Rightarrow> string list code_result \<times> code_world" where
  "patch_files ws [] w = (Inr [], w)"
| "patch_files ws ((fp, p) # rest) w =
     (case patch_file fp p w of
        (Inl e, w1) \<Rightarrow> (Inl e, w1)
      | (Inr _, w1) \<Rightarrow>
         (case patch_files ws rest w1 of
            (Inl e, w2) \<Rightarrow> (Inl e, w2)
          | (Inr changed, w2) \<Rightarrow> (Inr (workspace_relative ws p # changed), w2)))"

definition patch_targets ::
  "file_system \<Rightarrow> code_workspace \<Rightarrow> string list \<Rightarrow> file_patch list \<Rightarrow> (file_patch \<times> string list) list code_result" where
  "patch_targets fs ws base fps =
     each_then (\<lambda>fp. and_then (check_path fs ws (join_path \<lparr>pp_absolute = True, pp_parts = base\<rparr> (make_path (fp_path fp))))
       (\<lambda>p. Inr (fp, p))) fps"

text \<open>The except clause of the tool: the errors it turns into an answer.\<close>

definition or_message :: "string \<Rightarrow> string \<Rightarrow> string" where
  "or_message m name = (if m = [] then name else m)"

definition patch_failed :: "code_error \<Rightarrow> tool_answer" where
  "patch_failed e =
     (case e of
        CodeToolError _ m \<Rightarrow> Inr (error_answer ''patch_failed'' (or_message m ''CodeToolError'') [])
      | UnicodeDecodeError m \<Rightarrow> Inr (error_answer ''patch_failed'' (or_message m ''UnicodeDecodeError'') [])
      | PatchError m \<Rightarrow> Inr (error_answer ''patch_failed'' (or_message m ''ValueError'') [])
      | _ \<Rightarrow> Inl e)"

definition patch_tool ::
  "file_system \<Rightarrow> code_workspace \<Rightarrow> (string \<times> pyval) list \<Rightarrow> code_world \<Rightarrow> tool_answer \<times> code_world" where
  "patch_tool fs ws args w =
     (let text = str_or (dget args ''patch'') [] in
      if strip text = [] then (Inr (error_answer ''patch_failed'' ''patch is required'' []), w)
      else case check_argument fs ws (or_value (dget args ''cwd'') (PStr ''.'')) of
        Inl (CodeToolError t m) \<Rightarrow> (Inr (error_answer t m [(''path'', PStr (str_or (dget args ''cwd'') ''.''))]), w)
      | Inl e \<Rightarrow> (Inl e, w)
      | Inr base \<Rightarrow>
         (case and_then (parse_unified_patch text) (patch_targets fs ws base) of
            Inl e \<Rightarrow> (patch_failed e, w)
          | Inr targets \<Rightarrow>
             (case patch_files ws targets w of
                (out, w1) \<Rightarrow>
                  let w2 = fold (\<lambda>t. unobserve (snd t)) targets w1 in
                  case out of
                    Inl e \<Rightarrow> (patch_failed e, w2)
                  | Inr changed \<Rightarrow> (Inr [(''applied'', PBool True), (''files_changed'', PList (map PStr changed))], w2))))"

section \<open>The edit tool\<close>

definition edit_tool ::
  "file_system \<Rightarrow> code_workspace \<Rightarrow> (file_node \<Rightarrow> string) \<Rightarrow> (string \<times> pyval) list \<Rightarrow> code_world \<Rightarrow> tool_answer \<times> code_world" where
  "edit_tool fs ws digest args w =
     (let operation = lower (strip (str_or (dget args ''operation'') [])) in
      if operation = [] then (Inr (error_answer ''invalid_edit'' ''operation is required'' []), w)
      else if operation = ''patch'' then patch_tool fs ws args w
      else if operation = ''create'' \<or> operation = ''overwrite''
      then write_tool fs ws digest (dict_set ''mode'' (PStr operation) args) w
      else if operation \<noteq> ''replace''
      then (Inr (error_answer ''invalid_edit'' ''operation must be replace, create, overwrite, or patch'' []), w)
      else case check_argument fs ws (dget args ''path'') of
        Inl (CodeToolError t m) \<Rightarrow> (Inr (error_answer t m [(''path'', PStr (str_or (dget args ''path'') []))]), w)
      | Inl e \<Rightarrow> (Inl e, w)
      | Inr p \<Rightarrow>
         (case dget args ''replacements'' of
            PList (v # vs) \<Rightarrow> replace_in_file ws p (v # vs) w
          | _ \<Rightarrow> (Inr (edit_error ws p ''invalid_edit'' ''replacements must be a non-empty array'' []), w)))"

text \<open>A call of a file tool.\<close>

datatype file_call =
    ReadCall "(string \<times> pyval) list"
  | WriteCall "(string \<times> pyval) list"
  | EditCall "(string \<times> pyval) list"
  | PatchCall "(string \<times> pyval) list"

fun run_call ::
  "file_system \<Rightarrow> code_workspace \<Rightarrow> (file_node \<Rightarrow> string) \<Rightarrow> file_call \<Rightarrow> code_world \<Rightarrow> tool_answer \<times> code_world" where
  "run_call fs ws digest (ReadCall args) w = read_tool fs ws digest args w"
| "run_call fs ws digest (WriteCall args) w = write_tool fs ws digest args w"
| "run_call fs ws digest (EditCall args) w = edit_tool fs ws digest args w"
| "run_call fs ws digest (PatchCall args) w = patch_tool fs ws args w"

end
