(* ===== verification/PatchProps.thy ===== *)
theory PatchProps
  imports Patch
begin

text \<open>
  What a patch does to a file: the pass over the file against a reference that splices the hunks
  into the list of lines, patches read back from their text, and the places where hunks are not
  applied as a unified diff means them.
\<close>

section \<open>The reference\<close>

text \<open>
  A hunk replaces the lines it removes by those it adds, at its index.  \<open>current\<close> is the number of
  lines before the given ones.
\<close>

definition splice :: "int \<Rightarrow> patch_hunk \<Rightarrow> string list \<Rightarrow> string list" where
  "splice current h ls =
     take (nat (ph_old_index h - current)) ls @ ph_add h @
     drop (nat (ph_old_index h - current) + length (ph_remove h)) ls"

definition splice_all :: "int \<Rightarrow> patch_hunk list \<Rightarrow> string list \<Rightarrow> string list" where
  "splice_all current hs ls = foldr (splice current) hs ls"

definition fits :: "int \<Rightarrow> string list \<Rightarrow> patch_hunk \<Rightarrow> bool" where
  "fits current ls h =
     (current \<le> ph_old_index h \<and> nat (ph_old_index h - current) + length (ph_remove h) \<le> length ls \<and>
      take (length (ph_remove h)) (drop (nat (ph_old_index h - current)) ls) = ph_remove h)"

lemma splice_all_simps [simp]:
  "splice_all current [] ls = ls"
  "splice_all current (h # hs) ls = splice current h (splice_all current hs ls)"
  by (simp_all add: splice_all_def)

lemma splice_shift:
  assumes "current + int k \<le> ph_old_index h" and "k \<le> length ls"
  shows "splice current h (take k ls @ r) = take k ls @ splice (current + int k) h r"
proof -
  have n: "nat (ph_old_index h - current) = k + nat (ph_old_index h - (current + int k))" using assms(1) by simp
  have "length (take k ls) = k" using assms(2) by simp
  then show ?thesis unfolding splice_def n by simp
qed

lemma splice_all_shift:
  assumes "\<forall>h \<in> set hs. current + int k \<le> ph_old_index h" and "k \<le> length ls"
  shows "splice_all current hs ls = take k ls @ splice_all (current + int k) hs (drop k ls)"
  using assms
proof (induction hs)
  case (Cons h hs)
  then show ?case by (simp add: splice_shift)
qed simp

lemma fits_shift:
  assumes "current + int k \<le> ph_old_index h" and "k \<le> length ls"
  shows "fits current ls h \<longleftrightarrow> fits (current + int k) (drop k ls) h"
proof -
  have n: "nat (ph_old_index h - current) = nat (ph_old_index h - (current + int k)) + k" using assms(1) by simp
  show ?thesis using assms unfolding fits_def n by auto
qed

lemma overlaps_bound:
  "check_overlaps path previous_end hs = Inr () \<Longrightarrow> h \<in> set hs \<Longrightarrow> previous_end \<le> ph_old_index h"
  by (induction hs arbitrary: previous_end) (force split: if_splits)+

section \<open>One pass over the file\<close>

lemma consume_iff:
  "consume_expected_lines path header es raws =
     (if length es \<le> length raws \<and> map strip_line_ending (take (length es) raws) = es
      then Inr (drop (length es) raws) else Inl (PatchError (mismatch path header)))"
  by (induction path header es raws rule: consume_expected_lines.induct) auto

lemma rewrite_splices:
  assumes "check_overlaps path current hs = Inr ()"
  shows "(\<forall>h \<in> set hs. fits current (map strip_line_ending raws) h) \<and>
       rewrite_stream path current hs raws = Inr (splice_all current hs (map strip_line_ending raws)) \<or>
     \<not> (\<forall>h \<in> set hs. fits current (map strip_line_ending raws) h) \<and>
       (\<exists>e. rewrite_stream path current hs raws = Inl (PatchError e))"
  using assms
proof (induction path current hs raws rule: rewrite_stream.induct)
  case (2 path current raw raws)
  then show ?case by simp
next
  case (3 path current h hs raws)
  let ?ls = "map strip_line_ending raws"
  have bound: "current \<le> ph_old_index h" using 3(3) by (auto split: if_splits)
  have rest: "check_overlaps path (ph_old_index h + int (length (ph_remove h))) hs = Inr ()"
    using 3(3) by (auto split: if_splits)
  then have later: "ph_old_index h + int (length (ph_remove h)) \<le> ph_old_index g" if "g \<in> set hs" for g
    using overlaps_bound that by blast
  show ?case
  proof (cases "current = ph_old_index h")
    case True
    let ?n = "length (ph_remove h)"
    show ?thesis
    proof (cases "?n \<le> length raws \<and> map strip_line_ending (take ?n raws) = ph_remove h")
      case fit: True
      then have c: "consume_expected_lines path (ph_header h) (ph_remove h) raws = Inr (drop ?n raws)"
        by (simp add: consume_iff)
      have fh: "fits current ?ls h" using fit True by (simp add: fits_def take_map)
      have k: "\<forall>g \<in> set hs. current + int ?n \<le> ph_old_index g" using later True by auto
      have fk: "(\<forall>g \<in> set hs. fits (current + int ?n) (drop ?n ?ls) g) \<longleftrightarrow> (\<forall>g \<in> set (h # hs). fits current ?ls g)"
        using fits_shift [of current ?n _ ?ls] k fh fit by auto
      have "splice_all current (h # hs) ?ls = ph_add h @ splice_all (current + int ?n) hs (drop ?n ?ls)"
        using splice_all_shift [OF k, of ?ls] fit True by (simp add: splice_def)
      with 3(1) [OF True c] rest True fk show ?thesis
        using c by (auto simp: drop_map)
    next
      case False
      then have "\<not> fits current ?ls h" using True by (auto simp: fits_def take_map)
      then show ?thesis using True False by (auto simp: consume_iff)
    qed
  next
    case False
    show ?thesis
    proof (cases raws)
      case Nil
      have "\<exists>e. rewrite_end path current (h # hs) = Inl (PatchError e)" using False bound by auto
      moreover have "\<not> fits current [] h" using False bound by (simp add: fits_def)
      ultimately show ?thesis using Nil False by simp
    next
      case (Cons raw raws')
      have k: "\<forall>g \<in> set (h # hs). current + int 1 \<le> ph_old_index g"
        using False bound later by fastforce
      have over: "check_overlaps path (current + 1) (h # hs) = Inr ()" using k rest by simp
      have fk: "(\<forall>g \<in> set (h # hs). fits (current + 1) (map strip_line_ending raws') g) \<longleftrightarrow>
          (\<forall>g \<in> set (h # hs). fits current ?ls g)"
        using fits_shift [of current 1 _ ?ls] k Cons by auto
      have "splice_all current (h # hs) ?ls = strip_line_ending raw # splice_all (current + 1) (h # hs) (map strip_line_ending raws')"
        using splice_all_shift [OF k, of ?ls] Cons by simp
      with 3(2) [OF False Cons over] fk show ?thesis using False Cons
        by (auto simp del: splice_all_simps)
    qed
  qed
qed simp

section \<open>Where a hunk is placed\<close>

definition occurs_at :: "string list \<Rightarrow> string list \<Rightarrow> nat \<Rightarrow> bool" where
  "occurs_at es ls n = (n + length es \<le> length ls \<and> take (length es) (drop n ls) = es)"

definition occurrences :: "string list \<Rightarrow> string list \<Rightarrow> nat list" where
  "occurrences es ls = filter (occurs_at es ls) [0..<Suc (length ls)]"

lemma occurs_at_append: "n + length es \<le> length ls \<Longrightarrow> occurs_at es (ls @ ms) n \<longleftrightarrow> occurs_at es ls n"
  by (simp add: occurs_at_def)

text \<open>One more line adds at most one place.\<close>

lemma last_place: "j + a = Suc b \<longleftrightarrow> j = Suc b - a \<and> a \<le> Suc b" for j a b :: nat
  by auto

lemma split_upt: "k \<le> n \<Longrightarrow> [0..<Suc n] = [0..<k] @ [k] @ [Suc k..<Suc n]"
proof -
  assume k: "k \<le> n"
  then have "[0..<Suc n] = [0..<k] @ [k..<Suc n]" by (metis le_SucI le_add_diff_inverse upt_add_eq_append zero_le)
  moreover have "[k..<Suc n] = k # [Suc k..<Suc n]" using k by (intro upt_conv_Cons) simp
  ultimately show ?thesis by simp
qed

lemma occurrences_snoc:
  assumes "es \<noteq> []"
  shows "occurrences es (ls @ [l]) =
    occurrences es ls @ (if length es \<le> Suc (length ls) \<and> drop (Suc (length ls) - length es) (ls @ [l]) = es
                         then [Suc (length ls) - length es] else [])"
proof -
  let ?n = "Suc (length ls) - length es"
  have new: "occurs_at es (ls @ [l]) j \<longleftrightarrow> occurs_at es ls j \<or>
      j = ?n \<and> length es \<le> Suc (length ls) \<and> drop ?n (ls @ [l]) = es" for j
  proof (cases "j + length es \<le> length ls")
    case True
    moreover have "j \<noteq> ?n \<or> \<not> length es \<le> Suc (length ls)" using True by auto
    ultimately show ?thesis by (auto simp: occurs_at_append)
  next
    case False
    then have "occurs_at es (ls @ [l]) j \<longleftrightarrow> j + length es = Suc (length ls) \<and> drop j (ls @ [l]) = es"
      by (auto simp: occurs_at_def)
    also have "j + length es = Suc (length ls) \<longleftrightarrow> j = ?n \<and> length es \<le> Suc (length ls)" by (rule last_place)
    finally show ?thesis using False unfolding occurs_at_def by blast
  qed
  have old: "occurs_at es ls j \<Longrightarrow> j < ?n \<and> length es \<le> length ls" for j using assms by (cases es) (auto simp: occurs_at_def)
  have split: "filter P [0..<Suc (Suc k)] = filter P [0..<Suc k] @ (if P (Suc k) then [Suc k] else [])" for P and k :: nat
    by simp
  show ?thesis
  proof (cases "length es \<le> Suc (length ls) \<and> drop ?n (ls @ [l]) = es")
    case False
    then have "occurs_at es (ls @ [l]) = occurs_at es ls" using new by blast
    moreover have "\<not> occurs_at es ls (Suc (length ls))" using assms by (auto simp: occurs_at_def)
    ultimately show ?thesis using False by (simp add: occurrences_def)
  next
    case True
    have n: "?n \<le> length ls" using assms True by (cases es) auto
    have ids: "[0..<Suc (length (ls @ [l]))] = [0..<?n] @ [?n] @ [Suc ?n..<Suc (Suc (length ls))]"
      "[0..<Suc (length ls)] = [0..<?n] @ [?n] @ [Suc ?n..<Suc (length ls)]"
      using split_upt [of ?n "Suc (length ls)"] split_upt [OF n] n by simp_all
    have "filter (occurs_at es (ls @ [l])) [0..<?n] = filter (occurs_at es ls) [0..<?n]"
      by (rule filter_cong) (auto simp: new)
    moreover have "filter (occurs_at es (ls @ [l])) [Suc ?n..<Suc (Suc (length ls))] = []"
      "filter (occurs_at es ls) ([?n] @ [Suc ?n..<Suc (length ls)]) = []"
      using old by (fastforce simp: filter_empty_conv new)+
    moreover have "occurs_at es (ls @ [l]) ?n" using new True by blast
    ultimately show ?thesis using True unfolding occurrences_def ids by simp
  qed
qed

lemma occurrences_append: "es \<noteq> [] \<Longrightarrow> \<exists>more. occurrences es (ls @ ms) = occurrences es ls @ more"
proof (induction ms rule: rev_induct)
  case (snoc m ms)
  then obtain more where "occurrences es (ls @ ms) = occurrences es ls @ more" by blast
  then show ?case using occurrences_snoc [OF snoc.prems, of "ls @ ms" m] by simp
qed simp

lemma window_matches_occurrences:
  assumes "es \<noteq> []" and "length (occurrences es pre) \<le> 5"
  shows "window_matches es (drop (length pre - length es) pre) (length pre) (occurrences es pre) raws =
    take 6 (occurrences es (pre @ map strip_line_ending raws))"
  using assms(2)
proof (induction raws arbitrary: pre)
  case (Cons raw raws)
  let ?l = "strip_line_ending raw" and ?w = "drop (length pre - length es) pre"
  let ?pre = "pre @ [?l]"
  have w: "next_window es ?w raw = drop (length ?pre - length es) ?pre"
  proof (cases "length es \<le> length pre")
    case True
    then have "tl (drop (length pre - length es) (pre @ [?l])) = drop (Suc (length pre) - length es) (pre @ [?l])"
      by (simp add: Suc_diff_le drop_Suc tl_drop del: drop_append)
    then have "tl (drop (length pre - length es) pre @ [?l]) = drop (Suc (length pre) - length es) (pre @ [?l])" by simp
    then show ?thesis using True by (simp add: next_window_def Let_def)
  qed (auto simp: next_window_def Let_def)
  have m: "note_match es (drop (length ?pre - length es) ?pre) (length pre) (occurrences es pre) = occurrences es ?pre"
    using occurrences_snoc [OF assms(1), of pre ?l] by (auto simp: note_match_def)
  show ?case
  proof (cases "5 < length (occurrences es ?pre)")
    case True
    then have "length (occurrences es ?pre) = 6"
      using Cons.prems occurrences_snoc [OF assms(1), of pre ?l] by (auto split: if_splits)
    moreover obtain more where "occurrences es (?pre @ map strip_line_ending raws) = occurrences es ?pre @ more"
      using occurrences_append [OF assms(1)] by blast
    ultimately have "take 6 (occurrences es (?pre @ map strip_line_ending raws)) = occurrences es ?pre" by simp
    then show ?thesis using True unfolding window_matches.simps w m by simp
  next
    case False
    then have "window_matches es (drop (length ?pre - length es) ?pre) (length ?pre) (occurrences es ?pre) raws =
        take 6 (occurrences es (?pre @ map strip_line_ending raws))"
      by (intro Cons.IH) simp
    moreover have "length ?pre = Suc (length pre)" by simp
    ultimately show ?thesis using False unfolding window_matches.simps w m by simp
  qed
qed (use assms in simp)

lemma find_unique_iff:
  assumes "es \<noteq> []"
  shows "find_unique_hunk_offset raws es path header = Inr n \<longleftrightarrow>
    (\<exists>j. occurrences es (map strip_line_ending raws) = [j] \<and> n = int j)"
proof -
  let ?o = "occurrences es (map strip_line_ending raws)"
  have none: "occurrences es [] = []" using assms by (cases es) (simp_all add: occurrences_def occurs_at_def)
  have w: "window_matches es [] 0 [] raws = take 6 ?o"
    using window_matches_occurrences [OF assms, of "[]" raws] none by simp
  show ?thesis
    using assms unfolding find_unique_hunk_offset_def w
    by (cases ?o; cases "tl ?o") auto
qed

lemma match_from_inside:
  "old \<le> current \<Longrightarrow> nat (current - old) \<le> length es \<Longrightarrow> match_from current old es raws \<longleftrightarrow>
     length es - nat (current - old) < length raws \<and>
     take (length es - nat (current - old)) (map strip_line_ending raws) = drop (nat (current - old)) es"
proof (induction raws arbitrary: current)
  case (Cons raw raws)
  let ?k = "nat (current - old)"
  show ?case
  proof (cases "?k = length es")
    case True
    then have "int (length es) \<le> current - old" using Cons.prems(1) by linarith
    then show ?thesis using True Cons.prems by simp
  next
    case False
    then have k: "?k < length es" using Cons.prems by simp
    have suc: "nat (current + 1 - old) = Suc ?k" using Cons.prems(1) by simp
    have "\<not> int (length es) \<le> current - old" using k by linarith
    moreover have "drop ?k es = es ! ?k # drop (Suc ?k) es" using k by (simp add: Cons_nth_drop_Suc)
    moreover have "length es - ?k = Suc (length es - Suc ?k)" using k by simp
    ultimately show ?thesis using Cons.IH [of "current + 1"] Cons.prems k by (auto simp: suc)
  qed
qed simp

lemma match_from_before:
  "current \<le> old \<Longrightarrow> es \<noteq> [] \<Longrightarrow> match_from current old es raws \<longleftrightarrow>
     nat (old - current) + length es < length raws \<and>
     take (length es) (drop (nat (old - current)) (map strip_line_ending raws)) = es"
proof (induction raws arbitrary: current)
  case (Cons raw raws)
  show ?case
  proof (cases "current = old")
    case True
    then show ?thesis using match_from_inside [of old current es "raw # raws"] by simp
  next
    case False
    then have "nat (old - current) = Suc (nat (old - (current + 1)))" using Cons.prems(1) by simp
    then show ?thesis using Cons.IH [of "current + 1"] Cons.prems False by simp
  qed
qed simp

text \<open>A hunk matches at its place only if a line of the file is behind it.\<close>

lemma stream_lines_match_iff:
  assumes "0 \<le> old" and "es \<noteq> []"
  shows "stream_lines_match_at raws old es \<longleftrightarrow>
    occurs_at es (map strip_line_ending raws) (nat old) \<and> nat old + length es < length raws"
  using assms match_from_before [of 0 old es raws] by (auto simp: stream_lines_match_at_def occurs_at_def)

section \<open>Applying a patch to a file\<close>

abbreviation raws_of :: "string \<Rightarrow> string list" where
  "raws_of content \<equiv> raw_lines (universal_newlines content)"

text \<open>A hunk stays where it says it is, or moves to the only place where its lines occur.\<close>

definition placed :: "string list \<Rightarrow> patch_hunk \<Rightarrow> patch_hunk \<Rightarrow> bool" where
  "placed ls h g =
     (\<exists>n. g = h\<lparr>ph_old_index := n\<rparr> \<and> (n = ph_old_index h \<or> (\<exists>j. occurrences (ph_remove h) ls = [j] \<and> n = int j)))"

lemma resolve_hunk_placed: "resolve_hunk (raws_of content) path h = Inr g \<Longrightarrow> placed (file_lines content) h g"
proof -
  assume g: "resolve_hunk (raws_of content) path h = Inr g"
  show ?thesis
  proof (cases "ph_remove h \<noteq> [] \<and> \<not> stream_lines_match_at (raws_of content) (ph_old_index h) (ph_remove h)")
    case True
    then show ?thesis using g by (auto simp: resolve_hunk_def placed_def and_then_eq_Inr find_unique_iff file_lines_def)
  next
    case False
    then have "g = h" using g by (auto simp: resolve_hunk_def split: if_splits)
    moreover have "h = h\<lparr>ph_old_index := ph_old_index h\<rparr>" by (cases h) simp
    ultimately show ?thesis unfolding placed_def by blast
  qed
qed

lemma apply_file_patch_iff:
  "apply_file_patch fp content = Inr out \<longleftrightarrow>
     (\<exists>hs. resolve_patch_hunk_offsets (raws_of content) fp = Inr hs \<and>
        (\<forall>h \<in> set hs. fits 0 (file_lines content) h) \<and> out = unlines (splice_all 0 hs (file_lines content)))"
proof -
  have "rewrite_stream (fp_path fp) 0 hs (raws_of content) = Inr ls \<longleftrightarrow>
      (\<forall>h \<in> set hs. fits 0 (file_lines content) h) \<and> ls = splice_all 0 hs (file_lines content)"
    if "resolve_patch_hunk_offsets (raws_of content) fp = Inr hs" for hs ls
  proof -
    have "check_overlaps (fp_path fp) 0 hs = Inr ()"
      using that by (auto simp: resolve_patch_hunk_offsets_def Let_def and_then_eq_Inr)
    from rewrite_splices [OF this, of "raws_of content"] show ?thesis unfolding file_lines_def by auto
  qed
  then show ?thesis by (auto simp: apply_file_patch_def Let_def and_then_eq_Inr)
qed

text \<open>
  C36: The pass over the file computes the reference: a patch of a file succeeds exactly if its
  hunks can be placed without overlap and each of them finds there the lines it removes, and then
  the new file is the old one with every hunk's removed lines replaced by its added ones, from
  the last hunk to the first; every other line is as it was.  Each hunk is at the place its header
  names or at the only place where its lines occur.
\<close>
theorem patched_file_is_spliced:
  "apply_file_patch fp content = Inr out \<longleftrightarrow>
     (\<exists>hs. list_all2 (\<lambda>h r. resolve_hunk (raws_of content) (fp_path fp) h = Inr r \<and> placed (file_lines content) h r)
             (fp_hunks fp) hs \<and>
        check_overlaps (fp_path fp) 0 (sort_key ph_old_index hs) = Inr () \<and>
        list_all (fits 0 (file_lines content)) hs \<and>
        out = unlines (splice_all 0 (sort_key ph_old_index hs) (file_lines content)))"
proof -
  have "(\<lambda>h r. resolve_hunk (raws_of content) (fp_path fp) h = Inr r \<and> placed (file_lines content) h r) =
      (\<lambda>h r. resolve_hunk (raws_of content) (fp_path fp) h = Inr r)"
    using resolve_hunk_placed by (intro ext) blast
  then have "list_all2 (\<lambda>h r. resolve_hunk (raws_of content) (fp_path fp) h = Inr r \<and> placed (file_lines content) h r)
      (fp_hunks fp) hs \<longleftrightarrow> each_then (resolve_hunk (raws_of content) (fp_path fp)) (fp_hunks fp) = Inr hs" for hs
    by (simp add: each_then_Inr)
  then show ?thesis unfolding apply_file_patch_iff resolve_patch_hunk_offsets_def
    by (auto simp: Let_def and_then_eq_Inr list_all_iff)
qed

section \<open>The text of a patch\<close>

text \<open>A unified diff as data, and its text.\<close>

datatype diff_line = Context string | Removed string | Added string

fun render_line :: "diff_line \<Rightarrow> string" where
  "render_line (Context l) = CHR '' '' # l"
| "render_line (Removed l) = CHR ''-'' # l"
| "render_line (Added l) = CHR ''+'' # l"

fun old_lines :: "diff_line list \<Rightarrow> string list" where
  "old_lines [] = []"
| "old_lines (Context l # b) = l # old_lines b"
| "old_lines (Removed l # b) = l # old_lines b"
| "old_lines (Added l # b) = old_lines b"

fun new_lines :: "diff_line list \<Rightarrow> string list" where
  "new_lines [] = []"
| "new_lines (Context l # b) = l # new_lines b"
| "new_lines (Removed l # b) = new_lines b"
| "new_lines (Added l # b) = l # new_lines b"

record diff_hunk =
  dh_old_start :: nat
  dh_new_start :: nat
  dh_body :: "diff_line list"

definition render_header :: "diff_hunk \<Rightarrow> string" where
  "render_header h =
     ''@@ -'' @ nat_str (dh_old_start h) @ '','' @ nat_str (length (old_lines (dh_body h))) @
     '' +'' @ nat_str (dh_new_start h) @ '','' @ nat_str (length (new_lines (dh_body h))) @ '' @@''"

definition render_hunk :: "diff_hunk \<Rightarrow> string list" where
  "render_hunk h = render_header h # map render_line (dh_body h)"

definition render_file :: "string \<times> diff_hunk list \<Rightarrow> string list" where
  "render_file f = (''--- a/'' @ fst f) # (''+++ b/'' @ fst f) # concat (map render_hunk (snd f))"

definition render_patch :: "(string \<times> diff_hunk list) list \<Rightarrow> string" where
  "render_patch fs = unlines (concat (map render_file fs))"

definition hunk_of :: "diff_hunk \<Rightarrow> patch_hunk" where
  "hunk_of h = \<lparr>ph_old_index = int (dh_old_start h) - 1, ph_remove = old_lines (dh_body h), ph_add = new_lines (dh_body h),
     ph_header = render_header h\<rparr>"

definition file_patch_of :: "string \<times> diff_hunk list \<Rightarrow> file_patch" where
  "file_patch_of f = \<lparr>fp_path = fst f, fp_hunks = map hunk_of (snd f)\<rparr>"

text \<open>No line has a line break of its own, and no removed line starts with two dashes and a blank.\<close>

fun diff_line_ok :: "diff_line \<Rightarrow> bool" where
  "diff_line_ok (Context l) = one_line l"
| "diff_line_ok (Removed l) = (one_line l \<and> \<not> startswith l ''-- '')"
| "diff_line_ok (Added l) = one_line l"

definition diff_hunk_ok :: "diff_hunk \<Rightarrow> bool" where
  "diff_hunk_ok h = (list_all diff_line_ok (dh_body h) \<and> length (nat_str (dh_old_start h)) \<le> 4300)"

definition diff_path_ok :: "string \<Rightarrow> bool" where
  "diff_path_ok p =
     (p \<noteq> [] \<and> one_line p \<and> CHR 0x09 \<notin> set p \<and> \<not> is_space (last p) \<and> \<not> startswith p ''/'' \<and> ''..'' \<notin> set (path_parts p))"

definition diff_ok :: "(string \<times> diff_hunk list) list \<Rightarrow> bool" where
  "diff_ok fs = (fs \<noteq> [] \<and> list_all (\<lambda>f. diff_path_ok (fst f) \<and> list_all diff_hunk_ok (snd f)) fs)"

lemma render_line_plain:
  assumes "diff_line_ok l"
  shows "\<not> ends_hunk (render_line l)" and "render_line l \<noteq> no_newline_mark"
  using assms by (cases l; simp add: ends_hunk_def no_newline_mark_def)+

lemma parse_body_render:
  assumes "list_all diff_line_ok b" and "rest = [] \<or> ends_hunk (hd rest)"
  shows "parse_body (map render_line b @ rest) = Inr (old_lines b, new_lines b, rest)"
  using assms(1)
proof (induction b)
  case Nil
  then show ?case using assms(2) by (cases rest) auto
next
  case (Cons l b)
  then have l: "\<not> ends_hunk (render_line l)" "render_line l \<noteq> no_newline_mark" using render_line_plain by auto
  then show ?case using Cons by (cases l) (simp_all add: ends_hunk_def)
qed

lemma digits_nat_str: "\<forall>c \<in> set (nat_str n). is_digit c"
proof (induction n rule: nat_str.induct)
  case (1 n)
  then show ?case by (cases "n < 10") (auto simp: nat_str.simps [of n])
qed

lemma hunk_number_str: "s = [] \<or> \<not> is_digit (hd s) \<Longrightarrow> hunk_number (nat_str n @ s) = Some (nat_str n, s)"
proof -
  assume s: "s = [] \<or> \<not> is_digit (hd s)"
  have "takeWhile is_digit s = []" "dropWhile is_digit s = s" using s by (cases s; simp)+
  moreover have "nat_str n \<noteq> []" by (subst nat_str.simps) simp
  ultimately show ?thesis using digits_nat_str [of n]
    by (simp add: hunk_number_def takeWhile_append2 dropWhile_append2)
qed

lemma opt_count_str: "s = [] \<or> \<not> is_digit (hd s) \<Longrightarrow> opt_count (CHR '','' # nat_str n @ s) = Some s"
  using hunk_number_str [of s n] by (auto simp: opt_count_def hunk_number_def split: if_splits)

lemma hunk_start_render: "length (nat_str (dh_old_start h)) \<le> 4300 \<Longrightarrow> hunk_start (render_header h) = Inr (int (dh_old_start h) - 1)"
proof -
  assume n: "length (nat_str (dh_old_start h)) \<le> 4300"
  have "match_header (render_header h) = Some (nat_str (dh_old_start h))"
    unfolding match_header_def render_header_def
    by (simp add: hunk_number_str opt_count_str is_digit_def)
  then show ?thesis using n by (simp add: hunk_start_def)
qed

lemma render_header_ends: "ends_hunk (render_header h)" "startswith (render_header h) ''@@''"
  by (simp_all add: ends_hunk_def render_header_def)

lemma parse_hunks_render:
  assumes "list_all diff_hunk_ok hs" and "rest = [] \<or> startswith (hd rest) ''--- ''"
  shows "parse_hunks (concat (map render_hunk hs) @ rest) = Inr (map hunk_of hs, rest)"
  using assms(1)
proof (induction hs)
  case Nil
  then show ?case using assms(2) by (cases rest) (auto simp: startswith_iff)
next
  case (Cons h hs)
  let ?more = "concat (map render_hunk hs) @ rest"
  have "?more = [] \<or> ends_hunk (hd ?more)"
    using assms(2) render_header_ends(1) by (cases hs) (auto simp: ends_hunk_def render_hunk_def)
  then have b: "parse_body (map render_line (dh_body h) @ ?more) = Inr (old_lines (dh_body h), new_lines (dh_body h), ?more)"
    using Cons.prems by (intro parse_body_render) (auto simp: diff_hunk_ok_def)
  have s: "hunk_start (render_header h) = Inr (int (dh_old_start h) - 1)"
    using Cons.prems by (intro hunk_start_render) (simp add: diff_hunk_ok_def)
  have "concat (map render_hunk (h # hs)) @ rest = render_header h # map render_line (dh_body h) @ ?more"
    by (simp add: render_hunk_def)
  moreover have "hunk_of h = \<lparr>ph_old_index = int (dh_old_start h) - 1, ph_remove = old_lines (dh_body h),
      ph_add = new_lines (dh_body h), ph_header = render_header h\<rparr>" by (rule hunk_of_def)
  ultimately show ?case using Cons.IH Cons.prems b s render_header_ends(2) [of h] by simp
qed

lemma strip_id: "s \<noteq> [] \<Longrightarrow> \<not> is_space (hd s) \<Longrightarrow> \<not> is_space (last s) \<Longrightarrow> strip s = s"
  by (cases s rule: rev_cases) (auto simp: strip_def rstrip_def lstrip_id)

lemma header_path_render:
  assumes "diff_path_ok p"
  shows "header_path (''--- a/'' @ p) = Inr p" and "header_path (''+++ b/'' @ p) = Inr p"
proof -
  have p: "p \<noteq> []" "CHR 0x09 \<notin> set p" "\<not> is_space (last p)" "\<not> startswith p ''/''" "''..'' \<notin> set (path_parts p)"
    using assms by (simp_all add: diff_path_ok_def)
  have tab: "takeWhile (\<lambda>c. c \<noteq> CHR 0x09) p = p" using p(2) unfolding takeWhile_eq_all_conv by fastforce
  have s: "strip (CHR ''a'' # CHR ''/'' # p) = CHR ''a'' # CHR ''/'' # p" "strip (CHR ''b'' # CHR ''/'' # p) = CHR ''b'' # CHR ''/'' # p"
    using p by (auto intro!: strip_id simp: is_space_def)
  have path: "\<not> pp_absolute (make_path p)" "''..'' \<notin> set (pp_parts (make_path p))" using p by (simp_all add: make_path_def)
  show "header_path (''--- a/'' @ p) = Inr p" and "header_path (''+++ b/'' @ p) = Inr p"
    by (simp_all add: header_path_def patch_path_def Let_def tab s path)
qed

lemma parse_files_render:
  assumes "list_all (\<lambda>f. diff_path_ok (fst f) \<and> list_all diff_hunk_ok (snd f)) fs"
  shows "parse_files (concat (map render_file fs)) = Inr (map file_patch_of fs)"
  using assms
proof (induction fs)
  case (Cons f fs)
  let ?more = "concat (map render_file fs)"
  have "?more = [] \<or> startswith (hd ?more) ''--- ''" by (cases fs) (auto simp: render_file_def)
  then have "parse_hunks (concat (map render_hunk (snd f)) @ ?more) = Inr (map hunk_of (snd f), ?more)"
    using Cons.prems by (intro parse_hunks_render) simp_all
  moreover have "concat (map render_file (f # fs)) =
      (''--- a/'' @ fst f) # (''+++ b/'' @ fst f) # concat (map render_hunk (snd f)) @ ?more"
    by (simp add: render_file_def)
  moreover have "file_patch_of f = \<lparr>fp_path = fst f, fp_hunks = map hunk_of (snd f)\<rparr>" by (rule file_patch_of_def)
  ultimately show ?case using Cons.IH Cons.prems header_path_render [of "fst f"] by simp
qed simp

lemma render_one_line:
  assumes "diff_path_ok (fst f) \<and> list_all diff_hunk_ok (snd f)" and "l \<in> set (render_file f)"
  shows "one_line l"
proof -
  have number: "one_line (nat_str n)" for n
    using digits_nat_str [of n] by (auto simp: one_line_def is_line_break_def is_digit_def)
  have "one_line (render_header h)" for h by (simp add: render_header_def number is_line_break_def)
  moreover have "one_line (render_line d)" if "diff_line_ok d" for d
    using that by (cases d) (simp_all add: is_line_break_def)
  moreover have "one_line (fst f)" using assms(1) by (simp add: diff_path_ok_def)
  ultimately show ?thesis using assms
    by (auto simp: render_file_def render_hunk_def diff_hunk_ok_def list_all_iff is_line_break_def)
qed

text \<open>
  C37: A unified diff is read back from its text: files with their paths, and for each hunk its
  place, the lines it removes and the lines it adds, in their order, provided that no removed line
  starts with two dashes and a blank.
\<close>
theorem patch_text_roundtrip:
  assumes "diff_ok fs"
  shows "parse_unified_patch (render_patch fs) = Inr (map file_patch_of fs)"
proof -
  have ok: "list_all (\<lambda>f. diff_path_ok (fst f) \<and> list_all diff_hunk_ok (snd f)) fs" using assms by (simp add: diff_ok_def)
  then have "\<forall>l \<in> set (concat (map render_file fs)). one_line l"
    using render_one_line by (fastforce simp: list_all_iff)
  then have "splitlines (render_patch fs) = concat (map render_file fs)"
    unfolding render_patch_def unlines_def by (rule splitlines_unlines)
  then show ?thesis using parse_files_render [OF ok] assms by (simp add: parse_unified_patch_def diff_ok_def)
qed

definition demo_diff :: "(string \<times> diff_hunk list) list" where
  "demo_diff =
     [(''src/a.py'', [\<lparr>dh_old_start = 2, dh_new_start = 2,
        dh_body = [Context ''b'', Removed ''c'', Added ''C'', Added ''D'']\<rparr>])]"

theorem patch_text_roundtrip_witness:
  "parse_unified_patch (render_patch demo_diff) =
     Inr [\<lparr>fp_path = ''src/a.py'', fp_hunks = [\<lparr>ph_old_index = 1, ph_remove = [''b'', ''c''],
       ph_add = [''b'', ''C'', ''D''], ph_header = ''@@ -2,2 +2,3 @@''\<rparr>]\<rparr>]"
proof -
  have "diff_ok demo_diff" by code_simp
  moreover have "map file_patch_of demo_diff = [\<lparr>fp_path = ''src/a.py'', fp_hunks = [\<lparr>ph_old_index = 1, ph_remove = [''b'', ''c''],
       ph_add = [''b'', ''C'', ''D''], ph_header = ''@@ -2,2 +2,3 @@''\<rparr>]\<rparr>]" by code_simp
  ultimately show ?thesis using patch_text_roundtrip [of demo_diff] by simp
qed

section \<open>Hunks that are not applied as meant\<close>

lemma find_unique_error:
  assumes "es \<noteq> []" and "\<forall>j. occurrences es (map strip_line_ending raws) \<noteq> [j]"
  shows "\<exists>e. find_unique_hunk_offset raws es path header = Inl (PatchError e)"
proof -
  have "find_unique_hunk_offset raws es path header \<noteq> Inr n" for n using assms find_unique_iff [OF assms(1)] by auto
  moreover have "\<exists>n. find_unique_hunk_offset raws es path header = Inr n \<or>
      (\<exists>e. find_unique_hunk_offset raws es path header = Inl (PatchError e))"
    by (auto simp: find_unique_hunk_offset_def split: list.split)
  ultimately show ?thesis by blast
qed

lemma two_occurrences:
  assumes "occurs_at es ls i" and "occurs_at es ls j" and "i \<noteq> j"
  shows "occurrences es ls \<noteq> [k]"
proof
  assume "occurrences es ls = [k]"
  then have "set (occurrences es ls) = {k}" by simp
  moreover have "i \<in> set (occurrences es ls)" "j \<in> set (occurrences es ls)"
    using assms(1,2) by (auto simp: occurrences_def occurs_at_def simp del: upt_Suc)
  ultimately show False using assms(3) by auto
qed

lemma length_file_lines: "length (raws_of content) = length (file_lines content)"
  by (simp add: file_lines_def)

lemma apply_one_hunk:
  assumes "resolve_hunk (raws_of content) path h = Inr h" and "fits 0 (file_lines content) h"
  shows "apply_file_patch \<lparr>fp_path = path, fp_hunks = [h]\<rparr> content = Inr (unlines (splice 0 h (file_lines content)))"
proof -
  have "resolve_patch_hunk_offsets (raws_of content) \<lparr>fp_path = path, fp_hunks = [h]\<rparr> = Inr [h]"
    using assms by (simp add: resolve_patch_hunk_offsets_def fits_def)
  then show ?thesis using assms(2) by (simp add: apply_file_patch_iff)
qed

text \<open>
  A hunk that ends with the last line of the file is never found at the place its header
  names: it is looked for in the whole file, and when its lines also occur elsewhere the patch is
  refused, although it matches where it says.  With one more line behind it the same hunk is
  applied.
\<close>
theorem hunk_at_end_of_file_is_refused:
  assumes "ph_remove h \<noteq> []" and "0 \<le> ph_old_index h"
    and "occurs_at (ph_remove h) (file_lines content) (nat (ph_old_index h))"
    and "nat (ph_old_index h) + length (ph_remove h) = length (file_lines content)"
    and "occurs_at (ph_remove h) (file_lines content) j" and "j \<noteq> nat (ph_old_index h)"
    and "file_lines longer = file_lines content @ [l]"
  shows "(\<exists>e. apply_file_patch \<lparr>fp_path = path, fp_hunks = [h]\<rparr> content = Inl (PatchError e)) \<and>
    apply_file_patch \<lparr>fp_path = path, fp_hunks = [h]\<rparr> longer = Inr (unlines (splice 0 h (file_lines longer)))"
proof
  have "\<not> stream_lines_match_at (raws_of content) (ph_old_index h) (ph_remove h)"
    using stream_lines_match_iff [OF assms(2,1)] assms(4) length_file_lines [of content] by simp
  moreover obtain e where "find_unique_hunk_offset (raws_of content) (ph_remove h) path (ph_header h) = Inl (PatchError e)"
    using find_unique_error [OF assms(1)] two_occurrences [OF assms(3,5)] assms(6) unfolding file_lines_def by metis
  ultimately show "\<exists>e. apply_file_patch \<lparr>fp_path = path, fp_hunks = [h]\<rparr> content = Inl (PatchError e)"
    using assms(1) by (simp add: apply_file_patch_def resolve_patch_hunk_offsets_def resolve_hunk_def)
next
  have at: "occurs_at (ph_remove h) (file_lines longer) (nat (ph_old_index h))"
    using assms(3,4,7) by (simp add: occurs_at_append)
  then have "stream_lines_match_at (raws_of longer) (ph_old_index h) (ph_remove h)"
    using stream_lines_match_iff [OF assms(2,1)] assms(4,7) length_file_lines [of longer] by (simp add: file_lines_def)
  then have "resolve_hunk (raws_of longer) path h = Inr h" by (simp add: resolve_hunk_def)
  moreover have "fits 0 (file_lines longer) h" using at assms(2) by (simp add: fits_def occurs_at_def)
  ultimately show "apply_file_patch \<lparr>fp_path = path, fp_hunks = [h]\<rparr> longer = Inr (unlines (splice 0 h (file_lines longer)))"
    by (rule apply_one_hunk)
qed

theorem hunk_at_end_of_file_is_refused_witness:
  "\<exists>e. apply_file_patch \<lparr>fp_path = ''f'', fp_hunks = [\<lparr>ph_old_index = 2, ph_remove = [''end''], ph_add = [], ph_header = []\<rparr>]\<rparr>
     (unlines [''end'', ''x'', ''end'']) = Inl (PatchError e)"
proof -
  have a: "file_lines (unlines [''end'', ''x'', ''end'']) = [''end'', ''x'', ''end'']"
    "file_lines (unlines [''end'', ''x'', ''end'', ''y'']) = [''end'', ''x'', ''end''] @ [''y'']" by code_simp+
  show ?thesis
    by (rule conjunct1 [OF hunk_at_end_of_file_is_refused [where j = 0 and l = "''y''" and
          longer = "unlines [''end'', ''x'', ''end'', ''y'']"]]) (simp_all add: a occurs_at_def del: unlines_simps)
qed

text \<open>
  A hunk without context that only adds lines: \<open>@@ -n,0 +m,k @@\<close> puts them in front of line
  \<open>n\<close> of the file, where a unified diff means behind it, and with \<open>n\<close> zero, the way a diff adds
  lines at the start of a file, the patch is refused as overlapping.
\<close>
theorem insertion_without_context:
  assumes "old_lines (dh_body h) = []"
  shows "apply_file_patch \<lparr>fp_path = path, fp_hunks = [hunk_of h]\<rparr> content =
    (if dh_old_start h = 0
     then Inl (PatchError (''overlapping hunks are not supported: '' @ path @ ''; '' @ render_header h))
     else if dh_old_start h \<le> Suc (length (file_lines content))
     then Inr (unlines (take (dh_old_start h - 1) (file_lines content) @ new_lines (dh_body h) @
                        drop (dh_old_start h - 1) (file_lines content)))
     else Inl (PatchError (mismatch path (render_header h))))"
proof -
  let ?h = "hunk_of h" and ?fp = "\<lparr>fp_path = path, fp_hunks = [hunk_of h]\<rparr>"
  have h: "ph_old_index ?h = int (dh_old_start h) - 1" "ph_remove ?h = []" "ph_add ?h = new_lines (dh_body h)"
    "ph_header ?h = render_header h"
    using assms by (simp_all add: hunk_of_def)
  then have r: "resolve_hunk raws path ?h = Inr ?h" for raws by (simp add: resolve_hunk_def)
  consider "dh_old_start h = 0" | "dh_old_start h \<noteq> 0" "dh_old_start h \<le> Suc (length (file_lines content))"
    | "Suc (length (file_lines content)) < dh_old_start h" by linarith
  then show ?thesis
  proof cases
    case 1
    then show ?thesis using r h by (simp add: apply_file_patch_def resolve_patch_hunk_offsets_def)
  next
    case 2
    then have n: "nat (int (dh_old_start h) - 1) = dh_old_start h - 1" by simp
    have "fits 0 (file_lines content) ?h" using 2 h by (simp add: fits_def)
    from apply_one_hunk [OF r this] show ?thesis using 2 h by (simp add: splice_def n)
  next
    case 3
    have "rewrite_stream path current [?h] raws = Inl (PatchError (mismatch path (render_header h)))"
      if "current + int (length raws) < ph_old_index ?h" for current raws
      using that
    proof (induction raws arbitrary: current)
      case (Cons raw raws)
      then show ?case using Cons.IH [of "current + 1"] by auto
    qed (use h in simp)
    moreover have "0 + int (length (raws_of content)) < ph_old_index ?h" using 3 h by (simp add: length_file_lines)
    ultimately show ?thesis using 3 r h by (simp add: apply_file_patch_def resolve_patch_hunk_offsets_def)
  qed
qed

theorem insertion_without_context_witness:
  "apply_file_patch \<lparr>fp_path = ''f'', fp_hunks = [hunk_of \<lparr>dh_old_start = 1, dh_new_start = 2, dh_body = [Added ''new'']\<rparr>]\<rparr>
     (unlines [''first'', ''second'']) = Inr (unlines [''new'', ''first'', ''second''])"
proof -
  have a: "file_lines (unlines [''first'', ''second'']) = [''first'', ''second'']" by code_simp
  show ?thesis
    using insertion_without_context [of "\<lparr>dh_old_start = 1, dh_new_start = 2, dh_body = [Added ''new'']\<rparr>" "''f''"
        "unlines [''first'', ''second'']"] a by (simp del: unlines_simps)
qed

end
