(* ===== verification/CodeToolProps.thy ===== *)
theory CodeToolProps
  imports CodeTools PatchProps
begin

text \<open>
  What the file tools do to the files: they stay inside the workspace, an overwrite never destroys
  text the model has not seen, an edit replaces the only place of its text, and a patch of several
  files is not all or nothing.
\<close>

section \<open>Changes of the files\<close>

lemma node_at_put [simp]: "p \<noteq> [] \<Longrightarrow> node_at (put_node p n w) q = (if q = p then Some n else node_at w q)"
  by (simp add: node_at_def put_node_def)

lemma node_at_put_root: "node_at (put_node [] n w) q = node_at w q"
  by (simp add: node_at_def put_node_def)

lemma node_at_put_other: "q \<noteq> p \<Longrightarrow> node_at (put_node p n w) q = node_at w q"
  by (simp add: node_at_def put_node_def)

lemma node_at_seen [simp]:
  "node_at (observe p v w) q = node_at w q"
  "node_at (unobserve p w) q = node_at w q"
  by (simp_all add: node_at_def observe_def unobserve_def)

lemma node_at_unobserve_all [simp]: "node_at (fold (\<lambda>t. unobserve (snd t)) ts w) q = node_at w q"
  by (induction ts arbitrary: w) simp_all

text \<open>A path the workspace lets through.\<close>

definition allowed :: "file_system \<Rightarrow> code_workspace \<Rightarrow> string list \<Rightarrow> bool" where
  "allowed fs ws p =
     (\<exists>root. containing_root ws p = Some root \<and> unprotected fs root p (wk_protected ws) = Inr ())"

lemma check_path_allowed: "check_path fs ws path = Inr p \<Longrightarrow> allowed fs ws p"
  by (auto simp: check_path_def allowed_def and_then_eq_Inr split: option.splits)

lemma unprotected_iff:
  "unprotected fs root p ps = Inr () \<longleftrightarrow>
     (\<forall>q \<in> set ps. \<exists>r. resolve_in fs (join_path \<lparr>pp_absolute = True, pp_parts = root\<rparr> q) = Inr r \<and> \<not> is_relative_to p r)"
  by (induction ps) (auto simp: and_then_eq_Inr path_result_def split: sum.splits if_splits)

text \<open>A change of allowed paths, and new directories above them.\<close>

definition confined :: "file_system \<Rightarrow> code_workspace \<Rightarrow> code_world \<Rightarrow> code_world \<Rightarrow> bool" where
  "confined fs ws w w' =
     (\<forall>p. node_at w' p \<noteq> node_at w p \<longrightarrow>
        allowed fs ws p \<or>
        node_at w p = None \<and> node_at w' p = Some Directory \<and> (\<exists>t. allowed fs ws t \<and> p \<in> set (parents t)))"

lemma confined_same: "(\<And>p. node_at w' p = node_at w p) \<Longrightarrow> confined fs ws w w'"
  by (simp add: confined_def)

lemma confined_trans:
  assumes "confined fs ws w1 w2" and "confined fs ws w2 w3"
  shows "confined fs ws w1 w3"
  unfolding confined_def
proof (intro allI impI)
  fix p assume c: "node_at w3 p \<noteq> node_at w1 p"
  show "allowed fs ws p \<or> node_at w1 p = None \<and> node_at w3 p = Some Directory \<and> (\<exists>t. allowed fs ws t \<and> p \<in> set (parents t))"
  proof (cases "node_at w2 p = node_at w1 p")
    case True
    then show ?thesis using assms(2) c unfolding confined_def by metis
  next
    case False
    then show ?thesis using assms c unfolding confined_def by (metis option.distinct(1))
  qed
qed

lemma confined_put: "allowed fs ws p \<Longrightarrow> confined fs ws w (put_node p n w)"
  unfolding confined_def using node_at_put_other by metis

lemma confined_make_parents:
  assumes "allowed fs ws p"
  shows "confined fs ws w (snd (make_parents p w))"
proof -
  have "confined fs ws w (fold (\<lambda>q w. if node_at w q = None then put_node q Directory w else w) qs w)"
    if "set qs \<subseteq> set (parents p)" for qs w
    using that
  proof (induction qs arbitrary: w)
    case Nil
    then show ?case by (simp add: confined_same)
  next
    case (Cons q qs)
    have "confined fs ws w (if node_at w q = None then put_node q Directory w else w)"
    proof (cases "node_at w q = None")
      case True
      then have "node_at (put_node q Directory w) r \<noteq> node_at w r \<Longrightarrow> r = q" for r using node_at_put_other by metis
      moreover have "node_at (put_node q Directory w) q = Some Directory" by (simp add: node_at_def put_node_def)
      ultimately show ?thesis using True Cons.prems assms unfolding confined_def by auto
    next
      case False
      then show ?thesis by (auto simp: confined_same)
    qed
    from confined_trans [OF this Cons.IH] show ?case using Cons.prems by simp
  qed
  then show ?thesis by (simp add: make_parents_def confined_same)
qed

section \<open>The tools stay in the workspace\<close>

lemma note_read_nodes [simp]: "node_at (note_read digest p start t w) q = node_at w q"
  by (auto simp: note_read_def split: option.split sum.split)

lemma read_one_nodes: "read_one_target fs ws digest args t w = (out, w') \<Longrightarrow> node_at w' q = node_at w q"
  by (auto simp: read_one_target_def split: sum.splits code_error.splits prod.splits)

lemma read_all_nodes: "read_all_targets fs ws digest args ts w = (out, w') \<Longrightarrow> node_at w' q = node_at w q"
proof (induction ts arbitrary: w w' out)
  case (Cons t ts)
  obtain o1 w1 where 1: "read_one_target fs ws digest args t w = (o1, w1)" by fastforce
  obtain o2 w2 where 2: "read_all_targets fs ws digest args ts w1 = (o2, w2)" by fastforce
  show ?case using Cons 1 2 read_one_nodes [OF 1] by (auto split: sum.splits)
qed simp

lemma confined_read: "confined fs ws w (snd (read_tool fs ws digest args w))"
proof -
  obtain out w' where r: "read_all_targets fs ws digest args (read_targets args) w = (out, w')" by fastforce
  then have "snd (read_tool fs ws digest args w) = w \<or> snd (read_tool fs ws digest args w) = w'"
    by (auto simp: read_tool_def split: sum.split list.split)
  then show ?thesis using read_all_nodes [OF r] by (auto intro: confined_same)
qed

lemma confined_seen:
  "confined fs ws w (observe p v w') = confined fs ws w w'"
  "confined fs ws w (unobserve p w') = confined fs ws w w'"
  by (simp_all add: confined_def)

lemma confined_write_file: "allowed fs ws p \<Longrightarrow> confined fs ws w (write_file p content digest w)"
  by (simp add: write_file_def confined_seen confined_put)

lemma confined_write: "confined fs ws w (snd (write_tool fs ws digest args w))"
proof (cases "check_argument fs ws (dget args ''path'')")
  case (Inl e)
  then show ?thesis by (cases e) (simp_all add: write_tool_def confined_same)
next
  case (Inr p)
  then have p: "allowed fs ws p" by (auto simp: check_argument_def intro: check_path_allowed)
  obtain out w1 where m: "make_parents p w = (out, w1)" by fastforce
  have 1: "confined fs ws w w1" using confined_make_parents [OF p, of w] m by simp
  have "confined fs ws w1 (snd (create_file ws digest p c w1))" for c
    using confined_write_file [OF p] by (simp add: create_file_def confined_same)
  moreover have "confined fs ws w1 (snd (overwrite ws digest p c w1))" for c
    using confined_write_file [OF p]
    by (auto simp: overwrite_def confined_same split: sum.split bool.split code_error.split)
  ultimately show ?thesis using m Inr 1 confined_trans [OF 1]
    by (cases out) (simp_all add: write_tool_def)
qed

lemma confined_patch_file: "allowed fs ws p \<Longrightarrow> patch_file fp p w = (out, w') \<Longrightarrow> confined fs ws w w'"
  by (auto simp: patch_file_def confined_same confined_put split: option.splits file_node.splits sum.splits)

lemma confined_patch_files:
  "\<forall>t \<in> set ts. allowed fs ws (snd t) \<Longrightarrow> patch_files ws ts w = (out, w') \<Longrightarrow> confined fs ws w w'"
proof (induction ts arbitrary: w w' out)
  case Nil
  then show ?case by (simp add: confined_same)
next
  case (Cons t ts)
  obtain fp p where t: "t = (fp, p)" by (cases t)
  obtain o1 w1 where 1: "patch_file fp p w = (o1, w1)" by fastforce
  obtain o2 w2 where 2: "patch_files ws ts w1 = (o2, w2)" by fastforce
  have c1: "confined fs ws w w1" using confined_patch_file [OF _ 1] Cons.prems(1) t by simp
  have c2: "confined fs ws w1 w2" using Cons.IH [OF _ 2] Cons.prems(1) by simp
  show ?case using Cons.prems(2) 1 2 t c1 confined_trans [OF c1 c2] by (auto split: sum.splits)
qed

lemma patch_targets_allowed: "patch_targets fs ws base fps = Inr ts \<Longrightarrow> \<forall>t \<in> set ts. allowed fs ws (snd t)"
  unfolding patch_targets_def each_then_Inr
  by (fastforce simp: list_all2_conv_all_nth in_set_conv_nth and_then_eq_Inr intro: check_path_allowed)

lemma confined_patch: "confined fs ws w (snd (patch_tool fs ws args w))"
proof -
  have "confined fs ws w (snd (case patch_files ws ts w of (out, w1) \<Rightarrow>
      let w2 = fold (\<lambda>t. unobserve (snd t)) ts w1 in
      case out of Inl e \<Rightarrow> (patch_failed e, w2)
      | Inr changed \<Rightarrow> (Inr [(''applied'', PBool True), (''files_changed'', PList (map PStr changed))], w2)))"
    if "patch_targets fs ws base fps = Inr ts" for base fps ts
  proof -
    obtain out w1 where p: "patch_files ws ts w = (out, w1)" by fastforce
    have "confined fs ws w w1" by (rule confined_patch_files [OF patch_targets_allowed [OF that] p])
    then show ?thesis using p by (cases out) (simp_all add: Let_def confined_def)
  qed
  then show ?thesis
    by (auto simp: patch_tool_def Let_def and_then_def confined_same split: sum.split code_error.split)
qed

lemma confined_edit: "confined fs ws w (snd (edit_tool fs ws digest args w))"
proof -
  have "confined fs ws w (snd (replace_in_file ws p rs w))" if "check_argument fs ws v = Inr p" for p rs v
  proof -
    have "allowed fs ws p" using that by (auto simp: check_argument_def intro: check_path_allowed)
    then show ?thesis
      by (auto simp: replace_in_file_def confined_same confined_seen confined_put
          split: option.split file_node.split sum.split)
  qed
  then show ?thesis
    by (auto simp: edit_tool_def Let_def confined_same confined_write confined_patch
        split: sum.split code_error.split pyval.split list.split)
qed

lemma confined_call: "confined fs ws w (snd (run_call fs ws digest c w))"
  by (cases c) (simp_all add: confined_read confined_write confined_edit confined_patch)

text \<open>
  C35: Whatever a call of a file tool changes lies in a workspace root and, for the first root it
  lies in, in none of the protected paths resolved against that root; nothing else changes but
  that directories which did not exist are made above such a path.
\<close>
theorem file_tools_stay_in_workspace:
  assumes "run_call fs ws digest c w = (answer, w')" and "node_at w' p \<noteq> node_at w p"
  shows "(\<exists>root. find (is_relative_to p) (wk_roots ws) = Some root \<and>
            list_all (\<lambda>q. case resolve_in fs (join_path \<lparr>pp_absolute = True, pp_parts = root\<rparr> q) of
                            Inl e \<Rightarrow> False | Inr r \<Rightarrow> \<not> is_relative_to p r) (wk_protected ws)) \<or>
    node_at w p = None \<and> node_at w' p = Some Directory \<and> (\<exists>t. allowed fs ws t \<and> p \<in> set (parents t))"
proof -
  have "list_all (\<lambda>q. case resolve_in fs (join_path \<lparr>pp_absolute = True, pp_parts = root\<rparr> q) of
      Inl e \<Rightarrow> False | Inr r \<Rightarrow> \<not> is_relative_to p r) ps" if "unprotected fs root p ps = Inr ()" for root ps
    using that unfolding unprotected_iff list_all_iff by (auto split: sum.split)
  moreover have "confined fs ws w w'" using confined_call [of fs ws w digest c] assms(1) by simp
  ultimately show ?thesis using assms(2) unfolding confined_def allowed_def containing_root_def by metis
qed

definition demo_workspace :: code_workspace where
  "demo_workspace = \<lparr>wk_roots = [[''ws'']], wk_protected = map make_path DEFAULT_PROTECTED_PATHS, wk_max_read_chars = 20000\<rparr>"

definition demo_digest :: "file_node \<Rightarrow> string" where
  "demo_digest n = (case n of TextFile s \<Rightarrow> s | _ \<Rightarrow> [])"

definition demo_files :: code_world where
  "demo_files = \<lparr>cw_nodes = [([''ws''], Directory), ([''ws'', ''a''], TextFile ''one'')], cw_seen = []\<rparr>"

definition demo_create :: "(string \<times> pyval) list" where
  "demo_create = [(''path'', PStr ''b/c.txt''), (''content'', PStr ''new'')]"

theorem file_tools_stay_in_workspace_witness:
  "node_at (snd (run_call demo_plain_fs demo_workspace demo_digest (WriteCall demo_create) demo_files)) [''ws'', ''b'', ''c.txt''] =
     Some (TextFile ''new'') \<and>
   find (is_relative_to [''ws'', ''b'', ''c.txt'']) (wk_roots demo_workspace) = Some [''ws'']"
proof -
  let ?p = "[''ws'', ''b'', ''c.txt'']"
  obtain answer w' where r: "run_call demo_plain_fs demo_workspace demo_digest (WriteCall demo_create) demo_files = (answer, w')"
    by fastforce
  have n: "node_at (snd (run_call demo_plain_fs demo_workspace demo_digest (WriteCall demo_create) demo_files)) ?p =
      Some (TextFile ''new'')" by code_simp
  have "node_at demo_files ?p = None" by code_simp
  then have "node_at w' ?p \<noteq> node_at demo_files ?p" using n r by simp
  from file_tools_stay_in_workspace [OF r this] obtain root
    where "find (is_relative_to ?p) (wk_roots demo_workspace) = Some root"
    using n r by auto
  then show ?thesis using n by (auto simp: demo_workspace_def split: if_splits)
qed

section \<open>Reading in full\<close>

text \<open>Until a read is cut off it has taken every line from the start.\<close>

lemma read_one_keeps_cut: "rs_truncated st \<Longrightarrow> rs_truncated (read_one start count n raw st)"
  by (simp add: read_one_def Let_def)

lemma read_fold_keeps_cut: "rs_truncated st \<Longrightarrow> rs_truncated (fold (read_one start count n) raws st)"
  by (induction raws arbitrary: st) (simp_all add: read_one_keeps_cut)

lemma read_fold_all:
  "0 \<le> rs_line st \<Longrightarrow> \<not> rs_truncated (fold (read_one 1 count n) raws st) \<Longrightarrow>
   rs_selected (fold (read_one 1 count n) raws st) = rs_selected st @ raws"
proof (induction raws arbitrary: st)
  case (Cons raw raws)
  let ?st = "read_one 1 count n raw st"
  have cut: "\<not> rs_truncated ?st" using Cons.prems(2) read_fold_keeps_cut by fastforce
  then have "rs_selected ?st = rs_selected st @ [raw]" "0 \<le> rs_line ?st"
    using Cons.prems(1) by (auto simp: read_one_def Let_def split: if_splits option.splits)
  then show ?case using Cons by simp
qed simp

lemma read_all_text:
  assumes "\<not> rs_truncated (read_lines 1 count n (raw_lines s))"
  shows "concat (rs_selected (read_lines 1 count n (raw_lines s))) = s"
proof -
  have "rs_selected (read_lines 1 count n (raw_lines s)) = raw_lines s"
    using assms unfolding read_lines_def by (subst read_fold_all) simp_all
  then show ?thesis by (simp add: concat_raw_lines)
qed

section \<open>Sessions\<close>

text \<open>
  The texts a call shows in full or writes: for a read of some target, the text of the file when
  the selected lines are all of it.
\<close>

definition shows_all :: "file_system \<Rightarrow> code_workspace \<Rightarrow> (string \<times> pyval) list \<Rightarrow> (string \<times> pyval) list \<Rightarrow> code_world \<Rightarrow> string list \<Rightarrow> string \<Rightarrow> bool" where
  "shows_all fs ws args target w p s =
     (check_argument fs ws (dget target ''path'') = Inr p \<and> node_at w p = Some (TextFile s) \<and>
      (\<exists>start count n. read_range ws args target = Inr (start, count, n) \<and>
         concat (rs_selected (read_lines start count n (raw_lines (universal_newlines s)))) = universal_newlines s))"

definition learned :: "file_system \<Rightarrow> code_workspace \<Rightarrow> file_call \<Rightarrow> code_world \<Rightarrow> (string \<times> string) set" where
  "learned fs ws c w =
     (case c of
        ReadCall args \<Rightarrow> {(path_str p, s) | p s. \<exists>target \<in> set (read_targets args). shows_all fs ws args target w p s}
      | WriteCall args \<Rightarrow> {(path_str p, str_or (dget args ''content'') []) | p. check_argument fs ws (dget args ''path'') = Inr p}
      | EditCall args \<Rightarrow> {(path_str p, str_or (dget args ''content'') []) | p. check_argument fs ws (dget args ''path'') = Inr p}
      | PatchCall args \<Rightarrow> {})"

text \<open>Between the calls of the model anything may happen to the files.\<close>

inductive session :: "file_system \<Rightarrow> code_workspace \<Rightarrow> (file_node \<Rightarrow> string) \<Rightarrow> code_world \<Rightarrow> (string \<times> string) set \<Rightarrow> bool"
  for fs ws digest where
  start: "cw_seen w = [] \<Longrightarrow> session fs ws digest w {}"
| call: "session fs ws digest w S \<Longrightarrow> run_call fs ws digest c w = (answer, w') \<Longrightarrow>
     session fs ws digest w' (S \<union> learned fs ws c w)"
| outside: "session fs ws digest w S \<Longrightarrow> cw_seen w' = cw_seen w \<Longrightarrow> session fs ws digest w' S"

definition seen_ok :: "(file_node \<Rightarrow> string) \<Rightarrow> code_world \<Rightarrow> (string \<times> string) set \<Rightarrow> bool" where
  "seen_ok digest w S = (\<forall>k v. map_of (cw_seen w) k = Some v \<longrightarrow> (\<exists>s. (k, s) \<in> S \<and> v = ''sha256:'' @ digest (TextFile s)))"

lemma seen_okI: "(\<And>k v. map_of (cw_seen w) k = Some v \<Longrightarrow> \<exists>s. (k, s) \<in> S \<and> v = ''sha256:'' @ digest (TextFile s)) \<Longrightarrow> seen_ok digest w S"
  by (simp add: seen_ok_def)

lemma seen_ok_mono: "seen_ok digest w S \<Longrightarrow> S \<subseteq> T \<Longrightarrow> seen_ok digest w T"
  unfolding seen_ok_def by blast

lemma seen_ok_seen: "cw_seen w' = cw_seen w \<Longrightarrow> seen_ok digest w' S = seen_ok digest w S"
  by (simp add: seen_ok_def)

lemma seen_put [simp]: "cw_seen (put_node p n w) = cw_seen w"
  by (simp add: put_node_def)

lemma seen_ok_put [simp]: "seen_ok digest (put_node p n w) S = seen_ok digest w S"
  by (rule seen_ok_seen) simp

lemma seen_ok_unobserve: "seen_ok digest w S \<Longrightarrow> seen_ok digest (unobserve p w) S"
  by (simp add: seen_ok_def unobserve_def)

lemma seen_ok_observe: "seen_ok digest w S \<Longrightarrow> (path_str p, s) \<in> S \<Longrightarrow> seen_ok digest (observe p (''sha256:'' @ digest (TextFile s)) w) S"
  by (auto simp: seen_ok_def observe_def)

lemma seen_make_parents [simp]: "cw_seen (snd (make_parents p w)) = cw_seen w"
proof -
  have "cw_seen (fold (\<lambda>q w. if node_at w q = None then put_node q Directory w else w) qs w) = cw_seen w" for qs w
    by (induction qs arbitrary: w) simp_all
  then show ?thesis by (simp add: make_parents_def)
qed

lemma make_parents_keeps: "node_at w r = Some k \<Longrightarrow> node_at (snd (make_parents p w)) r = Some k"
proof -
  have "node_at w r = Some k \<Longrightarrow>
      node_at (fold (\<lambda>q w. if node_at w q = None then put_node q Directory w else w) qs w) r = Some k" for qs w
  proof (induction qs arbitrary: w)
    case (Cons q qs)
    then show ?case using node_at_put_other [of r q] by (cases "r = q") auto
  qed simp
  then show "node_at w r = Some k \<Longrightarrow> node_at (snd (make_parents p w)) r = Some k" by (simp add: make_parents_def)
qed

lemma seen_ok_write:
  assumes "seen_ok digest w S"
    and "\<And>p. check_argument fs ws (dget args ''path'') = Inr p \<Longrightarrow> (path_str p, str_or (dget args ''content'') []) \<in> S"
  shows "seen_ok digest (snd (write_tool fs ws digest args w)) S"
proof (cases "check_argument fs ws (dget args ''path'')")
  case (Inl e)
  then show ?thesis using assms(1) by (cases e) (simp_all add: write_tool_def)
next
  case (Inr p)
  let ?c = "str_or (dget args ''content'') []"
  obtain out w1 where m: "make_parents p w = (out, w1)" by fastforce
  have w1: "seen_ok digest w1 S" using seen_ok_seen [of w1 w] seen_make_parents [of p w] m assms(1) by simp
  have "seen_ok digest (write_file p ?c digest w1) S"
    unfolding write_file_def by (rule seen_ok_observe) (simp_all add: w1 assms(2) [OF Inr])
  then have "seen_ok digest (snd (create_file ws digest p ?c w1)) S" "seen_ok digest (snd (overwrite ws digest p ?c w1)) S"
    using w1 seen_ok_unobserve [OF w1]
    by (auto simp: create_file_def overwrite_def split: sum.split bool.split code_error.split)
  then show ?thesis using m Inr w1 by (cases out) (simp_all add: write_tool_def)
qed

lemma seen_ok_patch:
  assumes "seen_ok digest w S"
  shows "seen_ok digest (snd (patch_tool fs ws args w)) S"
proof -
  have files: "patch_files ws ts w = (out, w') \<Longrightarrow> cw_seen w' = cw_seen w" for ts w out w'
  proof (induction ts arbitrary: w out w')
    case (Cons t ts)
    obtain fp p where t: "t = (fp, p)" by (cases t)
    obtain o1 w1 where 1: "patch_file fp p w = (o1, w1)" by fastforce
    have "cw_seen w1 = cw_seen w"
      using 1 by (auto simp: patch_file_def split: option.splits file_node.splits sum.splits)
    moreover obtain o2 w2 where 2: "patch_files ws ts w1 = (o2, w2)" by fastforce
    ultimately show ?case using Cons.prems Cons.IH [OF 2] 1 t by (auto split: sum.splits)
  qed simp
  have forget: "seen_ok digest w S \<Longrightarrow> seen_ok digest (fold (\<lambda>t. unobserve (snd t)) ts w) S" for ts :: "(file_patch \<times> string list) list" and w
    by (induction ts arbitrary: w) (simp_all add: seen_ok_unobserve)
  have "seen_ok digest (snd (case patch_files ws ts w of (out, w1) \<Rightarrow>
      let w2 = fold (\<lambda>t. unobserve (snd t)) ts w1 in
      case out of Inl e \<Rightarrow> (patch_failed e, w2)
      | Inr changed \<Rightarrow> (Inr [(''applied'', PBool True), (''files_changed'', PList (map PStr changed))], w2))) S" for ts
  proof -
    obtain out w1 where p: "patch_files ws ts w = (out, w1)" by fastforce
    have "seen_ok digest w1 S" using seen_ok_seen [OF files [OF p]] assms by simp
    from forget [OF this] show ?thesis using p by (cases out) (simp_all add: Let_def)
  qed
  then show ?thesis using assms
    by (auto simp: patch_tool_def Let_def and_then_def split: sum.split code_error.split)
qed

lemma seen_ok_edit:
  assumes "seen_ok digest w S"
    and "\<And>p. check_argument fs ws (dget args ''path'') = Inr p \<Longrightarrow> (path_str p, str_or (dget args ''content'') []) \<in> S"
  shows "seen_ok digest (snd (edit_tool fs ws digest args w)) S"
proof -
  have "seen_ok digest (snd (write_tool fs ws digest (dict_set ''mode'' m args) w)) S" for m
    by (rule seen_ok_write [OF assms(1)]) (use assms(2) in \<open>simp add: dget_def\<close>)
  moreover have "seen_ok digest (snd (replace_in_file ws p rs w)) S" for p rs
    using assms(1) by (auto simp: replace_in_file_def seen_ok_unobserve split: option.split file_node.split sum.split)
  ultimately show ?thesis using assms(1) seen_ok_patch [OF assms(1)]
    by (auto simp: edit_tool_def Let_def split: sum.split code_error.split pyval.split list.split)
qed

lemma seen_ok_note_read:
  assumes "seen_ok digest w S"
    and "start = 1 \<Longrightarrow> truncated = Some False \<Longrightarrow> \<exists>s. node_at w p = Some (TextFile s) \<and> (path_str p, s) \<in> S"
  shows "seen_ok digest (note_read digest p start truncated w) S"
proof (cases "truncated = Some False \<and> start = 1")
  case True
  then obtain s where n: "node_at w p = Some (TextFile s)" "(path_str p, s) \<in> S" using assms(2) by blast
  have "seen_ok digest (observe p v w) S" if "file_version digest w p = Inr v" for v
    using that n seen_ok_observe [OF assms(1) n(2)] by (auto simp: file_version_def split: file_node.splits)
  then show ?thesis using True assms(1) by (auto simp: note_read_def split: sum.split)
next
  case False
  then show ?thesis using assms(1) by (auto simp: note_read_def seen_ok_unobserve split: option.split sum.split)
qed

lemma seen_ok_read_one:
  assumes ok: "seen_ok digest w S"
    and S: "\<And>p s. shows_all fs ws args target w p s \<Longrightarrow> (path_str p, s) \<in> S"
  shows "seen_ok digest (snd (read_one_target fs ws digest args target w)) S"
proof (cases "check_argument fs ws (dget target ''path'')")
  case (Inl e)
  then show ?thesis using ok by (cases e) (simp_all add: read_one_target_def)
next
  case p: (Inr p)
  show ?thesis
  proof (cases "read_range ws args target")
    case (Inl e)
    then show ?thesis using ok p by (simp add: read_one_target_def)
  next
    case (Inr r)
    then obtain start count n where r: "read_range ws args target = Inr (start, count, n)" by (cases r) simp
    let ?format = "str_or (dget args ''format'') ''numbered''"
    obtain payload cut_off where pay: "read_payload ws w p start count n ?format = (payload, cut_off)" by fastforce
    have "\<exists>s. node_at w p = Some (TextFile s) \<and> (path_str p, s) \<in> S" if full: "start = 1" "cut_off = Some False"
    proof -
      obtain s where s: "node_at w p = Some (TextFile s)"
        "\<not> rs_truncated (read_lines 1 count n (raw_lines (universal_newlines s)))"
        using pay full by (auto simp: read_payload_def Let_def split: option.splits file_node.splits)
      have "shows_all fs ws args target w p s"
        using p r s(1) read_all_text [OF s(2)] full(1) by (auto simp: shows_all_def)
      then show ?thesis using S s(1) by blast
    qed
    from seen_ok_note_read [OF ok this] show ?thesis using p r pay by (simp add: read_one_target_def)
  qed
qed

lemma seen_ok_read_all:
  assumes "seen_ok digest w S"
    and "\<And>target p s. target \<in> set ts \<Longrightarrow> shows_all fs ws args target w p s \<Longrightarrow> (path_str p, s) \<in> S"
  shows "seen_ok digest (snd (read_all_targets fs ws digest args ts w)) S"
  using assms
proof (induction ts arbitrary: w)
  case (Cons t ts)
  obtain o1 w1 where 1: "read_one_target fs ws digest args t w = (o1, w1)" by fastforce
  have ok1: "seen_ok digest w1 S"
    using seen_ok_read_one [OF Cons.prems(1), of fs ws args t] Cons.prems(2) [of t] 1 by simp
  have "shows_all fs ws args target w1 p s = shows_all fs ws args target w p s" for target p s
    by (simp add: shows_all_def read_one_nodes [OF 1])
  then have "(path_str p, s) \<in> S" if "target \<in> set ts" "shows_all fs ws args target w1 p s" for target p s
    using Cons.prems(2) [of target p s] that by simp
  then have "seen_ok digest (snd (read_all_targets fs ws digest args ts w1)) S" by (rule Cons.IH [OF ok1])
  moreover obtain o2 w2 where "read_all_targets fs ws digest args ts w1 = (o2, w2)" by fastforce
  ultimately show ?case using ok1 1 by (auto split: sum.splits)
qed simp

lemma seen_ok_read:
  assumes "seen_ok digest w S"
    and "\<And>target p s. target \<in> set (read_targets args) \<Longrightarrow> shows_all fs ws args target w p s \<Longrightarrow> (path_str p, s) \<in> S"
  shows "seen_ok digest (snd (read_tool fs ws digest args w)) S"
proof -
  obtain out w' where r: "read_all_targets fs ws digest args (read_targets args) w = (out, w')" by fastforce
  then have "snd (read_tool fs ws digest args w) = w \<or> snd (read_tool fs ws digest args w) = w'"
    by (auto simp: read_tool_def split: sum.split list.split)
  moreover have "seen_ok digest (snd (read_all_targets fs ws digest args (read_targets args) w)) S"
    by (rule seen_ok_read_all [OF assms])
  ultimately show ?thesis using r assms(1) by auto
qed

lemma seen_ok_call:
  assumes "seen_ok digest w S"
  shows "seen_ok digest (snd (run_call fs ws digest c w)) (S \<union> learned fs ws c w)"
proof -
  have ok: "seen_ok digest w (S \<union> learned fs ws c w)" using assms by (rule seen_ok_mono) blast
  show ?thesis
  proof (cases c)
    case (ReadCall args)
    have "seen_ok digest (snd (read_tool fs ws digest args w)) (S \<union> learned fs ws c w)"
      by (rule seen_ok_read [OF ok]) (use ReadCall in \<open>auto simp: learned_def\<close>)
    then show ?thesis using ReadCall by simp
  next
    case (WriteCall args)
    have "seen_ok digest (snd (write_tool fs ws digest args w)) (S \<union> learned fs ws c w)"
      by (rule seen_ok_write [OF ok]) (use WriteCall in \<open>auto simp: learned_def\<close>)
    then show ?thesis using WriteCall by simp
  next
    case (EditCall args)
    have "seen_ok digest (snd (edit_tool fs ws digest args w)) (S \<union> learned fs ws c w)"
      by (rule seen_ok_edit [OF ok]) (use EditCall in \<open>auto simp: learned_def\<close>)
    then show ?thesis using EditCall by simp
  next
    case (PatchCall args)
    then show ?thesis using seen_ok_patch [OF ok] by simp
  qed
qed

lemma session_seen_ok: "session fs ws digest w S \<Longrightarrow> seen_ok digest w S"
proof (induction rule: session.induct)
  case (start w)
  then show ?case by (simp add: seen_ok_def)
next
  case (call w S c answer w')
  then show ?case using seen_ok_call [OF call.IH, of fs ws c] by simp
next
  case (outside w S w')
  then show ?case using seen_ok_seen by blast
qed

text \<open>
  C34: In a session no write of the model destroys a text it has not seen: when a call of the write
  tool changes a file, what was there is a text that had been shown in full by an earlier read of
  that path, or was the content given with an earlier write to it -- whatever else happened to the
  files in between.
\<close>
theorem overwrites_only_seen_content:
  assumes "session fs ws digest w S" and "inj (\<lambda>s. digest (TextFile s))"
    and "run_call fs ws digest (WriteCall args) w = (answer, w')"
    and "node_at w p = Some n" and "node_at w' p \<noteq> Some n"
  shows "\<exists>s. n = TextFile s \<and> (path_str p, s) \<in> S"
proof -
  have wr: "write_tool fs ws digest args w = (answer, w')" using assms(3) by simp
  obtain q where q: "check_argument fs ws (dget args ''path'') = Inr q"
    using wr assms(4,5) by (auto simp: write_tool_def split: sum.splits code_error.splits)
  obtain out w1 where m: "make_parents q w = (out, w1)" by fastforce
  have kept: "node_at w1 r = Some k" if "node_at w r = Some k" for r k
    using make_parents_keeps [OF that, of q] m by simp
  let ?c = "str_or (dget args ''content'') []"
  consider (create) "out = Inr ()" "create_file ws digest q ?c w1 = (answer, w')"
    | (over) "out = Inr ()" "overwrite ws digest q ?c w1 = (answer, w')" | (none) "w' = w1"
    using wr q m by (auto simp: write_tool_def split: sum.splits if_splits)
  then show ?thesis
  proof cases
    case create
    then have "w' = write_file q ?c digest w1 \<and> node_at w1 q = None \<or> w' = w1"
      by (auto simp: create_file_def split: if_splits)
    then show ?thesis using kept [OF assms(4)] assms(5) node_at_put_other [of p q]
      by (metis node_at_seen(1) option.distinct(1) write_file_def)
  next
    case none
    then show ?thesis using kept [OF assms(4)] assms(5) by simp
  next
    case over
    have "stale digest q w1 = Inr False \<and> (\<exists>s. read_file_text w1 q = Inr s)" and q': "w' = write_file q ?c digest w1"
      using over(2) kept [OF assms(4)] assms(5)
      by (auto simp: overwrite_def split: sum.splits bool.splits code_error.splits)
    moreover have pq: "p = q"
      using q' kept [OF assms(4)] assms(5) node_at_put_other [of p q] by (metis node_at_seen(1) write_file_def)
    ultimately obtain s where s: "n = TextFile s" "map_of (cw_seen w1) (path_str p) = Some (''sha256:'' @ digest (TextFile s))"
      using kept [OF assms(4)]
      by (auto simp: stale_def read_file_text_def and_then_eq_Inr file_version_def split: option.splits file_node.splits)
    moreover have "cw_seen w1 = cw_seen w" using seen_make_parents [of q w] m by simp
    ultimately obtain t where "(path_str p, t) \<in> S" "digest (TextFile s) = digest (TextFile t)"
      using session_seen_ok [OF assms(1)] unfolding seen_ok_def by fastforce
    then show ?thesis using injD [OF assms(2), of s t] s(1) by auto
  qed
qed

text \<open>The session of the witness reads the file and overwrites it.\<close>

definition demo_read :: "(string \<times> pyval) list" where
  "demo_read = [(''path'', PStr ''a'')]"

definition demo_overwrite :: "(string \<times> pyval) list" where
  "demo_overwrite = [(''path'', PStr ''a''), (''content'', PStr ''two''), (''mode'', PStr ''overwrite'')]"

definition demo_seen :: code_world where
  "demo_seen = snd (run_call demo_plain_fs demo_workspace demo_digest (ReadCall demo_read) demo_files)"

lemma demo_session:
  "session demo_plain_fs demo_workspace demo_digest demo_seen
     (learned demo_plain_fs demo_workspace (ReadCall demo_read) demo_files)"
proof -
  have "session demo_plain_fs demo_workspace demo_digest demo_files {}" by (rule session.start) (simp add: demo_files_def)
  from session.call [OF this, of "ReadCall demo_read", OF prod.collapse [symmetric]] show ?thesis
    by (simp only: demo_seen_def Un_empty_left)
qed

theorem overwrites_only_seen_content_witness:
  "node_at (snd (run_call demo_plain_fs demo_workspace demo_digest (WriteCall demo_overwrite) demo_seen)) [''ws'', ''a''] =
     Some (TextFile ''two'') \<and>
   (''/ws/a'', ''one'') \<in> learned demo_plain_fs demo_workspace (ReadCall demo_read) demo_files"
proof -
  let ?p = "[''ws'', ''a'']"
  obtain answer w' where r: "run_call demo_plain_fs demo_workspace demo_digest (WriteCall demo_overwrite) demo_seen = (answer, w')"
    by fastforce
  have n: "node_at (snd (run_call demo_plain_fs demo_workspace demo_digest (WriteCall demo_overwrite) demo_seen)) ?p =
      Some (TextFile ''two'')" by code_simp
  have old: "node_at demo_seen ?p = Some (TextFile ''one'')" by code_simp
  have inj: "inj (\<lambda>s. demo_digest (TextFile s))" by (rule injI) (simp add: demo_digest_def)
  have "node_at w' ?p \<noteq> Some (TextFile ''one'')" using n r by simp
  from overwrites_only_seen_content [OF demo_session inj r old this] have "(path_str ?p, ''one'') \<in> learned demo_plain_fs demo_workspace (ReadCall demo_read) demo_files"
    by (simp only: file_node.inject) blast
  moreover have "path_str ?p = ''/ws/a''" by code_simp
  ultimately show ?thesis using n by simp
qed

section \<open>Edits\<close>

lemma replace_sub_none [simp]: "replace_sub (Some 0) old new s = s"
  by (subst replace_sub.simps) simp

text \<open>The first place of a text in another one.\<close>

definition first_place :: "string \<Rightarrow> string \<Rightarrow> string \<Rightarrow> string \<Rightarrow> bool" where
  "first_place sub s pre post =
     (s = pre @ sub @ post \<and> list_all (\<lambda>k. \<not> startswith (drop k s) sub) [0..<length pre])"

lemma first_place_Cons:
  assumes "first_place sub s pre post" and "\<not> startswith (c # s) sub"
  shows "first_place sub (c # s) (c # pre) post"
proof -
  have "\<not> startswith (drop k (c # s)) sub" if "k < Suc (length pre)" for k
    using that assms
    by (cases k) (auto simp add: first_place_def list_all_iff simp del: drop_append)
  then show ?thesis using assms(1) by (simp add: first_place_def list_all_iff del: upt_Suc)
qed

lemma replace_first:
  "0 < count_sub sub s \<Longrightarrow>
   \<exists>pre post. first_place sub s pre post \<and> replace_sub (Some 1) sub new s = pre @ new @ post"
proof (induction sub s rule: count_sub.induct)
  case (1 sub s)
  from "1.prems" have "s \<noteq> []" and ne: "sub \<noteq> []" by (auto simp: count_sub.simps [of sub s] split: if_splits)
  then obtain c r where s: "s = c # r" by (cases s) simp_all
  show ?case
  proof (cases "startswith s sub")
    case True
    then obtain t where "s = sub @ t" using startswith_iff by blast
    then show ?thesis using True s ne
      by (intro exI [of _ "[]"] exI [of _ t]) (simp add: first_place_def replace_sub.simps [of _ _ _ "sub @ t"])
  next
    case False
    then have "0 < count_sub sub r" using "1.prems" s ne by (simp add: count_sub.simps [of sub "c # r"])
    then obtain pre post where ih: "first_place sub r pre post" "replace_sub (Some 1) sub new r = pre @ new @ post"
      using "1.IH"(2) s ne False by auto
    then have "first_place sub s (c # pre) post" using first_place_Cons False s by blast
    moreover have "replace_sub (Some 1) sub new s = (c # pre) @ new @ post"
      using ih(2) False s ne by (simp add: replace_sub.simps [of _ _ _ "c # r"])
    ultimately show ?thesis by blast
  qed
qed

text \<open>
  C38: An edit with one replacement that may not replace all places changes the file only when
  Python counts exactly one occurrence of the old text in it; it then puts the new text for the first place of the old one, and keeps the text
  before and behind it but for its line ends, which all become line feeds.
\<close>
theorem edit_replaces_first_place:
  assumes "run_call fs ws digest (EditCall args) w = (answer, w')"
    and "lower (strip (str_or (dget args ''operation'') [])) = ''replace''"
    and "dget args ''replacements'' = PList [PDict d]"
    and "\<not> py_true (dget d ''replace_all'')"
    and "node_at w p = Some (TextFile s)" and "node_at w' p \<noteq> Some (TextFile s)"
  shows "\<exists>pre post.
    count_sub (str_or (dget d ''old'') []) (universal_newlines s) = 1 \<and>
    first_place (str_or (dget d ''old'') []) (universal_newlines s) pre post \<and>
    node_at w' p = Some (TextFile (pre @ str_or (dget d ''new'') [] @ post))"
proof -
  let ?old = "str_or (dget d ''old'') []" and ?new = "str_or (dget d ''new'') []"
  have ed: "edit_tool fs ws digest args w = (answer, w')" using assms(1) by simp
  obtain q where q: "replace_in_file ws q [PDict d] w = (answer, w')"
    using ed assms(2-6) by (auto simp: edit_tool_def Let_def split: sum.splits code_error.splits)
  then obtain t u n where t: "node_at w q = Some (TextFile t)"
    and r: "replace_once ws q 0 (PDict d) (universal_newlines t) = Inr (Inr (u, n))"
    and w': "w' = unobserve q (put_node q (TextFile u) w)"
    using assms(5,6) by (auto simp: replace_in_file_def split: option.splits file_node.splits sum.splits)
  have pq: "p = q" using w' assms(5,6) node_at_put_other [of p q] by (cases "p = q") auto
  then have st: "t = s" using t assms(5) by simp
  have c: "count_sub ?old (universal_newlines s) = 1" "u = replace_sub (Some 1) ?old ?new (universal_newlines s)"
    using r assms(4) st
    by (auto simp: replace_once_def Let_def and_then_eq_Inr split: if_splits)
  obtain pre post where "first_place ?old (universal_newlines s) pre post" "u = pre @ ?new @ post"
    using replace_first [of ?old "universal_newlines s" ?new] c by auto
  moreover have "node_at w' p = Some (TextFile u)"
    using w' pq assms(5,6) node_at_put_root node_at_seen by (cases "q = []") auto
  ultimately show ?thesis using c(1) by blast
qed

definition demo_edit_text :: "(string \<times> pyval) list" where
  "demo_edit_text = [(''operation'', PStr ''replace''), (''path'', PStr ''a''),
     (''replacements'', PList [PDict [(''old'', PStr ''n''), (''new'', PStr ''m'')]])]"

theorem edit_replaces_first_place_witness:
  "node_at (snd (run_call demo_plain_fs demo_workspace demo_digest (EditCall demo_edit_text) demo_files)) [''ws'', ''a''] =
     Some (TextFile ''ome'') \<and> (\<exists>pre post. ''ome'' = pre @ ''m'' @ post \<and> first_place ''n'' ''one'' pre post)"
proof -
  let ?p = "[''ws'', ''a'']"
  obtain answer w' where r: "run_call demo_plain_fs demo_workspace demo_digest (EditCall demo_edit_text) demo_files = (answer, w')"
    by fastforce
  have n: "node_at (snd (run_call demo_plain_fs demo_workspace demo_digest (EditCall demo_edit_text) demo_files)) ?p =
      Some (TextFile ''ome'')" by code_simp
  have old: "node_at demo_files ?p = Some (TextFile ''one'')" by code_simp
  have changed: "node_at w' ?p \<noteq> Some (TextFile ''one'')" using n r by simp
  have op: "lower (strip (str_or (dget demo_edit_text ''operation'') [])) = ''replace''" by code_simp
  have rs: "dget demo_edit_text ''replacements'' = PList [PDict [(''old'', PStr ''n''), (''new'', PStr ''m'')]]" by code_simp
  have all: "\<not> py_true (dget [(''old'', PStr ''n''), (''new'', PStr ''m'')] ''replace_all'')" by code_simp
  have args: "str_or (dget [(''old'', PStr ''n''), (''new'', PStr ''m'')] ''old'') [] = ''n''"
    "str_or (dget [(''old'', PStr ''n''), (''new'', PStr ''m'')] ''new'') [] = ''m''"
    "universal_newlines ''one'' = ''one''" by code_simp+
  obtain pre post where "first_place ''n'' ''one'' pre post" "node_at w' ?p = Some (TextFile (pre @ ''m'' @ post))"
    using edit_replaces_first_place [OF r op rs all old changed] unfolding args by blast
  moreover have "node_at w' ?p = Some (TextFile ''ome'')" using n r by simp
  ultimately show ?thesis using n by (metis file_node.inject(1) option.inject)
qed

section \<open>Errors\<close>

text \<open>
  Overwriting a file that does not exist and was not seen is not refused and does not answer:
  the directories above it are made, then the read of the old text raises the system's error, no
  file is written and nothing is observed.
\<close>
theorem overwriting_missing_file_raises:
  assumes "check_argument fs ws (dget args ''path'') = Inr p"
    and "node_at w p = None" and "map_of (cw_seen w) (path_str p) = None"
    and "str_or (dget args ''mode'') ''create'' \<noteq> ''create''"
    and "make_parents p w = (Inr (), w1)"
  shows "run_call fs ws digest (WriteCall args) w = (Inl (OSError ''FileNotFoundError''), w1)"
proof -
  have ne: "p \<noteq> []" using assms(2) by (auto simp: node_at_def)
  have "node_at (fold (\<lambda>q w. if node_at w q = None then put_node q Directory w else w) qs w) p = node_at w p"
    if "p \<notin> set qs" for qs w
    using that
  proof (induction qs arbitrary: w)
    case (Cons q qs)
    then show ?case using node_at_put_other [of p q] by auto
  qed simp
  moreover have "p \<notin> set (parents p)"
  proof
    assume "p \<in> set (parents p)"
    then obtain k where "p = take k p" "k < length p" by (auto simp: parents_def)
    from arg_cong [OF this(1), of length] this(2) show False by simp
  qed
  moreover have "w1 = fold (\<lambda>q w. if node_at w q = None then put_node q Directory w else w) (parents p) w"
    using assms(5) by (auto simp: make_parents_def split: if_splits)
  ultimately have none: "node_at w1 p = None" using assms(2) by simp
  have "cw_seen w1 = cw_seen w" using seen_make_parents [of p w] assms(5) by simp
  then have "stale digest p w1 = Inr False" using none assms(3) by (simp add: stale_def)
  then show ?thesis using none assms(1,4,5) by (simp add: write_tool_def overwrite_def read_file_text_def)
qed

theorem overwriting_missing_file_raises_witness:
  "run_call demo_plain_fs demo_workspace demo_digest
     (WriteCall [(''path'', PStr ''b''), (''mode'', PStr ''overwrite''), (''content'', PStr ''x'')]) demo_files =
   (Inl (OSError ''FileNotFoundError''), demo_files)"
proof (rule overwriting_missing_file_raises [where p = "[''ws'', ''b'']"])
  show "make_parents [''ws'', ''b''] demo_files = (Inr (), demo_files)" by code_simp
qed code_simp+

text \<open>
  C39: A patch of several files is not all or nothing: when the second file cannot be patched, the
  tool answers that the patch failed and leaves the first one changed.
\<close>
theorem patch_not_atomic:
  assumes "strip (str_or (dget args ''patch'') []) \<noteq> []"
    and "check_argument fs ws (or_value (dget args ''cwd'') (PStr ''.'')) = Inr base"
    and "parse_unified_patch (str_or (dget args ''patch'') []) = Inr [fp1, fp2]"
    and "patch_targets fs ws base [fp1, fp2] = Inr [(fp1, p1), (fp2, p2)]"
    and "node_at w p1 = Some (TextFile s)" and "apply_file_patch fp1 s = Inr s'"
    and "p2 \<noteq> p1" and "node_at w p2 = None"
  shows "\<exists>w'. run_call fs ws digest (PatchCall args) w =
       (Inr (error_answer ''patch_failed'' (''target file does not exist: '' @ fp_path fp2) []), w') \<and>
     node_at w' p1 = Some (TextFile s')"
proof -
  have ne: "p1 \<noteq> []" using assms(5) by (auto simp: node_at_def)
  let ?w1 = "put_node p1 (TextFile s') w"
  have "patch_file fp1 p1 w = (Inr (), ?w1)" using assms(5,6) by (simp add: patch_file_def)
  moreover have "patch_file fp2 p2 ?w1 = (Inl (PatchError (''target file does not exist: '' @ fp_path fp2)), ?w1)"
    using assms(7,8) ne by (simp add: patch_file_def)
  ultimately have "patch_files ws [(fp1, p1), (fp2, p2)] w =
      (Inl (PatchError (''target file does not exist: '' @ fp_path fp2)), ?w1)" by simp
  then have "run_call fs ws digest (PatchCall args) w =
       (Inr (error_answer ''patch_failed'' (''target file does not exist: '' @ fp_path fp2) []), unobserve p2 (unobserve p1 ?w1))"
    using assms(1-4) by (simp add: patch_tool_def and_then_def patch_failed_def or_message_def)
  moreover have "node_at (unobserve p2 (unobserve p1 ?w1)) p1 = Some (TextFile s')" by (simp add: ne)
  ultimately show ?thesis by blast
qed

definition demo_line :: code_world where
  "demo_line = \<lparr>cw_nodes = [([''ws''], Directory), ([''ws'', ''a''], TextFile (unlines [''one'']))], cw_seen = []\<rparr>"

definition demo_two_files :: string where
  "demo_two_files = unlines [''--- a/a'', ''+++ b/a'', ''@@ -1 +1 @@'', ''-one'', ''+two'',
     ''--- a/z'', ''+++ b/z'', ''@@ -1 +1 @@'', ''-x'', ''+y'']"

definition demo_patches :: "string \<Rightarrow> string \<Rightarrow> string \<Rightarrow> file_patch" where
  "demo_patches f old new = \<lparr>fp_path = f, fp_hunks = [\<lparr>ph_old_index = 0, ph_remove = [old], ph_add = [new],
     ph_header = ''@@ -1 +1 @@''\<rparr>]\<rparr>"

theorem patch_not_atomic_witness:
  "\<exists>w'. run_call demo_plain_fs demo_workspace demo_digest (PatchCall [(''patch'', PStr demo_two_files)]) demo_line =
       (Inr (error_answer ''patch_failed'' (''target file does not exist: '' @ fp_path (demo_patches ''z'' ''x'' ''y'')) []), w') \<and>
     node_at w' [''ws'', ''a''] = Some (TextFile (unlines [''two'']))"
proof (rule patch_not_atomic [where ?fp1.0 = "demo_patches ''a'' ''one'' ''two''" and ?p2.0 = "[''ws'', ''z'']"
      and base = "[''ws'']" and s = "unlines [''one'']"])
  show "parse_unified_patch (str_or (dget [(''patch'', PStr demo_two_files)] ''patch'') []) =
      Inr [demo_patches ''a'' ''one'' ''two'', demo_patches ''z'' ''x'' ''y'']" by code_simp
  show "patch_targets demo_plain_fs demo_workspace [''ws''] [demo_patches ''a'' ''one'' ''two'', demo_patches ''z'' ''x'' ''y''] =
      Inr [(demo_patches ''a'' ''one'' ''two'', [''ws'', ''a'']), (demo_patches ''z'' ''x'' ''y'', [''ws'', ''z''])]" by code_simp
  show "apply_file_patch (demo_patches ''a'' ''one'' ''two'') (unlines [''one'']) = Inr (unlines [''two''])" by code_simp
qed code_simp+

end
