(* ===== verification/CodeGlob.thy ===== *)
theory CodeGlob
  imports CodeTools Glob
begin

text \<open>
  The globs of the listing and searching tools (\<open>common.py\<close>): patterns are normalised, made
  relative to the directory that is searched, and matched part by part, where the part \<open>**\<close> stands
  for any number of directories.
\<close>

section \<open>Patterns\<close>

definition posix_slashes :: "string \<Rightarrow> string" where
  "posix_slashes s = map (\<lambda>c. if c = CHR 0x5C then CHR ''/'' else c) s"

fun drop_dot_slash :: "string \<Rightarrow> string" where
  "drop_dot_slash s =
     (case s of a # b # t \<Rightarrow> if a = CHR ''.'' \<and> b = CHR ''/'' then drop_dot_slash t else s | _ \<Rightarrow> s)"

declare drop_dot_slash.simps [simp del]

definition normalize_glob_pattern :: "string \<Rightarrow> string" where
  "normalize_glob_pattern p =
     (let n = drop_dot_slash (posix_slashes (strip p)) in if n = [] then ''*'' else n)"

definition normalize_glob_patterns :: "string list \<Rightarrow> string list" where
  "normalize_glob_patterns ps = map normalize_glob_pattern (filter (\<lambda>p. strip p \<noteq> []) ps)"

definition is_match_all_glob :: "string \<Rightarrow> bool" where
  "is_match_all_glob p = (normalize_glob_pattern p = ''*'' \<or> normalize_glob_pattern p = ''**/*'')"

definition glob_has_path_separator :: "string \<Rightarrow> bool" where
  "glob_has_path_separator p = (CHR ''/'' \<in> set (normalize_glob_pattern p))"

text \<open>The root of a search, and whether it is a file.\<close>

type_synonym search_root = "string list \<times> bool"

definition glob_for_search_root :: "code_workspace option \<Rightarrow> search_root \<Rightarrow> string \<Rightarrow> string" where
  "glob_for_search_root ws root p =
     (let n = normalize_glob_pattern p in
      case ws of
        None \<Rightarrow> n
      | Some w \<Rightarrow>
          if snd root \<or> is_match_all_glob n then n
          else
            let rel = posix_slashes (workspace_relative w (fst root)) in
            if rel = [] \<or> rel = ''.'' then n
            else
              let prefix = rev (dropWhile (\<lambda>c. c = CHR ''/'') (rev rel)) @ ''/'' in
              if n = rel then ''*''
              else if startswith n prefix
              then (if drop (length prefix) n = [] then ''*'' else drop (length prefix) n)
              else n)"

section \<open>Matching\<close>

text \<open>The states after a prefix of the path: which prefixes of the pattern it matches.\<close>

definition initial_states :: "string list \<Rightarrow> bool list" where
  "initial_states ps = foldl (\<lambda>st part. st @ [last st \<and> part = ''**'']) [True] ps"

definition next_states :: "string list \<Rightarrow> bool list \<Rightarrow> string \<Rightarrow> bool list" where
  "next_states ps st c =
     foldl (\<lambda>ns (i, part).
       ns @ [if part = ''**'' then ns ! (i - 1) \<or> st ! i else st ! (i - 1) \<and> fnmatch c part])
       [False] (enumerate 1 ps)"

definition matches_parts :: "string list \<Rightarrow> string list \<Rightarrow> bool" where
  "matches_parts ps cs = last (foldl (next_states ps) (initial_states ps) cs)"

text \<open>The paths a pattern is tried on: below the root, and from the workspace for a file.\<close>

definition relative_parts :: "string list \<Rightarrow> string list \<Rightarrow> string list list" where
  "relative_parts root path = (if is_relative_to path root then [drop (length root) path] else [])"

definition glob_candidates :: "code_workspace option \<Rightarrow> search_root option \<Rightarrow> string list \<Rightarrow> string list list" where
  "glob_candidates ws root path =
     (let below = (case root of
                     None \<Rightarrow> []
                   | Some (r, file) \<Rightarrow> relative_parts (if file then butlast r else r) path);
          named = (case (root, ws) of
                     (Some (r, True), Some w) \<Rightarrow> [split_char CHR ''/'' [] (posix_slashes (workspace_relative w path))]
                   | _ \<Rightarrow> [])
      in if below @ named = [] then [[if path = [] then [] else last path]] else below @ named)"

definition matches_glob ::
  "code_workspace option \<Rightarrow> search_root option \<Rightarrow> bool \<Rightarrow> string list \<Rightarrow> string \<Rightarrow> bool" where
  "matches_glob ws root recursive_basename path pattern =
     (let n = (case (ws, root) of
                 (Some _, Some r) \<Rightarrow> glob_for_search_root ws r pattern
               | _ \<Rightarrow> normalize_glob_pattern pattern);
          n' = (if recursive_basename \<and> CHR ''/'' \<notin> set n then ''**/'' @ n else n)
      in list_ex (matches_parts (filter (\<lambda>p. p \<noteq> []) (split_char CHR ''/'' [] n'))) (glob_candidates ws root path))"

text \<open>\<open>_matches_excluded_glob\<close>, \<open>is_visible\<close> and \<open>_is_hidden_under\<close>.\<close>

definition matches_excluded_glob :: "code_workspace option \<Rightarrow> search_root \<Rightarrow> string list \<Rightarrow> string list \<Rightarrow> bool" where
  "matches_excluded_glob ws root exclude_globs path = list_ex (matches_glob ws (Some root) True path) exclude_globs"

definition is_hidden_under :: "string list \<Rightarrow> string list \<Rightarrow> bool" where
  "is_hidden_under root path =
     list_ex (\<lambda>part. startswith part ''.'' \<and> part \<noteq> ''.'')
       (if is_relative_to path root then drop (length root) path else [if path = [] then [] else last path])"

section \<open>The states say what is matched\<close>

definition part_matches :: "string \<Rightarrow> string list \<Rightarrow> bool" where
  "part_matches p cs = (p = ''**'' \<or> (\<exists>c. cs = [c] \<and> fnmatch c p))"

definition split_match :: "string list \<Rightarrow> string list \<Rightarrow> bool" where
  "split_match ps cs = (\<exists>pieces. concat pieces = cs \<and> list_all2 part_matches ps pieces)"

lemma split_match_nil [simp]: "split_match [] cs \<longleftrightarrow> cs = []"
  by (auto simp: split_match_def)

lemma split_match_snoc: "split_match (ps @ [p]) cs \<longleftrightarrow> (\<exists>as bs. cs = as @ bs \<and> split_match ps as \<and> part_matches p bs)"
proof
  assume "split_match (ps @ [p]) cs"
  then obtain us vs where "concat (us @ vs) = cs" "list_all2 part_matches ps us" "list_all2 part_matches [p] vs"
    unfolding split_match_def list_all2_append1 by blast
  moreover from this obtain b where "vs = [b]" "part_matches p b" by (auto simp: list_all2_Cons1)
  ultimately show "\<exists>as bs. cs = as @ bs \<and> split_match ps as \<and> part_matches p bs"
    unfolding split_match_def by auto
next
  assume "\<exists>as bs. cs = as @ bs \<and> split_match ps as \<and> part_matches p bs"
  then obtain us bs where "cs = concat us @ bs" "list_all2 part_matches ps us" "part_matches p bs"
    unfolding split_match_def by auto
  then have "concat (us @ [bs]) = cs" "list_all2 part_matches (ps @ [p]) (us @ [bs])"
    by (simp_all add: list_all2_appendI)
  then show "split_match (ps @ [p]) cs" unfolding split_match_def by blast
qed

lemma split_match_star_nil: "split_match (ps @ [p]) [] \<longleftrightarrow> p = ''**'' \<and> split_match ps []"
  unfolding split_match_snoc by (auto simp: part_matches_def)

lemma split_match_star_step:
  "split_match (ps @ [''**'']) (cs @ [c]) \<longleftrightarrow> split_match ps (cs @ [c]) \<or> split_match (ps @ [''**'']) cs"
proof -
  have "(\<exists>as bs. cs @ [c] = as @ bs \<and> split_match ps as) \<longleftrightarrow>
      split_match ps (cs @ [c]) \<or> (\<exists>as bs. cs = as @ bs \<and> split_match ps as)"
    by (metis append_assoc append_Nil2 append_butlast_last_id butlast_append last_snoc butlast_snoc)
  then show ?thesis by (simp add: split_match_snoc part_matches_def)
qed

lemma split_match_part_step:
  "p \<noteq> ''**'' \<Longrightarrow> split_match (ps @ [p]) (cs @ [c]) \<longleftrightarrow> split_match ps cs \<and> fnmatch c p"
  by (auto simp: split_match_snoc part_matches_def)

text \<open>The states after a path are right when each prefix of the pattern has its own.\<close>

definition states_of :: "string list \<Rightarrow> string list \<Rightarrow> bool list" where
  "states_of ps cs = map (\<lambda>k. split_match (take k ps) cs) [0..<Suc (length ps)]"

lemma states_of_nth: "k \<le> length ps \<Longrightarrow> states_of ps cs ! k = split_match (take k ps) cs"
  unfolding states_of_def by (subst nth_map) (simp_all del: upt_Suc)

lemma states_of_snoc: "states_of (ps @ [p]) cs = states_of ps cs @ [split_match (ps @ [p]) cs]"
  by (auto simp: states_of_def)

lemma last_states_of: "last (states_of ps cs) = split_match ps cs"
  by (simp add: states_of_def)

lemma initial_states_of: "initial_states ps = states_of ps []"
proof (induction ps rule: rev_induct)
  case Nil
  then show ?case by (simp add: initial_states_def states_of_def)
next
  case (snoc p ps)
  then show ?case
    by (simp add: initial_states_def states_of_snoc last_states_of split_match_star_nil conj_commute)
qed

lemma next_states_prefix:
  assumes "\<forall>k \<le> length ps. st ! k = split_match (take k ps) cs"
  shows "next_states ps st c = states_of ps (cs @ [c])"
  using assms
proof (induction ps rule: rev_induct)
  case Nil
  then show ?case by (simp add: next_states_def states_of_def)
next
  case (snoc p ps)
  have st: "st ! k = split_match (take k ps) cs" if "k \<le> length ps" for k
    using snoc.prems that by (auto dest: spec [of _ k])
  have last_st: "st ! Suc (length ps) = split_match (ps @ [p]) cs"
    using snoc.prems by (auto dest: spec [of _ "Suc (length ps)"])
  have ih: "next_states ps st c = states_of ps (cs @ [c])" using snoc.IH st by blast
  have "next_states (ps @ [p]) st c = states_of ps (cs @ [c]) @
      [if p = ''**'' then states_of ps (cs @ [c]) ! length ps \<or> st ! Suc (length ps) else st ! length ps \<and> fnmatch c p]"
    using ih by (simp add: next_states_def enumerate_append_eq)
  also have "\<dots> = states_of (ps @ [p]) (cs @ [c])"
    using st [of "length ps"] last_st
    by (auto simp: states_of_snoc states_of_nth split_match_star_step split_match_part_step)
  finally show ?case .
qed

lemma next_states_of: "next_states ps (states_of ps cs) c = states_of ps (cs @ [c])"
  by (rule next_states_prefix) (simp add: states_of_nth)

lemma states_after: "foldl (next_states ps) (initial_states ps) cs = states_of ps cs"
  by (induction cs rule: rev_induct) (simp_all add: initial_states_of next_states_of)

text \<open>
  C40: The one pass over the path that keeps a row of booleans decides the meaning of the pattern:
  the path can be cut into as many pieces as the pattern has parts, where a part \<open>**\<close> takes any
  piece and every other part takes a single name that it matches.
\<close>
theorem glob_matches_by_pieces:
  "matches_parts ps cs \<longleftrightarrow>
     (\<exists>pieces. concat pieces = cs \<and>
        list_all2 (\<lambda>p piece. p = ''**'' \<or> (\<exists>c. piece = [c] \<and> fnmatch c p)) ps pieces)"
  using last_states_of [of ps cs] unfolding matches_parts_def states_after split_match_def part_matches_def .

end
