(* ===== verification/Spec2Isabelle.thy ===== *)
theory Spec2Isabelle
  imports TaskProps TaskReach Capabilities ToolRegistry Orchestrator PlanProps RunProps ChatProps ToolProps RunMgrProps CodeToolProps CodeGlob
begin

text \<open>
  ChatTree: a verification library for the core of the back end (\<open>src/backend/core\<close>).

  The program.  ChatTree is a local server for conversations with language models.  A
  conversation is a tree of nodes; a run generates an answer and calls tools; a tool call
  passes the permission engine, an approval by the user and a sandbox; tasks are plans of
  work whose steps are bound to the runs that carry them out; everything durable is in a
  SQLite database with a content store for long texts.  The library models the parts that
  decide and that keep state, and leaves out input and output.

  Foundations.
    \<^item> \<open>Prelude\<close>: results (\<open>pyerr + 'a\<close>, the exceptions of the code as values), association lists
      in the order of Python dictionaries, and the named collections of rules on results.
    \<^item> \<open>PyStr\<close>, \<open>PyVal\<close>: the string methods and the JSON-like values the code uses.
    \<^item> \<open>Glob\<close>: \<open>fnmatch\<close> and the regular expressions of the policies, written out.

  Tasks (\<open>tasks/\<close>, \<open>persistence/task_repository.py\<close>, \<open>content.py\<close>, \<open>blob_store.py\<close>, \<open>database.py\<close>).
    \<^item> \<open>TaskTypes\<close>: the data classes and their dictionary conversions (\<open>tasks/types.py\<close>).
    \<^item> \<open>Db\<close>: the tables (\<open>persistence/schema.py\<close>) as lists of rows, transactions that restore the
      database on an error, the content store and the reclamation of its blobs.
    \<^item> \<open>TaskRepo\<close>: the repository's statements and operations over these tables.
    \<^item> \<open>TaskService\<close>: the service with its two backends, a dictionary in memory and the repository.
    \<^item> \<open>TaskSpec\<close> states what a backend promises, as operations on one abstract task, and the
      locale of a backend; \<open>TaskMem\<close> interprets it for the memory, \<open>TaskDb\<close>, \<open>TaskSql\<close> and
      \<open>TaskSqlOps\<close> for the database, through an abstraction function on the tables.
    \<^item> \<open>TaskAgree\<close>, \<open>TaskProps\<close>, \<open>TaskReach\<close>: the two backends answer alike, updates are not lost,
      a task can be finished, and the invariant of all reachable states.

  Tools (\<open>tools/\<close>, \<open>tools/security/\<close>).
    \<^item> \<open>Capabilities\<close>: capabilities of tools, the filter and the waves of parallel calls
      (\<open>capabilities.py\<close>, \<open>tool_filter.py\<close>, \<open>tool_call_scheduler.py\<close>).
    \<^item> \<open>CommandPolicy\<close>, \<open>Permissions\<close>, \<open>Approval\<close>, \<open>Sandbox\<close>: one theory for each file of
      \<open>tools/security\<close>: the state is the rules, the pending requests with their futures and waiting
      tasks, and the resolved roots.
    \<^item> \<open>Exposure\<close>, \<open>ToolRegistry\<close>: which tools a model sees and which schemas are registered
      (\<open>exposure.py\<close>).
    \<^item> \<open>Orchestrator\<close>: the order of all these checks before a tool runs (\<open>orchestrator.py\<close>).

  File tools (\<open>tools/code/\<close>).
    \<^item> \<open>TextLines\<close>: lines, line ends and substrings as Python has them.
    \<^item> \<open>Patch\<close>, \<open>PatchProps\<close>: unified diffs (\<open>patch.py\<close>): the parser, the placing of the hunks and the one
      pass that rewrites a file.  The reference replaces pieces of the list of lines
      (\<open>patched_file_is_spliced\<close>); a printed diff parses to itself.
    \<^item> \<open>CodeFiles\<close>: the workspace (\<open>common.py\<close>) and the read tool (\<open>read_file.py\<close>).  The state
      \<open>code_world\<close> is the dictionary of files and the versions of the texts that were seen.
    \<^item> \<open>CodeTools\<close>: the tools that write, edit and patch (\<open>write_file.py\<close>, \<open>edit_file.py\<close>,
      \<open>apply_patch.py\<close>), and \<open>run_call\<close>, one call of a tool.
    \<^item> \<open>CodeToolProps\<close>: the tools stay in the workspace; a \<open>session\<close> of calls, with anything happening
      to the files in between, only overwrites texts it has seen; edits and patches that fail.
    \<^item> \<open>CodeGlob\<close>: the globs of the listing and searching tools (\<open>common.py\<close>).

  Plans and runs (\<open>plans/\<close>, \<open>runs/\<close>, \<open>persistence/plan_repository.py\<close>, \<open>run_repository.py\<close>).
    \<^item> \<open>Json\<close>: the part of the standard library's \<open>json\<close> the columns rely on, a printer with sorted or
      unsorted keys and a reader, and that the reader gives back what the printer wrote.
    \<^item> \<open>RunTypes\<close>: kinds, statuses, the dictionaries of runs and events and their public forms.
    \<^item> \<open>Plans\<close>, \<open>PlanProps\<close>: the table of plans and the ledger over it; the ledger refines a machine
      with at most one open plan for each conversation.
    \<^item> \<open>MemRuns\<close>, \<open>SqlRuns\<close>: the two run repositories, in memory and in SQLite.
    \<^item> \<open>RunStore\<close>: the contract of a run repository as the locale \<open>run_store\<close> (finished runs are
      final, an idempotency key creates one run), interpreted for the memory there and for SQLite
      in \<open>RunSql\<close>.
    \<^item> \<open>RunProps\<close>: the contract for both, the numbering of events, and stored events read back.

  Run manager (\<open>runs/run_manager.py\<close>, \<open>runs/journal.py\<close>).
    \<^item> \<open>RunManager\<close>: the state (records, events in memory, subscribers, writers of nodes, stop flags,
      the journal as lists of lines) over one of the two repositories; hydration, and how events
      are appended, persisted, merged and read.
    \<^item> \<open>RunManagerOps\<close>: the handlers: creation with its compensation, idempotent reservation, binding
      to nodes, status and metadata, stopping, finishing, subscriptions, and recovery from the
      journal when the process starts.
    \<^item> \<open>RunRows\<close>: what the operations of the SQLite repository keep of the other runs' rows;
      \<open>RunWriters\<close>: the sections as the step relation \<open>rm_step\<close>, in any order and with restarts, and
      the invariant \<open>mgr_inv\<close> they keep; \<open>RunMgrProps\<close>: one writer for each node, the recovery from
      the journal, and what a repeated creation does to the numbering of events.

  Conversations (\<open>chat/\<close>, \<open>persistence/repository.py\<close>, \<open>model/usage.py\<close>).
    \<^item> \<open>NodeTypes\<close>: the nodes of the tree, their creation (\<open>chat/node.py\<close>) and the usage records.
    \<^item> \<open>ChatRepo\<close>, \<open>ChatPersist\<close>: the rows of conversations, nodes, messages, model states, tool calls
      and results (\<open>repository.py\<close>), with the cascades of the schema; \<open>ChatPersist\<close> has the
      operations that store a branch, a turn of the user and the rounds of an answer.
    \<^item> \<open>Conversation\<close>: the tree in memory (\<open>chat/conversation.py\<close>): a dictionary of nodes that name
      their parent and their children, the current node and the root.
    \<^item> \<open>ToolFormat\<close>, \<open>CanonicalReader\<close>: the text a model sees of a tool result, the budget of a round
      (\<open>chat/tool_result_format.py\<close>), and the reader of rows (\<open>chat/canonical_reader.py\<close>).
    \<^item> \<open>ChatManager\<close>: loading, creation, update and deletion of conversations and nodes and the choice
      of model and mode (\<open>chat/chat_manager.py\<close>).
    \<^item> \<open>ChatTree\<close>: the invariant \<open>tree_ok\<close> of the table of nodes and the descendants of a node;
      \<open>ChatSteps\<close>: every operation keeps it; \<open>ChatLoad\<close>: what loading yields, as the relation
      \<open>node_matches\<close> between rows and nodes; \<open>ChatDelete\<close>: deletion in memory and in the database.
    \<^item> \<open>ChatProps\<close>, \<open>ToolProps\<close>: the properties of trees, loading and deletion, and of tool results.

  Conventions.  Strings are lists of characters (Latin-1); Python integers are \<open>int\<close>; the clock,
  fresh identifiers, the digest and the compression are arguments; a section that holds a lock,
  and a handler between two points where it waits, is one step; a transaction that raises
  leaves the database as it was.  The file system of the sandbox is a record of the working
  directory, the home directories and the symbolic links; the file tools see resolved paths only.  A file that is
  not UTF-8 carries the message of its decoder; a write takes the locks of its paths, does its
  work and lets them go in one step.

  Bounds.  \<open>realpath\<close> follows at most \<open>fs_max_links\<close> links and then fails, as the operating system
  does; a larger bound never changes an answer and a path without links needs none.  The walk
  over a schema and the parser of patterns recurse on a size, so no fuel is used there.  The JSON reader has the length of its
  document as fuel; every call consumes a character, and the round trip shows it is enough.
  A loop over the tree that nothing bounds (the walk up the parents, the passes that drop dangling
  children) is an option, with \<open>None\<close> for a loop that does not end; \<open>loading_terminates\<close> shows
  that none of them runs forever on what the database can hold.  The recursion of \<open>del_node\<close> has
  the recursion limit of Python as an argument and raises when it is reached.

  Left out of conversations.  The preview of a tool result is a function of the caller's
  choice (\<open>preview\<close>, of at most the given text in the property that needs it); titles of
  branches are not modelled, since they are not Latin-1.  The place of a row in its table stands
  for its \<open>rowid\<close>.  Identifiers of nodes are assumed not to be empty or the text \<open>None\<close>
  (\<open>plain_ids\<close>) where a property needs it, as the code's own identifiers are.  The generation
  loop of the manager is input and output between these operations and is not modelled.

  Not modelled.  HTTP routes, model providers, child processes, network access, the search of
  files with ripgrep or with Python's regular expressions, tracing, the user interface: they hold
  no decision of their own or are input and output.
\<close>

end
